(* ===== verification/Prelude.thy ===== *)
theory Prelude
  imports Main "HOL-Library.Multiset"
begin

text \<open>
  What every component shares: the error-carrying result of a Go function
  (a sum type, with the sequencing operator that is the source's
  ``if err != nil return err''), the SQL idioms of the store over rows kept as
  lists, stable sorting by a three-way comparator (the contract of Go's
  slices.SortStableFunc and cmp.Compare), byte strings with their comparison,
  trimming and decimal conversions, and the collections of rules the component
  proofs use.
\<close>

named_theorems frame "an operation leaves this part of the database alone"
named_theorems sql "rules for the SQL idioms over row lists"

section \<open>Results: a value or an error\<close>

text \<open>The sentinels of internal/store/errors.go that the modelled operations
  return. \<open>DBError\<close> is the raw driver error of a constraint that the source
  does not translate, by the constraint's name; \<open>ParseError\<close> a payload that
  does not decode; \<open>OutOfFuel\<close> belongs to the
  model alone and is proved unreachable where it could occur.\<close>

datatype err =
    ErrNotFound
  | ErrBadTransition
  | ErrLeased
  | ErrBlocked
  | ErrCycle
  | ErrEdgeExists
  | ErrInvalidInput
  | ErrDecisionExists
  | ErrForbidden
  | ErrMissingApprovals
  | ErrApprovalResolved
  | ErrNoRevision
  | ErrNotQualified
  | ErrSelfApproval
  | ErrNotPriorApprover
  | ErrReviewOpen
  | ParseError string
  | DBError string
  | OutOfFuel

definition andThen :: "'e + 'a \<Rightarrow> ('a \<Rightarrow> 'e + 'b) \<Rightarrow> 'e + 'b" where
  "andThen m k = (case m of Inl e \<Rightarrow> Inl e | Inr x \<Rightarrow> k x)"

lemma andThen_simps [simp]:
  "andThen (Inl e) k = Inl e"
  "andThen (Inr x) k = k x"
  by (simp_all add: andThen_def)

lemma andThen_Inr_iff:
  "andThen m k = Inr y \<longleftrightarrow> (\<exists>x. m = Inr x \<and> k x = Inr y)"
  by (cases m) auto

lemma andThen_Inl_iff:
  "andThen m k = Inl e \<longleftrightarrow> m = Inl e \<or> (\<exists>x. m = Inr x \<and> k x = Inl e)"
  by (cases m) auto

lemma andThen_InrE:
  assumes "andThen m k = Inr y"
  obtains x where "m = Inr x" "k x = Inr y"
  using assms by (auto simp: andThen_Inr_iff)

lemma andThen_cong [fundef_cong]:
  "m = m' \<Longrightarrow> (\<And>x. m' = Inr x \<Longrightarrow> k x = k' x) \<Longrightarrow> andThen m k = andThen m' k'"
  by (cases m) auto

text \<open>A loop whose body may fail: it stops at the first error.\<close>

fun foldE :: "('a \<Rightarrow> 's \<Rightarrow> 'e + 's) \<Rightarrow> 'a list \<Rightarrow> 's \<Rightarrow> 'e + 's" where
  "foldE f [] s = Inr s"
| "foldE f (x # xs) s = andThen (f x s) (foldE f xs)"

lemma foldE_invariant:
  assumes "\<And>x s s'. x \<in> set xs \<Longrightarrow> P s \<Longrightarrow> f x s = Inr s' \<Longrightarrow> P s'"
    and "P s" "foldE f xs s = Inr s'"
  shows "P s'"
  using assms
proof (induction xs arbitrary: s)
  case (Cons x xs)
  from Cons.prems(3) obtain s1 where "f x s = Inr s1" "foldE f xs s1 = Inr s'"
    by (auto simp: andThen_Inr_iff)
  with Cons show ?case by (metis list.set_intros)
qed simp

section \<open>SQL over rows in a list\<close>

text \<open>\<open>UPDATE ... SET f WHERE p\<close>: every matching row is rewritten in
  place.\<close>

definition updWhere :: "('r \<Rightarrow> bool) \<Rightarrow> ('r \<Rightarrow> 'r) \<Rightarrow> 'r list \<Rightarrow> 'r list" where
  "updWhere p f rows = map (\<lambda>r. if p r then f r else r) rows"

lemma length_updWhere [simp, sql]: "length (updWhere p f rows) = length rows"
  by (simp add: updWhere_def)

lemma updWhere_simps [simp]:
  "updWhere p f [] = []"
  "updWhere p f (r # rows) = (if p r then f r else r) # updWhere p f rows"
  by (simp_all add: updWhere_def)

lemma updWhere_none: "(\<And>r. r \<in> set rows \<Longrightarrow> \<not> p r) \<Longrightarrow> updWhere p f rows = rows"
  by (induction rows) auto

lemma in_set_updWhere:
  "x \<in> set (updWhere p f rows) \<longleftrightarrow>
     (\<exists>r\<in>set rows. x = (if p r then f r else r))"
  by (auto simp: updWhere_def)

lemma map_updWhere_same [sql]:
  "(\<And>r. p r \<Longrightarrow> k (f r) = k r) \<Longrightarrow> map k (updWhere p f rows) = map k rows"
  by (induction rows) auto

text \<open>\<open>SELECT ... WHERE p\<close> of one row.\<close>

abbreviation row :: "('r \<Rightarrow> bool) \<Rightarrow> 'r list \<Rightarrow> 'r option" where
  "row p rows \<equiv> List.find p rows"

lemma row_SomeD: "row p rows = Some r \<Longrightarrow> r \<in> set rows \<and> p r"
  by (auto simp: find_Some_iff in_set_conv_nth)

lemma row_None_iff: "row p rows = None \<longleftrightarrow> (\<forall>r\<in>set rows. \<not> p r)"
  by (auto simp: find_None_iff)

lemma row_updWhere_same:
  "(\<And>r. q (f r) = q r) \<Longrightarrow>
     row q (updWhere p f rows) = map_option (\<lambda>r. if p r then f r else r) (row q rows)"
  by (induction rows) auto

lemma row_cong: "(\<And>r. r \<in> set rows \<Longrightarrow> p r = q r) \<Longrightarrow> row p rows = row q rows"
  by (induction rows) auto

lemma row_append:
  "row p (xs @ ys) = (case row p xs of Some x \<Rightarrow> Some x | None \<Rightarrow> row p ys)"
  by (induction xs) auto

lemma row_unique:
  assumes "distinct (map k rows)" "r \<in> set rows"
  shows "row (\<lambda>x. k x = k r) rows = Some r"
  using assms
proof (induction rows)
  case (Cons a rows)
  then show ?case by (cases "r = a") (auto simp: rev_image_eqI)
qed simp

lemma distinct_map_inj:
  "distinct (map k xs) \<Longrightarrow> a \<in> set xs \<Longrightarrow> b \<in> set xs \<Longrightarrow> k a = k b \<Longrightarrow> a = b"
  by (meson distinct_map inj_onD)

text \<open>The first occurrences of a list, in order (the \<open>seen\<close> map idiom).\<close>

fun firstSeen :: "'a list \<Rightarrow> 'a list \<Rightarrow> 'a list" where
  "firstSeen seen [] = []"
| "firstSeen seen (x # xs) =
     (if x \<in> set seen then firstSeen seen xs else x # firstSeen (x # seen) xs)"

lemma set_firstSeen: "set (firstSeen seen xs) = set xs - set seen"
  by (induction seen xs rule: firstSeen.induct) auto

lemma distinct_firstSeen: "distinct (firstSeen seen xs)"
  by (induction seen xs rule: firstSeen.induct) (auto simp: set_firstSeen)

lemma firstSeen_distinct:
  "distinct xs \<Longrightarrow> set xs \<inter> set seen = {} \<Longrightarrow> firstSeen seen xs = xs"
  by (induction seen xs rule: firstSeen.induct) auto

end
