(* ===== verification/Text.thy ===== *)
theory Text
  imports Prelude
begin

text \<open>
  Byte strings as the Go code handles them: a string is the list of its bytes
  (\<open>char\<close> is eight bits wide). Comparison is strings.Compare, white
  space is strings.TrimSpace with the UTF-8 encodings of Unicode's white space
  written out, numbers are strconv.Atoi and strconv.Itoa.
\<close>

section \<open>Comparison\<close>

fun strCompare :: "string \<Rightarrow> string \<Rightarrow> int" where
  "strCompare [] [] = 0"
| "strCompare [] (b # bs) = -1"
| "strCompare (a # as) [] = 1"
| "strCompare (a # as) (b # bs) =
     (if (of_char a :: nat) < of_char b then -1
      else if (of_char b :: nat) < of_char a then 1
      else strCompare as bs)"

lemma of_char_less_total:
  "\<not> (of_char a :: nat) < of_char b \<Longrightarrow> \<not> (of_char b :: nat) < of_char a \<Longrightarrow> a = b"
  by (metis linorder_neqE_nat of_char_eq_iff)

lemma strCompare_range: "strCompare a b \<in> {-1, 0, 1}"
  by (induction a b rule: strCompare.induct) auto

lemma strCompare_refl [simp]: "strCompare a a = 0"
  by (induction a) auto

lemma strCompare_0_iff: "strCompare a b = 0 \<longleftrightarrow> a = b"
  by (induction a b rule: strCompare.induct) (auto dest: of_char_less_total)

lemma strCompare_flip: "strCompare b a = - strCompare a b"
  by (induction a b rule: strCompare.induct) auto

lemma strCompare_trans:
  "strCompare a b \<le> 0 \<Longrightarrow> strCompare b c \<le> 0 \<Longrightarrow> strCompare a c \<le> 0"
proof (induction a b arbitrary: c rule: strCompare.induct)
  case (4 a as b bs)
  from "4.prems"(2) obtain x xs where c: "c = x # xs"
    by (cases c) auto
  from "4.prems"(1) have ab: "(of_char a :: nat) < of_char b \<or> (a = b \<and> strCompare as bs \<le> 0)"
    by (auto split: if_splits dest: of_char_less_total)
  from "4.prems"(2) c have bx: "(of_char b :: nat) < of_char x \<or> (b = x \<and> strCompare bs xs \<le> 0)"
    by (auto split: if_splits dest: of_char_less_total)
  consider "(of_char a :: nat) < of_char x" | "a = x" "b = x"
      "strCompare as bs \<le> 0" "strCompare bs xs \<le> 0"
    using ab bx by fastforce
  then show ?case
  proof cases
    case 1
    then show ?thesis by (simp add: c)
  next
    case 2
    then show ?thesis using "4.IH"[of xs] by (simp add: c)
  qed
next
  case (1) then show ?case by (cases c) simp_all
next
  case (2 b bs) then show ?case by (cases c) simp_all
next
  case (3 a as) then show ?case by simp
qed

section \<open>White space\<close>

text \<open>The UTF-8 encodings of the runes unicode.IsSpace accepts.\<close>

definition spaceSeqs :: "string list" where
  "spaceSeqs =
    [[CHR 0x09], [CHR 0x0A], [CHR 0x0B], [CHR 0x0C], [CHR 0x0D], [CHR 0x20],
     [CHR 0xC2, CHR 0x85], [CHR 0xC2, CHR 0xA0], [CHR 0xE1, CHR 0x9A, CHR 0x80],
     [CHR 0xE2, CHR 0x80, CHR 0x80], [CHR 0xE2, CHR 0x80, CHR 0x81],
     [CHR 0xE2, CHR 0x80, CHR 0x82], [CHR 0xE2, CHR 0x80, CHR 0x83],
     [CHR 0xE2, CHR 0x80, CHR 0x84], [CHR 0xE2, CHR 0x80, CHR 0x85],
     [CHR 0xE2, CHR 0x80, CHR 0x86], [CHR 0xE2, CHR 0x80, CHR 0x87],
     [CHR 0xE2, CHR 0x80, CHR 0x88], [CHR 0xE2, CHR 0x80, CHR 0x89],
     [CHR 0xE2, CHR 0x80, CHR 0x8A], [CHR 0xE2, CHR 0x80, CHR 0xA8],
     [CHR 0xE2, CHR 0x80, CHR 0xA9], [CHR 0xE2, CHR 0x80, CHR 0xAF],
     [CHR 0xE2, CHR 0x81, CHR 0x9F], [CHR 0xE3, CHR 0x80, CHR 0x80]]"

fun dropPrefix :: "'a list \<Rightarrow> 'a list \<Rightarrow> 'a list option" where
  "dropPrefix [] s = Some s"
| "dropPrefix (p # ps) [] = None"
| "dropPrefix (p # ps) (c # s) = (if p = c then dropPrefix ps s else None)"

lemma dropPrefix_Some: "dropPrefix p s = Some r \<Longrightarrow> s = p @ r"
  by (induction p s rule: dropPrefix.induct) (auto split: if_splits)

lemma dropPrefix_append [simp]: "dropPrefix p (p @ r) = Some r"
  by (induction p) auto

fun stripOne :: "string list \<Rightarrow> string \<Rightarrow> string option" where
  "stripOne [] s = None"
| "stripOne (q # qs) s =
     (case dropPrefix q s of Some r \<Rightarrow> Some r | None \<Rightarrow> stripOne qs s)"

lemma stripOne_shorter:
  "stripOne qs s = Some r \<Longrightarrow> (\<forall>q\<in>set qs. q \<noteq> []) \<Longrightarrow> length r < length s"
  by (induction qs s rule: stripOne.induct)
     (auto split: option.splits dest!: dropPrefix_Some)

function stripLeading :: "string list \<Rightarrow> string \<Rightarrow> string" where
  "stripLeading qs s =
     (if [] \<in> set qs then s
      else case stripOne qs s of None \<Rightarrow> s | Some r \<Rightarrow> stripLeading qs r)"
  by pat_completeness auto
termination
  by (relation "measure (\<lambda>(qs, s). length s)") (auto dest: stripOne_shorter)

declare stripLeading.simps [simp del]

definition trimSpace :: "string \<Rightarrow> string" where
  "trimSpace s =
     rev (stripLeading (map rev spaceSeqs) (rev (stripLeading spaceSeqs s)))"

lemma stripOne_suffix: "stripOne qs s = Some r \<Longrightarrow> \<exists>q. s = q @ r"
  by (induction qs s rule: stripOne.induct) (auto split: option.splits dest: dropPrefix_Some)

lemma stripLeading_suffix: "\<exists>q. s = q @ stripLeading qs s"
proof (induction qs s rule: stripLeading.induct)
  case (1 qs s)
  show ?case
  proof (cases "[] \<in> set qs \<or> stripOne qs s = None")
    case True
    then show ?thesis by (subst stripLeading.simps) auto
  next
    case False
    then obtain r where r: "stripOne qs s = Some r" "[] \<notin> set qs" by auto
    obtain q1 q2 where "s = q1 @ r" "r = q2 @ stripLeading qs r"
      using stripOne_suffix[OF r(1)] 1[OF r(2,1)] by blast
    then show ?thesis using r by (subst stripLeading.simps) (simp, metis append_assoc)
  qed
qed

lemma stripLeading_fix:
  "[] \<notin> set qs \<Longrightarrow> stripOne qs (stripLeading qs s) = None"
proof (induction qs s rule: stripLeading.induct)
  case (1 qs s)
  then show ?case
    by (subst stripLeading.simps) (auto split: option.splits)
qed

lemma stripLeading_idem: "stripLeading qs (stripLeading qs s) = stripLeading qs s"
proof (cases "[] \<in> set qs")
  case True
  then show ?thesis by (simp add: stripLeading.simps)
next
  case False
  then show ?thesis
    by (subst stripLeading.simps) (simp add: stripLeading_fix)
qed

section \<open>Parts of strings\<close>

text \<open>strings.Split at one byte, strings.Contains, strings.HasSuffix.\<close>

fun splitAt :: "char \<Rightarrow> string \<Rightarrow> string list" where
  "splitAt sep [] = [[]]"
| "splitAt sep (c # s) =
     (if c = sep then [] # splitAt sep s
      else case splitAt sep s of [] \<Rightarrow> [[c]] | part # parts \<Rightarrow> (c # part) # parts)"

definition hasPrefix :: "string \<Rightarrow> string \<Rightarrow> bool" where
  "hasPrefix s p \<longleftrightarrow> dropPrefix p s \<noteq> None"

fun containsStr :: "string \<Rightarrow> string \<Rightarrow> bool" where
  "containsStr [] p = (p = [])"
| "containsStr (c # s) p = (hasPrefix (c # s) p \<or> containsStr s p)"

definition hasSuffix :: "string \<Rightarrow> string \<Rightarrow> bool" where
  "hasSuffix s p \<longleftrightarrow> hasPrefix (rev s) (rev p)"

section \<open>Decimal numbers\<close>

fun digitsVal :: "nat \<Rightarrow> string \<Rightarrow> nat option" where
  "digitsVal acc [] = Some acc"
| "digitsVal acc (c # cs) =
     (if 48 \<le> (of_char c :: nat) \<and> (of_char c :: nat) \<le> 57
      then digitsVal (acc * 10 + (of_char c - 48)) cs else None)"

text \<open>strconv.Atoi: an optional sign, at least one digit, nothing else, and a
  value that fits in 64 bits.\<close>

definition atoi :: "string \<Rightarrow> int option" where
  "atoi s =
     (let neg = (s \<noteq> [] \<and> hd s = CHR ''-'');
          ds = (if s \<noteq> [] \<and> (hd s = CHR ''-'' \<or> hd s = CHR ''+'') then tl s else s)
      in if ds = [] then None
         else case digitsVal 0 ds of
           None \<Rightarrow> None
         | Some n \<Rightarrow>
             (let v = (if neg then - int n else int n)
              in if - (2 ^ 63) \<le> v \<and> v < 2 ^ 63 then Some v else None))"

definition digitChar :: "nat \<Rightarrow> char" where
  "digitChar n = char_of (48 + n)"

fun natStr :: "nat \<Rightarrow> string" where
  "natStr n = (if n < 10 then [digitChar n] else natStr (n div 10) @ [digitChar (n mod 10)])"

declare natStr.simps [simp del]

definition intStr :: "int \<Rightarrow> string" where
  "intStr i = (if i < 0 then CHR ''-'' # natStr (nat (- i)) else natStr (nat i))"

lemma of_char_digitChar: "n < 10 \<Longrightarrow> (of_char (digitChar n) :: nat) = 48 + n"
  by (simp add: digitChar_def)

lemma digitsVal_append:
  "digitsVal acc (xs @ ys) =
     (case digitsVal acc xs of None \<Rightarrow> None | Some n \<Rightarrow> digitsVal n ys)"
  by (induction xs arbitrary: acc) auto

lemma digitsVal_natStr: "digitsVal 0 (natStr n) = Some n"
proof (induction n rule: natStr.induct)
  case (1 n)
  show ?case
  proof (cases "n < 10")
    case True
    then show ?thesis
      by (subst natStr.simps) (simp add: of_char_digitChar)
  next
    case False
    then show ?thesis
      by (subst natStr.simps) (simp add: 1 digitsVal_append of_char_digitChar)
  qed
qed

lemma natStr_digits: "c \<in> set (natStr n) \<Longrightarrow> 48 \<le> (of_char c :: nat) \<and> (of_char c :: nat) \<le> 57"
proof (induction n rule: natStr.induct)
  case (1 n)
  then show ?case
    by (cases "n < 10") (auto simp: natStr.simps[of n] of_char_digitChar)
qed

lemma natStr_nonempty [simp]: "natStr n \<noteq> []"
  by (subst natStr.simps) simp

lemma natStr_no_sign: "CHR ''-'' \<notin> set (natStr n)" "CHR ''+'' \<notin> set (natStr n)"
  using natStr_digits by fastforce+

lemma atoi_natStr: "n < 2 ^ 63 \<Longrightarrow> atoi (natStr n) = Some (int n)"
proof -
  assume n: "n < 2 ^ 63"
  have "hd (natStr n) \<in> set (natStr n)" by simp
  then have "hd (natStr n) \<noteq> CHR ''-''" "hd (natStr n) \<noteq> CHR ''+''"
    using natStr_no_sign by metis+
  moreover have "int n < 2 ^ 63"
    using n by (metis of_nat_less_iff of_nat_numeral of_nat_power)
  ultimately show ?thesis
    by (simp add: atoi_def Let_def digitsVal_natStr)
qed

lemma natStr_inj: "natStr a = natStr b \<Longrightarrow> a = b"
  by (metis digitsVal_natStr option.inject)

lemma intStr_inj: "intStr a = intStr b \<Longrightarrow> a = b"
proof -
  have "natStr n \<noteq> CHR ''-'' # s" for n s using natStr_no_sign[of n] by auto
  then show "intStr a = intStr b \<Longrightarrow> a = b"
    by (auto simp: intStr_def dest!: natStr_inj split: if_splits) (metis)+
qed

end
