(* ===== verification/StableSort.thy ===== *)
theory StableSort
  imports Prelude
begin

text \<open>
  Sorting by a three-way comparator. \<open>sortStable\<close> is the model of Go's
  slices.SortStableFunc; \<open>cmpInt\<close> and \<open>cmpOr\<close> are cmp.Compare and cmp.Or.
  The locale states what a comparator owes the sort (the strict weak ordering
  the package documents) and proves, once, what the sort then returns: a
  permutation, in order, with equal elements left in their original order,
  and no other list has the last two.
\<close>

definition cmpInt :: "'a::linorder \<Rightarrow> 'a \<Rightarrow> int" where
  "cmpInt a b = (if a < b then -1 else if b < a then 1 else 0)"

fun cmpOr :: "int list \<Rightarrow> int" where
  "cmpOr [] = 0"
| "cmpOr (c # cs) = (if c \<noteq> 0 then c else cmpOr cs)"

fun insertBy :: "('a \<Rightarrow> 'a \<Rightarrow> int) \<Rightarrow> 'a \<Rightarrow> 'a list \<Rightarrow> 'a list" where
  "insertBy c x [] = [x]"
| "insertBy c x (y # ys) = (if c x y \<le> 0 then x # y # ys else y # insertBy c x ys)"

definition sortStable :: "('a \<Rightarrow> 'a \<Rightarrow> int) \<Rightarrow> 'a list \<Rightarrow> 'a list" where
  "sortStable c xs = foldr (insertBy c) xs []"

lemma mset_insertBy [simp]: "mset (insertBy c x xs) = add_mset x (mset xs)"
  by (induction xs) auto

lemma set_insertBy [simp]: "set (insertBy c x xs) = insert x (set xs)"
  by (induction xs) auto

lemma mset_sortStable [simp]: "mset (sortStable c xs) = mset xs"
  by (induction xs) (auto simp: sortStable_def)

lemma set_sortStable [simp]: "set (sortStable c xs) = set xs"
  by (metis mset_sortStable set_mset_mset)

lemma length_sortStable [simp]: "length (sortStable c xs) = length xs"
  by (metis mset_sortStable size_mset)

lemma distinct_sortStable [simp]: "distinct (sortStable c xs) = distinct xs"
  by (metis mset_sortStable mset_eq_imp_distinct_iff)

lemma sortStable_simps [simp]:
  "sortStable c [] = []"
  "sortStable c (x # xs) = insertBy c x (sortStable c xs)"
  by (simp_all add: sortStable_def)

locale comparator =
  fixes c :: "'a \<Rightarrow> 'a \<Rightarrow> int"
  assumes refl: "c a a = 0"
    and flip: "c a b \<le> 0 \<longleftrightarrow> 0 \<le> c b a"
    and trans: "c a b \<le> 0 \<Longrightarrow> c b d \<le> 0 \<Longrightarrow> c a d \<le> 0"
begin

lemma total: "c a b \<le> 0 \<or> c b a \<le> 0"
  using flip[of a b] flip[of b a] by linarith

lemma eq_sym: "c a b = 0 \<longleftrightarrow> c b a = 0"
  using flip[of a b] flip[of b a] by linarith

lemma sorted_insertBy:
  "sorted_wrt (\<lambda>a b. c a b \<le> 0) xs \<Longrightarrow> sorted_wrt (\<lambda>a b. c a b \<le> 0) (insertBy c x xs)"
proof (induction xs)
  case (Cons y ys)
  have set: "set (insertBy c x ys) = insert x (set ys)" by (rule set_insertBy)
  show ?case
  proof (cases "c x y \<le> 0")
    case True
    with Cons.prems show ?thesis by (auto intro: trans)
  next
    case False
    then have "c y x \<le> 0" using total by blast
    with False Cons set show ?thesis by simp
  qed
qed simp

lemma sorted_sortStable: "sorted_wrt (\<lambda>a b. c a b \<le> 0) (sortStable c xs)"
  by (induction xs) (auto intro: sorted_insertBy)

lemma filter_insertBy:
  "sorted_wrt (\<lambda>a b. c a b \<le> 0) xs \<Longrightarrow>
     filter (\<lambda>y. c k y = 0) (insertBy c x xs) = filter (\<lambda>y. c k y = 0) (x # xs)"
proof (induction xs)
  case (Cons y ys)
  show ?case
  proof (cases "c x y \<le> 0")
    case False
    have "\<not> (c k x = 0 \<and> c k y = 0)"
    proof
      assume "c k x = 0 \<and> c k y = 0"
      then have "c x k \<le> 0" "c k y \<le> 0" using eq_sym[of x k] by auto
      with False show False using trans by blast
    qed
    with False Cons show ?thesis by auto
  qed auto
qed simp

lemma stable_sortStable:
  "filter (\<lambda>y. c k y = 0) (sortStable c xs) = filter (\<lambda>y. c k y = 0) xs"
  by (induction xs) (auto simp: filter_insertBy[OF sorted_sortStable])

lemma insertBy_front:
  "(\<And>y. y \<in> set xs \<Longrightarrow> c x y \<le> 0) \<Longrightarrow> insertBy c x xs = x # xs"
  by (cases xs) auto

lemma sortStable_id: "sorted_wrt (\<lambda>a b. c a b \<le> 0) xs \<Longrightarrow> sortStable c xs = xs"
  by (induction xs) (auto intro: insertBy_front)

lemma sortStable_unique:
  assumes "sorted_wrt (\<lambda>a b. c a b \<le> 0) ys" "mset ys = mset xs"
    and "\<And>k. filter (\<lambda>y. c k y = 0) ys = filter (\<lambda>y. c k y = 0) xs"
  shows "ys = sortStable c xs"
  using assms
proof (induction ys arbitrary: xs)
  case (Cons y ys)
  let ?zs = "sortStable c xs"
  have ms: "mset ?zs = mset (y # ys)" using Cons.prems(2) by simp
  have st: "\<And>k. filter (\<lambda>z. c k z = 0) ?zs = filter (\<lambda>z. c k z = 0) (y # ys)"
    using Cons.prems(3) stable_sortStable by simp
  from ms obtain z zs where zs: "?zs = z # zs" by (cases ?zs) auto
  have "z \<in> set (y # ys)" "y \<in> set (z # zs)"
    using ms zs by (metis list.set_intros(1) mset_eq_setD)+
  then have "c y z \<le> 0" "c z y \<le> 0"
    using Cons.prems(1) sorted_sortStable[of xs] zs refl by auto
  then have "c y z = 0" using flip[of z y] by simp
  then have "z = y" using st[of y] zs refl by simp
  moreover have "ys = sortStable c zs"
  proof (rule Cons.IH)
    show "sorted_wrt (\<lambda>a b. c a b \<le> 0) ys" using Cons.prems(1) by simp
    show "mset ys = mset zs" using ms zs \<open>z = y\<close> by simp
    show "\<And>k. filter (\<lambda>z. c k z = 0) ys = filter (\<lambda>z. c k z = 0) zs"
    proof -
      fix k show "filter (\<lambda>z. c k z = 0) ys = filter (\<lambda>z. c k z = 0) zs"
        using st[of k] zs \<open>z = y\<close> by (auto split: if_splits)
    qed
  qed
  moreover have "sortStable c zs = zs"
    using sorted_sortStable[of xs] zs by (simp add: sortStable_id)
  ultimately show ?case using zs by simp
qed simp

end

section \<open>Building comparators\<close>

lemma cmpInt_facts [simp]:
  "cmpInt a a = 0" "cmpInt a b \<le> 0 \<longleftrightarrow> a \<le> b" "0 \<le> cmpInt a b \<longleftrightarrow> b \<le> a"
  "cmpInt a b = 0 \<longleftrightarrow> a = b"
  by (auto simp: cmpInt_def)

interpretation cmpInt: comparator "cmpInt :: 'a::linorder \<Rightarrow> 'a \<Rightarrow> int"
  by unfold_locales auto

text \<open>Comparing a key, and comparing one key after another with cmp.Or.\<close>

lemma comparator_key: "comparator c \<Longrightarrow> comparator (\<lambda>a b. c (f a) (f b))"
  unfolding comparator_def by blast

lemma comparator_rev: "comparator c \<Longrightarrow> comparator (\<lambda>a b. c b a)"
  unfolding comparator_def by (metis order_antisym_conv)

lemma comparator_zero: "comparator (\<lambda>a b. cmpOr [])"
  by unfold_locales auto

lemma comparator_lex:
  assumes c: "comparator c" and d: "comparator d"
  shows "comparator (\<lambda>a b. if c a b \<noteq> 0 then c a b else d a b)"
proof
  note c_flip = comparator.flip[OF c] and d_flip = comparator.flip[OF d]
  fix x y z
  show "(if c x x \<noteq> 0 then c x x else d x x) = 0"
    by (simp add: comparator.refl[OF c] comparator.refl[OF d])
  show "(if c x y \<noteq> 0 then c x y else d x y) \<le> 0 \<longleftrightarrow>
        0 \<le> (if c y x \<noteq> 0 then c y x else d y x)"
    using c_flip[of x y] c_flip[of y x] d_flip[of x y] by auto
  assume xy: "(if c x y \<noteq> 0 then c x y else d x y) \<le> 0"
    and yz: "(if c y z \<noteq> 0 then c y z else d y z) \<le> 0"
  then have le: "c x y \<le> 0" "c y z \<le> 0" by (auto split: if_splits)
  then have xz: "c x z \<le> 0" by (rule comparator.trans[OF c])
  show "(if c x z \<noteq> 0 then c x z else d x z) \<le> 0"
  proof (cases "c x z = 0")
    case True
    then have "c z x \<le> 0" using c_flip[of z x] by simp
    then have "c y x \<le> 0" "c z y \<le> 0"
      using le comparator.trans[OF c] by blast+
    then have "c x y = 0" "c y z = 0"
      using le c_flip[of y x] c_flip[of z y] by auto
    then show ?thesis
      using xy yz True comparator.trans[OF d, of x y z] by simp
  qed (use xz in auto)
qed

lemma comparator_cmpOr:
  assumes "comparator c" "comparator (\<lambda>a b. cmpOr (cs a b))"
  shows "comparator (\<lambda>a b. cmpOr (c a b # cs a b))"
  using comparator_lex[OF assms] by simp

lemmas comparator_intros =
  comparator_cmpOr comparator_zero comparator_key[OF cmpInt.comparator_axioms]
  comparator_rev[OF comparator_key[OF cmpInt.comparator_axioms]]

end
