(* ===== verification/Kinds.thy ===== *)
theory Kinds
  imports Text StableSort
begin

text \<open>
  The closed vocabularies: internal/ns/gen.go (task kinds and what a kind
  permits, the stored edge types, document statuses), the two helpers of
  internal/ns/ns.go and internal/ns/taskkind.go that read them, and the value
  sets of internal/model/task.go.
\<close>

section \<open>Task kinds and their descriptors\<close>

record descriptor =
  Claimable :: bool
  AllowsChildren :: bool
  PlanMintable :: bool
  AllowsDecisions :: bool
  CanBlock :: bool
  KindMutable :: bool
  ClosesOnAnswers :: bool

definition TaskKinds :: "string list" where
  "TaskKinds = [''bug'', ''chore'', ''decision'', ''design'', ''feature'', ''rally'',
                ''review'', ''spike'']"

abbreviation descr :: "bool \<Rightarrow> bool \<Rightarrow> bool \<Rightarrow> bool \<Rightarrow> bool \<Rightarrow> bool \<Rightarrow> bool \<Rightarrow> descriptor" where
  "descr cl ac pm ad cb km ca \<equiv>
     \<lparr> Claimable = cl, AllowsChildren = ac, PlanMintable = pm, AllowsDecisions = ad,
       CanBlock = cb, KindMutable = km, ClosesOnAnswers = ca \<rparr>"

definition TaskKindDescriptors :: "(string \<times> descriptor) list" where
  "TaskKindDescriptors =
    [(''bug'',      descr True  True  True  True  True  True  False),
     (''chore'',    descr True  True  True  True  True  True  False),
     (''decision'', descr False False True  True  True  False True),
     (''design'',   descr True  True  True  True  True  True  False),
     (''feature'',  descr True  True  True  True  True  True  False),
     (''rally'',    descr False False False False False True  False),
     (''review'',   descr True  True  False True  True  True  False),
     (''spike'',    descr True  True  False True  True  True  False)]"

text \<open>\<open>taskKindPolicy\<close> refuses a kind with no descriptor.\<close>

definition taskKindPolicy :: "string \<Rightarrow> err + descriptor" where
  "taskKindPolicy kind =
     (case map_of TaskKindDescriptors kind of
        None \<Rightarrow> Inl ErrInvalidInput
      | Some policy \<Rightarrow> Inr policy)"

definition TaskKindsMatching :: "(descriptor \<Rightarrow> bool) \<Rightarrow> string list" where
  "TaskKindsMatching keep =
     filter (\<lambda>kind. case map_of TaskKindDescriptors kind of
                        None \<Rightarrow> False | Some d \<Rightarrow> keep d) TaskKinds"

definition TaskKindAliases :: "(string \<times> string) list" where
  "TaskKindAliases =
    [(''broken'', ''bug''), (''bug'', ''bug''), (''capability'', ''feature''),
     (''choice'', ''decision''), (''chore'', ''chore''), (''cleanup'', ''chore''),
     (''decision'', ''decision''), (''defect'', ''bug''), (''design task'', ''design''),
     (''enhancement'', ''feature''), (''experiment'', ''spike''), (''feature'', ''feature''),
     (''housekeeping'', ''chore''), (''investigation'', ''spike''), (''issue'', ''bug''),
     (''maintenance'', ''chore''), (''problem'', ''bug''), (''prototype'', ''spike''),
     (''question'', ''decision''), (''review'', ''review''), (''spike'', ''spike''),
     (''story'', ''feature''), (''upgrade'', ''chore'')]"

section \<open>Enums as gates, and as the words of an error\<close>

definition ns_Set :: "string list \<Rightarrow> string \<Rightarrow> bool" where
  "ns_Set values v \<longleftrightarrow> v \<in> set values"

fun joinWith :: "string \<Rightarrow> string list \<Rightarrow> string" where
  "joinWith sep [] = []"
| "joinWith sep [x] = x"
| "joinWith sep (x # y # ys) = x @ sep @ joinWith sep (y # ys)"

definition OrList :: "string list \<Rightarrow> string" where
  "OrList values =
     (case values of
        [] \<Rightarrow> []
      | [a] \<Rightarrow> a
      | [a, b] \<Rightarrow> a @ '' or '' @ b
      | _ \<Rightarrow> joinWith '', '' (butlast values) @ '', or '' @ last values)"

section \<open>Stored edge types\<close>

record edge_term =
  et_Table :: string
  et_Type :: string
  et_Symmetric :: bool

abbreviation eterm :: "string \<Rightarrow> string \<Rightarrow> bool \<Rightarrow> edge_term" where
  "eterm tab ty s \<equiv> \<lparr> et_Table = tab, et_Type = ty, et_Symmetric = s \<rparr>"

text \<open>The Property and Inverse IRIs of an edge term are read by the graph
  projection only and are left out.\<close>

definition EdgeTerms :: "edge_term list" where
  "EdgeTerms =
    [eterm ''doc_edges'' ''blockedBy'' False, eterm ''doc_edges'' ''covers'' False,
     eterm ''doc_edges'' ''defers'' False, eterm ''doc_edges'' ''implements'' False,
     eterm ''doc_edges'' ''requires'' False, eterm ''doc_edges'' ''wasDerivedFrom'' False,
     eterm ''inline_refs'' ''references'' False,
     eterm ''rule_edges'' ''amends'' False, eterm ''rule_edges'' ''conflictsWith'' True,
     eterm ''rule_edges'' ''constrains'' False, eterm ''rule_edges'' ''needs'' False,
     eterm ''rule_edges'' ''refines'' False, eterm ''rule_edges'' ''supersedes'' False,
     eterm ''rule_edges'' ''wasDerivedFrom'' False,
     eterm ''task_edges'' ''childOf'' False, eterm ''task_edges'' ''dependsOn'' False,
     eterm ''task_edges'' ''duplicateOf'' False, eterm ''task_edges'' ''followUpTo'' False,
     eterm ''task_governed_by'' ''governedBy'' False]"

definition DeclaredEdges :: "string \<Rightarrow> string list" where
  "DeclaredEdges table =
     sortStable strCompare (map et_Type (filter (\<lambda>e. et_Table e = table) EdgeTerms))"

definition storedTaskEdgeTypes :: "string \<Rightarrow> bool" where
  "storedTaskEdgeTypes = ns_Set (DeclaredEdges ''task_edges'')"

lemma storedTaskEdgeTypes_iff [simp]:
  "storedTaskEdgeTypes typ \<longleftrightarrow>
     typ \<in> {''childOf'', ''dependsOn'', ''duplicateOf'', ''followUpTo''}"
  by (simp add: storedTaskEdgeTypes_def ns_Set_def DeclaredEdges_def EdgeTerms_def)

section \<open>The value sets of model/task.go\<close>

definition TaskPriorities :: "string list" where
  "TaskPriorities = [''critical'', ''high'', ''medium'', ''low'']"

definition TaskStates :: "string list" where
  "TaskStates = [''draft'', ''ready'', ''in_progress'', ''in_review'', ''merged'', ''completed'',
                 ''deployed_dev'', ''deployed_prod'', ''released'', ''abandoned'']"

definition DisplayState :: "string \<Rightarrow> bool \<Rightarrow> string" where
  "DisplayState state blocked =
     (if state = ''ready'' \<and> blocked then ''blocked'' else state)"

definition TaskConcerns :: "string list" where
  "TaskConcerns = [''completeness'', ''performance'', ''usability'', ''security'']"

definition SettableTaskStates :: "string list" where
  "SettableTaskStates = [''merged'', ''deployed_dev'', ''deployed_prod'', ''released'']"

definition DesignDocStatuses :: "string list" where
  "DesignDocStatuses =
    [''draft'', ''accepted'', ''stale'', ''superseded'', ''withdrawn'', ''executed'']"

section \<open>What the tables agree on\<close>

lemma kinds_have_descriptors: "map fst TaskKindDescriptors = TaskKinds"
  by (simp add: TaskKindDescriptors_def TaskKinds_def)

lemma taskKindPolicy_known: "(\<exists>p. taskKindPolicy k = Inr p) \<longleftrightarrow> k \<in> set TaskKinds"
proof -
  have "(\<exists>p. taskKindPolicy k = Inr p) \<longleftrightarrow> map_of TaskKindDescriptors k \<noteq> None"
    by (auto simp: taskKindPolicy_def split: option.splits)
  also have "\<dots> \<longleftrightarrow> k \<in> set (map fst TaskKindDescriptors)"
    by (simp add: map_of_eq_None_iff)
  finally show ?thesis by (simp only: kinds_have_descriptors)
qed

lemma taskKindPolicy_unknown:
  assumes "k \<notin> set TaskKinds" shows "taskKindPolicy k = Inl ErrInvalidInput"
proof -
  have "map_of TaskKindDescriptors k = None"
    using assms by (simp add: map_of_eq_None_iff flip: kinds_have_descriptors)
  then show ?thesis by (simp add: taskKindPolicy_def)
qed

lemma taskKindPolicy_eval:
  "taskKindPolicy ''bug'' = Inr (descr True True True True True True False)"
  "taskKindPolicy ''chore'' = Inr (descr True True True True True True False)"
  "taskKindPolicy ''decision'' = Inr (descr False False True True True False True)"
  "taskKindPolicy ''design'' = Inr (descr True True True True True True False)"
  "taskKindPolicy ''feature'' = Inr (descr True True True True True True False)"
  "taskKindPolicy ''rally'' = Inr (descr False False False False False True False)"
  "taskKindPolicy ''review'' = Inr (descr True True False True True True False)"
  "taskKindPolicy ''spike'' = Inr (descr True True False True True True False)"
  by (simp_all add: taskKindPolicy_def TaskKindDescriptors_def)

lemma claimable_kinds:
  "TaskKindsMatching Claimable = [''bug'', ''chore'', ''design'', ''feature'', ''review'', ''spike'']"
  by (simp add: TaskKindsMatching_def TaskKinds_def TaskKindDescriptors_def)

lemma claimable_kind_policy:
  "k \<in> set (TaskKindsMatching Claimable) \<longleftrightarrow> (\<exists>p. taskKindPolicy k = Inr p \<and> Claimable p)"
proof -
  have "k \<in> set TaskKinds" if "taskKindPolicy k = Inr p" for p
    using that taskKindPolicy_known by blast
  then show ?thesis
    by (auto simp: TaskKindsMatching_def taskKindPolicy_def split: option.splits)
qed

lemma not_container_kinds:
  "taskKindPolicy k = Inr p \<Longrightarrow> \<not> AllowsChildren p \<longleftrightarrow> k = ''decision'' \<or> k = ''rally''"
  by (auto simp: taskKindPolicy_def TaskKindDescriptors_def split: option.splits if_splits)

end
