(* ===== verification/TaskIds.thy ===== *)
theory TaskIds
  imports Text StableSort
begin

text \<open>
  Task ids (internal/model/taskid.go): splitting \<open><KEY>-<n>\<close>, the order
  CompareTaskIDs puts on ids, and SortTaskIDs. The order is shown to be a
  comparator, so the sort's contract applies to it.
\<close>

definition splitLastDash :: "string \<Rightarrow> (string \<times> string) option" where
  "splitLastDash tid =
     (if CHR ''-'' \<in> set tid
      then Some (rev (tl (dropWhile (\<lambda>c. c \<noteq> CHR ''-'') (rev tid))),
                 rev (takeWhile (\<lambda>c. c \<noteq> CHR ''-'') (rev tid)))
      else None)"

definition SplitTaskID :: "string \<Rightarrow> (string \<times> int) option" where
  "SplitTaskID tid =
     (case splitLastDash tid of
        None \<Rightarrow> None
      | Some (key, digits) \<Rightarrow>
          (case atoi digits of None \<Rightarrow> None | Some n \<Rightarrow> Some (key, n)))"

definition CompareTaskIDs :: "string \<Rightarrow> string \<Rightarrow> int" where
  "CompareTaskIDs a b =
     (case (SplitTaskID a, SplitTaskID b) of
        (Some _, None) \<Rightarrow> -1
      | (None, Some _) \<Rightarrow> 1
      | (None, None) \<Rightarrow> strCompare a b
      | (Some (ak, an), Some (bk, bn)) \<Rightarrow>
          if ak \<noteq> bk then strCompare ak bk else cmpInt an bn)"

definition SortTaskIDs :: "string list \<Rightarrow> string list" where
  "SortTaskIDs ids = sortStable CompareTaskIDs ids"

text \<open>The id CreateTask and CreateIdea format from a project's key and
  counter.\<close>

definition formatTaskID :: "string \<Rightarrow> nat \<Rightarrow> string" where
  "formatTaskID key n = key @ CHR ''-'' # natStr n"

lemma splitLastDash_append:
  assumes "CHR ''-'' \<notin> set s"
  shows "splitLastDash (k @ CHR ''-'' # s) = Some (k, s)"
proof -
  have all: "\<And>c. c \<in> set (rev s) \<Longrightarrow> c \<noteq> CHR ''-''" using assms by auto
  have "takeWhile (\<lambda>c. c \<noteq> CHR ''-'') (rev s @ CHR ''-'' # rev k) = rev s"
    using all by (subst takeWhile_append2) auto
  moreover have "dropWhile (\<lambda>c. c \<noteq> CHR ''-'') (rev s @ CHR ''-'' # rev k) = CHR ''-'' # rev k"
    using all by (subst dropWhile_append2) auto
  ultimately show ?thesis by (simp add: splitLastDash_def)
qed

lemma SplitTaskID_format:
  "n < 2 ^ 63 \<Longrightarrow> SplitTaskID (formatTaskID key n) = Some (key, int n)"
  by (simp add: SplitTaskID_def formatTaskID_def splitLastDash_append natStr_no_sign atoi_natStr)

lemma formatTaskID_inj:
  "formatTaskID k a = formatTaskID k b \<Longrightarrow> a = b"
  by (auto simp: formatTaskID_def dest: natStr_inj)

text \<open>The order as keys: well-formed first, then the key, then the number.\<close>

definition idRank :: "string \<Rightarrow> int" where
  "idRank a = (case SplitTaskID a of None \<Rightarrow> 1 | Some _ \<Rightarrow> 0)"

definition idKey :: "string \<Rightarrow> string" where
  "idKey a = (case SplitTaskID a of None \<Rightarrow> a | Some (k, _) \<Rightarrow> k)"

definition idNum :: "string \<Rightarrow> int" where
  "idNum a = (case SplitTaskID a of None \<Rightarrow> 0 | Some (_, n) \<Rightarrow> n)"

lemma CompareTaskIDs_keys:
  "CompareTaskIDs a b =
     cmpOr [cmpInt (idRank a) (idRank b), strCompare (idKey a) (idKey b),
            cmpInt (idNum a) (idNum b)]"
  by (auto simp: CompareTaskIDs_def idRank_def idKey_def idNum_def cmpInt_def strCompare_0_iff
      split: option.splits prod.splits)

interpretation strCmp: comparator strCompare
proof
  fix a b d
  show "strCompare a a = 0" by simp
  show "strCompare a b \<le> 0 \<longleftrightarrow> 0 \<le> strCompare b a"
    by (subst strCompare_flip[of a b]) simp
  show "strCompare a b \<le> 0 \<Longrightarrow> strCompare b d \<le> 0 \<Longrightarrow> strCompare a d \<le> 0"
    by (rule strCompare_trans)
qed

interpretation taskIdCmp: comparator CompareTaskIDs
  unfolding CompareTaskIDs_keys
  by (intro comparator_intros comparator_key[OF strCmp.comparator_axioms])

lemma CompareTaskIDs_numeric:
  "a < 2 ^ 63 \<Longrightarrow> b < 2 ^ 63 \<Longrightarrow>
     CompareTaskIDs (formatTaskID k a) (formatTaskID k b) = cmpInt a b"
  by (simp add: CompareTaskIDs_def SplitTaskID_format cmpInt_def)

end
