(* ===== verification/Schema.thy ===== *)
theory Schema
  imports Kinds TaskIds
begin

text \<open>
  The tables the modelled operations read and write, one record per row type
  and one database record whose fields are the tables (migration 0100 and the
  later ones that alter them). Timestamps are microseconds. A nullable column
  is an option. The unique indexes, CHECK constraints and foreign keys the
  operations can run into are written where the rows are inserted; the log
  every operation appends to (LogChange, internal/store/events.go) is here
  because every component calls it.
\<close>

section \<open>JSON values\<close>

datatype json =
    JNull
  | JBool bool
  | JInt int
  | JStr string
  | JTime int
  | JArr "json list"
  | JObj "(string \<times> json) list"

abbreviation jfields :: "(string \<times> string) list \<Rightarrow> json" where
  "jfields fs \<equiv> JObj (map (\<lambda>(k, v). (k, JStr v)) fs)"

section \<open>Rows\<close>

record task =
  t_id :: string
  t_project :: string
  t_title :: string
  t_body :: string
  t_priority :: string
  t_kind :: string
  t_state :: string
  t_concern :: "string option"
  t_assignee :: "string option"
  t_needs_decomposition :: bool
  t_human_only :: bool
  t_created_by :: "string option"
  t_created_at :: int
  t_updated_at :: int
  t_skills :: "string list"
  t_secrets :: "string list"
  t_plan_doc :: "int option"
  t_plan_task_key :: "string option"
  t_about_doc :: "int option"
  t_about_anchor :: "string option"
  t_deleted_at :: "int option"
  t_deleted_by :: "string option"
  t_delete_justification :: "string option"
  t_milestone :: "string option"
  t_due :: "string option"

record edge =
  e_from :: string
  e_to :: string
  e_type :: string
  e_created_at :: int

record lease =
  l_id :: int
  l_task :: string
  l_actor :: string
  l_worktree :: string
  l_acquired_at :: int
  l_renewed_at :: "int option"
  l_expires_at :: int
  l_released_at :: "int option"

record event =
  ev_id :: int
  ev_source :: string
  ev_external_id :: string
  ev_type :: string
  ev_payload :: json
  ev_received_at :: int
  ev_applied_at :: "int option"
  ev_txid :: int

record log_row =
  sl_kind :: string
  sl_entity :: string
  sl_change :: json
  sl_event :: int
  sl_at :: int

text \<open>A review flow, and the snapshot of it a project is stamped with. Maps are
  association lists.\<close>

record approval_requirement =
  aq_lane :: string
  aq_kind :: string
  aq_target :: string
  aq_role :: string

record approval_flow =
  fl_name :: string
  fl_rev :: string
  fl_match :: "(string \<times> string) list"
  fl_requirements :: "approval_requirement list"
  fl_self_review :: "string list"

record flow_snapshot =
  sn_flow :: approval_flow
  sn_reviewers :: "(string \<times> string) list"

record project =
  p_id :: string
  p_key :: string
  p_next_task_num :: nat
  p_focus :: "string list"
  p_approval_flow :: "flow_snapshot option"

record project_repo =
  pr_project :: string
  pr_repo :: string
  pr_done_state :: string

record doc =
  d_id :: int
  d_project :: string
  d_kind :: string
  d_body :: string
  d_number :: "int option"
  d_slug :: string
  d_owner :: "string option"
  d_created_by :: "string option"
  d_status :: string
  d_version :: int
  d_generated_by_task :: "string option"
  d_updated_at :: int
  d_deleted_at :: "int option"
  d_deleted_by :: "string option"
  d_delete_justification :: "string option"

record doc_edge =
  de_id :: int
  de_type :: string
  de_from :: int
  de_to_doc :: "int option"
  de_to_rule :: "int option"

record governed_by =
  g_task :: string
  g_rule :: int
  g_rule_version :: int
  g_source :: string
  g_pinned_version :: "int option"

record pull_request =
  gp_repo :: string
  gp_number :: int
  gp_task :: "string option"
  gp_state :: string
  gp_title :: string
  gp_head_ref :: string
  gp_head_sha :: string
  gp_merge_sha :: "string option"
  gp_url :: string
  gp_opened_at :: "int option"
  gp_merged_at :: "int option"
  gp_updated_at :: "int option"
  gp_author :: "string option"
  gp_queued_at :: "int option"

record ci_run =
  ci_id :: int
  ci_repo :: string
  ci_head_sha :: string
  ci_workflow :: string
  ci_status :: string
  ci_conclusion :: "string option"
  ci_url :: string
  ci_started_at :: int
  ci_completed_at :: "int option"
  ci_updated_at :: "int option"

record pr_review =
  pv_repo :: string
  pv_number :: int
  pv_reviewer :: string
  pv_state :: string
  pv_submitted_at :: int

record task_commit =
  tc_task :: string
  tc_repo :: string
  tc_sha :: string
  tc_source :: string
  tc_seen_at :: int

record main_commit =
  mc_id :: int
  mc_repo :: string
  mc_sha :: string
  mc_pushed_at :: int

record env_deploy =
  ed_repo :: string
  ed_environment :: string
  ed_gh_main_id :: "int option"
  ed_flux_main_id :: "int option"
  ed_flux_seen :: bool
  ed_updated_at :: int

record release_frontier =
  rf_repo :: string
  rf_tag :: string
  rf_main_id :: int
  rf_published_at :: int

record deploy_sha =
  ds_repo :: string
  ds_sha :: string
  ds_main_id :: int

record token =
  tk_task :: "string option"
  tk_expires_at :: "int option"
  tk_revoked_at :: "int option"

record agent_session =
  as_lease :: "int option"
  as_ended_at :: "int option"

text \<open>A review over a document, a rule or a task's change, with its reviewers'
  rounds, threads and messages. The intent confidence (a float only the surface
  shows) is left out.\<close>

record review =
  rv_id :: int
  rv_task :: "string option"
  rv_doc :: "int option"
  rv_rule :: "int option"
  rv_subject :: string
  rv_state :: string
  rv_base_ref :: string
  rv_round :: int
  rv_next_seq :: int
  rv_opened_by :: string
  rv_opened_at :: int
  rv_closed_at :: "int option"

record task_reviewer =
  tr_task :: string
  tr_actor :: string
  tr_assigned_at :: int

record review_round =
  rr_review :: int
  rr_round :: int
  rr_actor :: string
  rr_client :: string
  rr_base_ref :: string
  rr_focused :: bool
  rr_note :: string
  rr_verdict :: string
  rr_submitted_at :: int

record review_thread =
  th_id :: int
  th_review :: "int option"
  th_doc :: "int option"
  th_rule :: "int option"
  th_task :: "string option"
  th_version :: "int option"
  th_start :: "int option"
  th_end :: "int option"
  th_quote :: "string option"
  th_doc_anchor :: "string option"
  th_repo :: "string option"
  th_path :: "string option"
  th_side :: "string option"
  th_line :: "int option"
  th_anchor_text :: "string option"
  th_blob_sha :: "string option"
  th_raised_task :: "string option"
  th_raised_session :: "string option"
  th_intent :: string
  th_classifier :: "string option"
  th_status :: string
  th_author :: string
  th_created_at :: int
  th_resolved_by :: "string option"
  th_resolved_at :: "int option"

record review_message =
  rm_id :: int
  rm_thread :: int
  rm_review :: "int option"
  rm_seq :: int
  rm_actor :: string
  rm_role :: string
  rm_body :: string
  rm_created_at :: int

text \<open>A rule arranged at a section of a document, and a version of a rule.\<close>

record doc_entry =
  en_doc :: int
  en_rule :: "int option"
  en_anchor :: "string option"
  en_position :: int

record rule_version =
  rw_rule :: int
  rw_version :: int
  rw_body :: string

text \<open>The editor's lock on a body and its sessions.\<close>

record body_lock =
  bl_kind :: string
  bl_subject :: string
  bl_holder :: string

record lock_session =
  ls_id :: string
  ls_kind :: string
  ls_subject :: string
  ls_holder :: string
  ls_dirty :: bool
  ls_last_activity :: int
  ls_checked_in_at :: int
  ls_ended_at :: "int option"
  ls_reason :: "string option"
  ls_ended_by :: "string option"

text \<open>Built artifacts, where they run, and what was observed there.\<close>

record artifact =
  af_id :: int
  af_kind :: string
  af_name :: string
  af_version :: string
  af_digest :: "string option"
  af_repo :: string
  af_source_sha :: string
  af_built_at :: "int option"

record deployment =
  dp_artifact :: "int option"
  dp_environment :: string
  dp_target_kind :: string
  dp_target_name :: string
  dp_status :: string
  dp_first_seen :: int
  dp_last_update :: int

record runtime_event =
  re_id :: int
  re_cluster :: string
  re_kind :: string
  re_workload :: string
  re_image :: string
  re_artifact :: "int option"
  re_message :: string
  re_occurred_at :: int

record github_issue =
  gi_repo :: string
  gi_number :: int
  gi_title :: string
  gi_state :: string
  gi_url :: string
  gi_triage_state :: string
  gi_task :: "string option"
  gi_applies_to_versions :: "string list option"
  gi_updated_at :: "int option"

text \<open>A question posed on a task, and the answer it was given.\<close>

record decision_answer =
  an_picked :: "string list"
  an_notes :: string
  an_freetext :: string
  an_value :: string

record decision =
  dc_id :: int
  dc_task :: string
  dc_key :: string
  dc_position :: int
  dc_group :: string
  dc_question :: string
  dc_context :: string
  dc_response_type :: string
  dc_options :: "(string \<times> string) list"
  dc_min_picks :: "int option"
  dc_max_picks :: "int option"
  dc_answer :: "decision_answer option"
  dc_decided_by :: "string option"
  dc_decided_at :: "int option"

text \<open>One required decision on one revision of an entity; \<open>ap_review_kind\<close>
  is review or impact.\<close>

record approval =
  ap_id :: int
  ap_kind :: string
  ap_entity :: string
  ap_revision :: string
  ap_lane :: string
  ap_role :: "string option"
  ap_required_actor :: "string option"
  ap_resolving :: "string option"
  ap_state :: string
  ap_review_kind :: string
  ap_note :: "string option"
  ap_exception :: "string option"
  ap_created_at :: int
  ap_created_by :: "string option"
  ap_resolved_at :: "int option"

record entity_edge =
  ee_from_kind :: string
  ee_from :: string
  ee_to_kind :: string
  ee_to :: string
  ee_rel :: string
  ee_created_at :: int
  ee_created_by :: "string option"

record doc_reviewer =
  dr_doc :: int
  dr_actor :: string
  dr_assigned_at :: int

record doc_section =
  sec_doc :: int
  sec_anchor :: string
  sec_last_revised_in :: int
  sec_patched :: bool

record deliverable =
  dl_id :: string
  dl_project :: string
  dl_name :: string
  dl_description :: string
  dl_url :: string
  dl_created_by :: "string option"
  dl_created_at :: int
  dl_updated_at :: int
  dl_milestone :: "string option"

text \<open>A declaration says which entity an address or a label routes to; evidence
  is a fact reported under it. Both tables are in the order of their ids.\<close>

record artifact_declaration =
  ad_kind :: string
  ad_entity :: string
  ad_selector :: string
  ad_uri :: string
  ad_created_at :: int

record artifact_evidence_row =
  ae_kind :: string
  ae_entity :: string
  ae_uri :: string
  ae_source :: string
  ae_state :: string
  ae_provenance :: string
  ae_version :: string
  ae_url :: string
  ae_detail :: "json option"
  ae_event :: int
  ae_occurred_at :: int

record milestone =
  ml_id :: string
  ml_project :: string
  ml_title :: string
  ml_position :: int
  ml_created_by :: "string option"
  ml_created_at :: int
  ml_updated_at :: int

record branch_rule =
  br_repo :: string
  br_branch :: string
  br_merge_queue :: bool
  br_pull_request :: "bool option"
  br_checked_at :: int

record subscriber =
  sb_name :: string
  sb_last_read :: int
  sb_last_acked :: int
  sb_updated_at :: int

section \<open>The database\<close>

text \<open>\<open>actors\<close> are the ids, \<open>admins\<close> those with the flag,
  \<open>actor_kinds\<close> id and kind (human or agent), \<open>github_users\<close> id and
  login; \<open>project_leads\<close> project and lead, \<open>rule_owners\<close> rule and owner; \<open>rules\<close> keeps id and current version, \<open>participants\<close> project
  and actor, \<open>entity_seq\<close> the counter of a project and kind:
  the columns the modelled code reads. \<open>wall\<close> is what time.Now() answers
  during the transaction, which LogChange reads beside the store's own clock;
  \<open>txid\<close> is the running transaction's id and \<open>xmin\<close> the snapshot's
  lower bound of running transactions (the commit horizon).\<close>

record db =
  tasks :: "task list"
  task_edges :: "edge list"
  leases :: "lease list"
  next_lease_id :: int
  events :: "event list"
  next_event_id :: int
  state_log :: "log_row list"
  projects :: "project list"
  project_repos :: "project_repo list"
  actors :: "string list"
  admins :: "string list"
  actor_kinds :: "(string \<times> string) list"
  github_users :: "(string \<times> string) list"
  participants :: "(string \<times> string) list"
  project_leads :: "(string \<times> string) list"
  docs :: "doc list"
  doc_edges :: "doc_edge list"
  rules :: "(int \<times> int) list"
  rule_owners :: "(int \<times> string) list"
  task_governed_by :: "governed_by list"
  decisions :: "decision list"
  next_decision_id :: int
  milestones :: "milestone list"
  entity_seq :: "((string \<times> string) \<times> int) list"
  pull_requests :: "pull_request list"
  ci_runs :: "ci_run list"
  next_ci_id :: int
  pr_reviews :: "pr_review list"
  task_commits :: "task_commit list"
  main_commits :: "main_commit list"
  next_main_id :: int
  env_deploys :: "env_deploy list"
  release_frontiers :: "release_frontier list"
  deploy_shas :: "deploy_sha list"
  tokens :: "token list"
  agent_sessions :: "agent_session list"
  reviews :: "review list"
  next_review_id :: int
  task_reviewers :: "task_reviewer list"
  review_rounds :: "review_round list"
  review_threads :: "review_thread list"
  next_thread_id :: int
  review_messages :: "review_message list"
  next_message_id :: int
  doc_entries :: "doc_entry list"
  rule_versions :: "rule_version list"
  body_locks :: "body_lock list"
  lock_sessions :: "lock_session list"
  artifacts :: "artifact list"
  next_artifact_id :: int
  deployments :: "deployment list"
  runtime_events :: "runtime_event list"
  next_runtime_id :: int
  github_issues :: "github_issue list"
  approvals :: "approval list"
  next_approval_id :: int
  entity_edges :: "entity_edge list"
  doc_reviewers :: "doc_reviewer list"
  doc_sections :: "doc_section list"
  deliverables :: "deliverable list"
  artifact_declarations :: "artifact_declaration list"
  artifact_evidence :: "artifact_evidence_row list"
  branch_rules :: "branch_rule list"
  subscribers :: "subscriber list"
  wall :: int
  txid :: int
  xmin :: int

definition emptyDb :: db where
  "emptyDb = \<lparr> tasks = [], task_edges = [], leases = [], next_lease_id = 1,
     events = [], next_event_id = 1, state_log = [], projects = [], project_repos = [],
     actors = [], admins = [], actor_kinds = [], github_users = [], participants = [], project_leads = [], docs = [], doc_edges = [], rules = [], rule_owners = [],
     task_governed_by = [], decisions = [], next_decision_id = 1, milestones = [], entity_seq = [], pull_requests = [], ci_runs = [], next_ci_id = 1, pr_reviews = [],
     task_commits = [], main_commits = [], next_main_id = 1, env_deploys = [],
     release_frontiers = [], deploy_shas = [], tokens = [], agent_sessions = [],
     reviews = [], next_review_id = 1, task_reviewers = [], review_rounds = [], review_threads = [],
     next_thread_id = 1, review_messages = [], next_message_id = 1, doc_entries = [], rule_versions = [],
     body_locks = [], lock_sessions = [], artifacts = [], next_artifact_id = 1, deployments = [],
     runtime_events = [], next_runtime_id = 1, github_issues = [], approvals = [], next_approval_id = 1, entity_edges = [],
     doc_reviewers = [], doc_sections = [], deliverables = [], artifact_declarations = [], artifact_evidence = [], branch_rules = [], subscribers = [], wall = 0, txid = 1, xmin = 1 \<rparr>"

text \<open>Truncate(time.Second), and the helpers nullText and nullID.\<close>

definition truncSec :: "int \<Rightarrow> int" where
  "truncSec t = t - t mod 1000000"

definition nullText :: "string \<Rightarrow> string option" where
  "nullText s = (if s = [] then None else Some s)"

definition nullID :: "int \<Rightarrow> int option" where
  "nullID i = (if i = 0 then None else Some i)"

lemma truncSec_idem [simp]: "truncSec (truncSec t) = truncSec t"
  by (simp add: truncSec_def)

lemma truncSec_le: "truncSec t \<le> t"
  by (simp add: truncSec_def)

section \<open>Reading the tasks table\<close>

definition taskRow :: "db \<Rightarrow> string \<Rightarrow> task option" where
  "taskRow d tid = row (\<lambda>t. t_id t = tid) (tasks d)"

abbreviation live :: "task \<Rightarrow> bool" where
  "live t \<equiv> t_deleted_at t = None"

definition updTask :: "string \<Rightarrow> (task \<Rightarrow> task) \<Rightarrow> db \<Rightarrow> db" where
  "updTask tid f d = d\<lparr>tasks := updWhere (\<lambda>t. t_id t = tid) f (tasks d)\<rparr>"

definition LogChange :: "string \<Rightarrow> string \<Rightarrow> int \<Rightarrow> json \<Rightarrow> db \<Rightarrow> db" where
  "LogChange entityKind entityID eventID change d =
     d\<lparr>state_log := state_log d @
        [\<lparr>sl_kind = entityKind, sl_entity = entityID, sl_change = change,
          sl_event = eventID, sl_at = wall d\<rparr>]\<rparr>"

definition docRow :: "db \<Rightarrow> int \<Rightarrow> doc option" where
  "docRow d i = row (\<lambda>x. d_id x = i) (docs d)"

definition logDocChange :: "int \<Rightarrow> int \<Rightarrow> json \<Rightarrow> db \<Rightarrow> db" where
  "logDocChange docID eventID change = LogChange ''doc'' (intStr docID) eventID change"

lemma taskRow_SomeD: "taskRow d tid = Some t \<Longrightarrow> t \<in> set (tasks d) \<and> t_id t = tid"
  by (auto simp: taskRow_def dest: row_SomeD)

lemma taskRow_None_iff: "taskRow d tid = None \<longleftrightarrow> (\<forall>t\<in>set (tasks d). t_id t \<noteq> tid)"
  by (simp add: taskRow_def row_None_iff)

lemma taskRow_unique:
  "distinct (map t_id (tasks d)) \<Longrightarrow> t \<in> set (tasks d) \<Longrightarrow> taskRow d (t_id t) = Some t"
  unfolding taskRow_def by (rule row_unique)

lemma taskRow_updTask:
  assumes "\<And>t. t_id (f t) = t_id t"
  shows "taskRow (updTask tid f d) x =
     (if x = tid then map_option f (taskRow d x) else taskRow d x)"
proof -
  have "row (\<lambda>t. t_id t = x) (updWhere (\<lambda>t. t_id t = tid) f (tasks d)) =
        map_option (\<lambda>t. if t_id t = tid then f t else t) (row (\<lambda>t. t_id t = x) (tasks d))"
    by (rule row_updWhere_same) (simp add: assms)
  moreover have "map_option (\<lambda>t. if t_id t = tid then f t else t) (taskRow d x) =
        (if x = tid then map_option f (taskRow d x) else taskRow d x)"
    by (cases "taskRow d x") (auto dest: taskRow_SomeD)
  ultimately show ?thesis by (simp add: updTask_def taskRow_def)
qed

lemma taskRow_other [simp]:
  "taskRow (LogChange k i e c d) = taskRow d"
  by (simp add: taskRow_def LogChange_def fun_eq_iff)

lemma LogChange_frame [simp, frame]:
  "tasks (LogChange k i e c d) = tasks d"
  "task_edges (LogChange k i e c d) = task_edges d"
  "leases (LogChange k i e c d) = leases d"
  "events (LogChange k i e c d) = events d"
  "docs (LogChange k i e c d) = docs d"
  "doc_edges (LogChange k i e c d) = doc_edges d"
  "projects (LogChange k i e c d) = projects d"
  "pull_requests (LogChange k i e c d) = pull_requests d"
  "project_repos (LogChange k i e c d) = project_repos d"
  "task_commits (LogChange k i e c d) = task_commits d"
  "main_commits (LogChange k i e c d) = main_commits d"
  "tokens (LogChange k i e c d) = tokens d"
  "agent_sessions (LogChange k i e c d) = agent_sessions d"
  "reviews (LogChange k i e c d) = reviews d"
  "next_lease_id (LogChange k i e c d) = next_lease_id d"
  "actors (LogChange k i e c d) = actors d"
  "env_deploys (LogChange k i e c d) = env_deploys d"
  "release_frontiers (LogChange k i e c d) = release_frontiers d"
  "wall (LogChange k i e c d) = wall d"
  "decisions (LogChange k i e c d) = decisions d"
  by (simp_all add: LogChange_def)

lemma updTask_frame [simp, frame]:
  "task_edges (updTask i f d) = task_edges d"
  "leases (updTask i f d) = leases d"
  "events (updTask i f d) = events d"
  "docs (updTask i f d) = docs d"
  "doc_edges (updTask i f d) = doc_edges d"
  "projects (updTask i f d) = projects d"
  "pull_requests (updTask i f d) = pull_requests d"
  "project_repos (updTask i f d) = project_repos d"
  "task_commits (updTask i f d) = task_commits d"
  "main_commits (updTask i f d) = main_commits d"
  "tokens (updTask i f d) = tokens d"
  "agent_sessions (updTask i f d) = agent_sessions d"
  "reviews (updTask i f d) = reviews d"
  "next_lease_id (updTask i f d) = next_lease_id d"
  "actors (updTask i f d) = actors d"
  "state_log (updTask i f d) = state_log d"
  "env_deploys (updTask i f d) = env_deploys d"
  "release_frontiers (updTask i f d) = release_frontiers d"
  "wall (updTask i f d) = wall d"
  "decisions (updTask i f d) = decisions d"
  by (simp_all add: updTask_def)

lemma ids_updTask [simp]:
  "(\<And>t. t_id (f t) = t_id t) \<Longrightarrow> map t_id (tasks (updTask i f d)) = map t_id (tasks d)"
  by (simp add: updTask_def map_updWhere_same)

section \<open>The rally indexes\<close>

text \<open>The predicates of tasks_one_active_rally and tasks_one_draft_rally
  (rallyActiveCondition, rallyDraftCondition). The states in which a rally
  steers nothing are draft and every delivered state.\<close>

definition deliveryRanks :: "(string \<times> int) list" where
  "deliveryRanks =
     [(''merged'', 1), (''deployed_dev'', 2), (''deployed_prod'', 3), (''released'', 3)]"

definition deliveredStateSet :: "string \<Rightarrow> bool" where
  "deliveredStateSet st \<longleftrightarrow> st \<in> set ([''abandoned'', ''completed''] @ map fst deliveryRanks)"

definition rallyActiveCondition :: "task \<Rightarrow> bool" where
  "rallyActiveCondition t \<longleftrightarrow>
     t_kind t = ''rally'' \<and> live t \<and> \<not> (t_state t = ''draft'' \<or> deliveredStateSet (t_state t))"

definition rallyDraftCondition :: "task \<Rightarrow> bool" where
  "rallyDraftCondition t \<longleftrightarrow> t_kind t = ''rally'' \<and> t_state t = ''draft'' \<and> live t"

text \<open>Writing row \<open>t\<close> violates one of the two indexes: another row of the
  project already satisfies the predicate \<open>t\<close> satisfies. rallyUniqueConflict
  turns both into ErrInvalidInput, so \<open>putTask\<close> does.\<close>

definition rallyUniqueConflict :: "task \<Rightarrow> db \<Rightarrow> bool" where
  "rallyUniqueConflict t d \<longleftrightarrow>
     (\<exists>u\<in>set (tasks d). t_id u \<noteq> t_id t \<and> t_project u = t_project t \<and>
        (rallyActiveCondition t \<and> rallyActiveCondition u \<or>
         rallyDraftCondition t \<and> rallyDraftCondition u))"

definition putTask :: "string \<Rightarrow> (task \<Rightarrow> task) \<Rightarrow> db \<Rightarrow> err + db" where
  "putTask tid f d =
     (case taskRow d tid of
        None \<Rightarrow> Inr d
      | Some t \<Rightarrow>
          if rallyUniqueConflict (f t) d then Inl ErrInvalidInput
          else Inr (updTask tid f d))"

definition oneRally :: "db \<Rightarrow> bool" where
  "oneRally d \<longleftrightarrow>
     (\<forall>t\<in>set (tasks d). \<forall>u\<in>set (tasks d). t_project t = t_project u \<longrightarrow>
        rallyActiveCondition t \<and> rallyActiveCondition u \<or>
        rallyDraftCondition t \<and> rallyDraftCondition u \<longrightarrow> t_id t = t_id u)"

lemma oneRally_putTask:
  assumes "oneRally d" "putTask tid f d = Inr d'"
    and "\<And>t. t_id (f t) = t_id t" "\<And>t. t_project (f t) = t_project t"
    and "distinct (map t_id (tasks d))"
  shows "oneRally d'"
proof (cases "taskRow d tid")
  case None
  then show ?thesis using assms by (simp add: putTask_def)
next
  case (Some t)
  have uniq: "u = t" if "u \<in> set (tasks d)" "t_id u = tid" for u
    using taskRow_unique[OF assms(5) that(1)] that(2) Some by simp
  from Some assms(2) have d': "d' = updTask tid f d" and nc: "\<not> rallyUniqueConflict (f t) d"
    by (auto simp: putTask_def split: if_splits)
  have tid: "t_id t = tid" using Some taskRow_SomeD by blast
  have mem: "x \<in> set (tasks d') \<Longrightarrow> x = f t \<or> (x \<in> set (tasks d) \<and> t_id x \<noteq> tid)" for x
    by (auto simp: d' updTask_def in_set_updWhere dest: uniq split: if_splits)
  show ?thesis
    unfolding oneRally_def
  proof (intro ballI impI)
    fix x y
    assume x: "x \<in> set (tasks d')" and y: "y \<in> set (tasks d')" and p: "t_project x = t_project y"
      and r: "rallyActiveCondition x \<and> rallyActiveCondition y \<or>
              rallyDraftCondition x \<and> rallyDraftCondition y"
    show "t_id x = t_id y"
    proof (rule ccontr)
      assume ne: "t_id x \<noteq> t_id y"
      from mem[OF x] mem[OF y] ne
      consider "x = f t" "y \<in> set (tasks d)" "t_id y \<noteq> tid"
        | "y = f t" "x \<in> set (tasks d)" "t_id x \<noteq> tid"
        | "x \<in> set (tasks d)" "y \<in> set (tasks d)" by auto
      then show False
      proof cases
        case 1 with nc p r tid assms(3) show False
          by (auto simp: rallyUniqueConflict_def)
      next
        case 2 with nc p r tid assms(3) show False
          by (auto simp: rallyUniqueConflict_def)
      next
        case 3 with assms(1) p r ne show False by (auto simp: oneRally_def)
      qed
    qed
  qed
qed

end
