(* ===== verification/Closure.thy ===== *)
theory Closure
  imports Schema
begin

text \<open>
  When a task counts as closed, and what blocks one (internal/store/tasks.go,
  internal/store/hierarchy.go): the SQL predicates taskClosed,
  blockedCondition, planUnfinished and planBlockedCondition as functions of
  the database, the two readers that must name the same set (BlockedTaskIDs
  and IsBlocked), and the readers of closedness.
\<close>

section \<open>Containers\<close>

definition hasChildren :: "db \<Rightarrow> string \<Rightarrow> bool" where
  "hasChildren d tid \<longleftrightarrow>
     (\<exists>e\<in>set (task_edges d). e_to e = tid \<and> e_type e = ''childOf'' \<and>
        (\<exists>c\<in>set (tasks d). t_id c = e_from e \<and> live c))"

section \<open>Closed per repository\<close>

definition DefaultDoneState :: string where
  "DefaultDoneState = ''merged''"

definition deliveryRank :: "string \<Rightarrow> int" where
  "deliveryRank st = (case map_of deliveryRanks st of None \<Rightarrow> 0 | Some r \<Rightarrow> r)"

definition RepoDoneState :: "db \<Rightarrow> string \<Rightarrow> string" where
  "RepoDoneState d repo =
     (case row (\<lambda>p. pr_repo p = repo) (project_repos d) of
        None \<Rightarrow> DefaultDoneState
      | Some p \<Rightarrow> pr_done_state p)"

text \<open>The repositories where the task's work landed: task_commits joined to
  main_commits.\<close>

definition landedIn :: "db \<Rightarrow> string \<Rightarrow> string \<Rightarrow> bool" where
  "landedIn d tid repo \<longleftrightarrow>
     (\<exists>tc\<in>set (task_commits d). tc_task tc = tid \<and> tc_repo tc = repo \<and>
        (\<exists>mc\<in>set (main_commits d). mc_repo mc = tc_repo tc \<and> mc_sha mc = tc_sha tc))"

definition taskClosed :: "db \<Rightarrow> task \<Rightarrow> bool" where
  "taskClosed d t \<longleftrightarrow>
     t_state t = ''abandoned'' \<or> t_state t = ''completed'' \<or>
     (deliveryRank (t_state t) > 0 \<and>
      (hasChildren d (t_id t) \<or>
       \<not> (\<exists>tc\<in>set (task_commits d). tc_task tc = t_id t \<and>
            (\<exists>mc\<in>set (main_commits d). mc_repo mc = tc_repo tc \<and> mc_sha mc = tc_sha tc) \<and>
            deliveryRank (t_state t) < deliveryRank (RepoDoneState d (tc_repo tc)))))"

definition ClosedTaskIDs :: "db \<Rightarrow> string list \<Rightarrow> string list" where
  "ClosedTaskIDs d ids =
     map t_id (filter (\<lambda>t. t_id t \<in> set ids \<and> taskClosed d t) (tasks d))"

lemma deliveryRank_simps [simp]:
  "deliveryRank ''merged'' = 1" "deliveryRank ''deployed_dev'' = 2"
  "deliveryRank ''deployed_prod'' = 3" "deliveryRank ''released'' = 3"
  "deliveryRank ''draft'' = 0" "deliveryRank ''ready'' = 0"
  "deliveryRank ''in_progress'' = 0" "deliveryRank ''in_review'' = 0"
  "deliveryRank ''abandoned'' = 0" "deliveryRank ''completed'' = 0"
  by (simp_all add: deliveryRank_def deliveryRanks_def)

lemma deliveryRank_bounds: "0 \<le> deliveryRank st" "deliveryRank st \<le> 3"
  by (auto simp: deliveryRank_def deliveryRanks_def split: option.splits if_splits)

lemma deliveredStateSet_iff:
  "deliveredStateSet st \<longleftrightarrow> st = ''abandoned'' \<or> st = ''completed'' \<or> 0 < deliveryRank st"
  by (auto simp: deliveredStateSet_def deliveryRank_def deliveryRanks_def)

lemma deliveredStateSet_simps [simp]:
  "deliveredStateSet ''merged''" "deliveredStateSet ''deployed_dev''"
  "deliveredStateSet ''deployed_prod''" "deliveredStateSet ''released''"
  "deliveredStateSet ''abandoned''" "deliveredStateSet ''completed''"
  "\<not> deliveredStateSet ''draft''" "\<not> deliveredStateSet ''ready''"
  "\<not> deliveredStateSet ''in_progress''" "\<not> deliveredStateSet ''in_review''"
  by (simp_all add: deliveredStateSet_iff)

lemma taskClosed_landed:
  "taskClosed d t \<longleftrightarrow>
     t_state t = ''abandoned'' \<or> t_state t = ''completed'' \<or>
     (0 < deliveryRank (t_state t) \<and>
      (hasChildren d (t_id t) \<or>
       (\<forall>repo. landedIn d (t_id t) repo \<longrightarrow>
          deliveryRank (RepoDoneState d repo) \<le> deliveryRank (t_state t))))"
  by (auto simp: taskClosed_def landedIn_def not_less)

lemma taskClosed_delivered: "taskClosed d t \<Longrightarrow> deliveredStateSet (t_state t)"
  by (auto simp: taskClosed_def deliveredStateSet_iff)

lemma open_states_not_closed:
  "t_state t \<in> {''draft'', ''ready'', ''in_progress'', ''in_review''} \<Longrightarrow> \<not> taskClosed d t"
  using taskClosed_delivered by fastforce

section \<open>What blocks a task\<close>

definition blockedCondition :: "db \<Rightarrow> edge \<Rightarrow> bool" where
  "blockedCondition d e \<longleftrightarrow>
     e_type e = ''dependsOn'' \<and>
     (\<exists>b\<in>set (tasks d). t_id b = e_to e \<and> live b \<and> \<not> taskClosed d b)"

definition planUnfinished :: "db \<Rightarrow> doc \<Rightarrow> bool" where
  "planUnfinished d p \<longleftrightarrow>
     d_deleted_at p = None \<and>
     (d_status p = ''draft'' \<or>
      (\<exists>bt\<in>set (tasks d). t_plan_doc bt = Some (d_id p) \<and> live bt \<and> \<not> taskClosed d bt))"

definition planBlockedCondition :: "db \<Rightarrow> task \<Rightarrow> bool" where
  "planBlockedCondition d t \<longleftrightarrow>
     (case t_plan_doc t of
        None \<Rightarrow> False
      | Some plan \<Rightarrow>
          (\<exists>de\<in>set (doc_edges d). de_type de = ''blockedBy'' \<and> de_from de = plan \<and>
             (\<exists>bd\<in>set (docs d). de_to_doc de = Some (d_id bd) \<and> planUnfinished d bd)))"

definition BlockedTaskIDs :: "db \<Rightarrow> string list" where
  "BlockedTaskIDs d = remdups
     (map e_from (filter (\<lambda>e. (\<exists>t\<in>set (tasks d). t_id t = e_from e \<and> live t) \<and>
                               blockedCondition d e) (task_edges d)) @
      map t_id (filter (\<lambda>t. live t \<and> planBlockedCondition d t) (tasks d)))"

definition IsBlocked :: "db \<Rightarrow> string \<Rightarrow> bool" where
  "IsBlocked d tid \<longleftrightarrow>
     (\<exists>e\<in>set (task_edges d). e_from e = tid \<and> blockedCondition d e) \<or>
     (\<exists>t\<in>set (tasks d). t_id t = tid \<and> planBlockedCondition d t)"

lemma blocked_readers_agree:
  assumes "distinct (map t_id (tasks d))"
  shows "tid \<in> set (BlockedTaskIDs d) \<longleftrightarrow>
         (\<exists>t\<in>set (tasks d). t_id t = tid \<and> live t) \<and> IsBlocked d tid"
proof -
  have "tid \<in> set (BlockedTaskIDs d) \<longleftrightarrow>
      (\<exists>e\<in>set (task_edges d). e_from e = tid \<and> blockedCondition d e \<and>
         (\<exists>t\<in>set (tasks d). t_id t = e_from e \<and> live t)) \<or>
      (\<exists>t\<in>set (tasks d). t_id t = tid \<and> live t \<and> planBlockedCondition d t)"
    unfolding BlockedTaskIDs_def by (auto simp: image_iff)
  then show ?thesis
    unfolding IsBlocked_def using distinct_map_inj[OF assms] by metis
qed

text \<open>The suppression guard: the oldest open task of a kind about a
  document.\<close>

definition openTaskForDoc :: "db \<Rightarrow> int \<Rightarrow> string \<Rightarrow> string option" where
  "openTaskForDoc d docID kind =
     (case sortStable (\<lambda>a b. cmpOr [cmpInt (t_created_at a) (t_created_at b),
                                     strCompare (t_id a) (t_id b)])
             (filter (\<lambda>t. t_about_doc t = Some docID \<and> t_kind t = kind \<and> live t \<and>
                          \<not> taskClosed d t) (tasks d)) of
        [] \<Rightarrow> None
      | t # _ \<Rightarrow> Some (t_id t))"

lemma openTaskForDoc_None_iff:
  "openTaskForDoc d docID kind = None \<longleftrightarrow>
     \<not> (\<exists>t\<in>set (tasks d). t_about_doc t = Some docID \<and> t_kind t = kind \<and> live t \<and> \<not> taskClosed d t)"
proof -
  define p where "p = (\<lambda>t :: task. t_about_doc t = Some docID \<and> t_kind t = kind \<and> live t \<and> \<not> taskClosed d t)"
  define c where "c = (\<lambda>(a :: task) (b :: task). cmpOr [cmpInt (t_created_at a) (t_created_at b), strCompare (t_id a) (t_id b)])"
  have "sortStable c (filter p (tasks d)) = [] \<longleftrightarrow> filter p (tasks d) = []"
    by (metis length_0_conv length_sortStable)
  then show ?thesis
    by (auto simp: openTaskForDoc_def p_def c_def filter_empty_conv split: list.splits)
qed

section \<open>What these predicates read\<close>

text \<open>None of them reads anything but five tables, so an operation that leaves
  those alone leaves every verdict alone.\<close>

lemma closure_cong:
  assumes "tasks d' = tasks d" "task_edges d' = task_edges d"
    and "task_commits d' = task_commits d" "main_commits d' = main_commits d"
    and "project_repos d' = project_repos d"
  shows "hasChildren d' = hasChildren d" and taskClosed_cong: "taskClosed d' = taskClosed d"
    and "blockedCondition d' = blockedCondition d"
  using assms
  by (simp_all add: fun_eq_iff hasChildren_def taskClosed_def blockedCondition_def RepoDoneState_def)

lemma IsBlocked_cong:
  assumes "tasks d' = tasks d" "task_edges d' = task_edges d"
    and "task_commits d' = task_commits d" "main_commits d' = main_commits d"
    and "project_repos d' = project_repos d"
    and "docs d' = docs d" "doc_edges d' = doc_edges d"
  shows "IsBlocked d' = IsBlocked d" "planBlockedCondition d' = planBlockedCondition d"
proof -
  have "planUnfinished d' = planUnfinished d"
    using taskClosed_cong[OF assms(1-5)] assms(1)
    by (simp add: fun_eq_iff planUnfinished_def)
  then show p: "planBlockedCondition d' = planBlockedCondition d"
    using assms(6,7) by (simp add: fun_eq_iff planBlockedCondition_def cong: option.case_cong)
  show "IsBlocked d' = IsBlocked d"
    using closure_cong(3)[OF assms(1-5)] p assms(1,2) by (simp add: fun_eq_iff IsBlocked_def)
qed

end
