(* ===== verification/Walks.thy ===== *)
theory Walks
  imports Closure
begin

text \<open>
  Walking the task edges (internal/store/tasks.go reachesViaEdge,
  internal/store/hierarchy.go parentOf, ancestorHops, descendantDepth): each
  loop of the source with its visited set, terminating on any stored graph,
  cycles included. The breadth-first search is proved to decide reachability;
  what clients need of it is the locale \<open>edge_walk\<close>.
\<close>

section \<open>Stored edges as a relation\<close>

definition edgeRel :: "db \<Rightarrow> string \<Rightarrow> (string \<times> string) set" where
  "edgeRel d typ = {(e_from e, e_to e) |e. e \<in> set (task_edges d) \<and> e_type e = typ}"

definition edgesOut :: "db \<Rightarrow> string \<Rightarrow> string \<Rightarrow> string list" where
  "edgesOut d typ x = map e_to (filter (\<lambda>e. e_from e = x \<and> e_type e = typ) (task_edges d))"

definition edgesInto :: "db \<Rightarrow> string \<Rightarrow> string list \<Rightarrow> string list" where
  "edgesInto d typ xs = map e_from (filter (\<lambda>e. e_to e \<in> set xs \<and> e_type e = typ) (task_edges d))"

lemma edgesOut_iff [simp]: "y \<in> set (edgesOut d typ x) \<longleftrightarrow> (x, y) \<in> edgeRel d typ"
  by (auto simp: edgesOut_def edgeRel_def)

lemma edgesInto_iff [simp]:
  "y \<in> set (edgesInto d typ xs) \<longleftrightarrow> (\<exists>x\<in>set xs. (y, x) \<in> edgeRel d typ)"
  by (auto simp: edgesInto_def edgeRel_def)

lemma edgeRel_cong: "task_edges d' = task_edges d \<Longrightarrow> edgeRel d' typ = edgeRel d typ"
  by (simp add: edgeRel_def)

section \<open>Breadth-first search\<close>

lemma card_visited_decreases:
  assumes "new = firstSeen visited xs" "new \<noteq> []" "set xs \<subseteq> set all"
  shows "card (set all - set (new @ visited)) < card (set all - set visited)"
proof (rule psubset_card_mono)
  obtain n where "n \<in> set new" using assms(2) by (cases new) auto
  then have "n \<in> set all" "n \<notin> set visited" "n \<in> set (new @ visited)"
    using assms by (auto simp: set_firstSeen)
  then show "set all - set (new @ visited) \<subset> set all - set visited" by auto
qed simp

function reachLoop :: "db \<Rightarrow> string \<Rightarrow> string \<Rightarrow> string list \<Rightarrow> string list \<Rightarrow> bool" where
  "reachLoop d typ target visited [] = False"
| "reachLoop d typ target visited (cur # frontier) =
     (let parents = edgesOut d typ cur in
      if target \<in> set parents then True
      else let new = firstSeen visited parents
           in reachLoop d typ target (new @ visited) (frontier @ new))"
  by pat_completeness auto
termination
proof (relation "measures [\<lambda>(d, typ, target, visited, frontier).
                             card (set (map e_to (task_edges d)) - set visited),
                           \<lambda>(d, typ, target, visited, frontier). length frontier]", goal_cases)
  case 1 show ?case by simp
next
  case (2 d ty target visited cur frontier parents new)
  show ?case
  proof (cases "new = []")
    case False
    have "set parents \<subseteq> set (map e_to (task_edges d))"
      by (auto simp: 2(1) edgesOut_def)
    from card_visited_decreases[OF 2(3) False this] show ?thesis by simp
  qed simp
qed

definition reachesViaEdge :: "db \<Rightarrow> string \<Rightarrow> string \<Rightarrow> string \<Rightarrow> bool" where
  "reachesViaEdge d start target typ = reachLoop d typ target [start] [start]"

lemma reachLoop_correct:
  assumes "start \<in> set visited" "set frontier \<subseteq> set visited"
    and "\<And>x. x \<in> set visited \<Longrightarrow> (start, x) \<in> (edgeRel d typ)\<^sup>*"
    and "\<And>x y. x \<in> set visited \<Longrightarrow> x \<notin> set frontier \<Longrightarrow> (x, y) \<in> edgeRel d typ \<Longrightarrow>
           y \<in> set visited \<and> y \<noteq> target"
  shows "reachLoop d typ target visited frontier \<longleftrightarrow> (start, target) \<in> (edgeRel d typ)\<^sup>+"
  using assms
proof (induction d "typ" target visited frontier rule: reachLoop.induct)
  case (1 d ty target visited)
  have closed: "y \<in> set visited \<and> y \<noteq> target" if "(start, y) \<in> (edgeRel d ty)\<^sup>+" for y
    using that by (induction rule: trancl_induct) (use 1 in auto)
  then have "(start, target) \<notin> (edgeRel d ty)\<^sup>+" by blast
  then show ?case by simp
next
  case (2 d ty target visited cur frontier)
  let ?R = "edgeRel d ty"
  have cur: "(start, cur) \<in> ?R\<^sup>*" using 2 by simp
  show ?case
  proof (cases "target \<in> set (edgesOut d ty cur)")
    case True
    then have "(start, target) \<in> ?R\<^sup>+" using cur by simp
    with True show ?thesis by simp
  next
    case False
    let ?new = "firstSeen visited (edgesOut d ty cur)"
    have "reachLoop d ty target (?new @ visited) (frontier @ ?new) \<longleftrightarrow> (start, target) \<in> ?R\<^sup>+"
    proof (rule "2.IH"[OF refl False refl])
      show "start \<in> set (?new @ visited)" using 2 by simp
      show "set (frontier @ ?new) \<subseteq> set (?new @ visited)" using 2 by auto
      show "(start, x) \<in> ?R\<^sup>*" if "x \<in> set (?new @ visited)" for x
        using that 2(4) cur by (auto simp: set_firstSeen intro: rtrancl_into_rtrancl)
      show "y \<in> set (?new @ visited) \<and> y \<noteq> target"
        if "x \<in> set (?new @ visited)" "x \<notin> set (frontier @ ?new)" "(x, y) \<in> ?R" for x y
        using that 2(5)[of x y] False by (cases "x = cur") (auto simp: set_firstSeen)
    qed
    with False show ?thesis by (simp add: Let_def)
  qed
qed

lemma reachesViaEdge_trancl:
  "reachesViaEdge d start target typ \<longleftrightarrow> (start, target) \<in> (edgeRel d typ)\<^sup>+"
  unfolding reachesViaEdge_def by (rule reachLoop_correct) auto

text \<open>What the callers rely on: the search answers reachability over one edge
  at least, so refusing an edge it reports keeps the relation acyclic.\<close>

locale edge_walk =
  fixes reaches :: "db \<Rightarrow> string \<Rightarrow> string \<Rightarrow> string \<Rightarrow> bool"
  assumes reaches_iff: "reaches d s t typ \<longleftrightarrow> (s, t) \<in> (edgeRel d typ)\<^sup>+"
begin

lemma insert_acyclic:
  assumes "acyclic (edgeRel d typ)" "\<not> reaches d t s typ" "s \<noteq> t"
  shows "acyclic (insert (s, t) (edgeRel d typ))"
  using assms by (auto simp: acyclic_insert reaches_iff rtrancl_eq_or_trancl)

lemma reaches_cycle: "\<not> acyclic (edgeRel d typ) \<longleftrightarrow> (\<exists>x. reaches d x x typ)"
  by (auto simp: acyclic_def reaches_iff)

lemma reaches_trans: "reaches d a b typ \<Longrightarrow> reaches d b c typ \<Longrightarrow> reaches d a c typ"
  by (auto simp: reaches_iff)

end

interpretation bfs: edge_walk reachesViaEdge
  by unfold_locales (rule reachesViaEdge_trancl)

section \<open>Up and down the hierarchy\<close>

definition maxHierarchyDepth :: nat where
  "maxHierarchyDepth = 2"

definition parentOf :: "db \<Rightarrow> string \<Rightarrow> string option" where
  "parentOf d tid =
     map_option e_to (row (\<lambda>e. e_from e = tid \<and> e_type e = ''childOf'') (task_edges d))"

lemma parentOf_SomeD: "parentOf d x = Some p \<Longrightarrow> (x, p) \<in> edgeRel d ''childOf''"
  by (auto simp: parentOf_def edgeRel_def dest!: row_SomeD)

lemma parentOf_None_iff: "parentOf d x = None \<longleftrightarrow> (\<forall>p. (x, p) \<notin> edgeRel d ''childOf'')"
  by (auto simp: parentOf_def edgeRel_def row_None_iff)

function ancestorLoop :: "db \<Rightarrow> string list \<Rightarrow> nat \<Rightarrow> string \<Rightarrow> nat" where
  "ancestorLoop d visited hops cur =
     (case parentOf d cur of
        None \<Rightarrow> hops
      | Some parent \<Rightarrow>
          if parent \<in> set visited then hops
          else ancestorLoop d (parent # visited) (hops + 1) parent)"
  by pat_completeness auto
termination
proof (relation "measure (\<lambda>(d, visited, hops, cur).
                            card (set (map e_to (task_edges d)) - set visited))", goal_cases)
  case 1 show ?case by simp
next
  case (2 d visited hops cur parent)
  then have "parent \<in> set (map e_to (task_edges d))"
    by (auto dest!: parentOf_SomeD simp: edgeRel_def)
  then have "set (map e_to (task_edges d)) - set (parent # visited)
               \<subset> set (map e_to (task_edges d)) - set visited"
    using 2(2) by auto
  then show ?case by (simp add: psubset_card_mono)
qed

declare ancestorLoop.simps [simp del]

definition ancestorHops :: "db \<Rightarrow> string \<Rightarrow> nat" where
  "ancestorHops d tid = ancestorLoop d [tid] 0 tid"

text \<open>One level at a time; the walk stops once the chain is longer than the
  cap.\<close>

function descendLoop :: "db \<Rightarrow> string list \<Rightarrow> nat \<Rightarrow> string list \<Rightarrow> nat" where
  "descendLoop d visited depth frontier =
     (let new = firstSeen visited (edgesInto d ''childOf'' frontier) in
      if new = [] then depth
      else if maxHierarchyDepth < depth + 1 then depth + 1
      else descendLoop d (new @ visited) (depth + 1) new)"
  by pat_completeness auto
termination
  by (relation "measure (\<lambda>(d, visited, depth, frontier). maxHierarchyDepth + 1 - depth)") auto

declare descendLoop.simps [simp del]

lemma descendLoop_step:
  assumes "g \<in> set (firstSeen visited (edgesInto d ''childOf'' frontier))"
    and "depth < maxHierarchyDepth"
  shows "descendLoop d visited depth frontier =
     descendLoop d (firstSeen visited (edgesInto d ''childOf'' frontier) @ visited) (depth + 1)
       (firstSeen visited (edgesInto d ''childOf'' frontier))"
proof -
  have "firstSeen visited (edgesInto d ''childOf'' frontier) \<noteq> []" using assms(1) by force
  then show ?thesis
    using assms(2) by (simp add: descendLoop.simps[of d visited depth frontier] Let_def)
qed

definition descendantDepth :: "db \<Rightarrow> string \<Rightarrow> nat" where
  "descendantDepth d tid = descendLoop d [tid] 0 [tid]"

section \<open>The hierarchy invariant\<close>

text \<open>One parent per task, and no chain of three childOf edges. The second
  excludes cycles.\<close>

definition hierarchyOk :: "db \<Rightarrow> bool" where
  "hierarchyOk d \<longleftrightarrow>
     (\<forall>x p q. (x, p) \<in> edgeRel d ''childOf'' \<longrightarrow> (x, q) \<in> edgeRel d ''childOf'' \<longrightarrow> p = q) \<and>
     \<not> (\<exists>a b c e. (a, b) \<in> edgeRel d ''childOf'' \<and> (b, c) \<in> edgeRel d ''childOf'' \<and>
                  (c, e) \<in> edgeRel d ''childOf'')"

lemma hierarchyOk_cong: "task_edges d' = task_edges d \<Longrightarrow> hierarchyOk d' = hierarchyOk d"
  using edgeRel_cong[of d' d] by (simp add: hierarchyOk_def)

lemma hierarchyOk_single:
  "hierarchyOk d \<Longrightarrow> (x, p) \<in> edgeRel d ''childOf'' \<Longrightarrow> (x, q) \<in> edgeRel d ''childOf'' \<Longrightarrow> p = q"
  unfolding hierarchyOk_def by metis

lemma hierarchyOk_parent:
  "hierarchyOk d \<Longrightarrow> (x, p) \<in> edgeRel d ''childOf'' \<Longrightarrow> parentOf d x = Some p"
  by (metis hierarchyOk_single not_Some_eq parentOf_None_iff parentOf_SomeD)

lemma hierarchyOk_chain:
  "hierarchyOk d \<Longrightarrow> (a, b) \<in> edgeRel d ''childOf'' \<Longrightarrow> (b, c) \<in> edgeRel d ''childOf'' \<Longrightarrow>
     (c, e) \<notin> edgeRel d ''childOf''"
  unfolding hierarchyOk_def by metis

lemma hierarchyOk_acyclic: "hierarchyOk d \<Longrightarrow> acyclic (edgeRel d ''childOf'')"
proof -
  let ?R = "edgeRel d ''childOf''"
  assume ok: "hierarchyOk d"
  have step: "\<exists>c. (x, c) \<in> ?R \<and> (c, c) \<in> ?R\<^sup>+" if "(x, x) \<in> ?R\<^sup>+" for x
    using tranclD[OF that] by (meson rtrancl_into_trancl1)
  show ?thesis
  proof (rule acyclicI, rule allI, rule notI)
    fix x assume "(x, x) \<in> ?R\<^sup>+"
    with step obtain b where "(x, b) \<in> ?R" "(b, b) \<in> ?R\<^sup>+" by blast
    moreover with step obtain c where "(b, c) \<in> ?R" "(c, c) \<in> ?R\<^sup>+" by blast
    moreover with step obtain e where "(c, e) \<in> ?R" by blast
    ultimately show False using hierarchyOk_chain[OF ok] by blast
  qed
qed

lemma ancestorHops_ge:
  assumes "hierarchyOk d" "(x, p) \<in> edgeRel d ''childOf''"
  shows "1 \<le> ancestorHops d x"
    and "(p, q) \<in> edgeRel d ''childOf'' \<Longrightarrow> 2 \<le> ancestorHops d x"
proof -
  let ?R = "edgeRel d ''childOf''"
  have irr: "(u, u) \<notin> ?R\<^sup>+" for u
    using hierarchyOk_acyclic[OF assms(1)] by (simp add: acyclic_def)
  have mono: "hops \<le> ancestorLoop d visited hops cur" for visited hops cur
    by (induction d visited hops cur rule: ancestorLoop.induct)
       (subst ancestorLoop.simps, force split: option.splits)
  have ne: "p \<noteq> x" using irr assms(2) by blast
  have "ancestorHops d x = ancestorLoop d [p, x] 1 p"
    using hierarchyOk_parent[OF assms] ne
    by (simp add: ancestorHops_def ancestorLoop.simps[of d "[x]" 0 x])
  then show "1 \<le> ancestorHops d x" using mono by metis
  assume q: "(p, q) \<in> ?R"
  then have "q \<noteq> p" "q \<noteq> x"
    using irr assms(2) by (blast, meson r_into_trancl' trancl.trancl_into_trancl)
  with hierarchyOk_parent[OF assms(1) q]
  have "ancestorLoop d [p, x] 1 p = ancestorLoop d [q, p, x] 2 q"
    by (simp add: ancestorLoop.simps[of d "[p, x]" "Suc 0" p] numeral_2_eq_2)
  then show "2 \<le> ancestorHops d x"
    using \<open>ancestorHops d x = ancestorLoop d [p, x] 1 p\<close> mono by metis
qed

lemma descendantDepth_ge:
  assumes "hierarchyOk d" "(c, x) \<in> edgeRel d ''childOf''"
  shows "1 \<le> descendantDepth d x"
    and "(g, c) \<in> edgeRel d ''childOf'' \<Longrightarrow> 2 \<le> descendantDepth d x"
proof -
  let ?R = "edgeRel d ''childOf''"
  have irr: "(u, u) \<notin> ?R\<^sup>+" for u
    using hierarchyOk_acyclic[OF assms(1)] by (simp add: acyclic_def)
  note single = hierarchyOk_single[OF assms(1)]
  have mono: "depth \<le> descendLoop d visited depth frontier" for visited depth frontier
    by (induction d visited depth frontier rule: descendLoop.induct)
       (subst descendLoop.simps, force simp: Let_def)
  define new where "new = firstSeen [x] (edgesInto d ''childOf'' [x])"
  have "c \<noteq> x" using irr assms(2) by blast
  with assms(2) have c: "c \<in> set new" by (simp add: new_def set_firstSeen)
  then have step: "descendantDepth d x = descendLoop d (new @ [x]) 1 new"
    by (auto simp: descendantDepth_def descendLoop.simps[of d "[x]" 0 "[x]"] Let_def
        new_def maxHierarchyDepth_def)
  then show "1 \<le> descendantDepth d x" using mono by metis
  assume g: "(g, c) \<in> ?R"
  have "g \<noteq> x" using irr g assms(2) by (meson r_into_trancl' trancl.trancl_into_trancl)
  moreover have "g \<notin> set new"
  proof
    assume "g \<in> set new"
    then have "(g, x) \<in> ?R" by (simp add: new_def set_firstSeen)
    with g have "c = x" using single by blast
    with \<open>c \<noteq> x\<close> show False by simp
  qed
  ultimately have "g \<in> set (firstSeen (new @ [x]) (edgesInto d ''childOf'' new))"
    using g c by (auto simp: set_firstSeen)
  from descendLoop_step[OF this, of 1]
  have "\<exists>v f. descendLoop d (new @ [x]) 1 new = descendLoop d v (1 + 1) f"
    unfolding maxHierarchyDepth_def by auto
  then have "1 + 1 \<le> descendLoop d (new @ [x]) 1 new" using mono by metis
  then show "2 \<le> descendantDepth d x" using step by simp
qed

end
