(* ===== verification/Edges.thy ===== *)
theory Edges
  imports Walks
begin

text \<open>
  Writing task edges (internal/store/tasks.go AddEdge and RemoveEdge,
  internal/store/hierarchy.go checkHierarchy) and the one-hop hierarchy
  readers. The invariants are the hierarchy's shape (one parent, chains of two
  edges at most) and the absence of a dependsOn cycle.
\<close>

section \<open>Adding an edge\<close>

text \<open>taskProjects: the project of each named task that exists.\<close>

definition taskProjects :: "db \<Rightarrow> string \<Rightarrow> string option" where
  "taskProjects d tid = map_option t_project (taskRow d tid)"

definition checkHierarchy ::
  "string \<Rightarrow> string \<Rightarrow> (string \<Rightarrow> string option) \<Rightarrow> db \<Rightarrow> err + unit" where
  "checkHierarchy child parent project d =
     (if project child \<noteq> project parent then Inl ErrInvalidInput
      else case taskRow d parent of
        None \<Rightarrow> Inl (DBError ''no rows'')
      | Some p \<Rightarrow>
          andThen (taskKindPolicy (t_kind p)) (\<lambda>policy.
            if \<not> AllowsChildren policy then Inl ErrInvalidInput
            else if parentOf d child \<noteq> None then Inl ErrEdgeExists
            else if reachesViaEdge d parent child ''childOf'' then Inl ErrCycle
            else if ancestorHops d parent + 1 + descendantDepth d child > maxHierarchyDepth
            then Inl ErrInvalidInput
            else Inr ()))"

text \<open>The unique indexes of task_edges: the edge itself, and one childOf,
  followUpTo or duplicateOf edge per source.\<close>

definition edgeConflict :: "db \<Rightarrow> string \<Rightarrow> string \<Rightarrow> string \<Rightarrow> bool" where
  "edgeConflict d fromTask toTask typ \<longleftrightarrow>
     (\<exists>e\<in>set (task_edges d). e_from e = fromTask \<and> e_type e = typ \<and>
        (e_to e = toTask \<or> typ \<in> {''childOf'', ''followUpTo'', ''duplicateOf''}))"

definition edgeChange :: "string \<Rightarrow> string \<Rightarrow> string \<Rightarrow> string \<Rightarrow> json" where
  "edgeChange op typ fromTask toTask =
     jfields [(''field'', ''edge''), (''op'', op), (''type'', typ),
              (''from'', fromTask), (''to'', toTask)]"

definition logEdge :: "string \<Rightarrow> string \<Rightarrow> string \<Rightarrow> string \<Rightarrow> int \<Rightarrow> db \<Rightarrow> db" where
  "logEdge op typ fromTask toTask eventID d =
     LogChange ''task'' toTask eventID (edgeChange op typ fromTask toTask)
       (LogChange ''task'' fromTask eventID (edgeChange op typ fromTask toTask) d)"

definition insertEdge ::
  "int \<Rightarrow> string \<Rightarrow> string \<Rightarrow> string \<Rightarrow> int \<Rightarrow> db \<Rightarrow> err + db" where
  "insertEdge now fromTask toTask typ eventID d =
     (if edgeConflict d fromTask toTask typ then Inl ErrEdgeExists
      else Inr (logEdge ''add'' typ fromTask toTask eventID
             (d\<lparr>task_edges := task_edges d @
                 [\<lparr>e_from = fromTask, e_to = toTask, e_type = typ, e_created_at = now\<rparr>]\<rparr>)))"

definition checkBlocks :: "string \<Rightarrow> string \<Rightarrow> db \<Rightarrow> err + unit" where
  "checkBlocks fromTask toTask d =
     (case taskRow d toTask of
        None \<Rightarrow> Inl (DBError ''no rows'')
      | Some b \<Rightarrow>
          andThen (taskKindPolicy (t_kind b)) (\<lambda>policy.
            if \<not> CanBlock policy then Inl ErrInvalidInput
            else if reachesViaEdge d toTask fromTask ''dependsOn'' then Inl ErrCycle
            else Inr ()))"

definition AddEdge ::
  "int \<Rightarrow> string \<Rightarrow> string \<Rightarrow> string \<Rightarrow> int \<Rightarrow> db \<Rightarrow> err + db" where
  "AddEdge now fromTask toTask typ eventID d =
     (if \<not> storedTaskEdgeTypes typ then Inl ErrInvalidInput
      else if fromTask = toTask then Inl ErrInvalidInput
      else if taskProjects d fromTask = None \<or> taskProjects d toTask = None then Inl ErrNotFound
      else
        andThen (if typ = ''childOf'' then checkHierarchy fromTask toTask (taskProjects d) d
                 else Inr ()) (\<lambda>_.
        andThen (if typ = ''dependsOn'' then checkBlocks fromTask toTask d else Inr ()) (\<lambda>_.
        insertEdge now fromTask toTask typ eventID d)))"

definition RemoveEdge :: "string \<Rightarrow> string \<Rightarrow> string \<Rightarrow> int \<Rightarrow> db \<Rightarrow> err + db" where
  "RemoveEdge fromTask toTask typ eventID d =
     (let hit = (\<lambda>e. e_from e = fromTask \<and> e_to e = toTask \<and> e_type e = typ) in
      if \<not> (\<exists>e\<in>set (task_edges d). hit e) then Inl ErrNotFound
      else Inr (logEdge ''remove'' typ fromTask toTask eventID
             (d\<lparr>task_edges := filter (\<lambda>e. \<not> hit e) (task_edges d)\<rparr>)))"

section \<open>Readers\<close>

text \<open>AllDependsOnEdges, without its ORDER BY (the consumer builds a graph),
  RallyMemberCount, ParentOf, ParentMap and ChildProgress.\<close>

definition liveTask :: "db \<Rightarrow> string \<Rightarrow> bool" where
  "liveTask d tid \<longleftrightarrow> (\<exists>t\<in>set (tasks d). t_id t = tid \<and> live t)"

definition AllDependsOnEdges :: "db \<Rightarrow> (string \<times> string) list" where
  "AllDependsOnEdges d =
     map (\<lambda>e. (e_from e, e_to e))
       (filter (\<lambda>e. e_type e = ''dependsOn'' \<and> liveTask d (e_from e) \<and> liveTask d (e_to e))
          (task_edges d))"

definition RallyMemberCount :: "db \<Rightarrow> string \<Rightarrow> nat" where
  "RallyMemberCount d rallyID =
     length (filter (\<lambda>e. e_from e = rallyID \<and> e_type e = ''dependsOn'' \<and> liveTask d (e_to e))
               (task_edges d))"

definition ParentMap :: "db \<Rightarrow> string \<Rightarrow> (string \<times> string) list" where
  "ParentMap d projectID =
     map (\<lambda>e. (e_from e, e_to e))
       (filter (\<lambda>e. e_type e = ''childOf'' \<and> liveTask d (e_to e) \<and>
                    (\<exists>t\<in>set (tasks d). t_id t = e_from e \<and> live t \<and>
                       (projectID = [] \<or> t_project t = projectID)))
          (task_edges d))"

definition liveChildren :: "db \<Rightarrow> string \<Rightarrow> task list" where
  "liveChildren d tid =
     concat (map (\<lambda>e. filter (\<lambda>t. t_id t = e_from e \<and> live t) (tasks d))
               (filter (\<lambda>e. e_to e = tid \<and> e_type e = ''childOf'') (task_edges d)))"

definition ChildProgress :: "db \<Rightarrow> string \<Rightarrow> nat \<times> nat" where
  "ChildProgress d tid =
     (length (liveChildren d tid), length (filter (taskClosed d) (liveChildren d tid)))"

lemma liveChildren_iff:
  "t \<in> set (liveChildren d tid) \<longleftrightarrow>
     t \<in> set (tasks d) \<and> live t \<and> (t_id t, tid) \<in> edgeRel d ''childOf''"
  by (auto simp: liveChildren_def edgeRel_def)

lemma hasChildren_liveChildren: "hasChildren d tid \<longleftrightarrow> liveChildren d tid \<noteq> []"
proof -
  have "hasChildren d tid \<longleftrightarrow> (\<exists>t. t \<in> set (liveChildren d tid))"
    unfolding liveChildren_iff hasChildren_def by (auto simp: edgeRel_def)
  then show ?thesis by (metis list.set_intros(1) neq_Nil_conv empty_iff list.set(1))
qed

section \<open>What an added edge changes\<close>

lemma logEdge_frame [simp, frame]:
  "task_edges (logEdge op ty f t e d) = task_edges d"
  "tasks (logEdge op ty f t e d) = tasks d"
  "leases (logEdge op ty f t e d) = leases d"
  "events (logEdge op ty f t e d) = events d"
  "docs (logEdge op ty f t e d) = docs d"
  by (simp_all add: logEdge_def)

lemma edgeRel_image:
  "edgeRel d ty = (\<lambda>e. (e_from e, e_to e)) ` set (filter (\<lambda>e. e_type e = ty) (task_edges d))"
  by (auto simp: edgeRel_def)

lemma insertEdge_InrD:
  assumes "insertEdge now f t ty ev d = Inr d'"
  shows "edgeRel d' ty = insert (f, t) (edgeRel d ty)"
    and "u \<noteq> ty \<Longrightarrow> edgeRel d' u = edgeRel d u"
    and "\<not> edgeConflict d f t ty" and "tasks d' = tasks d" and "leases d' = leases d"
    and "events d' = events d" and "docs d' = docs d"
proof -
  from assms have nc: "\<not> edgeConflict d f t ty"
    and d': "d' = logEdge ''add'' ty f t ev
      (d\<lparr>task_edges := task_edges d @
         [\<lparr>e_from = f, e_to = t, e_type = ty, e_created_at = now\<rparr>]\<rparr>)"
    by (simp_all add: insertEdge_def split: if_splits)
  show "edgeRel d' ty = insert (f, t) (edgeRel d ty)" by (simp add: d' edgeRel_image)
  show "u \<noteq> ty \<Longrightarrow> edgeRel d' u = edgeRel d u" by (simp add: d' edgeRel_image)
  show "\<not> edgeConflict d f t ty" by (rule nc)
  show "tasks d' = tasks d" "leases d' = leases d" "events d' = events d" "docs d' = docs d"
    by (simp_all add: d')
qed

lemma AddEdge_InrD:
  assumes "AddEdge now f t ty ev d = Inr d'"
  shows "f \<noteq> t" and "insertEdge now f t ty ev d = Inr d'"
    and "ty = ''childOf'' \<Longrightarrow> checkHierarchy f t (taskProjects d) d = Inr ()"
    and "ty = ''dependsOn'' \<Longrightarrow> checkBlocks f t d = Inr ()"
    and "taskProjects d f \<noteq> None" and "taskProjects d t \<noteq> None"
    and "storedTaskEdgeTypes ty"
  using assms by (auto simp: AddEdge_def andThen_Inr_iff split: if_splits)

lemma AddEdge_frame:
  assumes "AddEdge now f t ty ev d = Inr d'"
  shows "tasks d' = tasks d" "leases d' = leases d" "events d' = events d" "docs d' = docs d"
  using insertEdge_InrD[OF AddEdge_InrD(2)[OF assms]] by auto

lemma checkBlocks_InrD: "checkBlocks f t d = Inr () \<Longrightarrow> \<not> reachesViaEdge d t f ''dependsOn''"
  by (auto simp: checkBlocks_def andThen_Inr_iff split: option.splits if_splits)

lemma checkHierarchy_InrD:
  assumes "checkHierarchy c p proj d = Inr ()"
  shows "proj c = proj p" "parentOf d c = None" "\<not> reachesViaEdge d p c ''childOf''"
    "ancestorHops d p + 1 + descendantDepth d c \<le> maxHierarchyDepth"
    "\<exists>t pol. taskRow d p = Some t \<and> taskKindPolicy (t_kind t) = Inr pol \<and> AllowsChildren pol"
  using assms
  by (auto simp: checkHierarchy_def andThen_Inr_iff split: option.splits if_splits)

lemma AddEdge_dependsOn_acyclic:
  assumes "acyclic (edgeRel d ''dependsOn'')" "AddEdge now f t ty ev d = Inr d'"
  shows "acyclic (edgeRel d' ''dependsOn'')"
proof (cases "ty = ''dependsOn''")
  case True
  have "\<not> reachesViaEdge d t f ''dependsOn''"
    using AddEdge_InrD(4)[OF assms(2) True] by (rule checkBlocks_InrD)
  from bfs.insert_acyclic[OF assms(1) this AddEdge_InrD(1)[OF assms(2)]]
  show ?thesis
    using insertEdge_InrD(1)[OF AddEdge_InrD(2)[OF assms(2)]] True by simp
next
  case False
  then show ?thesis
    using insertEdge_InrD(2)[OF AddEdge_InrD(2)[OF assms(2)]] assms(1) by metis
qed

lemma AddEdge_hierarchyOk:
  assumes "hierarchyOk d" "AddEdge now f t ty ev d = Inr d'"
  shows "hierarchyOk d'"
proof (cases "ty = ''childOf''")
  case False
  then have eq: "edgeRel d' ''childOf'' = edgeRel d ''childOf''"
    using insertEdge_InrD(2)[OF AddEdge_InrD(2)[OF assms(2)]] by metis
  show ?thesis
    unfolding hierarchyOk_def eq by (rule assms(1)[unfolded hierarchyOk_def])
next
  case True
  let ?R = "edgeRel d ''childOf''"
  note chk = checkHierarchy_InrD[OF AddEdge_InrD(3)[OF assms(2) True]]
  have R': "edgeRel d' ''childOf'' = insert (f, t) ?R"
    using insertEdge_InrD(1)[OF AddEdge_InrD(2)[OF assms(2)]] True by simp
  have nopar: "(f, p) \<notin> ?R" for p using chk(2) by (simp add: parentOf_None_iff)
  have depth: "ancestorHops d t + descendantDepth d f \<le> 1"
    using chk(4) by (simp add: maxHierarchyDepth_def)
  have ne: "f \<noteq> t" by (rule AddEdge_InrD(1)[OF assms(2)])
  have notf: "p \<noteq> f" if "(t, p) \<in> ?R" for p
    using that chk(3) reachesViaEdge_trancl by blast
  have above: "(p, q) \<notin> ?R" if "(t, p) \<in> ?R" for p q
    using ancestorHops_ge(2)[OF assms(1) that] depth by fastforce
  have below: "(g, c) \<notin> ?R" if "(c, f) \<in> ?R" for c g
    using descendantDepth_ge(2)[OF assms(1) that] depth by fastforce
  have both: False if "(c, f) \<in> ?R" "(t, p) \<in> ?R" for c p
    using descendantDepth_ge(1)[OF assms(1) that(1)] ancestorHops_ge(1)[OF assms(1) that(2)]
      depth by simp
  have single: "p = q" if "(x, p) \<in> insert (f, t) ?R" "(x, q) \<in> insert (f, t) ?R" for x p q
    using that nopar hierarchyOk_single[OF assms(1)] by blast
  have chain: False
    if "(a, b) \<in> insert (f, t) ?R" "(b, c) \<in> insert (f, t) ?R" "(c, e) \<in> insert (f, t) ?R"
    for a b c e
  proof -
    from that have "a = f \<and> b = t \<or> (a, b) \<in> ?R" "b = f \<and> c = t \<or> (b, c) \<in> ?R"
      "c = f \<and> e = t \<or> (c, e) \<in> ?R" by auto
    then consider "b = f" "b = t" | "c = f" "c = t" | "b = t" "c = f" "(b, c) \<in> ?R"
      | "b = t" "(b, c) \<in> ?R" "(c, e) \<in> ?R" | "(a, b) \<in> ?R" "b = f" "c = t" "(c, e) \<in> ?R"
      | "(a, b) \<in> ?R" "(b, c) \<in> ?R" "c = f" | "(a, b) \<in> ?R" "(b, c) \<in> ?R" "(c, e) \<in> ?R"
      by argo
    then show False
    proof cases
      case 3 with notf[of c] show False by simp
    next
      case 4 with above[of c e] show False by simp
    next
      case 5 with both[of a e] show False by simp
    next
      case 6 with below[of b a] show False by simp
    next
      case 7 with hierarchyOk_chain[OF assms(1)] show False by blast
    qed (use ne in auto)
  qed
  show ?thesis unfolding hierarchyOk_def R'
    by (intro conjI allI impI notI) (erule (1) single, elim exE conjE, erule (2) chain)
qed

lemma RemoveEdge_InrD:
  assumes "RemoveEdge f t ty ev d = Inr d'"
  shows "edgeRel d' ty = edgeRel d ty - {(f, t)}"
    and "u \<noteq> ty \<Longrightarrow> edgeRel d' u = edgeRel d u" and "(f, t) \<in> edgeRel d ty"
    and "tasks d' = tasks d" and "leases d' = leases d"
proof -
  let ?hit = "\<lambda>e. e_from e = f \<and> e_to e = t \<and> e_type e = ty"
  from assms have ex: "\<exists>e\<in>set (task_edges d). ?hit e"
    and d': "d' = logEdge ''remove'' ty f t ev (d\<lparr>task_edges := filter (\<lambda>e. \<not> ?hit e) (task_edges d)\<rparr>)"
    by (simp_all only: RemoveEdge_def Let_def split: if_splits) auto
  show "edgeRel d' ty = edgeRel d ty - {(f, t)}" by (auto simp: d' edgeRel_image)
  show "u \<noteq> ty \<Longrightarrow> edgeRel d' u = edgeRel d u" by (auto simp: d' edgeRel_image)
  show "(f, t) \<in> edgeRel d ty" using ex by (auto simp: edgeRel_def)
  show "tasks d' = tasks d" "leases d' = leases d" by (simp_all add: d')
qed

lemma RemoveEdge_subset: "RemoveEdge f t ty ev d = Inr d' \<Longrightarrow> edgeRel d' u \<subseteq> edgeRel d u"
  using RemoveEdge_InrD(1,2)[of f t ty ev d d'] by (cases "u = ty") auto

lemma RemoveEdge_hierarchyOk:
  "hierarchyOk d \<Longrightarrow> RemoveEdge f t ty ev d = Inr d' \<Longrightarrow> hierarchyOk d'"
  using RemoveEdge_subset[of f t ty ev d d' "''childOf''"]
  unfolding hierarchyOk_def by (meson subsetD)

lemma AddEdge_RemoveEdge_edges:
  assumes "AddEdge now f t ty ev d = Inr d1"
  shows "\<exists>d2. RemoveEdge f t ty ev' d1 = Inr d2 \<and> task_edges d2 = task_edges d"
proof -
  note ins = AddEdge_InrD(2)[OF assms]
  have "\<not> (\<exists>e\<in>set (task_edges d). e_from e = f \<and> e_to e = t \<and> e_type e = ty)"
    using insertEdge_InrD(3)[OF ins] by (auto simp: edgeConflict_def)
  then have "filter (\<lambda>e. \<not> (e_from e = f \<and> e_to e = t \<and> e_type e = ty)) (task_edges d) = task_edges d"
    by (simp add: filter_id_conv)
  moreover have "task_edges d1 = task_edges d @
      [\<lparr>e_from = f, e_to = t, e_type = ty, e_created_at = now\<rparr>]"
    using ins by (auto simp: insertEdge_def split: if_splits)
  ultimately show ?thesis by (simp add: RemoveEdge_def Let_def)
qed

end
