(* ===== verification/Samples.thy ===== *)
theory Samples
  imports Schema
begin

text \<open>
  Small concrete databases the witnesses evaluate on: one project \<open>wl\<close>
  with key WL, two actors, and rows built by short constructors. Nothing here
  models code.
\<close>

definition sampleTask :: "string \<Rightarrow> string \<Rightarrow> string \<Rightarrow> task" where
  "sampleTask tid kind st = \<lparr> t_id = tid, t_project = ''wl'', t_title = ''T'', t_body = [],
     t_priority = ''medium'', t_kind = kind, t_state = st, t_concern = None, t_assignee = None,
     t_needs_decomposition = False, t_human_only = False, t_created_by = None, t_created_at = 0,
     t_updated_at = 0, t_skills = [], t_secrets = [], t_plan_doc = None, t_plan_task_key = None,
     t_about_doc = None, t_about_anchor = None, t_deleted_at = None, t_deleted_by = None,
     t_delete_justification = None, t_milestone = None, t_due = None \<rparr>"

definition sampleEdge :: "string \<Rightarrow> string \<Rightarrow> string \<Rightarrow> edge" where
  "sampleEdge f t ty = \<lparr> e_from = f, e_to = t, e_type = ty, e_created_at = 0 \<rparr>"

definition sampleDb :: "task list \<Rightarrow> edge list \<Rightarrow> db" where
  "sampleDb ts es = emptyDb\<lparr> tasks := ts, task_edges := es,
     projects := [\<lparr> p_id = ''wl'', p_key = ''WL'', p_next_task_num = 100, p_focus = [],
       p_approval_flow = None \<rparr>],
     project_repos := [\<lparr> pr_project = ''wl'', pr_repo = ''r'', pr_done_state = ''merged'' \<rparr>],
     actors := [''ada'', ''bob''], participants := [(''wl'', ''ada'')] \<rparr>"

definition samplePR :: "int \<Rightarrow> string \<Rightarrow> string \<Rightarrow> pull_request" where
  "samplePR n tid st = \<lparr> gp_repo = ''r'', gp_number = n, gp_task = Some tid, gp_state = st,
     gp_title = ''P'', gp_head_ref = ''b'', gp_head_sha = ''s'', gp_merge_sha = None, gp_url = [],
     gp_opened_at = None, gp_merged_at = None, gp_updated_at = None, gp_author = None,
     gp_queued_at = None \<rparr>"

lemma sampleTask_sel [simp]:
  "t_id (sampleTask a k st) = a" "t_kind (sampleTask a k st) = k" "t_state (sampleTask a k st) = st"
  "t_project (sampleTask a k st) = ''wl''" "t_deleted_at (sampleTask a k st) = None"
  "t_plan_doc (sampleTask a k st) = None" "t_assignee (sampleTask a k st) = None"
  by (simp_all add: sampleTask_def)

lemma sampleEdge_sel [simp]:
  "e_from (sampleEdge f t ty) = f" "e_to (sampleEdge f t ty) = t" "e_type (sampleEdge f t ty) = ty"
  by (simp_all add: sampleEdge_def)

lemma sampleDb_sel [simp]:
  "tasks (sampleDb ts es) = ts" "task_edges (sampleDb ts es) = es" "leases (sampleDb ts es) = []"
  "events (sampleDb ts es) = []" "docs (sampleDb ts es) = []" "doc_edges (sampleDb ts es) = []"
  "reviews (sampleDb ts es) = []" "pull_requests (sampleDb ts es) = []"
  "task_commits (sampleDb ts es) = []" "main_commits (sampleDb ts es) = []"
  "subscribers (sampleDb ts es) = []" "tokens (sampleDb ts es) = []"
  "actors (sampleDb ts es) = [''ada'', ''bob'']"
  by (simp_all add: sampleDb_def emptyDb_def)

lemma succeeded: "\<not> isl r \<Longrightarrow> r = Inr (projr r)"
  by simp

end
