(* ===== verification/GraphSpec.thy ===== *)
theory GraphSpec
  imports Edges Samples
begin

text \<open>
  What the task graph promises: the two edge relations AddEdge keeps acyclic,
  the depth bound on the hierarchy, the reachability search against the
  transitive closure, and the round trips of edges and ids.
\<close>

section \<open>Edges\<close>

text \<open>The breadth-first search reachesViaEdge answers exactly reachability
  over at least one edge of the given type, whatever cycles the stored graph
  already holds.\<close>

theorem search_is_reachability:
  "reachesViaEdge d start target ty \<longleftrightarrow> (start, target) \<in> (edgeRel d ty)\<^sup>+"
  by (rule reachesViaEdge_trancl)

text \<open>C4: the childOf hierarchy stays a forest of depth at most
  maxHierarchyDepth (one parent per task, no chain of three edges, so no
  cycle) under AddEdge and RemoveEdge of any type.\<close>

theorem edges_keep_hierarchy:
  assumes "hierarchyOk d"
    and "AddEdge now f t ty ev d = Inr d' \<or> RemoveEdge f t ty ev d = Inr d'"
  shows "hierarchyOk d' \<and> acyclic (edgeRel d' ''childOf'')"
  using assms AddEdge_hierarchyOk RemoveEdge_hierarchyOk hierarchyOk_acyclic by metis

definition twoTasks :: db where
  "twoTasks = sampleDb [sampleTask ''WL-1'' ''feature'' ''ready'', sampleTask ''WL-2'' ''chore'' ''ready''] []"

lemma twoTasks_ok: "hierarchyOk twoTasks" "acyclic (edgeRel twoTasks ''dependsOn'')"
  by (simp_all add: hierarchyOk_def edgeRel_def twoTasks_def acyclic_def)

lemma twoTasks_add:
  "\<not> isl (AddEdge 5 ''WL-2'' ''WL-1'' ''childOf'' 1 twoTasks)"
  "\<not> isl (AddEdge 5 ''WL-2'' ''WL-1'' ''dependsOn'' 1 twoTasks)"
  by code_simp+

lemmas twoTasks_added = twoTasks_add[THEN succeeded]

theorem edges_keep_hierarchy_witness:
  "hierarchyOk (projr (AddEdge 5 ''WL-2'' ''WL-1'' ''childOf'' 1 twoTasks))"
  using edges_keep_hierarchy[OF twoTasks_ok(1) disjI1[OF twoTasks_added(1)]] by blast

text \<open>C24: no AddEdge closes a loop in the dependsOn graph.\<close>

theorem dependsOn_stays_acyclic:
  assumes "acyclic (edgeRel d ''dependsOn'')" "AddEdge now f t ty ev d = Inr d'"
  shows "acyclic (edgeRel d' ''dependsOn'')"
  using assms by (rule AddEdge_dependsOn_acyclic)

theorem dependsOn_stays_acyclic_witness:
  "acyclic (edgeRel (projr (AddEdge 5 ''WL-2'' ''WL-1'' ''dependsOn'' 1 twoTasks)) ''dependsOn'')"
  by (rule dependsOn_stays_acyclic[OF twoTasks_ok(2) twoTasks_added(2)])

text \<open>RemoveEdge undoes AddEdge: after an edge was added it can be removed,
  and the edge table is then the one before, row for row.\<close>

theorem edge_round_trip:
  assumes "AddEdge now f t ty ev d = Inr d1"
  shows "\<exists>d2. RemoveEdge f t ty ev' d1 = Inr d2 \<and> task_edges d2 = task_edges d"
  using assms by (rule AddEdge_RemoveEdge_edges)

theorem edge_round_trip_witness:
  "\<exists>d2. RemoveEdge ''WL-2'' ''WL-1'' ''childOf'' 2
           (projr (AddEdge 5 ''WL-2'' ''WL-1'' ''childOf'' 1 twoTasks)) = Inr d2 \<and>
         task_edges d2 = task_edges twoTasks"
  by (rule edge_round_trip[OF twoTasks_added(1)])

section \<open>Blocking and closure\<close>

text \<open>The two readers of "is this task blocked" agree: IsBlocked, which
  gates a claim, answers yes for exactly the live tasks BlockedTaskIDs lists.\<close>

theorem blocked_readers:
  assumes "distinct (map t_id (tasks d))" "liveTask d tid"
  shows "IsBlocked d tid \<longleftrightarrow> tid \<in> set (BlockedTaskIDs d)"
  using assms unfolding liveTask_def by (simp add: blocked_readers_agree)

definition waitingTasks :: db where
  "waitingTasks = sampleDb [sampleTask ''WL-1'' ''feature'' ''ready'', sampleTask ''WL-2'' ''chore'' ''ready'']
     [sampleEdge ''WL-2'' ''WL-1'' ''dependsOn'']"

theorem blocked_readers_witness:
  "IsBlocked waitingTasks ''WL-2'' \<and> ''WL-2'' \<in> set (BlockedTaskIDs waitingTasks)"
proof -
  have "distinct (map t_id (tasks waitingTasks))" "liveTask waitingTasks ''WL-2''"
    "IsBlocked waitingTasks ''WL-2''" by code_simp+
  with blocked_readers[of waitingTasks "''WL-2''"] show ?thesis by blast
qed

section \<open>Task ids\<close>

text \<open>Task ids sort as documented: SortTaskIDs returns a permutation of its
  input in CompareTaskIDs order, equal ids keep their order, and the number
  part compares as a number.\<close>

theorem task_ids_sorted:
  "mset (SortTaskIDs ids) = mset ids \<and>
   sorted_wrt (\<lambda>a b. CompareTaskIDs a b \<le> 0) (SortTaskIDs ids) \<and>
   filter (\<lambda>y. CompareTaskIDs k y = 0) (SortTaskIDs ids) = filter (\<lambda>y. CompareTaskIDs k y = 0) ids"
  by (simp add: SortTaskIDs_def taskIdCmp.sorted_sortStable taskIdCmp.stable_sortStable)

text \<open>SplitTaskID undoes the id CreateTask formats, whatever dashes the
  project key holds, and ids of one key order by their numbers.\<close>

theorem task_id_round_trip:
  assumes "a < 2 ^ 63" "b < 2 ^ 63"
  shows "SplitTaskID (formatTaskID k a) = Some (k, int a) \<and>
     CompareTaskIDs (formatTaskID k a) (formatTaskID k b) = cmpInt a b"
  using assms by (simp add: SplitTaskID_format CompareTaskIDs_numeric)

theorem task_id_round_trip_witness:
  "SplitTaskID ''A-B-12'' = Some (''A-B'', 12) \<and> CompareTaskIDs ''A-B-12'' ''A-B-9'' = 1"
proof -
  have "formatTaskID ''A-B'' 12 = ''A-B-12''" "formatTaskID ''A-B'' 9 = ''A-B-9''" by code_simp+
  then show ?thesis using task_id_round_trip[of 12 9 "''A-B''"] by (simp add: cmpInt_def)
qed

end
