(* ===== verification/Plans.thy ===== *)
theory Plans
  imports Edges
begin

text \<open>
  What a closing task sets off besides its parent's roll-up: the rules a plan
  governs its tasks by (internal/store/governedby.go, covers.go planRules),
  settling a finished plan (internal/store/planlifecycle.go), closing the
  task's open review (internal/store/reviewrounds.go, reviewthreads.go), and
  the document IRIs those queries compare (internal/store/docs.go,
  internal/kg/iri/iri.go).
\<close>

section \<open>IRIs\<close>

definition IDNS :: string where
  "IDNS = ''https://worklode.io/ns/id/''"

definition iri_CURIE :: "string \<Rightarrow> string" where
  "iri_CURIE inst = ''wlid:'' @ (case dropPrefix IDNS inst of Some r \<Rightarrow> r | None \<Rightarrow> inst)"

definition iri_Review :: "int \<Rightarrow> string" where
  "iri_Review i = IDNS @ ''review/'' @ intStr i"

definition iri_Event :: "int \<Rightarrow> string" where
  "iri_Event i = IDNS @ ''event/'' @ intStr i"

definition iri_Doc :: "string \<Rightarrow> string" where
  "iri_Doc key = IDNS @ ''doc/'' @ key"

text \<open>\<open>%03d\<close> pads to three characters (the sign included) and never cuts.\<close>

definition pad3 :: "int \<Rightarrow> string" where
  "pad3 n =
     (if n < 0 then CHR ''-'' # replicate (2 - length (natStr (nat (- n)))) (CHR ''0'') @ natStr (nat (- n))
      else replicate (3 - length (natStr (nat n))) (CHR ''0'') @ natStr (nat n))"

definition iri_DocKey :: "string \<Rightarrow> string \<Rightarrow> int \<Rightarrow> string" where
  "iri_DocKey kind project number = kind @ ''-'' @ project @ ''-'' @ pad3 number"

text \<open>DocIRI, over a row whose missing number reads as 0.\<close>

definition DocIRI :: "doc \<Rightarrow> string" where
  "DocIRI x = iri_CURIE (iri_Doc (iri_DocKey (d_kind x) (d_project x)
     (case d_number x of None \<Rightarrow> 0 | Some n \<Rightarrow> n)))"

text \<open>docIRIExpr, the same in SQL: lpad also cuts a longer string to the given
  length, and a NULL number makes the whole expression NULL.\<close>

definition lpad3 :: "string \<Rightarrow> string" where
  "lpad3 s = (if length s \<ge> 3 then take 3 s else replicate (3 - length s) (CHR ''0'') @ s)"

definition docIRIExpr :: "doc \<Rightarrow> string option" where
  "docIRIExpr x = map_option
     (\<lambda>n. ''wlid:doc/'' @ d_kind x @ ''-'' @ d_project x @ ''-'' @ lpad3 (intStr n)) (d_number x)"

section \<open>Pull requests and authored documents\<close>

definition checkNoPullRequests :: "db \<Rightarrow> string \<Rightarrow> err + unit" where
  "checkNoPullRequests d tid =
     (if \<exists>p\<in>set (pull_requests d). gp_task p = Some tid then Inl ErrBadTransition else Inr ())"

definition jsonText :: "json \<Rightarrow> string \<Rightarrow> string option" where
  "jsonText j k =
     (case j of JObj fs \<Rightarrow> (case map_of fs k of Some (JStr s) \<Rightarrow> Some s | _ \<Rightarrow> None) | _ \<Rightarrow> None)"

definition authoredSubmitted :: "db \<Rightarrow> string \<Rightarrow> bool" where
  "authoredSubmitted d tid \<longleftrightarrow>
     (\<exists>e\<in>set (events d). ev_type e = ''wl:DocumentSubmitted'' \<and>
        (\<exists>x\<in>set (docs d). d_generated_by_task x = Some tid \<and> d_deleted_at x = None \<and>
           docIRIExpr x \<noteq> None \<and> jsonText (ev_payload e) ''wl:subject'' = docIRIExpr x))"

definition checkAuthoringReviewable :: "db \<Rightarrow> string \<Rightarrow> err + unit" where
  "checkAuthoringReviewable d tid =
     (case taskRow d tid of
        None \<Rightarrow> Inl (DBError ''no rows'')
      | Some t \<Rightarrow>
          if t_kind t = ''design'' \<and>
             \<not> (\<exists>p\<in>set (pull_requests d). gp_task p = Some tid \<and>
                  (gp_state p = ''open'' \<or> gp_state p = ''merged'')) \<and>
             \<not> authoredSubmitted d tid
          then Inl ErrBadTransition else Inr ())"

section \<open>Reviews\<close>

text \<open>Appending one row to the event log outside RecordEvent: the primary key
  comes from the sequence and (source, external id) is unique.\<close>

definition eventRecorded :: "db \<Rightarrow> string \<Rightarrow> string \<Rightarrow> event option" where
  "eventRecorded d src ext = row (\<lambda>e. ev_source e = src \<and> ev_external_id e = ext) (events d)"

definition appendEvent :: "string \<Rightarrow> string \<Rightarrow> string \<Rightarrow> json \<Rightarrow> int \<Rightarrow> db \<Rightarrow> db" where
  "appendEvent src ext ty payload at d =
     d\<lparr>events := events d @
         [\<lparr>ev_id = next_event_id d, ev_source = src, ev_external_id = ext, ev_type = ty,
           ev_payload = payload, ev_received_at = at, ev_applied_at = None, ev_txid = txid d\<rparr>],
       next_event_id := next_event_id d + 1\<rparr>"

definition recordReviewEvent ::
  "int \<Rightarrow> string \<Rightarrow> string \<Rightarrow> string \<Rightarrow> int \<Rightarrow> (string \<times> json) list \<Rightarrow> db \<Rightarrow> err + db" where
  "recordReviewEvent at ty subject actorID informedBy props d =
     (let ext = ty @ '':'' @ subject @ '':'' @ intStr informedBy;
          payload = JObj ([(''@context'', JStr ''https://worklode.io/ns/ontology#''),
                           (''@type'', JStr ty), (''prov:atTime'', JTime at),
                           (''wl:subject'', JStr subject)] @
                          (if actorID = [] then []
                           else [(''prov:wasAssociatedWith'',
                                  JStr (iri_CURIE (IDNS @ ''agent/'' @ actorID)))]) @
                          (if informedBy = 0 then []
                           else [(''prov:wasInformedBy'', JStr (iri_CURIE (iri_Event informedBy)))]) @
                          props)
      in if eventRecorded d ''cli'' ext \<noteq> None then Inl (DBError ''events_source_external_id_key'')
         else Inr (appendEvent ''cli'' ext ty payload at d))"

definition closeReviewRow :: "int \<Rightarrow> int \<Rightarrow> db \<Rightarrow> db" where
  "closeReviewRow now rid d =
     d\<lparr>reviews := updWhere (\<lambda>r. rv_id r = rid)
         (\<lambda>r. r\<lparr>rv_state := ''closed'', rv_closed_at := Some now\<rparr>) (reviews d)\<rparr>"

definition CloseReview :: "int \<Rightarrow> int \<Rightarrow> string \<Rightarrow> int \<Rightarrow> db \<Rightarrow> err + db" where
  "CloseReview now rid outcome eventID d =
     (case row (\<lambda>r. rv_id r = rid) (reviews d) of
        None \<Rightarrow> Inl ErrNotFound
      | Some r \<Rightarrow>
          if rv_state r = ''closed'' then Inl ErrInvalidInput
          else recordReviewEvent (truncSec now) ''wl:ReviewClosed'' (iri_CURIE (iri_Review rid)) []
                 eventID [(''wl:outcome'', JStr outcome)]
                 (closeReviewRow (truncSec now) rid d))"

definition closeTaskReview :: "int \<Rightarrow> string \<Rightarrow> string \<Rightarrow> int \<Rightarrow> db \<Rightarrow> err + db" where
  "closeTaskReview now tid outcome eventID d =
     (case row (\<lambda>r. rv_task r = Some tid \<and> rv_closed_at r = None) (reviews d) of
        None \<Rightarrow> Inr d
      | Some r \<Rightarrow> CloseReview now (rv_id r) outcome eventID d)"

section \<open>Governing rules\<close>

text \<open>Govern: INSERT ... SELECT from rules, ON CONFLICT updates the pin unless
  the new source is 'gate'. A rule that does not exist selects no row.\<close>

definition Govern :: "string \<Rightarrow> int \<Rightarrow> string \<Rightarrow> bool \<Rightarrow> db \<Rightarrow> err + db" where
  "Govern tid ruleID src pin d =
     (case map_of (rules d) ruleID of
        None \<Rightarrow> Inr d
      | Some version \<Rightarrow>
          let pinned = (if pin then Some version else None);
              hit = (\<lambda>g. g_task g = tid \<and> g_rule g = ruleID)
          in if \<exists>g\<in>set (task_governed_by d). hit g
             then if src = ''gate'' then Inr d
                  else Inr (d\<lparr>task_governed_by :=
                         updWhere hit (\<lambda>g. g\<lparr>g_pinned_version := pinned\<rparr>) (task_governed_by d)\<rparr>)
             else if taskRow d tid = None then Inl ErrNotFound
             else Inr (d\<lparr>task_governed_by := task_governed_by d @
                    [\<lparr>g_task = tid, g_rule = ruleID, g_rule_version = version, g_source = src,
                      g_pinned_version = pinned\<rparr>]\<rparr>))"

definition Ungovern :: "string \<Rightarrow> int \<Rightarrow> db \<Rightarrow> err + db" where
  "Ungovern tid ruleID d =
     (let hit = (\<lambda>g. g_task g = tid \<and> g_rule g = ruleID) in
      if \<exists>g\<in>set (task_governed_by d). hit g
      then Inr (d\<lparr>task_governed_by := filter (\<lambda>g. \<not> hit g) (task_governed_by d)\<rparr>)
      else Inl ErrNotFound)"

definition HasPlanGovernance :: "db \<Rightarrow> string \<Rightarrow> bool" where
  "HasPlanGovernance d tid \<longleftrightarrow>
     (\<exists>g\<in>set (task_governed_by d). g_task g = tid \<and> g_source g = ''plan'')"

definition planRules :: "db \<Rightarrow> int \<Rightarrow> int list" where
  "planRules d planID =
     map (\<lambda>e. the (de_to_rule e))
       (sortStable (\<lambda>a b. cmpInt (de_id a) (de_id b))
         (filter (\<lambda>e. de_from e = planID \<and> de_type e = ''covers'' \<and> de_to_rule e \<noteq> None)
            (doc_edges d)))"

definition ungovernedTasks :: "db \<Rightarrow> int \<Rightarrow> string list" where
  "ungovernedTasks d planID =
     map t_id (filter (\<lambda>t. t_plan_doc t = Some planID \<and> live t \<and>
                          \<not> (\<exists>g\<in>set (task_governed_by d). g_task g = t_id t)) (tasks d))"

definition governPlanTasks :: "int \<Rightarrow> db \<Rightarrow> err + db" where
  "governPlanTasks planID d =
     (let rs = planRules d planID in
      if rs = [] then Inr d
      else foldE (\<lambda>tid. foldE (\<lambda>r. Govern tid r ''plan'' False) rs) (ungovernedTasks d planID) d)"

section \<open>Settling a plan\<close>

definition planTasks :: "db \<Rightarrow> int \<Rightarrow> task list" where
  "planTasks d planID = filter (\<lambda>t. t_plan_doc t = Some planID \<and> live t) (tasks d)"

text \<open>planFinished: the plan's status and whether it is due to be executed.\<close>

definition planFinished :: "db \<Rightarrow> int \<Rightarrow> string \<times> bool" where
  "planFinished d planID =
     (case row (\<lambda>x. d_id x = planID \<and> d_deleted_at x = None) (docs d) of
        None \<Rightarrow> ([], False)
      | Some x \<Rightarrow>
          if d_status x \<noteq> ''accepted'' \<and> d_status x \<noteq> ''stale'' then (d_status x, False)
          else (d_status x,
                length (planTasks d planID) > 0 \<and>
                length (filter (\<lambda>t. \<not> taskClosed d t) (planTasks d planID)) = 0))"

definition setDocStatus :: "int \<Rightarrow> int \<Rightarrow> string \<Rightarrow> db \<Rightarrow> db" where
  "setDocStatus now docID status d =
     d\<lparr>docs := updWhere (\<lambda>x. d_id x = docID)
         (\<lambda>x. x\<lparr>d_status := status, d_updated_at := now\<rparr>) (docs d)\<rparr>"

definition executePlan :: "int \<Rightarrow> int \<Rightarrow> string \<Rightarrow> int \<Rightarrow> db \<Rightarrow> err + db" where
  "executePlan now planID status eventID d =
     andThen (governPlanTasks planID d) (\<lambda>d1.
     Inr (logDocChange planID eventID
            (jfields [(''field'', ''status''), (''old'', status), (''new'', ''executed'')])
            (setDocStatus (truncSec now) planID ''executed'' d1)))"

definition settlePlan :: "int \<Rightarrow> string \<Rightarrow> int \<Rightarrow> db \<Rightarrow> err + db" where
  "settlePlan now tid eventID d =
     (case taskRow d tid of
        None \<Rightarrow> Inl (DBError ''no rows'')
      | Some t \<Rightarrow>
          (case t_plan_doc t of
             None \<Rightarrow> Inr d
           | Some planID \<Rightarrow>
               (case planFinished d planID of
                  (status, done) \<Rightarrow>
                    if \<not> done then Inr d else executePlan now planID status eventID d)))"

section \<open>Invariants of these writes\<close>

text \<open>A property that survives the five primitive writes of this theory
  survives closing a review and settling a plan.\<close>

locale closing_inv =
  fixes P :: "db \<Rightarrow> bool"
  assumes keep_log: "P d \<Longrightarrow> P (LogChange k i e c d)"
    and keep_review: "P d \<Longrightarrow> P (closeReviewRow now r d)"
    and keep_event: "P d \<Longrightarrow> P (appendEvent ''cli'' x ty j at d)"
    and keep_govern: "P d \<Longrightarrow> P (d\<lparr>task_governed_by := gs\<rparr>)"
    and keep_doc: "P d \<Longrightarrow> P (setDocStatus now did st d)"
begin

lemma closeTaskReview_keeps:
  "P d \<Longrightarrow> closeTaskReview now tid out ev d = Inr d' \<Longrightarrow> P d'"
  by (auto simp: closeTaskReview_def CloseReview_def recordReviewEvent_def Let_def
      split: option.splits if_splits intro!: keep_event keep_review)

lemma Govern_keeps: "P d \<Longrightarrow> Govern tid r src pin d = Inr d' \<Longrightarrow> P d'"
  by (auto simp: Govern_def Let_def split: option.splits if_splits intro!: keep_govern)

lemma governPlanTasks_keeps:
  assumes "P d" "governPlanTasks planID d = Inr d'" shows "P d'"
proof -
  have inner: "P s'" if "P s" "foldE (\<lambda>r. Govern tid r ''plan'' False) rs s = Inr s'" for tid rs s s'
    by (rule foldE_invariant[where P = P and xs = rs, OF _ that]) (rule Govern_keeps)
  show ?thesis
  proof (cases "planRules d planID = []")
    case True
    with assms show ?thesis by (simp add: governPlanTasks_def)
  next
    case False
    with assms(2) have "foldE (\<lambda>tid. foldE (\<lambda>r. Govern tid r ''plan'' False) (planRules d planID))
        (ungovernedTasks d planID) d = Inr d'"
      by (simp add: governPlanTasks_def)
    from foldE_invariant[where P = P, OF _ assms(1) this] inner show ?thesis by blast
  qed
qed

lemma settlePlan_keeps:
  assumes "P d" "settlePlan now tid ev d = Inr d'" shows "P d'"
  using assms governPlanTasks_keeps
  by (auto simp: settlePlan_def executePlan_def logDocChange_def andThen_Inr_iff
      split: option.splits prod.splits if_splits intro!: keep_log keep_doc)

end

text \<open>Most tables are not written at all: reading them is such a property.\<close>

abbreviation sameTables :: "db \<Rightarrow> db \<Rightarrow> bool" where
  "sameTables d0 d \<equiv>
     tasks d = tasks d0 \<and> task_edges d = task_edges d0 \<and> leases d = leases d0 \<and>
     task_commits d = task_commits d0 \<and> main_commits d = main_commits d0 \<and>
     project_repos d = project_repos d0 \<and> projects d = projects d0 \<and> actors d = actors d0 \<and>
     tokens d = tokens d0 \<and> agent_sessions d = agent_sessions d0 \<and>
     pull_requests d = pull_requests d0 \<and> env_deploys d = env_deploys d0 \<and>
     release_frontiers d = release_frontiers d0 \<and> doc_edges d = doc_edges d0 \<and>
     next_lease_id d = next_lease_id d0 \<and> wall d = wall d0"

interpretation closing_frame: closing_inv "sameTables d0" for d0
  by unfold_locales
     (simp_all add: LogChange_def closeReviewRow_def appendEvent_def setDocStatus_def)

lemma closing_tasks:
  "closeTaskReview now tid out ev d = Inr d' \<Longrightarrow> tasks d' = tasks d"
  "closeTaskReview now tid out ev d = Inr d' \<Longrightarrow> task_edges d' = task_edges d"
  "settlePlan now tid ev d = Inr d' \<Longrightarrow> tasks d' = tasks d"
  "settlePlan now tid ev d = Inr d' \<Longrightarrow> task_edges d' = task_edges d"
  using closing_frame.closeTaskReview_keeps[of d d now tid out ev d']
    closing_frame.settlePlan_keeps[of d d now tid ev d'] by auto

section \<open>No fuel is spent here\<close>

lemma foldE_no_fuel:
  "(\<And>x s. f x s \<noteq> Inl OutOfFuel) \<Longrightarrow> foldE f xs s \<noteq> Inl OutOfFuel"
  by (induction xs arbitrary: s) (auto simp: andThen_Inl_iff)

lemma closeTaskReview_no_fuel: "closeTaskReview now tid out ev d \<noteq> Inl OutOfFuel"
  by (auto simp: closeTaskReview_def CloseReview_def recordReviewEvent_def Let_def
      split: option.splits)

lemma settlePlan_no_fuel: "settlePlan now tid ev d \<noteq> Inl OutOfFuel"
proof -
  have "Govern t r src pin d' \<noteq> Inl OutOfFuel" for t r src pin d'
    by (auto simp: Govern_def Let_def split: option.splits)
  then have "governPlanTasks p d' \<noteq> Inl OutOfFuel" for p d'
    by (simp add: governPlanTasks_def Let_def foldE_no_fuel)
  then show ?thesis
    by (auto simp: settlePlan_def executePlan_def andThen_Inl_iff split: option.splits prod.splits)
qed

section \<open>What settling does\<close>

lemma lpad3_pad3: "0 \<le> n \<Longrightarrow> lpad3 (intStr n) = pad3 n \<longleftrightarrow> length (natStr (nat n)) \<le> 3"
  by (auto simp: lpad3_def pad3_def intStr_def min_def dest: arg_cong[of _ _ length])

lemma natStr_length_3: "length (natStr n) \<le> 3 \<longleftrightarrow> n < 1000"
proof -
  have one: "length (natStr n) = (if n < 10 then 1 else length (natStr (n div 10)) + 1)" for n
    by (subst natStr.simps) simp
  have l1: "length (natStr n) \<le> 1 \<longleftrightarrow> n < 10" for n
    using one[of n] natStr_nonempty[of "n div 10"] by (auto simp del: natStr_nonempty)
  have l2: "length (natStr n) \<le> 2 \<longleftrightarrow> n < 100" for n
    using one[of n] l1[of "n div 10"] by auto
  show ?thesis using one[of n] l2[of "n div 10"] by auto
qed

end
