(* ===== verification/Machine.thy ===== *)
theory Machine
  imports Plans
begin

text \<open>
  The task state machine (internal/store/tasks.go legalTransitions,
  Transition, transitionKnown, ManualTransition) and the roll-up of a parent's
  state from its children (internal/store/hierarchy_resolve.go). The source's
  mutual recursion Transition, transitionKnown, resolveParent,
  ResolveHierarchy, Transition climbs the childOf chain; here it is recursion
  on fuel, and three units are shown to be enough under the hierarchy
  invariant that AddEdge maintains.
\<close>

section \<open>The machine\<close>

definition legalTransitions :: "(string \<times> string) list" where
  "legalTransitions =
    [(''draft'', ''ready''), (''ready'', ''in_progress''), (''ready'', ''in_review''),
     (''in_progress'', ''in_review''), (''in_progress'', ''ready''),
     (''in_review'', ''in_progress''), (''ready'', ''merged''), (''in_progress'', ''merged''),
     (''in_review'', ''merged''), (''merged'', ''deployed_dev''), (''merged'', ''deployed_prod''),
     (''merged'', ''released''), (''deployed_dev'', ''deployed_prod''),
     (''deployed_dev'', ''released''), (''draft'', ''abandoned''), (''ready'', ''abandoned''),
     (''in_progress'', ''abandoned''), (''in_review'', ''abandoned''), (''merged'', ''ready''),
     (''deployed_dev'', ''ready''), (''deployed_prod'', ''ready''), (''released'', ''ready''),
     (''abandoned'', ''ready''), (''ready'', ''completed''), (''in_progress'', ''completed''),
     (''in_review'', ''completed''), (''completed'', ''ready'')]"

definition legal :: "string \<Rightarrow> string \<Rightarrow> bool" where
  "legal fromState toState \<longleftrightarrow> (fromState, toState) \<in> set legalTransitions"

definition allStates :: "string list" where
  "allStates = sortStable strCompare
     (remdups (concat (map (\<lambda>(a, b). [a, b]) legalTransitions)))"

definition containerForbiddenStates :: "string \<Rightarrow> bool" where
  "containerForbiddenStates st \<longleftrightarrow>
     st \<in> set [''in_review'', ''deployed_dev'', ''deployed_prod'', ''released'']"

definition TaskState :: "db \<Rightarrow> string \<Rightarrow> err + string" where
  "TaskState d tid =
     (case taskRow d tid of None \<Rightarrow> Inl ErrNotFound | Some t \<Rightarrow> Inr (t_state t))"

section \<open>The roll-up table\<close>

text \<open>A child as the roll-up sees it: its state and whether it is closed.\<close>

definition containerTarget :: "(string \<times> bool) list \<Rightarrow> string option" where
  "containerTarget children =
     (let n = length children;
          closed = length (filter snd children);
          abandoned = length (filter (\<lambda>(st, cl). cl \<and> st = ''abandoned'') children);
          completed = length (filter (\<lambda>(st, cl). cl \<and> st = ''completed'') children);
          started = length (filter (\<lambda>(st, cl). st \<noteq> ''draft'' \<and> st \<noteq> ''ready'') children)
      in if n = 0 then None
         else if closed = n \<and> abandoned = n then Some ''abandoned''
         else if closed = n \<and> completed + abandoned = n then Some ''completed''
         else if closed = n then Some ''merged''
         else if started > 0 \<or> closed > 0 then Some ''in_progress''
         else Some ''ready'')"

definition childStates :: "db \<Rightarrow> string \<Rightarrow> (string \<times> bool) list" where
  "childStates d parentID = map (\<lambda>t. (t_state t, taskClosed d t)) (liveChildren d parentID)"

text \<open>ResolveHierarchy over the transition it calls; the source routes a parent
  with no direct edge to the target through ready.\<close>

definition resolveWith ::
  "(string \<Rightarrow> string \<Rightarrow> string \<Rightarrow> db \<Rightarrow> err + db) \<Rightarrow> string \<Rightarrow> db \<Rightarrow> err + db" where
  "resolveWith tr parentID d =
     (case taskRow d parentID of
        None \<Rightarrow> Inl ErrNotFound
      | Some p \<Rightarrow>
          if t_deleted_at p \<noteq> None \<or> t_state p = ''draft'' then Inr d
          else case containerTarget (childStates d parentID) of
            None \<Rightarrow> Inr d
          | Some target \<Rightarrow>
              if target = t_state p then Inr d
              else if legal (t_state p) target then tr parentID (t_state p) target d
              else if \<not> legal (t_state p) ''ready'' then Inr d
              else andThen (tr parentID (t_state p) ''ready'' d) (\<lambda>d1.
                     if \<not> legal ''ready'' target then Inr d1
                     else tr parentID ''ready'' target d1))"

definition resolveParentWith ::
  "(string \<Rightarrow> string \<Rightarrow> string \<Rightarrow> db \<Rightarrow> err + db) \<Rightarrow> string \<Rightarrow> db \<Rightarrow> err + db" where
  "resolveParentWith tr tid d =
     (case parentOf d tid of None \<Rightarrow> Inr d | Some parent \<Rightarrow> resolveWith tr parent d)"

section \<open>Transitions\<close>

text \<open>The guards transitionKnown runs before it writes, in order.\<close>

definition checkTransition :: "string \<Rightarrow> string \<Rightarrow> string \<Rightarrow> string \<Rightarrow> db \<Rightarrow> err + unit" where
  "checkTransition tid current fromState toState d =
     (if \<not> legal fromState toState then Inl ErrBadTransition
      else if (containerForbiddenStates fromState \<or> containerForbiddenStates toState) \<and>
              hasChildren d tid then Inl ErrBadTransition
      else if current \<noteq> fromState then Inl ErrBadTransition
      else andThen (if toState = ''in_review'' then checkAuthoringReviewable d tid else Inr ()) (\<lambda>_.
           if toState = ''completed'' then checkNoPullRequests d tid else Inr ()))"

definition setState :: "int \<Rightarrow> string \<Rightarrow> string \<Rightarrow> db \<Rightarrow> err + db" where
  "setState now tid toState d = putTask tid (\<lambda>t. t\<lparr>t_state := toState, t_updated_at := now\<rparr>) d"

definition stateChange :: "string \<Rightarrow> string \<Rightarrow> json" where
  "stateChange fromState toState =
     jfields [(''field'', ''state''), (''old'', fromState), (''new'', toState)]"

fun transitionKnown ::
  "nat \<Rightarrow> int \<Rightarrow> int \<Rightarrow> string \<Rightarrow> string \<Rightarrow> string \<Rightarrow> string \<Rightarrow> db \<Rightarrow> err + db" where
  "transitionKnown 0 now eventID tid current fromState toState d = Inl OutOfFuel"
| "transitionKnown (Suc fuel) now eventID tid current fromState toState d =
     andThen (checkTransition tid current fromState toState d) (\<lambda>_.
     andThen (setState now tid toState d) (\<lambda>d1.
     let d2 = LogChange ''task'' tid eventID (stateChange fromState toState) d1 in
     andThen (if toState = ''merged'' \<or> toState = ''abandoned'' \<or> toState = ''completed''
              then closeTaskReview now tid toState eventID d2 else Inr d2) (\<lambda>d3.
     andThen (resolveParentWith
                (\<lambda>tid fromState toState d.
                   if \<not> legal fromState toState then Inl ErrBadTransition
                   else case taskRow d tid of
                     None \<Rightarrow> Inl ErrNotFound
                   | Some t \<Rightarrow> transitionKnown fuel now eventID tid (t_state t) fromState toState d)
                tid d3) (\<lambda>d4.
     settlePlan now tid eventID d4))))"

definition TransitionFuel ::
  "nat \<Rightarrow> int \<Rightarrow> int \<Rightarrow> string \<Rightarrow> string \<Rightarrow> string \<Rightarrow> db \<Rightarrow> err + db" where
  "TransitionFuel fuel now eventID tid fromState toState d =
     (if \<not> legal fromState toState then Inl ErrBadTransition
      else case taskRow d tid of
        None \<Rightarrow> Inl ErrNotFound
      | Some t \<Rightarrow> transitionKnown fuel now eventID tid (t_state t) fromState toState d)"

text \<open>One unit per task on the chain: a task, its parent and its parent's
  parent.\<close>

definition climbFuel :: nat where
  "climbFuel = maxHierarchyDepth + 1"

definition Transition :: "int \<Rightarrow> string \<Rightarrow> string \<Rightarrow> string \<Rightarrow> int \<Rightarrow> db \<Rightarrow> err + db" where
  "Transition now tid fromState toState eventID d =
     TransitionFuel climbFuel now eventID tid fromState toState d"

definition ResolveHierarchy :: "int \<Rightarrow> string \<Rightarrow> int \<Rightarrow> db \<Rightarrow> err + db" where
  "ResolveHierarchy now parentID eventID d =
     resolveWith (TransitionFuel climbFuel now eventID) parentID d"

definition resolveParent :: "int \<Rightarrow> string \<Rightarrow> int \<Rightarrow> db \<Rightarrow> err + db" where
  "resolveParent now tid eventID d =
     resolveParentWith (TransitionFuel climbFuel now eventID) tid d"

definition ManualTransition :: "int \<Rightarrow> string \<Rightarrow> string \<Rightarrow> int \<Rightarrow> db \<Rightarrow> err + db" where
  "ManualTransition now tid target eventID d =
     andThen (TaskState d tid) (\<lambda>cur.
     if (target = ''merged'' \<or> target = ''completed'') \<and> hasChildren d tid
     then Inl ErrBadTransition
     else Transition now tid cur target eventID d)"

section \<open>Unfolding\<close>

lemma transitionKnown_Suc:
  "transitionKnown (Suc fuel) now eventID tid current fromState toState d =
     andThen (checkTransition tid current fromState toState d) (\<lambda>_.
     andThen (setState now tid toState d) (\<lambda>d1.
     let d2 = LogChange ''task'' tid eventID (stateChange fromState toState) d1 in
     andThen (if toState = ''merged'' \<or> toState = ''abandoned'' \<or> toState = ''completed''
              then closeTaskReview now tid toState eventID d2 else Inr d2) (\<lambda>d3.
     andThen (resolveParentWith (TransitionFuel fuel now eventID) tid d3) (\<lambda>d4.
     settlePlan now tid eventID d4))))"
  by (simp add: TransitionFuel_def[abs_def])

declare transitionKnown.simps(2) [simp del]

lemma legal_states:
  "legal a b \<Longrightarrow> a \<in> set TaskStates \<and> b \<in> set TaskStates"
  by (auto simp: legal_def legalTransitions_def TaskStates_def)

lemma checkTransition_InrD:
  assumes "checkTransition tid cur a b d = Inr u"
  shows "legal a b" "cur = a"
    and "containerForbiddenStates a \<or> containerForbiddenStates b \<Longrightarrow> \<not> hasChildren d tid"
    and "b = ''completed'' \<Longrightarrow> checkNoPullRequests d tid = Inr ()"
    and "b = ''in_review'' \<Longrightarrow> checkAuthoringReviewable d tid = Inr ()"
  using assms by (auto simp: checkTransition_def andThen_Inr_iff split: if_splits)

text \<open>The steps of a successful transition.\<close>

lemma transitionKnown_InrE:
  assumes "transitionKnown fuel now ev tid cur a b d = Inr d'"
  obtains n d1 d3 d4 where "fuel = Suc n"
    and "checkTransition tid cur a b d = Inr ()" and "setState now tid b d = Inr d1"
    and "(if b = ''merged'' \<or> b = ''abandoned'' \<or> b = ''completed''
          then closeTaskReview now tid b ev (LogChange ''task'' tid ev (stateChange a b) d1)
          else Inr (LogChange ''task'' tid ev (stateChange a b) d1)) = Inr d3"
    and "resolveParentWith (TransitionFuel n now ev) tid d3 = Inr d4"
    and "settlePlan now tid ev d4 = Inr d'"
proof (cases fuel)
  case 0
  with assms show ?thesis by simp
next
  case (Suc n)
  with assms that show ?thesis
    by (auto simp: transitionKnown_Suc andThen_Inr_iff Let_def)
qed

lemma resolveWith_cases:
  assumes "resolveWith tr p d = Inr d'"
  obtains "d' = d"
  | st target where "legal st target" "tr p st target d = Inr d'"
  | st where "tr p st ''ready'' d = Inr d'"
  | st target d1 where "tr p st ''ready'' d = Inr d1" "tr p ''ready'' target d1 = Inr d'"
proof -
  from assms obtain t where t: "taskRow d p = Some t"
    by (cases "taskRow d p") (simp_all add: resolveWith_def)
  show ?thesis
  proof (cases "t_deleted_at t \<noteq> None \<or> t_state t = ''draft''")
    case True
    with assms t have "d' = d" by (simp add: resolveWith_def)
    then show ?thesis by (rule that(1))
  next
    case live: False
    show ?thesis
    proof (cases "containerTarget (childStates d p)")
      case None
      with assms t live have "d' = d" by (simp add: resolveWith_def)
      then show ?thesis by (rule that(1))
    next
      case (Some target)
      note unf = assms[unfolded resolveWith_def t option.case Some]
      consider "target = t_state t" | "target \<noteq> t_state t" "legal (t_state t) target"
        | "target \<noteq> t_state t" "\<not> legal (t_state t) target" "\<not> legal (t_state t) ''ready''"
        | "target \<noteq> t_state t" "\<not> legal (t_state t) target" "legal (t_state t) ''ready''"
        by blast
      then show ?thesis
      proof cases
        case 4
        with unf live have "andThen (tr p (t_state t) ''ready'' d) (\<lambda>d1.
             if \<not> legal ''ready'' target then Inr d1 else tr p ''ready'' target d1) = Inr d'"
          by simp
        then obtain d1 where d1: "tr p (t_state t) ''ready'' d = Inr d1"
          and "(if \<not> legal ''ready'' target then Inr d1 else tr p ''ready'' target d1) = Inr d'"
          by (rule andThen_InrE)
        then show ?thesis using that(3,4) by (cases "legal ''ready'' target") auto
      next
        case 1
        with unf live have "d' = d" by simp
        then show ?thesis by (rule that(1))
      next
        case 2
        with unf live have "tr p (t_state t) target d = Inr d'" by simp
        with 2(2) show ?thesis by (rule that(2))
      next
        case 3
        with unf live have "d' = d" by simp
        then show ?thesis by (rule that(1))
      qed
    qed
  qed
qed

section \<open>Invariants of transitions\<close>

locale machine_inv = closing_inv P for P :: "db \<Rightarrow> bool" +
  assumes keep_state: "P d \<Longrightarrow> taskRow d tid = Some t \<Longrightarrow> legal (t_state t) st \<Longrightarrow>
      (containerForbiddenStates st \<Longrightarrow> \<not> hasChildren d tid) \<Longrightarrow>
      setState now tid st d = Inr d' \<Longrightarrow> P d'"
begin

lemma resolveWith_keeps:
  assumes "\<And>x a b d d'. P d \<Longrightarrow> tr x a b d = Inr d' \<Longrightarrow> P d'"
    and "P d" "resolveWith tr p d = Inr d'"
  shows "P d'"
  using assms(3) by (rule resolveWith_cases) (use assms in blast)+

lemma resolveParentWith_keeps:
  assumes "\<And>x a b d d'. P d \<Longrightarrow> tr x a b d = Inr d' \<Longrightarrow> P d'"
    and "P d" "resolveParentWith tr x d = Inr d'"
  shows "P d'"
proof (cases "parentOf d x")
  case None
  with assms(2,3) show ?thesis by (simp add: resolveParentWith_def)
next
  case (Some p)
  with assms(3) have "resolveWith tr p d = Inr d'" by (simp add: resolveParentWith_def)
  then show ?thesis using resolveWith_keeps[of tr, OF _ assms(2)] assms(1) by blast
qed

text \<open>A caller passes the state the row holds, which it read under the row
  lock; a row that is not there is not touched.\<close>

lemma transitionKnown_keeps:
  "P d \<Longrightarrow> taskRow d tid = Some t \<Longrightarrow>
     transitionKnown fuel now ev tid (t_state t) a b d = Inr d' \<Longrightarrow> P d'"
proof (induction fuel arbitrary: tid t a b d d')
  case (Suc fuel)
  from Suc.prems(3) obtain d1 d3 d4
    where chk: "checkTransition tid (t_state t) a b d = Inr ()"
      and st: "setState now tid b d = Inr d1"
      and cl: "(if b = ''merged'' \<or> b = ''abandoned'' \<or> b = ''completed''
          then closeTaskReview now tid b ev (LogChange ''task'' tid ev (stateChange a b) d1)
          else Inr (LogChange ''task'' tid ev (stateChange a b) d1)) = Inr d3"
      and rp: "resolveParentWith (TransitionFuel fuel now ev) tid d3 = Inr d4"
      and sp: "settlePlan now tid ev d4 = Inr d'"
    by (elim transitionKnown_InrE) blast
  have "legal (t_state t) b" "containerForbiddenStates b \<Longrightarrow> \<not> hasChildren d tid"
    using checkTransition_InrD[OF chk] by auto
  from keep_state[OF Suc.prems(1,2) this st] have "P d1" .
  then have log: "P (LogChange ''task'' tid ev (stateChange a b) d1)" by (rule keep_log)
  have "P d3"
  proof (cases "b = ''merged'' \<or> b = ''abandoned'' \<or> b = ''completed''")
    case True
    with cl have "closeTaskReview now tid b ev (LogChange ''task'' tid ev (stateChange a b) d1) = Inr d3"
      by (simp only: if_True)
    with log show ?thesis by (rule closeTaskReview_keeps)
  next
    case False
    with cl log show ?thesis by (simp only: if_False sum.inject)
  qed
  moreover have "P e'" if "P e" "TransitionFuel fuel now ev x u v e = Inr e'" for x u v e e'
    using that Suc.IH by (auto simp: TransitionFuel_def split: option.splits if_splits)
  ultimately have "P d4" using rp resolveParentWith_keeps by blast
  then show ?case using sp settlePlan_keeps by blast
qed simp

lemma TransitionFuel_keeps:
  "P d \<Longrightarrow> TransitionFuel fuel now ev tid a b d = Inr d' \<Longrightarrow> P d'"
  using transitionKnown_keeps by (auto simp: TransitionFuel_def split: option.splits if_splits)

lemma Transition_keeps: "P d \<Longrightarrow> Transition now tid a b ev d = Inr d' \<Longrightarrow> P d'"
  unfolding Transition_def by (rule TransitionFuel_keeps)

lemma resolveParent_keeps: "P d \<Longrightarrow> resolveParent now tid ev d = Inr d' \<Longrightarrow> P d'"
  unfolding resolveParent_def by (rule resolveParentWith_keeps[OF TransitionFuel_keeps])

lemma ResolveHierarchy_keeps: "P d \<Longrightarrow> ResolveHierarchy now p ev d = Inr d' \<Longrightarrow> P d'"
  unfolding ResolveHierarchy_def by (rule resolveWith_keeps[OF TransitionFuel_keeps])

lemma ManualTransition_keeps: "P d \<Longrightarrow> ManualTransition now tid b ev d = Inr d' \<Longrightarrow> P d'"
  by (auto simp: ManualTransition_def andThen_Inr_iff split: if_splits intro: Transition_keeps)

end

section \<open>The instances\<close>

lemma setState_InrD:
  assumes "setState now tid st d = Inr d'"
  shows "d' = d \<or> d' = updTask tid (\<lambda>t. t\<lparr>t_state := st, t_updated_at := now\<rparr>) d"
    and "taskRow d tid \<noteq> None \<Longrightarrow> d' = updTask tid (\<lambda>t. t\<lparr>t_state := st, t_updated_at := now\<rparr>) d"
  using assms by (auto simp: setState_def putTask_def split: option.splits if_splits)

text \<open>A transition writes the task rows, the log, the reviews, the events, the
  documents and the governing links, and nothing else.\<close>

abbreviation otherTables :: "db \<Rightarrow> db \<Rightarrow> bool" where
  "otherTables d0 d \<equiv>
     map t_id (tasks d) = map t_id (tasks d0) \<and> task_edges d = task_edges d0 \<and>
     leases d = leases d0 \<and>
     task_commits d = task_commits d0 \<and> main_commits d = main_commits d0 \<and>
     project_repos d = project_repos d0 \<and> projects d = projects d0 \<and> actors d = actors d0 \<and>
     tokens d = tokens d0 \<and> agent_sessions d = agent_sessions d0 \<and>
     pull_requests d = pull_requests d0 \<and> env_deploys d = env_deploys d0 \<and>
     release_frontiers d = release_frontiers d0 \<and> doc_edges d = doc_edges d0 \<and>
     next_lease_id d = next_lease_id d0 \<and> wall d = wall d0"

interpretation machine_frame: machine_inv "otherTables d0" for d0
proof unfold_locales
  fix d tid t st now d'
  assume "otherTables d0 d" "setState now tid st d = Inr d'"
  then show "otherTables d0 d'" by (auto dest!: setState_InrD(1) simp: map_updWhere_same)
qed (simp_all add: LogChange_def closeReviewRow_def appendEvent_def setDocStatus_def)

text \<open>At most one active and one draft rally per project.\<close>

lemma oneRally_cong: "tasks d' = tasks d \<Longrightarrow> oneRally d \<Longrightarrow> oneRally d'"
  unfolding oneRally_def by (simp only:)

abbreviation rallyOk :: "db \<Rightarrow> bool" where
  "rallyOk d \<equiv> distinct (map t_id (tasks d)) \<and> oneRally d"

lemma rallyOk_cong: "tasks d' = tasks d \<Longrightarrow> rallyOk d \<Longrightarrow> rallyOk d'"
  using oneRally_cong by simp

interpretation machine_rally: machine_inv rallyOk
proof unfold_locales
  fix d tid t st now d'
  assume P: "rallyOk d" and s: "setState now tid st d = Inr d'"
  have "map t_id (tasks d') = map t_id (tasks d)"
    using setState_InrD(1)[OF s] by auto
  moreover have "oneRally d'"
    using oneRally_putTask[OF _ s[unfolded setState_def]] P by simp
  ultimately show "rallyOk d'" using P by simp
qed (erule rallyOk_cong[rotated], simp add: LogChange_def closeReviewRow_def appendEvent_def
      setDocStatus_def)+

text \<open>Every task's state stays in the machine and moves along legal edges only;
  the rest of the row keeps still.\<close>

definition stateOf :: "db \<Rightarrow> string \<Rightarrow> string option" where
  "stateOf d tid = map_option t_state (taskRow d tid)"

definition legalRel :: "(string \<times> string) set" where
  "legalRel = set legalTransitions"

definition movedLegally :: "db \<Rightarrow> db \<Rightarrow> bool" where
  "movedLegally d0 d \<longleftrightarrow>
     (\<forall>tid. case (taskRow d0 tid, taskRow d tid) of
        (Some t0, Some t) \<Rightarrow>
          (t_state t0, t_state t) \<in> legalRel\<^sup>* \<and>
          t\<lparr>t_state := t_state t0, t_updated_at := t_updated_at t0\<rparr> = t0
      | (None, None) \<Rightarrow> True
      | _ \<Rightarrow> False)"

lemma movedLegally_refl: "movedLegally d d"
  by (auto simp: movedLegally_def split: option.splits)

lemma movedLegally_tasks: "tasks d' = tasks d \<Longrightarrow> movedLegally d0 d' = movedLegally d0 d"
  by (simp add: movedLegally_def taskRow_def)

interpretation machine_legal: machine_inv "movedLegally d0" for d0
proof unfold_locales
  fix d tid t st now d'
  assume m: "movedLegally d0 d" and t: "taskRow d tid = Some t" and l: "legal (t_state t) st"
    and s: "setState now tid st d = Inr d'"
  let ?f = "\<lambda>t. t\<lparr>t_state := st, t_updated_at := now\<rparr>"
  have d': "d' = updTask tid ?f d" using setState_InrD(2)[OF s] t by simp
  have row': "taskRow d' x = (if x = tid then map_option ?f (taskRow d x) else taskRow d x)" for x
    unfolding d' by (rule taskRow_updTask) simp
  from m t obtain t0 where t0: "taskRow d0 tid = Some t0" "(t_state t0, t_state t) \<in> legalRel\<^sup>*"
    "t\<lparr>t_state := t_state t0, t_updated_at := t_updated_at t0\<rparr> = t0"
    by (force simp: movedLegally_def split: option.splits dest: spec[of _ tid])
  have "(t_state t0, st) \<in> legalRel\<^sup>*"
    using t0(2) l by (auto simp: legalRel_def legal_def intro: rtrancl_into_rtrancl)
  with m t0 t show "movedLegally d0 d'"
    unfolding movedLegally_def row' by (auto split: option.splits)
qed (simp_all add: movedLegally_def taskRow_def LogChange_def closeReviewRow_def appendEvent_def
      setDocStatus_def)

text \<open>A task with children never enters a delivery state.\<close>

definition containersAllowed :: "db \<Rightarrow> bool" where
  "containersAllowed d \<longleftrightarrow>
     (\<forall>t\<in>set (tasks d). hasChildren d (t_id t) \<longrightarrow> \<not> containerForbiddenStates (t_state t))"

lemma hasChildren_updTask:
  "(\<And>t. t_id (f t) = t_id t) \<Longrightarrow> (\<And>t. t_deleted_at (f t) = t_deleted_at t) \<Longrightarrow>
     hasChildren (updTask x f d) y = hasChildren d y"
proof -
  assume f: "\<And>t. t_id (f t) = t_id t" "\<And>t. t_deleted_at (f t) = t_deleted_at t"
  have "(\<exists>c\<in>set (tasks (updTask x f d)). t_id c = z \<and> live c) \<longleftrightarrow>
        (\<exists>c\<in>set (tasks d). t_id c = z \<and> live c)" for z
  proof
    assume "\<exists>c\<in>set (tasks (updTask x f d)). t_id c = z \<and> live c"
    then obtain r where "r \<in> set (tasks d)"
      "t_id (if t_id r = x then f r else r) = z" "live (if t_id r = x then f r else r)"
      by (auto simp: updTask_def updWhere_def)
    with f show "\<exists>c\<in>set (tasks d). t_id c = z \<and> live c" by (auto split: if_splits)
  next
    assume "\<exists>c\<in>set (tasks d). t_id c = z \<and> live c"
    then obtain r where "r \<in> set (tasks d)" "t_id r = z" "live r" by blast
    with f have "(if t_id r = x then f r else r) \<in> set (tasks (updTask x f d))"
      "t_id (if t_id r = x then f r else r) = z" "live (if t_id r = x then f r else r)"
      by (auto simp: updTask_def updWhere_def)
    then show "\<exists>c\<in>set (tasks (updTask x f d)). t_id c = z \<and> live c" by blast
  qed
  then show ?thesis unfolding hasChildren_def updTask_frame by simp
qed

interpretation machine_containers:
  machine_inv "\<lambda>d. distinct (map t_id (tasks d)) \<and> containersAllowed d"
proof unfold_locales
  fix d tid t st now d'
  assume P: "distinct (map t_id (tasks d)) \<and> containersAllowed d" and t: "taskRow d tid = Some t"
    and c: "containerForbiddenStates st \<Longrightarrow> \<not> hasChildren d tid"
    and s: "setState now tid st d = Inr d'"
  have d': "d' = updTask tid (\<lambda>t. t\<lparr>t_state := st, t_updated_at := now\<rparr>) d"
    using setState_InrD(2)[OF s] t by simp
  have "hasChildren d' x = hasChildren d x" for x
    unfolding d' by (rule hasChildren_updTask) auto
  with P c show "distinct (map t_id (tasks d')) \<and> containersAllowed d'"
    by (auto simp: containersAllowed_def d') (auto simp: updTask_def in_set_updWhere split: if_splits)
qed (simp_all add: LogChange_def closeReviewRow_def appendEvent_def setDocStatus_def
      containersAllowed_def hasChildren_def)

end
