(* ===== verification/Rollup.thy ===== *)
theory Rollup
  imports Machine
begin

text \<open>
  What a transition does, proved of the definitions of theory Machine: the
  roll-up table as conditions on the children, which rows a transition can
  touch (the task and its ancestors), what becomes of the task itself, and
  that the fuel is enough.
\<close>

section \<open>The roll-up table, by condition\<close>

lemma length_filter_all: "length (filter P xs) = length xs \<longleftrightarrow> (\<forall>x\<in>set xs. P x)"
  by (metis filter_id_conv length_filter_less nat_neq_iff)

lemma length_filter_pos: "0 < length (filter P xs) \<longleftrightarrow> (\<exists>x\<in>set xs. P x)"
  by (auto simp: filter_empty_conv)

lemma count_two:
  "length (filter (\<lambda>(st, cl). cl \<and> st = ''completed'') xs) +
   length (filter (\<lambda>(st, cl). cl \<and> st = ''abandoned'') xs) =
   length (filter (\<lambda>(st, cl). cl \<and> (st = ''completed'' \<or> st = ''abandoned'')) xs)"
  by (induction xs) auto

lemma some_pair:
  "(\<exists>x\<in>S. case x of (st, cl) \<Rightarrow> A st) \<or> (\<exists>x\<in>S. snd x) \<longleftrightarrow>
     (\<exists>x\<in>S. case x of (st, cl) \<Rightarrow> cl \<or> A st)"
  by force

lemma if_chain_absorb:
  "(A \<longrightarrow> C) \<Longrightarrow> (B \<longrightarrow> C) \<Longrightarrow>
     (if e then u else if C \<and> A then v else if C \<and> B then w else if C then x else z) =
     (if e then u else if A then v else if B then w else if C then x else z)"
  by auto

lemma containerTarget_table:
  "containerTarget cs =
     (if cs = [] then None
      else if \<forall>(st, cl)\<in>set cs. cl \<and> st = ''abandoned'' then Some ''abandoned''
      else if \<forall>(st, cl)\<in>set cs. cl \<and> (st = ''completed'' \<or> st = ''abandoned'') then Some ''completed''
      else if \<forall>(st, cl)\<in>set cs. cl then Some ''merged''
      else if \<exists>(st, cl)\<in>set cs. cl \<or> st \<noteq> ''draft'' \<and> st \<noteq> ''ready'' then Some ''in_progress''
      else Some ''ready'')"
proof -
  have closed: "length (filter snd cs) = length cs \<longleftrightarrow> (\<forall>(st, cl)\<in>set cs. cl)"
    by (auto simp: length_filter_all)
  have ab: "length (filter (\<lambda>(st, cl). cl \<and> st = ''abandoned'') cs) = length cs \<longleftrightarrow>
      (\<forall>(st, cl)\<in>set cs. cl \<and> st = ''abandoned'')"
    by (rule length_filter_all)
  have co: "length (filter (\<lambda>(st, cl). cl \<and> (st = ''completed'' \<or> st = ''abandoned'')) cs) = length cs \<longleftrightarrow>
      (\<forall>(st, cl)\<in>set cs. cl \<and> (st = ''completed'' \<or> st = ''abandoned''))"
    by (rule length_filter_all)
  have some: "length (filter (\<lambda>(st, cl). st \<noteq> ''draft'' \<and> st \<noteq> ''ready'') cs) > 0 \<or>
      length (filter snd cs) > 0 \<longleftrightarrow>
      (\<exists>(st, cl)\<in>set cs. cl \<or> st \<noteq> ''draft'' \<and> st \<noteq> ''ready'')"
    unfolding length_filter_pos by (rule some_pair)
  have "(\<forall>(st, cl)\<in>set cs. cl \<and> st = ''abandoned'') \<longrightarrow> (\<forall>(st, cl)\<in>set cs. cl)"
    and "(\<forall>(st, cl)\<in>set cs. cl \<and> (st = ''completed'' \<or> st = ''abandoned'')) \<longrightarrow>
         (\<forall>(st, cl)\<in>set cs. cl)" by auto
  then show ?thesis
    unfolding containerTarget_def Let_def count_two closed ab co some length_0_conv
    by (rule if_chain_absorb)
qed

lemma containerTarget_reachable:
  "containerTarget cs = Some target \<Longrightarrow> legal ''ready'' target \<or> target = ''ready''"
  by (auto simp: containerTarget_table legal_def legalTransitions_def split: if_splits)

section \<open>How far a transition reaches\<close>

lemma TransitionFuel_frame:
  "TransitionFuel fuel now ev tid a b d = Inr d' \<Longrightarrow> otherTables d d'"
  by (rule machine_frame.TransitionFuel_keeps[of d d]) simp_all

lemma TransitionFuel_edges:
  "TransitionFuel fuel now ev tid a b d = Inr d' \<Longrightarrow> task_edges d' = task_edges d"
  using TransitionFuel_frame by blast

lemma resolveParentWith_edges:
  "resolveParentWith (TransitionFuel fuel now ev) tid d = Inr d' \<Longrightarrow> task_edges d' = task_edges d"
  using machine_frame.resolveParentWith_keeps[of d "TransitionFuel fuel now ev" d tid d']
    machine_frame.TransitionFuel_keeps by blast

lemma closing_step:
  assumes "(if c then closeTaskReview now tid b ev (LogChange k i e j d1)
            else Inr (LogChange k i e j d1)) = Inr d3"
  shows "tasks d3 = tasks d1" "task_edges d3 = task_edges d1"
  using assms closing_tasks by (auto split: if_splits)

lemma parentOf_cong: "task_edges d' = task_edges d \<Longrightarrow> parentOf d' = parentOf d"
  by (simp add: parentOf_def fun_eq_iff)

lemma taskRow_cong: "tasks d' = tasks d \<Longrightarrow> taskRow d' = taskRow d"
  by (simp add: taskRow_def fun_eq_iff)

lemma resolveWith_others:
  assumes "\<And>a b e e'. task_edges e = task_edges d \<Longrightarrow> tr p a b e = Inr e' \<Longrightarrow>
      task_edges e' = task_edges d \<and> taskRow e' x = taskRow e x"
    and "resolveWith tr p d = Inr d'"
  shows "taskRow d' x = taskRow d x"
  using assms(2)
proof (rule resolveWith_cases)
  fix st target d1
  assume 1: "tr p st ''ready'' d = Inr d1" and 2: "tr p ''ready'' target d1 = Inr d'"
  from assms(1)[OF refl 1] have "task_edges d1 = task_edges d" "taskRow d1 x = taskRow d x" by auto
  with assms(1)[OF _ 2] show ?thesis by simp
next
  assume "d' = d" then show ?thesis by (rule arg_cong[where f = "\<lambda>e. taskRow e x"])
next
  fix st target assume "tr p st target d = Inr d'"
  from assms(1)[OF refl this] show ?thesis by blast
next
  fix st assume "tr p st ''ready'' d = Inr d'"
  from assms(1)[OF refl this] show ?thesis by blast
qed

text \<open>Only the task and its ancestors are written.\<close>

lemma TransitionFuel_others:
  "TransitionFuel fuel now ev tid a b d = Inr d' \<Longrightarrow> (tid, x) \<notin> (edgeRel d ''childOf'')\<^sup>* \<Longrightarrow>
     taskRow d' x = taskRow d x"
proof (induction fuel arbitrary: tid a b d d')
  case 0
  then show ?case by (auto simp: TransitionFuel_def split: option.splits if_splits)
next
  case (Suc fuel)
  from Suc.prems(1) obtain t where t: "taskRow d tid = Some t"
    and k: "transitionKnown (Suc fuel) now ev tid (t_state t) a b d = Inr d'"
    by (auto simp: TransitionFuel_def split: option.splits if_splits)
  from k obtain d1 d3 d4
    where s: "setState now tid b d = Inr d1"
      and cl: "(if b = ''merged'' \<or> b = ''abandoned'' \<or> b = ''completed''
          then closeTaskReview now tid b ev (LogChange ''task'' tid ev (stateChange a b) d1)
          else Inr (LogChange ''task'' tid ev (stateChange a b) d1)) = Inr d3"
      and rp: "resolveParentWith (TransitionFuel fuel now ev) tid d3 = Inr d4"
      and sp: "settlePlan now tid ev d4 = Inr d'"
    by (elim transitionKnown_InrE) blast
  have d1: "d1 = updTask tid (\<lambda>t. t\<lparr>t_state := b, t_updated_at := now\<rparr>) d"
    using setState_InrD(2)[OF s] t by simp
  have x: "x \<noteq> tid" using Suc.prems(2) by blast
  have "taskRow d1 x = taskRow d x" unfolding d1 by (subst taskRow_updTask) (simp_all add: x)
  then have r3: "taskRow d3 x = taskRow d x" using taskRow_cong[OF closing_step(1)[OF cl]] by simp
  have e3: "task_edges d3 = task_edges d" using closing_step(2)[OF cl] d1 by simp
  have "taskRow d4 x = taskRow d3 x"
  proof (cases "parentOf d3 tid")
    case None
    with rp show ?thesis by (simp add: resolveParentWith_def)
  next
    case (Some p)
    with rp have rw: "resolveWith (TransitionFuel fuel now ev) p d3 = Inr d4"
      by (simp add: resolveParentWith_def)
    have "(tid, p) \<in> edgeRel d ''childOf''"
      using parentOf_SomeD[OF Some] edgeRel_cong[OF e3] by simp
    then have px: "(p, x) \<notin> (edgeRel d ''childOf'')\<^sup>*"
      using Suc.prems(2) by (meson converse_rtrancl_into_rtrancl)
    show ?thesis
    proof (rule resolveWith_others[OF _ rw])
      fix a b e e'
      assume e: "task_edges e = task_edges d3" and tr: "TransitionFuel fuel now ev p a b e = Inr e'"
      have "(p, x) \<notin> (edgeRel e ''childOf'')\<^sup>*"
        using px edgeRel_cong[OF e] edgeRel_cong[OF e3] by simp
      with Suc.IH[OF tr] TransitionFuel_edges[OF tr] e
      show "task_edges e' = task_edges d3 \<and> taskRow e' x = taskRow e x" by simp
    qed
  qed
  with r3 taskRow_cong[OF closing_tasks(3)[OF sp]] show ?case by simp
qed

text \<open>And the task itself ends in the state asked for, the rest of its row
  unchanged.\<close>

lemma TransitionFuel_own:
  assumes "hierarchyOk d" "TransitionFuel fuel now ev tid a b d = Inr d'"
  shows "\<exists>t. taskRow d tid = Some t \<and> t_state t = a \<and> legal a b \<and>
     taskRow d' tid = Some (t\<lparr>t_state := b, t_updated_at := now\<rparr>)"
proof -
  from assms(2) obtain t where t: "taskRow d tid = Some t"
    and k: "transitionKnown fuel now ev tid (t_state t) a b d = Inr d'"
    by (auto simp: TransitionFuel_def split: option.splits if_splits)
  from k obtain n d1 d3 d4
    where chk: "checkTransition tid (t_state t) a b d = Inr ()"
      and s: "setState now tid b d = Inr d1"
      and cl: "(if b = ''merged'' \<or> b = ''abandoned'' \<or> b = ''completed''
          then closeTaskReview now tid b ev (LogChange ''task'' tid ev (stateChange a b) d1)
          else Inr (LogChange ''task'' tid ev (stateChange a b) d1)) = Inr d3"
      and rp: "resolveParentWith (TransitionFuel n now ev) tid d3 = Inr d4"
      and sp: "settlePlan now tid ev d4 = Inr d'"
    by (elim transitionKnown_InrE) blast
  have d1: "d1 = updTask tid (\<lambda>t. t\<lparr>t_state := b, t_updated_at := now\<rparr>) d"
    using setState_InrD(2)[OF s] t by simp
  have "taskRow d1 tid = Some (t\<lparr>t_state := b, t_updated_at := now\<rparr>)"
    unfolding d1 by (subst taskRow_updTask) (simp_all add: t)
  then have r3: "taskRow d3 tid = Some (t\<lparr>t_state := b, t_updated_at := now\<rparr>)"
    using taskRow_cong[OF closing_step(1)[OF cl]] by simp
  have e3: "task_edges d3 = task_edges d" using closing_step(2)[OF cl] d1 by simp
  have "taskRow d4 tid = taskRow d3 tid"
  proof (cases "parentOf d3 tid")
    case None
    with rp show ?thesis by (simp add: resolveParentWith_def)
  next
    case (Some p)
    with rp have rw: "resolveWith (TransitionFuel n now ev) p d3 = Inr d4"
      by (simp add: resolveParentWith_def)
    have up: "(tid, p) \<in> edgeRel d ''childOf''"
      using parentOf_SomeD[OF Some] edgeRel_cong[OF e3] by simp
    have px: "(p, tid) \<notin> (edgeRel d ''childOf'')\<^sup>*"
      using hierarchyOk_acyclic[OF assms(1)] up
      by (meson acyclic_def rtrancl_into_trancl1)
    show ?thesis
    proof (rule resolveWith_others[OF _ rw])
      fix a b e e'
      assume e: "task_edges e = task_edges d3" and tr: "TransitionFuel n now ev p a b e = Inr e'"
      have "(p, tid) \<notin> (edgeRel e ''childOf'')\<^sup>*"
        using px edgeRel_cong[OF e] edgeRel_cong[OF e3] by simp
      with TransitionFuel_others[OF tr] TransitionFuel_edges[OF tr] e
      show "task_edges e' = task_edges d3 \<and> taskRow e' tid = taskRow e tid" by simp
    qed
  qed
  then have "taskRow d' tid = Some (t\<lparr>t_state := b, t_updated_at := now\<rparr>)"
    using r3 taskRow_cong[OF closing_tasks(3)[OF sp]] by simp
  with t checkTransition_InrD(1,2)[OF chk] show ?thesis by simp
qed

section \<open>Enough fuel\<close>

fun climbs :: "nat \<Rightarrow> db \<Rightarrow> string \<Rightarrow> bool" where
  "climbs 0 d x \<longleftrightarrow> parentOf d x = None"
| "climbs (Suc n) d x \<longleftrightarrow> (case parentOf d x of None \<Rightarrow> True | Some p \<Rightarrow> climbs n d p)"

lemma climbs_cong:
  assumes "task_edges d' = task_edges d" shows "climbs n d' x = climbs n d x"
  by (induction n arbitrary: x) (simp_all add: parentOf_cong[OF assms] split: option.split)

lemma hierarchyOk_climbs:
  assumes "hierarchyOk d" shows "climbs maxHierarchyDepth d x"
proof (rule ccontr)
  assume "\<not> climbs maxHierarchyDepth d x"
  then obtain p q r where "parentOf d x = Some p" "parentOf d p = Some q" "parentOf d q = Some r"
    by (auto simp: maxHierarchyDepth_def numeral_2_eq_2 split: option.splits)
  then show False using hierarchyOk_chain[OF assms] parentOf_SomeD by blast
qed

lemma checks_no_fuel:
  "checkTransition tid cur a b d \<noteq> Inl OutOfFuel" "setState now tid b d \<noteq> Inl OutOfFuel"
  by (auto simp: checkTransition_def andThen_Inl_iff checkAuthoringReviewable_def
      checkNoPullRequests_def setState_def putTask_def split: option.splits if_splits)

lemma resolveWith_no_fuel:
  assumes "\<And>a b e. task_edges e = task_edges d \<Longrightarrow> tr p a b e \<noteq> Inl OutOfFuel"
    and "\<And>a b e e'. tr p a b e = Inr e' \<Longrightarrow> task_edges e' = task_edges e"
  shows "resolveWith tr p d \<noteq> Inl OutOfFuel"
proof -
  have two: "andThen (tr p st ''ready'' d) (\<lambda>d1. if c then Inr d1 else tr p ''ready'' target d1)
      \<noteq> Inl OutOfFuel" for st target c
  proof (cases "tr p st ''ready'' d")
    case (Inl err)
    with assms(1)[OF refl, of st "''ready''"] show ?thesis by simp
  next
    case (Inr d1)
    with assms(1)[of d1 "''ready''" target] assms(2)[OF Inr] show ?thesis by simp
  qed
  show ?thesis
    using assms(1)[OF refl] two by (simp add: resolveWith_def split: option.split)
qed

lemma transitionKnown_no_fuel:
  assumes "\<And>p a b e. parentOf d tid = Some p \<Longrightarrow> task_edges e = task_edges d \<Longrightarrow>
      TransitionFuel n now ev p a b e \<noteq> Inl OutOfFuel"
  shows "transitionKnown (Suc n) now ev tid cur a b d \<noteq> Inl OutOfFuel"
proof
  let ?cl = "\<lambda>d1. if b = ''merged'' \<or> b = ''abandoned'' \<or> b = ''completed''
      then closeTaskReview now tid b ev (LogChange ''task'' tid ev (stateChange a b) d1)
      else Inr (LogChange ''task'' tid ev (stateChange a b) d1)"
  assume "transitionKnown (Suc n) now ev tid cur a b d = Inl OutOfFuel"
  then obtain d1 d3 where s: "setState now tid b d = Inr d1" and cl: "?cl d1 = Inr d3"
    and rp: "resolveParentWith (TransitionFuel n now ev) tid d3 = Inl OutOfFuel"
    using checks_no_fuel closeTaskReview_no_fuel settlePlan_no_fuel
    unfolding transitionKnown_Suc Let_def andThen_Inl_iff by (metis sum.distinct(1))
  have e3: "task_edges d3 = task_edges d"
    using closing_step(2)[OF cl] setState_InrD(1)[OF s] by auto
  have "parentOf d3 tid \<noteq> None" using rp by (auto simp: resolveParentWith_def split: option.splits)
  then obtain p where p: "parentOf d3 tid = Some p" by blast
  with rp have "resolveWith (TransitionFuel n now ev) p d3 = Inl OutOfFuel"
    by (simp add: resolveParentWith_def)
  moreover have "resolveWith (TransitionFuel n now ev) p d3 \<noteq> Inl OutOfFuel"
  proof (rule resolveWith_no_fuel)
    fix a b e e'
    show "TransitionFuel n now ev p a b e \<noteq> Inl OutOfFuel" if "task_edges e = task_edges d3"
      using assms p that e3 parentOf_cong[OF e3] by simp
    show "task_edges e' = task_edges e" if "TransitionFuel n now ev p a b e = Inr e'"
      by (rule TransitionFuel_edges[OF that])
  qed
  ultimately show False by blast
qed

lemma TransitionFuel_enough:
  "climbs n d tid \<Longrightarrow> TransitionFuel (Suc n) now ev tid a b d \<noteq> Inl OutOfFuel"
proof (induction n arbitrary: tid a b d)
  case 0
  have "transitionKnown (Suc 0) now ev tid cur a b d \<noteq> Inl OutOfFuel" for cur
    by (rule transitionKnown_no_fuel) (use 0 in simp)
  then show ?case by (simp add: TransitionFuel_def split: option.split)
next
  case (Suc n)
  have "transitionKnown (Suc (Suc n)) now ev tid cur a b d \<noteq> Inl OutOfFuel" for cur
  proof (rule transitionKnown_no_fuel)
    fix p a b and e :: db assume "parentOf d tid = Some p" and e: "task_edges e = task_edges d"
    then have "climbs n d p" using Suc.prems by simp
    then have "climbs n e p" using climbs_cong[OF e] by simp
    then show "TransitionFuel (Suc n) now ev p a b e \<noteq> Inl OutOfFuel" by (rule Suc.IH)
  qed
  then show ?case by (simp add: TransitionFuel_def split: option.split)
qed

text \<open>More fuel changes nothing.\<close>

lemma resolveWith_same:
  assumes "\<And>a b e. task_edges e = task_edges d \<Longrightarrow> tr p a b e = tr' p a b e"
    and "\<And>a b e e'. tr p a b e = Inr e' \<Longrightarrow> task_edges e' = task_edges e"
  shows "resolveWith tr p d = resolveWith tr' p d"
proof -
  have "andThen (tr p st ''ready'' d) (\<lambda>d1. if c then Inr d1 else tr p ''ready'' target d1) =
        andThen (tr' p st ''ready'' d) (\<lambda>d1. if c then Inr d1 else tr' p ''ready'' target d1)"
    for st c target
  proof (cases "tr p st ''ready'' d")
    case (Inl err)
    then show ?thesis using assms(1)[OF refl, of st "''ready''"] by simp
  next
    case (Inr d1)
    then show ?thesis
      using assms(1)[OF refl, of st "''ready''"] assms(1)[OF assms(2)[OF Inr], of "''ready''" target]
      by simp
  qed
  then show ?thesis
    using assms(1)[OF refl] by (simp add: resolveWith_def split: option.split)
qed

lemma transitionKnown_same:
  assumes "\<And>p a b e. parentOf d tid = Some p \<Longrightarrow> task_edges e = task_edges d \<Longrightarrow>
      TransitionFuel n now ev p a b e = TransitionFuel m now ev p a b e"
  shows "transitionKnown (Suc n) now ev tid cur a b d = transitionKnown (Suc m) now ev tid cur a b d"
proof -
  have same: "resolveParentWith (TransitionFuel n now ev) tid d3 =
      resolveParentWith (TransitionFuel m now ev) tid d3"
    if e: "task_edges d3 = task_edges d" for d3
  proof (cases "parentOf d3 tid")
    case (Some p)
    have "resolveWith (TransitionFuel n now ev) p d3 = resolveWith (TransitionFuel m now ev) p d3"
      by (rule resolveWith_same)
         (use assms Some e parentOf_cong[OF e] TransitionFuel_edges in auto)
    with Some show ?thesis by (simp add: resolveParentWith_def)
  qed (simp add: resolveParentWith_def)
  show ?thesis
    unfolding transitionKnown_Suc Let_def
  proof (intro andThen_cong refl)
    fix d1 d3
    assume st: "setState now tid b d = Inr d1"
      and cl: "(if b = ''merged'' \<or> b = ''abandoned'' \<or> b = ''completed''
        then closeTaskReview now tid b ev (LogChange ''task'' tid ev (stateChange a b) d1)
        else Inr (LogChange ''task'' tid ev (stateChange a b) d1)) = Inr d3"
    then have "task_edges d3 = task_edges d"
      using closing_step(2)[OF cl] setState_InrD(1)[OF st] by auto
    then show "resolveParentWith (TransitionFuel n now ev) tid d3 =
        resolveParentWith (TransitionFuel m now ev) tid d3" by (rule same)
  qed
qed

lemma TransitionFuel_more:
  "climbs n d tid \<Longrightarrow>
     TransitionFuel (Suc n + k) now ev tid a b d = TransitionFuel (Suc n) now ev tid a b d"
proof (induction n arbitrary: tid a b d)
  case 0
  have "transitionKnown (Suc k) now ev tid cur a b d = transitionKnown (Suc 0) now ev tid cur a b d"
    for cur by (rule transitionKnown_same) (use 0 in simp)
  then show ?case by (simp add: TransitionFuel_def split: option.split)
next
  case (Suc n)
  have "transitionKnown (Suc (Suc n + k)) now ev tid cur a b d =
      transitionKnown (Suc (Suc n)) now ev tid cur a b d" for cur
  proof (rule transitionKnown_same)
    fix p a b and e :: db assume "parentOf d tid = Some p" and e: "task_edges e = task_edges d"
    then have "climbs n d p" using Suc.prems by simp
    then have "climbs n e p" using climbs_cong[OF e] by simp
    then show "TransitionFuel (Suc n + k) now ev p a b e = TransitionFuel (Suc n) now ev p a b e"
      by (rule Suc.IH)
  qed
  then show ?case by (simp add: TransitionFuel_def split: option.split)
qed

section \<open>What stays of a row\<close>

text \<open>Which tasks have live children does not change in a transition.\<close>

interpretation machine_children: machine_inv "\<lambda>d. \<forall>y. hasChildren d y = hasChildren d0 y" for d0
proof unfold_locales
  fix d tid t st now d'
  assume same: "\<forall>y. hasChildren d y = hasChildren d0 y" and s: "setState now tid st d = Inr d'"
  have "hasChildren (updTask tid (\<lambda>t. t\<lparr>t_state := st, t_updated_at := now\<rparr>) d) y = hasChildren d y" for y
    by (rule hasChildren_updTask) simp_all
  then show "\<forall>y. hasChildren d' y = hasChildren d0 y"
    using setState_InrD(1)[OF s] same by metis
qed (simp_all add: hasChildren_def LogChange_def closeReviewRow_def appendEvent_def setDocStatus_def)

lemma movedLegally_row:
  assumes "movedLegally d0 d" "taskRow d0 x = Some t0"
  shows "\<exists>t. taskRow d x = Some t \<and> t_id t = t_id t0 \<and> t_kind t = t_kind t0 \<and>
     t_project t = t_project t0 \<and> t_deleted_at t = t_deleted_at t0 \<and>
     (t_state t0, t_state t) \<in> legalRel\<^sup>*"
proof -
  obtain t where t: "taskRow d x = Some t" "(t_state t0, t_state t) \<in> legalRel\<^sup>*"
    "t\<lparr>t_state := t_state t0, t_updated_at := t_updated_at t0\<rparr> = t0"
    using assms spec[of _ x] unfolding movedLegally_def by (auto split: option.splits dest!: spec[of _ x])
  have "t_id t = t_id t0" "t_kind t = t_kind t0" "t_project t = t_project t0"
    "t_deleted_at t = t_deleted_at t0"
    using t(3)[THEN arg_cong, of t_id] t(3)[THEN arg_cong, of t_kind]
      t(3)[THEN arg_cong, of t_project] t(3)[THEN arg_cong, of t_deleted_at] by simp_all
  with t show ?thesis by blast
qed

end
