(* ===== verification/MachineSpec.thy ===== *)
theory MachineSpec
  imports Rollup Samples
begin

text \<open>
  What the task state machine promises: the states it can reach, what a
  transition writes and what it cannot touch, that its climb up the hierarchy
  ends, the roll-up of a parent from its children, and the invariants every
  transition keeps. The last section records where the roll-up refuses a
  child's legal move.
\<close>

section \<open>Transitions\<close>

text \<open>C1: what a successful Transition does. The task was in the state the
  caller named and the move is legal; its row now has the new state and is
  otherwise unchanged but for its timestamp; only its childOf ancestors can
  have moved with it, each along legal edges; and the edges, leases, tokens,
  commits and deployments are untouched.\<close>

theorem transition_outcome:
  assumes "hierarchyOk d" "Transition now tid a b ev d = Inr d'"
  shows "(\<exists>t. taskRow d tid = Some t \<and> t_state t = a \<and> legal a b \<and>
            taskRow d' tid = Some (t\<lparr>t_state := b, t_updated_at := now\<rparr>)) \<and>
         (\<forall>x. (tid, x) \<notin> (edgeRel d ''childOf'')\<^sup>* \<longrightarrow> taskRow d' x = taskRow d x) \<and>
         movedLegally d d' \<and> task_edges d' = task_edges d \<and> leases d' = leases d \<and>
         tokens d' = tokens d \<and> task_commits d' = task_commits d \<and>
         env_deploys d' = env_deploys d"
proof -
  note tf = assms(2)[unfolded Transition_def]
  from TransitionFuel_frame[OF tf] have "task_edges d' = task_edges d" "leases d' = leases d"
    "tokens d' = tokens d" "task_commits d' = task_commits d" "env_deploys d' = env_deploys d"
    by simp_all
  moreover have "movedLegally d d'"
    using machine_legal.Transition_keeps[OF movedLegally_refl assms(2)] .
  ultimately show ?thesis
    using TransitionFuel_own[OF assms(1) tf] TransitionFuel_others[OF tf] by blast
qed

text \<open>A parent with one child: starting the child starts the parent.\<close>

definition family :: "string \<Rightarrow> string \<Rightarrow> db" where
  "family p c = sampleDb [sampleTask ''WL-1'' ''feature'' p, sampleTask ''WL-2'' ''chore'' c]
     [sampleEdge ''WL-2'' ''WL-1'' ''childOf'']"

lemma family_ok: "hierarchyOk (family p c)"
  by (auto simp: hierarchyOk_def edgeRel_def family_def)

lemma family_moves: "\<not> isl (Transition 5 ''WL-2'' ''ready'' ''in_progress'' 1 (family ''ready'' ''ready''))"
  by code_simp

theorem transition_outcome_witness:
  "movedLegally (family ''ready'' ''ready'')
     (projr (Transition 5 ''WL-2'' ''ready'' ''in_progress'' 1 (family ''ready'' ''ready'')))"
  using transition_outcome[OF family_ok succeeded[OF family_moves]] by blast

text \<open>C6: the climb ends. Under the hierarchy invariant the three units of fuel
  of the model are never used up, and any larger amount gives the same result,
  so Transition returns exactly what the unbounded recursion of the source
  returns.\<close>

theorem transition_terminates:
  assumes "hierarchyOk d"
  shows "Transition now tid a b ev d \<noteq> Inl OutOfFuel \<and>
     TransitionFuel (climbFuel + k) now ev tid a b d = Transition now tid a b ev d"
proof -
  have c: "climbs maxHierarchyDepth d tid" by (rule hierarchyOk_climbs[OF assms])
  show ?thesis
    using TransitionFuel_enough[OF c] TransitionFuel_more[OF c]
    by (simp add: Transition_def climbFuel_def)
qed

theorem transition_terminates_witness:
  "TransitionFuel (climbFuel + 9) 5 1 ''WL-2'' ''ready'' ''in_progress'' (family ''ready'' ''ready'') =
     Transition 5 ''WL-2'' ''ready'' ''in_progress'' 1 (family ''ready'' ''ready'')"
  using transition_terminates[OF family_ok] by blast

text \<open>C8: the invariants of the task table survive every transition: ids stay
  unique, a project keeps at most one active and one draft rally, and no task
  with children is in a delivery or review state.\<close>

theorem transition_keeps_invariants:
  assumes "distinct (map t_id (tasks d))" "oneRally d" "containersAllowed d"
    and "ManualTransition now tid target ev d = Inr d' \<or> Transition now tid a b ev d = Inr d'"
  shows "distinct (map t_id (tasks d')) \<and> oneRally d' \<and> containersAllowed d'"
proof -
  have r: "rallyOk d" and c: "distinct (map t_id (tasks d)) \<and> containersAllowed d"
    using assms by simp_all
  have "rallyOk d'"
    using assms(4) machine_rally.ManualTransition_keeps[OF r] machine_rally.Transition_keeps[OF r]
    by (elim disjE)
  moreover have "distinct (map t_id (tasks d')) \<and> containersAllowed d'"
    using assms(4) machine_containers.ManualTransition_keeps[OF c]
      machine_containers.Transition_keeps[OF c] by (elim disjE)
  ultimately show ?thesis by simp
qed

theorem transition_keeps_invariants_witness:
  "oneRally (projr (Transition 5 ''WL-2'' ''ready'' ''in_progress'' 1 (family ''ready'' ''ready'')))"
proof -
  have "distinct (map t_id (tasks (family ''ready'' ''ready'')))" by code_simp
  moreover have "oneRally (family ''ready'' ''ready'')" "containersAllowed (family ''ready'' ''ready'')"
    by (auto simp: oneRally_def containersAllowed_def family_def containerForbiddenStates_def
        rallyActiveCondition_def rallyDraftCondition_def)
  ultimately show ?thesis
    using transition_keeps_invariants[OF _ _ _ disjI2[OF succeeded[OF family_moves]]] by blast
qed

section \<open>The roll-up\<close>

text \<open>ContainerTarget is the documented table: a parent follows its
  children through abandoned, completed, merged, in_progress and ready, in that
  order of precedence, and is left alone without children.\<close>

theorem rollup_table:
  "containerTarget cs =
     (if cs = [] then None
      else if \<forall>(st, cl)\<in>set cs. cl \<and> st = ''abandoned'' then Some ''abandoned''
      else if \<forall>(st, cl)\<in>set cs. cl \<and> (st = ''completed'' \<or> st = ''abandoned'') then Some ''completed''
      else if \<forall>(st, cl)\<in>set cs. cl then Some ''merged''
      else if \<exists>(st, cl)\<in>set cs. cl \<or> st \<noteq> ''draft'' \<and> st \<noteq> ''ready'' then Some ''in_progress''
      else Some ''ready'')"
  by (rule containerTarget_table)

theorem rollup_table_witness:
  "containerTarget [(''completed'', True), (''abandoned'', True)] = Some ''completed''"
  unfolding rollup_table by simp

lemma containerTarget_None: "containerTarget cs = None \<longleftrightarrow> cs = []"
  by (simp add: containerTarget_table)

lemma legal_to_ready:
  "st \<in> set TaskStates \<Longrightarrow> st \<notin> {''draft'', ''in_review'', ''ready''} \<Longrightarrow> legal st ''ready''"
proof -
  have "\<forall>st\<in>set TaskStates. st \<in> {''draft'', ''in_review'', ''ready''} \<or> legal st ''ready''"
    by code_simp
  then show "st \<in> set TaskStates \<Longrightarrow> st \<notin> {''draft'', ''in_review'', ''ready''} \<Longrightarrow> legal st ''ready''"
    by blast
qed

text \<open>C7: after ResolveHierarchy succeeds on a live parent that is past draft
  and not in review, the parent stands exactly where the table puts it, whether
  the machine has a direct edge or the move went through ready; and a parent
  with no children, a draft or a tombstone is left as it was.\<close>

theorem rollup_reaches_target:
  assumes "hierarchyOk d" "ResolveHierarchy now p ev d = Inr d'" "taskRow d p = Some t"
    and "t_state t \<in> set TaskStates"
  shows "(live t \<and> t_state t \<notin> {''draft'', ''in_review''} \<longrightarrow>
            stateOf d' p = Some (case containerTarget (childStates d p) of
                                   None \<Rightarrow> t_state t | Some target \<Rightarrow> target)) \<and>
         (\<not> live t \<or> t_state t = ''draft'' \<or> childStates d p = [] \<longrightarrow> d' = d)"
proof (cases "\<not> live t \<or> t_state t = ''draft'' \<or> containerTarget (childStates d p) = None
               \<or> containerTarget (childStates d p) = Some (t_state t)")
  case True
  then have "resolveWith (TransitionFuel climbFuel now ev) p d = Inr d"
    unfolding resolveWith_def assms(3) by (auto split: option.split)
  then have "d' = d" using assms(2) by (simp add: ResolveHierarchy_def)
  then show ?thesis using True assms(3) by (auto simp: stateOf_def)
next
  case False
  then obtain target where t: "containerTarget (childStates d p) = Some target" "target \<noteq> t_state t"
    by auto
  let ?tr = "TransitionFuel climbFuel now ev"
  have own: "stateOf e' p = Some b" if "task_edges e = task_edges d" "?tr p a b e = Inr e'" for a b e e'
  proof -
    have "hierarchyOk e" using hierarchyOk_cong[OF that(1)] assms(1) by metis
    from TransitionFuel_own[OF this that(2)] show ?thesis by (elim exE conjE) (simp add: stateOf_def)
  qed
  have run: "(if legal (t_state t) target then ?tr p (t_state t) target d
      else if \<not> legal (t_state t) ''ready'' then Inr d
      else andThen (?tr p (t_state t) ''ready'' d) (\<lambda>d1.
             if \<not> legal ''ready'' target then Inr d1 else ?tr p ''ready'' target d1)) = Inr d'"
    using assms(2,3) False t unfolding ResolveHierarchy_def resolveWith_def assms(3) by simp
  have "stateOf d' p = Some target" if ns: "t_state t \<notin> {''draft'', ''in_review''}"
  proof (cases "legal (t_state t) target")
    case True
    then show ?thesis using run own[OF refl] by simp
  next
    case no: False
    then have "t_state t \<noteq> ''ready''"
      using containerTarget_reachable[OF t(1)] t(2) by metis
    then have r: "legal (t_state t) ''ready''"
      using legal_to_ready[OF assms(4)] ns by blast
    with run no obtain d1 where d1: "?tr p (t_state t) ''ready'' d = Inr d1"
      and d': "(if \<not> legal ''ready'' target then Inr d1 else ?tr p ''ready'' target d1) = Inr d'"
      by (auto simp: andThen_Inr_iff)
    show ?thesis
    proof (cases "target = ''ready''")
      case True
      have "\<not> legal ''ready'' ''ready''" by code_simp
      then show ?thesis using d' own[OF refl d1] True by simp
    next
      case False
      then have "?tr p ''ready'' target d1 = Inr d'"
        using containerTarget_reachable[OF t(1)] d' by metis
      then show ?thesis by (rule own[OF TransitionFuel_edges[OF d1]])
    qed
  qed
  moreover have "childStates d p \<noteq> []"
    using t(1) containerTarget_None[of "childStates d p"] by (metis option.distinct(1))
  ultimately show ?thesis using False t by simp
qed

lemma family_rolls: "\<not> isl (ResolveHierarchy 5 ''WL-1'' 1 (family ''ready'' ''in_progress''))"
  by code_simp

theorem rollup_reaches_target_witness:
  "stateOf (projr (ResolveHierarchy 5 ''WL-1'' 1 (family ''ready'' ''in_progress''))) ''WL-1''
     = Some ''in_progress''"
proof -
  let ?d = "family ''ready'' ''in_progress''"
  have r: "taskRow ?d ''WL-1'' = Some (sampleTask ''WL-1'' ''feature'' ''ready'')"
    by (simp add: taskRow_def family_def)
  moreover have "containerTarget (childStates ?d ''WL-1'') = Some ''in_progress''" by code_simp
  ultimately show ?thesis
    using rollup_reaches_target[OF family_ok succeeded[OF family_rolls] r]
    by (simp add: TaskStates_def)
qed

section \<open>Where the roll-up refuses a child's move\<close>

text \<open>A parent can be given children while it stands in a state a container
  may not hold, and then no child of it can start. AddEdge accepts the childOf
  edge onto a released parent; starting the child makes the roll-up move the
  parent through ready, which the container guard refuses, so the child's own
  legal, unblocked transition fails, where ResolveHierarchy's comment says the
  parent is left where it is instead.\<close>

theorem released_parent_wedges_child:
  "\<exists>d1. AddEdge 5 ''WL-2'' ''WL-1'' ''childOf'' 1
           (sampleDb [sampleTask ''WL-1'' ''feature'' ''released'', sampleTask ''WL-2'' ''chore'' ''ready''] [])
         = Inr d1 \<and>
        Transition 6 ''WL-2'' ''ready'' ''in_progress'' 2 d1 = Inl ErrBadTransition \<and>
        \<not> containersAllowed d1"
proof -
  let ?a = "AddEdge 5 ''WL-2'' ''WL-1'' ''childOf'' 1
     (sampleDb [sampleTask ''WL-1'' ''feature'' ''released'', sampleTask ''WL-2'' ''chore'' ''ready''] [])"
  have "\<not> isl ?a" by code_simp
  moreover have "Transition 6 ''WL-2'' ''ready'' ''in_progress'' 2 (projr ?a) = Inl ErrBadTransition"
    by code_simp
  moreover have "\<not> containersAllowed (projr ?a)" by code_simp
  ultimately show ?thesis using succeeded by blast
qed

text \<open>Completing the last open child of a parent that has a pull request is
  refused: the roll-up asks for completed, the pull request guard of the
  parent's own transition refuses it, and the child's move is rolled back with
  it, although the child itself has no pull request.\<close>

theorem parent_pull_request_wedges_child:
  "Transition 6 ''WL-2'' ''in_progress'' ''completed'' 2
     ((family ''in_progress'' ''in_progress'')\<lparr>pull_requests := [samplePR 7 ''WL-1'' ''merged'']\<rparr>)
   = Inl ErrBadTransition \<and>
   \<not> isl (Transition 6 ''WL-2'' ''in_progress'' ''completed'' 2 (family ''in_progress'' ''in_progress''))"
proof
  show "Transition 6 ''WL-2'' ''in_progress'' ''completed'' 2
     ((family ''in_progress'' ''in_progress'')\<lparr>pull_requests := [samplePR 7 ''WL-1'' ''merged'']\<rparr>)
   = Inl ErrBadTransition" by code_simp
  show "\<not> isl (Transition 6 ''WL-2'' ''in_progress'' ''completed'' 2 (family ''in_progress'' ''in_progress''))"
    by code_simp
qed

end
