(* ===== verification/EventLog.thy ===== *)
theory EventLog
  imports Plans
begin

text \<open>
  The event log (internal/store/events.go): RecordEvent and its two variants,
  the payload writers, the subscriber cursors and the horizon-bounded reads.
  A transaction is a function from the database to a result and a database; an
  error rolls every row back. Identity sequences are not rolled back by
  Postgres, and the log's own is modelled that way (an attempt that inserts
  nothing burns its number).
\<close>

section \<open>Recording\<close>

definition eventSources :: "string list" where
  "eventSources = [''github'', ''flux'', ''watcher'', ''cli'', ''system'', ''web'', ''catalog'',
     ''cms'', ''ci'', ''pipeline'', ''prober'']"

definition burnId :: "db \<Rightarrow> db" where
  "burnId d = d\<lparr>next_event_id := next_event_id d + 1\<rparr>"

text \<open>The result is the event's id and, when this call inserted it, what
  apply returned.\<close>

definition RecordEvent ::
  "int \<Rightarrow> string \<Rightarrow> string \<Rightarrow> string \<Rightarrow> json \<Rightarrow> (int \<Rightarrow> db \<Rightarrow> err + 'a \<times> db) \<Rightarrow> db \<Rightarrow>
     (err + int \<times> 'a option) \<times> db" where
  "RecordEvent now src ext ty payload app d =
     (if src \<notin> set eventSources then (Inl (DBError ''events_source_check''), burnId d)
      else case eventRecorded d src ext of
        Some e \<Rightarrow> (Inr (ev_id e, None), burnId d)
      | None \<Rightarrow>
          (case app (next_event_id d) (appendEvent src ext ty payload now d) of
             Inl err \<Rightarrow> (Inl err, burnId d)
           | Inr (v, d') \<Rightarrow> (Inr (next_event_id d, Some v), d')))"

text \<open>RecordEventThenApply commits the event first and applies in a second
  transaction; \<open>Some e\<close> in the result is ApplyFailedError.\<close>

definition RecordEventThenApply ::
  "int \<Rightarrow> string \<Rightarrow> string \<Rightarrow> string \<Rightarrow> json \<Rightarrow> (int \<Rightarrow> db \<Rightarrow> err + db) option \<Rightarrow> db \<Rightarrow>
     (err + int \<times> bool \<times> err option) \<times> db" where
  "RecordEventThenApply now src ext ty payload app d =
     (if src \<notin> set eventSources then (Inl (DBError ''events_source_check''), burnId d)
      else
        let (i, inserted, needApply, d1) =
          (case eventRecorded d src ext of
             Some e \<Rightarrow> (ev_id e, False, app \<noteq> None \<and> ev_applied_at e = None, burnId d)
           | None \<Rightarrow> (next_event_id d, True, app \<noteq> None, appendEvent src ext ty payload now d))
        in if \<not> needApply then (Inr (i, inserted, None), d1)
           else case the app i d1 of
             Inl err \<Rightarrow> (Inr (i, inserted, Some err), d1)
           | Inr d2 \<Rightarrow> (Inr (i, inserted, None), d2))"

text \<open>RecordEventWithID reserves the id first, so that the payload can name it;
  a replay burns the reserved id.\<close>

definition RecordEventWithID ::
  "int \<Rightarrow> string \<Rightarrow> string \<Rightarrow> string \<Rightarrow> (int \<Rightarrow> err + json) \<Rightarrow> (int \<Rightarrow> db \<Rightarrow> err + 'a \<times> db) \<Rightarrow> db \<Rightarrow>
     (err + int \<times> 'a option) \<times> db" where
  "RecordEventWithID now src ext ty payloadFor app d =
     (case payloadFor (next_event_id d) of
        Inl err \<Rightarrow> (Inl err, burnId d)
      | Inr payload \<Rightarrow> RecordEvent now src ext ty payload app d)"

section \<open>Payloads\<close>

definition updEvent :: "int \<Rightarrow> (json \<Rightarrow> json) \<Rightarrow> db \<Rightarrow> db" where
  "updEvent i f d =
     d\<lparr>events := updWhere (\<lambda>e. ev_id e = i) (\<lambda>e. e\<lparr>ev_payload := f (ev_payload e)\<rparr>) (events d)\<rparr>"

definition SetEventPayload :: "int \<Rightarrow> json \<Rightarrow> db \<Rightarrow> db" where
  "SetEventPayload i payload d = updEvent i (\<lambda>_. payload) d"

text \<open>The jsonb \<open>||\<close> of two objects: the right one's keys win; anything that
  is not an object counts as the empty one.\<close>

definition mergeJson :: "(string \<times> json) list \<Rightarrow> json \<Rightarrow> json" where
  "mergeJson kvs j =
     (case j of
        JObj old \<Rightarrow> JObj (filter (\<lambda>(k, v). k \<notin> fst ` set kvs) old @ kvs)
      | _ \<Rightarrow> JObj kvs)"

definition MergeEventPayload :: "int \<Rightarrow> (string \<times> json) list \<Rightarrow> db \<Rightarrow> err + db" where
  "MergeEventPayload i kvs d =
     (if \<exists>e\<in>set (events d). ev_id e = i then Inr (updEvent i (mergeJson kvs) d)
      else Inl ErrNotFound)"

definition AttributeEventToTask :: "int \<Rightarrow> string \<Rightarrow> db \<Rightarrow> err + db" where
  "AttributeEventToTask i tid d = MergeEventPayload i [(''task'', JStr tid)] d"

definition GetEvent :: "db \<Rightarrow> int \<Rightarrow> err + event" where
  "GetEvent d i =
     (case row (\<lambda>e. ev_id e = i) (events d) of None \<Rightarrow> Inl ErrNotFound | Some e \<Rightarrow> Inr e)"

section \<open>Cursors\<close>

text \<open>The horizon: a row is readable once no older transaction still runs.\<close>

definition eventHorizon :: "db \<Rightarrow> event \<Rightarrow> bool" where
  "eventHorizon d e \<longleftrightarrow> ev_txid e < xmin d"

definition byId :: "event list \<Rightarrow> event list" where
  "byId es = sortStable (\<lambda>a b. cmpInt (ev_id a) (ev_id b)) es"

definition subRow :: "db \<Rightarrow> string \<Rightarrow> subscriber option" where
  "subRow d name = row (\<lambda>s. sb_name s = name) (subscribers d)"

definition updSub :: "string \<Rightarrow> (subscriber \<Rightarrow> subscriber) \<Rightarrow> db \<Rightarrow> db" where
  "updSub name f d = d\<lparr>subscribers := updWhere (\<lambda>s. sb_name s = name) f (subscribers d)\<rparr>"

definition EnsureEventSubscriber :: "int \<Rightarrow> string \<Rightarrow> db \<Rightarrow> db" where
  "EnsureEventSubscriber now name d =
     (if subRow d name \<noteq> None then d
      else d\<lparr>subscribers := subscribers d @
             [\<lparr>sb_name = name, sb_last_read = 0, sb_last_acked = 0, sb_updated_at = now\<rparr>]\<rparr>)"

definition ResetEventRead :: "int \<Rightarrow> string \<Rightarrow> db \<Rightarrow> err + db" where
  "ResetEventRead now name d =
     (if subRow d name = None then Inl ErrNotFound
      else Inr (updSub name (\<lambda>s. s\<lparr>sb_last_read := sb_last_acked s, sb_updated_at := now\<rparr>) d))"

definition ReadEventBatch :: "int \<Rightarrow> string \<Rightarrow> nat \<Rightarrow> db \<Rightarrow> err + event list \<times> db" where
  "ReadEventBatch now name limit d =
     (case subRow d name of
        None \<Rightarrow> Inl ErrNotFound
      | Some s \<Rightarrow>
          let es = take limit (byId (filter (\<lambda>e. sb_last_read s < ev_id e \<and> eventHorizon d e) (events d)))
          in if es = [] then Inr ([], d)
             else Inr (es, updSub name
                    (\<lambda>s. if sb_last_read s < ev_id (last es)
                         then s\<lparr>sb_last_read := ev_id (last es), sb_updated_at := now\<rparr> else s) d))"

definition AckEvents :: "int \<Rightarrow> string \<Rightarrow> int \<Rightarrow> db \<Rightarrow> err + db" where
  "AckEvents now name upTo d =
     (case subRow d name of
        None \<Rightarrow> Inl ErrNotFound
      | Some s \<Rightarrow>
          if \<not> sb_last_acked s < upTo then Inr d
          else if sb_last_read s < upTo then Inl (DBError ''event_subscribers_acked_le_read'')
          else Inr (updSub name (\<lambda>s. s\<lparr>sb_last_acked := upTo, sb_updated_at := now\<rparr>) d))"

definition SeekEventSubscriber :: "int \<Rightarrow> string \<Rightarrow> int \<Rightarrow> db \<Rightarrow> err + db" where
  "SeekEventSubscriber now name pos d =
     (if subRow d name = None then Inl ErrNotFound
      else Inr (updSub name
             (\<lambda>s. s\<lparr>sb_last_read := pos, sb_last_acked := pos, sb_updated_at := now\<rparr>) d))"

definition MaxEventListLimit :: int where
  "MaxEventListLimit = 200"

text \<open>ListEvents: type, since, after and limit; the empty, None and 0 values
  do not filter.\<close>

definition ListEvents :: "db \<Rightarrow> string \<Rightarrow> int option \<Rightarrow> int \<Rightarrow> int \<Rightarrow> event list" where
  "ListEvents d ty since aft limit =
     (let lim = (if limit \<le> 0 \<or> limit > MaxEventListLimit then MaxEventListLimit else limit)
      in take (nat lim) (byId (filter
           (\<lambda>e. eventHorizon d e \<and> (ty = [] \<or> ev_type e = ty) \<and>
                (case since of None \<Rightarrow> True | Some s \<Rightarrow> s \<le> ev_received_at e) \<and>
                (aft = 0 \<or> aft < ev_id e)) (events d))))"

definition EventLogHorizonID :: "db \<Rightarrow> int" where
  "EventLogHorizonID d =
     (case filter (eventHorizon d) (events d) of
        [] \<Rightarrow> 0 | es \<Rightarrow> Max (set (map ev_id es)))"

definition EventSubscriberLag :: "db \<Rightarrow> subscriber \<Rightarrow> int" where
  "EventSubscriberLag d s = max (EventLogHorizonID d - sb_last_acked s) 0"

section \<open>The recording contract\<close>

text \<open>What a caller that may be run again (a redelivered webhook, a repeated
  sweep) is owed. \<open>seen\<close> answers the id under which the delivery is
  recorded.\<close>

locale recorder =
  fixes recd :: "(int \<Rightarrow> db \<Rightarrow> err + 'a \<times> db) \<Rightarrow> db \<Rightarrow> (err + int \<times> 'a option) \<times> db"
    and seen :: "db \<Rightarrow> int option"
  assumes replay: "seen d = Some i \<Longrightarrow> recd f d = (Inr (i, None), burnId d)"
    and failed: "recd f d = (Inl err, d') \<Longrightarrow> d' = burnId d"
    and seen_burn: "seen (burnId d) = seen d"
begin

lemma replays: "seen d = Some i \<Longrightarrow> ((\<lambda>s. snd (recd f s)) ^^ n) d = (burnId ^^ n) d \<and>
    seen ((burnId ^^ n) d) = Some i"
proof (induction n)
  case (Suc n)
  from Suc.IH[OF Suc.prems] replay[of "(burnId ^^ n) d" i f] seen_burn show ?case by simp
qed simp

end

lemma eventRecorded_burn [simp]: "eventRecorded (burnId d) = eventRecorded d"
  by (simp add: eventRecorded_def burnId_def fun_eq_iff)

lemma eventRecorded_append [simp]:
  "eventRecorded (appendEvent src ext ty payload at d) src ext =
     (case eventRecorded d src ext of None \<Rightarrow>
        Some \<lparr>ev_id = next_event_id d, ev_source = src, ev_external_id = ext, ev_type = ty,
              ev_payload = payload, ev_received_at = at, ev_applied_at = None, ev_txid = txid d\<rparr>
      | Some e \<Rightarrow> Some e)"
  by (simp add: eventRecorded_def appendEvent_def row_append split: option.splits)

interpretation recordEvent:
  recorder "RecordEvent now src ext ty payload"
    "\<lambda>d. if src \<in> set eventSources then map_option ev_id (eventRecorded d src ext) else None"
  for now src ext ty payload
proof
  fix d i and f :: "int \<Rightarrow> db \<Rightarrow> err + 'a \<times> db"
  assume "(if src \<in> set eventSources then map_option ev_id (eventRecorded d src ext) else None) = Some i"
  then show "RecordEvent now src ext ty payload f d = (Inr (i, None), burnId d)"
    by (auto simp: RecordEvent_def split: if_splits)
next
  fix f :: "int \<Rightarrow> db \<Rightarrow> err + 'a \<times> db" and d err d'
  assume "RecordEvent now src ext ty payload f d = (Inl err, d')"
  then show "d' = burnId d"
    by (auto simp: RecordEvent_def split: if_splits option.splits sum.splits)
qed simp

text \<open>Applied exactly once: the first call applies on the database that already
  holds the event, every later call changes nothing but the sequence.\<close>

lemma RecordEvent_first:
  assumes "RecordEvent now src ext ty payload f d = (Inr (i, Some v), d')"
  shows "i = next_event_id d" "eventRecorded d src ext = None"
    "f i (appendEvent src ext ty payload now d) = Inr (v, d')"
  using assms by (auto simp: RecordEvent_def split: if_splits option.splits sum.splits)

section \<open>Cursor invariants\<close>

definition cursorsOk :: "db \<Rightarrow> bool" where
  "cursorsOk d \<longleftrightarrow> (\<forall>s\<in>set (subscribers d). sb_last_acked s \<le> sb_last_read s)"

lemma cursorsOk_updSub:
  assumes "cursorsOk d"
    and "\<And>s. s \<in> set (subscribers d) \<Longrightarrow> sb_name s = name \<Longrightarrow>
      sb_last_acked s \<le> sb_last_read s \<Longrightarrow> sb_last_acked (f s) \<le> sb_last_read (f s)"
  shows "cursorsOk (updSub name f d)"
  using assms by (auto simp: cursorsOk_def updSub_def in_set_updWhere)

lemma cursor_ops_ok:
  assumes "cursorsOk d" "distinct (map sb_name (subscribers d))"
  shows "cursorsOk (EnsureEventSubscriber now name d)"
    and "ResetEventRead now name d = Inr d' \<Longrightarrow> cursorsOk d'"
    and "ReadEventBatch now name n d = Inr (es, d') \<Longrightarrow> cursorsOk d'"
    and "AckEvents now name u d = Inr d' \<Longrightarrow> cursorsOk d'"
    and "SeekEventSubscriber now name u d = Inr d' \<Longrightarrow> cursorsOk d'"
proof -
  have uniq: "subRow d name = Some s'" if "s' \<in> set (subscribers d)" "sb_name s' = name" for s'
    using row_unique[OF assms(2) that(1)] that(2) by (simp add: subRow_def)
  show "cursorsOk (EnsureEventSubscriber now name d)"
    using assms(1) by (auto simp: EnsureEventSubscriber_def cursorsOk_def)
  show "ResetEventRead now name d = Inr d' \<Longrightarrow> cursorsOk d'"
    using assms(1) by (auto simp: ResetEventRead_def split: if_splits intro!: cursorsOk_updSub)
  show "ReadEventBatch now name n d = Inr (es, d') \<Longrightarrow> cursorsOk d'"
    using assms(1)
    by (auto simp: ReadEventBatch_def Let_def split: option.splits if_splits intro!: cursorsOk_updSub)
  show "AckEvents now name u d = Inr d' \<Longrightarrow> cursorsOk d'"
    using assms(1)
    by (auto simp: AckEvents_def split: option.splits if_splits intro!: cursorsOk_updSub dest!: uniq)
  show "SeekEventSubscriber now name u d = Inr d' \<Longrightarrow> cursorsOk d'"
    using assms(1) by (auto simp: SeekEventSubscriber_def split: if_splits intro!: cursorsOk_updSub)
qed

text \<open>Reading hands out events beyond the cursor, in id order, and moves the
  cursor to the last of them.\<close>

interpretation eventId: comparator "\<lambda>a b. cmpInt (ev_id a) (ev_id b)"
  by (rule comparator_key[OF cmpInt.comparator_axioms])

lemma byId_sorted: "sorted (map ev_id (byId es))"
  using eventId.sorted_sortStable[of es] by (simp add: byId_def sorted_map)

lemma ReadEventBatch_InrD:
  assumes "ReadEventBatch now name n d = Inr (es, d')" "subRow d name = Some s"
  shows "length es \<le> n" "sorted (map ev_id es)"
    and "\<And>e. e \<in> set es \<Longrightarrow> e \<in> set (events d) \<and> sb_last_read s < ev_id e \<and> eventHorizon d e"
    and "\<exists>s'. subRow d' name = Some s' \<and>
           sb_last_read s' = (if es = [] then sb_last_read s else ev_id (last es)) \<and>
           sb_last_acked s' = sb_last_acked s"
proof -
  define cands where "cands = filter (\<lambda>e. sb_last_read s < ev_id e \<and> eventHorizon d e) (events d)"
  have es: "es = take n (byId cands)"
    using assms by (auto simp: ReadEventBatch_def cands_def Let_def split: if_splits)
  show "length es \<le> n" by (simp add: es)
  show "sorted (map ev_id es)"
    unfolding es take_map[symmetric] by (rule sorted_wrt_take[OF byId_sorted])
  show in_all: "e \<in> set (events d) \<and> sb_last_read s < ev_id e \<and> eventHorizon d e" if "e \<in> set es" for e
    using that by (auto simp: es byId_def cands_def dest: in_set_takeD)
  show "\<exists>s'. subRow d' name = Some s' \<and>
      sb_last_read s' = (if es = [] then sb_last_read s else ev_id (last es)) \<and>
      sb_last_acked s' = sb_last_acked s"
  proof (cases "es = []")
    case True
    with assms show ?thesis by (auto simp: ReadEventBatch_def Let_def split: if_splits)
  next
    case False
    let ?f = "\<lambda>s. if sb_last_read s < ev_id (last es)
      then s\<lparr>sb_last_read := ev_id (last es), sb_updated_at := now\<rparr> else s"
    have d': "d' = updSub name ?f d"
      using assms False by (auto simp: ReadEventBatch_def Let_def split: if_splits)
    have "subRow d' name = map_option (\<lambda>s. if sb_name s = name then ?f s else s) (subRow d name)"
      unfolding d' subRow_def updSub_def by (simp add: row_updWhere_same)
    moreover have "sb_name s = name" using assms(2) by (auto simp: subRow_def dest: row_SomeD)
    moreover have "sb_last_read s < ev_id (last es)" using in_all[of "last es"] False by simp
    ultimately show ?thesis using assms(2) False by simp
  qed
qed

lemma sorted_le_last:
  fixes key :: "'a \<Rightarrow> int"
  shows "sorted (map key xs) \<Longrightarrow> x \<in> set xs \<Longrightarrow> key x \<le> key (last xs)"
  by (induction xs) auto

lemma take_sorted_initial:
  fixes key :: "'a \<Rightarrow> int"
  assumes "sorted (map key xs)" "distinct (map key xs)" "take n xs \<noteq> []"
  shows "set (take n xs) = {x \<in> set xs. key x \<le> key (last (take n xs))}"
proof -
  let ?es = "take n xs" and ?r = "drop n xs"
  have split: "map key xs = map key ?es @ map key ?r" by (metis append_take_drop_id map_append)
  then have "sorted (map key ?es @ map key ?r)" using assms(1) by metis
  then have ord: "sorted (map key ?es)" "\<And>x y. x \<in> set ?es \<Longrightarrow> y \<in> set ?r \<Longrightarrow> key x \<le> key y"
    by (simp_all only: sorted_append) auto
  have last: "last ?es \<in> set ?es" using assms(3) by simp
  have "key x \<noteq> key y" if "x \<in> set ?es" "y \<in> set ?r" for x y
    using assms(2) that unfolding split distinct_append by force
  then have gt: "key (last ?es) < key y" if "y \<in> set ?r" for y
    using ord(2)[OF last that] that last by (metis order_le_less)
  have un: "set xs = set ?es \<union> set ?r" by (metis append_take_drop_id set_append)
  show ?thesis
  proof (rule set_eqI)
    fix x
    show "x \<in> set ?es \<longleftrightarrow> x \<in> {x \<in> set xs. key x \<le> key (last ?es)}"
      using sorted_le_last[OF ord(1), of x] gt[of x] un by (metis (mono_tags, lifting) CollectD CollectI Un_iff not_less)
  qed
qed

lemma ReadEventBatch_exact:
  assumes "ReadEventBatch now name n d = Inr (es, d')" "subRow d name = Some s"
    and "distinct (map ev_id (events d))"
  shows "length es \<le> n \<and> sorted (map ev_id es) \<and>
     (\<exists>s'. subRow d' name = Some s' \<and> sb_last_acked s' = sb_last_acked s \<and>
        sb_last_read s' = (if es = [] then sb_last_read s else ev_id (last es)) \<and>
        set es = {e \<in> set (events d). eventHorizon d e \<and> sb_last_read s < ev_id e \<and>
                    ev_id e \<le> sb_last_read s'})"
proof -
  note b = ReadEventBatch_InrD[OF assms(1,2)]
  let ?c = "filter (\<lambda>e. sb_last_read s < ev_id e \<and> eventHorizon d e) (events d)"
  have es: "es = take n (byId ?c)"
    using assms by (auto simp: ReadEventBatch_def Let_def split: if_splits)
  have "mset (map ev_id (byId ?c)) = mset (map ev_id ?c)" by (simp add: byId_def)
  then have "distinct (map ev_id (byId ?c))"
    using distinct_map_filter[OF assms(3)] mset_eq_imp_distinct_iff by blast
  from take_sorted_initial[OF byId_sorted this, of n]
  have "es \<noteq> [] \<Longrightarrow> set es = {e \<in> set (byId ?c). ev_id e \<le> ev_id (last es)}"
    unfolding es[symmetric] .
  then have "es \<noteq> [] \<Longrightarrow> set es = {e \<in> set (events d). eventHorizon d e \<and> sb_last_read s < ev_id e \<and>
      ev_id e \<le> ev_id (last es)}"
    by (auto simp: byId_def)
  then show ?thesis using b(1,2,4) by (cases "es = []") (auto simp del: take_eq_Nil)
qed

end
