(* ===== verification/LogSpec.thy ===== *)
theory LogSpec
  imports EventLog Samples
begin

text \<open>
  What the event log promises its callers: a delivery is applied once however
  often it is repeated, a failed one leaves nothing behind but a burned
  number, a split delivery can be repaired by redelivering it, and a
  subscriber's cursor only moves over events it was handed.
\<close>

section \<open>Once and only once\<close>

text \<open>RecordEvent is idempotent by (source, external id). When the event is
  already recorded, any number of further calls answers its id, runs no apply
  and changes nothing but the id sequence.\<close>

theorem record_event_replays:
  assumes "src \<in> set eventSources" "eventRecorded d src ext = Some e"
  shows "RecordEvent now src ext ty payload f d = (Inr (ev_id e, None), burnId d) \<and>
     ((\<lambda>s. snd (RecordEvent now src ext ty payload f s)) ^^ n) d = (burnId ^^ n) d"
proof -
  let ?seen = "\<lambda>d. if src \<in> set eventSources then map_option ev_id (eventRecorded d src ext) else None"
  have "?seen d = Some (ev_id e)" using assms by simp
  from recordEvent.replay[OF this] recordEvent.replays[OF this] show ?thesis by blast
qed

definition loggedDb :: db where
  "loggedDb = appendEvent ''cli'' ''x1'' ''t'' JNull 3 (sampleDb [] [])"

definition noApply :: "int \<Rightarrow> db \<Rightarrow> err + unit \<times> db" where
  "noApply i d = Inr ((), d)"

theorem record_event_replays_witness:
  "RecordEvent 5 ''cli'' ''x1'' ''t'' JNull noApply loggedDb = (Inr (1, None), burnId loggedDb)"
proof -
  have "\<exists>e. eventRecorded loggedDb ''cli'' ''x1'' = Some e \<and> ev_id e = 1"
    by (simp add: eventRecorded_def loggedDb_def appendEvent_def sampleDb_def emptyDb_def)
  moreover have "''cli'' \<in> set eventSources" by (simp add: eventSources_def)
  ultimately show ?thesis
    using record_event_replays[of "''cli''" loggedDb "''x1''" _ 5 "''t''" JNull noApply] by metis
qed

text \<open>RecordEvent is atomic. If it fails, nothing remains but the burned
  id; if it applied, the event was new, its id is the next of the sequence,
  and apply ran on the database that already holds the event's row.\<close>

theorem record_event_atomic:
  "case RecordEvent now src ext ty payload f d of
     (Inl err, d') \<Rightarrow> d' = burnId d
   | (Inr (i, None), d') \<Rightarrow> d' = burnId d \<and> eventRecorded d src ext \<noteq> None
   | (Inr (i, Some v), d') \<Rightarrow> i = next_event_id d \<and> eventRecorded d src ext = None \<and>
       f i (appendEvent src ext ty payload now d) = Inr (v, d')"
  by (simp add: RecordEvent_def split: option.split sum.split)

text \<open>The split contract of RecordEventThenApply: when apply fails the event
  is recorded all the same and not marked applied, and delivering it again runs
  apply again under the same id.\<close>

theorem failed_apply_can_be_repaired:
  assumes "src \<in> set eventSources" "eventRecorded d src ext = None"
    and "RecordEventThenApply now src ext ty payload (Some f) d = (Inr (i, ins, Some err), d1)"
  shows "ins \<and> i = next_event_id d \<and> d1 = appendEvent src ext ty payload now d \<and>
     RecordEventThenApply now' src ext ty payload (Some g) d1 =
       (case g i (burnId d1) of Inl err' \<Rightarrow> (Inr (i, False, Some err'), burnId d1)
        | Inr d2 \<Rightarrow> (Inr (i, False, None), d2))"
proof -
  have d1: "ins" "i = next_event_id d" "d1 = appendEvent src ext ty payload now d"
    using assms by (auto simp: RecordEventThenApply_def split: sum.splits)
  have "\<exists>e. eventRecorded d1 src ext = Some e \<and> ev_id e = i \<and> ev_applied_at e = None"
    using assms(2) by (simp add: d1)
  then show ?thesis using d1(1,2) assms(1)
    by (auto simp: RecordEventThenApply_def d1(3)[symmetric] split: sum.split)
qed

definition failing :: "int \<Rightarrow> db \<Rightarrow> err + db" where
  "failing i d = Inl ErrNotFound"

theorem failed_apply_can_be_repaired_witness:
  "fst (RecordEventThenApply 6 ''github'' ''y'' ''push'' JNull (Some (\<lambda>i d. Inr d))
          (appendEvent ''github'' ''y'' ''push'' JNull 5 (sampleDb [] []))) = Inr (1, False, None)"
proof -
  have r: "RecordEventThenApply 5 ''github'' ''y'' ''push'' JNull (Some failing) (sampleDb [] []) =
     (Inr (1, True, Some ErrNotFound), appendEvent ''github'' ''y'' ''push'' JNull 5 (sampleDb [] []))"
    by (simp add: RecordEventThenApply_def eventSources_def eventRecorded_def failing_def
        sampleDb_def emptyDb_def)
  have "''github'' \<in> set eventSources" by (simp add: eventSources_def)
  moreover have "eventRecorded (sampleDb [] []) ''github'' ''y'' = None" by (simp add: eventRecorded_def)
  ultimately show ?thesis using failed_apply_can_be_repaired[OF _ _ r] by simp
qed

section \<open>Subscribers\<close>

text \<open>The cursor invariant (a subscriber has acknowledged at most what it
  has read) is kept by every operation on subscribers.\<close>

theorem cursors_stay_ordered:
  assumes "cursorsOk d" "distinct (map sb_name (subscribers d))"
    and "EnsureEventSubscriber now name d = d' \<or> ResetEventRead now name d = Inr d' \<or>
         ReadEventBatch now name n d = Inr (es, d') \<or> AckEvents now name u d = Inr d' \<or>
         SeekEventSubscriber now name u d = Inr d'"
  shows "cursorsOk d'"
  using assms(3) cursor_ops_ok[OF assms(1,2)] by blast

definition readerDb :: db where
  "readerDb = loggedDb\<lparr>xmin := 9,
     subscribers := [\<lparr>sb_name = ''ui'', sb_last_read = 0, sb_last_acked = 0, sb_updated_at = 0\<rparr>]\<rparr>"

theorem cursors_stay_ordered_witness: "cursorsOk (snd (projr (ReadEventBatch 5 ''ui'' 10 readerDb)))"
proof -
  have "\<not> isl (ReadEventBatch 5 ''ui'' 10 readerDb)" by code_simp
  from succeeded[OF this] have r: "ReadEventBatch 5 ''ui'' 10 readerDb =
      Inr (fst (projr (ReadEventBatch 5 ''ui'' 10 readerDb)), snd (projr (ReadEventBatch 5 ''ui'' 10 readerDb)))"
    by simp
  have "cursorsOk readerDb" "distinct (map sb_name (subscribers readerDb))"
    by (simp_all add: cursorsOk_def readerDb_def)
  from cursors_stay_ordered[OF this disjI2[OF disjI2[OF disjI1[OF r]]]] show ?thesis .
qed

text \<open>A batch is what the subscriber has not read yet: at most the limit, in
  id order, all behind the commit horizon and beyond the old cursor, and
  nothing readable up to the new cursor is left out; the cursor ends on the
  last event handed out and the acknowledged offset does not move.\<close>

theorem batch_is_next_events:
  assumes "ReadEventBatch now name n d = Inr (es, d')" "subRow d name = Some s"
    and "distinct (map ev_id (events d))"
  shows "length es \<le> n \<and> sorted (map ev_id es) \<and>
     (\<exists>s'. subRow d' name = Some s' \<and> sb_last_acked s' = sb_last_acked s \<and>
        sb_last_read s' = (if es = [] then sb_last_read s else ev_id (last es)) \<and>
        set es = {e \<in> set (events d). eventHorizon d e \<and> sb_last_read s < ev_id e \<and>
                    ev_id e \<le> sb_last_read s'})"
  using assms by (rule ReadEventBatch_exact)

theorem batch_is_next_events_witness:
  "length (fst (projr (ReadEventBatch 5 ''ui'' 10 readerDb))) \<le> 10"
proof -
  have "\<not> isl (ReadEventBatch 5 ''ui'' 10 readerDb)" by code_simp
  from succeeded[OF this] have r: "ReadEventBatch 5 ''ui'' 10 readerDb =
      Inr (fst (projr (ReadEventBatch 5 ''ui'' 10 readerDb)), snd (projr (ReadEventBatch 5 ''ui'' 10 readerDb)))"
    by simp
  have "\<exists>s. subRow readerDb ''ui'' = Some s" by (simp add: subRow_def readerDb_def)
  moreover have "distinct (map ev_id (events readerDb))"
    by (simp add: readerDb_def loggedDb_def appendEvent_def sampleDb_def emptyDb_def)
  ultimately show ?thesis using batch_is_next_events[OF r] by blast
qed

end
