(* ===== verification/LeaseOps.thy ===== *)
theory LeaseOps
  imports EventLog Rollup
begin

text \<open>
  Leases (internal/store/leases.go): Claim, Renew, Release,
  RebindLeaseWorktree, closeLease, CloseActiveLease, ExpireLeases, each with
  the guards in the source's order and every table it writes (leases, task
  state through the machine, task-scoped tokens, agent sessions). The two
  partial unique indexes (one active lease per task, and per actor and
  worktree) are the invariant.
\<close>

section \<open>Reading\<close>

abbreviation active :: "lease \<Rightarrow> bool" where
  "active l \<equiv> l_released_at l = None"

definition activeLeaseTx :: "db \<Rightarrow> string \<Rightarrow> err + lease" where
  "activeLeaseTx d tid =
     (case row (\<lambda>l. l_task l = tid \<and> active l) (leases d) of
        None \<Rightarrow> Inl ErrNotFound
      | Some l \<Rightarrow> Inr l)"

definition hasActiveLease :: "db \<Rightarrow> string \<Rightarrow> bool" where
  "hasActiveLease d tid \<longleftrightarrow> (\<exists>l\<in>set (leases d). l_task l = tid \<and> active l)"

definition openLeasesForTasks :: "db \<Rightarrow> string list \<Rightarrow> (string \<times> lease) list" where
  "openLeasesForTasks d ids =
     map (\<lambda>l. (l_task l, l)) (filter (\<lambda>l. active l \<and> l_task l \<in> set ids) (leases d))"

definition requireActor :: "db \<Rightarrow> string \<Rightarrow> err + unit" where
  "requireActor d actorID = (if actorID \<in> set (actors d) then Inr () else Inl ErrNotFound)"

text \<open>Two hours, in microseconds.\<close>

definition DefaultLeaseTTL :: int where
  "DefaultLeaseTTL = 2 * 60 * 60 * 1000000"

definition effectiveTTL :: "int \<Rightarrow> int" where
  "effectiveTTL ttl = (if ttl \<le> 0 then DefaultLeaseTTL else ttl)"

section \<open>Writing one lease row\<close>

definition updLease :: "int \<Rightarrow> (lease \<Rightarrow> lease) \<Rightarrow> db \<Rightarrow> db" where
  "updLease lid f d = d\<lparr>leases := updWhere (\<lambda>l. l_id l = lid) f (leases d)\<rparr>"

text \<open>The indexes leases_active and leases_active_worktree.\<close>

definition leaseTaken :: "db \<Rightarrow> int \<Rightarrow> string \<Rightarrow> bool" where
  "leaseTaken d lid tid \<longleftrightarrow>
     (\<exists>l\<in>set (leases d). l_id l \<noteq> lid \<and> active l \<and> l_task l = tid)"

definition worktreeTaken :: "db \<Rightarrow> int \<Rightarrow> string \<Rightarrow> string \<Rightarrow> bool" where
  "worktreeTaken d lid actorID worktree \<longleftrightarrow>
     (\<exists>l\<in>set (leases d). l_id l \<noteq> lid \<and> active l \<and> l_actor l = actorID \<and> l_worktree l = worktree)"

definition insertLease :: "int \<Rightarrow> int \<Rightarrow> string \<Rightarrow> string \<Rightarrow> string \<Rightarrow> db \<Rightarrow> err + lease \<times> db" where
  "insertLease now expires tid actorID worktree d =
     (let lid = next_lease_id d;
          l = \<lparr>l_id = lid, l_task = tid, l_actor = actorID, l_worktree = worktree,
               l_acquired_at = now, l_renewed_at = Some now, l_expires_at = expires,
               l_released_at = None\<rparr>
      in if worktreeTaken d lid actorID worktree \<or> leaseTaken d lid tid then Inl ErrLeased
         else Inr (l, d\<lparr>leases := leases d @ [l], next_lease_id := lid + 1\<rparr>))"

definition endOpenAgentSessionsOnLease :: "int \<Rightarrow> int \<Rightarrow> db \<Rightarrow> db" where
  "endOpenAgentSessionsOnLease now lid d =
     d\<lparr>agent_sessions := updWhere (\<lambda>s. as_lease s = Some lid \<and> as_ended_at s = None)
         (\<lambda>s. s\<lparr>as_ended_at := Some now\<rparr>) (agent_sessions d)\<rparr>"

definition revokeTaskTokens :: "int \<Rightarrow> string \<Rightarrow> db \<Rightarrow> db" where
  "revokeTaskTokens now tid d =
     d\<lparr>tokens := updWhere (\<lambda>k. tk_task k = Some tid \<and> tk_revoked_at k = None)
         (\<lambda>k. k\<lparr>tk_revoked_at := Some now\<rparr>) (tokens d)\<rparr>"

definition extendTaskTokens :: "int \<Rightarrow> string \<Rightarrow> db \<Rightarrow> db" where
  "extendTaskTokens expires tid d =
     d\<lparr>tokens := updWhere
         (\<lambda>k. tk_task k = Some tid \<and> tk_revoked_at k = None \<and>
              (case tk_expires_at k of None \<Rightarrow> False | Some x \<Rightarrow> x < expires))
         (\<lambda>k. k\<lparr>tk_expires_at := Some expires\<rparr>) (tokens d)\<rparr>"

section \<open>Claim\<close>

definition claimTx ::
  "int \<Rightarrow> string \<Rightarrow> string \<Rightarrow> string \<Rightarrow> int \<Rightarrow> int \<Rightarrow> db \<Rightarrow> err + lease \<times> db" where
  "claimTx now tid actorID worktree ttl eventID d =
     (case row (\<lambda>t. t_id t = tid \<and> live t) (tasks d) of
        None \<Rightarrow> Inl ErrNotFound
      | Some t \<Rightarrow>
          if hasChildren d tid then Inl ErrBadTransition
          else andThen (taskKindPolicy (t_kind t)) (\<lambda>policy.
            if \<not> Claimable policy then Inl ErrBadTransition
            else andThen (requireActor d actorID) (\<lambda>_.
              if hasActiveLease d tid then Inl ErrLeased
              else if IsBlocked d tid then Inl ErrBlocked
              else andThen (transitionKnown climbFuel now eventID tid (t_state t)
                              ''ready'' ''in_progress'' d) (\<lambda>d1.
                insertLease now (now + ttl) tid actorID worktree d1))))"

definition claimPayload :: "string \<Rightarrow> string \<Rightarrow> string \<Rightarrow> json" where
  "claimPayload tid actorID worktree =
     jfields [(''task'', tid), (''actor'', actorID), (''worktree'', worktree)]"

definition outcome :: "(err + int \<times> 'a option) \<times> db \<Rightarrow> (err + 'a option) \<times> db" where
  "outcome r = (case r of (Inl e, d) \<Rightarrow> (Inl e, d) | (Inr (_, v), d) \<Rightarrow> (Inr v, d))"

text \<open>\<open>extID\<close> is the random external id; the clock is read again inside the
  transaction and truncated to the second.\<close>

definition Claim ::
  "int \<Rightarrow> string \<Rightarrow> string \<Rightarrow> string \<Rightarrow> string \<Rightarrow> int \<Rightarrow> db \<Rightarrow> (err + lease option) \<times> db" where
  "Claim now extID tid actorID worktree ttl d =
     outcome (RecordEvent now ''cli'' extID ''lease.claimed'' (claimPayload tid actorID worktree)
       (claimTx (truncSec now) tid actorID worktree (effectiveTTL ttl)) d)"

section \<open>Renew, rebind, release\<close>

definition heldBy :: "string \<Rightarrow> string \<Rightarrow> db \<Rightarrow> err + lease" where
  "heldBy tid actorID d =
     andThen (activeLeaseTx d tid) (\<lambda>l. if l_actor l \<noteq> actorID then Inl ErrNotFound else Inr l)"

definition renewTx :: "int \<Rightarrow> string \<Rightarrow> string \<Rightarrow> int \<Rightarrow> int \<Rightarrow> db \<Rightarrow> err + lease \<times> db" where
  "renewTx now tid actorID ttl eventID d =
     andThen (heldBy tid actorID d) (\<lambda>l.
     let expires = now + ttl;
         f = (\<lambda>l. l\<lparr>l_renewed_at := Some now, l_expires_at := expires\<rparr>)
     in Inr (f l, extendTaskTokens expires tid (updLease (l_id l) f d)))"

definition Renew ::
  "int \<Rightarrow> string \<Rightarrow> string \<Rightarrow> string \<Rightarrow> int \<Rightarrow> db \<Rightarrow> (err + lease option) \<times> db" where
  "Renew now extID tid actorID ttl d =
     outcome (RecordEvent now ''cli'' extID ''lease.renewed''
       (jfields [(''task'', tid), (''actor'', actorID)])
       (renewTx (truncSec now) tid actorID (effectiveTTL ttl)) d)"

definition closeLease :: "int \<Rightarrow> int \<Rightarrow> string \<Rightarrow> int \<Rightarrow> db \<Rightarrow> err + db" where
  "closeLease now lid tid eventID d =
     (let d1 = updLease lid (\<lambda>l. l\<lparr>l_released_at := Some now\<rparr>) d;
          d2 = endOpenAgentSessionsOnLease now lid d1;
          d3 = revokeTaskTokens now tid d2
      in case taskRow d3 tid of
           None \<Rightarrow> Inl (DBError ''no rows'')
         | Some t \<Rightarrow>
             if t_state t = ''in_progress''
             then Transition now tid ''in_progress'' ''ready'' eventID d3
             else Inr d3)"

definition releaseLeaseTx :: "int \<Rightarrow> string \<Rightarrow> string \<Rightarrow> int \<Rightarrow> db \<Rightarrow> err + db" where
  "releaseLeaseTx now tid actorID eventID d =
     andThen (heldBy tid actorID d) (\<lambda>l. closeLease now (l_id l) tid eventID d)"

text \<open>An operation with no value of its own.\<close>

definition unitTx :: "(int \<Rightarrow> db \<Rightarrow> err + db) \<Rightarrow> int \<Rightarrow> db \<Rightarrow> err + unit \<times> db" where
  "unitTx f eventID d = (case f eventID d of Inl e \<Rightarrow> Inl e | Inr d' \<Rightarrow> Inr ((), d'))"

definition Release :: "int \<Rightarrow> string \<Rightarrow> string \<Rightarrow> string \<Rightarrow> db \<Rightarrow> (err + unit option) \<times> db" where
  "Release now extID tid actorID d =
     outcome (RecordEvent now ''cli'' extID ''lease.released''
       (jfields [(''task'', tid), (''actor'', actorID)])
       (unitTx (releaseLeaseTx (truncSec now) tid actorID)) d)"

definition rebindTx :: "string \<Rightarrow> string \<Rightarrow> string \<Rightarrow> int \<Rightarrow> db \<Rightarrow> err + lease \<times> db" where
  "rebindTx tid actorID worktree eventID d =
     andThen (heldBy tid actorID d) (\<lambda>l.
     if worktreeTaken d (l_id l) (l_actor l) worktree then Inl ErrLeased
     else Inr (l\<lparr>l_worktree := worktree\<rparr>,
               updLease (l_id l) (\<lambda>l. l\<lparr>l_worktree := worktree\<rparr>) d))"

definition RebindLeaseWorktree ::
  "int \<Rightarrow> string \<Rightarrow> string \<Rightarrow> string \<Rightarrow> string \<Rightarrow> db \<Rightarrow> (err + lease option) \<times> db" where
  "RebindLeaseWorktree now extID tid actorID worktree d =
     outcome (RecordEvent now ''cli'' extID ''lease.rebound'' (claimPayload tid actorID worktree)
       (rebindTx tid actorID worktree) d)"

text \<open>CloseActiveLease revokes the task's tokens whether or not a lease was
  open, and leaves the task's state to its caller.\<close>

definition CloseActiveLease :: "int \<Rightarrow> string \<Rightarrow> db \<Rightarrow> db" where
  "CloseActiveLease now tid d =
     (let d1 = revokeTaskTokens now tid d in
      case row (\<lambda>l. l_task l = tid \<and> active l) (leases d1) of
        None \<Rightarrow> d1
      | Some l \<Rightarrow> endOpenAgentSessionsOnLease now (l_id l)
                    (updLease (l_id l) (\<lambda>l. l\<lparr>l_released_at := Some now\<rparr>) d1))"

section \<open>The sweep\<close>

definition expireOneTx :: "int \<Rightarrow> int \<Rightarrow> string \<Rightarrow> int \<Rightarrow> db \<Rightarrow> err + db" where
  "expireOneTx now lid tid eventID d =
     (if \<exists>l\<in>set (leases d). l_id l = lid \<and> active l then closeLease now lid tid eventID d
      else Inr d)"

definition expireExtID :: "int \<Rightarrow> string" where
  "expireExtID lid = ''lease-expired-'' @ intStr lid"

definition expireOne :: "int \<Rightarrow> int \<Rightarrow> string \<Rightarrow> db \<Rightarrow> (err + unit option) \<times> db" where
  "expireOne now lid tid d =
     outcome (RecordEvent now ''system'' (expireExtID lid) ''lease.expired''
       (JObj [(''task'', JStr tid), (''lease'', JInt lid)])
       (unitTx (expireOneTx now lid tid)) d)"

definition expiredLeases :: "db \<Rightarrow> int \<Rightarrow> (int \<times> string) list" where
  "expiredLeases d now =
     map (\<lambda>l. (l_id l, l_task l))
       (sortStable (\<lambda>a b. cmpInt (l_id a) (l_id b))
         (filter (\<lambda>l. active l \<and> l_expires_at l < now) (leases d)))"

text \<open>One transaction per candidate; the first error ends the sweep with what
  it has counted. A replica that loses the advisory lock does nothing and is
  not modelled.\<close>

fun expireLoop :: "int \<Rightarrow> (int \<times> string) list \<Rightarrow> nat \<Rightarrow> db \<Rightarrow> (nat \<times> err option) \<times> db" where
  "expireLoop now [] n d = ((n, None), d)"
| "expireLoop now ((lid, tid) # cs) n d =
     (case expireOne now lid tid d of
        (Inl e, d') \<Rightarrow> ((n, Some e), d')
      | (Inr inserted, d') \<Rightarrow> expireLoop now cs (if inserted = None then n else n + 1) d')"

definition ExpireLeases :: "int \<Rightarrow> db \<Rightarrow> (nat \<times> err option) \<times> db" where
  "ExpireLeases now d = expireLoop now (expiredLeases d now) 0 d"

section \<open>The lease invariant\<close>

definition leasesOk :: "db \<Rightarrow> bool" where
  "leasesOk d \<longleftrightarrow>
     distinct (map l_id (leases d)) \<and> (\<forall>l\<in>set (leases d). l_id l < next_lease_id d) \<and>
     (\<forall>l\<in>set (leases d). \<forall>m\<in>set (leases d). active l \<longrightarrow> active m \<longrightarrow>
        l_task l = l_task m \<or> l_actor l = l_actor m \<and> l_worktree l = l_worktree m \<longrightarrow>
        l_id l = l_id m)"

lemma leasesOk_cong:
  "leases d' = leases d \<Longrightarrow> next_lease_id d' = next_lease_id d \<Longrightarrow> leasesOk d' = leasesOk d"
  unfolding leasesOk_def by (simp only:)

lemma leasesOk_same: "otherTables d d' \<Longrightarrow> leasesOk d' = leasesOk d"
  by (rule leasesOk_cong) simp_all

lemma leaseOf_active:
  assumes "leasesOk d" "l \<in> set (leases d)" "m \<in> set (leases d)" "active l" "active m"
    "l_task l = l_task m"
  shows "l = m"
proof -
  have "l_id l = l_id m" using assms unfolding leasesOk_def by blast
  moreover have "distinct (map l_id (leases d))" using assms(1) by (simp add: leasesOk_def)
  ultimately show ?thesis using assms(2,3) distinct_map_inj by metis
qed

lemma activeLeaseTx_InrD:
  "activeLeaseTx d tid = Inr l \<Longrightarrow> l \<in> set (leases d) \<and> l_task l = tid \<and> active l"
  by (auto simp: activeLeaseTx_def split: option.splits dest: row_SomeD)

lemma heldBy_InrD:
  "heldBy tid a d = Inr l \<Longrightarrow> l \<in> set (leases d) \<and> l_task l = tid \<and> active l \<and> l_actor l = a"
  by (auto simp: heldBy_def andThen_Inr_iff split: if_splits dest: activeLeaseTx_InrD)

text \<open>Rewriting one row keeps the invariant when the row keeps its id and task,
  does not come back to life, and takes no worktree another active lease of
  the same actor has.\<close>

lemma leasesOk_updLease:
  assumes ok: "leasesOk d"
    and f: "\<And>l. l_id (f l) = l_id l" "\<And>l. l_task (f l) = l_task l"
      "\<And>l. l_actor (f l) = l_actor l" "\<And>l. active (f l) \<Longrightarrow> active l"
    and wt: "\<And>l. l \<in> set (leases d) \<Longrightarrow> l_id l = lid \<Longrightarrow> active (f l) \<Longrightarrow>
      l_worktree (f l) = l_worktree l \<or> \<not> worktreeTaken d lid (l_actor l) (l_worktree (f l))"
  shows "leasesOk (updLease lid f d)"
  unfolding leasesOk_def
proof (intro conjI ballI impI)
  let ?g = "\<lambda>l. if l_id l = lid then f l else l"
  have ids: "map l_id (leases (updLease lid f d)) = map l_id (leases d)"
    by (simp add: updLease_def map_updWhere_same f)
  show "distinct (map l_id (leases (updLease lid f d)))"
    using ok ids by (simp add: leasesOk_def)
  have mem: "\<exists>k\<in>set (leases d). l = ?g k" if "l \<in> set (leases (updLease lid f d))" for l
    using that by (auto simp: updLease_def in_set_updWhere)
  show "l_id l < next_lease_id (updLease lid f d)" if "l \<in> set (leases (updLease lid f d))" for l
    using mem[OF that] ok f by (auto simp: leasesOk_def updLease_def)
  fix l m
  assume l: "l \<in> set (leases (updLease lid f d))" and m: "m \<in> set (leases (updLease lid f d))"
    and act: "active l" "active m"
    and clash: "l_task l = l_task m \<or> l_actor l = l_actor m \<and> l_worktree l = l_worktree m"
  from mem[OF l] mem[OF m] obtain k n where
    k: "k \<in> set (leases d)" "l = ?g k" and n: "n \<in> set (leases d)" "m = ?g n" by blast
  have keep: "l_task (?g x) = l_task x" "l_actor (?g x) = l_actor x" "l_id (?g x) = l_id x" for x
    using f by auto
  have ak: "active k" "active n" using act k n f(4) by (auto split: if_splits)
  have uniq: "l_id k = l_id n"
    if "l_task k = l_task n \<or> l_actor k = l_actor n \<and> l_worktree k = l_worktree n"
    using ok k(1) n(1) ak that unfolding leasesOk_def by blast
  show "l_id l = l_id m"
  proof (rule ccontr)
    assume ne: "l_id l \<noteq> l_id m"
    then have neq: "l_id k \<noteq> l_id n" using k n keep by simp
    with clash uniq k n keep have wt2: "l_actor k = l_actor n" "l_worktree l = l_worktree m"
      and kn: "l_worktree k \<noteq> l_worktree n" by auto
    have one: False if "l_id a = lid" "a \<in> set (leases d)" "active (f a)" "b \<in> set (leases d)"
      "active b" "l_id b \<noteq> lid" "l_actor a = l_actor b" "l_worktree (f a) = l_worktree b"
      "l_worktree a \<noteq> l_worktree b" for a b
      using wt[OF that(2,1,3)] that unfolding worktreeTaken_def by auto
    consider "l_id k = lid" "l_id n \<noteq> lid" | "l_id k \<noteq> lid" "l_id n = lid"
      | "l_id k \<noteq> lid" "l_id n \<noteq> lid" using neq by auto
    then show False
    proof cases
      case 1 with one[of k n] k n act wt2 kn ak show False by auto
    next
      case 2 with one[of n k] k n act wt2 kn ak show False by auto
    next
      case 3 with k n wt2 kn show False by simp
    qed
  qed
qed

lemma leasesOk_insertLease:
  assumes "leasesOk d" "insertLease now x tid a w d = Inr (l, d')"
  shows "leasesOk d'"
proof -
  let ?l = "\<lparr>l_id = next_lease_id d, l_task = tid, l_actor = a, l_worktree = w,
    l_acquired_at = now, l_renewed_at = Some now, l_expires_at = x, l_released_at = None\<rparr>"
  from assms(2) have d': "d' = d\<lparr>leases := leases d @ [?l], next_lease_id := next_lease_id d + 1\<rparr>"
    and free: "\<not> worktreeTaken d (next_lease_id d) a w" "\<not> leaseTaken d (next_lease_id d) tid"
    by (auto simp: insertLease_def Let_def split: if_splits)
  have dist: "distinct (map l_id (leases d))"
    and below: "\<forall>m\<in>set (leases d). l_id m < next_lease_id d"
    using assms(1) unfolding leasesOk_def by blast+
  then have fresh: "l_id m \<noteq> next_lease_id d" if "m \<in> set (leases d)" for m
    using that by auto
  have nt: "l_task m \<noteq> tid" "\<not> (l_actor m = a \<and> l_worktree m = w)"
    if "m \<in> set (leases d)" "active m" for m
    using free that fresh[OF that(1)] by (auto simp: worktreeTaken_def leaseTaken_def)
  have old: "l_id k = l_id m" if "k \<in> set (leases d)" "m \<in> set (leases d)" "active k" "active m"
    "l_task k = l_task m \<or> l_actor k = l_actor m \<and> l_worktree k = l_worktree m" for k m
    using assms(1) that unfolding leasesOk_def by blast
  show ?thesis
    unfolding leasesOk_def d'
  proof (intro conjI ballI impI)
    show "distinct (map l_id (leases (d\<lparr>leases := leases d @ [?l], next_lease_id := next_lease_id d + 1\<rparr>)))"
      using dist below by force
  next
    fix k assume "k \<in> set (leases (d\<lparr>leases := leases d @ [?l], next_lease_id := next_lease_id d + 1\<rparr>))"
    then show "l_id k < next_lease_id (d\<lparr>leases := leases d @ [?l], next_lease_id := next_lease_id d + 1\<rparr>)"
      using below by auto
  next
    fix k m
    assume "k \<in> set (leases (d\<lparr>leases := leases d @ [?l], next_lease_id := next_lease_id d + 1\<rparr>))"
      and "m \<in> set (leases (d\<lparr>leases := leases d @ [?l], next_lease_id := next_lease_id d + 1\<rparr>))"
      and "active k" "active m"
      and "l_task k = l_task m \<or> l_actor k = l_actor m \<and> l_worktree k = l_worktree m"
    then consider "k = ?l" "m = ?l" | "k = ?l" "m \<in> set (leases d)" | "k \<in> set (leases d)" "m = ?l"
      | "k \<in> set (leases d)" "m \<in> set (leases d)" by auto
    then show "l_id k = l_id m"
    proof cases
      case 2 with nt[of m] \<open>active m\<close> \<open>_ \<or> _\<close> show ?thesis by auto
    next
      case 3 with nt[of k] \<open>active k\<close> \<open>_ \<or> _\<close> show ?thesis by auto
    next
      case 4 with old \<open>active k\<close> \<open>active m\<close> \<open>_ \<or> _\<close> show ?thesis by blast
    qed simp
  qed
qed

section \<open>Every lease operation keeps it\<close>

text \<open>What an event's transaction keeps, its recording keeps: a failed or a
  repeated one only burns a number.\<close>

lemma RecordEvent_keeps:
  assumes "\<And>d. P d \<Longrightarrow> P (burnId d)"
    and "\<And>d. P d \<Longrightarrow> P (appendEvent src ext ty payload now d)"
    and "\<And>i e v e'. P e \<Longrightarrow> f i e = Inr (v, e') \<Longrightarrow> P e'"
    and "P d"
  shows "P (snd (outcome (RecordEvent now src ext ty payload f d)))"
proof -
  have ap: "P e'" if "f (next_event_id d) (appendEvent src ext ty payload now d) = Inr (v, e')" for v e'
    using assms(3)[OF assms(2)[OF assms(4)] that] .
  then show ?thesis
    using assms(1)[OF assms(4)]
    by (auto simp: RecordEvent_def outcome_def split: option.split sum.split)
qed

lemma outcome_InrD:
  "outcome (RecordEvent now src ext ty payload f d) = (Inr (Some v), d') \<Longrightarrow>
     f (next_event_id d) (appendEvent src ext ty payload now d) = Inr (v, d')"
  by (auto simp: RecordEvent_def outcome_def split: if_splits option.splits sum.splits prod.splits)

lemma Transition_leases: "Transition now tid a b ev d = Inr d' \<Longrightarrow> leasesOk d' = leasesOk d"
  unfolding Transition_def by (rule leasesOk_same[OF TransitionFuel_frame])

lemma transitionKnown_leases:
  "taskRow d tid = Some t \<Longrightarrow> transitionKnown n now ev tid (t_state t) a b d = Inr d' \<Longrightarrow>
     leasesOk d' = leasesOk d"
  by (rule leasesOk_same[OF machine_frame.transitionKnown_keeps]) simp_all

text \<open>Reading the task by id among the live rows is reading the one row with
  that id.\<close>

lemma liveRow:
  assumes "distinct (map t_id (tasks d))" "row (\<lambda>t. t_id t = tid \<and> live t) (tasks d) = Some t"
  shows "taskRow d tid = Some t" "live t" "t_id t = tid"
  using row_SomeD[OF assms(2)] taskRow_unique[OF assms(1), of t] by auto

lemma row_unique_live:
  "distinct (map t_id ts) \<Longrightarrow> t \<in> set ts \<Longrightarrow> live t \<Longrightarrow> row (\<lambda>u. t_id u = t_id t \<and> live u) ts = Some t"
  by (induction ts) (auto dest: image_eqI[of "t_id t" t_id])

lemma claimTx_steps:
  assumes "claimTx now tid a w ttl ev d = Inr (l, d')"
  obtains t pol d1 where "row (\<lambda>t. t_id t = tid \<and> live t) (tasks d) = Some t"
    "\<not> hasChildren d tid" "taskKindPolicy (t_kind t) = Inr pol" "Claimable pol"
    "a \<in> set (actors d)" "\<not> hasActiveLease d tid" "\<not> IsBlocked d tid"
    "transitionKnown climbFuel now ev tid (t_state t) ''ready'' ''in_progress'' d = Inr d1"
    "insertLease now (now + ttl) tid a w d1 = Inr (l, d')"
  using assms
  by (auto simp: claimTx_def requireActor_def andThen_Inr_iff split: option.splits if_splits)

definition storeOk :: "db \<Rightarrow> bool" where
  "storeOk d \<longleftrightarrow> distinct (map t_id (tasks d)) \<and> leasesOk d"

lemma storeOk_cong:
  assumes "map t_id (tasks d') = map t_id (tasks d)" "leases d' = leases d"
    "next_lease_id d' = next_lease_id d"
  shows "storeOk d' = storeOk d"
  unfolding storeOk_def assms(1) leasesOk_cong[OF assms(2,3)] by (rule refl)

lemma storeOk_event:
  "storeOk (burnId d) = storeOk d" "storeOk (appendEvent s x ty j at d) = storeOk d"
  by (rule storeOk_cong; simp add: burnId_def appendEvent_def)+

lemma storeOk_same: "otherTables d d' \<Longrightarrow> storeOk d' = storeOk d"
  by (rule storeOk_cong) simp_all

lemma claimTx_ok: "storeOk d \<Longrightarrow> claimTx now tid a w ttl ev d = Inr (l, d') \<Longrightarrow> storeOk d'"
proof (erule claimTx_steps)
  fix t pol d1
  assume ok: "storeOk d" and t: "row (\<lambda>t. t_id t = tid \<and> live t) (tasks d) = Some t"
    and tk: "transitionKnown climbFuel now ev tid (t_state t) ''ready'' ''in_progress'' d = Inr d1"
    and ins: "insertLease now (now + ttl) tid a w d1 = Inr (l, d')"
  have "otherTables d d1"
    using machine_frame.transitionKnown_keeps[OF _ liveRow(1)[OF _ t] tk, of d] ok
    by (simp add: storeOk_def)
  then have "storeOk d1" using ok storeOk_same by blast
  moreover have "tasks d' = tasks d1" using ins by (auto simp: insertLease_def Let_def split: if_splits)
  ultimately show "storeOk d'" using leasesOk_insertLease[OF _ ins] by (simp add: storeOk_def)
qed

lemma storeOk_tables:
  "storeOk (endOpenAgentSessionsOnLease now lid d) = storeOk d"
  "storeOk (revokeTaskTokens now tid d) = storeOk d"
  "storeOk (extendTaskTokens x tid d) = storeOk d"
  by (rule storeOk_cong; simp add: endOpenAgentSessionsOnLease_def revokeTaskTokens_def
      extendTaskTokens_def)+

lemma storeOk_updLease:
  "storeOk d \<Longrightarrow> leasesOk (updLease lid f d) \<Longrightarrow> storeOk (updLease lid f d)"
  by (simp add: storeOk_def updLease_def)

lemma storeOk_release: "storeOk d \<Longrightarrow> storeOk (updLease lid (\<lambda>l. l\<lparr>l_released_at := Some now\<rparr>) d)"
  by (rule storeOk_updLease, assumption, rule leasesOk_updLease) (simp_all add: storeOk_def)

lemma closeLease_ok:
  assumes "storeOk d" "closeLease now lid tid ev d = Inr d'" shows "storeOk d'"
proof -
  let ?d3 = "revokeTaskTokens now tid (endOpenAgentSessionsOnLease now lid
    (updLease lid (\<lambda>l. l\<lparr>l_released_at := Some now\<rparr>) d))"
  have "storeOk ?d3" unfolding storeOk_tables using storeOk_release[OF assms(1)] by blast
  moreover have "d' = ?d3 \<or> Transition now tid ''in_progress'' ''ready'' ev ?d3 = Inr d'"
    using assms(2) by (auto simp: closeLease_def Let_def split: option.splits if_splits)
  ultimately show ?thesis
    using storeOk_same[OF TransitionFuel_frame] unfolding Transition_def by blast
qed

lemma renewTx_ok: "storeOk d \<Longrightarrow> renewTx now tid a ttl ev d = Inr (l, d') \<Longrightarrow> storeOk d'"
proof -
  assume ok: "storeOk d" and "renewTx now tid a ttl ev d = Inr (l, d')"
  then obtain lid where d': "d' = extendTaskTokens (now + ttl) tid
      (updLease lid (\<lambda>l. l\<lparr>l_renewed_at := Some now, l_expires_at := now + ttl\<rparr>) d)"
    by (auto simp: renewTx_def andThen_Inr_iff Let_def)
  have "leasesOk (updLease lid (\<lambda>l. l\<lparr>l_renewed_at := Some now, l_expires_at := now + ttl\<rparr>) d)"
    by (rule leasesOk_updLease) (use ok in \<open>simp_all add: storeOk_def\<close>)
  then show "storeOk d'" unfolding d' storeOk_tables by (rule storeOk_updLease[OF ok])
qed

lemma rebindTx_ok: "storeOk d \<Longrightarrow> rebindTx tid a w ev d = Inr (l, d') \<Longrightarrow> storeOk d'"
proof -
  assume ok: "storeOk d" and "rebindTx tid a w ev d = Inr (l, d')"
  then obtain k where k: "heldBy tid a d = Inr k" and free: "\<not> worktreeTaken d (l_id k) (l_actor k) w"
    and d': "d' = updLease (l_id k) (\<lambda>l. l\<lparr>l_worktree := w\<rparr>) d"
    by (auto simp: rebindTx_def andThen_Inr_iff split: if_splits)
  have "m = k" if "m \<in> set (leases d)" "l_id m = l_id k" for m
    using distinct_map_inj[of l_id "leases d" m k] heldBy_InrD[OF k] ok that
    by (simp add: storeOk_def leasesOk_def)
  with free have "leasesOk d'" unfolding d'
    by (intro leasesOk_updLease) (use ok in \<open>auto simp: storeOk_def\<close>)
  then show "storeOk d'" unfolding d' by (rule storeOk_updLease[OF ok])
qed

lemma releaseLeaseTx_ok: "storeOk d \<Longrightarrow> releaseLeaseTx now tid a ev d = Inr d' \<Longrightarrow> storeOk d'"
  by (auto simp: releaseLeaseTx_def andThen_Inr_iff elim: closeLease_ok)

lemma unitTx_InrD: "unitTx f i d = Inr (u, d') \<Longrightarrow> f i d = Inr d'"
  by (auto simp: unitTx_def split: sum.splits)

lemma CloseActiveLease_ok: "storeOk d \<Longrightarrow> storeOk (CloseActiveLease now tid d)"
  by (simp add: CloseActiveLease_def Let_def storeOk_tables storeOk_release split: option.split)

lemma expireOneTx_ok: "storeOk d \<Longrightarrow> expireOneTx now lid tid ev d = Inr d' \<Longrightarrow> storeOk d'"
  by (auto simp: expireOneTx_def split: if_splits intro: closeLease_ok)

lemma unitTx_ok:
  "(\<And>d d'. P d \<Longrightarrow> f i d = Inr d' \<Longrightarrow> P d') \<Longrightarrow> P d \<Longrightarrow> unitTx f i d = Inr (u, d') \<Longrightarrow> P d'"
  by (blast dest: unitTx_InrD)

lemmas storeOk_RecordEvent = RecordEvent_keeps[where P = storeOk, unfolded storeOk_event]

lemma lease_ops_ok:
  assumes "storeOk d"
  shows "storeOk (snd (Claim now x tid a w ttl d))" "storeOk (snd (Renew now x tid a ttl d))"
    "storeOk (snd (Release now x tid a d))" "storeOk (snd (RebindLeaseWorktree now x tid a w d))"
    "storeOk (snd (expireOne now lid tid d))"
  unfolding Claim_def Renew_def Release_def RebindLeaseWorktree_def expireOne_def
  by (rule storeOk_RecordEvent[OF _ _ _ assms], assumption, assumption,
      (erule (1) claimTx_ok renewTx_ok rebindTx_ok
         unitTx_ok[where P = storeOk, OF releaseLeaseTx_ok, rotated 2]
         unitTx_ok[where P = storeOk, OF expireOneTx_ok, rotated 2]; assumption))+

lemma expireLoop_ok: "storeOk d \<Longrightarrow> storeOk (snd (expireLoop now cs n d))"
proof (induction now cs n d rule: expireLoop.induct)
  case (2 now lid tid cs n d)
  then show ?case
    using lease_ops_ok(5)[OF "2.prems", of now lid tid]
    by (auto split: prod.split sum.split)
qed simp

end
