(* ===== verification/LeaseSpec.thy ===== *)
theory LeaseSpec
  imports LeaseOps Samples
begin

text \<open>
  What leases promise: one active lease per task and per (actor, worktree),
  kept by every operation and by the sweep; what a claim requires and leaves
  behind; that closing a lease frees the task and ends the credentials bound
  to it; that only the holder can renew, move or release it; and that a sweep
  that returns no error leaves no expired lease.
\<close>

section \<open>The invariant\<close>

text \<open>C2: unique task ids, unique lease ids, at most one active lease per task
  and per actor and worktree: kept by Claim, Renew, Release, rebinding, closing
  a lease, one expiry and a whole sweep, whether they succeed, fail or repeat.\<close>

theorem leases_stay_exclusive:
  assumes "storeOk d"
  shows "storeOk (snd (Claim now x tid a w ttl d)) \<and> storeOk (snd (Renew now x tid a ttl d)) \<and>
     storeOk (snd (Release now x tid a d)) \<and> storeOk (snd (RebindLeaseWorktree now x tid a w d)) \<and>
     storeOk (CloseActiveLease now tid d) \<and> storeOk (snd (ExpireLeases now d))"
  using lease_ops_ok[OF assms] CloseActiveLease_ok[OF assms] expireLoop_ok[OF assms]
  by (simp add: ExpireLeases_def)

definition claimable :: db where
  "claimable = sampleDb [sampleTask ''WL-1'' ''feature'' ''ready''] []"

definition claimed :: db where
  "claimed = snd (Claim 3000000 ''x'' ''WL-1'' ''ada'' ''/w'' 0 claimable)"

lemma claimable_ok: "storeOk claimable"
  by (simp add: storeOk_def leasesOk_def claimable_def)

theorem leases_stay_exclusive_witness: "storeOk claimed"
  unfolding claimed_def using leases_stay_exclusive[OF claimable_ok] by blast

section \<open>Claiming\<close>

lemma insertLease_InrD:
  assumes "insertLease now x tid a w d = Inr (l, d')"
  shows "leases d' = leases d @ [l]" "tasks d' = tasks d" "l_task l = tid" "l_actor l = a"
    "l_worktree l = w" "active l" "l_expires_at l = x" "l_acquired_at l = now"
  using assms by (auto simp: insertLease_def Let_def split: if_splits)

lemma transitionKnown_own:
  assumes "hierarchyOk d" "taskRow d tid = Some t"
    "transitionKnown fuel now ev tid (t_state t) a b d = Inr d'"
  shows "t_state t = a" "stateOf d' tid = Some b" "leases d' = leases d"
proof -
  obtain n where n: "fuel = Suc n" "checkTransition tid (t_state t) a b d = Inr ()"
    using assms(3) by (rule transitionKnown_InrE)
  from checkTransition_InrD(1,2)[OF this(2)] have ab: "legal a b" "t_state t = a" by auto
  then have tf: "TransitionFuel fuel now ev tid a b d = Inr d'"
    using assms by (simp add: TransitionFuel_def)
  show "t_state t = a" by (rule ab(2))
  show "stateOf d' tid = Some b"
    using TransitionFuel_own[OF assms(1) tf] by (auto simp: stateOf_def)
  show "leases d' = leases d" using TransitionFuel_frame[OF tf] by simp
qed

text \<open>C3: a claim that succeeds was allowed: the task is live, of a claimable
  kind, has no children, no active lease and nothing open blocking it, was
  ready, the actor exists and holds no active lease from that worktree. Afterwards
  the task is in_progress, and the one new lease is the actor's, active, and
  expires the effective ttl after the second the claim was made in.\<close>

theorem claim_outcome:
  assumes "distinct (map t_id (tasks d))" "hierarchyOk d"
    and "Claim now x tid a w ttl d = (Inr (Some l), d')"
  shows "(\<exists>t pol. taskRow d tid = Some t \<and> live t \<and> t_state t = ''ready'' \<and>
            taskKindPolicy (t_kind t) = Inr pol \<and> Claimable pol) \<and>
         \<not> hasChildren d tid \<and> \<not> hasActiveLease d tid \<and> \<not> IsBlocked d tid \<and>
         a \<in> set (actors d) \<and> \<not> worktreeTaken d (next_lease_id d) a w \<and>
         stateOf d' tid = Some ''in_progress'' \<and> leases d' = leases d @ [l] \<and>
         l_task l = tid \<and> l_actor l = a \<and> l_worktree l = w \<and> active l \<and>
         l_expires_at l = truncSec now + effectiveTTL ttl \<and> 0 < effectiveTTL ttl"
proof -
  define e where "e = appendEvent ''cli'' x ''lease.claimed'' (claimPayload tid a w) now d"
  have tables: "tasks e = tasks d" "task_edges e = task_edges d" "leases e = leases d"
    "actors e = actors d" by (simp_all add: e_def appendEvent_def)
  from assms(3) have "claimTx (truncSec now) tid a w (effectiveTTL ttl) (next_event_id d) e = Inr (l, d')"
    unfolding Claim_def e_def by (rule outcome_InrD)
  then obtain t pol d1 where t: "row (\<lambda>t. t_id t = tid \<and> live t) (tasks e) = Some t"
    and c: "\<not> hasChildren e tid" "taskKindPolicy (t_kind t) = Inr pol" "Claimable pol"
      "a \<in> set (actors e)" "\<not> hasActiveLease e tid" "\<not> IsBlocked e tid"
    and tk: "transitionKnown climbFuel (truncSec now) (next_event_id d) tid (t_state t)
        ''ready'' ''in_progress'' e = Inr d1"
    and ins: "insertLease (truncSec now) (truncSec now + effectiveTTL ttl) tid a w d1 = Inr (l, d')"
    by (rule claimTx_steps)
  have t': "taskRow e tid = Some t" "live t" using liveRow[OF _ t] assms(1) tables by simp_all
  have blocked: "IsBlocked e tid = IsBlocked d tid"
    by (subst IsBlocked_cong[of e d]) (simp_all add: e_def appendEvent_def)
  have "otherTables e d1" by (rule machine_frame.transitionKnown_keeps[OF _ t'(1) tk]) simp_all
  then have "leases d1 = leases d \<and> next_lease_id d1 = next_lease_id d" by (simp add: e_def appendEvent_def)
  then have worktree: "\<not> worktreeTaken d (next_lease_id d) a w"
    using ins by (simp add: insertLease_def worktreeTaken_def Let_def split: if_splits)
  have "hierarchyOk e" using hierarchyOk_cong[OF tables(2)] assms(2) by simp
  note own = transitionKnown_own[OF this t'(1) tk]
  have "stateOf d' tid = stateOf d1 tid" using insertLease_InrD(2)[OF ins]
    by (simp add: stateOf_def taskRow_def)
  then have "stateOf d' tid = Some ''in_progress''" using own(2) by simp
  moreover have "0 < effectiveTTL ttl" by (simp add: effectiveTTL_def DefaultLeaseTTL_def)
  ultimately show ?thesis
    using t' c own(1,3) insertLease_InrD[OF ins] tables blocked worktree
    by (simp add: taskRow_def hasChildren_def hasActiveLease_def)
qed

lemma claimed_eq: "Claim 3000000 ''x'' ''WL-1'' ''ada'' ''/w'' 0 claimable =
    (Inr (Some \<lparr>l_id = 1, l_task = ''WL-1'', l_actor = ''ada'', l_worktree = ''/w'',
       l_acquired_at = 3000000, l_renewed_at = Some 3000000, l_expires_at = 7203000000,
       l_released_at = None\<rparr>), claimed)"
proof -
  have "fst (Claim 3000000 ''x'' ''WL-1'' ''ada'' ''/w'' 0 claimable) =
     Inr (Some \<lparr>l_id = 1, l_task = ''WL-1'', l_actor = ''ada'', l_worktree = ''/w'',
       l_acquired_at = 3000000, l_renewed_at = Some 3000000, l_expires_at = 7203000000,
       l_released_at = None\<rparr>)" by code_simp
  then show ?thesis unfolding claimed_def by (metis prod.collapse)
qed

theorem claim_outcome_witness: "stateOf claimed ''WL-1'' = Some ''in_progress''"
proof -
  have "distinct (map t_id (tasks claimable))" "hierarchyOk claimable"
    by (simp_all add: claimable_def hierarchyOk_def edgeRel_def)
  from claim_outcome[OF this claimed_eq] show ?thesis by blast
qed

lemma row_live:
  "taskRow d tid = Some t \<Longrightarrow> live t \<Longrightarrow> row (\<lambda>t. t_id t = tid \<and> live t) (tasks d) = Some t"
proof -
  have "row (\<lambda>t. t_id t = tid) ts = Some t \<Longrightarrow> live t \<Longrightarrow> row (\<lambda>t. t_id t = tid \<and> live t) ts = Some t" for ts
    by (induction ts) (auto split: if_splits)
  then show "taskRow d tid = Some t \<Longrightarrow> live t \<Longrightarrow> ?thesis" by (simp add: taskRow_def)
qed

lemma claimTx_leased:
  assumes "taskRow d tid = Some t" "live t" "\<not> hasChildren d tid" "taskKindPolicy (t_kind t) = Inr pol"
    "Claimable pol" "hasActiveLease d tid"
  shows "claimTx now tid b w ttl ev d = Inl (if b \<in> set (actors d) then ErrLeased else ErrNotFound)"
  using assms by (simp add: claimTx_def row_live[OF assms(1,2)] requireActor_def)

text \<open>Claims exclude each other: after one succeeded, a claim of the same
  task under a new event id, by any actor and on any worktree, is refused with
  ErrLeased (or ErrNotFound when that actor does not exist) and changes nothing
  but the id sequence.\<close>

theorem second_claim_loses:
  assumes "distinct (map t_id (tasks d))" "hierarchyOk d"
    and "Claim now x tid a w ttl d = (Inr (Some l), d')" "eventRecorded d' ''cli'' y = None"
  shows "Claim now' y tid b w' ttl' d' =
    (Inl (if b \<in> set (actors d) then ErrLeased else ErrNotFound), burnId d')"
proof -
  define e where "e = appendEvent ''cli'' x ''lease.claimed'' (claimPayload tid a w) now d"
  have te: "tasks e = tasks d" "task_edges e = task_edges d" "actors e = actors d"
    by (simp_all add: e_def appendEvent_def)
  from assms(3) have "claimTx (truncSec now) tid a w (effectiveTTL ttl) (next_event_id d) e = Inr (l, d')"
    unfolding Claim_def e_def by (rule outcome_InrD)
  then obtain t pol d1 where t: "row (\<lambda>t. t_id t = tid \<and> live t) (tasks e) = Some t"
    and c: "\<not> hasChildren e tid" "taskKindPolicy (t_kind t) = Inr pol" "Claimable pol"
    and tk: "transitionKnown climbFuel (truncSec now) (next_event_id d) tid (t_state t)
        ''ready'' ''in_progress'' e = Inr d1"
    and ins: "insertLease (truncSec now) (truncSec now + effectiveTTL ttl) tid a w d1 = Inr (l, d')"
    by (rule claimTx_steps)
  have t': "taskRow e tid = Some t" "live t" using liveRow[OF _ t] assms(1) te by simp_all
  have "movedLegally e d1" and ch: "\<forall>y. hasChildren d1 y = hasChildren e y" and fr: "otherTables e d1"
    using machine_legal.transitionKnown_keeps[OF movedLegally_refl t'(1) tk]
      machine_children.transitionKnown_keeps[OF _ t'(1) tk, of e]
      machine_frame.transitionKnown_keeps[OF _ t'(1) tk, of e] by blast+
  then obtain t1 where t1: "taskRow d1 tid = Some t1" "live t1" "t_kind t1 = t_kind t"
    using movedLegally_row[OF _ t'(1)] t'(2) by metis
  have "leases d' = leases d1 @ [l]" "tasks d' = tasks d1" "active l" "l_task l = tid"
    using insertLease_InrD[OF ins] by simp_all
  moreover have "task_edges d' = task_edges d1" "actors d' = actors d1"
    using ins by (auto simp: insertLease_def Let_def split: if_splits)
  ultimately have f: "taskRow d' tid = Some t1" "hasActiveLease d' tid" "actors d' = actors d"
    "\<not> hasChildren d' tid"
    using t1 ch fr c(1) te by (simp_all add: taskRow_def hasActiveLease_def hasChildren_def)
  let ?e' = "appendEvent ''cli'' y ''lease.claimed'' (claimPayload tid b w') now' d'"
  have "claimTx (truncSec now') tid b w' (effectiveTTL ttl') i ?e' =
      Inl (if b \<in> set (actors ?e') then ErrLeased else ErrNotFound)" for i
    by (rule claimTx_leased[of _ _ t1 pol])
       (use f t1 c in \<open>simp_all add: taskRow_def hasActiveLease_def hasChildren_def appendEvent_def\<close>)
  then show ?thesis
    using assms(4) f(3) by (simp add: Claim_def RecordEvent_def eventSources_def outcome_def
      appendEvent_def)
qed

theorem second_claim_loses_witness:
  "fst (Claim 4000000 ''y'' ''WL-1'' ''bob'' ''/v'' 0 claimed) = Inl ErrLeased"
proof -
  have "distinct (map t_id (tasks claimable))" "hierarchyOk claimable" "''bob'' \<in> set (actors claimable)"
    by (simp_all add: claimable_def hierarchyOk_def edgeRel_def)
  moreover have "eventRecorded claimed ''cli'' ''y'' = None" by code_simp
  ultimately show ?thesis using second_claim_loses[OF _ _ claimed_eq] by simp
qed

section \<open>Closing a lease\<close>

text \<open>What closing leaves of the three tables it writes, before and after the
  task's own move.\<close>

definition released :: "int \<Rightarrow> int \<Rightarrow> lease list \<Rightarrow> lease list" where
  "released now lid ls = updWhere (\<lambda>l. l_id l = lid) (\<lambda>l. l\<lparr>l_released_at := Some now\<rparr>) ls"

lemma in_released:
  "l \<in> set (released now lid ls) \<longleftrightarrow>
     (l \<in> set ls \<and> l_id l \<noteq> lid) \<or>
     (\<exists>k\<in>set ls. l_id k = lid \<and> l = k\<lparr>l_released_at := Some now\<rparr>)"
  by (auto simp: released_def in_set_updWhere)

lemma active_released:
  "m \<in> set (released now lid ls) \<Longrightarrow> active m \<Longrightarrow> m \<in> set ls \<and> l_id m \<noteq> lid"
  unfolding in_released by (elim disjE bexE conjE) simp_all

lemma closeLease_InrD:
  assumes "closeLease now lid tid ev d = Inr d'" "hierarchyOk d" "taskRow d tid = Some t"
  shows "leases d' = released now lid (leases d)"
    "agent_sessions d' = agent_sessions (endOpenAgentSessionsOnLease now lid d)"
    "tokens d' = tokens (revokeTaskTokens now tid d)"
    "stateOf d' tid = Some (if t_state t = ''in_progress'' then ''ready'' else t_state t)"
    "otherTables d (d'\<lparr>leases := leases d, tokens := tokens d, agent_sessions := agent_sessions d\<rparr>)"
proof -
  let ?d3 = "revokeTaskTokens now tid (endOpenAgentSessionsOnLease now lid
    (updLease lid (\<lambda>l. l\<lparr>l_released_at := Some now\<rparr>) d))"
  note defs = revokeTaskTokens_def endOpenAgentSessionsOnLease_def updLease_def released_def
  have tr: "taskRow ?d3 tid = Some t" "hierarchyOk ?d3"
    using assms(2,3) hierarchyOk_cong[of ?d3 d] by (simp_all add: taskRow_def defs)
  then have "t_state t \<noteq> ''in_progress'' \<and> d' = ?d3 \<or>
      t_state t = ''in_progress'' \<and> TransitionFuel climbFuel now ev tid ''in_progress'' ''ready'' ?d3 = Inr d'"
    using assms(1) by (simp add: closeLease_def Let_def Transition_def split: if_splits)
  then have o: "otherTables ?d3 d' \<and>
      stateOf d' tid = Some (if t_state t = ''in_progress'' then ''ready'' else t_state t)"
  proof (elim disjE conjE)
    assume "TransitionFuel climbFuel now ev tid ''in_progress'' ''ready'' ?d3 = Inr d'" "t_state t = ''in_progress''"
    with TransitionFuel_frame TransitionFuel_own[OF tr(2)] tr(1)
    show ?thesis by (fastforce simp: stateOf_def)
  qed (use tr(1) in \<open>simp add: stateOf_def\<close>)
  from o show "leases d' = released now lid (leases d)"
    "agent_sessions d' = agent_sessions (endOpenAgentSessionsOnLease now lid d)"
    "tokens d' = tokens (revokeTaskTokens now tid d)"
    "stateOf d' tid = Some (if t_state t = ''in_progress'' then ''ready'' else t_state t)"
    "otherTables d (d'\<lparr>leases := leases d, tokens := tokens d, agent_sessions := agent_sessions d\<rparr>)"
    by (simp_all add: defs)
qed

text \<open>A release by the holder ends everything bound to the lease: the task
  has no active lease, every token of the task is revoked, every session on the
  lease is ended, and a task in progress is back in ready while any other state
  is left alone.\<close>

theorem release_outcome:
  assumes "storeOk d" "hierarchyOk d" "taskRow d tid = Some t"
    and "Release now x tid a d = (Inr (Some u), d')"
  shows "\<not> hasActiveLease d' tid \<and>
     (\<forall>k\<in>set (tokens d'). tk_task k = Some tid \<longrightarrow> tk_revoked_at k \<noteq> None) \<and>
     (\<exists>l\<in>set (leases d). l_task l = tid \<and> l_actor l = a \<and> active l \<and>
        (\<forall>s\<in>set (agent_sessions d'). as_lease s = Some (l_id l) \<longrightarrow> as_ended_at s \<noteq> None)) \<and>
     stateOf d' tid = Some (if t_state t = ''in_progress'' then ''ready'' else t_state t)"
proof -
  define e where "e = appendEvent ''cli'' x ''lease.released'' (jfields [(''task'', tid), (''actor'', a)]) now d"
  have te: "tasks e = tasks d" "task_edges e = task_edges d" "leases e = leases d" "tokens e = tokens d"
    "agent_sessions e = agent_sessions d" by (simp_all add: e_def appendEvent_def)
  from assms(4) have "releaseLeaseTx (truncSec now) tid a (next_event_id d) e = Inr d'"
    unfolding Release_def e_def by (rule unitTx_InrD[OF outcome_InrD])
  then obtain l where l: "l \<in> set (leases d)" "l_task l = tid" "active l" "l_actor l = a"
    and cl: "closeLease (truncSec now) (l_id l) tid (next_event_id d) e = Inr d'"
    using heldBy_InrD[of tid a e] te by (fastforce simp: releaseLeaseTx_def andThen_Inr_iff)
  have "hierarchyOk e" "taskRow e tid = Some t"
    using hierarchyOk_cong[OF te(2)] assms(2,3) te by (simp_all add: taskRow_def)
  note eff = closeLease_InrD[OF cl this, unfolded te]
  have no: "\<not> active m" if "m \<in> set (leases d)" "l_id m \<noteq> l_id l" "l_task m = tid" for m
    using leaseOf_active[of d m l] assms(1) that l unfolding storeOk_def by metis
  have "\<not> hasActiveLease d' tid"
    unfolding hasActiveLease_def eff(1)
  proof (rule notI, elim bexE conjE)
    fix m assume "m \<in> set (released (truncSec now) (l_id l) (leases d))" "l_task m = tid" "active m"
    then show False using no[of m] unfolding in_released by auto
  qed
  moreover have "\<forall>k\<in>set (tokens d'). tk_task k = Some tid \<longrightarrow> tk_revoked_at k \<noteq> None"
    unfolding eff(3) by (auto simp: revokeTaskTokens_def in_set_updWhere)
  moreover have "\<forall>s\<in>set (agent_sessions d'). as_lease s = Some (l_id l) \<longrightarrow> as_ended_at s \<noteq> None"
    unfolding eff(2) by (auto simp: endOpenAgentSessionsOnLease_def in_set_updWhere)
  ultimately show ?thesis using l eff(4) by blast
qed

lemma release_eq: "Release 5000000 ''z'' ''WL-1'' ''ada'' claimed =
    (Inr (Some ()), snd (Release 5000000 ''z'' ''WL-1'' ''ada'' claimed))"
proof -
  have "fst (Release 5000000 ''z'' ''WL-1'' ''ada'' claimed) = Inr (Some ())" by code_simp
  then show ?thesis by (metis prod.collapse)
qed

theorem release_outcome_witness:
  "\<not> hasActiveLease (snd (Release 5000000 ''z'' ''WL-1'' ''ada'' claimed)) ''WL-1''"
proof -
  have "storeOk claimed" by (simp add: claimed_def lease_ops_ok claimable_ok)
  moreover have "task_edges claimed = []" by code_simp
  then have "hierarchyOk claimed" by (simp add: hierarchyOk_def edgeRel_def)
  moreover have "taskRow claimed ''WL-1'' \<noteq> None" by code_simp
  ultimately show ?thesis using release_outcome[OF _ _ _ release_eq] by blast
qed

section \<open>Holders only\<close>

text \<open>An actor without the active lease of a task can not renew, release or
  move it: each answers ErrNotFound, the same answer whether nobody or somebody
  else holds the task, and changes nothing but the id sequence.\<close>

theorem non_holder_refused:
  assumes "eventRecorded d ''cli'' x = None"
    and "\<not> (\<exists>l\<in>set (leases d). l_task l = tid \<and> active l \<and> l_actor l = a)"
  shows "Renew now x tid a ttl d = (Inl ErrNotFound, burnId d) \<and>
     Release now x tid a d = (Inl ErrNotFound, burnId d) \<and>
     RebindLeaseWorktree now x tid a w d = (Inl ErrNotFound, burnId d)"
proof -
  have h: "heldBy tid a (appendEvent s x' ty j at d) = Inl ErrNotFound" for s x' ty j at
    using assms(2) by (auto simp: heldBy_def activeLeaseTx_def appendEvent_def
      split: option.split dest!: row_SomeD)
  then show ?thesis
    using assms(1) by (simp add: Renew_def Release_def RebindLeaseWorktree_def RecordEvent_def
      eventSources_def outcome_def renewTx_def rebindTx_def releaseLeaseTx_def unitTx_def)
qed

theorem non_holder_refused_witness:
  "Release 5000000 ''z'' ''WL-1'' ''bob'' claimed = (Inl ErrNotFound, burnId claimed)"
proof -
  have "eventRecorded claimed ''cli'' ''z'' = None" by code_simp
  moreover have "\<not> (\<exists>l\<in>set (leases claimed). l_task l = ''WL-1'' \<and> active l \<and> l_actor l = ''bob'')"
    by code_simp
  ultimately show ?thesis using non_holder_refused by blast
qed

text \<open>A renewal sets the lease's expiry to the ttl from the second of the
  call and lengthens, never shortens, the credentials of the task: each token
  is either untouched or a live, expiring token of the task whose expiry moved
  forward to the lease's.\<close>

theorem renewal_extends:
  assumes "storeOk d" "Renew now x tid a ttl d = (Inr (Some l), d')"
  shows "l_expires_at l = truncSec now + effectiveTTL ttl \<and> l \<in> set (leases d') \<and> active l \<and>
     list_all2 (\<lambda>k k'. k' = k \<or>
        (tk_task k = Some tid \<and> tk_revoked_at k = None \<and>
         (\<exists>old. tk_expires_at k = Some old \<and> old < l_expires_at l \<and>
            k' = k\<lparr>tk_expires_at := Some (l_expires_at l)\<rparr>))) (tokens d) (tokens d')"
proof -
  define e where "e = appendEvent ''cli'' x ''lease.renewed'' (jfields [(''task'', tid), (''actor'', a)]) now d"
  have te: "leases e = leases d" "tokens e = tokens d" by (simp_all add: e_def appendEvent_def)
  from assms(2) have "renewTx (truncSec now) tid a (effectiveTTL ttl) (next_event_id d) e = Inr (l, d')"
    unfolding Renew_def e_def by (rule outcome_InrD)
  then obtain k where k: "k \<in> set (leases d)" "active k"
    and l: "l = k\<lparr>l_renewed_at := Some (truncSec now), l_expires_at := truncSec now + effectiveTTL ttl\<rparr>"
    and d': "d' = extendTaskTokens (truncSec now + effectiveTTL ttl) tid (updLease (l_id k)
      (\<lambda>l. l\<lparr>l_renewed_at := Some (truncSec now), l_expires_at := truncSec now + effectiveTTL ttl\<rparr>) e)"
    using heldBy_InrD[of tid a e] te by (auto simp: renewTx_def andThen_Inr_iff Let_def)
  have "l \<in> set (leases d')"
    using k te by (auto simp: d' l extendTaskTokens_def updLease_def in_set_updWhere)
  moreover have "list_all2 (\<lambda>k k'. k' = k \<or>
        (tk_task k = Some tid \<and> tk_revoked_at k = None \<and>
         (\<exists>old. tk_expires_at k = Some old \<and> old < l_expires_at l \<and>
            k' = k\<lparr>tk_expires_at := Some (l_expires_at l)\<rparr>))) (tokens d) (tokens d')"
    by (simp add: d' l te extendTaskTokens_def updLease_def updWhere_def list_all2_conv_all_nth
        split: option.split)
  ultimately show ?thesis using k(2) by (simp add: l)
qed

lemma renew_eq: "Renew 5000000 ''z'' ''WL-1'' ''ada'' 1000000 claimed =
    (Inr (Some \<lparr>l_id = 1, l_task = ''WL-1'', l_actor = ''ada'', l_worktree = ''/w'',
       l_acquired_at = 3000000, l_renewed_at = Some 5000000, l_expires_at = 6000000,
       l_released_at = None\<rparr>), snd (Renew 5000000 ''z'' ''WL-1'' ''ada'' 1000000 claimed))"
proof -
  have "fst (Renew 5000000 ''z'' ''WL-1'' ''ada'' 1000000 claimed) =
     Inr (Some \<lparr>l_id = 1, l_task = ''WL-1'', l_actor = ''ada'', l_worktree = ''/w'',
       l_acquired_at = 3000000, l_renewed_at = Some 5000000, l_expires_at = 6000000,
       l_released_at = None\<rparr>)" by code_simp
  then show ?thesis by (metis prod.collapse)
qed

theorem renewal_extends_witness:
  "6000000 = truncSec 5000000 + effectiveTTL 1000000"
proof -
  have "storeOk claimed" by (simp add: claimed_def lease_ops_ok claimable_ok)
  from renewal_extends[OF this renew_eq] show ?thesis by simp
qed

section \<open>The sweep\<close>

text \<open>Transitions record cli events only, so what the sweep has recorded stays
  as it was.\<close>

interpretation machine_system: machine_inv "\<lambda>d. \<forall>x. eventRecorded d ''system'' x = eventRecorded d0 ''system'' x" for d0
proof unfold_locales
  fix d tid t st now d'
  assume "\<forall>x. eventRecorded d ''system'' x = eventRecorded d0 ''system'' x" "setState now tid st d = Inr d'"
  then show "\<forall>x. eventRecorded d' ''system'' x = eventRecorded d0 ''system'' x"
    using setState_InrD(1)[of now tid st d d'] by (auto simp: eventRecorded_def updTask_def)
qed (simp_all add: eventRecorded_def LogChange_def closeReviewRow_def appendEvent_def
      setDocStatus_def row_append split: option.split)

lemma closeLease_leases:
  assumes "closeLease now lid tid ev d = Inr d'"
  shows "leases d' = released now lid (leases d)"
    "eventRecorded d' ''system'' y = eventRecorded d ''system'' y"
proof -
  let ?d3 = "revokeTaskTokens now tid (endOpenAgentSessionsOnLease now lid
    (updLease lid (\<lambda>l. l\<lparr>l_released_at := Some now\<rparr>) d))"
  have d3: "leases ?d3 = released now lid (leases d)"
    "eventRecorded ?d3 ''system'' y = eventRecorded d ''system'' y"
    by (simp_all add: revokeTaskTokens_def endOpenAgentSessionsOnLease_def updLease_def released_def
        eventRecorded_def)
  have "d' = ?d3 \<or> Transition now tid ''in_progress'' ''ready'' ev ?d3 = Inr d'"
    using assms by (auto simp: closeLease_def Let_def split: option.splits if_splits)
  then have "leases d' = leases ?d3 \<and> eventRecorded d' ''system'' y = eventRecorded ?d3 ''system'' y"
  proof
    assume t: "Transition now tid ''in_progress'' ''ready'' ev ?d3 = Inr d'"
    show ?thesis
      using TransitionFuel_frame[OF t[unfolded Transition_def]]
        machine_system.Transition_keeps[OF _ t, of ?d3] by blast
  qed simp
  with d3 show "leases d' = released now lid (leases d)"
    "eventRecorded d' ''system'' y = eventRecorded d ''system'' y" by simp_all
qed

text \<open>No active lease has been swept before.\<close>

definition sweepable :: "db \<Rightarrow> bool" where
  "sweepable d \<longleftrightarrow> (\<forall>l\<in>set (leases d). active l \<longrightarrow>
     eventRecorded d ''system'' (expireExtID (l_id l)) = None)"

lemma expireOne_active:
  assumes "sweepable d" "l \<in> set (leases d)" "active l" "l_id l = lid"
    and "expireOne now lid tid d = (Inr v, d')"
  shows "v = Some ()" "leases d' = released now lid (leases d)" "sweepable d'"
proof -
  let ?e = "appendEvent ''system'' (expireExtID lid) ''lease.expired''
    (JObj [(''task'', JStr tid), (''lease'', JInt lid)]) now d"
  have new: "eventRecorded d ''system'' (expireExtID lid) = None"
    using assms(1-4) by (auto simp: sweepable_def)
  have act: "\<exists>l\<in>set (leases ?e). l_id l = lid \<and> active l" using assms(2-4) by (auto simp: appendEvent_def)
  have e: "eventRecorded ?e ''system'' y = None" if "eventRecorded d ''system'' y = None"
    "y \<noteq> expireExtID lid" for y
    using that by (simp add: eventRecorded_def appendEvent_def row_append)
  have "expireOne now lid tid d = (case closeLease now lid tid (next_event_id d) ?e of
      Inl err \<Rightarrow> (Inl err, burnId d) | Inr d' \<Rightarrow> (Inr (Some ()), d'))"
    unfolding expireOne_def RecordEvent_def outcome_def unitTx_def expireOneTx_def if_P[OF act]
    by (simp add: new eventSources_def split: sum.split)
  with assms(5) have cl: "closeLease now lid tid (next_event_id d) ?e = Inr d'" and v: "v = Some ()"
    by (auto split: sum.splits)
  show "v = Some ()" by (rule v)
  show l: "leases d' = released now lid (leases d)"
    using closeLease_leases(1)[OF cl] by (simp add: appendEvent_def)
  show "sweepable d'"
    unfolding sweepable_def l
  proof (intro ballI impI)
    fix m assume "m \<in> set (released now lid (leases d))" "active m"
    note m = active_released[OF this]
    then have "eventRecorded ?e ''system'' (expireExtID (l_id m)) = None"
      using assms(1) m \<open>active m\<close> intStr_inj[of "l_id m" lid]
      by (intro e) (simp_all add: sweepable_def expireExtID_def, blast)
    then show "eventRecorded d' ''system'' (expireExtID (l_id m)) = None"
      using closeLease_leases(2)[OF cl] by metis
  qed
qed

lemma released_active:
  "m \<in> set ls \<Longrightarrow> l_id m \<noteq> lid \<Longrightarrow> m \<in> set (released now lid ls)"
  unfolding in_released by blast

lemma expireLoop_all:
  assumes "sweepable d" "distinct (map fst cs)"
    and "\<And>lid tid. (lid, tid) \<in> set cs \<Longrightarrow> \<exists>l\<in>set (leases d). l_id l = lid \<and> active l"
    and "expireLoop now cs n d = ((n', None), d')"
  shows "n' = n + length cs \<and> leases d' = foldl (\<lambda>ls lid. released now lid ls) (leases d) (map fst cs)"
  using assms
proof (induction now cs n d rule: expireLoop.induct)
  case (2 now lid tid cs n d)
  obtain v d1 where one: "expireOne now lid tid d = (Inr v, d1)"
    and rest: "expireLoop now cs (if v = None then n else n + 1) d1 = ((n', None), d')"
    using "2.prems"(4) by (auto split: prod.splits sum.splits)
  from "2.prems"(3)[of lid tid] obtain l where "l \<in> set (leases d)" "active l" "l_id l = lid" by auto
  note eff = expireOne_active[OF "2.prems"(1) this one]
  have "\<exists>l\<in>set (leases d1). l_id l = x \<and> active l" if "(x, y) \<in> set cs" for x y
  proof -
    have "x \<noteq> lid" using "2.prems"(2) that by force
    moreover from "2.prems"(3)[of x y] that obtain m where "m \<in> set (leases d)" "l_id m = x" "active m"
      by auto
    ultimately show ?thesis unfolding eff(2) using released_active by blast
  qed
  from "2.IH"[OF one[symmetric] refl eff(3) _ this rest] "2.prems"(2) show ?case
    by (simp add: eff(1,2))
qed simp

lemma active_releasedAll:
  "m \<in> set ls \<Longrightarrow> l_id m \<notin> set ids \<Longrightarrow> m \<in> set (foldl (\<lambda>ls lid. released now lid ls) ls ids)"
  by (induction ids arbitrary: ls) (simp_all add: released_active)

lemma releasedAll_active:
  "m \<in> set (foldl (\<lambda>ls lid. released now lid ls) ls ids) \<Longrightarrow> active m \<Longrightarrow> m \<in> set ls \<and> l_id m \<notin> set ids"
proof (induction ids arbitrary: ls)
  case (Cons a ids)
  then have "m \<in> set (released now a ls)" "l_id m \<notin> set ids" by auto
  with active_released[OF this(1) Cons.prems(2)] show ?case by simp
qed simp

text \<open>C5: a sweep that returns no error leaves no active lease that expired
  before its clock, ends exactly the leases that had, and counts them; no lease
  that was still running is touched.\<close>

theorem sweep_complete:
  assumes "storeOk d" "sweepable d" "ExpireLeases now d = ((n, None), d')"
  shows "(\<forall>l\<in>set (leases d'). active l \<longrightarrow> now \<le> l_expires_at l) \<and>
     (\<forall>l\<in>set (leases d). active l \<and> now \<le> l_expires_at l \<longrightarrow> l \<in> set (leases d')) \<and>
     n = length (filter (\<lambda>l. active l \<and> l_expires_at l < now) (leases d))"
proof -
  let ?xs = "filter (\<lambda>l. active l \<and> l_expires_at l < now) (leases d)" and ?cs = "expiredLeases d now"
  have m: "mset ?cs = mset (map (\<lambda>l. (l_id l, l_task l)) ?xs)" by (simp add: expiredLeases_def)
  have dist: "distinct (map l_id (leases d))" using assms(1) by (simp add: storeOk_def leasesOk_def)
  have "mset (map fst ?cs) = mset (map l_id ?xs)" using arg_cong[OF m, of "image_mset fst"] by (simp add: image_mset.compositionality comp_def)
  note eq = this
  have d1: "distinct (map fst ?cs)"
    using mset_eq_imp_distinct_iff[OF eq] distinct_map_filter[OF dist] by simp
  have ids: "set (map fst ?cs) = l_id ` set ?xs" using mset_eq_setD[OF eq] by (simp only: set_map)
  have "set ?cs = (\<lambda>l. (l_id l, l_task l)) ` set ?xs" using mset_eq_setD[OF m] by simp
  then have "\<exists>l\<in>set (leases d). l_id l = lid \<and> active l" if "(lid, tid) \<in> set ?cs" for lid tid
    using that by auto
  from expireLoop_all[OF assms(2) d1 this assms(3)[unfolded ExpireLeases_def]]
  have n: "n = length ?cs" and l: "leases d' = foldl (\<lambda>ls lid. released now lid ls) (leases d) (map fst ?cs)"
    by simp_all
  have inj: "k \<in> set (leases d) \<Longrightarrow> m \<in> set (leases d) \<Longrightarrow> l_id k = l_id m \<Longrightarrow> k = m" for k m
    using distinct_map_inj[OF dist] by blast
  have "now \<le> l_expires_at m" if "m \<in> set (leases d')" "active m" for m
    using releasedAll_active[OF that(1)[unfolded l] that(2)] that(2) ids by force
  moreover have "m \<in> set (leases d')" if "m \<in> set (leases d)" "active m" "now \<le> l_expires_at m" for m
    unfolding l by (rule active_releasedAll[OF that(1)]) (use ids inj that in force)
  ultimately show ?thesis using n by (simp add: expiredLeases_def)
qed

theorem sweep_complete_witness:
  "filter (\<lambda>l. active l \<and> l_expires_at l < 8000000000)
     (leases (snd (ExpireLeases 8000000000 claimed))) = []"
proof -
  have "fst (ExpireLeases 8000000000 claimed) = (1, None)" by code_simp
  then have r: "ExpireLeases 8000000000 claimed = ((1, None), snd (ExpireLeases 8000000000 claimed))"
    by (metis prod.collapse)
  have "storeOk claimed" by (simp add: claimed_def lease_ops_ok claimable_ok)
  moreover have "sweepable claimed" by code_simp
  ultimately show ?thesis using sweep_complete[OF _ _ r] by (force simp: filter_empty_conv)
qed

end
