(* ===== verification/EventRace.thy ===== *)
theory EventRace
  imports EventLog
begin

text \<open>
  The event log under concurrent transactions (internal/store/events.go: the
  comment on eventHorizon, the INSERTs of RecordEvent and RecordEventWithID,
  ReadEventBatch, AckEvents, ResetEventRead; recordReviewEvent in
  reviewthreads.go). A session draws an id from the sequence, takes its
  transaction id with its first write, inserts the row, and commits or rolls
  back; RecordEventWithID even draws the id in a statement of its own and
  builds the payload before it inserts. Each of these is one step, and the
  steps of different sessions come in any order. The subscriber reads, acknowledges
  and rewinds in between.
\<close>

section \<open>Interleavings\<close>

text \<open>\<open>r_db\<close> holds every inserted row, committed or not; \<open>r_xids\<close> the
  transaction id of each session that has taken one and still runs,
  \<open>r_ids\<close> the ids drawn and not yet inserted, \<open>r_xid\<close> the next
  transaction id; \<open>r_seen\<close> collects the ids handed to the subscriber.\<close>

record race =
  r_db :: db
  r_xids :: "(int \<times> int) list"
  r_ids :: "(int \<times> int) list"
  r_xid :: int
  r_seen :: "int list"

definition running :: "race \<Rightarrow> int list" where
  "running s = map snd (r_xids s)"

text \<open>What a statement outside the running transactions sees: their rows are
  hidden, and pg_snapshot_xmin is the oldest of them.\<close>

definition snapshot :: "race \<Rightarrow> db" where
  "snapshot s = (r_db s)\<lparr>
     events := filter (\<lambda>e. ev_txid e \<notin> set (running s)) (events (r_db s)),
     xmin := (if running s = [] then r_xid s else Min (set (running s)))\<rparr>"

definition drawId :: "int \<Rightarrow> race \<Rightarrow> race" where
  "drawId t s = s\<lparr>r_ids := (t, next_event_id (r_db s)) # r_ids s, r_db := burnId (r_db s)\<rparr>"

definition takeXid :: "int \<Rightarrow> race \<Rightarrow> race" where
  "takeXid t s =
     (if map_of (r_xids s) t \<noteq> None then s
      else s\<lparr>r_xids := (t, r_xid s) # r_xids s, r_xid := r_xid s + 1\<rparr>)"

text \<open>The INSERT with an id already drawn. With a row of the same source and
  external id there, ON CONFLICT DO NOTHING leaves the id burned.\<close>

definition putEvent ::
  "int \<Rightarrow> int \<Rightarrow> string \<Rightarrow> string \<Rightarrow> string \<Rightarrow> json \<Rightarrow> int \<Rightarrow> db \<Rightarrow> db" where
  "putEvent i x src ext ty payload at d =
     (if eventRecorded d src ext \<noteq> None then d
      else d\<lparr>events := events d @
        [\<lparr>ev_id = i, ev_source = src, ev_external_id = ext, ev_type = ty, ev_payload = payload,
          ev_received_at = at, ev_applied_at = None, ev_txid = x\<rparr>]\<rparr>)"

definition insertRow ::
  "int \<Rightarrow> int \<Rightarrow> int \<Rightarrow> string \<Rightarrow> string \<Rightarrow> string \<Rightarrow> json \<Rightarrow> int \<Rightarrow> race \<Rightarrow> race" where
  "insertRow t i x src ext ty payload at s =
     s\<lparr>r_db := putEvent i x src ext ty payload at (r_db s),
       r_ids := filter (\<lambda>p. p \<noteq> (t, i)) (r_ids s)\<rparr>"

definition commitTx :: "int \<Rightarrow> race \<Rightarrow> race" where
  "commitTx t s = s\<lparr>r_xids := filter (\<lambda>p. fst p \<noteq> t) (r_xids s), r_ids := filter (\<lambda>p. fst p \<noteq> t) (r_ids s)\<rparr>"

definition rollbackTx :: "int \<Rightarrow> race \<Rightarrow> race" where
  "rollbackTx t s = commitTx t s\<lparr>
     r_db := (r_db s)\<lparr>events := filter (\<lambda>e. map_of (r_xids s) t \<noteq> Some (ev_txid e)) (events (r_db s))\<rparr>\<rparr>"

definition pollTx :: "int \<Rightarrow> string \<Rightarrow> nat \<Rightarrow> race \<Rightarrow> race" where
  "pollTx now name n s =
     (case ReadEventBatch now name n (snapshot s) of
        Inl e \<Rightarrow> s
      | Inr (es, d') \<Rightarrow> s\<lparr>r_db := (r_db s)\<lparr>subscribers := subscribers d'\<rparr>,
                          r_seen := r_seen s @ map ev_id es\<rparr>)"

definition ackTx :: "int \<Rightarrow> string \<Rightarrow> int \<Rightarrow> race \<Rightarrow> race" where
  "ackTx now name upTo s =
     (case AckEvents now name upTo (r_db s) of Inl e \<Rightarrow> s | Inr d' \<Rightarrow> s\<lparr>r_db := d'\<rparr>)"

definition rewindTx :: "int \<Rightarrow> string \<Rightarrow> race \<Rightarrow> race" where
  "rewindTx now name s =
     (case ResetEventRead now name (r_db s) of Inl e \<Rightarrow> s | Inr d' \<Rightarrow> s\<lparr>r_db := d'\<rparr>)"

text \<open>A row of the same key another transaction has not committed makes the
  INSERT wait: the step is not there yet.\<close>

definition waits :: "race \<Rightarrow> int \<Rightarrow> string \<Rightarrow> string \<Rightarrow> bool" where
  "waits s x src ext \<longleftrightarrow>
     (case eventRecorded (r_db s) src ext of None \<Rightarrow> False
      | Some e \<Rightarrow> ev_txid e \<in> set (running s) \<and> ev_txid e \<noteq> x)"

inductive raceStep :: "string \<Rightarrow> race \<Rightarrow> race \<Rightarrow> bool" for name where
  draw: "raceStep name s (drawId t s)"
| xid: "raceStep name s (takeXid t s)"
| insert: "(t, i) \<in> set (r_ids s) \<Longrightarrow> map_of (r_xids s) t = Some x \<Longrightarrow> \<not> waits s x src ext \<Longrightarrow>
    raceStep name s (insertRow t i x src ext ty payload at s)"
| commit: "raceStep name s (commitTx t s)"
| rollback: "raceStep name s (rollbackTx t s)"
| poll: "raceStep name s (pollTx now name n s)"
| ack: "raceStep name s (ackTx now name upTo s)"
| rewind: "raceStep name s (rewindTx now name s)"

text \<open>With nobody in between, drawing, taking and inserting is the INSERT of
  RecordEvent.\<close>

lemma draw_insert_appends:
  assumes "eventRecorded (r_db s) src ext = None" "map_of (r_xids s) t = None"
  shows "r_db (insertRow t (next_event_id (r_db s)) (r_xid s) src ext ty payload at (takeXid t (drawId t s))) =
    (appendEvent src ext ty payload at ((r_db s)\<lparr>txid := r_xid s\<rparr>))\<lparr>txid := txid (r_db s)\<rparr>"
  using assms by (simp add: insertRow_def putEvent_def takeXid_def drawId_def burnId_def appendEvent_def eventRecorded_def)

section \<open>What every interleaving keeps\<close>

definition lastRead :: "string \<Rightarrow> db \<Rightarrow> int" where
  "lastRead name d = (case subRow d name of None \<Rightarrow> 0 | Some s \<Rightarrow> sb_last_read s)"

definition raceOk :: "race \<Rightarrow> bool" where
  "raceOk s \<longleftrightarrow> 0 < next_event_id (r_db s) \<and>
     distinct (map ev_id (events (r_db s)) @ map snd (r_ids s)) \<and>
     (\<forall>i\<in>set (map ev_id (events (r_db s)) @ map snd (r_ids s)). 0 < i \<and> i < next_event_id (r_db s)) \<and>
     (\<forall>x\<in>ev_txid ` set (events (r_db s)) \<union> set (running s). x < r_xid s)"

text \<open>What has been handed out is committed, and older than everything that
  still runs.\<close>

definition settled :: "race \<Rightarrow> int \<Rightarrow> bool" where
  "settled s i \<longleftrightarrow> (\<exists>f\<in>set (events (r_db s)). ev_id f = i \<and> (\<forall>x\<in>set (running s). ev_txid f < x))"

text \<open>An event was handed out, or one with a greater id and an older transaction was.\<close>

definition passed :: "race \<Rightarrow> event \<Rightarrow> bool" where
  "passed s e \<longleftrightarrow> ev_id e \<in> set (r_seen s) \<or>
     (\<exists>f\<in>set (events (r_db s)). ev_id f \<in> set (r_seen s) \<and> ev_id e < ev_id f \<and> ev_txid f < ev_txid e)"

definition cursorOk :: "string \<Rightarrow> race \<Rightarrow> bool" where
  "cursorOk name s \<longleftrightarrow>
     (\<exists>sub. subRow (r_db s) name = Some sub \<and> sb_last_acked sub \<le> sb_last_read sub) \<and>
     (\<forall>i\<in>set (r_seen s). settled s i) \<and>
     (0 < lastRead name (r_db s) \<longrightarrow> (\<exists>i\<in>set (r_seen s). lastRead name (r_db s) \<le> i)) \<and>
     (\<forall>e\<in>set (events (r_db s)). ev_id e \<le> lastRead name (r_db s) \<longrightarrow> passed s e)"

lemma running_simps [simp]:
  "running (s\<lparr>r_db := d\<rparr>) = running s" "running (s\<lparr>r_seen := l\<rparr>) = running s"
  "running (s\<lparr>r_ids := ps\<rparr>) = running s" "running (s\<lparr>r_xid := x\<rparr>) = running s"
  "running (s\<lparr>r_xids := p\<rparr>) = map snd p"
  by (simp_all add: running_def)

lemma putEvent_sel [simp]:
  "next_event_id (putEvent i x src ext ty p at d) = next_event_id d"
  "subRow (putEvent i x src ext ty p at d) = subRow d"
  "lastRead name (putEvent i x src ext ty p at d) = lastRead name d"
  by (simp_all add: putEvent_def subRow_def[abs_def] lastRead_def)

lemma events_putEvent:
  "events (putEvent i x src ext ty p at d) = events d \<or>
   (\<exists>e. events (putEvent i x src ext ty p at d) = events d @ [e] \<and> ev_id e = i \<and> ev_txid e = x)"
  by (simp add: putEvent_def)

lemma subRow_updSub:
  assumes "\<And>s. sb_name (f s) = sb_name s"
  shows "subRow (updSub name f d) name = map_option f (subRow d name)"
proof -
  have "subRow (updSub name f d) name = map_option (\<lambda>s. if sb_name s = name then f s else s) (subRow d name)"
    unfolding subRow_def updSub_def using assms by (simp add: row_updWhere_same)
  then show ?thesis by (cases "subRow d name") (auto simp: subRow_def dest: row_SomeD)
qed

lemma updSub_log [simp]:
  "events (updSub name f d) = events d" "next_event_id (updSub name f d) = next_event_id d"
  "xmin (updSub name f d) = xmin d"
  by (simp_all add: updSub_def)

lemma AckEvents_InrD:
  assumes "AckEvents now name upTo d = Inr d'" "subRow d name = Some s"
  shows "events d' = events d" "next_event_id d' = next_event_id d" "xmin d' = xmin d"
    "\<exists>s'. subRow d' name = Some s' \<and> sb_last_read s' = sb_last_read s \<and>
       sb_last_acked s' = max upTo (sb_last_acked s)"
    "upTo \<le> max (sb_last_read s) (sb_last_acked s)"
  using assms by (auto simp: AckEvents_def subRow_updSub split: if_splits)

lemma ResetEventRead_InrD:
  assumes "ResetEventRead now name d = Inr d'"
  shows "events d' = events d" "next_event_id d' = next_event_id d" "xmin d' = xmin d"
    "\<exists>s s'. subRow d name = Some s \<and> subRow d' name = Some s' \<and>
       sb_last_read s' = sb_last_acked s \<and> sb_last_acked s' = sb_last_acked s"
  using assms by (auto simp: ResetEventRead_def subRow_updSub split: if_splits)

text \<open>The four kinds of change a step makes to what the invariants read.\<close>

lemma raceOk_sub:
  assumes "raceOk s" "next_event_id (r_db s') = next_event_id (r_db s)" "r_xid s' = r_xid s"
    and "events (r_db s') = filter P (events (r_db s))" "r_ids s' = filter Q (r_ids s)"
    and "set (running s') \<subseteq> set (running s)"
  shows "raceOk s'"
  using assms unfolding raceOk_def by (auto intro: distinct_map_filter)

lemma raceOk_insert:
  assumes "raceOk s" "(t, i) \<in> set (r_ids s)" "map_of (r_xids s) t = Some x"
  shows "raceOk (insertRow t i x src ext ty p at s)"
proof -
  let ?s = "insertRow t i x src ext ty p at s" and ?I = "filter (\<lambda>q. q \<noteq> (t, i)) (r_ids s)"
  have x: "x \<in> set (running s)" using map_of_SomeD[OF assms(3)] by (force simp: running_def)
  have ids: "distinct (map snd (r_ids s))" using assms(1) by (simp add: raceOk_def)
  have "snd q \<noteq> i" if "q \<in> set ?I" for q
    using inj_onD[OF distinct_map[THEN iffD1, OF ids, THEN conjunct2], of q "(t, i)"] that assms(2) by auto
  then have i: "i \<notin> snd ` set ?I" by auto
  have I: "distinct (map snd ?I)" "snd ` set ?I \<subseteq> snd ` set (r_ids s)" "i \<in> snd ` set (r_ids s)"
    using ids assms(2) by (auto intro: distinct_map_filter rev_image_eqI)
  from events_putEvent[of i x src ext ty p at "r_db s"] show ?thesis
  proof
    assume "events (putEvent i x src ext ty p at (r_db s)) = events (r_db s)"
    then show ?thesis
      using assms(1) by (intro raceOk_sub[OF assms(1), of _ "\<lambda>_. True" "\<lambda>q. q \<noteq> (t, i)"]) (simp_all add: insertRow_def)
  next
    assume "\<exists>e. events (putEvent i x src ext ty p at (r_db s)) = events (r_db s) @ [e] \<and> ev_id e = i \<and> ev_txid e = x"
    then obtain e where e: "events (r_db ?s) = events (r_db s) @ [e]" "ev_id e = i" "ev_txid e = x"
      by (auto simp: insertRow_def)
    have rest: "next_event_id (r_db ?s) = next_event_id (r_db s)" "r_ids ?s = ?I" "r_xid ?s = r_xid s"
      "running ?s = running s" by (simp_all add: insertRow_def)
    have "distinct (map ev_id (events (r_db ?s)) @ map snd ?I)"
      using assms(1) i I e(1,2) unfolding raceOk_def by auto
    moreover have "\<forall>j\<in>set (map ev_id (events (r_db ?s)) @ map snd ?I). 0 < j \<and> j < next_event_id (r_db s)"
      using assms(1) I e(1,2) unfolding raceOk_def by auto
    moreover have "\<forall>y\<in>ev_txid ` set (events (r_db ?s)) \<union> set (running s). y < r_xid s"
      using assms(1) x e(1,3) unfolding raceOk_def by auto
    ultimately show ?thesis using assms(1) unfolding raceOk_def rest by blast
  qed
qed

lemma raceOk_draw: "raceOk s \<Longrightarrow> raceOk (drawId t s)"
  unfolding raceOk_def drawId_def burnId_def by (auto simp: ball_Un intro: less_imp_le)

lemma raceOk_xid: "raceOk s \<Longrightarrow> raceOk (takeXid t s)"
  unfolding raceOk_def takeXid_def running_def by (auto simp: ball_Un intro: less_imp_le)

lemma snapshot_sel [simp]:
  "subscribers (snapshot s) = subscribers (r_db s)" "subRow (snapshot s) name = subRow (r_db s) name"
  by (simp_all add: snapshot_def subRow_def)

lemma poll_sel [simp]:
  "events (r_db (pollTx now name n s)) = events (r_db s)"
  "next_event_id (r_db (pollTx now name n s)) = next_event_id (r_db s)"
  "r_ids (pollTx now name n s) = r_ids s" "r_xid (pollTx now name n s) = r_xid s"
  "running (pollTx now name n s) = running s"
  by (simp_all add: pollTx_def running_def split: sum.split prod.split)

lemma cursor_sel [simp]:
  "r_ids (ackTx now name u s) = r_ids s" "r_xid (ackTx now name u s) = r_xid s"
  "running (ackTx now name u s) = running s" "r_seen (ackTx now name u s) = r_seen s"
  "r_ids (rewindTx now name s) = r_ids s" "r_xid (rewindTx now name s) = r_xid s"
  "running (rewindTx now name s) = running s" "r_seen (rewindTx now name s) = r_seen s"
  by (simp_all add: ackTx_def rewindTx_def running_def split: sum.split)

lemma cursor_log [simp]:
  "events (r_db (ackTx now name u s)) = events (r_db s)"
  "next_event_id (r_db (ackTx now name u s)) = next_event_id (r_db s)"
  "events (r_db (rewindTx now name s)) = events (r_db s)"
  "next_event_id (r_db (rewindTx now name s)) = next_event_id (r_db s)"
  by (auto simp: ackTx_def rewindTx_def AckEvents_def ResetEventRead_def updSub_def
      split: sum.splits option.splits if_splits)

lemma raceOk_step:
  assumes "raceOk s" "raceStep name s s'"
  shows "raceOk s'"
  using assms(2)
proof (cases rule: raceStep.cases)
  case draw
  then show ?thesis using raceOk_draw[OF assms(1)] by simp
next
  case xid
  then show ?thesis using raceOk_xid[OF assms(1)] by simp
next
  case insert
  then show ?thesis using raceOk_insert[OF assms(1)] by simp
next
  case (commit t)
  then show ?thesis
    by (intro raceOk_sub[OF assms(1), of _ "\<lambda>_. True" "\<lambda>p. fst p \<noteq> t"]) (auto simp: commitTx_def running_def)
next
  case (rollback t)
  then show ?thesis
    by (intro raceOk_sub[OF assms(1), of _ "\<lambda>e. map_of (r_xids s) t \<noteq> Some (ev_txid e)" "\<lambda>p. fst p \<noteq> t"])
       (auto simp: rollbackTx_def commitTx_def running_def)
next
  case poll
  then show ?thesis by (intro raceOk_sub[OF assms(1), of _ "\<lambda>_. True" "\<lambda>_. True"]) simp_all
next
  case ack
  then show ?thesis by (intro raceOk_sub[OF assms(1), of _ "\<lambda>_. True" "\<lambda>_. True"]) simp_all
next
  case rewind
  then show ?thesis by (intro raceOk_sub[OF assms(1), of _ "\<lambda>_. True" "\<lambda>_. True"]) simp_all
qed

section \<open>The cursor\<close>

text \<open>Steps that hand nothing out: rows of running transactions may go, new
  transactions are younger than every row.\<close>

lemma settled_sub:
  assumes "raceOk s" "settled s i" "set (running s') \<subseteq> set (running s) \<union> {r_xid s}"
    and "\<And>e. e \<in> set (events (r_db s)) \<Longrightarrow> ev_txid e \<notin> set (running s) \<Longrightarrow> e \<in> set (events (r_db s'))"
  shows "settled s' i"
proof -
  obtain f where f: "f \<in> set (events (r_db s))" "ev_id f = i" "\<forall>x\<in>set (running s). ev_txid f < x"
    using assms(2) by (auto simp: settled_def)
  have "ev_txid f \<notin> set (running s)" "ev_txid f < r_xid s"
    using f assms(1) by (auto simp: raceOk_def)
  then show ?thesis using f assms(3,4) unfolding settled_def by blast
qed

lemma passed_sub:
  assumes "raceOk s" "passed s e" "\<forall>i\<in>set (r_seen s). settled s i" "set (r_seen s) \<subseteq> set (r_seen s')"
    and "\<And>e. e \<in> set (events (r_db s)) \<Longrightarrow> ev_txid e \<notin> set (running s) \<Longrightarrow> e \<in> set (events (r_db s'))"
  shows "passed s' e"
proof (cases "ev_id e \<in> set (r_seen s)")
  case True
  then show ?thesis using assms(4) by (auto simp: passed_def)
next
  case False
  then obtain f where f: "f \<in> set (events (r_db s))" "ev_id f \<in> set (r_seen s)" "ev_id e < ev_id f"
    "ev_txid f < ev_txid e" using assms(2) by (auto simp: passed_def)
  obtain g where g: "g \<in> set (events (r_db s))" "ev_id g = ev_id f" "\<forall>x\<in>set (running s). ev_txid g < x"
    using assms(3) f(2) by (auto simp: settled_def)
  have "g = f" using assms(1) f(1) g(1,2) by (auto simp: raceOk_def distinct_map inj_on_def)
  then have "f \<in> set (events (r_db s'))" using g(3) f(1) assms(5) by blast
  then show ?thesis using f assms(4) unfolding passed_def by blast
qed

lemma cursorOk_sub:
  assumes "raceOk s" "cursorOk name s" "r_seen s' = r_seen s"
    and run: "set (running s') \<subseteq> set (running s) \<union> {r_xid s}"
    and ev: "set (events (r_db s')) \<subseteq> set (events (r_db s))"
      "\<And>e. e \<in> set (events (r_db s)) \<Longrightarrow> ev_txid e \<notin> set (running s) \<Longrightarrow> e \<in> set (events (r_db s'))"
    and sub: "\<exists>sub. subRow (r_db s') name = Some sub \<and> sb_last_acked sub \<le> sb_last_read sub"
      "lastRead name (r_db s') \<le> lastRead name (r_db s)"
  shows "cursorOk name s'"
proof -
  have set: "\<forall>i\<in>set (r_seen s). settled s i" using assms(2) by (simp add: cursorOk_def)
  have "passed s' e" if e: "e \<in> set (events (r_db s'))" "ev_id e \<le> lastRead name (r_db s')" for e
  proof (rule passed_sub[OF assms(1) _ set _ ev(2)])
    show "passed s e" using assms(2) e ev(1) sub(2) unfolding cursorOk_def by auto
  qed (simp_all add: assms(3))
  moreover have "\<forall>i\<in>set (r_seen s'). settled s' i"
    using settled_sub[OF assms(1) _ run ev(2)] set assms(3) by simp
  moreover have "0 < lastRead name (r_db s') \<longrightarrow> (\<exists>i\<in>set (r_seen s'). lastRead name (r_db s') \<le> i)"
  proof
    assume "0 < lastRead name (r_db s')"
    then have "0 < lastRead name (r_db s)" using sub(2) by simp
    then obtain i where "i \<in> set (r_seen s)" "lastRead name (r_db s) \<le> i"
      using assms(2) unfolding cursorOk_def by blast
    then show "\<exists>i\<in>set (r_seen s'). lastRead name (r_db s') \<le> i"
      using sub(2) assms(3) by (intro bexI[of _ i]) auto
  qed
  ultimately show ?thesis using sub(1) unfolding cursorOk_def by blast
qed

text \<open>A row inserted behind the cursor is younger than what was handed out.\<close>

lemma cursorOk_insert:
  assumes "raceOk s" "cursorOk name s" "(t, i) \<in> set (r_ids s)" "map_of (r_xids s) t = Some x"
  shows "cursorOk name (insertRow t i x src ext ty p at s)"
proof -
  let ?s = "insertRow t i x src ext ty p at s"
  have same: "r_seen ?s = r_seen s" "running ?s = running s" "subRow (r_db ?s) name = subRow (r_db s) name"
    "lastRead name (r_db ?s) = lastRead name (r_db s)" by (simp_all add: insertRow_def)
  have sup: "set (events (r_db s)) \<subseteq> set (events (r_db ?s))"
    using events_putEvent[of i x src ext ty p at "r_db s"] by (auto simp: insertRow_def)
  have x: "x \<in> set (running s)" using map_of_SomeD[OF assms(4)] by (force simp: running_def)
  have set: "\<forall>i\<in>set (r_seen s). settled s i" using assms(2) by (simp add: cursorOk_def)
  have new: "passed ?s e" if e: "ev_id e = i" "ev_txid e = x" "i \<le> lastRead name (r_db s)" for e
  proof -
    have "i \<in> snd ` set (r_ids s)" using assms(3) by force
    then have i: "0 < i" "i \<notin> ev_id ` set (events (r_db s))"
      using assms(1) unfolding raceOk_def by auto
    then obtain j where j: "j \<in> set (r_seen s)" "lastRead name (r_db s) \<le> j"
      using assms(2) e(3) by (auto simp: cursorOk_def)
    obtain f where f: "f \<in> set (events (r_db s))" "ev_id f = j" "\<forall>y\<in>set (running s). ev_txid f < y"
      using set j(1) by (auto simp: settled_def)
    have "ev_id f \<noteq> i" using i(2) f(1) by blast
    then have "i < ev_id f" using f(2) j(2) e(3) by linarith
    then show ?thesis using f j x e sup unfolding passed_def same by blast
  qed
  have "passed ?s e" if e: "e \<in> set (events (r_db ?s))" "ev_id e \<le> lastRead name (r_db s)" for e
  proof (cases "e \<in> set (events (r_db s))")
    case True
    then show ?thesis
      using passed_sub[OF assms(1) _ set, of e ?s] assms(2) e(2) sup same(1) by (auto simp: cursorOk_def)
  next
    case False
    then show ?thesis
      using new[of e] e events_putEvent[of i x src ext ty p at "r_db s"] by (auto simp: insertRow_def)
  qed
  moreover have "\<forall>i\<in>set (r_seen s). settled ?s i"
    using set sup unfolding settled_def same by blast
  ultimately show ?thesis using assms(2) unfolding cursorOk_def same by blast
qed

lemma poll_cases:
  assumes "raceOk s" "subRow (r_db s) name = Some sub"
  obtains es sub' where "r_seen (pollTx now name n s) = r_seen s @ map ev_id es"
    "subRow (r_db (pollTx now name n s)) name = Some sub'" "sb_last_acked sub' = sb_last_acked sub"
    "sb_last_read sub' = (if es = [] then sb_last_read sub else ev_id (last es))"
    "set es = {e \<in> set (events (snapshot s)). eventHorizon (snapshot s) e \<and>
        sb_last_read sub < ev_id e \<and> ev_id e \<le> sb_last_read sub'}"
    "es = take n (byId (filter (\<lambda>e. sb_last_read sub < ev_id e \<and> eventHorizon (snapshot s) e) (events (snapshot s))))"
proof -
  have sub: "subRow (snapshot s) name = Some sub" using assms(2) by simp
  then obtain es d' where r: "ReadEventBatch now name n (snapshot s) = Inr (es, d')"
    by (cases "ReadEventBatch now name n (snapshot s)") (auto simp: ReadEventBatch_def Let_def split: if_splits)
  have "distinct (map ev_id (events (snapshot s)))"
    using assms(1) by (auto simp: raceOk_def snapshot_def intro: distinct_map_filter)
  from ReadEventBatch_exact[OF r sub this] obtain sub' where "subRow d' name = Some sub'"
    "sb_last_acked sub' = sb_last_acked sub"
    "sb_last_read sub' = (if es = [] then sb_last_read sub else ev_id (last es))"
    "set es = {e \<in> set (events (snapshot s)). eventHorizon (snapshot s) e \<and>
        sb_last_read sub < ev_id e \<and> ev_id e \<le> sb_last_read sub'}" by blast
  moreover have "es = take n (byId (filter (\<lambda>e. sb_last_read sub < ev_id e \<and> eventHorizon (snapshot s) e) (events (snapshot s))))"
    using r sub by (auto simp: ReadEventBatch_def Let_def split: if_splits)
  ultimately show thesis
    using that[of es sub'] by (simp add: pollTx_def r subRow_def)
qed

lemma readable_settled:
  assumes "raceOk s" "f \<in> set (events (snapshot s))" "eventHorizon (snapshot s) f"
  shows "settled s (ev_id f)" "f \<in> set (events (r_db s))"
  using assms by (auto simp: settled_def eventHorizon_def snapshot_def split: if_splits)

lemma hidden_younger:
  assumes "raceOk s" "e \<in> set (events (r_db s))" "f \<in> set (events (snapshot s))" "eventHorizon (snapshot s) f"
    and "\<not> (e \<in> set (events (snapshot s)) \<and> eventHorizon (snapshot s) e)"
  shows "ev_txid f < ev_txid e"
  using assms by (auto simp: eventHorizon_def snapshot_def split: if_splits)

lemma cursorOk_poll:
  assumes "raceOk s" "cursorOk name s"
  shows "cursorOk name (pollTx now name n s)"
proof -
  let ?t = "pollTx now name n s"
  obtain sub where sub: "subRow (r_db s) name = Some sub" "sb_last_acked sub \<le> sb_last_read sub"
    using assms(2) by (auto simp: cursorOk_def)
  obtain es sub' where p: "r_seen ?t = r_seen s @ map ev_id es" "subRow (r_db ?t) name = Some sub'"
    "sb_last_acked sub' = sb_last_acked sub"
    "sb_last_read sub' = (if es = [] then sb_last_read sub else ev_id (last es))"
    "set es = {e \<in> set (events (snapshot s)). eventHorizon (snapshot s) e \<and>
        sb_last_read sub < ev_id e \<and> ev_id e \<le> sb_last_read sub'}"
    by (rule poll_cases[OF assms(1) sub(1)]) (rule that)
  have lr: "lastRead name (r_db ?t) = sb_last_read sub'" "lastRead name (r_db s) = sb_last_read sub"
    using p(2) sub(1) by (simp_all add: lastRead_def)
  have set: "\<forall>i\<in>set (r_seen s). settled s i" using assms(2) by (simp add: cursorOk_def)
  have lst: "last es \<in> set es" if "es \<noteq> []" using that by simp
  have ge: "sb_last_read sub \<le> sb_last_read sub'" using p(4,5) lst by fastforce
  have "settled s i" if "i \<in> set (r_seen ?t)" for i
    using that set readable_settled(1)[OF assms(1)] p(1,5) by auto
  then have "\<forall>i\<in>set (r_seen ?t). settled ?t i" by (simp add: settled_def)
  moreover have "0 < sb_last_read sub' \<longrightarrow> (\<exists>i\<in>set (r_seen ?t). sb_last_read sub' \<le> i)"
  proof (cases "es = []")
    case True
    then show ?thesis using assms(2) p(1,4) lr(2) by (auto simp: cursorOk_def)
  next
    case False
    then show ?thesis using lst p(1,4) by auto
  qed
  moreover have "passed ?t e" if e: "e \<in> set (events (r_db s))" "ev_id e \<le> sb_last_read sub'" for e
  proof (cases "ev_id e \<le> sb_last_read sub")
    case True
    then have "passed s e" using assms(2) e(1) lr(2) by (simp add: cursorOk_def)
    then show ?thesis by (rule passed_sub[OF assms(1) _ set]) (use p(1) in simp_all)
  next
    case False
    then have ne: "es \<noteq> []" using e(2) p(4) by auto
    then have l: "last es \<in> set (events (snapshot s))" "eventHorizon (snapshot s) (last es)"
      using lst p(5) by blast+
    show ?thesis
    proof (cases "e \<in> set es")
      case True
      then show ?thesis using p(1) by (simp add: passed_def)
    next
      case out: False
      then have "\<not> (e \<in> set (events (snapshot s)) \<and> eventHorizon (snapshot s) e)"
        using False e(2) p(5) by auto
      from hidden_younger[OF assms(1) e(1) l this] have "ev_txid (last es) < ev_txid e" .
      moreover from this have "ev_id e \<noteq> ev_id (last es)"
        using assms(1) e(1) readable_settled(2)[OF assms(1) l]
        by (auto simp: raceOk_def distinct_map inj_on_def)
      ultimately have "last es \<in> set (events (r_db ?t)) \<and> ev_id (last es) \<in> set (r_seen ?t) \<and>
          ev_id e < ev_id (last es) \<and> ev_txid (last es) < ev_txid e"
        using e(2) p(1,4) ne lst readable_settled(2)[OF assms(1) l] by auto
      then show ?thesis unfolding passed_def by blast
    qed
  qed
  ultimately show ?thesis using p(2,3) sub(2) ge unfolding cursorOk_def lr(1) by simp
qed

lemma cursorOk_step:
  assumes "raceOk s" "cursorOk name s" "raceStep name s s'"
  shows "cursorOk name s'"
proof -
  obtain sub where sub: "subRow (r_db s) name = Some sub" "sb_last_acked sub \<le> sb_last_read sub"
    using assms(2) by (auto simp: cursorOk_def)
  from assms(3) show ?thesis
  proof (cases rule: raceStep.cases)
    case draw
    then show ?thesis
      by (intro cursorOk_sub[OF assms(1,2)]) (use sub in \<open>auto simp: drawId_def burnId_def subRow_def lastRead_def\<close>)
  next
    case xid
    then show ?thesis by (intro cursorOk_sub[OF assms(1,2)]) (use sub in \<open>auto simp: takeXid_def running_def\<close>)
  next
    case insert
    then show ?thesis using cursorOk_insert[OF assms(1,2)] by simp
  next
    case commit
    then show ?thesis by (intro cursorOk_sub[OF assms(1,2)]) (use sub in \<open>auto simp: commitTx_def running_def\<close>)
  next
    case (rollback t)
    have "ev_txid e \<in> set (running s)" if "map_of (r_xids s) t = Some (ev_txid e)" for e
      using map_of_SomeD[OF that] by (force simp: running_def)
    with rollback show ?thesis
      by (intro cursorOk_sub[OF assms(1,2)])
         (use sub in \<open>auto simp: rollbackTx_def commitTx_def running_def subRow_def lastRead_def\<close>)
  next
    case poll
    then show ?thesis using cursorOk_poll[OF assms(1,2)] by simp
  next
    case (ack now u)
    have "\<exists>sub'. subRow (r_db s') name = Some sub' \<and> sb_last_acked sub' \<le> sb_last_read sub' \<and>
        sb_last_read sub' = sb_last_read sub"
    proof (cases "AckEvents now name u (r_db s)")
      case (Inr d')
      from AckEvents_InrD[OF Inr sub(1)] show ?thesis using ack Inr sub(2) by (auto simp: ackTx_def)
    qed (use ack sub in \<open>simp add: ackTx_def\<close>)
    then show ?thesis using ack sub by (intro cursorOk_sub[OF assms(1,2)]) (auto simp: lastRead_def)
  next
    case (rewind now)
    have "\<exists>sub'. subRow (r_db s') name = Some sub' \<and> sb_last_acked sub' \<le> sb_last_read sub' \<and>
        sb_last_read sub' \<le> sb_last_read sub"
    proof (cases "ResetEventRead now name (r_db s)")
      case (Inr d')
      from ResetEventRead_InrD[OF Inr] show ?thesis using rewind Inr sub by (auto simp: rewindTx_def)
    qed (use rewind sub in \<open>simp add: rewindTx_def\<close>)
    then show ?thesis using rewind sub by (intro cursorOk_sub[OF assms(1,2)]) (auto simp: lastRead_def)
  qed
qed

lemma race_invariant:
  "(raceStep name)\<^sup>*\<^sup>* s s' \<Longrightarrow> raceOk s \<Longrightarrow> cursorOk name s \<Longrightarrow> raceOk s' \<and> cursorOk name s'"
  by (induction rule: rtranclp_induct) (auto intro: raceOk_step cursorOk_step)

section \<open>What can be skipped, and that it is\<close>

text \<open>An empty log with one subscriber.\<close>

definition freshLog :: "string \<Rightarrow> race" where
  "freshLog name =
     \<lparr>r_db = EnsureEventSubscriber 0 name emptyDb, r_xids = [], r_ids = [], r_xid = 1, r_seen = []\<rparr>"

lemma freshLog_ok: "raceOk (freshLog name)" "cursorOk name (freshLog name)"
  by (simp_all add: raceOk_def cursorOk_def freshLog_def EnsureEventSubscriber_def subRow_def
      lastRead_def emptyDb_def running_def)

definition lost :: "string \<Rightarrow> int \<Rightarrow> race \<Rightarrow> bool" where
  "lost name i s \<longleftrightarrow> i \<notin> set (r_seen s) \<and>
     (\<exists>sub. subRow (r_db s) name = Some sub \<and> i \<le> sb_last_acked sub \<and> sb_last_acked sub \<le> sb_last_read sub)"

lemma lost_step:
  assumes "raceOk s" "lost name i s" "raceStep name s s'"
  shows "lost name i s'"
proof -
  obtain sub where sub: "subRow (r_db s) name = Some sub" "i \<le> sb_last_acked sub"
    "sb_last_acked sub \<le> sb_last_read sub" "i \<notin> set (r_seen s)"
    using assms(2) by (auto simp: lost_def)
  have keep: ?thesis if "r_seen s' = r_seen s" "subRow (r_db s') name = subRow (r_db s) name"
    using that sub by (simp add: lost_def)
  from assms(3) show ?thesis
  proof (cases rule: raceStep.cases)
    case (poll now n)
    obtain es sub' where p: "r_seen (pollTx now name n s) = r_seen s @ map ev_id es"
      "subRow (r_db (pollTx now name n s)) name = Some sub'"
      "sb_last_acked sub' = sb_last_acked sub" "sb_last_read sub' = (if es = [] then sb_last_read sub else ev_id (last es))"
      "set es = {e \<in> set (events (snapshot s)). eventHorizon (snapshot s) e \<and>
        sb_last_read sub < ev_id e \<and> ev_id e \<le> sb_last_read sub'}"
      by (rule poll_cases[OF assms(1) sub(1)]) (rule that)
    have "es \<noteq> [] \<Longrightarrow> last es \<in> set es" by simp
    then have "sb_last_read sub \<le> sb_last_read sub'" using p(4,5) by fastforce
    then show ?thesis using p sub by (auto simp: lost_def poll)
  next
    case (ack now u)
    then show ?thesis
    proof (cases "AckEvents now name u (r_db s)")
      case (Inr d')
      from AckEvents_InrD[OF Inr sub(1)] show ?thesis using ack Inr sub by (auto simp: ackTx_def lost_def)
    qed (use assms(2) in \<open>simp add: ackTx_def\<close>)
  next
    case (rewind now)
    then show ?thesis
    proof (cases "ResetEventRead now name (r_db s)")
      case (Inr d')
      from ResetEventRead_InrD[OF Inr] show ?thesis using rewind Inr sub by (auto simp: rewindTx_def lost_def)
    qed (use assms(2) in \<open>simp add: rewindTx_def\<close>)
  qed (intro keep; simp add: drawId_def takeXid_def insertRow_def rollbackTx_def commitTx_def burnId_def subRow_def; fail)+
qed

lemma lost_forever:
  "(raceStep name)\<^sup>*\<^sup>* s s' \<Longrightarrow> raceOk s \<Longrightarrow> lost name i s \<Longrightarrow> i \<notin> set (r_seen s')"
proof -
  assume "(raceStep name)\<^sup>*\<^sup>* s s'" "raceOk s" "lost name i s"
  then have "raceOk s' \<and> lost name i s'"
    by (induction rule: rtranclp_induct) (auto intro: raceOk_step lost_step)
  then show ?thesis by (simp add: lost_def)
qed

text \<open>Session \<open>a\<close> draws an id, session \<open>b\<close> draws the next one, inserts
  and commits, and the subscriber reads and acknowledges; then \<open>a\<close> inserts and
  commits.\<close>

definition overtaking :: "string \<Rightarrow> int \<Rightarrow> nat \<Rightarrow> int \<Rightarrow> int \<Rightarrow> event \<Rightarrow> race \<Rightarrow> race" where
  "overtaking name now n a b f s =
     (let i = next_event_id (r_db s);
          inserted = insertRow b (i + 1) (r_xid s) (ev_source f) (ev_external_id f) (ev_type f)
            (ev_payload f) now (takeXid b (drawId b (drawId a s)))
      in ackTx now name (i + 1) (pollTx now name n (commitTx b inserted)))"

definition lateCommit :: "int \<Rightarrow> int \<Rightarrow> int \<Rightarrow> event \<Rightarrow> race \<Rightarrow> race" where
  "lateCommit now a i e s =
     commitTx a (insertRow a i (r_xid s) (ev_source e) (ev_external_id e) (ev_type e) (ev_payload e) now
       (takeXid a s))"

lemma caught_up:
  assumes "raceOk s" "subRow (r_db s) name = Some sub" "running s = []"
    and "e \<in> set (events (r_db s))" "sb_last_read sub < ev_id e"
    and "\<And>f. f \<in> set (events (r_db s)) \<Longrightarrow> ev_id f \<le> ev_id e" "length (events (r_db s)) \<le> n"
  shows "\<exists>sub'. subRow (r_db (pollTx now name n s)) name = Some sub' \<and> sb_last_read sub' = ev_id e \<and>
    sb_last_acked sub' = sb_last_acked sub"
proof -
  have snap: "events (snapshot s) = events (r_db s)" "\<And>g. g \<in> set (events (r_db s)) \<Longrightarrow> eventHorizon (snapshot s) g"
    using assms(1,3) by (auto simp: snapshot_def eventHorizon_def raceOk_def)
  obtain es sub' where p: "subRow (r_db (pollTx now name n s)) name = Some sub'"
    "sb_last_acked sub' = sb_last_acked sub"
    "sb_last_read sub' = (if es = [] then sb_last_read sub else ev_id (last es))"
    "es = take n (byId (filter (\<lambda>e. sb_last_read sub < ev_id e \<and> eventHorizon (snapshot s) e) (events (snapshot s))))"
    by (rule poll_cases[OF assms(1,2)]) (rule that)
  let ?xs = "filter (\<lambda>e. sb_last_read sub < ev_id e \<and> eventHorizon (snapshot s) e) (events (snapshot s))"
  have "length (byId ?xs) \<le> n"
    using assms(7) unfolding byId_def snap(1) by (simp add: order_trans[OF length_filter_le])
  then have es: "es = byId ?xs" unfolding p(4) by simp
  then have set: "set es = set ?xs" by (simp add: byId_def)
  then have e: "e \<in> set es" using assms(4,5) snap by simp
  then have "ev_id e \<le> ev_id (last es)" unfolding es by (rule sorted_le_last[OF byId_sorted])
  moreover have "last es \<in> set (events (r_db s))" using e set last_in_set[of es] snap(1) by force
  ultimately have "ev_id (last es) = ev_id e" using assms(6) by fastforce
  then show ?thesis using p(1-3) e by auto
qed

lemma raceGo:
  "(raceStep name)\<^sup>*\<^sup>* s0 s \<Longrightarrow> raceStep name s s' \<Longrightarrow> (raceStep name)\<^sup>*\<^sup>* s0 s'"
  by (rule rtranclp.rtrancl_into_rtrancl)

text \<open>The state in which \<open>b\<close> has committed.\<close>

definition overtaker :: "int \<Rightarrow> int \<Rightarrow> int \<Rightarrow> event \<Rightarrow> race \<Rightarrow> race" where
  "overtaker now a b f s =
     commitTx b (insertRow b (next_event_id (r_db s) + 1) (r_xid s) (ev_source f) (ev_external_id f)
       (ev_type f) (ev_payload f) now (takeXid b (drawId b (drawId a s))))"

lemma seen_below:
  assumes "raceOk s" "cursorOk name s"
  shows "j \<in> set (r_seen s) \<Longrightarrow> j < next_event_id (r_db s)" "lastRead name (r_db s) < next_event_id (r_db s)"
proof -
  have seen: "j < next_event_id (r_db s)" if j: "j \<in> set (r_seen s)" for j
  proof -
    obtain f where "f \<in> set (events (r_db s))" "ev_id f = j"
      using assms(2) j unfolding cursorOk_def settled_def by blast
    then show ?thesis using assms(1) by (auto simp: raceOk_def)
  qed
  then show "j \<in> set (r_seen s) \<Longrightarrow> j < next_event_id (r_db s)" .
  show "lastRead name (r_db s) < next_event_id (r_db s)"
  proof (cases "0 < lastRead name (r_db s)")
    case True
    then obtain j where "j \<in> set (r_seen s)" "lastRead name (r_db s) \<le> j"
      using assms(2) unfolding cursorOk_def by blast
    then show ?thesis using seen by force
  next
    case False
    have "0 < next_event_id (r_db s)" using assms(1) by (simp add: raceOk_def)
    then show ?thesis using False by simp
  qed
qed

lemma overtaker_state:
  assumes "r_xids s = []" "r_ids s = []" "a \<noteq> b"
    and "eventRecorded (r_db s) (ev_source f) (ev_external_id f) = None" "i = next_event_id (r_db s)"
  shows "\<exists>g. events (r_db (overtaker now a b f s)) = events (r_db s) @ [g] \<and> ev_id g = i + 1 \<and>
      ev_source g = ev_source f \<and> ev_external_id g = ev_external_id f"
    and "r_ids (overtaker now a b f s) = [(a, i)]" "r_xids (overtaker now a b f s) = []"
    and "subscribers (r_db (overtaker now a b f s)) = subscribers (r_db s)"
    and "r_seen (overtaker now a b f s) = r_seen s"
    and "(raceStep name)\<^sup>*\<^sup>* s (overtaker now a b f s)"
proof -
  let ?d = "takeXid b (drawId b (drawId a s))"
  have d: "r_db ?d = burnId (burnId (r_db s))" "r_ids ?d = [(b, i + 1), (a, i)]" "r_xids ?d = [(b, r_xid s)]"
    "r_seen ?d = r_seen s" "map_of (r_xids ?d) b = Some (r_xid s)"
    using assms by (simp_all add: takeXid_def drawId_def burnId_def)
  have burn: "events (burnId x) = events x" "subscribers (burnId x) = subscribers x"
    "eventRecorded (burnId x) = eventRecorded x" for x :: db
    by (simp_all add: burnId_def eventRecorded_def fun_eq_iff)
  show "\<exists>g. events (r_db (overtaker now a b f s)) = events (r_db s) @ [g] \<and> ev_id g = i + 1 \<and>
      ev_source g = ev_source f \<and> ev_external_id g = ev_external_id f"
    using assms(4,5) by (simp add: overtaker_def commitTx_def insertRow_def putEvent_def d burn)
  show "r_ids (overtaker now a b f s) = [(a, i)]" "r_xids (overtaker now a b f s) = []"
    "subscribers (r_db (overtaker now a b f s)) = subscribers (r_db s)"
    "r_seen (overtaker now a b f s) = r_seen s"
    using assms(3-5) by (simp_all add: overtaker_def commitTx_def insertRow_def putEvent_def d burn)
  have "(b, i + 1) \<in> set (r_ids ?d)" "\<not> waits ?d (r_xid s) (ev_source f) (ev_external_id f)"
    using assms(4) by (simp_all add: d waits_def burn)
  then show "(raceStep name)\<^sup>*\<^sup>* s (overtaker now a b f s)"
    unfolding overtaker_def assms(5)[symmetric] using d(5)
    by (intro raceGo[OF _ raceStep.commit] raceGo[OF _ raceStep.insert] raceGo[OF _ raceStep.xid]
        raceGo[OF _ raceStep.draw] rtranclp.rtrancl_refl)
qed

lemma overtaking_loses:
  assumes "raceOk s" "cursorOk name s" "r_xids s = []" "r_ids s = []" "a \<noteq> b"
    and "eventRecorded (r_db s) (ev_source f) (ev_external_id f) = None" "length (events (r_db s)) < n"
    and "i = next_event_id (r_db s)" "s1 = overtaking name now n a b f s"
  shows "(raceStep name)\<^sup>*\<^sup>* s s1" "lost name i s1" "r_ids s1 = [(a, i)]" "r_xids s1 = []"
    "\<exists>g. events (r_db s1) = events (r_db s) @ [g] \<and> ev_source g = ev_source f \<and> ev_external_id g = ev_external_id f"
proof -
  define s5 where "s5 = overtaker now a b f s"
  note s5 = overtaker_state[OF assms(3-6,8), where now = now, folded s5_def]
  obtain g where g: "events (r_db s5) = events (r_db s) @ [g]" "ev_id g = i + 1"
    "ev_source g = ev_source f" "ev_external_id g = ev_external_id f" using s5(1) by blast
  have s1: "s1 = ackTx now name (i + 1) (pollTx now name n s5)"
    by (simp add: assms(8,9) overtaking_def overtaker_def Let_def s5_def)
  have ok: "raceOk s5" using race_invariant[OF s5(6) assms(1,2)] by blast
  obtain sub where sub0: "subRow (r_db s) name = Some sub" "sb_last_acked sub \<le> sb_last_read sub"
    using assms(2) unfolding cursorOk_def by blast
  have sub: "subRow (r_db s5) name = Some sub" "sb_last_acked sub \<le> sb_last_read sub"
    "sb_last_read sub = lastRead name (r_db s)"
    using sub0 s5(4) by (simp_all add: subRow_def lastRead_def)
  note below = seen_below[OF assms(1,2), folded assms(8)]
  have old: "ev_id h < i" if "h \<in> set (events (r_db s))" for h
    using that assms(1,8) by (auto simp: raceOk_def)
  have "ev_id h \<le> ev_id g" if "h \<in> set (events (r_db s5))" for h
    using that old[of h] g(2) unfolding g(1) by (cases "h = g") simp_all
  then have "\<exists>sub'. subRow (r_db (pollTx now name n s5)) name = Some sub' \<and> sb_last_read sub' = ev_id g \<and>
      sb_last_acked sub' = sb_last_acked sub"
    using g(1,2) sub(3) s5(3) assms(7) below(2)
    by (intro caught_up[OF ok sub(1)]) (simp_all add: running_def)
  then obtain sub' where sub': "subRow (r_db (pollTx now name n s5)) name = Some sub'" "sb_last_read sub' = i + 1"
    "sb_last_acked sub' = sb_last_acked sub" using g(2) by auto
  have "\<exists>d'. AckEvents now name (i + 1) (r_db (pollTx now name n s5)) = Inr d'"
    using sub' by (simp add: AckEvents_def)
  then obtain d' where d': "AckEvents now name (i + 1) (r_db (pollTx now name n s5)) = Inr d'" by blast
  obtain sub2 where sub2: "subRow d' name = Some sub2" "sb_last_read sub2 = i + 1" "i + 1 \<le> sb_last_acked sub2"
    "sb_last_acked sub2 \<le> sb_last_read sub2"
  proof -
    have "sb_last_acked sub' < i" using sub'(3) sub(2,3) below(2) by simp
    moreover obtain sub2 where "subRow d' name = Some sub2" "sb_last_read sub2 = sb_last_read sub'"
      "sb_last_acked sub2 = max (i + 1) (sb_last_acked sub')" using AckEvents_InrD(4)[OF d' sub'(1)] by blast
    ultimately show thesis using sub'(2) by (intro that[of sub2]) simp_all
  qed
  obtain es where es: "r_seen (pollTx now name n s5) = r_seen s5 @ map ev_id es"
    "set es \<subseteq> set (events (snapshot s5))"
  proof (rule poll_cases[OF ok sub(1), of now n])
    fix es sub3
    assume "r_seen (pollTx now name n s5) = r_seen s5 @ map ev_id es"
      "set es = {e \<in> set (events (snapshot s5)). eventHorizon (snapshot s5) e \<and>
        sb_last_read sub < ev_id e \<and> ev_id e \<le> sb_last_read sub3}"
    then show thesis by (intro that[of es]) auto
  qed
  have "ev_id h \<noteq> i" if "h \<in> set (events (r_db s5))" for h
    using that old[of h] g(2) unfolding g(1) by (cases "h = g") simp_all
  moreover have "set es \<subseteq> set (events (r_db s5))" using es(2) by (auto simp: snapshot_def)
  ultimately have "i \<notin> ev_id ` set es" by blast
  moreover have "i \<notin> set (r_seen s)" using below(1) by blast
  ultimately have "i \<notin> set (r_seen s1)" using es(1) s5(5) by (simp add: s1)
  then show "lost name i s1" using d' sub2 by (auto simp: lost_def s1 ackTx_def)
  show "(raceStep name)\<^sup>*\<^sup>* s s1"
    unfolding s1 by (intro raceGo[OF _ raceStep.ack] raceGo[OF _ raceStep.poll] s5(6))
  show "r_ids s1 = [(a, i)]" using s5(2) by (simp add: s1)
  show "r_xids s1 = []" using s5(3) by (simp add: s1 ackTx_def pollTx_def split: sum.split prod.split)
  show "\<exists>g. events (r_db s1) = events (r_db s) @ [g] \<and> ev_source g = ev_source f \<and> ev_external_id g = ev_external_id f"
    using g by (simp add: s1)
qed

lemma eventRecorded_events:
  "eventRecorded d src ext = None \<longleftrightarrow> (\<forall>e\<in>set (events d). \<not> (ev_source e = src \<and> ev_external_id e = ext))"
  by (auto simp: eventRecorded_def row_None_iff)

lemma overtaken_lost:
  assumes "(raceStep name)\<^sup>*\<^sup>* (freshLog name) s" "r_xids s = []" "r_ids s = []" "a \<noteq> b"
    and "eventRecorded (r_db s) (ev_source f) (ev_external_id f) = None"
    and "eventRecorded (r_db s) (ev_source e) (ev_external_id e) = None"
    and "(ev_source e, ev_external_id e) \<noteq> (ev_source f, ev_external_id f)" "length (events (r_db s)) < n"
    and "i = next_event_id (r_db s)" "s2 = lateCommit now a i e (overtaking name now n a b f s)"
  shows "(raceStep name)\<^sup>*\<^sup>* s s2 \<and> r_xids s2 = [] \<and>
    (\<exists>g\<in>set (events (snapshot s2)). ev_id g = i \<and> ev_source g = ev_source e \<and>
       ev_external_id g = ev_external_id e \<and> eventHorizon (snapshot s2) g) \<and>
    (\<forall>s3. (raceStep name)\<^sup>*\<^sup>* s2 s3 \<longrightarrow> i \<notin> set (r_seen s3))"
proof -
  let ?s1 = "overtaking name now n a b f s"
  have ok: "raceOk s" "cursorOk name s" using race_invariant[OF assms(1) freshLog_ok] by auto
  note o = overtaking_loses[OF ok assms(2-5,8,9) refl, of now]
  have ok1: "raceOk ?s1" "cursorOk name ?s1" using race_invariant[OF o(1) ok] by auto
  have new: "eventRecorded (r_db ?s1) (ev_source e) (ev_external_id e) = None"
  proof -
    obtain g where "events (r_db ?s1) = events (r_db s) @ [g]" "ev_source g = ev_source f"
      "ev_external_id g = ev_external_id f" using o(5) by blast
    then show ?thesis using assms(6,7) by (auto simp: eventRecorded_events)
  qed
  have "(a, i) \<in> set (r_ids (takeXid a ?s1))" "map_of (r_xids (takeXid a ?s1)) a = Some (r_xid ?s1)"
    "\<not> waits (takeXid a ?s1) (r_xid ?s1) (ev_source e) (ev_external_id e)"
    using o(3,4) new by (simp_all add: takeXid_def waits_def)
  then have go: "(raceStep name)\<^sup>*\<^sup>* ?s1 s2"
    unfolding assms(10) lateCommit_def
    by (intro raceGo[OF _ raceStep.commit] raceGo[OF _ raceStep.insert] raceGo[OF _ raceStep.xid] rtranclp.rtrancl_refl)
  have ok2: "raceOk s2" and lost: "\<forall>s3. (raceStep name)\<^sup>*\<^sup>* s2 s3 \<longrightarrow> i \<notin> set (r_seen s3)"
    using race_invariant[OF go ok1] lost_forever[OF rtranclp_trans[OF go] ok1(1) o(2)] by auto
  have x: "r_xids s2 = []" using o(4) by (simp add: assms(10) lateCommit_def commitTx_def insertRow_def takeXid_def)
  have "\<exists>g\<in>set (events (r_db s2)). ev_id g = i \<and> ev_source g = ev_source e \<and> ev_external_id g = ev_external_id e"
    using new o(4) by (simp add: assms(10) lateCommit_def commitTx_def insertRow_def takeXid_def putEvent_def)
  moreover have "events (snapshot s2) = events (r_db s2)" "\<And>g. g \<in> set (events (r_db s2)) \<Longrightarrow> eventHorizon (snapshot s2) g"
    using ok2 x by (auto simp: snapshot_def eventHorizon_def raceOk_def running_def)
  ultimately show ?thesis using lost x rtranclp_trans[OF o(1) go] by auto
qed

definition logEntry :: "string \<Rightarrow> event" where
  "logEntry ext = \<lparr>ev_id = 0, ev_source = ''cli'', ev_external_id = ext, ev_type = ''t'', ev_payload = JNull,
     ev_received_at = 0, ev_applied_at = None, ev_txid = 0\<rparr>"

definition overtakenLog :: race where
  "overtakenLog = lateCommit 5 1 1 (logEntry ''a'') (overtaking ''ui'' 5 10 1 2 (logEntry ''b'') (freshLog ''ui''))"

lemma freshLog_start:
  "r_xids (freshLog name) = []" "r_ids (freshLog name) = []" "next_event_id (r_db (freshLog name)) = 1"
  "events (r_db (freshLog name)) = []" "eventRecorded (r_db (freshLog name)) src ext = None"
  by (simp_all add: freshLog_def EnsureEventSubscriber_def subRow_def emptyDb_def eventRecorded_def)

text \<open>C27: No interleaving makes the subscriber skip an event whose id and
  transaction id were taken in the same order as those of the events around it:
  whatever steps sessions and subscriber take from an empty log, an event at or
  below the read offset that was never handed out was overtaken, by an event that
  was handed out, with a greater id and an older transaction id.\<close>

theorem skips_only_overtaken:
  assumes "(raceStep name)\<^sup>*\<^sup>* (freshLog name) s"
    and "e \<in> set (events (r_db s))" "ev_id e \<le> lastRead name (r_db s)" "ev_id e \<notin> set (r_seen s)"
  shows "\<exists>f\<in>set (events (r_db s)). ev_id f \<in> set (r_seen s) \<and> ev_id e < ev_id f \<and> ev_txid f < ev_txid e"
  using race_invariant[OF assms(1) freshLog_ok] assms(2-4) by (auto simp: cursorOk_def passed_def)

theorem skips_only_overtaken_witness:
  "\<exists>f\<in>set (events (r_db overtakenLog)). ev_id f \<in> set (r_seen overtakenLog) \<and> 1 < ev_id f \<and> ev_txid f < 2"
proof -
  have "(raceStep ''ui'')\<^sup>*\<^sup>* (freshLog ''ui'') overtakenLog"
    using overtaken_lost[OF rtranclp.rtrancl_refl freshLog_start(1,2) _ freshLog_start(5,5) _ _ _ overtakenLog_def]
    by (simp add: freshLog_start logEntry_def)
  moreover have "\<exists>e\<in>set (events (r_db overtakenLog)). ev_id e = 1 \<and> ev_txid e = 2" by code_simp
  moreover have "lastRead ''ui'' (r_db overtakenLog) = 2" "1 \<notin> set (r_seen overtakenLog)" by code_simp+
  ultimately show ?thesis using skips_only_overtaken[of "''ui''" overtakenLog] by force
qed



end
