(* ===== verification/Ranking.thy ===== *)
theory Ranking
  imports LeaseOps
begin

text \<open>
  What to work on next: the open-blocker relation (internal/store/
  taskblockers.go, brief.go openBlockers), rally membership (rally.go), the
  blocking fan-out, the ready set, the ranking and ClaimNext
  (internal/store/ranking.go). The recursive queries are a worklist closure,
  shown to be reachability.
\<close>

section \<open>Recursive UNION queries\<close>

text \<open>Rows reachable from the seeds, each once; \<open>cand\<close> bounds what the
  step can produce, as the queries' joins do.\<close>

function closeLoop :: "'a list \<Rightarrow> ('a \<Rightarrow> 'a list) \<Rightarrow> 'a list \<Rightarrow> 'a list \<Rightarrow> 'a list" where
  "closeLoop cand step seen work =
     (let new = firstSeen seen (filter (\<lambda>x. x \<in> set cand) (concat (map step work)))
      in if new = [] then seen else closeLoop cand step (new @ seen) new)"
  by pat_completeness auto
termination
proof (relation "measure (\<lambda>(cand, step, seen, work). card (set cand - set seen))")
  fix cand seen work :: "'a list" and step new
  assume new: "new = firstSeen seen (filter (\<lambda>x. x \<in> set cand) (concat (map step work)))" "new \<noteq> []"
  show "((cand, step, new @ seen, new), cand, step, seen, work)
      \<in> measure (\<lambda>(cand, step, seen, work). card (set cand - set seen))"
    using card_visited_decreases[OF new, of cand] by auto
qed simp

declare closeLoop.simps [simp del]

definition recursiveUnion :: "'a list \<Rightarrow> ('a \<Rightarrow> 'a list) \<Rightarrow> 'a list \<Rightarrow> 'a list" where
  "recursiveUnion cand step seeds = closeLoop cand step (firstSeen [] seeds) (firstSeen [] seeds)"

definition stepRel :: "('a \<Rightarrow> 'a list) \<Rightarrow> ('a \<times> 'a) set" where
  "stepRel step = {(x, y). y \<in> set (step x)}"

lemma closeLoop_correct:
  assumes "\<And>x y. x \<in> S \<Longrightarrow> (x, y) \<in> (stepRel step)\<^sup>+ \<Longrightarrow> y \<in> set cand"
    and "set seen \<subseteq> (stepRel step)\<^sup>* `` S" "S \<subseteq> set seen" "set work \<subseteq> set seen"
    and "\<And>x y. x \<in> set seen \<Longrightarrow> x \<notin> set work \<Longrightarrow> y \<in> set (step x) \<Longrightarrow> y \<in> set seen"
  shows "set (closeLoop cand step seen work) = (stepRel step)\<^sup>* `` S"
  using assms
proof (induction cand step seen work rule: closeLoop.induct)
  case (1 cand step seen work)
  let ?new = "firstSeen seen (filter (\<lambda>x. x \<in> set cand) (concat (map step work)))"
  have in_cand: "y \<in> set cand" if "x \<in> set work" "y \<in> set (step x)" for x y
  proof -
    have "x \<in> (stepRel step)\<^sup>* `` S" using that(1) "1.prems"(2,4) by blast
    then obtain s where "s \<in> S" "(s, x) \<in> (stepRel step)\<^sup>*" by blast
    moreover have "(x, y) \<in> stepRel step" using that(2) by (simp add: stepRel_def)
    ultimately show ?thesis using "1.prems"(1) by (meson rtrancl_into_trancl1)
  qed
  have new: "set ?new = {y. \<exists>x\<in>set work. y \<in> set (step x)} - set seen"
    using in_cand by (auto simp: set_firstSeen)
  show ?case
  proof (cases "?new = []")
    case True
    have closed: "y \<in> set seen" if "x \<in> set seen" "(x, y) \<in> stepRel step" for x y
      using that "1.prems"(5)[of x y] new True by (cases "x \<in> set work") (auto simp: stepRel_def)
    have "y \<in> set seen" if "s \<in> S" "(s, y) \<in> (stepRel step)\<^sup>*" for s y
      using that(2,1) "1.prems"(3) by (induction rule: rtrancl_induct) (use closed in auto)
    then have "set seen = (stepRel step)\<^sup>* `` S" using "1.prems"(2) by blast
    then show ?thesis using True by (simp add: closeLoop.simps[of cand step seen work] Let_def)
  next
    case False
    have "set (?new @ seen) \<subseteq> (stepRel step)\<^sup>* `` S"
    proof
      fix y assume "y \<in> set (?new @ seen)"
      then consider "y \<in> set seen" | x where "x \<in> set work" "y \<in> set (step x)"
        using new by auto
      then show "y \<in> (stepRel step)\<^sup>* `` S"
      proof cases
        case (2 x)
        then have "x \<in> (stepRel step)\<^sup>* `` S" "(x, y) \<in> stepRel step"
          using "1.prems"(2,4) by (auto simp: stepRel_def)
        then show ?thesis by (meson Image_iff rtrancl_into_rtrancl)
      qed (use "1.prems"(2) in blast)
    qed
    moreover have "y \<in> set (?new @ seen)" if "x \<in> set (?new @ seen)" "x \<notin> set ?new" "y \<in> set (step x)" for x y
      using that "1.prems"(5)[of x y] new by (cases "x \<in> set work") auto
    moreover have "S \<subseteq> set (?new @ seen)" "set ?new \<subseteq> set (?new @ seen)" using "1.prems"(3) by auto
    ultimately have "set (closeLoop cand step (?new @ seen) ?new) = (stepRel step)\<^sup>* `` S"
      by (intro "1.IH"[OF refl False "1.prems"(1)]) blast+
    then show ?thesis using False by (simp add: closeLoop.simps[of cand step seen work] Let_def)
  qed
qed

lemma recursiveUnion_reach:
  assumes "\<And>x y. x \<in> set seeds \<Longrightarrow> (x, y) \<in> (stepRel step)\<^sup>+ \<Longrightarrow> y \<in> set cand"
  shows "set (recursiveUnion cand step seeds) = (stepRel step)\<^sup>* `` set seeds"
  unfolding recursiveUnion_def
  by (rule closeLoop_correct) (use assms in \<open>auto simp: set_firstSeen\<close>)

section \<open>Open blockers\<close>

text \<open>Pairs (blocked, blocker): blockerRelation.\<close>

definition blockerRelation :: "db \<Rightarrow> (string \<times> string) list" where
  "blockerRelation d = remdups
     (concat (map (\<lambda>e. map (\<lambda>b. (e_from e, t_id b))
        (filter (\<lambda>b. t_id b = e_to e \<and> live b \<and> \<not> taskClosed d b) (tasks d)))
        (filter (\<lambda>e. e_type e = ''dependsOn'') (task_edges d))) @
      concat (map (\<lambda>dep. concat (map (\<lambda>de. map (\<lambda>b. (t_id dep, t_id b))
        (filter (\<lambda>b. t_plan_doc b \<noteq> None \<and> t_plan_doc b = de_to_doc de \<and> live b \<and> \<not> taskClosed d b)
           (tasks d)))
        (filter (\<lambda>de. de_type de = ''blockedBy'' \<and> Some (de_from de) = t_plan_doc dep) (doc_edges d))))
        (filter live (tasks d))))"

text \<open>openBlockers: the ids blocking one task; the dependent itself may be a
  tombstone here. The order by number is the caller's display order and is left
  out.\<close>

definition openBlockers :: "db \<Rightarrow> string \<Rightarrow> string list" where
  "openBlockers d tid = remdups
     (concat (map (\<lambda>e. map t_id
        (filter (\<lambda>b. t_id b = e_to e \<and> live b \<and> \<not> taskClosed d b) (tasks d)))
        (filter (\<lambda>e. e_from e = tid \<and> e_type e = ''dependsOn'') (task_edges d))) @
      concat (map (\<lambda>dep. concat (map (\<lambda>de. map t_id
        (filter (\<lambda>b. t_plan_doc b \<noteq> None \<and> t_plan_doc b = de_to_doc de \<and> live b \<and> \<not> taskClosed d b)
           (tasks d)))
        (filter (\<lambda>de. de_type de = ''blockedBy'' \<and> Some (de_from de) = t_plan_doc dep) (doc_edges d))))
        (filter (\<lambda>t. t_id t = tid) (tasks d))))"

definition blockersOf :: "db \<Rightarrow> string \<Rightarrow> string list" where
  "blockersOf d x = map snd (filter (\<lambda>p. fst p = x) (blockerRelation d))"

definition rallyMembers :: "db \<Rightarrow> string list" where
  "rallyMembers d =
     recursiveUnion (map snd (blockerRelation d)) (blockersOf d)
       (concat (map (\<lambda>r. blockersOf d (t_id r)) (filter rallyActiveCondition (tasks d))))"

section \<open>Fan-out\<close>

text \<open>The recursion starts from edges with both ends live and follows edges
  into what it reached from live tasks; per root it counts the open ones.\<close>

definition liveDependents :: "db \<Rightarrow> string \<Rightarrow> string list" where
  "liveDependents d x =
     map e_from (filter (\<lambda>e. e_type e = ''dependsOn'' \<and> e_to e = x \<and>
       (\<exists>f\<in>set (tasks d). t_id f = e_from e \<and> live f)) (task_edges d))"

definition fanOutOf :: "db \<Rightarrow> string \<Rightarrow> nat" where
  "fanOutOf d root =
     (if \<not> (\<exists>b\<in>set (tasks d). t_id b = root \<and> live b) then 0
      else length (filter (\<lambda>x. \<exists>t\<in>set (tasks d). t_id t = x \<and> \<not> taskClosed d t)
             (recursiveUnion (map e_from (task_edges d)) (liveDependents d) (liveDependents d root))))"

section \<open>The ready set\<close>

text \<open>The kinds a caller narrows to: string_to_array(kind, ',').\<close>

fun splitComma :: "string \<Rightarrow> string \<Rightarrow> string list" where
  "splitComma acc [] = [acc]"
| "splitComma acc (c # s) =
     (if c = CHR '','' then acc # splitComma [] s else splitComma (acc @ [c]) s)"

definition readyCandidates :: "db \<Rightarrow> string \<Rightarrow> string \<Rightarrow> task list" where
  "readyCandidates d projectID kind = filter (\<lambda>t.
     t_state t = ''ready'' \<and> live t \<and> \<not> hasChildren d (t_id t) \<and>
     t_kind t \<in> set (TaskKindsMatching Claimable) \<and>
     \<not> t_needs_decomposition t \<and> \<not> t_human_only t \<and>
     (projectID = [] \<or> t_project t = projectID) \<and>
     (kind = [] \<or> t_kind t \<in> set (splitComma [] kind)) \<and>
     \<not> hasActiveLease d (t_id t) \<and>
     \<not> (\<exists>e\<in>set (task_edges d). e_from e = t_id t \<and> blockedCondition d e) \<and>
     \<not> planBlockedCondition d t) (tasks d)"

section \<open>Ranking\<close>

record rank_input =
  ri_task :: task
  ri_focus :: "string list"
  ri_fan_out :: int
  ri_in_rally :: bool

text \<open>math.MaxInt.\<close>

definition maxInt :: int where
  "maxInt = 2 ^ 63 - 1"

fun indexFrom :: "int \<Rightarrow> string \<Rightarrow> string list \<Rightarrow> int" where
  "indexFrom i c [] = maxInt"
| "indexFrom i c (f # fs) = (if f = c then i else indexFrom (i + 1) c fs)"

definition concernRank :: "string option \<Rightarrow> string list \<Rightarrow> int" where
  "concernRank concern focus =
     (case concern of None \<Rightarrow> maxInt | Some c \<Rightarrow> if c = [] then maxInt else indexFrom 0 c focus)"

definition criticalRank :: "string \<Rightarrow> bool \<Rightarrow> int" where
  "criticalRank priority strictFocus = (if \<not> strictFocus \<and> priority = ''critical'' then 0 else 1)"

definition rallyRank :: "bool \<Rightarrow> int" where
  "rallyRank inRally = (if inRally then 0 else 1)"

definition priorityRank :: "string \<Rightarrow> int" where
  "priorityRank p =
     (if p = ''critical'' then 0 else if p = ''high'' then 1 else if p = ''medium'' then 2
      else if p = ''low'' then 3 else maxInt)"

definition numericTaskID :: "string \<Rightarrow> int" where
  "numericTaskID tid = (case SplitTaskID tid of Some (_, n) \<Rightarrow> n | None \<Rightarrow> maxInt)"

definition rankCompare :: "bool \<Rightarrow> rank_input \<Rightarrow> rank_input \<Rightarrow> int" where
  "rankCompare strictFocus a b = cmpOr
     [cmpInt (rallyRank (ri_in_rally a)) (rallyRank (ri_in_rally b)),
      cmpInt (criticalRank (t_priority (ri_task a)) strictFocus)
             (criticalRank (t_priority (ri_task b)) strictFocus),
      cmpInt (concernRank (t_concern (ri_task a)) (ri_focus a))
             (concernRank (t_concern (ri_task b)) (ri_focus b)),
      cmpInt (priorityRank (t_priority (ri_task a))) (priorityRank (t_priority (ri_task b))),
      cmpInt (ri_fan_out b) (ri_fan_out a),
      cmpInt (t_created_at (ri_task a)) (t_created_at (ri_task b)),
      cmpInt (numericTaskID (t_id (ri_task a))) (numericTaskID (t_id (ri_task b)))]"

definition rankTasks :: "rank_input list \<Rightarrow> bool \<Rightarrow> task list" where
  "rankTasks ins strictFocus = map ri_task (sortStable (rankCompare strictFocus) ins)"

definition projectFocus :: "db \<Rightarrow> string \<Rightarrow> string list" where
  "projectFocus d projectID =
     (case row (\<lambda>p. p_id p = projectID) (projects d) of None \<Rightarrow> [] | Some p \<Rightarrow> p_focus p)"

definition rankedFrontier :: "db \<Rightarrow> string \<Rightarrow> string \<Rightarrow> bool \<Rightarrow> task list" where
  "rankedFrontier d projectID kind strictFocus =
     (let inRally = rallyMembers d
      in rankTasks (map (\<lambda>t. \<lparr> ri_task = t, ri_focus = projectFocus d (t_project t),
             ri_fan_out = int (fanOutOf d (t_id t)), ri_in_rally = t_id t \<in> set inRally \<rparr>)
           (readyCandidates d projectID kind)) strictFocus)"

definition Frontier :: "db \<Rightarrow> string \<Rightarrow> task list" where
  "Frontier d projectID = rankedFrontier d projectID [] False"

section \<open>ClaimNext\<close>

text \<open>Each attempt is a Claim of its own, under its own random external id.\<close>

fun claimFirst ::
  "int \<Rightarrow> (string \<Rightarrow> string) \<Rightarrow> string \<Rightarrow> string \<Rightarrow> int \<Rightarrow> string list \<Rightarrow> db \<Rightarrow>
     (err + (string \<times> lease option) option) \<times> db" where
  "claimFirst now extID actorID worktree ttl [] d = (Inr None, d)"
| "claimFirst now extID actorID worktree ttl (i # ids) d =
     (case Claim now (extID i) i actorID worktree ttl d of
        (Inr l, d') \<Rightarrow> (Inr (Some (i, l)), d')
      | (Inl e, d') \<Rightarrow>
          if e \<in> set [ErrLeased, ErrBlocked, ErrBadTransition]
          then claimFirst now extID actorID worktree ttl ids d'
          else (Inl e, d'))"

definition ClaimNext ::
  "int \<Rightarrow> (string \<Rightarrow> string) \<Rightarrow> string \<Rightarrow> string \<Rightarrow> bool \<Rightarrow> bool \<Rightarrow> string \<Rightarrow> string \<Rightarrow> int \<Rightarrow> db \<Rightarrow>
     (err + (string \<times> lease option) option) \<times> db" where
  "ClaimNext now extID projectID kind strictFocus dryRun worktree actorID ttl d =
     (let ranked = map t_id (rankedFrontier d projectID kind strictFocus)
      in if ranked = [] then (Inr None, d)
         else if dryRun then (Inr (Some (hd ranked, None)), d)
         else claimFirst now extID actorID worktree ttl ranked d)"

end
