(* ===== verification/RankingSpec.thy ===== *)
theory RankingSpec
  imports Ranking Rollup Samples
begin

text \<open>
  What the ranking promises: the order (rallies, then critical work, then the
  rest of the key), the meaning of rally membership and of fan-out as
  reachability, that a ready task passes every guard of a claim, what ClaimNext
  hands out; and the one place where two readers of "blocked" disagree.
\<close>

section \<open>The order\<close>

interpretation rankCmp: comparator "rankCompare strictFocus" for strictFocus
  unfolding rankCompare_def by (intro comparator_intros)

lemma cmpOr_le: "cmpOr (cmpInt x y # cs) \<le> 0 \<Longrightarrow> x \<le> y"
  by (auto simp: cmpInt_def split: if_splits)

lemma rankCompare_rally: "rankCompare s a b \<le> 0 \<Longrightarrow> ri_in_rally b \<Longrightarrow> ri_in_rally a"
  unfolding rankCompare_def by (drule cmpOr_le) (auto simp: rallyRank_def split: if_splits)

lemma rankCompare_critical:
  assumes "rankCompare s a b \<le> 0"
  shows "s \<or> ri_in_rally a \<noteq> ri_in_rally b \<or> t_priority (ri_task b) \<noteq> ''critical'' \<or>
     t_priority (ri_task a) = ''critical''"
proof (rule ccontr)
  assume "\<not> ?thesis"
  then have "\<not> s" "ri_in_rally a = ri_in_rally b" "t_priority (ri_task b) = ''critical''"
    "t_priority (ri_task a) \<noteq> ''critical''" by simp_all
  then have "rankCompare s a b = 1" by (simp add: rankCompare_def criticalRank_def cmpInt_def)
  then show False using assms by simp
qed

text \<open>RankTasks returns the tasks it was given, ordered by the documented
  key and stable on ties. In particular no member of an active rally comes
  after a task outside it, and by default no critical task comes after another
  one of the same rally standing that is not critical.\<close>

theorem ranking_order:
  "\<exists>ranked. rankTasks ins strictFocus = map ri_task ranked \<and> mset ranked = mset ins \<and>
     sorted_wrt (\<lambda>a b. rankCompare strictFocus a b \<le> 0 \<and>
        (\<not> ri_in_rally b \<or> ri_in_rally a) \<and>
        (strictFocus \<or> ri_in_rally a \<noteq> ri_in_rally b \<or> t_priority (ri_task b) \<noteq> ''critical'' \<or>
         t_priority (ri_task a) = ''critical'')) ranked \<and>
     (\<forall>k. filter (\<lambda>y. rankCompare strictFocus k y = 0) ranked =
          filter (\<lambda>y. rankCompare strictFocus k y = 0) ins)"
proof (intro exI conjI allI)
  let ?r = "sortStable (rankCompare strictFocus) ins"
  show "rankTasks ins strictFocus = map ri_task ?r" by (simp add: rankTasks_def)
  show "mset ?r = mset ins" by simp
  show "sorted_wrt (\<lambda>a b. rankCompare strictFocus a b \<le> 0 \<and> (\<not> ri_in_rally b \<or> ri_in_rally a) \<and>
      (strictFocus \<or> ri_in_rally a \<noteq> ri_in_rally b \<or> t_priority (ri_task b) \<noteq> ''critical'' \<or>
       t_priority (ri_task a) = ''critical'')) ?r"
    by (rule sorted_wrt_mono_rel[OF _ rankCmp.sorted_sortStable[of strictFocus]])
       (intro conjI; use rankCompare_rally[of strictFocus] rankCompare_critical[of strictFocus] in metis)
  show "filter (\<lambda>y. rankCompare strictFocus k y = 0) ?r = filter (\<lambda>y. rankCompare strictFocus k y = 0) ins"
    for k by (rule rankCmp.stable_sortStable)
qed

definition rankSample :: "rank_input list" where
  "rankSample =
     [\<lparr>ri_task = (sampleTask ''WL-10'' ''bug'' ''ready'')\<lparr>t_priority := ''critical''\<rparr>,
       ri_focus = [], ri_fan_out = 0, ri_in_rally = False\<rparr>,
      \<lparr>ri_task = sampleTask ''WL-9'' ''bug'' ''ready'',
       ri_focus = [], ri_fan_out = 0, ri_in_rally = True\<rparr>]"

theorem ranking_order_witness:
  "mset (rankTasks rankSample False) = mset (map ri_task rankSample)"
  using ranking_order[of rankSample False] by (metis mset_map)

section \<open>Rally membership and fan-out\<close>

lemma step_blockers: "stepRel (blockersOf d) = set (blockerRelation d)"
  by (auto simp: stepRel_def blockersOf_def intro!: image_eqI)

lemma trancl_snd: "(x, y) \<in> r\<^sup>+ \<Longrightarrow> y \<in> snd ` r"
  by (induction rule: trancl_induct) force+

text \<open>A task is in the rally exactly when it is reachable from an active
  rally over one or more open-blocker pairs, cycles included.\<close>

theorem rally_is_blocker_closure:
  "x \<in> set (rallyMembers d) \<longleftrightarrow>
     (\<exists>r\<in>set (tasks d). rallyActiveCondition r \<and> (t_id r, x) \<in> (set (blockerRelation d))\<^sup>+)"
proof -
  let ?B = "set (blockerRelation d)"
  let ?seeds = "concat (map (\<lambda>r. blockersOf d (t_id r)) (filter rallyActiveCondition (tasks d)))"
  have seeds: "set ?seeds = {y. \<exists>r\<in>set (tasks d). rallyActiveCondition r \<and> (t_id r, y) \<in> ?B}"
    unfolding step_blockers[symmetric] stepRel_def by auto
  have "set (rallyMembers d) = ?B\<^sup>* `` set ?seeds"
    unfolding rallyMembers_def
    by (subst recursiveUnion_reach) (auto simp: step_blockers dest: trancl_snd)
  then show ?thesis
    unfolding seeds by (auto simp: Image_iff trancl_unfold_left relcomp_unfold)
qed

definition rallyDb :: db where
  "rallyDb = sampleDb [sampleTask ''WL-1'' ''rally'' ''ready'', sampleTask ''WL-2'' ''bug'' ''ready'',
     sampleTask ''WL-3'' ''bug'' ''ready'']
     [sampleEdge ''WL-1'' ''WL-2'' ''dependsOn'', sampleEdge ''WL-2'' ''WL-3'' ''dependsOn'']"

theorem rally_is_blocker_closure_witness: "''WL-3'' \<in> set (rallyMembers rallyDb)"
proof -
  have r: "sampleTask ''WL-1'' ''rally'' ''ready'' \<in> set (tasks rallyDb)"
    "rallyActiveCondition (sampleTask ''WL-1'' ''rally'' ''ready'')" by code_simp+
  have "(''WL-1'', ''WL-2'') \<in> set (blockerRelation rallyDb)" "(''WL-2'', ''WL-3'') \<in> set (blockerRelation rallyDb)"
    by code_simp+
  then have "(t_id (sampleTask ''WL-1'' ''rally'' ''ready''), ''WL-3'') \<in> (set (blockerRelation rallyDb))\<^sup>+"
    by simp
  with r show ?thesis unfolding rally_is_blocker_closure by blast
qed

section \<open>Ready means claimable\<close>

text \<open>A task in the ready set passes every guard of Claim. For an existing
  actor the claim comes down to its last two steps, the transition to
  in_progress and the insertion of the lease.\<close>

theorem ready_passes_claim_guards:
  assumes "distinct (map t_id (tasks d))" "t \<in> set (readyCandidates d projectID kind)"
    and "a \<in> set (actors d)"
  shows "claimTx now (t_id t) a w ttl ev d =
     andThen (transitionKnown climbFuel now ev (t_id t) ''ready'' ''ready'' ''in_progress'' d)
       (insertLease now (now + ttl) (t_id t) a w)"
proof -
  have t: "t \<in> set (tasks d)" "t_state t = ''ready''" "live t" "\<not> hasChildren d (t_id t)"
    "t_kind t \<in> set (TaskKindsMatching Claimable)" "\<not> hasActiveLease d (t_id t)"
    and nb: "\<not> (\<exists>e\<in>set (task_edges d). e_from e = t_id t \<and> blockedCondition d e)"
      "\<not> planBlockedCondition d t"
    using assms(2) by (auto simp: readyCandidates_def)
  have row: "row (\<lambda>u. t_id u = t_id t \<and> live u) (tasks d) = Some t"
    using assms(1) t(1,3) by (intro row_unique_live) auto
  obtain pol where pol: "taskKindPolicy (t_kind t) = Inr pol" "Claimable pol"
    using t(5) by (auto simp: TaskKindsMatching_def taskKindPolicy_def split: option.splits)
  have "u = t" if "u \<in> set (tasks d)" "t_id u = t_id t" for u
    using distinct_map_inj[OF assms(1) that(1) t(1) that(2)] .
  then have "\<not> IsBlocked d (t_id t)" using nb unfolding IsBlocked_def by blast
  with row t pol assms(3) show ?thesis by (simp add: claimTx_def requireActor_def)
qed

lemma readyDb_ready:
  "sampleTask ''WL-3'' ''bug'' ''ready'' \<in> set (readyCandidates rallyDb ''wl'' ''bug,chore'')"
  by code_simp

theorem ready_passes_claim_guards_witness:
  "claimTx 9 ''WL-3'' ''ada'' ''/w'' 5 1 rallyDb =
     andThen (transitionKnown climbFuel 9 1 ''WL-3'' ''ready'' ''ready'' ''in_progress'' rallyDb)
       (insertLease 9 14 ''WL-3'' ''ada'' ''/w'')"
  using ready_passes_claim_guards[OF _ readyDb_ready, of "''ada''" 9 "''/w''" 5 1]
  by (simp add: rallyDb_def)

section \<open>ClaimNext\<close>

lemma Claim_fails: "Claim now x i a w ttl d = (Inl e, d') \<Longrightarrow> d' = burnId d"
  by (auto simp: Claim_def RecordEvent_def outcome_def split: if_splits option.splits sum.splits prod.splits)

lemma claimFirst_Some:
  "claimFirst now x a w ttl ids d = (Inr (Some (i, l)), d') \<Longrightarrow>
     \<exists>pre suf. ids = pre @ i # suf \<and>
       Claim now (x i) i a w ttl ((burnId ^^ length pre) d) = (Inr l, d') \<and>
       (\<forall>j<length pre. \<exists>e\<in>{ErrLeased, ErrBlocked, ErrBadTransition}.
          Claim now (x (pre ! j)) (pre ! j) a w ttl ((burnId ^^ j) d) = (Inl e, (burnId ^^ Suc j) d))"
proof (induction ids arbitrary: d)
  case (Cons k ids)
  show ?case
  proof (cases "Claim now (x k) k a w ttl d")
    case (Pair r d1)
    show ?thesis
    proof (cases r)
      case (Inr l')
      then have "k = i" "l' = l" "d1 = d'" using Cons.prems Pair by simp_all
      then show ?thesis using Pair Inr by (intro exI[of _ "[]"] exI[of _ ids]) simp
    next
      case (Inl e)
      then have e: "e \<in> {ErrLeased, ErrBlocked, ErrBadTransition}"
        and rest: "claimFirst now x a w ttl ids d1 = (Inr (Some (i, l)), d')"
        using Cons.prems Pair by (auto split: if_splits)
      have d1: "d1 = burnId d" using Claim_fails Pair Inl by blast
      obtain pre suf where ps: "ids = pre @ i # suf"
        "Claim now (x i) i a w ttl ((burnId ^^ length pre) (burnId d)) = (Inr l, d')"
        "\<And>j. j < length pre \<Longrightarrow> \<exists>e\<in>{ErrLeased, ErrBlocked, ErrBadTransition}.
          Claim now (x (pre ! j)) (pre ! j) a w ttl ((burnId ^^ j) (burnId d)) = (Inl e, (burnId ^^ Suc j) (burnId d))"
        using Cons.IH[OF rest[unfolded d1]] by blast
      have sh: "(burnId ^^ n) (burnId d) = (burnId ^^ Suc n) d" for n by (simp add: funpow_swap1)
      have "\<exists>e\<in>{ErrLeased, ErrBlocked, ErrBadTransition}.
          Claim now (x ((k # pre) ! j)) ((k # pre) ! j) a w ttl ((burnId ^^ j) d) = (Inl e, (burnId ^^ Suc j) d)"
        if "j < length (k # pre)" for j
      proof (cases j)
        case 0
        then show ?thesis using e Pair Inl d1 by auto
      next
        case (Suc j')
        then show ?thesis using ps(3)[of j'] that unfolding sh by auto
      qed
      then show ?thesis
        using ps(1,2) unfolding sh by (intro exI[of _ "k # pre"] exI[of _ suf]) simp
    qed
  qed
qed simp

text \<open>What ClaimNext hands out is the best ranked ready task whose claim did
  not lose: it is in the ready set, every task ranked before it was tried first
  and refused with ErrLeased, ErrBlocked or ErrBadTransition, and those
  attempts left nothing behind but burned ids.\<close>

theorem claim_next_takes_first:
  assumes "ClaimNext now x projectID kind s False w a ttl d = (Inr (Some (i, l)), d')"
  shows "\<exists>pre t suf. rankedFrontier d projectID kind s = pre @ t # suf \<and> t_id t = i \<and>
     t \<in> set (readyCandidates d projectID kind) \<and>
     Claim now (x i) i a w ttl ((burnId ^^ length pre) d) = (Inr l, d') \<and>
     (\<forall>j<length pre. fst (Claim now (x (t_id (pre ! j))) (t_id (pre ! j)) a w ttl ((burnId ^^ j) d))
        \<in> {Inl ErrLeased, Inl ErrBlocked, Inl ErrBadTransition})"
proof -
  let ?R = "rankedFrontier d projectID kind s"
  have "claimFirst now x a w ttl (map t_id ?R) d = (Inr (Some (i, l)), d')"
    using assms by (auto simp: ClaimNext_def Let_def split: if_splits)
  from claimFirst_Some[OF this] obtain ipre isuf where split: "map t_id ?R = ipre @ i # isuf"
    and c: "Claim now (x i) i a w ttl ((burnId ^^ length ipre) d) = (Inr l, d')"
    and lost: "\<forall>j<length ipre. \<exists>e\<in>{ErrLeased, ErrBlocked, ErrBadTransition}.
          Claim now (x (ipre ! j)) (ipre ! j) a w ttl ((burnId ^^ j) d) = (Inl e, (burnId ^^ Suc j) d)"
    by blast
  from split obtain pre t suf where R: "?R = pre @ t # suf" "map t_id pre = ipre" "t_id t = i"
    by (auto simp: map_eq_append_conv map_eq_Cons_conv)
  have "set ?R = set (readyCandidates d projectID kind)"
    by (simp add: rankedFrontier_def rankTasks_def Let_def image_comp comp_def)
  then have "t \<in> set (readyCandidates d projectID kind)" using R(1) by auto
  then show ?thesis using R c lost by (intro exI[of _ pre] exI[of _ t] exI[of _ suf]) force
qed

definition nextRun :: "(err + (string \<times> lease option) option) \<times> db" where
  "nextRun = ClaimNext 3000000 (\<lambda>i. ''x-'' @ i) ''wl'' [] False False ''/w'' ''ada'' 0 rallyDb"

theorem claim_next_takes_first_witness: "stateOf (snd nextRun) ''WL-3'' = Some ''in_progress''"
proof -
  have "(case fst nextRun of Inr (Some (i, l)) \<Rightarrow> i = ''WL-3'' | _ \<Rightarrow> False) \<and>
      stateOf (snd nextRun) ''WL-3'' = Some ''in_progress''" by code_simp
  then have "\<exists>l. fst nextRun = Inr (Some (''WL-3'', l))"
    and st: "stateOf (snd nextRun) ''WL-3'' = Some ''in_progress''"
    by (auto split: sum.splits option.splits)
  then obtain l where "nextRun = (Inr (Some (''WL-3'', l)), snd nextRun)" by (metis prod.collapse)
  from claim_next_takes_first[OF this[unfolded nextRun_def]] st show ?thesis by blast
qed

section \<open>Where the blocker readers disagree\<close>

definition samplePlan :: "int \<Rightarrow> int option \<Rightarrow> doc" where
  "samplePlan i del = \<lparr> d_id = i, d_project = ''wl'', d_kind = ''plan'', d_body = [], d_number = Some i, d_slug = ''p'',
     d_owner = None, d_created_by = None, d_status = ''accepted'', d_version = 1, d_generated_by_task = None,
     d_updated_at = 0, d_deleted_at = del, d_deleted_by = None, d_delete_justification = None \<rparr>"

definition deletedPlanDb :: db where
  "deletedPlanDb = (sampleDb [(sampleTask ''WL-1'' ''bug'' ''ready'')\<lparr>t_plan_doc := Some 1\<rparr>,
       (sampleTask ''WL-2'' ''bug'' ''ready'')\<lparr>t_plan_doc := Some 2\<rparr>] [])
     \<lparr>docs := [samplePlan 1 None, samplePlan 2 (Some 5)],
      doc_edges := [\<lparr>de_id = 1, de_type = ''blockedBy'', de_from = 1, de_to_doc = Some 2, de_to_rule = None\<rparr>]\<rparr>"

text \<open>A tombstoned plan still shows as blocking in the blocker listings. The
  plan of WL-1 is ordered after a plan that was deleted and still has an open
  task WL-2: openBlockers and blockerRelation name WL-2 as the blocker, while
  IsBlocked, which gates the claim, says WL-1 is not blocked, and the ready set
  offers it.\<close>

theorem deleted_plan_still_listed:
  "openBlockers deletedPlanDb ''WL-1'' = [''WL-2''] \<and>
   blockersOf deletedPlanDb ''WL-1'' = [''WL-2''] \<and>
   \<not> IsBlocked deletedPlanDb ''WL-1'' \<and>
   map t_id (readyCandidates deletedPlanDb ''wl'' []) = [''WL-1'', ''WL-2'']"
proof (intro conjI)
  show "openBlockers deletedPlanDb ''WL-1'' = [''WL-2'']" by code_simp
  show "blockersOf deletedPlanDb ''WL-1'' = [''WL-2'']" by code_simp
  show "\<not> IsBlocked deletedPlanDb ''WL-1''" by code_simp
  show "map t_id (readyCandidates deletedPlanDb ''wl'' []) = [''WL-1'', ''WL-2'']" by code_simp
qed

end
