(* ===== verification/Intake.thy ===== *)
theory Intake
  imports Rollup LeaseOps
begin

text \<open>
  Creating and editing tasks (internal/store/tasks.go): CreateTask,
  UpdateTaskFields with the retag rules of checkKindRetag, pinned skills,
  the plan link, due dates and the branch slug of a title; and the secret
  names a task may declare (internal/secrets/names.go). Two parameters stand
  for the Markdown library the bodies go through: \<open>nb\<close> is
  mdblocks.Normalize and \<open>alts\<close> the number of images EmptyAltImages
  finds. The inline_refs rows a title or body derives are another component's
  table and are left out.
\<close>

section \<open>Small gates\<close>

definition isDigit :: "char \<Rightarrow> bool" where
  "isDigit c \<longleftrightarrow> 48 \<le> (of_char c :: nat) \<and> (of_char c :: nat) \<le> 57"

definition isUpper :: "char \<Rightarrow> bool" where
  "isUpper c \<longleftrightarrow> 65 \<le> (of_char c :: nat) \<and> (of_char c :: nat) \<le> 90"

definition leapYear :: "nat \<Rightarrow> bool" where
  "leapYear y \<longleftrightarrow> y mod 4 = 0 \<and> (y mod 100 \<noteq> 0 \<or> y mod 400 = 0)"

definition daysIn :: "nat \<Rightarrow> nat \<Rightarrow> nat" where
  "daysIn m y =
     (if m = 2 then (if leapYear y then 29 else 28)
      else if m \<in> set [4, 6, 9, 11] then 30 else 31)"

text \<open>time.Parse of 2006-01-02 that formats back to the same string: four, two
  and two digits, a month of the year, a day of the month.\<close>

definition dateOk :: "string \<Rightarrow> bool" where
  "dateOk s \<longleftrightarrow>
     length s = 10 \<and> s ! 4 = CHR ''-'' \<and> s ! 7 = CHR ''-'' \<and>
     list_all isDigit (take 4 s @ take 2 (drop 5 s) @ drop 8 s) \<and>
     (case (digitsVal 0 (take 4 s), digitsVal 0 (take 2 (drop 5 s)), digitsVal 0 (drop 8 s)) of
        (Some y, Some m, Some dd) \<Rightarrow> 1 \<le> m \<and> m \<le> 12 \<and> 1 \<le> dd \<and> dd \<le> daysIn m y
      | _ \<Rightarrow> False)"

definition ValidDue :: "string \<Rightarrow> err + unit" where
  "ValidDue s = (if s = [] \<or> dateOk s then Inr () else Inl ErrInvalidInput)"

definition ValidConcern :: "string \<Rightarrow> bool" where
  "ValidConcern = ns_Set TaskConcerns"

definition loaderPrefixes :: "string list" where
  "loaderPrefixes = [''LD_'', ''DYLD_'']"

definition loaderNames :: "string list" where
  "loaderNames =
    [''PATH'', ''CDPATH'', ''IFS'', ''ENV'', ''BASH_ENV'', ''GCONV_PATH'', ''LOCPATH'', ''NLSPATH'',
     ''PYTHONPATH'', ''PYTHONHOME'', ''PYTHONSTARTUP'', ''NODE_OPTIONS'', ''NODE_PATH'',
     ''PERL5LIB'', ''PERLLIB'', ''PERL5OPT'', ''RUBYLIB'', ''RUBYOPT'', ''CLASSPATH'',
     ''JAVA_TOOL_OPTIONS'', ''JDK_JAVA_OPTIONS'']"

definition LoaderSensitive :: "string \<Rightarrow> bool" where
  "LoaderSensitive s \<longleftrightarrow>
     (\<exists>p\<in>set loaderPrefixes. dropPrefix p s \<noteq> None) \<or> s \<in> set loaderNames"

text \<open>The grammar \<open>^[A-Z][A-Z0-9_]*$\<close>.\<close>

definition nameOk :: "string \<Rightarrow> bool" where
  "nameOk s \<longleftrightarrow>
     s \<noteq> [] \<and> isUpper (hd s) \<and> list_all (\<lambda>c. isUpper c \<or> isDigit c \<or> c = CHR ''_'') s"

definition ValidName :: "string \<Rightarrow> bool" where
  "ValidName s \<longleftrightarrow> nameOk s \<and> \<not> LoaderSensitive s"

definition secretsJSON :: "string list \<Rightarrow> err + string list" where
  "secretsJSON names = (if list_all ValidName names then Inr names else Inl ErrInvalidInput)"

definition lintUsabilityAlt :: "(string \<Rightarrow> nat) \<Rightarrow> string \<Rightarrow> string \<Rightarrow> err + unit" where
  "lintUsabilityAlt alts concern body =
     (if concern \<noteq> ''usability'' \<or> body = [] then Inr ()
      else if alts body > 0 then Inl ErrInvalidInput else Inr ())"

section \<open>Pinned skills\<close>

definition maxTaskPins :: nat where
  "maxTaskPins = 20"

definition normalizePins :: "string list \<Rightarrow> err + string list" where
  "normalizePins skills =
     (let clean = firstSeen [] (filter (\<lambda>s. s \<noteq> []) (map trimSpace skills))
      in if length clean > maxTaskPins then Inl ErrInvalidInput else Inr clean)"

section \<open>Slugs\<close>

text \<open>strings.ToLower as far as the slug can tell: the only runes outside ASCII
  whose lower case is an ASCII letter are U+0130 and the Kelvin sign; every
  other byte stays a separator.\<close>

definition isLower :: "char \<Rightarrow> bool" where
  "isLower c \<longleftrightarrow> 97 \<le> (of_char c :: nat) \<and> (of_char c :: nat) \<le> 122"

fun lowerBytes :: "string \<Rightarrow> string" where
  "lowerBytes [] = []"
| "lowerBytes (c # s) =
     (if isUpper c then char_of ((of_char c :: nat) + 32) # lowerBytes s
      else if c = CHR 0xC4 \<and> s \<noteq> [] \<and> hd s = CHR 0xB0 then CHR ''i'' # lowerBytes (tl s)
      else if c = CHR 0xE2 \<and> length s \<ge> 2 \<and> hd s = CHR 0x84 \<and> hd (tl s) = CHR 0xAA
      then CHR ''k'' # lowerBytes (tl (tl s))
      else c # lowerBytes s)"

definition slugChar :: "char \<Rightarrow> bool" where
  "slugChar c \<longleftrightarrow> isLower c \<or> isDigit c"

text \<open>The builder is kept in writing order, as the source's is.\<close>

fun slugLoop :: "bool \<Rightarrow> string \<Rightarrow> string \<Rightarrow> string" where
  "slugLoop pendingDash b [] = b"
| "slugLoop pendingDash b (r # rs) =
     (if slugChar r
      then slugLoop False ((if pendingDash \<and> b \<noteq> [] then b @ ''-'' else b) @ [r]) rs
      else slugLoop True b rs)"

definition trimRightDash :: "string \<Rightarrow> string" where
  "trimRightDash s = rev (dropWhile (\<lambda>c. c = CHR ''-'') (rev s))"

definition SlugifyTitle :: "string \<Rightarrow> string" where
  "SlugifyTitle title =
     (let b = slugLoop False [] (lowerBytes title);
          s = (if length b > 40 then trimRightDash (take 40 b) else b)
      in if s = [] then ''task'' else s)"

section \<open>CreateTask\<close>

record task_input =
  in_project :: string
  in_title :: string
  in_body :: string
  in_priority :: string
  in_kind :: string
  in_concern :: string
  in_secrets :: "string list"
  in_created_by :: string
  in_draft :: bool
  in_skills :: "string list"
  in_due :: string
  in_plan_doc :: int
  in_plan_task_key :: string
  in_about_doc :: int
  in_about_anchor :: string

text \<open>The counter of the project, incremented: the key and the number taken.\<close>

definition allocTaskNum :: "string \<Rightarrow> db \<Rightarrow> (string \<times> nat \<times> db) option" where
  "allocTaskNum projectID d =
     (case row (\<lambda>p. p_id p = projectID) (projects d) of
        None \<Rightarrow> None
      | Some p \<Rightarrow> Some (p_key p, p_next_task_num p,
          d\<lparr>projects := updWhere (\<lambda>p. p_id p = projectID)
               (\<lambda>p. p\<lparr>p_next_task_num := p_next_task_num p + 1\<rparr>) (projects d)\<rparr>))"

definition docExists :: "db \<Rightarrow> int option \<Rightarrow> bool" where
  "docExists d i \<longleftrightarrow> (case i of None \<Rightarrow> True | Some j \<Rightarrow> docRow d j \<noteq> None)"

text \<open>The constraints of the tasks table the insert can run into, in the order
  PostgreSQL checks them: CHECK, unique, foreign key.\<close>

definition insertTask :: "task \<Rightarrow> db \<Rightarrow> err + db" where
  "insertTask t d =
     (if t_kind t \<notin> set TaskKinds then Inl (DBError ''tasks_kind_check'')
      else if (t_plan_doc t = None) \<noteq> (t_plan_task_key t = None)
      then Inl (DBError ''tasks_plan_task_key_with_plan_doc'')
      else if t_priority t \<notin> set TaskPriorities then Inl (DBError ''tasks_priority_check'')
      else if taskRow d (t_id t) \<noteq> None then Inl (DBError ''tasks_pkey'')
      else if rallyUniqueConflict t d then Inl ErrInvalidInput
      else if t_plan_doc t \<noteq> None \<and>
        (\<exists>u\<in>set (tasks d). t_plan_doc u = t_plan_doc t \<and> t_plan_task_key u = t_plan_task_key t)
      then Inl (DBError ''tasks_plan_task_key'')
      else if \<not> docExists d (t_about_doc t) then Inl (DBError ''tasks_about_doc_fkey'')
      else if t_created_by t \<noteq> None \<and> the (t_created_by t) \<notin> set (actors d)
      then Inl (DBError ''tasks_created_by_fkey'')
      else if \<not> docExists d (t_plan_doc t) then Inl (DBError ''tasks_plan_doc_fkey'')
      else Inr (d\<lparr>tasks := tasks d @ [t]\<rparr>))"

definition CreateTask ::
  "(string \<Rightarrow> string) \<Rightarrow> (string \<Rightarrow> nat) \<Rightarrow> int \<Rightarrow> task_input \<Rightarrow> int \<Rightarrow> db \<Rightarrow> err + task \<times> db" where
  "CreateTask nb alts now inp eventID d =
     (let body = nb (in_body inp) in
      if in_concern inp \<noteq> [] \<and> \<not> ValidConcern (in_concern inp) then Inl ErrInvalidInput
      else andThen (lintUsabilityAlt alts (in_concern inp) body) (\<lambda>_.
      andThen (ValidDue (in_due inp)) (\<lambda>_.
      andThen (normalizePins (in_skills inp)) (\<lambda>skills.
      case allocTaskNum (in_project inp) d of
        None \<Rightarrow> Inl ErrNotFound
      | Some (key, n, d1) \<Rightarrow>
          andThen (secretsJSON (in_secrets inp)) (\<lambda>secs.
          let tid = formatTaskID key n;
              st = (if in_draft inp then ''draft'' else ''ready'');
              t = \<lparr> t_id = tid, t_project = in_project inp, t_title = in_title inp, t_body = body,
                 t_priority = in_priority inp, t_kind = in_kind inp, t_state = st,
                 t_concern = nullText (in_concern inp), t_assignee = None,
                 t_needs_decomposition = False, t_human_only = False,
                 t_created_by = nullText (in_created_by inp), t_created_at = truncSec now,
                 t_updated_at = truncSec now, t_skills = skills, t_secrets = secs,
                 t_plan_doc = nullID (in_plan_doc inp),
                 t_plan_task_key = nullText (in_plan_task_key inp),
                 t_about_doc = nullID (in_about_doc inp),
                 t_about_anchor = nullText (in_about_anchor inp), t_deleted_at = None,
                 t_deleted_by = None, t_delete_justification = None, t_milestone = None,
                 t_due = nullText (in_due inp) \<rparr>
          in andThen (insertTask t d1) (\<lambda>d2.
             Inr (t, LogChange ''task'' tid eventID
                      (jfields [(''field'', ''state''), (''new'', st)]) d2)))))))"

section \<open>UpdateTaskFields\<close>

definition checkKindRetag :: "db \<Rightarrow> string \<Rightarrow> string \<Rightarrow> err + unit" where
  "checkKindRetag d tid kind =
     andThen (taskKindPolicy kind) (\<lambda>policy.
     case taskRow d tid of
       None \<Rightarrow> Inl ErrNotFound
     | Some t \<Rightarrow>
         andThen (taskKindPolicy (t_kind t)) (\<lambda>previous.
         if t_kind t = kind then Inr ()
         else if \<not> KindMutable previous \<or> \<not> KindMutable policy then Inl ErrInvalidInput
         else if \<not> AllowsChildren policy \<and> hasChildren d tid then Inl ErrInvalidInput
         else if \<not> Claimable policy \<and> hasActiveLease d tid then Inl ErrInvalidInput
         else if AllowsDecisions policy \<and> CanBlock policy \<and> kind \<noteq> ''rally'' then Inr ()
         else if kind = ''rally'' \<and> t_plan_doc t \<noteq> None then Inl ErrInvalidInput
         else if \<not> AllowsDecisions policy \<and> (\<exists>q\<in>set (decisions d). dc_task q = tid) then Inl ErrInvalidInput
         else if \<not> CanBlock policy \<and>
           (\<exists>e\<in>set (task_edges d). e_to e = tid \<and> e_type e = ''dependsOn'') then Inl ErrInvalidInput
         else Inr ()))"

text \<open>A nil pointer of the source is None. The cleared values of concern and
  milestone are the empty string and "none".\<close>

record patch =
  pa_title :: "string option"
  pa_body :: "string option"
  pa_priority :: "string option"
  pa_concern :: "string option"
  pa_secrets :: "string list option"
  pa_needs_decomposition :: "bool option"
  pa_human_only :: "bool option"
  pa_kind :: "string option"
  pa_milestone :: "string option"
  pa_due :: "string option"

definition noPatch :: patch where
  "noPatch = \<lparr> pa_title = None, pa_body = None, pa_priority = None, pa_concern = None,
     pa_secrets = None, pa_needs_decomposition = None, pa_human_only = None, pa_kind = None,
     pa_milestone = None, pa_due = None \<rparr>"

definition orNone :: "string \<Rightarrow> string option" where
  "orNone s = (if s = [] \<or> s = ''none'' then None else Some s)"

definition setOpt :: "'v option \<Rightarrow> ('v \<Rightarrow> 'r \<Rightarrow> 'r) \<Rightarrow> 'r \<Rightarrow> 'r" where
  "setOpt v f r = (case v of None \<Rightarrow> r | Some x \<Rightarrow> f x r)"

definition applyPatch :: "(string \<Rightarrow> string) \<Rightarrow> int \<Rightarrow> patch \<Rightarrow> task \<Rightarrow> task" where
  "applyPatch nb now p t =
     (setOpt (pa_title p) (\<lambda>v t. t\<lparr>t_title := v\<rparr>) \<circ>
      setOpt (pa_body p) (\<lambda>v t. t\<lparr>t_body := nb v\<rparr>) \<circ>
      setOpt (pa_priority p) (\<lambda>v t. t\<lparr>t_priority := v\<rparr>) \<circ>
      setOpt (pa_concern p) (\<lambda>v t. t\<lparr>t_concern := orNone v\<rparr>) \<circ>
      setOpt (pa_secrets p) (\<lambda>v t. t\<lparr>t_secrets := v\<rparr>) \<circ>
      setOpt (pa_needs_decomposition p) (\<lambda>v t. t\<lparr>t_needs_decomposition := v\<rparr>) \<circ>
      setOpt (pa_human_only p) (\<lambda>v t. t\<lparr>t_human_only := v\<rparr>) \<circ>
      setOpt (pa_due p) (\<lambda>v t. t\<lparr>t_due := nullText v\<rparr>) \<circ>
      setOpt (pa_kind p) (\<lambda>v t. t\<lparr>t_kind := v\<rparr>) \<circ>
      setOpt (pa_milestone p) (\<lambda>v t. t\<lparr>t_milestone := orNone v\<rparr>)) (t\<lparr>t_updated_at := now\<rparr>)"

text \<open>A gate on a field that runs only when the field is given.\<close>

definition given :: "'v option \<Rightarrow> ('v \<Rightarrow> err + unit) \<Rightarrow> err + unit" where
  "given v f = (case v of None \<Rightarrow> Inr () | Some x \<Rightarrow> f x)"

definition require :: "bool \<Rightarrow> err + unit" where
  "require b = (if b then Inr () else Inl ErrInvalidInput)"

definition checkMilestone :: "db \<Rightarrow> string \<Rightarrow> string \<Rightarrow> err + unit" where
  "checkMilestone d tid m =
     (if orNone m = None then Inr ()
      else case row (\<lambda>x. ml_id x = m) (milestones d) of
        None \<Rightarrow> Inl ErrInvalidInput
      | Some x \<Rightarrow>
          (case taskRow d tid of
             None \<Rightarrow> Inl ErrNotFound
           | Some t \<Rightarrow> require (ml_project x = t_project t)))"

definition checkBody :: "(string \<Rightarrow> string) \<Rightarrow> (string \<Rightarrow> nat) \<Rightarrow> db \<Rightarrow> string \<Rightarrow> string option \<Rightarrow> string \<Rightarrow> err + unit" where
  "checkBody nb alts d tid concern body =
     (case concern of
        Some c \<Rightarrow> lintUsabilityAlt alts c (nb body)
      | None \<Rightarrow>
          (case taskRow d tid of
             None \<Rightarrow> Inl ErrNotFound
           | Some t \<Rightarrow> lintUsabilityAlt alts (case t_concern t of None \<Rightarrow> [] | Some c \<Rightarrow> c) (nb body)))"

definition UpdateTaskFields ::
  "(string \<Rightarrow> string) \<Rightarrow> (string \<Rightarrow> nat) \<Rightarrow> int \<Rightarrow> string \<Rightarrow> patch \<Rightarrow> db \<Rightarrow> err + db" where
  "UpdateTaskFields nb alts now tid p d =
     andThen (given (pa_due p) ValidDue) (\<lambda>_.
     andThen (given (pa_title p) (\<lambda>v. require (trimSpace v \<noteq> []))) (\<lambda>_.
     andThen (given (pa_priority p) (\<lambda>v. require (ns_Set TaskPriorities v))) (\<lambda>_.
     andThen (given (pa_concern p) (\<lambda>v. require (orNone v = None \<or> ValidConcern v))) (\<lambda>_.
     andThen (given (pa_kind p) (\<lambda>v. andThen (require (ns_Set TaskKinds v)) (\<lambda>_. checkKindRetag d tid v))) (\<lambda>_.
     andThen (given (pa_milestone p) (checkMilestone d tid)) (\<lambda>_.
     andThen (given (pa_body p) (checkBody nb alts d tid (pa_concern p))) (\<lambda>_.
     andThen (given (pa_secrets p) (\<lambda>v. andThen (secretsJSON v) (\<lambda>_. Inr ()))) (\<lambda>_.
     case taskRow d tid of
       None \<Rightarrow> Inl ErrNotFound
     | Some t \<Rightarrow> putTask tid (applyPatch nb now p) d))))))))"

section \<open>Pins and the plan link\<close>

definition SetTaskSkills :: "int \<Rightarrow> string \<Rightarrow> string list \<Rightarrow> db \<Rightarrow> err + db" where
  "SetTaskSkills now tid skills d =
     andThen (normalizePins skills) (\<lambda>clean.
     case taskRow d tid of
       None \<Rightarrow> Inl ErrNotFound
     | Some t \<Rightarrow> Inr (updTask tid (\<lambda>t. t\<lparr>t_skills := clean, t_updated_at := now\<rparr>) d))"

definition SetTaskPlan :: "int \<Rightarrow> string \<Rightarrow> int \<Rightarrow> int \<Rightarrow> db \<Rightarrow> err + db" where
  "SetTaskPlan now tid planDoc eventID d =
     (case taskRow d tid of
        None \<Rightarrow> Inl ErrNotFound
      | Some t \<Rightarrow>
          if t_plan_doc t = Some planDoc then Inr d
          else if t_plan_doc t \<noteq> None then Inl ErrInvalidInput
          else case docRow d planDoc of
            None \<Rightarrow> Inl ErrInvalidInput
          | Some x \<Rightarrow>
              if d_kind x \<noteq> ''plan'' then Inl ErrInvalidInput
              else if d_project x \<noteq> t_project t then Inl ErrInvalidInput
              else if \<exists>u\<in>set (tasks d). t_id u \<noteq> tid \<and> t_plan_doc u = Some planDoc \<and>
                        t_plan_task_key u = Some (t_title t) then Inl ErrInvalidInput
              else Inr (LogChange ''task'' tid eventID
                     (JObj [(''field'', JStr ''plan_doc''), (''new'', JInt planDoc)])
                     (updTask tid (\<lambda>t. t\<lparr>t_plan_doc := Some planDoc,
                        t_plan_task_key := Some (t_title t), t_updated_at := now\<rparr>) d)))"

end
