(* ===== verification/Ownership.thy ===== *)
theory Ownership
  imports Intake
begin

text \<open>
  Who works on a task without a lease (internal/store/assign.go): AssignTask,
  UnassignTask, StartTask, StopTask and the crew check; and soft delete
  (internal/store/softdelete.go): DeleteTask, UndeleteTask, DeleteDoc,
  UndeleteDoc.
\<close>

section \<open>Assignment\<close>

definition lockTaskOwnership :: "db \<Rightarrow> string \<Rightarrow> err + string \<times> string \<times> string" where
  "lockTaskOwnership d tid =
     (case taskRow d tid of
        None \<Rightarrow> Inl ErrNotFound
      | Some t \<Rightarrow> Inr (t_project t, t_state t, case t_assignee t of None \<Rightarrow> [] | Some a \<Rightarrow> a))"

definition requireCrewMember :: "db \<Rightarrow> string \<Rightarrow> string \<Rightarrow> err + unit" where
  "requireCrewMember d projectID actorID =
     (if (projectID, actorID) \<in> set (participants d) then Inr () else Inl ErrInvalidInput)"

definition isCrewMember :: "db \<Rightarrow> string \<Rightarrow> string \<Rightarrow> err + bool" where
  "isCrewMember d projectID actorID =
     (case requireCrewMember d projectID actorID of
        Inl e \<Rightarrow> if e = ErrInvalidInput then Inr False else Inl e
      | Inr _ \<Rightarrow> Inr True)"

definition assigneeChange :: "string \<Rightarrow> string \<Rightarrow> json" where
  "assigneeChange old new = jfields [(''field'', ''assignee''), (''old'', old), (''new'', new)]"

definition setAssignee :: "int \<Rightarrow> string \<Rightarrow> string option \<Rightarrow> db \<Rightarrow> db" where
  "setAssignee now tid a d = updTask tid (\<lambda>t. t\<lparr>t_assignee := a, t_updated_at := now\<rparr>) d"

definition AssignTask :: "int \<Rightarrow> string \<Rightarrow> string \<Rightarrow> int \<Rightarrow> db \<Rightarrow> err + db" where
  "AssignTask now tid assignee eventID d =
     andThen (requireActor d assignee) (\<lambda>_.
     andThen (lockTaskOwnership d tid) (\<lambda>(project, st, prev).
     andThen (requireCrewMember d project assignee) (\<lambda>_.
     if hasChildren d tid then Inl ErrInvalidInput
     else if deliveredStateSet st then Inl ErrInvalidInput
     else Inr (LogChange ''task'' tid eventID (assigneeChange prev assignee)
            (setAssignee now tid (Some assignee) d)))))"

definition UnassignTask :: "int \<Rightarrow> string \<Rightarrow> int \<Rightarrow> db \<Rightarrow> err + db" where
  "UnassignTask now tid eventID d =
     andThen (lockTaskOwnership d tid) (\<lambda>(_, st, prev).
     if deliveredStateSet st then Inl ErrInvalidInput
     else Inr (LogChange ''task'' tid eventID (assigneeChange prev [])
            (setAssignee now tid None d)))"

definition StartTask :: "int \<Rightarrow> string \<Rightarrow> string \<Rightarrow> int \<Rightarrow> db \<Rightarrow> err + string \<times> db" where
  "StartTask now tid actorID eventID d =
     andThen (requireActor d actorID) (\<lambda>_.
     andThen (lockTaskOwnership d tid) (\<lambda>(project, st, assignee).
     andThen (requireCrewMember d project actorID) (\<lambda>_.
     if hasChildren d tid then Inl ErrInvalidInput
     else if deliveredStateSet st then Inl ErrInvalidInput
     else if assignee \<noteq> [] \<and> assignee \<noteq> actorID then Inl ErrInvalidInput
     else if IsBlocked d tid then Inl ErrInvalidInput
     else
       let (settled, d1) =
         (if assignee = []
          then (actorID, LogChange ''task'' tid eventID (assigneeChange [] actorID)
                           (setAssignee now tid (Some actorID) d))
          else (assignee, d))
       in andThen (transitionKnown climbFuel now eventID tid st ''ready'' ''in_progress'' d1)
            (\<lambda>d2. Inr (settled, d2)))))"

definition StopTask :: "int \<Rightarrow> string \<Rightarrow> string \<Rightarrow> int \<Rightarrow> db \<Rightarrow> err + db" where
  "StopTask now tid actorID eventID d =
     andThen (lockTaskOwnership d tid) (\<lambda>(_, st, assignee).
     if st \<noteq> ''in_progress'' then Inl ErrInvalidInput
     else if assignee \<noteq> actorID then Inl ErrInvalidInput
     else if hasActiveLease d tid then Inl ErrInvalidInput
     else transitionKnown climbFuel now eventID tid st ''in_progress'' ''ready'' d)"

section \<open>Tombstones\<close>

definition lockTaskTombstone :: "db \<Rightarrow> string \<Rightarrow> err + bool \<times> string" where
  "lockTaskTombstone d tid =
     (case taskRow d tid of
        None \<Rightarrow> Inl ErrNotFound | Some t \<Rightarrow> Inr (t_deleted_at t \<noteq> None, t_state t))"

definition lockDocTombstone :: "db \<Rightarrow> int \<Rightarrow> err + bool" where
  "lockDocTombstone d i =
     (case docRow d i of None \<Rightarrow> Inl ErrNotFound | Some x \<Rightarrow> Inr (d_deleted_at x \<noteq> None))"

definition deletedChange :: "string \<Rightarrow> json" where
  "deletedChange justification = jfields [(''field'', ''deleted''), (''old'', ''false''),
     (''new'', ''true''), (''justification'', justification)]"

definition undeletedChange :: json where
  "undeletedChange = jfields [(''field'', ''deleted''), (''old'', ''true''), (''new'', ''false'')]"

definition DeleteTask :: "int \<Rightarrow> string \<Rightarrow> string \<Rightarrow> string \<Rightarrow> int \<Rightarrow> db \<Rightarrow> err + db" where
  "DeleteTask now tid actorID justification eventID d =
     andThen (requireActor d actorID) (\<lambda>_.
     andThen (lockTaskTombstone d tid) (\<lambda>(deleted, st).
     if deleted then Inl ErrInvalidInput
     else
       let d1 = updTask tid (\<lambda>t. t\<lparr>t_deleted_at := Some now, t_deleted_by := Some actorID,
                  t_delete_justification := nullText justification, t_updated_at := now\<rparr>) d;
           d2 = CloseActiveLease now tid d1;
           d3 = LogChange ''task'' tid eventID (deletedChange justification) d2
       in andThen (if st = ''in_progress''
                   then transitionKnown climbFuel now eventID tid st ''in_progress'' ''ready'' d3
                   else Inr d3) (\<lambda>d4.
          andThen (settlePlan now tid eventID d4) (\<lambda>d5.
          resolveParent now tid eventID d5))))"

definition UndeleteTask :: "int \<Rightarrow> string \<Rightarrow> int \<Rightarrow> db \<Rightarrow> err + db" where
  "UndeleteTask now tid eventID d =
     andThen (lockTaskTombstone d tid) (\<lambda>(deleted, _).
     if \<not> deleted then Inl ErrInvalidInput
     else andThen (putTask tid (\<lambda>t. t\<lparr>t_deleted_at := None, t_deleted_by := None,
                     t_delete_justification := None, t_updated_at := now\<rparr>) d) (\<lambda>d1.
          resolveParent now tid eventID (LogChange ''task'' tid eventID undeletedChange d1)))"

definition updDoc :: "int \<Rightarrow> (doc \<Rightarrow> doc) \<Rightarrow> db \<Rightarrow> db" where
  "updDoc i f d = d\<lparr>docs := updWhere (\<lambda>x. d_id x = i) f (docs d)\<rparr>"

definition DeleteDoc :: "int \<Rightarrow> int \<Rightarrow> string \<Rightarrow> string \<Rightarrow> int \<Rightarrow> db \<Rightarrow> err + db" where
  "DeleteDoc now i actorID justification eventID d =
     andThen (requireActor d actorID) (\<lambda>_.
     andThen (lockDocTombstone d i) (\<lambda>deleted.
     if deleted then Inl ErrInvalidInput
     else Inr (logDocChange i eventID (deletedChange justification)
            (updDoc i (\<lambda>x. x\<lparr>d_deleted_at := Some now, d_deleted_by := Some actorID,
               d_delete_justification := nullText justification, d_updated_at := now\<rparr>) d))))"

definition UndeleteDoc :: "int \<Rightarrow> int \<Rightarrow> int \<Rightarrow> db \<Rightarrow> err + db" where
  "UndeleteDoc now i eventID d =
     andThen (lockDocTombstone d i) (\<lambda>deleted.
     if \<not> deleted then Inl ErrInvalidInput
     else Inr (logDocChange i eventID undeletedChange
            (updDoc i (\<lambda>x. x\<lparr>d_deleted_at := None, d_deleted_by := None,
               d_delete_justification := None, d_updated_at := now\<rparr>) d)))"

end
