(* ===== verification/Splitting.thy ===== *)
theory Splitting
  imports Ownership
begin

text \<open>
  Operations that create tasks and edges together: Decompose
  (internal/store/hierarchy.go), and the draft rally and its members
  (internal/store/rally.go EnsureDraftRally, AddRallyMembers). The two
  parameters of CreateTask are passed through.
\<close>

section \<open>Decompose\<close>

definition trimTitles :: "string list \<Rightarrow> err + string list" where
  "trimTitles titles =
     (if titles = [] then Inl ErrInvalidInput
      else let ts = map trimSpace titles
           in if [] \<in> set ts then Inl ErrInvalidInput else Inr ts)"

definition childInput :: "task \<Rightarrow> string \<Rightarrow> string \<Rightarrow> task_input" where
  "childInput p createdBy title = \<lparr> in_project = t_project p, in_title = title, in_body = [],
     in_priority = t_priority p, in_kind = t_kind p,
     in_concern = (case t_concern p of None \<Rightarrow> [] | Some c \<Rightarrow> c), in_secrets = [],
     in_created_by = createdBy, in_draft = True, in_skills = [], in_due = [], in_plan_doc = 0,
     in_plan_task_key = [], in_about_doc = 0, in_about_anchor = [] \<rparr>"

definition addChild ::
  "(string \<Rightarrow> string) \<Rightarrow> (string \<Rightarrow> nat) \<Rightarrow> int \<Rightarrow> task \<Rightarrow> string \<Rightarrow> int \<Rightarrow> string \<Rightarrow>
     task list \<times> db \<Rightarrow> err + task list \<times> db" where
  "addChild nb alts now p createdBy eventID title = (\<lambda>(cs, d).
     andThen (CreateTask nb alts now (childInput p createdBy title) eventID d) (\<lambda>(c, d1).
     andThen (AddEdge now (t_id c) (t_id p) ''childOf'' eventID d1) (\<lambda>d2.
     Inr (cs @ [c], d2))))"

definition Decompose ::
  "(string \<Rightarrow> string) \<Rightarrow> (string \<Rightarrow> nat) \<Rightarrow> int \<Rightarrow> string \<Rightarrow> string list \<Rightarrow> string \<Rightarrow> int \<Rightarrow>
     db \<Rightarrow> err + task list \<times> db" where
  "Decompose nb alts now parentID titles createdBy eventID d =
     andThen (trimTitles titles) (\<lambda>trimmed.
     case taskRow d parentID of
       None \<Rightarrow> Inl ErrNotFound
     | Some p \<Rightarrow>
         if containerForbiddenStates (t_state p) then Inl ErrBadTransition
         else andThen (taskKindPolicy (t_kind p)) (\<lambda>policy.
           if \<not> AllowsChildren policy then Inl ErrInvalidInput
           else if hasChildren d parentID then Inl ErrInvalidInput
           else if hasActiveLease d parentID then Inl ErrLeased
           else if ancestorHops d parentID + 1 > maxHierarchyDepth then Inl ErrInvalidInput
           else
             let d1 = updTask parentID
                        (\<lambda>t. t\<lparr>t_needs_decomposition := False, t_updated_at := now\<rparr>) d;
                 d2 = (if t_needs_decomposition p
                       then LogChange ''task'' parentID eventID
                              (jfields [(''field'', ''needs_decomposition''), (''old'', ''true''),
                                        (''new'', ''false'')]) d1
                       else d1)
             in andThen (foldE (addChild nb alts now p createdBy eventID) trimmed ([], d2))
                  (\<lambda>(children, d3).
                andThen (ResolveHierarchy now parentID eventID d3) (\<lambda>d4. Inr (children, d4)))))"

section \<open>The draft rally\<close>

text \<open>time.DateOnly of an instant in UTC: the civil date of its day number.\<close>

definition civilDate :: "int \<Rightarrow> int \<times> int \<times> int" where
  "civilDate day =
     (let z = day + 719468;
          era = z div 146097;
          doe = z mod 146097;
          yoe = (doe - doe div 1460 + doe div 36524 - doe div 146096) div 365;
          doy = doe - (365 * yoe + yoe div 4 - yoe div 100);
          mp = (5 * doy + 2) div 153;
          dd = doy - (153 * mp + 2) div 5 + 1;
          m = (if mp < 10 then mp + 3 else mp - 9)
      in (yoe + era * 400 + (if m \<le> 2 then 1 else 0), m, dd))"

definition padTo :: "nat \<Rightarrow> int \<Rightarrow> string" where
  "padTo n i = replicate (n - length (natStr (nat i))) (CHR ''0'') @ natStr (nat i)"

definition dateOnly :: "int \<Rightarrow> string" where
  "dateOnly now = (case civilDate (now div 86400000000) of (y, m, dd) \<Rightarrow>
     padTo 4 y @ ''-'' @ padTo 2 m @ ''-'' @ padTo 2 dd)"

definition EnsureDraftRally ::
  "(string \<Rightarrow> string) \<Rightarrow> (string \<Rightarrow> nat) \<Rightarrow> int \<Rightarrow> string \<Rightarrow> string \<Rightarrow> int \<Rightarrow> db \<Rightarrow> err + task \<times> db" where
  "EnsureDraftRally nb alts now projectID actorID eventID d =
     (case row (\<lambda>t. t_project t = projectID \<and> rallyDraftCondition t) (tasks d) of
        Some t \<Rightarrow> Inr (t, d)
      | None \<Rightarrow> CreateTask nb alts now
          \<lparr> in_project = projectID, in_title = ''Rally '' @ dateOnly now, in_body = [],
            in_priority = ''medium'', in_kind = ''rally'', in_concern = [], in_secrets = [],
            in_created_by = actorID, in_draft = True, in_skills = [], in_due = [],
            in_plan_doc = 0, in_plan_task_key = [], in_about_doc = 0, in_about_anchor = [] \<rparr>
          eventID d)"

text \<open>The ids already in the rally are read first; an error keeps none of the
  edges (the caller's transaction rolls back).\<close>

definition AddRallyMembers :: "int \<Rightarrow> string \<Rightarrow> string list \<Rightarrow> int \<Rightarrow> db \<Rightarrow> err + nat \<times> db" where
  "AddRallyMembers now rallyID taskIDs eventID d =
     (let seen = map e_to (filter (\<lambda>e. e_from e = rallyID \<and> e_type e = ''dependsOn'' \<and>
                                       e_to e \<in> set taskIDs) (task_edges d));
          new = firstSeen seen taskIDs
      in andThen (foldE (\<lambda>i d. AddEdge now rallyID i ''dependsOn'' eventID d) new d) (\<lambda>d'.
         Inr (length new, d')))"

lemma civilDate_epoch: "civilDate 0 = (1970, 1, 1)" "civilDate 19782 = (2024, 2, 29)"
  by code_simp+

end
