(* ===== verification/IntakeSpec.thy ===== *)
theory IntakeSpec
  imports Splitting Samples
begin

text \<open>
  What the text filters of task creation promise: the shape of a branch slug
  (SlugifyTitle) and clean pin lists (normalizePins).
\<close>

section \<open>Slugs\<close>

definition noDoubleDash :: "string \<Rightarrow> bool" where
  "noDoubleDash = successively (\<lambda>a b. \<not> (a = CHR ''-'' \<and> b = CHR ''-''))"

definition slugShape :: "string \<Rightarrow> bool" where
  "slugShape s \<longleftrightarrow> (\<forall>c\<in>set s. slugChar c \<or> c = CHR ''-'') \<and> noDoubleDash s \<and>
     (s = [] \<or> hd s \<noteq> CHR ''-'' \<and> last s \<noteq> CHR ''-'')"

lemma slugChar_dash [simp]: "\<not> slugChar (CHR ''-'')"
  by (simp add: slugChar_def isLower_def isDigit_def)

lemma slugShape_snoc:
  assumes "slugShape b" "slugChar r" shows "slugShape (b @ [r])"
proof -
  have r: "r \<noteq> CHR ''-''" using assms(2) slugChar_dash by metis
  show ?thesis
    using assms r successively_append_iff[of _ b "[r]"] hd_append2[of b "[r]"]
    unfolding slugShape_def noDoubleDash_def by (cases "b = []") auto
qed

lemma slugShape_dash_snoc:
  assumes "slugShape b" "slugChar r" "b \<noteq> []" shows "slugShape (b @ ''-'' @ [r])"
proof -
  have r: "r \<noteq> CHR ''-''" using assms(2) slugChar_dash by metis
  have "successively (\<lambda>a b. \<not> (a = CHR ''-'' \<and> b = CHR ''-'')) (b @ ''-'' @ [r])"
    using assms r unfolding successively_append_iff slugShape_def noDoubleDash_def by simp
  then show ?thesis
    using assms r hd_append2[of b "''-'' @ [r]"] unfolding slugShape_def noDoubleDash_def by auto
qed

lemma slugShape_extend:
  "slugShape b \<Longrightarrow> slugChar r \<Longrightarrow>
   slugShape ((if p \<and> b \<noteq> [] then b @ ''-'' else b) @ [r])"
  using slugShape_snoc[of b r] slugShape_dash_snoc[of b r] by simp

lemma slugLoop_shape: "slugShape b \<Longrightarrow> slugShape (slugLoop p b rs)"
proof (induction p b rs rule: slugLoop.induct)
  case (2 p b r rs)
  show ?case
  proof (cases "slugChar r")
    case True
    then show ?thesis using "2.IH"(1)[OF True slugShape_extend[OF "2.prems" True]] by (simp only: slugLoop.simps if_True)
  next
    case False
    then show ?thesis using "2.IH"(2)[OF False "2.prems"] by (simp only: slugLoop.simps if_False)
  qed
qed simp

lemma trimRightDash_prefix: "\<exists>n. trimRightDash s = take n s"
proof -
  have "s = trimRightDash s @ rev (takeWhile (\<lambda>c. c = CHR ''-'') (rev s))"
    unfolding trimRightDash_def by (metis rev_append rev_rev_ident takeWhile_dropWhile_id)
  then show ?thesis by (metis append_eq_conv_conj)
qed

lemma slugShape_take:
  assumes "slugShape s" shows "slugShape (trimRightDash (take n s))"
proof -
  obtain m where m: "trimRightDash (take n s) = take m s"
    using trimRightDash_prefix[of "take n s"] by (metis take_take)
  have "last (trimRightDash (take n s)) \<noteq> CHR ''-''" if "trimRightDash (take n s) \<noteq> []"
    using that hd_dropWhile[of "\<lambda>c. c = CHR ''-''" "rev (take n s)"]
    by (simp add: trimRightDash_def last_rev)
  moreover have "noDoubleDash (take m s)"
    using assms append_take_drop_id[of m s]
    unfolding slugShape_def noDoubleDash_def by (metis successively_append_iff)
  ultimately show ?thesis
    using assms unfolding m slugShape_def by (cases s; cases m) (auto dest: in_set_takeD)
qed

lemma slugLoop_id:
  "\<forall>c\<in>set s. slugChar c \<or> c = CHR ''-'' \<Longrightarrow> noDoubleDash s \<Longrightarrow> s = [] \<or> last s \<noteq> CHR ''-'' \<Longrightarrow>
     b \<noteq> [] \<or> s = [] \<or> hd s \<noteq> CHR ''-'' \<Longrightarrow> slugLoop False b s = b @ s"
proof (induction s arbitrary: b rule: length_induct)
  case (1 s)
  show ?case
  proof (cases s)
    case (Cons c s')
    show ?thesis
    proof (cases "slugChar c")
      case True
      then show ?thesis using 1 Cons by (auto simp: noDoubleDash_def successively_Cons split: if_splits)
    next
      case False
      then have c: "c = CHR ''-''" "b \<noteq> []" using 1(2,5) Cons by auto
      obtain r s'' where s': "s' = r # s''" using 1(4) Cons c by (cases s') auto
      have r: "slugChar r" "noDoubleDash s''" using 1(2,3) Cons c s'
        by (auto simp: noDoubleDash_def successively_Cons)
      have "slugLoop False (b @ ''-'' @ [r]) s'' = (b @ ''-'' @ [r]) @ s''"
        using 1 Cons s' r(2) by (auto split: if_splits)
      then show ?thesis using Cons s' c r(1) False by simp
    qed
  qed simp
qed

lemma lowerBytes_id: "\<forall>c\<in>set s. slugChar c \<or> c = CHR ''-'' \<Longrightarrow> lowerBytes s = s"
proof (induction s)
  case (Cons c s)
  have "\<not> isUpper c" "c \<noteq> CHR 0xC4" "c \<noteq> CHR 0xE2"
    using Cons.prems by (auto simp: slugChar_def isLower_def isDigit_def isUpper_def)
  then show ?case using Cons by simp
qed simp

lemma SlugifyTitle_shape:
  "slugShape (SlugifyTitle t)" "SlugifyTitle t \<noteq> []" "length (SlugifyTitle t) \<le> 40"
proof -
  have b: "slugShape (slugLoop False [] (lowerBytes t))"
    by (rule slugLoop_shape) (simp add: slugShape_def noDoubleDash_def)
  have "slugShape ''task''" by code_simp
  then show "slugShape (SlugifyTitle t)"
    using b slugShape_take[OF b, of 40] by (auto simp: SlugifyTitle_def Let_def)
  show "SlugifyTitle t \<noteq> []" by (auto simp: SlugifyTitle_def Let_def)
  have "length (trimRightDash (take 40 s)) \<le> 40" for s
    using trimRightDash_prefix[of "take 40 s"] by auto
  then show "length (SlugifyTitle t) \<le> 40" by (auto simp: SlugifyTitle_def Let_def)
qed

text \<open>A branch slug is a safe path component: at most 40 characters, only
  lower-case letters, digits and single dashes, starting and ending with
  neither; never empty; and a slug is its own slug.\<close>

theorem slug_shape:
  "slugShape (SlugifyTitle t) \<and> SlugifyTitle t \<noteq> [] \<and> length (SlugifyTitle t) \<le> 40 \<and>
   SlugifyTitle (SlugifyTitle t) = SlugifyTitle t"
proof -
  let ?s = "SlugifyTitle t"
  have "slugLoop False [] (lowerBytes ?s) = ?s"
    using SlugifyTitle_shape[of t] lowerBytes_id[of ?s] slugLoop_id[of ?s "[]"]
    by (auto simp: slugShape_def)
  then have "SlugifyTitle ?s = ?s"
    using SlugifyTitle_shape(2,3)[of t] by (simp add: SlugifyTitle_def[of ?s] Let_def)
  then show ?thesis using SlugifyTitle_shape by blast
qed

section \<open>Pins\<close>

lemma dropPrefix_None: "dropPrefix q s = None \<longleftrightarrow> (\<forall>r. s \<noteq> q @ r)"
  by (metis dropPrefix_Some dropPrefix_append not_Some_eq)

lemma stripOne_None: "stripOne qs s = None \<longleftrightarrow> (\<forall>q\<in>set qs. \<forall>r. s \<noteq> q @ r)"
proof (induction qs s rule: stripOne.induct)
  case (2 q qs s)
  show ?case
  proof (cases "dropPrefix q s")
    case None
    then show ?thesis using 2 dropPrefix_None[of q s] by simp
  next
    case (Some r)
    then show ?thesis using dropPrefix_Some[OF Some] by auto
  qed
qed simp

lemma stripLeading_none: "stripOne qs s = None \<Longrightarrow> stripLeading qs s = s"
  by (subst stripLeading.simps) auto

lemma trimSpace_idem [simp]: "trimSpace (trimSpace s) = trimSpace s"
proof -
  let ?u = "stripLeading spaceSeqs s" and ?rs = "map rev spaceSeqs"
  let ?v = "stripLeading ?rs (rev ?u)"
  have ne: "[] \<notin> set spaceSeqs" "[] \<notin> set ?rs" by (auto simp: spaceSeqs_def)
  obtain w where "rev ?u = w @ ?v" using stripLeading_suffix by metis
  then have "?u = rev ?v @ rev w" by (metis rev_append rev_rev_ident)
  moreover have "stripOne spaceSeqs ?u = None" by (rule stripLeading_fix[OF ne(1)])
  ultimately have "stripOne spaceSeqs (rev ?v) = None"
    unfolding stripOne_None by (metis append_assoc)
  moreover have "stripOne ?rs ?v = None" by (rule stripLeading_fix[OF ne(2)])
  ultimately show ?thesis by (simp add: trimSpace_def stripLeading_none)
qed

lemma normalizePins_InrD:
  assumes "normalizePins skills = Inr clean"
  shows "distinct clean" "set clean = trimSpace ` set skills - {[]}" "length clean \<le> 20"
proof -
  let ?c = "firstSeen [] (filter (\<lambda>s. s \<noteq> []) (map trimSpace skills))"
  have "clean = ?c" "length ?c \<le> 20"
    using assms by (simp_all add: normalizePins_def maxTaskPins_def Let_def split: if_splits)
  moreover have "set ?c = trimSpace ` set skills - {[]}" unfolding set_firstSeen by auto
  ultimately show "distinct clean" "set clean = trimSpace ` set skills - {[]}" "length clean \<le> 20"
    using distinct_firstSeen[of "[]"] by auto
qed

text \<open>Pin lists are clean: what normalizePins answers has no repetition, no
  blank, no surrounding white space, at most twenty entries, is exactly the set of
  trimmed names given, and is left alone by a second run; and the only lists
  refused are those with more than twenty different names.\<close>

theorem pins_clean:
  "(case normalizePins skills of
      Inr clean \<Rightarrow> distinct clean \<and> set clean = trimSpace ` set skills - {[]} \<and>
        length clean \<le> 20 \<and> map trimSpace clean = clean \<and> normalizePins clean = Inr clean
    | Inl e \<Rightarrow> e = ErrInvalidInput \<and> card (trimSpace ` set skills - {[]}) > 20)"
proof (cases "normalizePins skills")
  case (Inl e)
  let ?c = "firstSeen [] (filter (\<lambda>s. s \<noteq> []) (map trimSpace skills))"
  have "e = ErrInvalidInput" "length ?c > 20"
    using Inl by (simp_all add: normalizePins_def maxTaskPins_def Let_def split: if_splits)
  moreover have "set ?c = trimSpace ` set skills - {[]}" unfolding set_firstSeen by auto
  moreover have "card (set ?c) = length ?c" by (rule distinct_card[OF distinct_firstSeen])
  ultimately show ?thesis using Inl by simp
next
  case (Inr clean)
  note c = normalizePins_InrD[OF Inr]
  have t: "map trimSpace clean = clean" using c(2) by (auto intro!: map_idI)
  moreover have "filter (\<lambda>s. s \<noteq> []) clean = clean" using c(2) by (simp add: filter_id_conv)
  ultimately have "normalizePins clean = Inr clean"
    using c(1,3) by (simp add: normalizePins_def maxTaskPins_def Let_def firstSeen_distinct)
  then show ?thesis using c t Inr by simp
qed

end
