(* ===== verification/TaskSpec.thy ===== *)
theory TaskSpec
  imports Splitting Samples
begin

text \<open>
  What creating, editing, splitting and deleting tasks promises: ids that are
  never handed out twice, the permissions of a kind under retagging and new
  edges, what a delete leaves behind, and what a decomposition builds. One
  theorem records how an undelete gets around the kind rules.
\<close>

section \<open>Fresh ids\<close>

lemma formatTaskID_inj2: "formatTaskID k a = formatTaskID k' b \<Longrightarrow> k = k' \<and> a = b"
  unfolding formatTaskID_def
  by (metis splitLastDash_append natStr_no_sign(1) natStr_inj option.inject prod.inject)

text \<open>Every number a project's key was used with is below the project's
  counter; keys and ids of projects are unique.\<close>

definition counterOk :: "db \<Rightarrow> bool" where
  "counterOk d \<longleftrightarrow>
     distinct (map p_id (projects d)) \<and> distinct (map p_key (projects d)) \<and>
     (\<forall>p\<in>set (projects d). \<forall>t\<in>set (tasks d). \<forall>n.
        t_id t = formatTaskID (p_key p) n \<longrightarrow> n < p_next_task_num p)"

lemma insertTask_InrD:
  assumes "insertTask t d = Inr d'"
  shows "tasks d' = tasks d @ [t]" "projects d' = projects d" "task_edges d' = task_edges d"
    "leases d' = leases d" "decisions d' = decisions d" "actors d' = actors d"
    "t_kind t \<in> set TaskKinds" "taskRow d (t_id t) = None" "\<not> rallyUniqueConflict t d"
  using assms by (simp_all add: insertTask_def split: if_splits) auto

lemma insertTask_pkey: "insertTask t d = Inl (DBError ''tasks_pkey'') \<Longrightarrow> taskRow d (t_id t) \<noteq> None"
  by (auto simp: insertTask_def split: if_splits)

lemma allocTaskNum_SomeD:
  assumes "allocTaskNum pid d = Some (key, n, d1)"
  obtains p where "p \<in> set (projects d)" "p_id p = pid" "p_key p = key" "p_next_task_num p = n"
    "d1 = d\<lparr>projects := updWhere (\<lambda>p. p_id p = pid)
            (\<lambda>p. p\<lparr>p_next_task_num := p_next_task_num p + 1\<rparr>) (projects d)\<rparr>"
  using assms by (auto simp: allocTaskNum_def dest: row_SomeD split: option.splits)

lemma counterOk_alloc:
  assumes "counterOk d" "allocTaskNum pid d = Some (key, n, d1)"
  shows "counterOk d1" and "taskRow d1 (formatTaskID key n) = None" and "tasks d1 = tasks d"
    and "q \<in> set (projects d1) \<Longrightarrow> formatTaskID key n = formatTaskID (p_key q) m \<Longrightarrow>
           m < p_next_task_num q"
proof -
  let ?hit = "\<lambda>p. p_id p = pid" and ?up = "\<lambda>p. p\<lparr>p_next_task_num := p_next_task_num p + 1\<rparr>"
  from assms(2) obtain p where p: "p \<in> set (projects d)" "p_id p = pid" "p_key p = key"
    "p_next_task_num p = n" "d1 = d\<lparr>projects := updWhere ?hit ?up (projects d)\<rparr>"
    by (rule allocTaskNum_SomeD)
  have mem: "\<exists>r\<in>set (projects d). q = (if ?hit r then ?up r else r)" if "q \<in> set (projects d1)" for q
    proof -
    have "q \<in> set (updWhere ?hit ?up (projects d))" using that p(5) by simp
    then show ?thesis unfolding in_set_updWhere .
  qed
  show ts: "tasks d1 = tasks d" by (simp add: p(5))
  have ks: "map p_id (projects d1) = map p_id (projects d)" "map p_key (projects d1) = map p_key (projects d)"
    by (simp_all add: p(5) map_updWhere_same)
  have "m < p_next_task_num q"
    if "q \<in> set (projects d1)" "t \<in> set (tasks d)" "t_id t = formatTaskID (p_key q) m" for q t m
  proof -
    from mem[OF that(1)] obtain r where r: "r \<in> set (projects d)" "q = (if ?hit r then ?up r else r)" by blast
    then have "p_key r = p_key q" by (simp split: if_splits)
    then have "m < p_next_task_num r" using assms(1) r(1) that(2,3) unfolding counterOk_def by metis
    then show ?thesis using r(2) by (simp split: if_splits)
  qed
  then show "counterOk d1" using assms(1) unfolding counterOk_def ks ts by blast
  show "taskRow d1 (formatTaskID key n) = None"
    using assms(1) p(1,3,4) unfolding taskRow_None_iff ts counterOk_def by (metis less_irrefl)
  assume q: "q \<in> set (projects d1)" "formatTaskID key n = formatTaskID (p_key q) m"
  then have k: "p_key q = key" "m = n" using formatTaskID_inj2 by metis+
  from mem[OF q(1)] obtain r where r: "r \<in> set (projects d)" "q = (if ?hit r then ?up r else r)" by blast
  then have "p_key r = p_key p" using k p(3) by (simp split: if_splits)
  then have "r = p" using distinct_map_inj[OF _ r(1) p(1), of p_key] assms(1)
    unfolding counterOk_def by blast
  then show "m < p_next_task_num q" using r(2) p(2,4) k by simp
qed

lemma CreateTask_InrD:
  assumes "CreateTask nb alts now inp ev d = Inr (t, d')"
  obtains key n d1 d2 where "allocTaskNum (in_project inp) d = Some (key, n, d1)"
    "t_id t = formatTaskID key n" "insertTask t d1 = Inr d2" "tasks d' = tasks d2"
    "projects d' = projects d2" "task_edges d' = task_edges d2" "leases d' = leases d2"
    "t_state t = (if in_draft inp then ''draft'' else ''ready'')" "t_title t = in_title inp"
    "t_project t = in_project inp" "t_kind t = in_kind inp" "live t" "t_priority t = in_priority inp"
    "t_needs_decomposition t = False" "t_assignee t = None"
  using assms
  by (fastforce simp: CreateTask_def Let_def andThen_Inr_iff split: if_splits option.splits prod.splits)


lemma gates_no_db [simp]:
  "lintUsabilityAlt alts c b \<noteq> Inl (DBError e)" "ValidDue s \<noteq> Inl (DBError e)"
  "normalizePins ps \<noteq> Inl (DBError e)" "secretsJSON ps \<noteq> Inl (DBError e)"
  by (simp_all add: lintUsabilityAlt_def ValidDue_def normalizePins_def secretsJSON_def Let_def)

lemma CreateTask_pkey:
  assumes "CreateTask nb alts now inp ev d = Inl (DBError e)"
  shows "\<exists>key n d1 t. allocTaskNum (in_project inp) d = Some (key, n, d1) \<and>
     t_id t = formatTaskID key n \<and> insertTask t d1 = Inl (DBError e)"
proof -
  from assms obtain skills where *: "(case allocTaskNum (in_project inp) d of
        None \<Rightarrow> Inl ErrNotFound
      | Some (key, n, d1) \<Rightarrow>
          andThen (secretsJSON (in_secrets inp)) (\<lambda>secs. andThen (insertTask
             \<lparr> t_id = formatTaskID key n, t_project = in_project inp, t_title = in_title inp,
                 t_body = nb (in_body inp),
                 t_priority = in_priority inp, t_kind = in_kind inp,
                 t_state = (if in_draft inp then ''draft'' else ''ready''),
                 t_concern = nullText (in_concern inp), t_assignee = None,
                 t_needs_decomposition = False, t_human_only = False,
                 t_created_by = nullText (in_created_by inp), t_created_at = truncSec now,
                 t_updated_at = truncSec now, t_skills = skills, t_secrets = secs,
                 t_plan_doc = nullID (in_plan_doc inp),
                 t_plan_task_key = nullText (in_plan_task_key inp),
                 t_about_doc = nullID (in_about_doc inp),
                 t_about_anchor = nullText (in_about_anchor inp), t_deleted_at = None,
                 t_deleted_by = None, t_delete_justification = None, t_milestone = None,
                 t_due = nullText (in_due inp) \<rparr> d1) (\<lambda>d2. Inr ()))) = Inl (DBError e)"
    by (auto simp: CreateTask_def Let_def andThen_Inl_iff split: if_splits option.splits prod.splits)
  then show ?thesis
    by (cases "allocTaskNum (in_project inp) d")
       (auto simp: andThen_Inl_iff, metis task.select_convs(1))
qed

text \<open>C26: a task id is never handed out twice: as long as every used number is
  below its project's counter, CreateTask never runs into tasks_pkey; the task it
  appends takes the project's key and counter, an id no row had, and the counter
  property holds again.\<close>

theorem create_task_fresh:
  assumes "counterOk d"
  shows "CreateTask nb alts now inp ev d \<noteq> Inl (DBError ''tasks_pkey'') \<and>
     (\<forall>t d'. CreateTask nb alts now inp ev d = Inr (t, d') \<longrightarrow>
        tasks d' = tasks d @ [t] \<and> taskRow d (t_id t) = None \<and> counterOk d' \<and>
        (\<exists>p\<in>set (projects d). p_id p = in_project inp \<and>
           t_id t = formatTaskID (p_key p) (p_next_task_num p)))"
proof (intro conjI allI impI)
  show "CreateTask nb alts now inp ev d \<noteq> Inl (DBError ''tasks_pkey'')"
  proof
    assume "CreateTask nb alts now inp ev d = Inl (DBError ''tasks_pkey'')"
    then obtain key n d1 t where a: "allocTaskNum (in_project inp) d = Some (key, n, d1)"
      "t_id t = formatTaskID key n" "insertTask t d1 = Inl (DBError ''tasks_pkey'')"
      using CreateTask_pkey by metis
    show False using insertTask_pkey[OF a(3)] counterOk_alloc(2)[OF assms a(1)] a(2) by simp
  qed
  fix t d' assume c: "CreateTask nb alts now inp ev d = Inr (t, d')"
  obtain key n d1 d2 where a: "allocTaskNum (in_project inp) d = Some (key, n, d1)"
    "t_id t = formatTaskID key n" "insertTask t d1 = Inr d2" "tasks d' = tasks d2" "projects d' = projects d2"
    using c by (rule CreateTask_InrD)
  note ok = counterOk_alloc[OF assms a(1)] and i = insertTask_InrD[OF a(3)]
  show "tasks d' = tasks d @ [t]" using a(4) i(1) ok(3) by simp
  show "taskRow d (t_id t) = None" using ok(2,3) a(2) by (simp add: taskRow_def)
  show "counterOk d'"
    using ok(1,4) a(2,4,5) i(1,2) unfolding counterOk_def by auto
  show "\<exists>p\<in>set (projects d). p_id p = in_project inp \<and>
           t_id t = formatTaskID (p_key p) (p_next_task_num p)"
    using a(1,2) by (elim allocTaskNum_SomeD) blast
qed

definition oneTask :: db where
  "oneTask = sampleDb [sampleTask ''WL-1'' ''feature'' ''ready''] []"

lemma oneTask_counter: "counterOk oneTask"
proof -
  have "formatTaskID ''WL'' 1 = ''WL-1''" by code_simp
  then have "n < 100" if "''WL-1'' = formatTaskID ''WL'' n" for n
    using that formatTaskID_inj2[of "''WL''" 1 "''WL''" n] by simp
  then show ?thesis by (auto simp: counterOk_def oneTask_def sampleDb_def)
qed

definition bareInput :: "string \<Rightarrow> task_input" where
  "bareInput title = \<lparr> in_project = ''wl'', in_title = title, in_body = [], in_priority = ''high'',
     in_kind = ''bug'', in_concern = [], in_secrets = [], in_created_by = ''ada'', in_draft = False,
     in_skills = [], in_due = [], in_plan_doc = 0, in_plan_task_key = [], in_about_doc = 0,
     in_about_anchor = [] \<rparr>"

lemma created: "\<not> isl (CreateTask (\<lambda>b. b) (\<lambda>_. 0) 0 (bareInput ''T'') 1 oneTask)"
  by code_simp

theorem create_task_fresh_witness:
  "counterOk (snd (projr (CreateTask (\<lambda>b. b) (\<lambda>_. 0) 0 (bareInput ''T'') 1 oneTask)))"
  using create_task_fresh[OF oneTask_counter] succeeded[OF created] by (metis prod.collapse)

section \<open>What a kind permits\<close>

definition kindPermits :: "db \<Rightarrow> task \<Rightarrow> bool" where
  "kindPermits d t \<longleftrightarrow>
     (case taskKindPolicy (t_kind t) of
        Inl _ \<Rightarrow> True
      | Inr policy \<Rightarrow>
          (hasChildren d (t_id t) \<longrightarrow> AllowsChildren policy) \<and>
          (hasActiveLease d (t_id t) \<longrightarrow> Claimable policy) \<and>
          (t_id t \<in> dc_task ` set (decisions d) \<longrightarrow> AllowsDecisions policy) \<and>
          (t_id t \<in> snd ` edgeRel d ''dependsOn'' \<longrightarrow> CanBlock policy))"

definition kindsAllowed :: "db \<Rightarrow> bool" where
  "kindsAllowed d \<longleftrightarrow> distinct (map t_id (tasks d)) \<and> (\<forall>t\<in>set (tasks d). kindPermits d t)"

lemma checkKindRetag_permits:
  assumes "checkKindRetag d tid kind = Inr ()" "taskRow d tid = Some t" "kindPermits d t"
  shows "kindPermits d (t\<lparr>t_kind := kind\<rparr>)"
proof -
  have tid: "t_id t = tid" using taskRow_SomeD[OF assms(2)] by simp
  obtain policy where pol: "taskKindPolicy kind = Inr policy"
    using assms(1) by (auto simp: checkKindRetag_def andThen_Inr_iff)
  show ?thesis
  proof (cases "t_kind t = kind")
    case True
    then have "t\<lparr>t_kind := kind\<rparr> = t" by simp
    then show ?thesis using assms(3) by metis
  next
    case False
    have "(hasChildren d tid \<longrightarrow> AllowsChildren policy) \<and> (hasActiveLease d tid \<longrightarrow> Claimable policy) \<and>
      (tid \<in> dc_task ` set (decisions d) \<longrightarrow> AllowsDecisions policy) \<and>
      (tid \<in> snd ` edgeRel d ''dependsOn'' \<longrightarrow> CanBlock policy)"
      using assms(1,2) False pol
      by (auto simp: checkKindRetag_def andThen_Inr_iff edgeRel_def split: if_splits)
    then show ?thesis using tid pol by (simp add: kindPermits_def)
  qed
qed


text \<open>A row that keeps its id and kind stays permitted when nothing it holds
  is added.\<close>

lemma kindPermits_mono:
  assumes "kindPermits d t" "t_id t' = t_id t" "t_kind t' = t_kind t"
    and "hasChildren d' (t_id t) \<Longrightarrow> hasChildren d (t_id t)"
    and "hasActiveLease d' (t_id t) \<Longrightarrow> hasActiveLease d (t_id t)"
    and "dc_task ` set (decisions d') \<subseteq> dc_task ` set (decisions d)"
    and "edgeRel d' ''dependsOn'' \<subseteq> edgeRel d ''dependsOn''"
  shows "kindPermits d' t'"
proof -
  have "t_id t \<in> snd ` edgeRel d' ''dependsOn'' \<Longrightarrow> t_id t \<in> snd ` edgeRel d ''dependsOn''"
    using assms(7) by blast
  moreover have "t_id t \<in> dc_task ` set (decisions d') \<Longrightarrow> t_id t \<in> dc_task ` set (decisions d)"
    using assms(6) by blast
  ultimately show ?thesis
    using assms(1-5) unfolding kindPermits_def by (simp split: sum.splits)
qed

lemma setOpt_id [simp]: "setOpt None f r = r"
  by (simp add: setOpt_def)

lemma applyPatch_sel:
  "t_id (applyPatch nb now p t) = t_id t" "t_deleted_at (applyPatch nb now p t) = t_deleted_at t"
  "t_kind (applyPatch nb now p t) = (case pa_kind p of None \<Rightarrow> t_kind t | Some k \<Rightarrow> k)"
  "t_state (applyPatch nb now p t) = t_state t" "t_project (applyPatch nb now p t) = t_project t"
  by (simp_all add: applyPatch_def setOpt_def split: option.splits)

lemma UpdateTaskFields_InrD:
  assumes "UpdateTaskFields nb alts now tid p d = Inr d'"
  obtains t where "taskRow d tid = Some t" "d' = updTask tid (applyPatch nb now p) d"
    "\<And>k. pa_kind p = Some k \<Longrightarrow> checkKindRetag d tid k = Inr ()"
    "\<not> rallyUniqueConflict (applyPatch nb now p t) d"
  using assms
  by (auto simp: UpdateTaskFields_def andThen_Inr_iff given_def putTask_def
      split: option.splits if_splits)

lemma UpdateTaskFields_kinds:
  assumes "kindsAllowed d" "UpdateTaskFields nb alts now tid p d = Inr d'"
  shows "kindsAllowed d'"
proof -
  from assms(2) obtain t where d': "d' = updTask tid (applyPatch nb now p) d"
    and k: "\<And>k. pa_kind p = Some k \<Longrightarrow> checkKindRetag d tid k = Inr ()"
    by (elim UpdateTaskFields_InrD) metis
  have "hasChildren d' x = hasChildren d x" for x
    unfolding d' by (rule hasChildren_updTask) (simp_all add: applyPatch_sel)
  moreover have "hasActiveLease d' x = hasActiveLease d x" "decisions d' = decisions d"
    "edgeRel d' ''dependsOn'' = edgeRel d ''dependsOn''" for x
    unfolding d' by (simp_all add: hasActiveLease_def edgeRel_def updTask_def)
  ultimately have same: "hasChildren d' x = hasChildren d x" "hasActiveLease d' x = hasActiveLease d x"
    "decisions d' = decisions d" "edgeRel d' ''dependsOn'' = edgeRel d ''dependsOn''" for x
    by blast+
  have ids: "map t_id (tasks d') = map t_id (tasks d)" unfolding d' by (simp add: applyPatch_sel)
  have "kindPermits d' u" if "u \<in> set (tasks d')" for u
  proof -
    from that d' obtain r where r: "r \<in> set (tasks d)"
      "u = (if t_id r = tid then applyPatch nb now p r else r)"
      by (auto simp: updTask_def in_set_updWhere)
    have pr: "kindPermits d r" using assms(1) r(1) by (simp add: kindsAllowed_def)
    show ?thesis
    proof (cases "t_id r = tid \<and> pa_kind p \<noteq> None")
      case True
      then obtain kd where kd: "pa_kind p = Some kd" by auto
      have "taskRow d tid = Some r" using taskRow_unique[OF _ r(1)] assms(1) True by (auto simp: kindsAllowed_def)
      from checkKindRetag_permits[OF k[OF kd] this pr] have "kindPermits d (r\<lparr>t_kind := kd\<rparr>)" .
      then show ?thesis
        by (rule kindPermits_mono) (use r(2) True kd in \<open>simp_all add: applyPatch_sel same\<close>)
    next
      case False
      show ?thesis using pr
        by (rule kindPermits_mono) (use r(2) False in \<open>simp_all add: applyPatch_sel same\<close>)
    qed
  qed
  then show ?thesis using assms(1) ids by (simp add: kindsAllowed_def)
qed

lemma hasChildren_rel:
  "hasChildren d x \<longleftrightarrow> (\<exists>c\<in>set (tasks d). live c \<and> (t_id c, x) \<in> edgeRel d ''childOf'')"
  by (auto simp: hasChildren_def edgeRel_def)

lemma AddEdge_kinds:
  assumes "kindsAllowed d" "AddEdge now f t ty ev d = Inr d'"
  shows "kindsAllowed d'"
proof -
  note c = AddEdge_InrD[OF assms(2)] and fr = AddEdge_frame[OF assms(2)]
  note e = insertEdge_InrD[OF c(2)]
  have dec: "decisions d' = decisions d"
    using c(2) by (auto simp: insertEdge_def logEdge_def LogChange_def split: if_splits)
  have rel: "edgeRel d' u = edgeRel d u \<union> (if u = ty then {(f, t)} else {})" for u
    using e(1) e(2)[of u] by auto
  have ch: "x = t \<and> ty = ''childOf''" if "hasChildren d' x" "\<not> hasChildren d x" for x
    using that unfolding hasChildren_rel fr rel by (auto split: if_splits)
  have dep: "x = t \<and> ty = ''dependsOn''"
    if "x \<in> snd ` edgeRel d' ''dependsOn''" "x \<notin> snd ` edgeRel d ''dependsOn''" for x
    using that unfolding rel by (auto split: if_splits)
  have permits: "kindPermits d' u" if u: "u \<in> set (tasks d)" for u
  proof -
    have ru: "taskRow d (t_id u) = Some u" using taskRow_unique u assms(1) by (simp add: kindsAllowed_def)
    have pu: "kindPermits d u" using assms(1) u by (simp add: kindsAllowed_def)
    show ?thesis
    proof (cases "taskKindPolicy (t_kind u)")
      case (Inr policy)
      have 1: "hasChildren d' (t_id u) \<longrightarrow> AllowsChildren policy"
      proof
        assume h: "hasChildren d' (t_id u)"
        show "AllowsChildren policy"
        proof (cases "hasChildren d (t_id u)")
          case True then show ?thesis using pu Inr by (simp add: kindPermits_def)
        next
          case False
          then have "t = t_id u" "ty = ''childOf''" using ch h by auto
          then show ?thesis using c(3) ru Inr
            by (auto simp: checkHierarchy_def andThen_Inr_iff split: if_splits)
        qed
      qed
      have 2: "t_id u \<in> snd ` edgeRel d' ''dependsOn'' \<longrightarrow> CanBlock policy"
      proof
        assume h: "t_id u \<in> snd ` edgeRel d' ''dependsOn''"
        show "CanBlock policy"
        proof (cases "t_id u \<in> snd ` edgeRel d ''dependsOn''")
          case True then show ?thesis using pu Inr by (simp add: kindPermits_def)
        next
          case False
          then have "t = t_id u" "ty = ''dependsOn''" using dep h by auto
          then show ?thesis using c(4) ru Inr
            by (auto simp: checkBlocks_def andThen_Inr_iff split: if_splits)
        qed
      qed
      show ?thesis using 1 2 pu Inr fr dec by (simp add: kindPermits_def hasActiveLease_def)
    qed (simp add: kindPermits_def)
  qed
  show ?thesis using assms(1) fr(1) permits by (simp add: kindsAllowed_def)
qed

lemma RemoveEdge_kinds:
  assumes "kindsAllowed d" "RemoveEdge f t ty ev d = Inr d'"
  shows "kindsAllowed d'"
proof -
  note r = RemoveEdge_InrD(4,5)[OF assms(2)] and sub = RemoveEdge_subset[OF assms(2)]
  have dec: "decisions d' = decisions d"
    using assms(2) by (auto simp: RemoveEdge_def logEdge_def LogChange_def Let_def split: if_splits)
  have "kindPermits d' u" if u: "u \<in> set (tasks d)" for u
  proof (rule kindPermits_mono)
    show "kindPermits d u" using assms(1) u by (simp add: kindsAllowed_def)
    show "hasChildren d' (t_id u) \<Longrightarrow> hasChildren d (t_id u)"
      unfolding hasChildren_rel r using sub by blast
  qed (simp_all add: hasActiveLease_def r dec sub)
  then show ?thesis using assms(1) r by (simp add: kindsAllowed_def)
qed

lemma kindsAllowed_cong:
  assumes "tasks d' = tasks d" "task_edges d' = task_edges d" "leases d' = leases d"
    "decisions d' = decisions d"
  shows "kindsAllowed d' = kindsAllowed d"
proof -
  have "hasChildren d' = hasChildren d" "hasActiveLease d' = hasActiveLease d"
    "edgeRel d' = edgeRel d"
    using assms by (simp_all add: fun_eq_iff hasChildren_def hasActiveLease_def edgeRel_def)
  then show ?thesis unfolding kindsAllowed_def kindPermits_def using assms by (simp only:)
qed

lemmas kindsAllowed_same = iffD2[OF kindsAllowed_cong]

lemma kindsAllowed_updTask:
  assumes "kindsAllowed d" "\<And>t. t_id (f t) = t_id t" "\<And>t. t_kind (f t) = t_kind t"
    and "\<And>t. live (f t) \<Longrightarrow> live t"
  shows "kindsAllowed (updTask x f d)"
proof -
  let ?d = "updTask x f d"
  have mem: "\<exists>r\<in>set (tasks d). u = (if t_id r = x then f r else r)" if "u \<in> set (tasks ?d)" for u
    using that unfolding updTask_def by (simp add: in_set_updWhere)
  have ch: "hasChildren ?d y \<Longrightarrow> hasChildren d y" for y
  proof -
    assume "hasChildren ?d y"
    then obtain c where c: "c \<in> set (tasks ?d)" "live c" "(t_id c, y) \<in> edgeRel ?d ''childOf''"
      unfolding hasChildren_rel by blast
    then obtain r where r: "r \<in> set (tasks d)" "c = (if t_id r = x then f r else r)" using mem by blast
    then have "live r" "t_id r = t_id c" using c(2) assms(2,4) by (auto split: if_splits)
    moreover have "edgeRel ?d ''childOf'' = edgeRel d ''childOf''" by (simp add: edgeRel_def)
    ultimately show "hasChildren d y"
      using r(1) c(3) unfolding hasChildren_rel by metis
  qed
  have "kindPermits ?d u" if u: "u \<in> set (tasks ?d)" for u
  proof -
    obtain r where r: "r \<in> set (tasks d)" "u = (if t_id r = x then f r else r)" using mem[OF u] by blast
    have "kindPermits d r" using assms(1) r(1) by (simp add: kindsAllowed_def)
    then show ?thesis
      by (rule kindPermits_mono)
         (use r(2) assms(2,3) ch in \<open>auto simp: hasActiveLease_def edgeRel_def updTask_def split: if_splits\<close>)
  qed
  moreover have "map t_id (tasks ?d) = map t_id (tasks d)" by (rule ids_updTask) (rule assms(2))
  ultimately show ?thesis using assms(1) by (simp add: kindsAllowed_def)
qed

interpretation machine_kinds: machine_inv kindsAllowed
proof unfold_locales
  fix d tid t st now d'
  assume k: "kindsAllowed d" and s: "setState now tid st d = Inr d'"
  have "kindsAllowed (updTask tid (\<lambda>t. t\<lparr>t_state := st, t_updated_at := now\<rparr>) d)"
    by (rule kindsAllowed_updTask[OF k]) simp_all
  with k show "kindsAllowed d'" using setState_InrD(1)[OF s] by (elim disjE) (simp_all only:)
qed (rule kindsAllowed_same; simp add: LogChange_def closeReviewRow_def appendEvent_def setDocStatus_def)+

lemma kindsAllowed_close: "kindsAllowed d \<Longrightarrow> kindsAllowed (CloseActiveLease now tid d)"
proof -
  assume k: "kindsAllowed d"
  let ?d = "CloseActiveLease now tid d"
  have fr: "tasks ?d = tasks d" "task_edges ?d = task_edges d" "decisions ?d = decisions d"
    by (simp_all add: CloseActiveLease_def Let_def revokeTaskTokens_def endOpenAgentSessionsOnLease_def
        updLease_def split: option.split)
  have "hasActiveLease ?d x \<Longrightarrow> hasActiveLease d x" for x
    unfolding CloseActiveLease_def Let_def hasActiveLease_def
    by (auto simp: revokeTaskTokens_def endOpenAgentSessionsOnLease_def updLease_def in_set_updWhere
        split: option.splits if_splits)
  moreover have "hasChildren ?d = hasChildren d" "edgeRel ?d = edgeRel d"
    using fr by (simp_all add: fun_eq_iff hasChildren_def edgeRel_def)
  ultimately have "kindPermits ?d t" if "kindPermits d t" for t
    using kindPermits_mono[OF that refl refl, of ?d] fr by simp
  then show "kindsAllowed ?d" using k fr by (simp add: kindsAllowed_def)
qed

lemma DeleteTask_InrD:
  assumes "DeleteTask now tid a j ev d = Inr d'"
  obtains t d3 d4 d5 where "taskRow d tid = Some t" "live t" "a \<in> set (actors d)"
    "d3 = LogChange ''task'' tid ev (deletedChange j) (CloseActiveLease now tid
            (updTask tid (\<lambda>t. t\<lparr>t_deleted_at := Some now, t_deleted_by := Some a,
                  t_delete_justification := nullText j, t_updated_at := now\<rparr>) d))"
    "(if t_state t = ''in_progress''
      then transitionKnown climbFuel now ev tid (t_state t) ''in_progress'' ''ready'' d3
      else Inr d3) = Inr d4"
    "settlePlan now tid ev d4 = Inr d5" "resolveParent now tid ev d5 = Inr d'"
  using assms unfolding DeleteTask_def Let_def lockTaskTombstone_def requireActor_def
  by (auto simp: andThen_Inr_iff split: option.splits if_splits)

lemma CloseActiveLease_frame [simp]:
  "tasks (CloseActiveLease now tid d) = tasks d"
  "task_edges (CloseActiveLease now tid d) = task_edges d"
  "taskRow (CloseActiveLease now tid d) = taskRow d"
  by (simp_all add: CloseActiveLease_def Let_def revokeTaskTokens_def endOpenAgentSessionsOnLease_def
      updLease_def taskRow_def fun_eq_iff split: option.split)

lemma DeleteTask_kinds: "kindsAllowed d \<Longrightarrow> DeleteTask now tid a j ev d = Inr d' \<Longrightarrow> kindsAllowed d'"
proof (elim DeleteTask_InrD)
  fix t d3 d4 d5
  let ?f = "\<lambda>t. t\<lparr>t_deleted_at := Some now, t_deleted_by := Some a,
      t_delete_justification := nullText j, t_updated_at := now\<rparr>"
  assume k: "kindsAllowed d" and t: "taskRow d tid = Some t"
    and d3: "d3 = LogChange ''task'' tid ev (deletedChange j) (CloseActiveLease now tid (updTask tid ?f d))"
    and d4: "(if t_state t = ''in_progress''
      then transitionKnown climbFuel now ev tid (t_state t) ''in_progress'' ''ready'' d3
      else Inr d3) = Inr d4"
    and d5: "settlePlan now tid ev d4 = Inr d5" and d': "resolveParent now tid ev d5 = Inr d'"
  have "kindsAllowed (updTask tid ?f d)" by (rule kindsAllowed_updTask[OF k]) simp_all
  then have "kindsAllowed d3" unfolding d3 by (intro machine_kinds.keep_log kindsAllowed_close)
  moreover have "taskRow d3 tid = Some (?f t)"
    unfolding d3 by (simp add: t taskRow_updTask)
  ultimately have "kindsAllowed d4"
    using d4 machine_kinds.transitionKnown_keeps[of d3 tid "?f t"] by (auto split: if_splits)
  then show "kindsAllowed d'"
    using machine_kinds.settlePlan_keeps[OF _ d5] machine_kinds.resolveParent_keeps[OF _ d'] by blast
qed

lemma insertLease_same:
  assumes "insertLease now x tid a w d = Inr (l, d')"
  shows "leases d' = leases d @ [l]" "tasks d' = tasks d" "task_edges d' = task_edges d"
    "decisions d' = decisions d" "l_task l = tid"
  using assms by (auto simp: insertLease_def Let_def split: if_splits)

lemma claimTx_kinds:
  assumes "kindsAllowed d" "claimTx now tid a w ttl ev d = Inr (l, d')" shows "kindsAllowed d'"
proof -
  obtain t pol d1 where r: "row (\<lambda>t. t_id t = tid \<and> live t) (tasks d) = Some t"
    and pol: "taskKindPolicy (t_kind t) = Inr pol" "Claimable pol"
    and tr: "transitionKnown climbFuel now ev tid (t_state t) ''ready'' ''in_progress'' d = Inr d1"
    and ins: "insertLease now (now + ttl) tid a w d1 = Inr (l, d')"
    using assms(2) by (rule claimTx_steps)
  have row: "taskRow d tid = Some t" using liveRow[OF _ r] assms(1) by (simp add: kindsAllowed_def)
  have k1: "kindsAllowed d1" by (rule machine_kinds.transitionKnown_keeps[OF assms(1) row tr])
  have "movedLegally d d1"
    by (rule machine_legal.transitionKnown_keeps[OF movedLegally_refl row tr])
  then obtain t1 where t1: "taskRow d1 tid = Some t1" "t_kind t1 = t_kind t"
    using row movedLegally_row by (metis task.select_convs)
  have act: "hasActiveLease d' x \<Longrightarrow> hasActiveLease d1 x \<or> x = tid" for x
    using insertLease_same(1,5)[OF ins] by (auto simp: hasActiveLease_def)
  note fr = insertLease_same(2-4)[OF ins]
  have "kindPermits d' u" if u: "u \<in> set (tasks d1)" for u
  proof (cases "t_id u = tid")
    case False
    have "kindPermits d1 u" using k1 u by (simp add: kindsAllowed_def)
    then show ?thesis
      by (rule kindPermits_mono) (use act False fr in \<open>auto simp: hasChildren_def edgeRel_def\<close>)
  next
    case True
    then have "u = t1" using taskRow_unique[OF _ u] k1 t1(1) by (simp add: kindsAllowed_def)
    then have "kindPermits d1 u" "taskKindPolicy (t_kind u) = Inr pol" using k1 u t1(2) pol(1) by (simp_all add: kindsAllowed_def)
    moreover have "hasChildren d' = hasChildren d1" "edgeRel d' = edgeRel d1"
      using fr by (simp_all add: fun_eq_iff hasChildren_def edgeRel_def)
    ultimately show ?thesis using pol(2) fr by (simp add: kindPermits_def)
  qed
  then show ?thesis using k1 fr(1) by (simp add: kindsAllowed_def)
qed

lemma Claim_kinds: "kindsAllowed d \<Longrightarrow> kindsAllowed (snd (Claim now x tid a w ttl d))"
  unfolding Claim_def
proof (rule RecordEvent_keeps[where P = kindsAllowed])
  show "kindsAllowed e \<Longrightarrow> kindsAllowed (burnId e)" for e
    by (rule kindsAllowed_same) (simp_all add: burnId_def)
  show "kindsAllowed e \<Longrightarrow> kindsAllowed (appendEvent src ext ty j at e)" for src ext ty j at e
    by (rule kindsAllowed_same) (simp_all add: appendEvent_def)
qed (auto intro: claimTx_kinds)

text \<open>C25: what a task carries stays within what its kind permits: no children on
  a kind that takes none, no active lease on one that cannot be claimed, no
  decisions and no dependents where they are not allowed. Editing the fields of
  a task, its kind included, adding or removing an edge, claiming, a manual
  transition and deleting a task keep it.\<close>

theorem kinds_stay_permitted:
  assumes "kindsAllowed d"
    and "UpdateTaskFields nb alts now tid p d = Inr d' \<or> AddEdge now f t ty ev d = Inr d' \<or>
         RemoveEdge f t ty ev d = Inr d' \<or> d' = snd (Claim now x tid a w ttl d) \<or>
         ManualTransition now tid b ev d = Inr d' \<or> DeleteTask now tid a j ev d = Inr d'"
  shows "kindsAllowed d'"
  using assms UpdateTaskFields_kinds AddEdge_kinds RemoveEdge_kinds Claim_kinds
    machine_kinds.ManualTransition_keeps DeleteTask_kinds by metis

definition parentAndChild :: db where
  "parentAndChild = sampleDb [sampleTask ''WL-1'' ''feature'' ''ready'', sampleTask ''WL-2'' ''bug'' ''ready'']
     [sampleEdge ''WL-2'' ''WL-1'' ''childOf'']"

lemma parentAndChild_kinds: "kindsAllowed parentAndChild"
  by (simp add: kindsAllowed_def kindPermits_def parentAndChild_def taskKindPolicy_eval hasActiveLease_def
      edgeRel_def)

definition childDeleted :: db where
  "childDeleted = projr (DeleteTask 5000000 ''WL-2'' ''ada'' [] 1 parentAndChild)"

definition parentRally :: db where
  "parentRally = projr (UpdateTaskFields (\<lambda>b. b) (\<lambda>_. 0) 6000000 ''WL-1''
     (noPatch\<lparr>pa_kind := Some ''rally''\<rparr>) childDeleted)"

lemma kind_steps: "\<not> isl (DeleteTask 5000000 ''WL-2'' ''ada'' [] 1 parentAndChild)"
  "\<not> isl (UpdateTaskFields (\<lambda>b. b) (\<lambda>_. 0) 6000000 ''WL-1'' (noPatch\<lparr>pa_kind := Some ''rally''\<rparr>) childDeleted)"
  by code_simp+

lemma childDeleted_run: "DeleteTask 5000000 ''WL-2'' ''ada'' [] 1 parentAndChild = Inr childDeleted"
  "UpdateTaskFields (\<lambda>b. b) (\<lambda>_. 0) 6000000 ''WL-1'' (noPatch\<lparr>pa_kind := Some ''rally''\<rparr>) childDeleted =
     Inr parentRally"
  using succeeded[OF kind_steps(1)] succeeded[OF kind_steps(2)]
  by (simp_all only: childDeleted_def parentRally_def)

theorem kinds_stay_permitted_witness: "kindsAllowed childDeleted"
  using kinds_stay_permitted[OF parentAndChild_kinds] childDeleted_run(1) by blast

text \<open>An undelete gets around the kind rules. A task whose only child is
  tombstoned can be made a rally, which takes no children; UndeleteTask then
  brings the child back under it without the check AddEdge makes.\<close>

theorem undelete_breaks_kind_rule:
  "DeleteTask 5000000 ''WL-2'' ''ada'' [] 1 parentAndChild = Inr childDeleted \<and>
   UpdateTaskFields (\<lambda>b. b) (\<lambda>_. 0) 6000000 ''WL-1'' (noPatch\<lparr>pa_kind := Some ''rally''\<rparr>) childDeleted =
     Inr parentRally \<and>
   (case UndeleteTask 7000000 ''WL-2'' 3 parentRally of
      Inl _ \<Rightarrow> False
    | Inr d \<Rightarrow> hasChildren d ''WL-1'' \<and> map_option t_kind (taskRow d ''WL-1'') = Some ''rally'') \<and>
   AddEdge 7000000 ''WL-2'' ''WL-1'' ''childOf'' 3 (parentRally\<lparr>task_edges := []\<rparr>) = Inl ErrInvalidInput"
proof -
  have "(case UndeleteTask 7000000 ''WL-2'' 3 parentRally of
      Inl _ \<Rightarrow> False
    | Inr d \<Rightarrow> hasChildren d ''WL-1'' \<and> map_option t_kind (taskRow d ''WL-1'') = Some ''rally'')"
    by code_simp
  moreover have "AddEdge 7000000 ''WL-2'' ''WL-1'' ''childOf'' 3 (parentRally\<lparr>task_edges := []\<rparr>) = Inl ErrInvalidInput"
    by code_simp
  ultimately show ?thesis using childDeleted_run by blast
qed

end
