(* ===== verification/Delivery.thy ===== *)
theory Delivery
  imports Intake
begin

text \<open>
  Delivery tracking: the facts webhooks record (internal/store/delivery.go:
  commits attributed to tasks, commits on main, deploy and release watermarks),
  the resolver that moves a task as far as the facts allow
  (delivery_resolve.go), and the local-merge report (localmerge.go). A query
  with no ORDER BY answers its rows in table order; ORDER BY over text is byte
  order.
\<close>

section \<open>Commits\<close>

definition taskExists :: "db \<Rightarrow> string \<Rightarrow> bool" where
  "taskExists d tid \<longleftrightarrow> tid \<noteq> [] \<and> taskRow d tid \<noteq> None"

definition commitSources :: "string list" where
  "commitSources = [''branch_push'', ''pr'', ''merge_message'', ''marker'', ''local_merge'']"

definition InsertTaskCommit :: "task_commit \<Rightarrow> db \<Rightarrow> err + db" where
  "InsertTaskCommit tc d =
     (if \<not> taskExists d (tc_task tc) then Inr d
      else if tc_source tc \<notin> set commitSources then Inl (DBError ''task_commits_source_check'')
      else if \<exists>c\<in>set (task_commits d). tc_task c = tc_task tc \<and> tc_repo c = tc_repo tc \<and> tc_sha c = tc_sha tc
      then Inr d
      else Inr (d\<lparr>task_commits := task_commits d @ [tc]\<rparr>))"

definition TaskIDsForSHA :: "db \<Rightarrow> string \<Rightarrow> string \<Rightarrow> string list" where
  "TaskIDsForSHA d repo sha =
     sortStable strCompare (remdups (map tc_task
       (filter (\<lambda>c. tc_repo c = repo \<and> tc_sha c = sha) (task_commits d))))"

definition ClearTaskCommits :: "string \<Rightarrow> db \<Rightarrow> db" where
  "ClearTaskCommits tid d =
     d\<lparr>task_commits := filter (\<lambda>c. tc_task c \<noteq> tid) (task_commits d)\<rparr>"

text \<open>A conflicting insert still takes a number from the identity.\<close>

definition AppendMainCommit :: "string \<Rightarrow> string \<Rightarrow> int \<Rightarrow> db \<Rightarrow> int \<times> db" where
  "AppendMainCommit repo sha pushedAt d =
     (let i = next_main_id d; d1 = d\<lparr>next_main_id := i + 1\<rparr> in
      case row (\<lambda>m. mc_repo m = repo \<and> mc_sha m = sha) (main_commits d) of
        Some m \<Rightarrow> (mc_id m, d1)
      | None \<Rightarrow> (i, d1\<lparr>main_commits := main_commits d @
           [\<lparr>mc_id = i, mc_repo = repo, mc_sha = sha, mc_pushed_at = pushedAt\<rparr>]\<rparr>))"

text \<open>max of a column, NULL over no rows.\<close>

definition maxID :: "int list \<Rightarrow> int option" where
  "maxID xs = (if xs = [] then None else Some (Max (set xs)))"

definition LatestMainID :: "db \<Rightarrow> string \<Rightarrow> int option" where
  "LatestMainID d repo = maxID (map mc_id (filter (\<lambda>m. mc_repo m = repo) (main_commits d)))"

definition mainExists :: "db \<Rightarrow> int \<Rightarrow> bool" where
  "mainExists d i \<longleftrightarrow> i \<in> mc_id ` set (main_commits d)"

definition MapDeploySHA :: "string \<Rightarrow> string \<Rightarrow> int \<Rightarrow> db \<Rightarrow> err + db" where
  "MapDeploySHA repo sha mainID d =
     (if \<exists>s\<in>set (deploy_shas d). ds_repo s = repo \<and> ds_sha s = sha then Inr d
      else if \<not> mainExists d mainID then Inl (DBError ''github_deploy_shas_main_id_fkey'')
      else Inr (d\<lparr>deploy_shas := deploy_shas d @
             [\<lparr>ds_repo = repo, ds_sha = sha, ds_main_id = mainID\<rparr>]\<rparr>))"

definition MainIDForSHA :: "db \<Rightarrow> string \<Rightarrow> string \<Rightarrow> int option" where
  "MainIDForSHA d repo sha =
     (case row (\<lambda>m. mc_repo m = repo \<and> mc_sha m = sha) (main_commits d) of
        Some m \<Rightarrow> Some (mc_id m)
      | None \<Rightarrow> map_option ds_main_id
                  (row (\<lambda>s. ds_repo s = repo \<and> ds_sha s = sha) (deploy_shas d)))"

definition MainSHAForID :: "db \<Rightarrow> int \<Rightarrow> string" where
  "MainSHAForID d i =
     (case row (\<lambda>m. mc_id m = i) (main_commits d) of None \<Rightarrow> [] | Some m \<Rightarrow> mc_sha m)"

text \<open>The newest match first.\<close>

definition MainIDForSHAAnyRepo :: "db \<Rightarrow> string \<Rightarrow> (string \<times> int) option" where
  "MainIDForSHAAnyRepo d sha =
     (case sortStable (\<lambda>a b. cmpInt (mc_id b) (mc_id a))
             (filter (\<lambda>m. mc_sha m = sha) (main_commits d)) of
        m # _ \<Rightarrow> Some (mc_repo m, mc_id m)
      | [] \<Rightarrow>
          (case sortStable (\<lambda>a b. cmpInt (ds_main_id b) (ds_main_id a))
                  (filter (\<lambda>s. ds_sha s = sha) (deploy_shas d)) of
             s # _ \<Rightarrow> Some (ds_repo s, ds_main_id s)
           | [] \<Rightarrow> None))"

definition landedIDs :: "db \<Rightarrow> string \<Rightarrow> string \<Rightarrow> int list" where
  "landedIDs d tid repo =
     map mc_id (filter (\<lambda>m. mc_repo m = repo \<and>
         (\<exists>c\<in>set (task_commits d). tc_task c = tid \<and> tc_repo c = repo \<and> tc_sha c = mc_sha m))
       (main_commits d))"

definition LandedMainID :: "db \<Rightarrow> string \<Rightarrow> string \<Rightarrow> int option" where
  "LandedMainID d tid repo = maxID (landedIDs d tid repo)"

definition HasMainCommit :: "db \<Rightarrow> string \<Rightarrow> string \<Rightarrow> bool" where
  "HasMainCommit d repo sha \<longleftrightarrow> (\<exists>m\<in>set (main_commits d). mc_repo m = repo \<and> mc_sha m = sha)"

definition KnownMainCommits :: "db \<Rightarrow> (string \<times> string) list \<Rightarrow> (string \<times> string) list" where
  "KnownMainCommits d keys =
     map (\<lambda>m. (mc_repo m, mc_sha m))
       (filter (\<lambda>m. (mc_repo m, mc_sha m) \<in> set keys) (main_commits d))"

section \<open>Watermarks\<close>

definition NormalizeEnvironment :: "string \<Rightarrow> string" where
  "NormalizeEnvironment name =
     (let n = lowerBytes name in
      if n \<in> set [''dev'', ''test'', ''development'', ''staging''] then ''dev''
      else if n \<in> set [''prod'', ''production''] then ''prod''
      else [])"

definition envRow :: "db \<Rightarrow> string \<Rightarrow> string \<Rightarrow> env_deploy option" where
  "envRow d repo env = row (\<lambda>e. ed_repo e = repo \<and> ed_environment e = env) (env_deploys d)"

text \<open>greatest(coalesce(old, 0), new) of the column named.\<close>

definition raise :: "int option \<Rightarrow> int \<Rightarrow> int" where
  "raise old new = max (case old of None \<Rightarrow> 0 | Some x \<Rightarrow> x) new"

definition setColumn :: "string \<Rightarrow> int \<Rightarrow> env_deploy \<Rightarrow> env_deploy" where
  "setColumn column v e =
     (if column = ''gh_main_id'' then e\<lparr>ed_gh_main_id := Some v\<rparr> else e\<lparr>ed_flux_main_id := Some v\<rparr>)"

definition getColumn :: "string \<Rightarrow> env_deploy \<Rightarrow> int option" where
  "getColumn column e = (if column = ''gh_main_id'' then ed_gh_main_id e else ed_flux_main_id e)"

definition bumpEnvDeploy ::
  "int \<Rightarrow> string \<Rightarrow> string \<Rightarrow> string \<Rightarrow> int \<Rightarrow> bool \<Rightarrow> db \<Rightarrow> err + db" where
  "bumpEnvDeploy now repo env column mainID fluxSeen d =
     (if env \<noteq> ''dev'' \<and> env \<noteq> ''prod'' then Inl (DBError ''env_deploys_environment_check'')
      else
        let v = (case envRow d repo env of None \<Rightarrow> mainID | Some e \<Rightarrow> raise (getColumn column e) mainID)
        in if \<not> mainExists d v then Inl (DBError (''env_deploys_'' @ column @ ''_fkey''))
           else case envRow d repo env of
             None \<Rightarrow> Inr (d\<lparr>env_deploys := env_deploys d @
               [setColumn column v \<lparr>ed_repo = repo, ed_environment = env, ed_gh_main_id = None,
                  ed_flux_main_id = None, ed_flux_seen = fluxSeen, ed_updated_at = now\<rparr>]\<rparr>)
           | Some _ \<Rightarrow> Inr (d\<lparr>env_deploys := updWhere (\<lambda>e. ed_repo e = repo \<and> ed_environment e = env)
               (\<lambda>e. setColumn column v (e\<lparr>ed_flux_seen := ed_flux_seen e \<or> fluxSeen,
                                          ed_updated_at := now\<rparr>)) (env_deploys d)\<rparr>))"

definition BumpEnvDeployGH :: "int \<Rightarrow> string \<Rightarrow> string \<Rightarrow> int \<Rightarrow> db \<Rightarrow> err + db" where
  "BumpEnvDeployGH now repo env mainID d = bumpEnvDeploy now repo env ''gh_main_id'' mainID False d"

definition BumpEnvDeployFlux :: "int \<Rightarrow> string \<Rightarrow> string \<Rightarrow> int \<Rightarrow> db \<Rightarrow> err + bool \<times> db" where
  "BumpEnvDeployFlux now repo env mainID d =
     (let seen = (case envRow d repo env of None \<Rightarrow> False | Some e \<Rightarrow> ed_flux_seen e)
      in andThen (bumpEnvDeploy now repo env ''flux_main_id'' mainID True d) (\<lambda>d'. Inr (\<not> seen, d')))"

definition confirmedFrontierFrom :: "int option \<Rightarrow> int option \<Rightarrow> bool \<Rightarrow> int option" where
  "confirmedFrontierFrom gh flux fluxSeen =
     (if \<not> fluxSeen then gh
      else case (gh, flux) of (Some g, Some f) \<Rightarrow> Some (min g f) | _ \<Rightarrow> None)"

definition ConfirmedFrontier :: "db \<Rightarrow> string \<Rightarrow> string \<Rightarrow> int option" where
  "ConfirmedFrontier d repo env =
     (case envRow d repo env of
        None \<Rightarrow> None
      | Some e \<Rightarrow> confirmedFrontierFrom (ed_gh_main_id e) (ed_flux_main_id e) (ed_flux_seen e))"

definition SetReleaseFrontier :: "string \<Rightarrow> string \<Rightarrow> int \<Rightarrow> int \<Rightarrow> db \<Rightarrow> err + db" where
  "SetReleaseFrontier repo tag mainID publishedAt d =
     (case row (\<lambda>r. rf_repo r = repo \<and> rf_tag r = tag) (release_frontiers d) of
        None \<Rightarrow>
          if \<not> mainExists d mainID then Inl (DBError ''github_release_frontiers_main_id_fkey'')
          else Inr (d\<lparr>release_frontiers := release_frontiers d @
                 [\<lparr>rf_repo = repo, rf_tag = tag, rf_main_id = mainID, rf_published_at = publishedAt\<rparr>]\<rparr>)
      | Some r \<Rightarrow>
          if rf_main_id r < mainID \<and> \<not> mainExists d mainID
          then Inl (DBError ''github_release_frontiers_main_id_fkey'')
          else Inr (d\<lparr>release_frontiers := updWhere (\<lambda>r. rf_repo r = repo \<and> rf_tag r = tag)
                 (\<lambda>r. r\<lparr>rf_main_id := max (rf_main_id r) mainID,
                        rf_published_at := (if rf_main_id r < mainID then publishedAt
                                            else rf_published_at r)\<rparr>) (release_frontiers d)\<rparr>))"

definition ReleaseFrontier :: "db \<Rightarrow> string \<Rightarrow> int option" where
  "ReleaseFrontier d repo =
     maxID (map rf_main_id (filter (\<lambda>r. rf_repo r = repo) (release_frontiers d)))"

definition AllReleaseFrontiers :: "db \<Rightarrow> (string \<times> string \<times> string) list" where
  "AllReleaseFrontiers d =
     concat (map (\<lambda>r. map (\<lambda>m. (rf_repo r, rf_tag r, mc_sha m))
                        (filter (\<lambda>m. mc_id m = rf_main_id r) (main_commits d)))
       (sortStable (\<lambda>a b. cmpOr [strCompare (rf_repo a) (rf_repo b), strCompare (rf_tag a) (rf_tag b)])
          (release_frontiers d)))"

section \<open>Delivery facts of a task\<close>

record delivery_facts =
  df_repo :: string
  df_landed_sha :: string
  df_landed_at :: int
  df_deployed :: "(string \<times> int) list"
  df_release_tag :: string
  df_released_at :: "int option"

definition attachDeployFacts :: "db \<Rightarrow> string \<Rightarrow> int \<Rightarrow> (string \<times> int) list" where
  "attachDeployFacts d repo landed =
     map (\<lambda>e. (ed_environment e, ed_updated_at e))
       (filter (\<lambda>e. case confirmedFrontierFrom (ed_gh_main_id e) (ed_flux_main_id e) (ed_flux_seen e) of
                       None \<Rightarrow> False | Some x \<Rightarrow> landed \<le> x)
         (sortStable (\<lambda>a b. strCompare (ed_environment a) (ed_environment b))
           (filter (\<lambda>e. ed_repo e = repo) (env_deploys d))))"

definition attachReleaseFact :: "db \<Rightarrow> string \<Rightarrow> int \<Rightarrow> (string \<times> int) option" where
  "attachReleaseFact d repo landed =
     (case sortStable (\<lambda>a b. cmpInt (rf_main_id a) (rf_main_id b))
             (filter (\<lambda>r. rf_repo r = repo \<and> landed \<le> rf_main_id r) (release_frontiers d)) of
        [] \<Rightarrow> None
      | r # _ \<Rightarrow> Some (rf_tag r, rf_published_at r))"

definition deliveryFactsForTask :: "db \<Rightarrow> string \<Rightarrow> delivery_facts list" where
  "deliveryFactsForTask d tid =
     concat (map (\<lambda>repo.
         case LandedMainID d tid repo of
           None \<Rightarrow> []
         | Some landed \<Rightarrow>
             map (\<lambda>m. \<lparr> df_repo = repo, df_landed_sha = mc_sha m, df_landed_at = mc_pushed_at m,
                 df_deployed = attachDeployFacts d repo landed,
                 df_release_tag = (case attachReleaseFact d repo landed of None \<Rightarrow> [] | Some (t, _) \<Rightarrow> t),
                 df_released_at = map_option snd (attachReleaseFact d repo landed) \<rparr>)
               (filter (\<lambda>m. mc_id m = landed) (main_commits d)))
       (sortStable strCompare (remdups (map tc_repo (filter (\<lambda>c. tc_task c = tid) (task_commits d))))))"

section \<open>The resolver\<close>

definition advanceableStates :: "string list" where
  "advanceableStates = [''ready'', ''in_progress'', ''in_review'', ''merged'', ''deployed_dev'']"

definition TasksBelowFrontier :: "db \<Rightarrow> string \<Rightarrow> int \<Rightarrow> string list" where
  "TasksBelowFrontier d repo frontier =
     remdups (map tc_task (filter (\<lambda>c. tc_repo c = repo \<and>
         (\<exists>m\<in>set (main_commits d). mc_repo m = tc_repo c \<and> mc_sha m = tc_sha c \<and> mc_id m \<le> frontier) \<and>
         (\<exists>t\<in>set (tasks d). t_id t = tc_task c \<and> live t \<and> t_state t \<in> set advanceableStates))
       (task_commits d)))"

definition covered :: "int \<Rightarrow> int option \<Rightarrow> bool" where
  "covered landed frontier \<longleftrightarrow> (case frontier of None \<Rightarrow> False | Some x \<Rightarrow> landed \<le> x)"

text \<open>One of the resolver's steps: a transition from the state the task stands
  in.\<close>

definition advance ::
  "int \<Rightarrow> int \<Rightarrow> string \<Rightarrow> string \<Rightarrow> string \<times> bool \<times> db \<Rightarrow> err + string \<times> bool \<times> db" where
  "advance now eventID tid target = (\<lambda>(st, moved, d).
     andThen (transitionKnown climbFuel now eventID tid st st target d) (\<lambda>d'. Inr (target, True, d')))"

definition ResolveDelivery ::
  "int \<Rightarrow> string \<Rightarrow> string \<Rightarrow> int \<Rightarrow> db \<Rightarrow> err + bool \<times> db" where
  "ResolveDelivery now tid repo eventID d =
     (case row (\<lambda>t. t_id t = tid \<and> live t) (tasks d) of
        None \<Rightarrow> Inr (False, d)
      | Some t \<Rightarrow>
          if hasChildren d tid then Inr (False, d)
          else case LandedMainID d tid repo of
            None \<Rightarrow> Inr (False, d)
          | Some landed \<Rightarrow>
              if t_state t \<notin> set advanceableStates then Inr (False, d)
              else
                andThen (if t_state t \<in> set [''ready'', ''in_progress'', ''in_review'']
                         then advance now eventID tid ''merged'' (t_state t, False, d)
                         else Inr (t_state t, False, d)) (\<lambda>(st, moved, d).
                andThen (if st = ''merged'' \<and> covered landed (ConfirmedFrontier d repo ''dev'')
                         then advance now eventID tid ''deployed_dev'' (st, moved, d)
                         else Inr (st, moved, d)) (\<lambda>(st, moved, d).
                if RepoDoneState d repo = ''released''
                then (if covered landed (ReleaseFrontier d repo)
                      then andThen (advance now eventID tid ''released'' (st, moved, d))
                             (\<lambda>(_, _, d). Inr (True, d))
                      else Inr (moved, d))
                else if covered landed (ConfirmedFrontier d repo ''prod'')
                then andThen (advance now eventID tid ''deployed_prod'' (st, moved, d))
                       (\<lambda>(_, _, d). Inr (True, d))
                else Inr (moved, d))))"

section \<open>Moving a set of tasks\<close>

text \<open>The loop shared by the push, deploy and release handlers and the local
  merge: resolve each task, then name the moved ones on the event.\<close>

definition resolveOne ::
  "int \<Rightarrow> string \<Rightarrow> int \<Rightarrow> string \<Rightarrow> string list \<times> db \<Rightarrow> err + string list \<times> db" where
  "resolveOne now repo eventID tid = (\<lambda>(moved, d).
     andThen (ResolveDelivery now tid repo eventID d) (\<lambda>(m, d').
     Inr (if m then moved @ [tid] else moved, d')))"

definition nameMoved :: "int \<Rightarrow> string list \<Rightarrow> db \<Rightarrow> err + db" where
  "nameMoved eventID moved d =
     (if moved = [] then Inr d
      else MergeEventPayload eventID [(''tasks'', JArr (map JStr moved))] d)"

definition resolveAll :: "int \<Rightarrow> string \<Rightarrow> string list \<Rightarrow> int \<Rightarrow> db \<Rightarrow> err + db" where
  "resolveAll now repo ids eventID d =
     andThen (foldE (resolveOne now repo eventID) ids ([], d)) (\<lambda>(moved, d'). nameMoved eventID moved d')"

section \<open>Local merges\<close>

definition localMergeOne ::
  "int \<Rightarrow> string \<Rightarrow> string \<Rightarrow> int \<Rightarrow> string list \<Rightarrow> string \<Rightarrow>
     (string \<times> string) list \<times> string list \<times> db \<Rightarrow>
     err + (string \<times> string) list \<times> string list \<times> db" where
  "localMergeOne now repo sha eventID prior tid = (\<lambda>(out, moved, d).
     if \<not> taskExists d tid then Inr (out @ [(tid, ''unknown_task'')], moved, d)
     else
       andThen (InsertTaskCommit \<lparr>tc_task = tid, tc_repo = repo, tc_sha = sha,
                  tc_source = ''local_merge'', tc_seen_at = now\<rparr> d) (\<lambda>d1.
       andThen (resolveOne now repo eventID tid (moved, d1)) (\<lambda>(moved', d2).
       Inr (out @ [(tid, if tid \<in> set prior then ''duplicate'' else ''advanced'')], moved', d2))))"

definition RecordLocalMerge ::
  "int \<Rightarrow> string \<Rightarrow> string \<Rightarrow> string list \<Rightarrow> int \<Rightarrow> db \<Rightarrow> err + (string \<times> string) list \<times> db" where
  "RecordLocalMerge now repo sha taskIDs eventID d =
     (let d1 = snd (AppendMainCommit repo sha now d);
          prior = TaskIDsForSHA d1 repo sha;
          ids = sortStable strCompare (remdups taskIDs)
      in andThen (foldE (localMergeOne now repo sha eventID prior) ids ([], [], d1)) (\<lambda>(out, moved, d2).
         andThen (nameMoved eventID moved d2) (\<lambda>d3. Inr (out, d3))))"

end
