(* ===== verification/DeliverySpec.thy ===== *)
theory DeliverySpec
  imports Delivery LeaseSpec
begin

text \<open>
  What delivery tracking promises: the resolver takes a task exactly as far as
  the recorded facts allow, forward only, and running it again changes nothing;
  the confirmed frontier is a function of the set of signals received, whatever
  their order and however often they are redelivered. One theorem records that
  the state reached still depends on the order signals arrive in.
\<close>

section \<open>The target of a resolve\<close>

text \<open>Where the facts put a task: landed, confirmed in dev, and then released
  or in prod according to the repo's done state.\<close>

definition deliveryTarget :: "string \<Rightarrow> string \<Rightarrow> bool \<Rightarrow> bool \<Rightarrow> bool \<Rightarrow> string" where
  "deliveryTarget st doneState inDev inProd inRelease =
     (let landed = (if st \<in> set [''ready'', ''in_progress'', ''in_review''] then ''merged'' else st);
          deployed = (if landed = ''merged'' \<and> inDev then ''deployed_dev'' else landed)
      in if doneState = ''released'' then (if inRelease then ''released'' else deployed)
         else if inProd then ''deployed_prod'' else deployed)"

definition resolveTarget :: "db \<Rightarrow> string \<Rightarrow> string \<Rightarrow> int \<Rightarrow> string" where
  "resolveTarget d st repo landed =
     deliveryTarget st (RepoDoneState d repo) (covered landed (ConfirmedFrontier d repo ''dev''))
       (covered landed (ConfirmedFrontier d repo ''prod'')) (covered landed (ReleaseFrontier d repo))"

text \<open>What the resolver reads stays as it is while it moves the task.\<close>

definition sameFacts :: "db \<Rightarrow> db \<Rightarrow> bool" where
  "sameFacts d0 d \<longleftrightarrow> otherTables d0 d \<and> hierarchyOk d \<and> (\<forall>x. hasChildren d x = hasChildren d0 x)"

lemma sameFacts_reads:
  assumes "sameFacts d0 d"
  shows "LandedMainID d tid repo = LandedMainID d0 tid repo"
    "ConfirmedFrontier d repo env = ConfirmedFrontier d0 repo env"
    "ReleaseFrontier d repo = ReleaseFrontier d0 repo" "RepoDoneState d repo = RepoDoneState d0 repo"
proof -
  have t: "task_commits d = task_commits d0" "main_commits d = main_commits d0"
    "env_deploys d = env_deploys d0" "release_frontiers d = release_frontiers d0"
    "project_repos d = project_repos d0"
    using assms unfolding sameFacts_def by blast+
  show "LandedMainID d tid repo = LandedMainID d0 tid repo"
    "ConfirmedFrontier d repo env = ConfirmedFrontier d0 repo env"
    "ReleaseFrontier d repo = ReleaseFrontier d0 repo" "RepoDoneState d repo = RepoDoneState d0 repo"
    by (simp_all only: LandedMainID_def landedIDs_def ConfirmedFrontier_def envRow_def
        ReleaseFrontier_def RepoDoneState_def t)
qed

lemma advance_InrD:
  assumes "advance now ev tid target (st, moved, d) = Inr (st', moved', d')"
    and "sameFacts d0 d" "taskRow d tid = Some t" "t_state t = st" "live t"
  shows "st' = target \<and> moved' \<and> sameFacts d0 d' \<and>
     (\<exists>t'. taskRow d' tid = Some t' \<and> t_state t' = target \<and> live t') \<and> legal st target"
proof -
  have tr: "transitionKnown climbFuel now ev tid (t_state t) st target d = Inr d'"
    and r: "st' = target" "moved'"
    using assms(1) unfolding assms(4) advance_def prod.case andThen_Inr_iff by blast+
  have h: "hierarchyOk d" using assms(2) by (simp add: sameFacts_def)
  have ot: "otherTables d d'" by (rule machine_frame.transitionKnown_keeps[OF _ assms(3) tr]) simp_all
  have ch: "\<forall>x. hasChildren d' x = hasChildren d x"
    by (rule machine_children.transitionKnown_keeps[OF _ assms(3) tr]) simp
  have te: "task_edges d' = task_edges d" using ot by blast
  have h': "hierarchyOk d'" using h unfolding hierarchyOk_def edgeRel_cong[OF te] .
  note d0 = assms(2)[unfolded sameFacts_def]
  have "otherTables d0 d'" using d0 ot by (simp only:)
  moreover have "\<forall>x. hasChildren d' x = hasChildren d0 x" using d0 ch by simp
  ultimately have sf: "sameFacts d0 d'" using h' unfolding sameFacts_def by blast
  have "movedLegally d d'" by (rule machine_legal.transitionKnown_keeps[OF movedLegally_refl assms(3) tr])
  from movedLegally_row[OF this assms(3)] obtain t' where t': "taskRow d' tid = Some t'" "live t'"
    using assms(5) by auto
  have "t_state t' = target"
    using transitionKnown_own(2)[OF h assms(3) tr] t'(1) by (simp add: stateOf_def)
  moreover have "legal st target"
    using tr checkTransition_InrD(1) by (auto elim!: transitionKnown_InrE)
  ultimately show ?thesis using r sf t' by blast
qed


lemma maybe_advance:
  assumes "(if c then advance now ev tid target (st, moved, d) else Inr (st, moved, d)) = Inr (st', moved', d')"
    and "sameFacts d0 d" "taskRow d tid = Some t" "t_state t = st" "live t"
  shows "st' = (if c then target else st) \<and> moved' = (c \<or> moved) \<and> sameFacts d0 d' \<and>
     (\<exists>t'. taskRow d' tid = Some t' \<and> t_state t' = st' \<and> live t') \<and> (\<not> c \<longrightarrow> d' = d)"
proof (cases c)
  case True
  then have "advance now ev tid target (st, moved, d) = Inr (st', moved', d')"
    using assms(1) by (simp only: if_True)
  from advance_InrD[OF this assms(2-5)] True show ?thesis by simp
next
  case False
  then have "st' = st" "moved' = moved" "d' = d" using assms(1) by simp_all
  then show ?thesis using False assms(2-5) by simp
qed

lemma resolve_skips:
  "row (\<lambda>t. t_id t = tid \<and> live t) (tasks d) = None \<or> hasChildren d tid \<or>
   LandedMainID d tid repo = None \<Longrightarrow> ResolveDelivery now tid repo ev d = Inr (False, d)"
  unfolding ResolveDelivery_def by (elim disjE) (simp_all split: option.split)

text \<open>The three steps, each a transition when its condition holds.\<close>

lemma ResolveDelivery_InrE:
  assumes "ResolveDelivery now tid repo ev d = Inr (moved, d')"
    and "row (\<lambda>t. t_id t = tid \<and> live t) (tasks d) = Some t" "\<not> hasChildren d tid"
    and "LandedMainID d tid repo = Some landed" "t_state t \<in> set advanceableStates"
  shows "\<exists>st1 m1 d1 st2 m2 d2 st3.
    (if t_state t \<in> set [''ready'', ''in_progress'', ''in_review'']
      then advance now ev tid ''merged'' (t_state t, False, d) else Inr (t_state t, False, d)) = Inr (st1, m1, d1) \<and>
    (if st1 = ''merged'' \<and> covered landed (ConfirmedFrontier d1 repo ''dev'')
      then advance now ev tid ''deployed_dev'' (st1, m1, d1) else Inr (st1, m1, d1)) = Inr (st2, m2, d2) \<and>
    (if (if RepoDoneState d2 repo = ''released'' then covered landed (ReleaseFrontier d2 repo)
          else covered landed (ConfirmedFrontier d2 repo ''prod''))
      then advance now ev tid (if RepoDoneState d2 repo = ''released'' then ''released'' else ''deployed_prod'')
             (st2, m2, d2) else Inr (st2, m2, d2)) = Inr (st3, moved, d')"
proof -
  let ?s1 = "if t_state t \<in> set [''ready'', ''in_progress'', ''in_review'']
      then advance now ev tid ''merged'' (t_state t, False, d) else Inr (t_state t, False, d)"
  obtain x1 where x1: "?s1 = Inr x1" and r1: "(\<lambda>(st, moved, d).
        andThen (if st = ''merged'' \<and> covered landed (ConfirmedFrontier d repo ''dev'')
                 then advance now ev tid ''deployed_dev'' (st, moved, d) else Inr (st, moved, d)) (\<lambda>(st, moved, d).
        if RepoDoneState d repo = ''released''
        then (if covered landed (ReleaseFrontier d repo)
              then andThen (advance now ev tid ''released'' (st, moved, d)) (\<lambda>(_, _, d). Inr (True, d))
              else Inr (moved, d))
        else if covered landed (ConfirmedFrontier d repo ''prod'')
        then andThen (advance now ev tid ''deployed_prod'' (st, moved, d)) (\<lambda>(_, _, d). Inr (True, d))
        else Inr (moved, d))) x1 = Inr (moved, d')"
    using assms unfolding ResolveDelivery_def by (simp only: option.case if_False if_not_P not_not) (erule andThen_InrE, blast)
  obtain st1 m1 d1 where e1: "x1 = (st1, m1, d1)" by (cases x1)
  let ?s2 = "if st1 = ''merged'' \<and> covered landed (ConfirmedFrontier d1 repo ''dev'')
      then advance now ev tid ''deployed_dev'' (st1, m1, d1) else Inr (st1, m1, d1)"
  obtain x2 where x2: "?s2 = Inr x2" and r2: "(\<lambda>(st, moved, d).
        if RepoDoneState d repo = ''released''
        then (if covered landed (ReleaseFrontier d repo)
              then andThen (advance now ev tid ''released'' (st, moved, d)) (\<lambda>(_, _, d). Inr (True, d))
              else Inr (moved, d))
        else if covered landed (ConfirmedFrontier d repo ''prod'')
        then andThen (advance now ev tid ''deployed_prod'' (st, moved, d)) (\<lambda>(_, _, d). Inr (True, d))
        else Inr (moved, d)) x2 = Inr (moved, d')"
    using r1 unfolding e1 prod.case by (rule andThen_InrE)
  obtain st2 m2 d2 where e2: "x2 = (st2, m2, d2)" by (cases x2)
  note r2 = r2[unfolded e2 prod.case]
  have last: "andThen (advance now ev tid target (st2, m2, d2)) (\<lambda>(_, _, d). Inr (True, d)) = Inr (moved, d') \<Longrightarrow>
      \<exists>st3. advance now ev tid target (st2, m2, d2) = Inr (st3, moved, d')" for target
    by (auto simp: advance_def andThen_Inr_iff)
  have "\<exists>st3. (if (if RepoDoneState d2 repo = ''released'' then covered landed (ReleaseFrontier d2 repo)
          else covered landed (ConfirmedFrontier d2 repo ''prod''))
      then advance now ev tid (if RepoDoneState d2 repo = ''released'' then ''released'' else ''deployed_prod'')
             (st2, m2, d2) else Inr (st2, m2, d2)) = Inr (st3, moved, d')"
    using r2 last by (simp split: if_splits)
  then show ?thesis using x1 x2 unfolding e1 e2 by blast
qed


lemma deliveryTarget_from:
  "deliveryTarget ''ready'' d a b c = deliveryTarget ''merged'' d a b c"
  "deliveryTarget ''in_progress'' d a b c = deliveryTarget ''merged'' d a b c"
  "deliveryTarget ''in_review'' d a b c = deliveryTarget ''merged'' d a b c"
  "deliveryTarget ''merged'' d a b c =
     (if d = ''released'' then if c then ''released'' else if a then ''deployed_dev'' else ''merged''
      else if b then ''deployed_prod'' else if a then ''deployed_dev'' else ''merged'')"
  "deliveryTarget ''deployed_dev'' d a b c =
     (if d = ''released'' then if c then ''released'' else ''deployed_dev''
      else if b then ''deployed_prod'' else ''deployed_dev'')"
  by (simp_all add: deliveryTarget_def)

lemma deliveryTarget_moves:
  assumes "st \<in> set advanceableStates"
  shows "deliveryRank st \<le> deliveryRank (deliveryTarget st d a b c)"
    and "deliveryTarget st d a b c \<in> set advanceableStates \<Longrightarrow>
         deliveryTarget (deliveryTarget st d a b c) d a b c = deliveryTarget st d a b c"
proof -
  have "st = ''ready'' \<or> st = ''in_progress'' \<or> st = ''in_review'' \<or> st = ''merged'' \<or> st = ''deployed_dev''"
    using assms by (simp add: advanceableStates_def)
  then show "deliveryRank st \<le> deliveryRank (deliveryTarget st d a b c)"
    by (elim disjE) (simp_all add: deliveryTarget_from)
  have m: "x = ''merged'' \<or> x = ''deployed_dev'' \<Longrightarrow> deliveryTarget x d a b c \<in> set advanceableStates \<Longrightarrow>
      deliveryTarget (deliveryTarget x d a b c) d a b c = deliveryTarget x d a b c" for x
    by (elim disjE) (auto simp: deliveryTarget_from advanceableStates_def split: if_splits)
  show "deliveryTarget st d a b c \<in> set advanceableStates \<Longrightarrow>
         deliveryTarget (deliveryTarget st d a b c) d a b c = deliveryTarget st d a b c"
    using \<open>st = _ \<or> _\<close> m[of "''merged''"] m[of "''deployed_dev''"]
    by (elim disjE) (simp_all only: deliveryTarget_from(1-3) simp_thms)
qed

text \<open>A live task with no children whose work landed ends where the facts put
  it, whatever it was told before.\<close>

lemma resolve_moves:
  assumes "hierarchyOk d" "distinct (map t_id (tasks d))" "taskRow d tid = Some t" "live t"
    and "\<not> hasChildren d tid" "LandedMainID d tid repo = Some landed" "t_state t \<in> set advanceableStates"
    and "ResolveDelivery now tid repo ev d = Inr (moved, d')"
  shows "sameFacts d d' \<and> (\<exists>t'. taskRow d' tid = Some t' \<and> live t' \<and>
            t_state t' = resolveTarget d (t_state t) repo landed) \<and>
     (moved \<longleftrightarrow> resolveTarget d (t_state t) repo landed \<noteq> t_state t) \<and> (\<not> moved \<longrightarrow> d' = d)"
proof -
  have row: "row (\<lambda>u. t_id u = tid \<and> live u) (tasks d) = Some t"
    using row_unique_live[OF assms(2), of t] assms(3,4) taskRow_SomeD[OF assms(3)] by auto
  have sf: "sameFacts d d" using assms(1) by (simp add: sameFacts_def)
  obtain st1 m1 d1 st2 m2 d2 st3 where
    s1: "(if t_state t \<in> set [''ready'', ''in_progress'', ''in_review'']
      then advance now ev tid ''merged'' (t_state t, False, d) else Inr (t_state t, False, d)) = Inr (st1, m1, d1)"
    and s2: "(if st1 = ''merged'' \<and> covered landed (ConfirmedFrontier d1 repo ''dev'')
      then advance now ev tid ''deployed_dev'' (st1, m1, d1) else Inr (st1, m1, d1)) = Inr (st2, m2, d2)"
    and s3: "(if (if RepoDoneState d2 repo = ''released'' then covered landed (ReleaseFrontier d2 repo)
          else covered landed (ConfirmedFrontier d2 repo ''prod''))
      then advance now ev tid (if RepoDoneState d2 repo = ''released'' then ''released'' else ''deployed_prod'')
             (st2, m2, d2) else Inr (st2, m2, d2)) = Inr (st3, moved, d')"
    using ResolveDelivery_InrE[OF assms(8) row assms(5,6,7)] by blast
  note a1 = maybe_advance[OF s1 sf assms(3) refl assms(4)]
  obtain t1 where t1: "taskRow d1 tid = Some t1" "t_state t1 = st1" "live t1" using a1 by blast
  have f1: "sameFacts d d1" using a1 by blast
  note a2 = maybe_advance[OF s2 f1 t1]
  obtain t2 where t2: "taskRow d2 tid = Some t2" "t_state t2 = st2" "live t2" using a2 by blast
  have f2: "sameFacts d d2" using a2 by blast
  note a3 = maybe_advance[OF s3 f2 t2]
  note reads = sameFacts_reads[OF f1] sameFacts_reads[OF f2]
  have st3: "st3 = resolveTarget d (t_state t) repo landed"
    using a1 a2 a3 unfolding resolveTarget_def deliveryTarget_def Let_def reads by (simp split: if_splits)
  let ?c1 = "t_state t \<in> set [''ready'', ''in_progress'', ''in_review'']"
    and ?c2 = "st1 = ''merged'' \<and> covered landed (ConfirmedFrontier d1 repo ''dev'')"
    and ?c3 = "if RepoDoneState d2 repo = ''released'' then covered landed (ReleaseFrontier d2 repo)
          else covered landed (ConfirmedFrontier d2 repo ''prod'')"
  have mv: "moved = (?c3 \<or> ?c2 \<or> ?c1)" using a1 a2 a3 by blast
  have e: "st1 = (if ?c1 then ''merged'' else t_state t)" "st2 = (if ?c2 then ''deployed_dev'' else st1)"
    "st3 = (if ?c3 then if RepoDoneState d2 repo = ''released'' then ''released'' else ''deployed_prod'' else st2)"
    using a1 a2 a3 by blast+
  have "?c3 \<Longrightarrow> st3 \<noteq> t_state t" using e(3) assms(7) by (auto simp: advanceableStates_def)
  moreover have "\<not> ?c3 \<Longrightarrow> ?c2 \<Longrightarrow> st3 \<noteq> t_state t" using e by (auto split: if_splits)
  moreover have "\<not> ?c3 \<Longrightarrow> \<not> ?c2 \<Longrightarrow> ?c1 \<Longrightarrow> st3 \<noteq> t_state t"
  proof -
    assume "\<not> ?c3" "\<not> ?c2" ?c1
    then have "st3 = ''merged''" using e by (simp only: if_False if_True)
    then show "st3 \<noteq> t_state t" using \<open>?c1\<close> by auto
  qed
  moreover have "\<not> ?c3 \<Longrightarrow> \<not> ?c2 \<Longrightarrow> \<not> ?c1 \<Longrightarrow> st3 = t_state t" using e by (simp only: if_False)
  ultimately have moved: "moved \<longleftrightarrow> st3 \<noteq> t_state t" using mv by blast
  have same: "\<not> moved \<longrightarrow> d' = d" using a1 a2 a3 by blast
  obtain t' where "taskRow d' tid = Some t'" "t_state t' = st3" "live t'" "sameFacts d d'" using a3 by blast
  then show ?thesis unfolding st3[symmetric] using moved same by blast
qed


lemma resolve_noop:
  assumes "distinct (map t_id (tasks d))" "ResolveDelivery now tid repo ev d = Inr (moved, d')"
    and "taskRow d tid = Some t \<Longrightarrow> LandedMainID d tid repo = Some landed \<Longrightarrow>
      \<not> (live t \<and> \<not> hasChildren d tid \<and> t_state t \<in> set advanceableStates)"
    and "taskRow d tid = None \<or> LandedMainID d tid repo = None \<or>
      taskRow d tid = Some t \<and> LandedMainID d tid repo = Some landed"
  shows "\<not> moved \<and> d' = d"
proof (cases "row (\<lambda>t. t_id t = tid \<and> live t) (tasks d)")
  case None
  then show ?thesis using assms(2) by (simp add: ResolveDelivery_def)
next
  case (Some u)
  then have "taskRow d tid = Some u" "live u" using liveRow[OF assms(1) Some] by simp_all
  then show ?thesis using assms(2-4) Some by (auto simp: ResolveDelivery_def split: if_splits)
qed

text \<open>C9: what a resolve that succeeds does, whatever it is asked about. A live
  task with no children, whose work landed and which stands in ready,
  in_progress, in_review, merged or deployed_dev, is taken exactly where the
  recorded facts put it; it says it moved the task if and only if the state
  changed, and never goes back on the delivery path. For every other task (none,
  deleted, a parent, nothing landed, draft, obsolete, deployed_prod, released) it
  says it moved nothing. When it moved nothing the database is unchanged; in
  every case the edges, leases, commits, repositories, watermarks and the other
  tables around the task are.\<close>

theorem resolve_outcome:
  assumes "hierarchyOk d" "distinct (map t_id (tasks d))"
    and "ResolveDelivery now tid repo ev d = Inr (moved, d')"
  shows "(case taskRow d tid of None \<Rightarrow> \<not> moved
     | Some t \<Rightarrow> (case LandedMainID d tid repo of None \<Rightarrow> \<not> moved
        | Some landed \<Rightarrow>
            if live t \<and> \<not> hasChildren d tid \<and> t_state t \<in> set advanceableStates
            then stateOf d' tid = Some (resolveTarget d (t_state t) repo landed) \<and>
              (moved \<longleftrightarrow> resolveTarget d (t_state t) repo landed \<noteq> t_state t) \<and>
              deliveryRank (t_state t) \<le> deliveryRank (resolveTarget d (t_state t) repo landed)
            else \<not> moved)) \<and>
     (moved \<or> d' = d) \<and> otherTables d d'"
proof -
  note skips = resolve_noop[OF assms(2,3)]
  show ?thesis
  proof (cases "taskRow d tid")
    case None
    then show ?thesis using skips by simp
  next
    case t: (Some t)
    show ?thesis
    proof (cases "LandedMainID d tid repo")
      case None
      then show ?thesis using skips t by simp
    next
      case landed: (Some landed)
      show ?thesis
      proof (cases "live t \<and> \<not> hasChildren d tid \<and> t_state t \<in> set advanceableStates")
        case False
        then have "\<not> moved \<and> d' = d" using skips[of t landed] t landed by blast
        then show ?thesis using t landed False by (simp only: option.case if_False) simp
      next
        case True
        then have c: "live t" "\<not> hasChildren d tid" "t_state t \<in> set advanceableStates" by simp_all
        note m = resolve_moves[OF assms(1,2) t c(1,2) landed c(3) assms(3)]
        have "stateOf d' tid = Some (resolveTarget d (t_state t) repo landed)"
          using m by (auto simp: stateOf_def)
        moreover have "deliveryRank (t_state t) \<le> deliveryRank (resolveTarget d (t_state t) repo landed)"
          unfolding resolveTarget_def by (rule deliveryTarget_moves(1)[OF c(3)])
        moreover have "otherTables d d'" using m unfolding sameFacts_def by blast
        ultimately show ?thesis using m t landed c by (simp only: option.case if_True simp_thms) blast
      qed
    qed
  qed
qed

definition landedDb :: db where
  "landedDb = (sampleDb [sampleTask ''WL-1'' ''feature'' ''in_review''] [])\<lparr>
     main_commits := [\<lparr>mc_id = 1, mc_repo = ''r'', mc_sha = ''a'', mc_pushed_at = 0\<rparr>,
       \<lparr>mc_id = 2, mc_repo = ''r'', mc_sha = ''b'', mc_pushed_at = 0\<rparr>], next_main_id := 3,
     task_commits := [\<lparr>tc_task = ''WL-1'', tc_repo = ''r'', tc_sha = ''b'', tc_source = ''pr'', tc_seen_at = 0\<rparr>],
     env_deploys := [\<lparr>ed_repo = ''r'', ed_environment = ''dev'', ed_gh_main_id = Some 2,
       ed_flux_main_id = None, ed_flux_seen = False, ed_updated_at = 0\<rparr>]\<rparr>"

definition landedRun :: "bool \<times> db" where
  "landedRun = projr (ResolveDelivery 9 ''WL-1'' ''r'' 1 landedDb)"

lemma landedDb_ok:
  "hierarchyOk landedDb" "distinct (map t_id (tasks landedDb))"
  "taskRow landedDb ''WL-1'' = Some (sampleTask ''WL-1'' ''feature'' ''in_review'')"
  "\<not> hasChildren landedDb ''WL-1''" "LandedMainID landedDb ''WL-1'' ''r'' = Some 2"
  "t_state (sampleTask ''WL-1'' ''feature'' ''in_review'') \<in> set advanceableStates"
  "ResolveDelivery 9 ''WL-1'' ''r'' 1 landedDb = Inr (fst landedRun, snd landedRun)"
proof -
  show "hierarchyOk landedDb"
    by (simp add: hierarchyOk_def edgeRel_def landedDb_def acyclic_def)
  show "distinct (map t_id (tasks landedDb))" by code_simp
  show "taskRow landedDb ''WL-1'' = Some (sampleTask ''WL-1'' ''feature'' ''in_review'')" by code_simp
  show "\<not> hasChildren landedDb ''WL-1''" by code_simp
  show "LandedMainID landedDb ''WL-1'' ''r'' = Some 2" by code_simp
  show "t_state (sampleTask ''WL-1'' ''feature'' ''in_review'') \<in> set advanceableStates"
    by (simp add: advanceableStates_def)
  have "\<not> isl (ResolveDelivery 9 ''WL-1'' ''r'' 1 landedDb)" by code_simp
  then show "ResolveDelivery 9 ''WL-1'' ''r'' 1 landedDb = Inr (fst landedRun, snd landedRun)"
    unfolding landedRun_def using succeeded by force
qed

theorem resolve_outcome_witness:
  "stateOf (snd landedRun) ''WL-1'' = Some ''deployed_dev'' \<and> fst landedRun"
proof -
  have "resolveTarget landedDb ''in_review'' ''r'' 2 = ''deployed_dev''" by code_simp
  then show ?thesis
    using resolve_outcome[OF landedDb_ok(1,2,7)] landedDb_ok(3-6) by simp
qed

lemma resolve_fixed:
  assumes "row (\<lambda>t. t_id t = tid \<and> live t) (tasks d) = Some t" "\<not> hasChildren d tid"
    and "LandedMainID d tid repo = Some landed" "t_state t \<in> set advanceableStates"
    and "resolveTarget d (t_state t) repo landed = t_state t"
  shows "ResolveDelivery now tid repo ev d = Inr (False, d)"
proof -
  have s: "t_state t = ''merged'' \<or> t_state t = ''deployed_dev''"
    using assms(4,5) unfolding resolveTarget_def
    by (auto simp: advanceableStates_def deliveryTarget_from split: if_splits)
  have "\<not> (t_state t = ''merged'' \<and> covered landed (ConfirmedFrontier d repo ''dev''))"
    "RepoDoneState d repo = ''released'' \<Longrightarrow> \<not> covered landed (ReleaseFrontier d repo)"
    "RepoDoneState d repo \<noteq> ''released'' \<Longrightarrow> \<not> covered landed (ConfirmedFrontier d repo ''prod'')"
    using s assms(5) unfolding resolveTarget_def
    by (auto simp: deliveryTarget_from split: if_splits)
  then show ?thesis
    using s assms(1-4) by (cases "RepoDoneState d repo = ''released''") (auto simp: ResolveDelivery_def)
qed

text \<open>Resolving is idempotent: after a resolve that succeeds, a second one
  for the same task and repo, under whatever event and clock, moves nothing and
  changes nothing.\<close>

theorem resolve_idempotent:
  assumes "hierarchyOk d" "distinct (map t_id (tasks d))"
    and "ResolveDelivery now tid repo ev d = Inr (moved, d')"
  shows "ResolveDelivery now2 tid repo ev2 d' = Inr (False, d')"
proof (cases "row (\<lambda>t. t_id t = tid \<and> live t) (tasks d)")
  case None
  then have "ResolveDelivery n tid repo e d = Inr (False, d)" for n e
    by (rule resolve_skips[OF disjI1])
  then show ?thesis using assms(3) by simp
next
  case (Some t)
  then have t: "taskRow d tid = Some t" "live t" using liveRow[OF assms(2) Some] by auto
  show ?thesis
  proof (cases "hasChildren d tid \<or> LandedMainID d tid repo = None")
    case True
    then have "ResolveDelivery n tid repo e d = Inr (False, d)" for n e
      by (intro resolve_skips) blast
    then show ?thesis using assms(3) by simp
  next
    case f: False
    then obtain landed where l: "LandedMainID d tid repo = Some landed" by blast
    show ?thesis
    proof (cases "t_state t \<in> set advanceableStates")
      case False
      then have "ResolveDelivery n tid repo e d = Inr (False, d)" for n e
        using Some f l by (simp add: ResolveDelivery_def)
      then show ?thesis using assms(3) by simp
    next
      case True
      have m: "sameFacts d d'" "\<exists>t'. taskRow d' tid = Some t' \<and> live t' \<and>
            t_state t' = resolveTarget d (t_state t) repo landed"
        using resolve_moves[OF assms(1,2) t _ l True assms(3)] f by blast+
      obtain t' where t': "taskRow d' tid = Some t'" "live t'"
        "t_state t' = resolveTarget d (t_state t) repo landed" using m(2) by blast
      have ids: "distinct (map t_id (tasks d'))" "hierarchyOk d'" "\<not> hasChildren d' tid"
        using m(1) assms(2) f unfolding sameFacts_def by simp_all
      have row': "row (\<lambda>u. t_id u = tid \<and> live u) (tasks d') = Some t'"
        using row_unique_live[OF ids(1), of t'] t' taskRow_SomeD[OF t'(1)] by auto
      have l': "LandedMainID d' tid repo = Some landed" using sameFacts_reads(1)[OF m(1)] l by simp
      show ?thesis
      proof (cases "t_state t' \<in> set advanceableStates")
        case False
        then show ?thesis using row' ids(3) l' by (simp add: ResolveDelivery_def)
      next
        case adv: True
        have same: "resolveTarget d' (t_state t') repo landed = t_state t'"
          using deliveryTarget_moves(2)[OF True] adv sameFacts_reads(2-4)[OF m(1)]
          unfolding t'(3) resolveTarget_def by simp
        show ?thesis
          using resolve_fixed[OF row' ids(3) l' adv same] .
      qed
    qed
  qed
qed

theorem resolve_idempotent_witness:
  "ResolveDelivery 10 ''WL-1'' ''r'' 2 (snd landedRun) = Inr (False, snd landedRun)"
  by (rule resolve_idempotent[OF landedDb_ok(1,2,7)])

section \<open>The confirmed frontier\<close>

text \<open>What an environment of a repo has been told, abstractly: the commits
  GitHub reported deployed and the commits Flux reported running, as sets.
  Until Flux has spoken once GitHub alone confirms; from then on a commit
  counts when both have reached it.\<close>

definition deployFrontier :: "int set \<Rightarrow> int set \<Rightarrow> int option" where
  "deployFrontier gh flux =
     (if flux = {} then if gh = {} then None else Some (Max gh)
      else if gh = {} then None else Some (min (Max gh) (Max flux)))"

datatype signal = GHDeploy int int | FluxReady int int

fun deliver :: "string \<Rightarrow> string \<Rightarrow> signal \<Rightarrow> db \<Rightarrow> err + db" where
  "deliver repo env (GHDeploy now i) d = BumpEnvDeployGH now repo env i d"
| "deliver repo env (FluxReady now i) d =
     andThen (BumpEnvDeployFlux now repo env i d) (\<lambda>(_, d'). Inr d')"

fun tell :: "signal \<Rightarrow> int set \<times> int set \<Rightarrow> int set \<times> int set" where
  "tell (GHDeploy _ i) (gh, flux) = (insert i gh, flux)"
| "tell (FluxReady _ i) (gh, flux) = (gh, insert i flux)"

fun signalID :: "signal \<Rightarrow> int" where
  "signalID (GHDeploy _ i) = i" | "signalID (FluxReady _ i) = i"

definition maxOf :: "int set \<Rightarrow> int option" where
  "maxOf S = (if S = {} then None else Some (Max S))"

lemma maxOf_insert: "finite S \<Longrightarrow> maxOf (insert i S) = Some (case maxOf S of None \<Rightarrow> i | Some x \<Rightarrow> max x i)"
  by (auto simp: maxOf_def max.commute)

text \<open>The row holds the two maxima and whether Flux has spoken.\<close>

definition holds :: "db \<Rightarrow> string \<Rightarrow> string \<Rightarrow> int set \<times> int set \<Rightarrow> bool" where
  "holds d repo env = (\<lambda>(gh, flux). finite gh \<and> finite flux \<and> (\<forall>i\<in>gh \<union> flux. 0 < i \<and> mainExists d i) \<and>
     (case envRow d repo env of
        None \<Rightarrow> gh = {} \<and> flux = {}
      | Some e \<Rightarrow> ed_gh_main_id e = maxOf gh \<and> ed_flux_main_id e = maxOf flux \<and>
                  (ed_flux_seen e \<longleftrightarrow> flux \<noteq> {})))"

lemma holds_frontier:
  "holds d repo env (gh, flux) \<Longrightarrow> ConfirmedFrontier d repo env = deployFrontier gh flux"
  by (cases "envRow d repo env"; cases "gh = {}"; cases "flux = {}")
    (simp_all add: holds_def ConfirmedFrontier_def deployFrontier_def confirmedFrontierFrom_def maxOf_def)

lemma maxOf_in: "finite S \<Longrightarrow> maxOf S = Some x \<Longrightarrow> x \<in> S"
  by (simp add: maxOf_def Max_in split: if_splits) (metis Max_in)

lemma raise_maxOf:
  "finite S \<Longrightarrow> \<forall>i\<in>S. 0 < i \<Longrightarrow> 0 < i \<Longrightarrow> Some (raise (maxOf S) i) = maxOf (insert i S)"
  using maxOf_in[of S] by (auto simp: maxOf_insert raise_def split: option.split)

lemma envRow_append:
  "envRow d repo env = None \<Longrightarrow> ed_repo e = repo \<Longrightarrow> ed_environment e = env \<Longrightarrow>
   envRow (d\<lparr>env_deploys := env_deploys d @ [e]\<rparr>) r x =
     (if r = repo \<and> x = env then Some e else envRow d r x)"
  by (auto simp: envRow_def row_append split: option.split)

lemma envRow_update:
  assumes "envRow d repo env = Some e" "\<And>e. ed_repo (f e) = ed_repo e" "\<And>e. ed_environment (f e) = ed_environment e"
  shows "envRow (d\<lparr>env_deploys := updWhere (\<lambda>e. ed_repo e = repo \<and> ed_environment e = env) f (env_deploys d)\<rparr>) r x =
     (if r = repo \<and> x = env then Some (f e) else envRow d r x)"
proof -
  have "envRow (d\<lparr>env_deploys := updWhere (\<lambda>e. ed_repo e = repo \<and> ed_environment e = env) f (env_deploys d)\<rparr>) r x =
      map_option (\<lambda>e. if ed_repo e = repo \<and> ed_environment e = env then f e else e) (envRow d r x)"
    unfolding envRow_def by (simp add: row_updWhere_same assms(2,3))
  moreover have "envRow d r x = Some e' \<Longrightarrow> ed_repo e' = r \<and> ed_environment e' = x" for e'
    by (auto simp: envRow_def dest: row_SomeD)
  ultimately show ?thesis using assms(1) by (cases "envRow d r x") auto
qed

lemma bump_row:
  assumes "env = ''dev'' \<or> env = ''prod''"
    and "v = (case envRow d repo env of None \<Rightarrow> i | Some e \<Rightarrow> raise (getColumn column e) i)" "mainExists d v"
    and "base = (case envRow d repo env of
           None \<Rightarrow> \<lparr>ed_repo = repo, ed_environment = env, ed_gh_main_id = None,
                  ed_flux_main_id = None, ed_flux_seen = seen, ed_updated_at = now\<rparr>
         | Some e \<Rightarrow> e\<lparr>ed_flux_seen := ed_flux_seen e \<or> seen, ed_updated_at := now\<rparr>)"
  shows "\<exists>d'. bumpEnvDeploy now repo env column i seen d = Inr d' \<and> main_commits d' = main_commits d \<and>
     (\<forall>r x. envRow d' r x = (if r = repo \<and> x = env then Some (setColumn column v base) else envRow d r x))"
proof (cases "envRow d repo env")
  case None
  have ed: "ed_repo (setColumn column v base) = repo" "ed_environment (setColumn column v base) = env"
    using assms(4) None by (simp_all add: setColumn_def)
  have "bumpEnvDeploy now repo env column i seen d
      = Inr (d\<lparr>env_deploys := env_deploys d @ [setColumn column v base]\<rparr>)"
    using None assms by (auto simp: bumpEnvDeploy_def Let_def)
  then show ?thesis using envRow_append[OF None ed] by simp
next
  case (Some e)
  let ?f = "\<lambda>e. setColumn column v (e\<lparr>ed_flux_seen := ed_flux_seen e \<or> seen, ed_updated_at := now\<rparr>)"
  have "bumpEnvDeploy now repo env column i seen d = Inr (d\<lparr>env_deploys :=
      updWhere (\<lambda>e. ed_repo e = repo \<and> ed_environment e = env) ?f (env_deploys d)\<rparr>)"
    using Some assms(1-3) by (auto simp: bumpEnvDeploy_def Let_def)
  moreover have "?f e = setColumn column v base" using assms(4) Some by simp
  ultimately show ?thesis using envRow_update[OF Some, of ?f] by (simp add: setColumn_def)
qed

lemma mainExists_cong: "main_commits d' = main_commits d \<Longrightarrow> mainExists d' i = mainExists d i"
  by (simp add: mainExists_def)

text \<open>The value a signal writes: the newest of the commits of its kind.\<close>

definition written :: "db \<Rightarrow> string \<Rightarrow> string \<Rightarrow> string \<Rightarrow> int \<Rightarrow> int" where
  "written d repo env column i =
     (case envRow d repo env of None \<Rightarrow> i | Some e \<Rightarrow> raise (getColumn column e) i)"

definition ofColumn :: "string \<Rightarrow> int set \<times> int set \<Rightarrow> int set" where
  "ofColumn column S = (if column = ''gh_main_id'' then fst S else snd S)"

lemma written_newest:
  assumes "holds d repo env S" "0 < i" "mainExists d i"
  shows "Some (written d repo env column i) = maxOf (insert i (ofColumn column S))"
    "mainExists d (written d repo env column i)"
proof -
  obtain gh flux where S: "S = (gh, flux)" by (cases S)
  let ?T = "ofColumn column S"
  have f: "finite ?T" "\<forall>j\<in>?T. 0 < j \<and> mainExists d j"
    using assms(1) by (simp_all add: holds_def S ofColumn_def)
  show w: "Some (written d repo env column i) = maxOf (insert i ?T)"
  proof (cases "envRow d repo env")
    case None
    then have "?T = {}" using assms(1) by (simp add: holds_def S ofColumn_def)
    then show ?thesis using None by (simp add: written_def maxOf_def)
  next
    case (Some e)
    then have "getColumn column e = maxOf ?T"
      using assms(1) by (simp add: holds_def S ofColumn_def getColumn_def)
    then show ?thesis using Some raise_maxOf[OF f(1) _ assms(2)] f(2) by (simp add: written_def)
  qed
  have "written d repo env column i \<in> insert i ?T"
    by (rule maxOf_in[OF _ w[symmetric]]) (simp add: f(1))
  then show "mainExists d (written d repo env column i)"
  proof (rule insertE)
    assume "written d repo env column i = i"
    then show ?thesis by (simp only: assms(3))
  next
    assume "written d repo env column i \<in> ?T"
    from bspec[OF f(2) this] show ?thesis by (rule conjunct2)
  qed
qed

definition baseRow :: "db \<Rightarrow> string \<Rightarrow> string \<Rightarrow> bool \<Rightarrow> int \<Rightarrow> env_deploy" where
  "baseRow d repo env seen now =
     (case envRow d repo env of
        None \<Rightarrow> \<lparr>ed_repo = repo, ed_environment = env, ed_gh_main_id = None,
               ed_flux_main_id = None, ed_flux_seen = seen, ed_updated_at = now\<rparr>
      | Some e \<Rightarrow> e\<lparr>ed_flux_seen := ed_flux_seen e \<or> seen, ed_updated_at := now\<rparr>)"

lemma baseRow_sel:
  assumes "holds d repo env (gh, flux)"
  shows "ed_gh_main_id (baseRow d repo env seen now) = maxOf gh"
    "ed_flux_main_id (baseRow d repo env seen now) = maxOf flux"
    "ed_flux_seen (baseRow d repo env seen now) = (seen \<or> flux \<noteq> {})"
  using assms by (cases "envRow d repo env"; auto simp: holds_def baseRow_def maxOf_def)+

lemma bump_holds:
  assumes "env = ''dev'' \<or> env = ''prod''" "holds d repo env S" "0 < i" "mainExists d i"
  obtains d' where "bumpEnvDeploy now repo env column i seen d = Inr d'" "main_commits d' = main_commits d"
    "envRow d' repo env = Some (setColumn column (written d repo env column i) (baseRow d repo env seen now))"
    "\<And>r x. (r, x) \<noteq> (repo, env) \<Longrightarrow> envRow d' r x = envRow d r x"
proof -
  have "\<exists>d'. bumpEnvDeploy now repo env column i seen d = Inr d' \<and> main_commits d' = main_commits d \<and>
     (\<forall>r x. envRow d' r x = (if r = repo \<and> x = env
        then Some (setColumn column (written d repo env column i) (baseRow d repo env seen now)) else envRow d r x))"
    by (rule bump_row[OF assms(1) written_def written_newest(2)[OF assms(2-4)] baseRow_def])
  then show ?thesis using that by (metis prod.inject)
qed

lemma deliver_step:
  assumes "env = ''dev'' \<or> env = ''prod''" "holds d repo env S"
    and "0 < signalID s" "mainExists d (signalID s)"
  shows "\<exists>d'. deliver repo env s d = Inr d' \<and> main_commits d' = main_commits d \<and>
     holds d' repo env (tell s S) \<and> (\<forall>r x. (r, x) \<noteq> (repo, env) \<longrightarrow> envRow d' r x = envRow d r x)"
proof -
  obtain gh flux where S: "S = (gh, flux)" by (cases S)
  have h: "finite gh" "finite flux" "\<forall>j\<in>gh \<union> flux. 0 < j \<and> mainExists d j"
    using assms(2) by (simp_all add: S holds_def)
  note sel = baseRow_sel[OF assms(2)[unfolded S]]
  show ?thesis
  proof (cases s)
    case (GHDeploy now i)
    then have i: "0 < i" "mainExists d i" using assms(3,4) by simp_all
    obtain d' where b: "bumpEnvDeploy now repo env ''gh_main_id'' i False d = Inr d'"
      "main_commits d' = main_commits d"
      "envRow d' repo env = Some (setColumn ''gh_main_id'' (written d repo env ''gh_main_id'' i) (baseRow d repo env False now))"
      and o: "\<And>r x. (r, x) \<noteq> (repo, env) \<Longrightarrow> envRow d' r x = envRow d r x"
      using bump_holds[OF assms(1,2) i, where column = "''gh_main_id''"] by metis
    have "holds d' repo env (insert i gh, flux)"
      using h i written_newest(1)[OF assms(2) i, of "''gh_main_id''"] sel
      by (simp add: holds_def b(3) mainExists_cong[OF b(2)] setColumn_def ofColumn_def S)
    then show ?thesis using b(1,2) o by (simp add: GHDeploy S BumpEnvDeployGH_def)
  next
    case (FluxReady now i)
    then have i: "0 < i" "mainExists d i" using assms(3,4) by simp_all
    obtain d' where b: "bumpEnvDeploy now repo env ''flux_main_id'' i True d = Inr d'"
      "main_commits d' = main_commits d"
      "envRow d' repo env = Some (setColumn ''flux_main_id'' (written d repo env ''flux_main_id'' i) (baseRow d repo env True now))"
      and o: "\<And>r x. (r, x) \<noteq> (repo, env) \<Longrightarrow> envRow d' r x = envRow d r x"
      using bump_holds[OF assms(1,2) i, where column = "''flux_main_id''"] by metis
    have "holds d' repo env (gh, insert i flux)"
      using h i written_newest(1)[OF assms(2) i, of "''flux_main_id''"] sel
      by (simp add: holds_def b(3) mainExists_cong[OF b(2)] setColumn_def ofColumn_def S)
    then show ?thesis using b(1,2) o by (simp add: FluxReady S BumpEnvDeployFlux_def Let_def)
  qed
qed

lemma deliver_all:
  assumes "env = ''dev'' \<or> env = ''prod''" "\<forall>s\<in>set sigs. 0 < signalID s \<and> mainExists d (signalID s)"
    and "holds d repo env S"
  shows "\<exists>d'. foldE (deliver repo env) sigs d = Inr d' \<and> holds d' repo env (fold tell sigs S) \<and>
     (\<forall>r x. (r, x) \<noteq> (repo, env) \<longrightarrow> envRow d' r x = envRow d r x)"
  using assms(2,3)
proof (induction sigs arbitrary: d S)
  case (Cons s sigs)
  from deliver_step[OF assms(1) Cons.prems(2), of s] Cons.prems(1) obtain d1 where
    d1: "deliver repo env s d = Inr d1" "main_commits d1 = main_commits d"
      "holds d1 repo env (tell s S)" and o: "\<forall>r x. (r, x) \<noteq> (repo, env) \<longrightarrow> envRow d1 r x = envRow d r x"
    by (metis list.set_intros(1))
  have "\<forall>s\<in>set sigs. 0 < signalID s \<and> mainExists d1 (signalID s)"
    using Cons.prems(1) mainExists_cong[OF d1(2)] by simp
  from Cons.IH[OF this d1(3)] obtain d' where "foldE (deliver repo env) sigs d1 = Inr d'"
    "holds d' repo env (fold tell sigs (tell s S))"
    "\<forall>r x. (r, x) \<noteq> (repo, env) \<longrightarrow> envRow d' r x = envRow d1 r x" by blast
  then show ?case using d1(1) o by simp
qed simp

definition ghTold :: "signal list \<Rightarrow> int set" where
  "ghTold sigs = set (concat (map (\<lambda>s. case s of GHDeploy _ i \<Rightarrow> [i] | FluxReady _ _ \<Rightarrow> []) sigs))"

definition fluxTold :: "signal list \<Rightarrow> int set" where
  "fluxTold sigs = set (concat (map (\<lambda>s. case s of GHDeploy _ _ \<Rightarrow> [] | FluxReady _ i \<Rightarrow> [i]) sigs))"

lemma fold_tell: "fold tell sigs (gh, flux) = (gh \<union> ghTold sigs, flux \<union> fluxTold sigs)"
proof (induction sigs arbitrary: gh flux)
  case (Cons s sigs)
  then show ?case by (cases s) (auto simp: ghTold_def fluxTold_def)
qed (simp add: ghTold_def fluxTold_def)

text \<open>C23: the watermarks refine the sets of signals: after any deploy and Flux
  signals for an environment that had none, each naming a commit on main, in
  any order and however often repeated, every write succeeded, the confirmed
  frontier is the one of the two sets, and no other environment or repo has
  moved.\<close>

theorem frontier_refines:
  assumes "env = ''dev'' \<or> env = ''prod''" "envRow d repo env = None"
    and "\<forall>s\<in>set sigs. 0 < signalID s \<and> mainExists d (signalID s)"
  shows "\<exists>d'. foldE (deliver repo env) sigs d = Inr d' \<and>
     ConfirmedFrontier d' repo env = deployFrontier (ghTold sigs) (fluxTold sigs) \<and>
     (\<forall>r x. (r, x) = (repo, env) \<or> ConfirmedFrontier d' r x = ConfirmedFrontier d r x)"
proof -
  have "holds d repo env ({}, {})" using assms(2) by (simp add: holds_def)
  from deliver_all[OF assms(1,3) this] obtain d' where d': "foldE (deliver repo env) sigs d = Inr d'"
    "holds d' repo env (ghTold sigs, fluxTold sigs)"
    and o: "\<forall>r x. (r, x) \<noteq> (repo, env) \<longrightarrow> envRow d' r x = envRow d r x"
    unfolding fold_tell Un_empty_left by blast
  have "(r, x) = (repo, env) \<or> ConfirmedFrontier d' r x = ConfirmedFrontier d r x" for r x
  proof (cases "(r, x) = (repo, env)")
    case False
    then have "envRow d' r x = envRow d r x" using o by blast
    then show ?thesis by (simp add: ConfirmedFrontier_def)
  qed simp
  then show ?thesis using d'(1) holds_frontier[OF d'(2)] by blast
qed

definition twoCommits :: db where
  "twoCommits = landedDb\<lparr>env_deploys := []\<rparr>"

theorem frontier_refines_witness:
  "\<exists>d'. foldE (deliver ''r'' ''dev'') [GHDeploy 0 2, FluxReady 1 1] twoCommits = Inr d' \<and>
     ConfirmedFrontier d' ''r'' ''dev'' = Some 1"
proof -
  have "envRow twoCommits ''r'' ''dev'' = None"
    "\<forall>s\<in>set [GHDeploy 0 2, FluxReady 1 1]. 0 < signalID s \<and> mainExists twoCommits (signalID s)"
    by code_simp+
  from frontier_refines[OF _ this] show ?thesis
    by (auto simp: deployFrontier_def ghTold_def fluxTold_def)
qed

text \<open>The header of the resolver says the milestone reached is independent
  of the order events arrive in. With the same signals delivered and every
  arrival followed by a resolve, the task is left in deployed_dev when the
  GitHub deployment of its commit comes before the environment's first Flux
  report of an older one, and in merged when it comes after.\<close>

theorem arrival_order_matters:
  "(let step = (\<lambda>s d. andThen (deliver ''r'' ''dev'' s d) (\<lambda>d'.
        andThen (ResolveDelivery 9 ''WL-1'' ''r'' 1 d') (\<lambda>(_, d''). Inr d'')));
      run = (\<lambda>sigs. case foldE step sigs twoCommits of Inr d \<Rightarrow> stateOf d ''WL-1'' | Inl _ \<Rightarrow> None)
    in run [GHDeploy 0 2, FluxReady 1 1] = Some ''deployed_dev'' \<and>
       run [FluxReady 1 1, GHDeploy 0 2] = Some ''merged'')"
  by code_simp

end
