(* ===== verification/Decisions.thy ===== *)
theory Decisions
  imports Ownership
begin

text \<open>
  Questions posed on tasks (internal/store/decisions.go): the shape a question
  and an answer must have, and the four operations on them. Options and answers
  are kept as values: the JSON columns that hold them are written and read by
  the same two routines. The inline_refs rows derived from a question are
  another component's table and are left out.
\<close>

section \<open>The shape of a question\<close>

definition decisionKeyChar :: "char \<Rightarrow> bool" where
  "decisionKeyChar c \<longleftrightarrow> isLower c \<or> isDigit c \<or> c = CHR ''-''"

definition decisionKeyRe :: "string \<Rightarrow> bool" where
  "decisionKeyRe s \<longleftrightarrow> s \<noteq> [] \<and> list_all decisionKeyChar s"

definition decisionResponseTypes :: "string list" where
  "decisionResponseTypes = [''single_select'', ''multi_select'', ''single_select_notes'',
     ''pick_or_freetext'', ''yes_no'', ''freetext'']"

definition decisionTypesWithOptions :: "string list" where
  "decisionTypesWithOptions = [''single_select'', ''multi_select'', ''single_select_notes'',
     ''pick_or_freetext'']"

fun checkLabels :: "string list \<Rightarrow> (string \<times> string) list \<Rightarrow> err + unit" where
  "checkLabels seen [] = Inr ()"
| "checkLabels seen ((label, _) # opts) =
     (if label = [] then Inl ErrInvalidInput
      else if label \<in> set seen then Inl ErrInvalidInput
      else checkLabels (label # seen) opts)"

definition checkPicks :: "decision \<Rightarrow> err + unit" where
  "checkPicks dc =
     (if dc_response_type dc \<noteq> ''multi_select'' then
        (if dc_min_picks dc \<noteq> None then Inl ErrInvalidInput
         else if dc_max_picks dc \<noteq> None then Inl ErrInvalidInput
         else Inr ())
      else if (case dc_min_picks dc of None \<Rightarrow> False | Some n \<Rightarrow> n < 1) then Inl ErrInvalidInput
      else if (case dc_max_picks dc of None \<Rightarrow> False
               | Some n \<Rightarrow> n < 1 \<or> n > int (length (dc_options dc))) then Inl ErrInvalidInput
      else case (dc_min_picks dc, dc_max_picks dc) of
        (Some lo, Some hi) \<Rightarrow> if lo > hi then Inl ErrInvalidInput else Inr ()
      | _ \<Rightarrow> Inr ())"

definition ValidateDecisionSpec :: "decision \<Rightarrow> err + unit" where
  "ValidateDecisionSpec dc =
     (if dc_key dc = [] then Inl ErrInvalidInput
      else if \<not> decisionKeyRe (dc_key dc) then Inl ErrInvalidInput
      else if dc_question dc = [] then Inl ErrInvalidInput
      else if dc_response_type dc \<notin> set decisionResponseTypes then Inl ErrInvalidInput
      else
        let wantsOptions = dc_response_type dc \<in> set decisionTypesWithOptions in
        if wantsOptions \<and> dc_options dc = [] then Inl ErrInvalidInput
        else if \<not> wantsOptions \<and> dc_options dc \<noteq> [] then Inl ErrInvalidInput
        else andThen (checkLabels [] (dc_options dc)) (\<lambda>_.
             andThen (checkPicks dc) (\<lambda>_.
             if dc_answer dc \<noteq> None then Inl ErrInvalidInput
             else if dc_decided_at dc \<noteq> None then Inl ErrInvalidInput
             else Inr ())))"

section \<open>The shape of an answer\<close>

definition answerFieldSet :: "decision_answer \<Rightarrow> string \<Rightarrow> bool" where
  "answerFieldSet a f \<longleftrightarrow>
     (if f = ''picked'' then an_picked a \<noteq> []
      else if f = ''notes'' then an_notes a \<noteq> []
      else if f = ''freetext'' then an_freetext a \<noteq> []
      else if f = ''value'' then an_value a \<noteq> []
      else False)"

fun requireEmptyAnswerFields :: "decision_answer \<Rightarrow> string list \<Rightarrow> err + unit" where
  "requireEmptyAnswerFields a [] = Inr ()"
| "requireEmptyAnswerFields a (f # fs) =
     (if answerFieldSet a f then Inl ErrInvalidInput else requireEmptyAnswerFields a fs)"

definition hasOptionLabel :: "(string \<times> string) list \<Rightarrow> string \<Rightarrow> bool" where
  "hasOptionLabel opts label \<longleftrightarrow> (\<exists>x\<in>set opts. fst x = label)"

definition requireSinglePick :: "decision \<Rightarrow> string list \<Rightarrow> err + unit" where
  "requireSinglePick dc picked =
     (case picked of
        [p] \<Rightarrow> if hasOptionLabel (dc_options dc) p then Inr () else Inl ErrInvalidInput
      | _ \<Rightarrow> Inl ErrInvalidInput)"

fun checkPicked :: "(string \<times> string) list \<Rightarrow> string list \<Rightarrow> string list \<Rightarrow> err + unit" where
  "checkPicked opts seen [] = Inr ()"
| "checkPicked opts seen (p # ps) =
     (if \<not> hasOptionLabel opts p then Inl ErrInvalidInput
      else if p \<in> set seen then Inl ErrInvalidInput
      else checkPicked opts (p # seen) ps)"

definition requireMultiPick :: "decision \<Rightarrow> string list \<Rightarrow> err + unit" where
  "requireMultiPick dc picked =
     (let lo = (case dc_min_picks dc of None \<Rightarrow> 1 | Some n \<Rightarrow> n);
          hi = (case dc_max_picks dc of None \<Rightarrow> int (length (dc_options dc)) | Some n \<Rightarrow> n)
      in andThen (checkPicked (dc_options dc) [] picked) (\<lambda>_.
         if int (length picked) < lo \<or> int (length picked) > hi then Inl ErrInvalidInput else Inr ()))"

definition validateAnswer :: "decision \<Rightarrow> decision_answer \<Rightarrow> err + unit" where
  "validateAnswer dc a =
     (if dc_response_type dc = ''single_select'' then
        andThen (requireEmptyAnswerFields a [''notes'', ''freetext'', ''value'']) (\<lambda>_.
        requireSinglePick dc (an_picked a))
      else if dc_response_type dc = ''multi_select'' then
        andThen (requireEmptyAnswerFields a [''notes'', ''freetext'', ''value'']) (\<lambda>_.
        requireMultiPick dc (an_picked a))
      else if dc_response_type dc = ''single_select_notes'' then
        andThen (requireEmptyAnswerFields a [''freetext'', ''value'']) (\<lambda>_.
        if an_notes a = [] then Inl ErrInvalidInput else requireSinglePick dc (an_picked a))
      else if dc_response_type dc = ''pick_or_freetext'' then
        andThen (requireEmptyAnswerFields a [''notes'', ''value'']) (\<lambda>_.
        let hasPick = an_picked a \<noteq> []; hasFreetext = an_freetext a \<noteq> [] in
        if hasPick = hasFreetext then Inl ErrInvalidInput
        else if hasPick then requireSinglePick dc (an_picked a)
        else Inr ())
      else if dc_response_type dc = ''yes_no'' then
        andThen (requireEmptyAnswerFields a [''picked'', ''notes'', ''freetext'']) (\<lambda>_.
        if an_value a \<noteq> ''yes'' \<and> an_value a \<noteq> ''no'' \<and> an_value a \<noteq> ''unsure''
        then Inl ErrInvalidInput else Inr ())
      else if dc_response_type dc = ''freetext'' then
        andThen (requireEmptyAnswerFields a [''picked'', ''notes'', ''value'']) (\<lambda>_.
        if an_freetext a = [] then Inl ErrInvalidInput else Inr ())
      else Inl ErrInvalidInput)"

section \<open>Reading and writing rows\<close>

definition decisionRow :: "db \<Rightarrow> string \<Rightarrow> string \<Rightarrow> decision option" where
  "decisionRow d tid key = row (\<lambda>r. dc_task r = tid \<and> dc_key r = key) (decisions d)"

definition listDecisions :: "db \<Rightarrow> string \<Rightarrow> decision list" where
  "listDecisions d tid =
     sortStable (\<lambda>a b. cmpOr [cmpInt (dc_position a) (dc_position b), cmpInt (dc_id a) (dc_id b)])
       (filter (\<lambda>r. dc_task r = tid) (decisions d))"

definition GetDecision :: "db \<Rightarrow> string \<Rightarrow> string \<Rightarrow> err + decision" where
  "GetDecision d tid key =
     (case decisionRow d tid key of None \<Rightarrow> Inl ErrNotFound | Some r \<Rightarrow> Inr r)"

definition lockDecision :: "db \<Rightarrow> string \<Rightarrow> string \<Rightarrow> err + decision" where
  "lockDecision d tid key =
     (case decisionRow d tid key of None \<Rightarrow> Inl ErrNotFound | Some r \<Rightarrow> Inr r)"

text \<open>COALESCE((SELECT max(position) ...), 0) + 1.\<close>

definition nextPosition :: "db \<Rightarrow> string \<Rightarrow> int" where
  "nextPosition d tid =
     (case map dc_position (filter (\<lambda>r. dc_task r = tid) (decisions d)) of
        [] \<Rightarrow> 0 | ps \<Rightarrow> Max (set ps)) + 1"

text \<open>The pick bounds are integer columns.\<close>

definition int4 :: "int option \<Rightarrow> bool" where
  "int4 n \<longleftrightarrow> (case n of None \<Rightarrow> True | Some i \<Rightarrow> - (2 ^ 31) \<le> i \<and> i < 2 ^ 31)"

definition InsertDecision :: "string \<Rightarrow> decision \<Rightarrow> db \<Rightarrow> err + decision \<times> db" where
  "InsertDecision tid dc d =
     andThen (ValidateDecisionSpec (dc\<lparr>dc_task := tid\<rparr>)) (\<lambda>_.
     if \<not> int4 (dc_min_picks dc) \<or> \<not> int4 (dc_max_picks dc) then Inl (DBError ''integer out of range'')
     else if decisionRow d tid (dc_key dc) \<noteq> None then Inl ErrDecisionExists
     else if taskRow d tid = None then Inl (DBError ''decisions_task_id_fkey'')
     else
       let r = dc\<lparr>dc_id := next_decision_id d, dc_task := tid, dc_position := nextPosition d tid,
                  dc_answer := None, dc_decided_by := None, dc_decided_at := None\<rparr>
       in Inr (r, d\<lparr>decisions := decisions d @ [r], next_decision_id := next_decision_id d + 1\<rparr>))"

section \<open>Guards\<close>

definition requireDecisionKind :: "string \<Rightarrow> err + unit" where
  "requireDecisionKind kind =
     andThen (taskKindPolicy kind) (\<lambda>policy.
     if \<not> AllowsDecisions policy then Inl ErrInvalidInput else Inr ())"

definition requireLiveTask :: "db \<Rightarrow> string \<Rightarrow> err + unit" where
  "requireLiveTask d tid =
     (case row (\<lambda>t. t_id t = tid \<and> live t) (tasks d) of
        None \<Rightarrow> Inl ErrNotFound
      | Some t \<Rightarrow> requireDecisionKind (t_kind t))"

definition requireOpenTask :: "db \<Rightarrow> string \<Rightarrow> err + unit" where
  "requireOpenTask d tid =
     (case row (\<lambda>t. t_id t = tid \<and> live t) (tasks d) of
        None \<Rightarrow> Inl ErrNotFound
      | Some t \<Rightarrow> if deliveredStateSet (t_state t) then Inl ErrInvalidInput
                  else requireDecisionKind (t_kind t))"

section \<open>Posing and editing\<close>

record decision_input =
  di_task :: string
  di_key :: string
  di_group :: "string option"
  di_question :: string
  di_context :: "string option"
  di_response_type :: string
  di_options :: "(string \<times> string) list"
  di_min_picks :: "int option"
  di_max_picks :: "int option"

text \<open>The zero value of model.Decision.\<close>

definition zeroDecision :: decision where
  "zeroDecision = \<lparr> dc_id = 0, dc_task = [], dc_key = [], dc_position = 0, dc_group = [],
     dc_question = [], dc_context = [], dc_response_type = [], dc_options = [], dc_min_picks = None,
     dc_max_picks = None, dc_answer = None, dc_decided_by = None, dc_decided_at = None \<rparr>"

definition applyDecisionInput :: "decision \<Rightarrow> decision_input \<Rightarrow> bool \<Rightarrow> decision" where
  "applyDecisionInput base inp pose =
     (let o1 = (if di_key inp \<noteq> [] then base\<lparr>dc_key := di_key inp\<rparr> else base);
          o2 = (if di_question inp \<noteq> [] then o1\<lparr>dc_question := di_question inp\<rparr> else o1);
          o3 = (case di_group inp of None \<Rightarrow> o2 | Some g \<Rightarrow> o2\<lparr>dc_group := g\<rparr>);
          o4 = (case di_context inp of None \<Rightarrow> o3 | Some c \<Rightarrow> o3\<lparr>dc_context := c\<rparr>)
      in if pose \<or> di_response_type inp \<noteq> []
         then o4\<lparr>dc_response_type := di_response_type inp, dc_options := di_options inp,
                 dc_min_picks := di_min_picks inp, dc_max_picks := di_max_picks inp\<rparr>
         else o4)"

definition specOnly :: "decision \<Rightarrow> decision" where
  "specOnly dc = dc\<lparr>dc_answer := None, dc_decided_at := None\<rparr>"

text \<open>The row written back is the merged one under its own id, answer columns
  untouched.\<close>

definition updateDecision :: "int \<Rightarrow> string \<Rightarrow> decision \<Rightarrow> bool \<Rightarrow> db \<Rightarrow> err + decision \<times> db" where
  "updateDecision i tid dc reposition d =
     (case row (\<lambda>r. dc_id r = i) (decisions d) of
        None \<Rightarrow> Inl (DBError ''no rows'')
      | Some cur \<Rightarrow>
          if \<not> int4 (dc_min_picks dc) \<or> \<not> int4 (dc_max_picks dc) then Inl (DBError ''integer out of range'')
          else if \<exists>r\<in>set (decisions d). dc_id r \<noteq> i \<and> dc_task r = tid \<and> dc_key r = dc_key dc
          then Inl ErrDecisionExists
          else if taskRow d tid = None then Inl (DBError ''decisions_task_id_fkey'')
          else
            let r' = cur\<lparr>dc_task := tid, dc_key := dc_key dc, dc_group := dc_group dc,
                  dc_question := dc_question dc, dc_context := dc_context dc,
                  dc_response_type := dc_response_type dc, dc_options := dc_options dc,
                  dc_min_picks := dc_min_picks dc, dc_max_picks := dc_max_picks dc,
                  dc_position := (if reposition then nextPosition d tid else dc_position cur)\<rparr>
            in Inr (r', d\<lparr>decisions := updWhere (\<lambda>r. dc_id r = i) (\<lambda>_. r') (decisions d)\<rparr>))"

definition decisionPayload :: "string \<Rightarrow> string \<Rightarrow> string \<Rightarrow> json" where
  "decisionPayload tid actorID key = jfields [(''actor'', actorID), (''key'', key), (''task'', tid)]"

definition addDecisionTx :: "string \<Rightarrow> string \<Rightarrow> decision_input \<Rightarrow> int \<Rightarrow> db \<Rightarrow> err + decision \<times> db" where
  "addDecisionTx tid actorID inp eventID d =
     andThen (requireLiveTask d tid) (\<lambda>_.
     andThen (requireActor d actorID) (\<lambda>_.
     InsertDecision tid (applyDecisionInput zeroDecision inp True) d))"

definition AddDecision ::
  "int \<Rightarrow> string \<Rightarrow> string \<Rightarrow> string \<Rightarrow> decision_input \<Rightarrow> db \<Rightarrow> (err + decision option) \<times> db" where
  "AddDecision now extID tid actorID inp d =
     outcome (RecordEvent now ''cli'' extID ''decision.posed'' (decisionPayload tid actorID (di_key inp))
       (addDecisionTx tid actorID inp) d)"

definition editDecisionTx ::
  "string \<Rightarrow> string \<Rightarrow> string \<Rightarrow> decision_input \<Rightarrow> int \<Rightarrow> db \<Rightarrow> err + decision \<times> db" where
  "editDecisionTx tid key actorID inp eventID d =
     andThen (requireActor d actorID) (\<lambda>_.
     andThen (lockDecision d tid key) (\<lambda>cur.
     if dc_answer cur \<noteq> None \<or> dc_decided_at cur \<noteq> None then Inl ErrBadTransition
     else
       andThen (if di_task inp \<noteq> [] \<and> di_task inp \<noteq> tid
                then andThen (requireOpenTask d (di_task inp)) (\<lambda>_. Inr (di_task inp))
                else Inr tid) (\<lambda>target.
       let next_row = applyDecisionInput cur inp False in
       andThen (ValidateDecisionSpec (specOnly next_row)) (\<lambda>_.
       updateDecision (dc_id cur) target next_row (target \<noteq> tid) d))))"

definition EditDecision ::
  "int \<Rightarrow> string \<Rightarrow> string \<Rightarrow> string \<Rightarrow> string \<Rightarrow> decision_input \<Rightarrow> db \<Rightarrow>
     (err + decision option) \<times> db" where
  "EditDecision now extID tid key actorID inp d =
     outcome (RecordEvent now ''cli'' extID ''decision.edited'' (decisionPayload tid actorID key)
       (editDecisionTx tid key actorID inp) d)"

section \<open>Answering\<close>

definition answerableStates :: "string list" where
  "answerableStates = [''ready'', ''in_progress'', ''in_review'']"

definition decideTx ::
  "int \<Rightarrow> string \<Rightarrow> string \<Rightarrow> string \<Rightarrow> decision_answer \<Rightarrow> int \<Rightarrow> db \<Rightarrow> err + decision \<times> db" where
  "decideTx now tid key actorID a eventID d =
     andThen (requireActor d actorID) (\<lambda>_.
     andThen (lockTaskOwnership d tid) (\<lambda>(project, st, assignee).
     case taskRow d tid of None \<Rightarrow> Inl (DBError ''no rows'') | Some t \<Rightarrow>
     if st \<notin> set answerableStates then Inl ErrBadTransition
     else if IsBlocked d tid then Inl ErrInvalidInput
     else if assignee \<noteq> [] \<and> assignee \<noteq> actorID then Inl ErrInvalidInput
     else
       andThen (lockDecision d tid key) (\<lambda>posed.
       andThen (validateAnswer posed a) (\<lambda>_.
       andThen (if assignee = []
                then andThen (requireCrewMember d project actorID) (\<lambda>_.
                     Inr (LogChange ''task'' tid eventID (assigneeChange [] actorID)
                            (setAssignee now tid (Some actorID) d)))
                else Inr d) (\<lambda>d1.
       case row (\<lambda>r. dc_task r = tid \<and> dc_key r = key \<and> dc_answer r = None) (decisions d1) of
         None \<Rightarrow> Inl ErrBadTransition
       | Some cur \<Rightarrow>
           let f = (\<lambda>r. r\<lparr>dc_answer := Some a, dc_decided_by := Some actorID, dc_decided_at := Some now\<rparr>);
               d2 = d1\<lparr>decisions := updWhere (\<lambda>r. dc_task r = tid \<and> dc_key r = key \<and> dc_answer r = None)
                       f (decisions d1)\<rparr>
           in andThen (taskKindPolicy (t_kind t)) (\<lambda>policy.
              if \<not> ClosesOnAnswers policy then Inr (f cur, d2)
              else if \<exists>r\<in>set (decisions d2). dc_task r = tid \<and> dc_answer r = None then Inr (f cur, d2)
              else andThen (transitionKnown climbFuel now eventID tid st st ''merged'' d2) (\<lambda>d3.
                   Inr (f cur, d3)))))))) "

definition RecordDecision ::
  "int \<Rightarrow> string \<Rightarrow> string \<Rightarrow> string \<Rightarrow> string \<Rightarrow> decision_answer \<Rightarrow> db \<Rightarrow>
     (err + decision option) \<times> db" where
  "RecordDecision now extID tid key actorID a d =
     outcome (RecordEvent now ''cli'' extID ''task.decided'' (decisionPayload tid actorID key)
       (decideTx (truncSec now) tid key actorID a) d)"

end
