(* ===== verification/DecisionSpec.thy ===== *)
theory DecisionSpec
  imports Decisions LeaseSpec
begin

text \<open>
  What posed questions promise: the shape checks accept exactly what their
  comments describe, every stored row stays well posed and every stored answer
  fits its question, a recorded answer is never written over, and the last
  answer of a decision task closes it.
\<close>

section \<open>The shape checks\<close>

lemma hasOptionLabel_iff: "hasOptionLabel opts p \<longleftrightarrow> p \<in> set (map fst opts)"
  by (auto simp: hasOptionLabel_def)

lemma checkLabels_iff:
  "checkLabels seen opts = Inr () \<longleftrightarrow>
     [] \<notin> set (map fst opts) \<and> distinct (map fst opts) \<and> set (map fst opts) \<inter> set seen = {}"
proof (induction opts arbitrary: seen)
  case (Cons x opts)
  show ?case by (cases x) (simp add: Cons.IH, blast)
qed simp

lemma checkPicked_iff:
  "checkPicked opts seen ps = Inr () \<longleftrightarrow>
     set ps \<subseteq> set (map fst opts) \<and> distinct ps \<and> set ps \<inter> set seen = {}"
proof (induction ps arbitrary: seen)
  case (Cons p ps)
  show ?case unfolding checkPicked.simps hasOptionLabel_iff by (simp add: Cons.IH) blast
qed simp

lemma requireEmpty_iff:
  "requireEmptyAnswerFields a fs = Inr () \<longleftrightarrow> (\<forall>f\<in>set fs. \<not> answerFieldSet a f)"
  by (induction fs) simp_all

lemma answerFieldSet_simps [simp]:
  "answerFieldSet a ''picked'' = (an_picked a \<noteq> [])" "answerFieldSet a ''notes'' = (an_notes a \<noteq> [])"
  "answerFieldSet a ''freetext'' = (an_freetext a \<noteq> [])" "answerFieldSet a ''value'' = (an_value a \<noteq> [])"
  by (simp_all add: answerFieldSet_def)

lemma requireSinglePick_iff:
  "requireSinglePick dc ps = Inr () \<longleftrightarrow> (\<exists>p. ps = [p] \<and> p \<in> set (map fst (dc_options dc)))"
  by (auto simp: requireSinglePick_def hasOptionLabel_iff split: list.split)

definition loPicks :: "decision \<Rightarrow> int" where
  "loPicks dc = (case dc_min_picks dc of None \<Rightarrow> 1 | Some n \<Rightarrow> n)"

definition hiPicks :: "decision \<Rightarrow> int" where
  "hiPicks dc = (case dc_max_picks dc of None \<Rightarrow> int (length (dc_options dc)) | Some n \<Rightarrow> n)"

lemma andThen_unit: "andThen m k = Inr y \<longleftrightarrow> m = Inr () \<and> k () = Inr y"
  by (cases m) auto

lemma requireMultiPick_iff:
  "requireMultiPick dc ps = Inr () \<longleftrightarrow> set ps \<subseteq> set (map fst (dc_options dc)) \<and> distinct ps \<and>
     loPicks dc \<le> int (length ps) \<and> int (length ps) \<le> hiPicks dc"
  unfolding requireMultiPick_def Let_def andThen_unit loPicks_def[symmetric] hiPicks_def[symmetric]
  by (simp add: checkPicked_iff not_less)

text \<open>What each response type takes.\<close>

definition answerFits :: "decision \<Rightarrow> decision_answer \<Rightarrow> bool" where
  "answerFits dc a =
     (let labels = set (map fst (dc_options dc)); one = (\<exists>p\<in>labels. an_picked a = [p]) in
      if dc_response_type dc = ''single_select''
      then one \<and> an_notes a = [] \<and> an_freetext a = [] \<and> an_value a = []
      else if dc_response_type dc = ''multi_select''
      then set (an_picked a) \<subseteq> labels \<and> distinct (an_picked a) \<and>
           loPicks dc \<le> int (length (an_picked a)) \<and> int (length (an_picked a)) \<le> hiPicks dc \<and>
           an_notes a = [] \<and> an_freetext a = [] \<and> an_value a = []
      else if dc_response_type dc = ''single_select_notes''
      then one \<and> an_notes a \<noteq> [] \<and> an_freetext a = [] \<and> an_value a = []
      else if dc_response_type dc = ''pick_or_freetext''
      then (if an_freetext a = [] then one else an_picked a = []) \<and> an_notes a = [] \<and> an_value a = []
      else if dc_response_type dc = ''yes_no''
      then an_value a \<in> {''yes'', ''no'', ''unsure''} \<and> an_picked a = [] \<and> an_notes a = [] \<and> an_freetext a = []
      else dc_response_type dc = ''freetext'' \<and> an_freetext a \<noteq> [] \<and> an_picked a = [] \<and>
           an_notes a = [] \<and> an_value a = [])"

lemma validateAnswer_iff: "validateAnswer dc a = Inr () \<longleftrightarrow> answerFits dc a"
proof -
  note pick = requireSinglePick_iff requireMultiPick_iff requireEmpty_iff
  consider "dc_response_type dc = ''single_select''" | "dc_response_type dc = ''multi_select''"
    | "dc_response_type dc = ''single_select_notes''" | "dc_response_type dc = ''pick_or_freetext''"
    | "dc_response_type dc = ''yes_no''" | "dc_response_type dc \<notin> set (butlast decisionResponseTypes)"
    by (auto simp: decisionResponseTypes_def)
  then show ?thesis
  proof cases
    case 4
    then show ?thesis
      by (simp add: validateAnswer_def answerFits_def andThen_unit pick Let_def, blast?)
  next
    case 6
    then show ?thesis
      by (simp add: validateAnswer_def answerFits_def andThen_unit pick decisionResponseTypes_def, blast?)
  qed (simp add: validateAnswer_def answerFits_def andThen_unit pick Let_def, blast?)+
qed


text \<open>What a posed question must be.\<close>

definition picksOk :: "decision \<Rightarrow> bool" where
  "picksOk dc =
     (if dc_response_type dc = ''multi_select''
      then 1 \<le> loPicks dc \<and> 1 \<le> hiPicks dc \<and> hiPicks dc \<le> int (length (dc_options dc)) \<and>
           (dc_min_picks dc = None \<or> dc_max_picks dc = None \<or> loPicks dc \<le> hiPicks dc)
      else dc_min_picks dc = None \<and> dc_max_picks dc = None)"

lemma checkPicks_iff:
  "dc_response_type dc = ''multi_select'' \<Longrightarrow> dc_options dc \<noteq> [] \<Longrightarrow>
     checkPicks dc = Inr () \<longleftrightarrow> picksOk dc"
  by (cases "dc_min_picks dc"; cases "dc_max_picks dc"; cases "dc_options dc")
    (auto simp: checkPicks_def picksOk_def loPicks_def hiPicks_def)

lemma spec_InrD:
  assumes "ValidateDecisionSpec dc = Inr ()"
  shows "dc_response_type dc \<in> set decisionResponseTypes" "distinct (map fst (dc_options dc))"
    "dc_options dc \<noteq> [] \<longleftrightarrow> dc_response_type dc \<in> set decisionTypesWithOptions"
    "dc_response_type dc = ''multi_select'' \<Longrightarrow> picksOk dc" "dc_answer dc = None"
proof -
  have t: "dc_response_type dc \<in> set decisionResponseTypes"
    and o: "dc_options dc \<noteq> [] \<longleftrightarrow> dc_response_type dc \<in> set decisionTypesWithOptions"
    and r: "andThen (checkLabels [] (dc_options dc)) (\<lambda>_.
             andThen (checkPicks dc) (\<lambda>_.
             if dc_answer dc \<noteq> None then Inl ErrInvalidInput
             else if dc_decided_at dc \<noteq> None then Inl ErrInvalidInput
             else Inr ())) = Inr ()"
    using assms unfolding ValidateDecisionSpec_def Let_def by (simp_all split: if_splits) blast+
  show "dc_response_type dc \<in> set decisionResponseTypes" by (rule t)
  show "dc_options dc \<noteq> [] \<longleftrightarrow> dc_response_type dc \<in> set decisionTypesWithOptions" by (rule o)
  show "distinct (map fst (dc_options dc))"
    using r unfolding andThen_unit checkLabels_iff by blast
  show "dc_answer dc = None" using r unfolding andThen_unit by (simp split: if_splits)
  assume m: "dc_response_type dc = ''multi_select''"
  then have "dc_options dc \<noteq> []" using o by (simp add: decisionTypesWithOptions_def)
  from checkPicks_iff[OF m this] show "picksOk dc" using r unfolding andThen_unit by blast
qed

text \<open>A question that passed the check can be answered, except one: a
  multi_select whose min_picks is above the number of its options and whose
  max_picks is absent is accepted although no answer satisfies it.\<close>

theorem spec_answerable:
  assumes "ValidateDecisionSpec dc = Inr ()"
  shows "(\<exists>a. validateAnswer dc a = Inr ()) \<longleftrightarrow>
     (case dc_min_picks dc of None \<Rightarrow> True | Some n \<Rightarrow> n \<le> int (length (dc_options dc)))"
proof (cases "dc_response_type dc = ''multi_select''")
  case True
  note p = spec_InrD(4)[OF assms True, unfolded picksOk_def] spec_InrD(2)[OF assms]
  have len: "set ps \<subseteq> set (map fst (dc_options dc)) \<Longrightarrow> distinct ps \<Longrightarrow> length ps \<le> length (dc_options dc)" for ps
    using card_mono[of "set (map fst (dc_options dc))" "set ps"] distinct_card[of ps]
      distinct_card[OF p(2)] by simp
  show ?thesis
  proof (cases "loPicks dc \<le> int (length (dc_options dc))")
    case ok: True
    have lh: "loPicks dc \<le> hiPicks dc"
      using p(1) True ok by (auto simp: loPicks_def hiPicks_def split: option.splits)
    let ?ps = "take (nat (loPicks dc)) (map fst (dc_options dc))"
    have "int (length ?ps) = loPicks dc" using ok p(1) True by simp
    then have "answerFits dc \<lparr>an_picked = ?ps, an_notes = [], an_freetext = [], an_value = []\<rparr>"
      using True lh ok p distinct_take[OF p(2)] set_take_subset[of "nat (loPicks dc)" "map fst (dc_options dc)"]
      by (simp add: answerFits_def del: length_take)
    then have "\<exists>a. validateAnswer dc a = Inr ()" using validateAnswer_iff by blast
    then show ?thesis using ok by (auto simp: loPicks_def split: option.split)
  next
    case False
    then have "validateAnswer dc a \<noteq> Inr ()" for a
      using len True unfolding validateAnswer_iff answerFits_def Let_def
      by (simp add: not_le) fastforce
    moreover have "dc_min_picks dc = Some n \<Longrightarrow> \<not> n \<le> int (length (dc_options dc))" for n
      using False by (simp add: loPicks_def)
    moreover have "dc_min_picks dc \<noteq> None"
      using False spec_InrD(3)[OF assms] True
      by (cases "dc_options dc"; cases "dc_min_picks dc")
        (simp_all add: loPicks_def decisionTypesWithOptions_def)
    ultimately show ?thesis by (auto split: option.split)
  qed
next
  case False
  have n: "dc_min_picks dc = None"
    using assms False by (auto simp: ValidateDecisionSpec_def checkPicks_def andThen_unit Let_def split: if_splits)
  let ?ans = "\<lambda>ps nt ft v. \<lparr>an_picked = ps, an_notes = nt, an_freetext = ft, an_value = v\<rparr>"
  have w: "dc_response_type dc \<in> set decisionTypesWithOptions \<Longrightarrow> fst (hd (dc_options dc)) \<in> fst ` set (dc_options dc)"
    using spec_InrD(3)[OF assms] by (cases "dc_options dc") simp_all
  consider "dc_response_type dc = ''single_select''" | "dc_response_type dc = ''single_select_notes''"
    | "dc_response_type dc = ''pick_or_freetext''" | "dc_response_type dc = ''yes_no''"
    | "dc_response_type dc = ''freetext''"
    using spec_InrD(1)[OF assms] False by (auto simp: decisionResponseTypes_def)
  then have "\<exists>a. answerFits dc a"
  proof cases
    case 1
    then show ?thesis using w
      by (intro exI[of _ "?ans [fst (hd (dc_options dc))] [] [] []"]) (simp add: answerFits_def decisionTypesWithOptions_def)
  next
    case 2
    then show ?thesis using w
      by (intro exI[of _ "?ans [fst (hd (dc_options dc))] ''n'' [] []"]) (simp add: answerFits_def decisionTypesWithOptions_def)
  next
    case 3
    then show ?thesis
      by (intro exI[of _ "?ans [] [] ''t'' []"]) (simp add: answerFits_def)
  next
    case 4
    then show ?thesis by (intro exI[of _ "?ans [] [] [] ''yes''"]) (simp add: answerFits_def)
  next
    case 5
    then show ?thesis by (intro exI[of _ "?ans [] [] ''t'' []"]) (simp add: answerFits_def)
  qed
  then show ?thesis using n validateAnswer_iff by simp
qed

definition unanswerable :: decision where
  "unanswerable = zeroDecision\<lparr>dc_key := ''k'', dc_question := ''Q'', dc_response_type := ''multi_select'',
     dc_options := [(''a'', []), (''b'', [])], dc_min_picks := Some 3\<rparr>"

theorem spec_answerable_witness:
  "ValidateDecisionSpec unanswerable = Inr () \<and> (\<nexists>a. validateAnswer unanswerable a = Inr ())"
proof -
  have v: "ValidateDecisionSpec unanswerable = Inr ()" by code_simp
  have "dc_min_picks unanswerable = Some 3" "length (dc_options unanswerable) = 2" by code_simp+
  then show ?thesis using v spec_answerable[OF v] by simp
qed


section \<open>The rows\<close>

text \<open>A row is well posed, and answered as a whole or not at all, with an
  answer that fits.\<close>

definition rowOk :: "decision \<Rightarrow> bool" where
  "rowOk r \<longleftrightarrow> ValidateDecisionSpec (specOnly r) = Inr () \<and>
     (case dc_answer r of
        None \<Rightarrow> dc_decided_by r = None \<and> dc_decided_at r = None
      | Some a \<Rightarrow> validateAnswer r a = Inr () \<and> dc_decided_by r \<noteq> None \<and> dc_decided_at r \<noteq> None)"

definition decisionsOk :: "db \<Rightarrow> bool" where
  "decisionsOk d \<longleftrightarrow> distinct (map dc_id (decisions d)) \<and>
     distinct (map (\<lambda>r. (dc_task r, dc_key r)) (decisions d)) \<and>
     (\<forall>r\<in>set (decisions d). dc_id r < next_decision_id d \<and> rowOk r)"

lemma decisionsOkI:
  assumes "decisions d = D" "next_decision_id d = n" "distinct (map dc_id D)"
    "distinct (map (\<lambda>r. (dc_task r, dc_key r)) D)" "\<forall>r\<in>set D. dc_id r < n \<and> rowOk r"
  shows "decisionsOk d"
  unfolding decisionsOk_def assms(1,2) using assms(3-5) by blast

text \<open>What an operation may do to the table: answered rows stay as they are.\<close>

definition answersKept :: "db \<Rightarrow> db \<Rightarrow> bool" where
  "answersKept d0 d \<longleftrightarrow> (\<forall>r\<in>set (decisions d0). dc_answer r \<noteq> None \<longrightarrow> r \<in> set (decisions d))"

definition tableStep :: "db \<Rightarrow> db \<Rightarrow> bool" where
  "tableStep d0 d \<longleftrightarrow> decisionsOk d \<and> answersKept d0 d"

lemma tableStep_cong:
  "decisions d' = decisions d \<Longrightarrow> next_decision_id d' = next_decision_id d \<Longrightarrow>
     tableStep d0 d' = tableStep d0 d"
  by (simp add: tableStep_def decisionsOk_def answersKept_def)

interpretation machine_decisions:
  machine_inv "\<lambda>d. decisions d = D \<and> next_decision_id d = n" for D n
proof unfold_locales
  fix d tid t st now d'
  assume "decisions d = D \<and> next_decision_id d = n" "setState now tid st d = Inr d'"
  then show "decisions d' = D \<and> next_decision_id d' = n"
    by (auto dest!: setState_InrD(1) simp: updTask_def)
qed (simp_all add: LogChange_def closeReviewRow_def appendEvent_def setDocStatus_def)

lemma ValidateDecisionSpec_cong:
  assumes "dc_key r' = dc_key r" "dc_question r' = dc_question r" "dc_response_type r' = dc_response_type r"
    "dc_options r' = dc_options r" "dc_min_picks r' = dc_min_picks r" "dc_max_picks r' = dc_max_picks r"
    "dc_answer r' = dc_answer r" "dc_decided_at r' = dc_decided_at r"
  shows "ValidateDecisionSpec r' = ValidateDecisionSpec r"
  unfolding ValidateDecisionSpec_def checkPicks_def by (simp only: assms)

lemma validateAnswer_cong:
  assumes "dc_response_type r' = dc_response_type r" "dc_options r' = dc_options r"
    "dc_min_picks r' = dc_min_picks r" "dc_max_picks r' = dc_max_picks r"
  shows "validateAnswer r' a = validateAnswer r a"
  unfolding validateAnswer_def requireSinglePick_def requireMultiPick_def by (simp only: assms)

lemma specOnly_same: "ValidateDecisionSpec dc = Inr () \<Longrightarrow> specOnly dc = dc"
  unfolding specOnly_def by (auto simp: ValidateDecisionSpec_def Let_def andThen_unit split: if_splits)

lemma InsertDecision_ok:
  assumes "tableStep d0 d" "InsertDecision tid dc d = Inr (r, d')"
  shows "tableStep d0 d'"
proof -
  let ?r = "dc\<lparr>dc_id := next_decision_id d, dc_task := tid, dc_position := nextPosition d tid,
                  dc_answer := None, dc_decided_by := None, dc_decided_at := None\<rparr>"
  have v: "ValidateDecisionSpec (dc\<lparr>dc_task := tid\<rparr>) = Inr ()" and n: "decisionRow d tid (dc_key dc) = None"
    and d': "d' = d\<lparr>decisions := decisions d @ [?r], next_decision_id := next_decision_id d + 1\<rparr>"
    using assms(2) unfolding InsertDecision_def andThen_unit Let_def by (auto split: if_splits)
  have "ValidateDecisionSpec (specOnly ?r) = ValidateDecisionSpec (specOnly (dc\<lparr>dc_task := tid\<rparr>))"
    by (rule ValidateDecisionSpec_cong) (simp_all add: specOnly_def)
  then have "rowOk ?r" using specOnly_same[OF v] v by (simp add: rowOk_def)
  moreover have "(tid, dc_key dc) \<notin> set (map (\<lambda>r. (dc_task r, dc_key r)) (decisions d))"
    using n by (auto simp: decisionRow_def row_None_iff)
  ultimately show ?thesis
    using assms(1) unfolding d' tableStep_def decisionsOk_def answersKept_def by fastforce
qed

text \<open>Rewriting the one row an update selects.\<close>

lemma tableStep_update:
  assumes "tableStep d0 d" "cur \<in> set (decisions d)" "dc_answer cur = None"
    and "p cur" "\<And>r. r \<in> set (decisions d) \<Longrightarrow> p r \<Longrightarrow> r = cur"
    and "dc_id (f cur) = dc_id cur" "rowOk (f cur)"
    and "\<And>r. r \<in> set (decisions d) \<Longrightarrow> dc_task r = dc_task (f cur) \<Longrightarrow> dc_key r = dc_key (f cur) \<Longrightarrow> r = cur"
  shows "tableStep d0 (d\<lparr>decisions := updWhere p f (decisions d)\<rparr>)"
proof -
  let ?g = "\<lambda>r. if r = cur then f cur else r"
  have u: "updWhere p f (decisions d) = map ?g (decisions d)"
    unfolding updWhere_def
  proof (rule map_cong[OF refl])
    fix r assume r: "r \<in> set (decisions d)"
    show "(if p r then f r else r) = ?g r"
    proof (cases "p r")
      case True
      then have "r = cur" using assms(5)[OF r] by simp
      then show ?thesis by (simp add: assms(4))
    next
      case False
      then have "r \<noteq> cur" using assms(4) by blast
      then show ?thesis using False by simp
    qed
  qed
  have ok: "distinct (map dc_id (decisions d))" "distinct (map (\<lambda>r. (dc_task r, dc_key r)) (decisions d))"
    "\<forall>r\<in>set (decisions d). dc_id r < next_decision_id d \<and> rowOk r"
    using assms(1) by (simp_all add: tableStep_def decisionsOk_def)
  have ids: "map dc_id (map ?g (decisions d)) = map dc_id (decisions d)"
    using assms(6) by simp
  have "inj_on ((\<lambda>r. (dc_task r, dc_key r)) \<circ> ?g) (set (decisions d))"
    using ok(2) assms(8) unfolding distinct_map inj_on_def by (auto split: if_splits)
  then have keys: "distinct (map (\<lambda>r. (dc_task r, dc_key r)) (map ?g (decisions d)))"
    using ok(2) unfolding distinct_map map_map by blast
  have rows: "\<forall>r\<in>set (map ?g (decisions d)). dc_id r < next_decision_id d \<and> rowOk r"
    using ok(3) assms(2,6,7) by auto
  have "answersKept d0 (d\<lparr>decisions := map ?g (decisions d)\<rparr>)"
    using assms(1,3) unfolding tableStep_def answersKept_def by force
  moreover have "decisionsOk (d\<lparr>decisions := map ?g (decisions d)\<rparr>)"
    by (rule decisionsOkI[OF _ _ _ keys rows]) (simp, simp, simp only: ids ok(1))
  ultimately show ?thesis unfolding u tableStep_def by blast
qed

lemma keyed_unique:
  assumes "tableStep d0 d" "r \<in> set (decisions d)" "s \<in> set (decisions d)"
  shows "dc_id r = dc_id s \<Longrightarrow> r = s" "dc_task r = dc_task s \<Longrightarrow> dc_key r = dc_key s \<Longrightarrow> r = s"
  using assms unfolding tableStep_def decisionsOk_def distinct_map inj_on_def by blast+

lemma addDecisionTx_ok:
  "tableStep d0 d \<Longrightarrow> addDecisionTx tid a inp ev d = Inr (r, d') \<Longrightarrow> tableStep d0 d'"
  unfolding addDecisionTx_def andThen_unit using InsertDecision_ok by blast

lemma editDecisionTx_ok:
  assumes "tableStep d0 d" "editDecisionTx tid key a inp ev d = Inr (r, d')"
  shows "tableStep d0 d'"
proof -
  obtain cur where l: "lockDecision d tid key = Inr cur"
    and r1: "(if dc_answer cur \<noteq> None \<or> dc_decided_at cur \<noteq> None then Inl ErrBadTransition
     else
       andThen (if di_task inp \<noteq> [] \<and> di_task inp \<noteq> tid
                then andThen (requireOpenTask d (di_task inp)) (\<lambda>_. Inr (di_task inp))
                else Inr tid) (\<lambda>target.
       let next_row = applyDecisionInput cur inp False in
       andThen (ValidateDecisionSpec (specOnly next_row)) (\<lambda>_.
       updateDecision (dc_id cur) target next_row (target \<noteq> tid) d))) = Inr (r, d')"
    using assms(2) unfolding editDecisionTx_def by (elim andThen_InrE)
  then have un: "dc_answer cur = None" "dc_decided_at cur = None" by (auto split: if_splits)
  obtain target where v: "ValidateDecisionSpec (specOnly (applyDecisionInput cur inp False)) = Inr ()"
    and upd: "updateDecision (dc_id cur) target (applyDecisionInput cur inp False) (target \<noteq> tid) d = Inr (r, d')"
    using r1 unfolding un simp_thms if_False Let_def andThen_unit
    by (elim andThen_InrE conjE) (rule that, simp_all)
  have cur: "cur \<in> set (decisions d)"
    using l by (auto simp: lockDecision_def decisionRow_def dest: row_SomeD split: option.splits)
  let ?n = "applyDecisionInput cur inp False"
  have nobody: "dc_decided_by cur = None"
    using assms(1) cur un by (auto simp: tableStep_def decisionsOk_def rowOk_def)
  have row: "row (\<lambda>r. dc_id r = dc_id cur) (decisions d) = Some cur"
  proof (cases "row (\<lambda>r. dc_id r = dc_id cur) (decisions d)")
    case None
    then show ?thesis using cur unfolding row_None_iff by blast
  next
    case (Some c)
    then show ?thesis using keyed_unique(1)[OF assms(1) _ cur] row_SomeD by fastforce
  qed
  let ?r = "cur\<lparr>dc_task := target, dc_key := dc_key ?n, dc_group := dc_group ?n,
      dc_question := dc_question ?n, dc_context := dc_context ?n,
      dc_response_type := dc_response_type ?n, dc_options := dc_options ?n,
      dc_min_picks := dc_min_picks ?n, dc_max_picks := dc_max_picks ?n,
      dc_position := (if target \<noteq> tid then nextPosition d target else dc_position cur)\<rparr>"
  have d': "d' = d\<lparr>decisions := updWhere (\<lambda>r. dc_id r = dc_id cur) (\<lambda>_. ?r) (decisions d)\<rparr>"
    and free: "\<And>r. r \<in> set (decisions d) \<Longrightarrow> dc_task r = target \<Longrightarrow> dc_key r = dc_key ?n \<Longrightarrow> dc_id r = dc_id cur"
    using upd unfolding updateDecision_def row by (auto simp: Let_def split: if_splits)
  have "ValidateDecisionSpec (specOnly ?r) = ValidateDecisionSpec (specOnly ?n)"
    by (rule ValidateDecisionSpec_cong) (simp_all add: specOnly_def)
  then have "rowOk ?r" using v un nobody by (simp add: rowOk_def)
  then show ?thesis unfolding d'
    by (intro tableStep_update[OF assms(1) cur un(1)])
      (use free keyed_unique(1)[OF assms(1) _ cur] in \<open>auto dest!: free\<close>)
qed


text \<open>Answering fills one open row, in a database the ownership change left
  the table of alone.\<close>

lemma decideTx_InrE:
  assumes "decideTx now tid key a ans ev d = Inr (r, d')"
  obtains t d1 cur pol where "a \<in> set (actors d)" "taskRow d tid = Some t"
    "t_state t \<in> set answerableStates" "\<not> IsBlocked d tid"
    "t_assignee t = None \<or> t_assignee t = Some [] \<or> t_assignee t = Some a"
    "decisionRow d tid key \<noteq> None" "\<forall>p. decisionRow d tid key = Some p \<longrightarrow> validateAnswer p ans = Inr ()"
    "d1 = (if t_assignee t = None \<or> t_assignee t = Some []
       then LogChange ''task'' tid ev (assigneeChange [] a) (setAssignee now tid (Some a) d) else d)"
    "row (\<lambda>r. dc_task r = tid \<and> dc_key r = key \<and> dc_answer r = None) (decisions d1) = Some cur"
    "taskKindPolicy (t_kind t) = Inr pol"
    "r = cur\<lparr>dc_answer := Some ans, dc_decided_by := Some a, dc_decided_at := Some now\<rparr>"
    "let d2 = d1\<lparr>decisions := updWhere (\<lambda>r. dc_task r = tid \<and> dc_key r = key \<and> dc_answer r = None)
         (\<lambda>r. r\<lparr>dc_answer := Some ans, dc_decided_by := Some a, dc_decided_at := Some now\<rparr>) (decisions d1)\<rparr>;
         open_rows = (\<exists>r\<in>set (decisions d2). dc_task r = tid \<and> dc_answer r = None)
     in if ClosesOnAnswers pol \<and> \<not> open_rows
        then transitionKnown climbFuel now ev tid (t_state t) (t_state t) ''merged'' d2 = Inr d' else d' = d2"
proof -
  obtain t where t: "taskRow d tid = Some t" and a: "a \<in> set (actors d)"
    using assms by (auto simp: decideTx_def lockTaskOwnership_def requireActor_def andThen_unit
        split: option.splits if_splits)
  let ?as = "case t_assignee t of None \<Rightarrow> [] | Some a \<Rightarrow> a"
  have un: "?as = [] \<longleftrightarrow> t_assignee t = None \<or> t_assignee t = Some []"
    "?as \<noteq> [] \<Longrightarrow> ?as = a \<Longrightarrow> t_assignee t = Some a" by (auto split: option.splits)
  note r0 = assms[unfolded decideTx_def requireActor_def lockTaskOwnership_def t option.case
      if_P[OF a] andThen_simps prod.case]
  have st: "t_state t \<in> set answerableStates" and b: "\<not> IsBlocked d tid" and own: "?as = [] \<or> ?as = a"
    using r0 by (auto split: if_splits)
  have r1: "andThen (lockDecision d tid key) (\<lambda>posed.
       andThen (validateAnswer posed ans) (\<lambda>_.
       andThen (if ?as = []
                then andThen (requireCrewMember d (t_project t) a) (\<lambda>_.
                     Inr (LogChange ''task'' tid ev (assigneeChange [] a) (setAssignee now tid (Some a) d)))
                else Inr d) (\<lambda>d1.
       case row (\<lambda>r. dc_task r = tid \<and> dc_key r = key \<and> dc_answer r = None) (decisions d1) of
         None \<Rightarrow> Inl ErrBadTransition
       | Some cur \<Rightarrow>
           let f = (\<lambda>r. r\<lparr>dc_answer := Some ans, dc_decided_by := Some a, dc_decided_at := Some now\<rparr>);
               d2 = d1\<lparr>decisions := updWhere (\<lambda>r. dc_task r = tid \<and> dc_key r = key \<and> dc_answer r = None)
                       f (decisions d1)\<rparr>
           in andThen (taskKindPolicy (t_kind t)) (\<lambda>policy.
              if \<not> ClosesOnAnswers policy then Inr (f cur, d2)
              else if \<exists>r\<in>set (decisions d2). dc_task r = tid \<and> dc_answer r = None then Inr (f cur, d2)
              else andThen (transitionKnown climbFuel now ev tid (t_state t) (t_state t) ''merged'' d2) (\<lambda>d3.
                   Inr (f cur, d3)))))) = Inr (r, d')"
    using r0 st b own by (simp split: if_splits)
  obtain posed where l: "lockDecision d tid key = Inr posed" and v: "validateAnswer posed ans = Inr ()"
    using r1 by (auto simp: andThen_Inr_iff)
  let ?d1 = "if ?as = [] then LogChange ''task'' tid ev (assigneeChange [] a) (setAssignee now tid (Some a) d) else d"
  let ?p = "\<lambda>r. dc_task r = tid \<and> dc_key r = key \<and> dc_answer r = None"
  let ?f = "\<lambda>r. r\<lparr>dc_answer := Some ans, dc_decided_by := Some a, dc_decided_at := Some now\<rparr>"
  obtain d1 where x: "(if ?as = [] then andThen (requireCrewMember d (t_project t) a) (\<lambda>_.
                     Inr (LogChange ''task'' tid ev (assigneeChange [] a) (setAssignee now tid (Some a) d)))
                else Inr d) = Inr d1" and r2': "(case row ?p (decisions d1) of
         None \<Rightarrow> Inl ErrBadTransition
       | Some cur \<Rightarrow>
           let f = ?f; d2 = d1\<lparr>decisions := updWhere ?p f (decisions d1)\<rparr>
           in andThen (taskKindPolicy (t_kind t)) (\<lambda>policy.
              if \<not> ClosesOnAnswers policy then Inr (f cur, d2)
              else if \<exists>r\<in>set (decisions d2). dc_task r = tid \<and> dc_answer r = None then Inr (f cur, d2)
              else andThen (transitionKnown climbFuel now ev tid (t_state t) (t_state t) ''merged'' d2) (\<lambda>d3.
                   Inr (f cur, d3)))) = Inr (r, d')"
    using r1 unfolding l andThen_simps v by (elim andThen_InrE)
  have "d1 = ?d1" using x by (cases "?as = []") (simp_all add: andThen_unit)
  note r2 = r2'[unfolded this]
  obtain cur where cur: "row ?p (decisions ?d1) = Some cur" using r2 by (cases "row ?p (decisions ?d1)") simp_all
  obtain pol where pol: "taskKindPolicy (t_kind t) = Inr pol"
    and r3: "(let d2 = ?d1\<lparr>decisions := updWhere ?p ?f (decisions ?d1)\<rparr> in
          if \<not> ClosesOnAnswers pol then Inr (?f cur, d2)
              else if \<exists>r\<in>set (decisions d2). dc_task r = tid \<and> dc_answer r = None then Inr (?f cur, d2)
              else andThen (transitionKnown climbFuel now ev tid (t_state t) (t_state t) ''merged'' d2) (\<lambda>d3.
                   Inr (?f cur, d3))) = Inr (r, d')"
    using r2 unfolding cur option.case Let_def by (elim andThen_InrE)
  have res: "r = ?f cur" "let d2 = ?d1\<lparr>decisions := updWhere ?p ?f (decisions ?d1)\<rparr>;
         open_rows = (\<exists>r\<in>set (decisions d2). dc_task r = tid \<and> dc_answer r = None)
     in if ClosesOnAnswers pol \<and> \<not> open_rows
        then transitionKnown climbFuel now ev tid (t_state t) (t_state t) ''merged'' d2 = Inr d' else d' = d2"
    using r3 unfolding Let_def andThen_Inr_iff by (auto simp: andThen_Inr_iff split: if_splits)
  have pr: "decisionRow d tid key \<noteq> None" "\<forall>p. decisionRow d tid key = Some p \<longrightarrow> validateAnswer p ans = Inr ()"
    using l v by (auto simp: lockDecision_def split: option.splits)
  show ?thesis
    by (rule that[OF a t st b _ pr _ cur pol res]) (use own un in auto)
qed


lemma takeOver:
  assumes "taskRow d tid = Some t"
    and "d1 = (if t_assignee t = None \<or> t_assignee t = Some []
       then LogChange ''task'' tid ev c (setAssignee now tid (Some a) d) else d)"
    and "t_assignee t = None \<or> t_assignee t = Some [] \<or> t_assignee t = Some a"
  shows "decisions d1 = decisions d" "next_decision_id d1 = next_decision_id d" "task_edges d1 = task_edges d"
    "\<exists>t1. taskRow d1 tid = Some t1 \<and> t_state t1 = t_state t \<and> t_kind t1 = t_kind t \<and> t_assignee t1 = Some a"
proof -
  let ?f = "\<lambda>t. t\<lparr>t_assignee := Some a, t_updated_at := now\<rparr>"
  have "taskRow (updTask tid ?f d) tid = Some (?f t)"
    using taskRow_updTask[of ?f tid d tid] assms(1) by simp
  then show "decisions d1 = decisions d" "next_decision_id d1 = next_decision_id d" "task_edges d1 = task_edges d"
    "\<exists>t1. taskRow d1 tid = Some t1 \<and> t_state t1 = t_state t \<and> t_kind t1 = t_kind t \<and> t_assignee t1 = Some a"
    using assms by (auto simp: setAssignee_def LogChange_def taskRow_def updTask_def)
qed

lemma movedLegally_assignee:
  assumes "movedLegally d0 d" "taskRow d0 tid = Some t"
  shows "\<exists>t'. taskRow d tid = Some t' \<and> t_assignee t' = t_assignee t"
proof (cases "taskRow d tid")
  case None
  then show ?thesis using assms(1)[unfolded movedLegally_def, rule_format, of tid] assms(2) by simp
next
  case (Some t')
  then have "t'\<lparr>t_state := t_state t, t_updated_at := t_updated_at t\<rparr> = t"
    using assms(1)[unfolded movedLegally_def, rule_format, of tid] assms(2) by simp
  then have "t_assignee (t'\<lparr>t_state := t_state t, t_updated_at := t_updated_at t\<rparr>) = t_assignee t"
    by (rule arg_cong)
  then show ?thesis using Some by simp
qed

text \<open>What a recorded answer leaves: the table after filling the row, and the
  task, closed when its kind says so and nothing is open.\<close>

lemma decideTx_result:
  assumes "tableStep d0 d" "hierarchyOk d" "decideTx now tid key a ans ev d = Inr (r, d')"
  shows "tableStep d0 d' \<and> r \<in> set (decisions d') \<and> dc_task r = tid \<and> dc_key r = key \<and>
     dc_answer r = Some ans \<and> dc_decided_by r = Some a \<and> dc_decided_at r = Some now \<and>
     validateAnswer r ans = Inr () \<and>
     (\<exists>t t' pol. taskRow d tid = Some t \<and> t_state t \<in> set answerableStates \<and> \<not> IsBlocked d tid \<and>
        (t_assignee t = None \<or> t_assignee t = Some [] \<or> t_assignee t = Some a) \<and>
        taskKindPolicy (t_kind t) = Inr pol \<and> taskRow d' tid = Some t' \<and> t_assignee t' = Some a \<and>
        t_state t' = (if ClosesOnAnswers pol \<and> (\<forall>x\<in>set (decisions d'). dc_task x = tid \<longrightarrow> dc_answer x \<noteq> None)
                      then ''merged'' else t_state t))"
  using assms(3)
proof (rule decideTx_InrE)
  fix t :: task and d1 :: db and cur :: decision and pol :: descriptor
  let ?p = "\<lambda>r. dc_task r = tid \<and> dc_key r = key \<and> dc_answer r = None"
  let ?f = "\<lambda>r. r\<lparr>dc_answer := Some ans, dc_decided_by := Some a, dc_decided_at := Some now\<rparr>"
  let ?d2 = "d1\<lparr>decisions := updWhere ?p ?f (decisions d1)\<rparr>"
  assume t: "taskRow d tid = Some t" and pre: "t_state t \<in> set answerableStates" "\<not> IsBlocked d tid"
    and own: "t_assignee t = None \<or> t_assignee t = Some [] \<or> t_assignee t = Some a"
    and val: "\<forall>p. decisionRow d tid key = Some p \<longrightarrow> validateAnswer p ans = Inr ()"
    and ex: "decisionRow d tid key \<noteq> None"
    and d1: "d1 = (if t_assignee t = None \<or> t_assignee t = Some []
       then LogChange ''task'' tid ev (assigneeChange [] a) (setAssignee now tid (Some a) d) else d)"
    and row: "row ?p (decisions d1) = Some cur" and pol: "taskKindPolicy (t_kind t) = Inr pol" and r: "r = ?f cur"
    and "let d2 = ?d2; open_rows = (\<exists>r\<in>set (decisions d2). dc_task r = tid \<and> dc_answer r = None)
     in if ClosesOnAnswers pol \<and> \<not> open_rows
        then transitionKnown climbFuel now ev tid (t_state t) (t_state t) ''merged'' d2 = Inr d' else d' = d2"
  then have fin: "if ClosesOnAnswers pol \<and> \<not> (\<exists>r\<in>set (decisions ?d2). dc_task r = tid \<and> dc_answer r = None)
        then transitionKnown climbFuel now ev tid (t_state t) (t_state t) ''merged'' ?d2 = Inr d' else d' = ?d2"
    unfolding Let_def by blast
  note to = takeOver[OF t d1 own]
  have s1: "tableStep d0 d1" using assms(1) tableStep_cong[OF to(1,2)] by simp
  have cur: "cur \<in> set (decisions d1)" "?p cur" using row_SomeD[OF row] by blast+
  obtain p where p: "decisionRow d tid key = Some p" using ex by blast
  have "p \<in> set (decisions d1)" "dc_task p = tid" "dc_key p = key"
    using row_SomeD[OF p[unfolded decisionRow_def]] to(1) by simp_all
  then have "p = cur" using keyed_unique(2)[OF s1 _ cur(1)] cur(2) by simp
  then have "validateAnswer cur ans = Inr ()" using val p by simp
  then have vr: "validateAnswer r ans = Inr ()" unfolding r by (subst validateAnswer_cong[of _ cur]) simp_all
  have "ValidateDecisionSpec (specOnly r) = ValidateDecisionSpec (specOnly cur)"
    unfolding r by (rule ValidateDecisionSpec_cong) (simp_all add: specOnly_def)
  then have rok: "rowOk r"
    using s1 cur vr unfolding tableStep_def decisionsOk_def by (auto simp: rowOk_def r)
  have s2: "tableStep d0 ?d2"
  proof (rule tableStep_update[where p = ?p and f = ?f and cur = cur])
    show "tableStep d0 d1" "cur \<in> set (decisions d1)" "?p cur" by (rule s1, rule cur(1), rule cur(2))
    show "dc_answer cur = None" using cur(2) by blast
    show "\<And>x. x \<in> set (decisions d1) \<Longrightarrow> ?p x \<Longrightarrow> x = cur"
      using keyed_unique(2)[OF s1 _ cur(1)] cur(2) by metis
    show "dc_id (?f cur) = dc_id cur" by simp
    show "rowOk (?f cur)" using rok by (simp only: r)
    show "\<And>x. x \<in> set (decisions d1) \<Longrightarrow> dc_task x = dc_task (?f cur) \<Longrightarrow> dc_key x = dc_key (?f cur) \<Longrightarrow> x = cur"
      using keyed_unique(2)[OF s1 _ cur(1)] by simp
  qed
  have "r \<in> set (updWhere ?p ?f (decisions d1))"
    unfolding in_set_updWhere by (rule bexI[OF _ cur(1)]) (simp only: if_P[OF cur(2)] r)
  then have r2: "r \<in> set (decisions ?d2)" by simp
  obtain t1 where t1: "taskRow d1 tid = Some t1" "t_state t1 = t_state t" "t_kind t1 = t_kind t"
    "t_assignee t1 = Some a" using to(4) by blast
  then have t2: "taskRow ?d2 tid = Some t1" by (simp add: taskRow_def)
  have te: "task_edges ?d2 = task_edges d" using to(3) by simp
  have h2: "hierarchyOk ?d2" using assms(2) unfolding hierarchyOk_def edgeRel_cong[OF te] .
  have keeps: "decisions d' = decisions ?d2 \<and> next_decision_id d' = next_decision_id ?d2 \<and>
      (\<exists>t'. taskRow d' tid = Some t' \<and> t_assignee t' = Some a \<and> t_state t' =
        (if ClosesOnAnswers pol \<and> (\<forall>x\<in>set (decisions ?d2). dc_task x = tid \<longrightarrow> dc_answer x \<noteq> None)
         then ''merged'' else t_state t))"
  proof (cases "ClosesOnAnswers pol \<and> \<not> (\<exists>r\<in>set (decisions ?d2). dc_task r = tid \<and> dc_answer r = None)")
    case True
    then have tr: "transitionKnown climbFuel now ev tid (t_state t1) (t_state t1) ''merged'' ?d2 = Inr d'"
      using fin t1(2) by simp
    have "movedLegally ?d2 d'" by (rule machine_legal.transitionKnown_keeps[OF movedLegally_refl t2 tr])
    from movedLegally_assignee[OF this t2] obtain t' where
      t': "taskRow d' tid = Some t'" "t_assignee t' = Some a" unfolding t1(4) by blast
    have "t_state t' = ''merged''" using transitionKnown_own(2)[OF h2 t2 tr] t'(1) by (simp add: stateOf_def)
    then show ?thesis
      using machine_decisions.transitionKnown_keeps[OF _ t2 tr, of "decisions ?d2" "next_decision_id ?d2"] t' True
      by auto
  next
    case False
    then have "d' = ?d2" using fin by meson
    then show ?thesis using False t2 t1 by auto
  qed
  then have "tableStep d0 d'" using s2 tableStep_cong[of d' ?d2 d0] by blast
  then show ?thesis using keeps r2 r vr cur(2) t pre own pol by auto
qed


section \<open>The operations\<close>

lemma tableStep_refl: "decisionsOk d \<Longrightarrow> tableStep d d"
  by (simp add: tableStep_def answersKept_def)

lemma tableStep_row:
  "tableStep d0 d \<Longrightarrow> r \<in> set (decisions d0) \<Longrightarrow> dc_answer r \<noteq> None \<Longrightarrow> r \<in> set (decisions d)"
  unfolding tableStep_def answersKept_def by blast

lemma tableStep_event:
  "tableStep d0 d \<Longrightarrow> tableStep d0 (burnId d)"
  "tableStep d0 d \<Longrightarrow> tableStep d0 (appendEvent src ext ty payload now d)"
  by (subst tableStep_cong[of _ d]; simp add: burnId_def appendEvent_def)+

lemma decideTx_ok:
  assumes "tableStep d0 d" "decideTx now tid key a ans ev d = Inr (r, d')" "hierarchyOk d"
  shows "tableStep d0 d'"
  using decideTx_result[OF assms(1,3,2)] by blast

lemma event_ok:
  assumes "decisionsOk d" "hierarchyOk d"
  shows "tableStep d (appendEvent src ext ty payload now d)" "hierarchyOk (appendEvent src ext ty payload now d)"
proof -
  have te: "task_edges (appendEvent src ext ty payload now d) = task_edges d" by (simp add: appendEvent_def)
  show "hierarchyOk (appendEvent src ext ty payload now d)"
    using assms(2) unfolding hierarchyOk_def edgeRel_cong[OF te] .
qed (rule tableStep_event(2)[OF tableStep_refl[OF assms(1)]])

lemma operations_ok:
  assumes "decisionsOk d" "hierarchyOk d"
  shows "tableStep d (snd (AddDecision now x tid a inp d))"
    "tableStep d (snd (EditDecision now x tid key a inp d))"
    "tableStep d (snd (RecordDecision now x tid key a ans d))"
proof -
  note keeps = RecordEvent_keeps[where P = "tableStep d", OF tableStep_event _ tableStep_refl[OF assms(1)]]
  show "tableStep d (snd (AddDecision now x tid a inp d))"
    unfolding AddDecision_def by (rule keeps) (auto intro: addDecisionTx_ok)
  show "tableStep d (snd (EditDecision now x tid key a inp d))"
    unfolding EditDecision_def by (rule keeps) (auto intro: editDecisionTx_ok)
  note e = event_ok[OF assms, of "''cli''" x "''task.decided''" "decisionPayload tid a key" now]
  show "tableStep d (snd (RecordDecision now x tid key a ans d))"
    unfolding RecordDecision_def outcome_def RecordEvent_def
    using tableStep_event(1)[OF tableStep_refl[OF assms(1)]] decideTx_ok[OF e(1) _ e(2)]
    by (simp split: option.split sum.split prod.split)
qed

text \<open>C21: posing, editing and answering keep every row of the table well posed
  and answered as a whole or not at all, with an answer that fits the question,
  under a unique id and a key unique on its task.\<close>

theorem decisions_stay_well_posed:
  assumes "decisionsOk d" "hierarchyOk d"
  shows "decisionsOk (snd (AddDecision now x tid a inp d)) \<and>
     decisionsOk (snd (EditDecision now x tid key a inp d)) \<and>
     decisionsOk (snd (RecordDecision now x tid key a ans d))"
  using operations_ok[OF assms] unfolding tableStep_def by blast



text \<open>A recorded answer is final: whatever is posed, edited or answered
  afterwards, succeeding or not, an answered row stays in the table as it
  was.\<close>

theorem answers_immutable:
  assumes "decisionsOk d" "hierarchyOk d" "r \<in> set (decisions d)" "dc_answer r \<noteq> None"
  shows "r \<in> set (decisions (snd (AddDecision now x tid a inp d))) \<and>
     r \<in> set (decisions (snd (EditDecision now x tid key a inp d))) \<and>
     r \<in> set (decisions (snd (RecordDecision now x tid key a ans d)))"
  by (intro conjI tableStep_row[OF _ assms(3,4)] operations_ok[OF assms(1,2)])

text \<open>An answer that is recorded was allowed: the task was ready, in
  progress or in review, not blocked, unassigned or the actor's; the answer
  fits the question. Afterwards the row holds the answer, the actor and the
  second of the call, the task is the actor's, and it is merged if its kind
  closes on answers and no question on it is open, and in the state it was in
  otherwise.\<close>

theorem decide_outcome:
  assumes "decisionsOk d" "hierarchyOk d"
    and "RecordDecision now x tid key a ans d = (Inr (Some r), d')"
  shows "\<exists>t t' pol. taskRow d tid = Some t \<and> t_state t \<in> {''ready'', ''in_progress'', ''in_review''} \<and>
     \<not> IsBlocked d tid \<and> t_assignee t \<in> {None, Some [], Some a} \<and> taskKindPolicy (t_kind t) = Inr pol \<and>
     r \<in> set (decisions d') \<and> dc_task r = tid \<and> dc_key r = key \<and> validateAnswer r ans = Inr () \<and>
     dc_answer r = Some ans \<and> dc_decided_by r = Some a \<and> dc_decided_at r = Some (truncSec now) \<and>
     taskRow d' tid = Some t' \<and> t_assignee t' = Some a \<and>
     t_state t' = (if ClosesOnAnswers pol \<and> (\<forall>q\<in>set (decisions d'). dc_task q = tid \<longrightarrow> dc_answer q \<noteq> None)
                   then ''merged'' else t_state t)"
proof -
  let ?e = "appendEvent ''cli'' x ''task.decided'' (decisionPayload tid a key) now d"
  note e = event_ok[OF assms(1,2), of "''cli''" x "''task.decided''" "decisionPayload tid a key" now]
  have row: "taskRow ?e tid = taskRow d tid" by (simp add: taskRow_def appendEvent_def)
  have "decideTx (truncSec now) tid key a ans (next_event_id d) ?e = Inr (r, d')"
    by (rule outcome_InrD) (use assms(3) in \<open>simp only: RecordDecision_def\<close>)
  note res = decideTx_result[OF e this, unfolded row]
  have blk: "IsBlocked ?e tid = IsBlocked d tid" by (subst IsBlocked_cong[of ?e d]) (simp_all add: appendEvent_def)
  from res obtain t t' pol where t: "taskRow d tid = Some t" "t_state t \<in> set answerableStates"
    "\<not> IsBlocked d tid" "t_assignee t = None \<or> t_assignee t = Some [] \<or> t_assignee t = Some a"
    "taskKindPolicy (t_kind t) = Inr pol" "taskRow d' tid = Some t'" "t_assignee t' = Some a"
    "t_state t' = (if ClosesOnAnswers pol \<and> (\<forall>q\<in>set (decisions d'). dc_task q = tid \<longrightarrow> dc_answer q \<noteq> None)
                   then ''merged'' else t_state t)"
    unfolding blk by (elim exE conjE)
  have own: "t_assignee t \<in> {None, Some [], Some a}" using t(4) by blast
  have st: "t_state t \<in> {''ready'', ''in_progress'', ''in_review''}"
    using t(2) by (simp add: answerableStates_def)
  show ?thesis
    using res by (intro exI[of _ t] exI[of _ t'] exI[of _ pol] conjI t own st) (elim conjE; assumption)+
qed

text \<open>The guard that keeps a question off a closed task stands on
  re-parenting only: a question posed on a merged task is accepted, and while
  the task stays merged every answer to it, by anybody, is refused.\<close>

definition mergedTask :: db where
  "mergedTask = sampleDb [sampleTask ''WL-1'' ''feature'' ''merged''] []"

definition yesNo :: "string \<Rightarrow> decision_input" where
  "yesNo key = \<lparr> di_task = [], di_key = key, di_group = None, di_question = ''Q'', di_context = None,
     di_response_type = ''yes_no'', di_options = [], di_min_picks = None, di_max_picks = None \<rparr>"

theorem posed_on_closed_task:
  "\<exists>q d. AddDecision 0 ''x'' ''WL-1'' ''ada'' (yesNo ''k'') mergedTask = (Inr (Some q), d) \<and>
     (\<forall>now ev a ans. \<exists>e. decideTx now ''WL-1'' ''k'' a ans ev d = Inl e) \<and>
     requireOpenTask mergedTask ''WL-1'' = Inl ErrInvalidInput"
proof -
  let ?r = "AddDecision 0 ''x'' ''WL-1'' ''ada'' (yesNo ''k'') mergedTask"
  have ok: "(case fst ?r of Inr (Some _) \<Rightarrow> True | _ \<Rightarrow> False)" "map_option t_state (taskRow (snd ?r) ''WL-1'') = Some ''merged''"
    and rq: "requireOpenTask mergedTask ''WL-1'' = Inl ErrInvalidInput" by code_simp+
  obtain q where q: "?r = (Inr (Some q), snd ?r)"
    using ok(1) by (cases ?r) (auto split: sum.splits option.splits)
  have "\<exists>e. decideTx now ''WL-1'' ''k'' a ans ev (snd ?r) = Inl e" for now ev a ans
    using ok(2) by (auto simp: decideTx_def requireActor_def lockTaskOwnership_def answerableStates_def)
  then show ?thesis using q rq by metis
qed

definition posedDb :: db where
  "posedDb = snd (AddDecision 0 ''x'' ''WL-1'' ''ada'' (yesNo ''k'')
     (sampleDb [sampleTask ''WL-1'' ''decision'' ''ready''] []))"

definition yes :: decision_answer where
  "yes = \<lparr>an_picked = [], an_notes = [], an_freetext = [], an_value = ''yes''\<rparr>"

definition decidedDb :: db where
  "decidedDb = snd (RecordDecision 5 ''y'' ''WL-1'' ''k'' ''ada'' yes posedDb)"

lemma posedDb_ok: "decisionsOk posedDb" "hierarchyOk posedDb"
proof -
  show "decisionsOk posedDb" by code_simp
  have "task_edges posedDb = []" by code_simp
  then show "hierarchyOk posedDb" by (simp add: hierarchyOk_def edgeRel_def acyclic_def)
qed

theorem decisions_stay_well_posed_witness: "decisionsOk decidedDb \<and> length (decisions decidedDb) = 1"
proof -
  have "length (decisions decidedDb) = 1" by code_simp
  then show ?thesis
    unfolding decidedDb_def using decisions_stay_well_posed[OF posedDb_ok] by blast
qed

theorem decide_outcome_witness: "stateOf decidedDb ''WL-1'' = Some ''merged''"
proof -
  let ?r = "RecordDecision 5 ''y'' ''WL-1'' ''k'' ''ada'' yes posedDb"
  have ok: "(case fst ?r of Inr (Some _) \<Rightarrow> True | _ \<Rightarrow> False)"
    "map_option t_kind (taskRow posedDb ''WL-1'') = Some ''decision''"
    "taskKindPolicy ''decision'' = Inr (projr (taskKindPolicy ''decision''))"
    "ClosesOnAnswers (projr (taskKindPolicy ''decision''))"
    "\<forall>q\<in>set (decisions decidedDb). dc_answer q \<noteq> None" by code_simp+
  obtain q where q: "?r = (Inr (Some q), decidedDb)"
    unfolding decidedDb_def using ok(1) by (cases ?r) (auto split: sum.splits option.splits)
  from decide_outcome[OF posedDb_ok q] show ?thesis
    using ok by (auto simp: stateOf_def)
qed

theorem answers_immutable_witness:
  "decisions (snd (EditDecision 6 ''z'' ''WL-1'' ''k'' ''ada'' (yesNo ''k2'') decidedDb)) = decisions decidedDb"
proof -
  let ?d = "snd (EditDecision 6 ''z'' ''WL-1'' ''k'' ''ada'' (yesNo ''k2'') decidedDb)"
  let ?r = "hd (decisions decidedDb)"
  have r: "decisions decidedDb = [?r]" "dc_answer ?r \<noteq> None" "length (decisions ?d) = 1"
    and te: "task_edges decidedDb = []" and ok: "decisionsOk decidedDb" by code_simp+
  have "hierarchyOk decidedDb" using te by (simp add: hierarchyOk_def edgeRel_def acyclic_def)
  then have "?r \<in> set (decisions ?d)"
    using answers_immutable[OF ok, of ?r 6 "''z''" "''WL-1''" "''ada''" _ "''k''"] r(1,2)
    by (metis list.set_intros(1))
  then show ?thesis using r(1,3) by (cases "decisions ?d") auto
qed

end
