(* ===== verification/ApprovalRules.thy ===== *)
theory ApprovalRules
  imports Ownership
begin

text \<open>
  The pure rules of approvals (internal/store/approval_rules.go): what a
  decision records, who may decide, which flow governs a project, and what a
  new revision or an impact answer does. Case folding is over ASCII letters;
  the string maps are association lists with one entry per key.
\<close>

definition DecisionState :: "string \<Rightarrow> string option" where
  "DecisionState dec =
     (if dec = ''approve'' then Some ''approved''
      else if dec = ''request_changes'' then Some ''changes_requested''
      else if dec = ''reject'' then Some ''rejected''
      else None)"

definition QualifiedForRole :: "string option \<Rightarrow> string list \<Rightarrow> bool" where
  "QualifiedForRole requiredRole groups =
     (case requiredRole of
        None \<Rightarrow> True
      | Some r \<Rightarrow> r = [] \<or> r \<in> set groups)"

definition EqualFold :: "string \<Rightarrow> string \<Rightarrow> bool" where
  "EqualFold a b \<longleftrightarrow> lowerBytes a = lowerBytes b"

definition IsSelfApproval :: "string \<Rightarrow> string \<Rightarrow> bool" where
  "IsSelfApproval authorLogin deciderLogin \<longleftrightarrow>
     (if authorLogin = [] \<or> deciderLogin = [] then False else EqualFold authorLogin deciderLogin)"

definition FlowEntityKinds :: "string list" where
  "FlowEntityKinds = [''doc'', ''deliverable'', ''task'']"

fun checkRequirements :: "string list \<Rightarrow> approval_requirement list \<Rightarrow> bool" where
  "checkRequirements seen [] = True"
| "checkRequirements seen (r # rs) =
     (if aq_lane r = [] then False
      else if aq_lane r \<in> set seen then False
      else if aq_kind r \<notin> set FlowEntityKinds then False
      else if aq_role r = [] then False
      else checkRequirements (aq_lane r # seen) rs)"

text \<open>True for the nil error; the errors are texts nothing tells apart.\<close>

definition ValidateFlow :: "approval_flow \<Rightarrow> bool" where
  "ValidateFlow f \<longleftrightarrow>
     (if fl_name f = [] then False
      else if fl_rev f = [] then False
      else if \<not> checkRequirements [] (fl_requirements f) then False
      else \<forall>k\<in>set (fl_self_review f). k \<in> set FlowEntityKinds)"

text \<open>A missing key reads as the empty string.\<close>

definition labelOf :: "(string \<times> string) list \<Rightarrow> string \<Rightarrow> string" where
  "labelOf labels k = (case map_of labels k of None \<Rightarrow> [] | Some v \<Rightarrow> v)"

definition matchesLabels :: "(string \<times> string) list \<Rightarrow> (string \<times> string) list \<Rightarrow> bool" where
  "matchesLabels m labels \<longleftrightarrow> (\<forall>(k, v)\<in>set m. labelOf labels k = v)"

definition betterFlow :: "approval_flow \<Rightarrow> approval_flow \<Rightarrow> bool" where
  "betterFlow f best \<longleftrightarrow>
     length (fl_match f) > length (fl_match best) \<or>
     (length (fl_match f) = length (fl_match best) \<and> strCompare (fl_name f) (fl_name best) < 0)"

fun matchFlowFrom ::
  "approval_flow option \<Rightarrow> approval_flow list \<Rightarrow> (string \<times> string) list \<Rightarrow> approval_flow option" where
  "matchFlowFrom best [] labels = best"
| "matchFlowFrom best (f # fs) labels =
     (if fl_match f = [] \<or> \<not> matchesLabels (fl_match f) labels then matchFlowFrom best fs labels
      else if (case best of None \<Rightarrow> True | Some b \<Rightarrow> betterFlow f b)
      then matchFlowFrom (Some f) fs labels
      else matchFlowFrom best fs labels)"

definition MatchFlow :: "approval_flow list \<Rightarrow> (string \<times> string) list \<Rightarrow> approval_flow option" where
  "MatchFlow flows labels = matchFlowFrom None flows labels"

datatype revision_outcome = RevisionNoop | RevisionRebind | RevisionCandidate

definition OnNewRevision :: "approval option \<Rightarrow> bool \<Rightarrow> bool \<Rightarrow> revision_outcome" where
  "OnNewRevision open_row hasDecided boundAlready =
     (if boundAlready then RevisionNoop
      else if open_row \<noteq> None then RevisionRebind
      else if hasDecided then RevisionCandidate
      else RevisionNoop)"

definition PriorApprover :: "approval list \<Rightarrow> string \<Rightarrow> bool" where
  "PriorApprover history actorID \<longleftrightarrow>
     (\<exists>a\<in>set history. ap_review_kind a \<noteq> ''impact'' \<and> ap_state a = ''approved'' \<and>
        ap_resolving a = Some actorID)"

datatype impact_effect = ImpactConfirm | ImpactReopen

definition ImpactDecisionEffect :: "string \<Rightarrow> impact_effect" where
  "ImpactDecisionEffect st = (if st = ''approved'' then ImpactConfirm else ImpactReopen)"

definition RequirementsForEntity ::
  "approval_flow \<Rightarrow> string \<Rightarrow> string \<Rightarrow> approval_requirement list" where
  "RequirementsForEntity f entityKind name =
     filter (\<lambda>r. aq_kind r = entityKind \<and> (aq_target r = [] \<or> EqualFold (aq_target r) name))
       (fl_requirements f)"

end
