(* ===== verification/Approvals.thy ===== *)
theory Approvals
  imports ApprovalRules
begin

text \<open>
  Approvals (internal/store/approvals.go, approvalflow.go): the awaiting rows an
  entity revision owes, who may decide them and what a decision does, what a new
  revision does to the rows there are, the impact questions it opens on
  dependent entities, the gate a document acceptance passes, and the rows a
  project's flow demands. Entity ids and revisions are the strings the writers
  spell. The inline_refs rows derived from an impact note are left out.
\<close>

section \<open>Spellings\<close>

definition PREntityID :: "string \<Rightarrow> int \<Rightarrow> string" where
  "PREntityID repo number = repo @ ''#'' @ intStr number"

definition DocEntityID :: "int \<Rightarrow> string" where
  "DocEntityID docID = ''doc:'' @ intStr docID"

definition DocIDFromEntityID :: "string \<Rightarrow> int option" where
  "DocIDFromEntityID entityID =
     (case dropPrefix ''doc:'' entityID of None \<Rightarrow> None | Some rest \<Rightarrow> atoi rest)"

definition RevisionRef :: "string \<Rightarrow> string \<Rightarrow> string" where
  "RevisionRef entityID revision = entityID @ ''@'' @ revision"

definition ImpactRevision :: "string \<Rightarrow> string \<Rightarrow> string \<Rightarrow> string" where
  "ImpactRevision dependentRevision upstreamID upstreamRevision =
     dependentRevision @ ''+'' @ RevisionRef upstreamID upstreamRevision"

section \<open>Rows\<close>

abbreviation openState :: "string \<Rightarrow> bool" where
  "openState st \<equiv> st = ''awaiting'' \<or> st = ''changes_requested''"

definition ofEntity :: "string \<Rightarrow> string \<Rightarrow> approval \<Rightarrow> bool" where
  "ofEntity kind entity a \<longleftrightarrow> ap_kind a = kind \<and> ap_entity a = entity"

definition approvalKey :: "approval \<Rightarrow> string \<times> string \<times> string \<times> string \<times> string" where
  "approvalKey a = (ap_kind a, ap_entity a, ap_revision a, ap_lane a, ap_review_kind a)"

definition knownActor :: "db \<Rightarrow> string option \<Rightarrow> bool" where
  "knownActor d a \<longleftrightarrow> (case a of None \<Rightarrow> True | Some x \<Rightarrow> x \<in> set (actors d))"

text \<open>INSERT ... ON CONFLICT DO NOTHING: a skipped row still takes a number and
  is not checked against the actors.\<close>

definition insertApproval :: "approval \<Rightarrow> db \<Rightarrow> err + bool \<times> db" where
  "insertApproval a d =
     (let d1 = d\<lparr>next_approval_id := next_approval_id d + 1\<rparr> in
      if approvalKey a \<in> approvalKey ` set (approvals d) then Inr (False, d1)
      else if \<not> knownActor d (ap_required_actor a) \<or> \<not> knownActor d (ap_created_by a)
      then Inl (DBError ''approvals_actor_fkey'')
      else Inr (True, d1\<lparr>approvals := approvals d @ [a\<lparr>ap_id := next_approval_id d\<rparr>]\<rparr>))"

definition awaitingRow ::
  "int \<Rightarrow> string \<Rightarrow> string \<Rightarrow> string \<Rightarrow> string \<Rightarrow> string option \<Rightarrow> string option \<Rightarrow> string option \<Rightarrow>
     string \<Rightarrow> approval" where
  "awaitingRow now kind entity revision lane role reqActor createdBy reviewKind =
     \<lparr> ap_id = 0, ap_kind = kind, ap_entity = entity, ap_revision = revision, ap_lane = lane,
       ap_role = role, ap_required_actor = reqActor, ap_resolving = None, ap_state = ''awaiting'',
       ap_review_kind = reviewKind, ap_note = None, ap_exception = None, ap_created_at = now,
       ap_created_by = createdBy, ap_resolved_at = None \<rparr>"

definition InsertAwaitingApproval ::
  "int \<Rightarrow> string \<Rightarrow> string \<Rightarrow> string \<Rightarrow> string \<Rightarrow> string option \<Rightarrow> string option \<Rightarrow> string option \<Rightarrow>
     db \<Rightarrow> err + bool \<times> db" where
  "InsertAwaitingApproval now kind entity revision lane role reqActor createdBy =
     insertApproval (awaitingRow now kind entity revision lane role reqActor createdBy ''review'')"

definition approvalByID :: "db \<Rightarrow> int \<Rightarrow> approval option" where
  "approvalByID d i = row (\<lambda>a. ap_id a = i) (approvals d)"

definition updApproval :: "int \<Rightarrow> (approval \<Rightarrow> approval) \<Rightarrow> db \<Rightarrow> db" where
  "updApproval i f d = d\<lparr>approvals := updWhere (\<lambda>a. ap_id a = i) f (approvals d)\<rparr>"

text \<open>ORDER BY id DESC.\<close>

definition newestFirst :: "approval list \<Rightarrow> approval list" where
  "newestFirst = sortStable (\<lambda>a b. cmpInt (ap_id b) (ap_id a))"

definition firstOf :: "'a list \<Rightarrow> 'a option" where
  "firstOf xs = (case xs of [] \<Rightarrow> None | x # _ \<Rightarrow> Some x)"

definition ApprovalByKey :: "db \<Rightarrow> string \<Rightarrow> string \<Rightarrow> string \<Rightarrow> string \<Rightarrow> err + approval" where
  "ApprovalByKey d kind entity revision lane =
     (case row (\<lambda>a. ofEntity kind entity a \<and> ap_revision a = revision \<and> ap_lane a = lane) (approvals d) of
        None \<Rightarrow> Inl ErrNotFound | Some a \<Rightarrow> Inr a)"

definition OpenApprovalForLane :: "db \<Rightarrow> string \<Rightarrow> string \<Rightarrow> string \<Rightarrow> err + approval" where
  "OpenApprovalForLane d kind entity lane =
     (case firstOf (newestFirst (filter (\<lambda>a. ofEntity kind entity a \<and> ap_lane a = lane \<and>
             openState (ap_state a)) (approvals d))) of
        None \<Rightarrow> Inl ErrNotFound | Some a \<Rightarrow> Inr a)"

definition OpenApprovalsForEntity :: "db \<Rightarrow> string \<Rightarrow> string \<Rightarrow> approval list" where
  "OpenApprovalsForEntity d kind entity =
     sortStable (\<lambda>a b. cmpOr [strCompare (ap_lane a) (ap_lane b), cmpInt (ap_id a) (ap_id b)])
       (filter (\<lambda>a. ofEntity kind entity a \<and> openState (ap_state a)) (approvals d))"

definition ListApprovalsForEntity :: "db \<Rightarrow> string \<Rightarrow> string \<Rightarrow> approval list" where
  "ListApprovalsForEntity d kind entity = newestFirst (filter (ofEntity kind entity) (approvals d))"

definition ResolveApproval :: "int \<Rightarrow> string \<Rightarrow> string option \<Rightarrow> int \<Rightarrow> db \<Rightarrow> db" where
  "ResolveApproval i st resolvingActor now =
     updApproval i (\<lambda>a. a\<lparr>ap_state := st, ap_resolving := resolvingActor, ap_resolved_at := Some now\<rparr>)"

definition reopened :: "approval \<Rightarrow> approval" where
  "reopened a = a\<lparr>ap_state := ''awaiting'', ap_resolving := None, ap_resolved_at := None\<rparr>"

definition ReopenApproval :: "int \<Rightarrow> db \<Rightarrow> db" where
  "ReopenApproval i d =
     d\<lparr>approvals := updWhere (\<lambda>a. ap_id a = i \<and> ap_state a = ''changes_requested'') reopened (approvals d)\<rparr>"

definition SetRequiredActor :: "int \<Rightarrow> string \<Rightarrow> db \<Rightarrow> err + db" where
  "SetRequiredActor i actorID d =
     (if (\<exists>a\<in>set (approvals d). ap_id a = i \<and> ap_required_actor a = None) \<and> actorID \<notin> set (actors d)
      then Inl (DBError ''approvals_required_actor_fkey'')
      else Inr (d\<lparr>approvals := updWhere (\<lambda>a. ap_id a = i \<and> ap_required_actor a = None)
             (\<lambda>a. a\<lparr>ap_required_actor := Some actorID\<rparr>) (approvals d)\<rparr>))"

section \<open>A document's reviewers\<close>

definition checkActorExists :: "db \<Rightarrow> string \<Rightarrow> err + unit" where
  "checkActorExists d a = (if a \<in> set (actors d) then Inr () else Inl ErrInvalidInput)"

definition docReviewers :: "db \<Rightarrow> int \<Rightarrow> string list" where
  "docReviewers d docID = map dr_actor
     (sortStable (\<lambda>a b. cmpOr [cmpInt (dr_assigned_at a) (dr_assigned_at b), strCompare (dr_actor a) (dr_actor b)])
       (filter (\<lambda>r. dr_doc r = docID) (doc_reviewers d)))"

definition requestOne :: "int \<Rightarrow> string \<Rightarrow> string \<Rightarrow> string \<Rightarrow> db \<Rightarrow> err + db" where
  "requestOne now entity revision r d =
     andThen (InsertAwaitingApproval now ''doc'' entity revision r None (Some r) None d) (\<lambda>(_, d'). Inr d')"

definition RequestDocApproval :: "int \<Rightarrow> int \<Rightarrow> int \<Rightarrow> db \<Rightarrow> err + db" where
  "RequestDocApproval now docID version d =
     (let reviewers = docReviewers d docID in
      if reviewers = [] then Inl ErrInvalidInput
      else foldE (requestOne now (DocEntityID docID) (intStr version)) reviewers d)"

definition checkDocOwnerOrAdmin :: "db \<Rightarrow> string \<Rightarrow> string \<Rightarrow> err + unit" where
  "checkDocOwnerOrAdmin d owner actorID =
     (if actorID \<noteq> [] \<and> owner = actorID then Inr ()
      else if actorID \<in> set (admins d) then Inr ()
      else Inl ErrForbidden)"

definition addReviewer :: "int \<Rightarrow> int \<Rightarrow> string \<Rightarrow> db \<Rightarrow> db" where
  "addReviewer now docID r d =
     (if \<exists>x\<in>set (doc_reviewers d). dr_doc x = docID \<and> dr_actor x = r then d
      else d\<lparr>doc_reviewers := doc_reviewers d @ [\<lparr>dr_doc = docID, dr_actor = r, dr_assigned_at = now\<rparr>]\<rparr>)"

definition SetDocReviewers :: "int \<Rightarrow> int \<Rightarrow> string \<Rightarrow> string list \<Rightarrow> int \<Rightarrow> db \<Rightarrow> err + db" where
  "SetDocReviewers now docID actorID reviewers eventID d =
     (case docRow d docID of
        None \<Rightarrow> Inl ErrNotFound
      | Some x \<Rightarrow>
          andThen (checkDocOwnerOrAdmin d (case d_owner x of None \<Rightarrow> [] | Some o' \<Rightarrow> o') actorID) (\<lambda>_.
          andThen (foldE (\<lambda>r (_ :: unit). checkActorExists d r) reviewers ()) (\<lambda>_.
          let old = docReviewers d docID;
              d1 = d\<lparr>doc_reviewers := filter (\<lambda>r. dr_doc r \<noteq> docID) (doc_reviewers d)\<rparr>;
              d2 = fold (addReviewer now docID) reviewers d1
          in Inr (logDocChange docID eventID (jfields [(''field'', ''reviewers''),
                    (''old'', joinWith '','' old), (''new'', joinWith '','' reviewers)]) d2))))"

definition DocReviewersAwaiting :: "db \<Rightarrow> int \<Rightarrow> string list" where
  "DocReviewersAwaiting d docID =
     map (the \<circ> ap_required_actor)
       (sortStable (\<lambda>a b. cmpInt (ap_id a) (ap_id b))
         (filter (\<lambda>a. ofEntity ''doc'' (DocEntityID docID) a \<and> openState (ap_state a) \<and>
             ap_required_actor a \<noteq> None) (approvals d)))"

definition openDocApprovals :: "db \<Rightarrow> string \<Rightarrow> string \<Rightarrow> string \<Rightarrow> nat" where
  "openDocApprovals d kind entity revision =
     length (filter (\<lambda>a. ofEntity kind entity a \<and> ap_revision a = revision \<and> openState (ap_state a))
       (approvals d))"

definition OpenApprovalBound :: "db \<Rightarrow> string \<Rightarrow> string \<Rightarrow> string \<Rightarrow> bool" where
  "OpenApprovalBound d kind entity revision \<longleftrightarrow> openDocApprovals d kind entity revision > 0"

definition openApprovalRefusal :: "nat \<Rightarrow> err + unit" where
  "openApprovalRefusal n = (if n = 0 then Inr () else Inl ErrMissingApprovals)"

definition reviewerGateRefusal :: "string list \<Rightarrow> (string \<Rightarrow> string) \<Rightarrow> err + unit" where
  "reviewerGateRefusal reviewers states =
     (let missing = filter (\<lambda>r. states r \<noteq> ''approved'') reviewers
      in if missing = [] then Inr () else Inl ErrMissingApprovals)"

definition checkDocReviewerGate :: "db \<Rightarrow> int \<Rightarrow> int \<Rightarrow> err + unit" where
  "checkDocReviewerGate d docID version =
     (let entity = DocEntityID docID; revision = intStr version; reviewers = docReviewers d docID
      in andThen (if reviewers \<noteq> []
                  then reviewerGateRefusal reviewers
                         (\<lambda>r. case ApprovalByKey d ''doc'' entity revision r of Inr a \<Rightarrow> ap_state a | Inl _ \<Rightarrow> [])
                  else Inr ()) (\<lambda>_.
         openApprovalRefusal (openDocApprovals d ''doc'' entity revision)))"

text \<open>The pre-flight reads all the lanes in one query; a later row of a lane
  overwrites an earlier one in the map.\<close>

definition checkDocReviewerGateCtx :: "db \<Rightarrow> int \<Rightarrow> int \<Rightarrow> err + unit" where
  "checkDocReviewerGateCtx d docID version =
     (let entity = DocEntityID docID; revision = intStr version; reviewers = docReviewers d docID;
          rows = filter (\<lambda>a. ofEntity ''doc'' entity a \<and> ap_revision a = revision \<and> ap_lane a \<in> set reviewers)
                   (approvals d);
          states = fold (\<lambda>a m. m(ap_lane a := ap_state a)) rows (\<lambda>_. [])
      in andThen (if reviewers \<noteq> [] then reviewerGateRefusal reviewers states else Inr ()) (\<lambda>_.
         openApprovalRefusal (openDocApprovals d ''doc'' entity revision)))"


section \<open>Who the author is\<close>

definition prAuthorForEntity :: "db \<Rightarrow> string \<Rightarrow> string" where
  "prAuthorForEntity d entity =
     (case row (\<lambda>p. PREntityID (gp_repo p) (gp_number p) = entity) (pull_requests d) of
        None \<Rightarrow> [] | Some p \<Rightarrow> (case gp_author p of None \<Rightarrow> [] | Some a \<Rightarrow> a))"

definition orEmpty :: "string option \<Rightarrow> string" where
  "orEmpty x = (case x of None \<Rightarrow> [] | Some s \<Rightarrow> s)"

definition docByEntity :: "db \<Rightarrow> string \<Rightarrow> doc option" where
  "docByEntity d entity = row (\<lambda>x. DocEntityID (d_id x) = entity) (docs d)"

definition deliverableRow :: "db \<Rightarrow> string \<Rightarrow> deliverable option" where
  "deliverableRow d i = row (\<lambda>x. dl_id x = i) (deliverables d)"

definition authorActorForEntity :: "db \<Rightarrow> string \<Rightarrow> string \<Rightarrow> string" where
  "authorActorForEntity d kind entity =
     (if kind = ''doc'' then (case docByEntity d entity of None \<Rightarrow> [] | Some x \<Rightarrow> orEmpty (d_created_by x))
      else if kind = ''deliverable''
      then (case deliverableRow d entity of None \<Rightarrow> [] | Some x \<Rightarrow> orEmpty (dl_created_by x))
      else if kind = ''task'' then (case taskRow d entity of None \<Rightarrow> [] | Some t \<Rightarrow> orEmpty (t_created_by t))
      else [])"

definition gitHubLoginForActor :: "db \<Rightarrow> string \<Rightarrow> string" where
  "gitHubLoginForActor d actorID = orEmpty (map_of (github_users d) actorID)"

definition ActorIDForGitHubLogin :: "db \<Rightarrow> string \<Rightarrow> string" where
  "ActorIDForGitHubLogin d login =
     (case row (\<lambda>(_, l). lowerBytes l = lowerBytes login) (github_users d) of
        None \<Rightarrow> [] | Some (i, _) \<Rightarrow> i)"

definition authorAndActorForEntity :: "db \<Rightarrow> string \<Rightarrow> string \<Rightarrow> string \<Rightarrow> string \<times> string" where
  "authorAndActorForEntity d kind entity actorID =
     (if kind = ''pr'' then (prAuthorForEntity d entity, gitHubLoginForActor d actorID)
      else (authorActorForEntity d kind entity, actorID))"

definition isPlanDoc :: "db \<Rightarrow> string \<Rightarrow> string \<Rightarrow> bool" where
  "isPlanDoc d kind entity \<longleftrightarrow>
     kind = ''doc'' \<and> (case docByEntity d entity of None \<Rightarrow> False | Some x \<Rightarrow> d_kind x = ''plan'')"

definition projectForApproval :: "db \<Rightarrow> string \<Rightarrow> string \<Rightarrow> string" where
  "projectForApproval d kind entity =
     (if kind = ''pr'' then
        (case row (\<lambda>p. PREntityID (gp_repo p) (gp_number p) = entity \<and>
                       (case gp_task p of None \<Rightarrow> False | Some t \<Rightarrow> taskRow d t \<noteq> None)) (pull_requests d) of
           None \<Rightarrow> []
         | Some p \<Rightarrow> (case taskRow d (orEmpty (gp_task p)) of None \<Rightarrow> [] | Some t \<Rightarrow> t_project t))
      else if kind = ''doc'' then (case docByEntity d entity of None \<Rightarrow> [] | Some x \<Rightarrow> d_project x)
      else if kind = ''deliverable'' then (case deliverableRow d entity of None \<Rightarrow> [] | Some x \<Rightarrow> dl_project x)
      else if kind = ''task'' then (case taskRow d entity of None \<Rightarrow> [] | Some t \<Rightarrow> t_project t)
      else [])"

section \<open>Flows\<close>

definition SetProjectApprovalFlow :: "string \<Rightarrow> flow_snapshot \<Rightarrow> db \<Rightarrow> err + db" where
  "SetProjectApprovalFlow projectID snap d =
     (if \<exists>p\<in>set (projects d). p_id p = projectID
      then Inr (d\<lparr>projects := updWhere (\<lambda>p. p_id p = projectID)
             (\<lambda>p. p\<lparr>p_approval_flow := Some snap\<rparr>) (projects d)\<rparr>)
      else Inl ErrNotFound)"

definition ProjectApprovalFlow :: "db \<Rightarrow> string \<Rightarrow> err + flow_snapshot option" where
  "ProjectApprovalFlow d projectID =
     (case row (\<lambda>p. p_id p = projectID) (projects d) of
        None \<Rightarrow> Inl ErrNotFound | Some p \<Rightarrow> Inr (p_approval_flow p))"

definition SelfReviewAllowed :: "db \<Rightarrow> string \<Rightarrow> string \<Rightarrow> err + bool" where
  "SelfReviewAllowed d kind entity =
     (let projectID = projectForApproval d kind entity in
      if projectID = [] then Inr False
      else andThen (ProjectApprovalFlow d projectID) (\<lambda>snap.
           Inr (case snap of None \<Rightarrow> False | Some s \<Rightarrow> kind \<in> set (fl_self_review (sn_flow s)))))"

text \<open>The flow's name and rev are columns stamped together with the snapshot.\<close>

definition SelfReviewPolicy :: "db \<Rightarrow> string \<Rightarrow> string \<Rightarrow> err + string \<times> string \<times> bool" where
  "SelfReviewPolicy d kind entity =
     (let projectID = projectForApproval d kind entity in
      if projectID = [] then Inr ([], [], False)
      else case row (\<lambda>p. p_id p = projectID) (projects d) of
        None \<Rightarrow> Inr ([], [], False)
      | Some p \<Rightarrow>
          andThen (SelfReviewAllowed d kind entity) (\<lambda>allowed.
          Inr (case p_approval_flow p of
                 None \<Rightarrow> ([], [], allowed)
               | Some s \<Rightarrow> (fl_name (sn_flow s), fl_rev (sn_flow s), allowed))))"

definition FlowActorID :: string where
  "FlowActorID = ''worklode''"

definition materializeOne ::
  "int \<Rightarrow> flow_snapshot \<Rightarrow> string \<Rightarrow> string \<Rightarrow> approval_requirement \<Rightarrow> nat \<times> db \<Rightarrow> err + nat \<times> db" where
  "materializeOne now snap entityKind entityID r = (\<lambda>(n, d).
     let (role, a) = (case map_of (sn_reviewers snap) (aq_lane r) of
                        Some x \<Rightarrow> if x \<noteq> [] then (None, Some x) else (Some (aq_role r), None)
                      | None \<Rightarrow> (Some (aq_role r), None))
     in andThen (InsertAwaitingApproval now entityKind entityID [] (aq_lane r) role a (Some FlowActorID) d)
          (\<lambda>(ok, d'). Inr (if ok then n + 1 else n, d')))"

definition MaterializeForEntity ::
  "int \<Rightarrow> flow_snapshot \<Rightarrow> string \<Rightarrow> string \<Rightarrow> string \<Rightarrow> db \<Rightarrow> err + nat \<times> db" where
  "MaterializeForEntity now snap entityKind entityID name d =
     foldE (materializeOne now snap entityKind entityID)
       (RequirementsForEntity (sn_flow snap) entityKind name) (0, d)"

definition materializeDeliverable :: "int \<Rightarrow> flow_snapshot \<Rightarrow> deliverable \<Rightarrow> nat \<times> db \<Rightarrow> err + nat \<times> db" where
  "materializeDeliverable now snap x = (\<lambda>(total, d).
     andThen (MaterializeForEntity now snap ''deliverable'' (dl_id x) (dl_name x) d) (\<lambda>(n, d').
     Inr (total + n, d')))"

definition MaterializeForProject :: "int \<Rightarrow> string \<Rightarrow> flow_snapshot \<Rightarrow> db \<Rightarrow> err + nat \<times> db" where
  "MaterializeForProject now projectID snap d =
     foldE (materializeDeliverable now snap)
       (sortStable (\<lambda>a b. strCompare (dl_id a) (dl_id b))
         (filter (\<lambda>x. dl_project x = projectID) (deliverables d))) (0, d)"

section \<open>Deciding\<close>

definition approvedReviewFor :: "db \<Rightarrow> string \<Rightarrow> string \<Rightarrow> approval option" where
  "approvedReviewFor d kind entity =
     firstOf (newestFirst (filter (\<lambda>a. ofEntity kind entity a \<and> ap_review_kind a = ''review'' \<and>
       ap_state a = ''approved'') (approvals d)))"

definition reopenDependentReview :: "int \<Rightarrow> approval \<Rightarrow> db \<Rightarrow> err + db" where
  "reopenDependentReview now impact d =
     (case approvedReviewFor d (ap_kind impact) (ap_entity impact) of
        None \<Rightarrow> Inr d
      | Some a \<Rightarrow>
          andThen (InsertAwaitingApproval now (ap_kind impact) (ap_entity impact) (ap_revision a) []
                     (ap_role a) (ap_required_actor a) None d) (\<lambda>(inserted, d').
          if inserted then Inr d' else Inr (updApproval (ap_id a) reopened d')))"

definition ClearPatchedSections :: "int \<Rightarrow> int \<Rightarrow> db \<Rightarrow> db" where
  "ClearPatchedSections docID version d =
     d\<lparr>doc_sections := updWhere (\<lambda>s. sec_doc s = docID \<and> sec_patched s \<and> sec_last_revised_in s \<le> version)
         (\<lambda>s. s\<lparr>sec_patched := False\<rparr>) (doc_sections d)\<rparr>"

definition clearPatchedOnFullApproval :: "approval \<Rightarrow> string \<Rightarrow> db \<Rightarrow> db" where
  "clearPatchedOnFullApproval a st d =
     (if ap_kind a \<noteq> ''doc'' \<or> st \<noteq> ''approved'' then d
      else case DocIDFromEntityID (ap_entity a) of
        None \<Rightarrow> d
      | Some docID \<Rightarrow>
          (case atoi (ap_revision a) of
             None \<Rightarrow> d
           | Some version \<Rightarrow>
               if \<exists>x\<in>set (approvals d). ofEntity ''doc'' (ap_entity a) x \<and>
                    ap_revision x = ap_revision a \<and> ap_state x \<noteq> ''approved''
               then d
               else ClearPatchedSections docID version d))"

record decide_input =
  in_approval :: int
  in_decision :: string
  in_actor :: string
  in_groups :: "string list"
  in_now :: int

text \<open>Who may decide: the impact question goes to a prior approver, an ordinary
  review to anybody but the author, with the two exceptions; an allowed
  self-decision stamps the row.\<close>

definition decideGuard :: "decide_input \<Rightarrow> approval \<Rightarrow> db \<Rightarrow> err + approval \<times> db" where
  "decideGuard inp a d =
     (if ap_review_kind a = ''impact''
      then (if PriorApprover (ListApprovalsForEntity d (ap_kind a) (ap_entity a)) (in_actor inp)
            then Inr (a, d) else Inl ErrNotPriorApprover)
      else
        let (author, decider) = authorAndActorForEntity d (ap_kind a) (ap_entity a) (in_actor inp);
            selfPlan = (IsSelfApproval author decider \<and> isPlanDoc d (ap_kind a) (ap_entity a))
        in if IsSelfApproval author decider \<and> \<not> selfPlan
           then andThen (SelfReviewAllowed d (ap_kind a) (ap_entity a)) (\<lambda>allowed.
                if \<not> allowed then Inl ErrSelfApproval
                else if in_actor inp \<notin> set (actors d)
                then Inl (DBError ''approvals_exception_authorized_by_fkey'')
                else Inr (a\<lparr>ap_exception := Some (in_actor inp)\<rparr>,
                       updApproval (ap_id a) (\<lambda>x. x\<lparr>ap_exception := Some (in_actor inp)\<rparr>) d))
           else Inr (a, d))"

definition DecideApproval :: "decide_input \<Rightarrow> db \<Rightarrow> err + approval \<times> db" where
  "DecideApproval inp d =
     (case DecisionState (in_decision inp) of
        None \<Rightarrow> Inl ErrInvalidInput
      | Some st \<Rightarrow>
          if in_actor inp = [] then Inl ErrInvalidInput
          else case approvalByID d (in_approval inp) of
            None \<Rightarrow> Inl ErrNotFound
          | Some a0 \<Rightarrow>
              if \<not> openState (ap_state a0) then Inl ErrApprovalResolved
              else if ap_revision a0 = [] then Inl ErrNoRevision
              else if \<not> QualifiedForRole (ap_role a0) (in_groups inp) then Inl ErrNotQualified
              else
                andThen (decideGuard inp a0 d) (\<lambda>(a, d1).
                if in_actor inp \<notin> set (actors d1) then Inl (DBError ''approvals_resolving_actor_fkey'')
                else
                  let d2 = ResolveApproval (ap_id a) st (Some (in_actor inp)) (in_now inp) d1;
                      d3 = clearPatchedOnFullApproval a st d2
                  in andThen (if ap_review_kind a = ''impact'' \<and> ImpactDecisionEffect st = ImpactReopen
                              then reopenDependentReview (in_now inp) a d3 else Inr d3) (\<lambda>d4.
                     Inr (a\<lparr>ap_state := st, ap_resolving := Some (in_actor inp),
                            ap_resolved_at := Some (in_now inp)\<rparr>, d4))))"

section \<open>New revisions and impact\<close>

text \<open>split_part(s, '@', 1) and split_part(s, '@', 2).\<close>

definition splitAt1 :: "string \<Rightarrow> string" where
  "splitAt1 s = takeWhile (\<lambda>c. c \<noteq> CHR ''@'') s"

definition splitAt2 :: "string \<Rightarrow> string" where
  "splitAt2 s = takeWhile (\<lambda>c. c \<noteq> CHR ''@'') (drop 1 (dropWhile (\<lambda>c. c \<noteq> CHR ''@'') s))"

text \<open>DISTINCT ON: the first row of each key in the order of the query.\<close>

fun distinctOn :: "('a \<Rightarrow> 'k) \<Rightarrow> 'k list \<Rightarrow> 'a list \<Rightarrow> 'a list" where
  "distinctOn k seen [] = []"
| "distinctOn k seen (x # xs) =
     (if k x \<in> set seen then distinctOn k seen xs else x # distinctOn k (k x # seen) xs)"

definition DependentsOf :: "db \<Rightarrow> string \<Rightarrow> string \<Rightarrow> (string \<times> string \<times> string) list" where
  "DependentsOf d kind i =
     map (\<lambda>e. (ee_from_kind e, splitAt1 (ee_from e), splitAt2 (ee_from e)))
       (distinctOn (\<lambda>e. (ee_from_kind e, splitAt1 (ee_from e))) []
         (sortStable (\<lambda>a b. cmpOr [strCompare (ee_from_kind a) (ee_from_kind b),
                        strCompare (splitAt1 (ee_from a)) (splitAt1 (ee_from b)),
                        cmpInt (ee_created_at b) (ee_created_at a)])
           (filter (\<lambda>e. ee_to_kind e = kind \<and> splitAt1 (ee_to e) = i \<and> ee_rel e = ''references_revision'')
             (entity_edges d))))"

definition GovernedRefsFor :: "db \<Rightarrow> string \<Rightarrow> string \<Rightarrow> string \<Rightarrow> (string \<times> string \<times> string) list" where
  "GovernedRefsFor d kind i revision =
     map (\<lambda>e. (ee_to_kind e, splitAt1 (ee_to e), splitAt2 (ee_to e)))
       (sortStable (\<lambda>a b. cmpOr [strCompare (ee_to_kind a) (ee_to_kind b), strCompare (ee_to a) (ee_to b)])
         (filter (\<lambda>e. ee_from_kind e = kind \<and> ee_from e = RevisionRef i revision \<and>
             ee_rel e = ''references_revision'') (entity_edges d)))"

definition insertRef ::
  "int \<Rightarrow> string option \<Rightarrow> string \<Rightarrow> string \<Rightarrow> string \<times> string \<times> string \<Rightarrow> db \<Rightarrow> err + db" where
  "insertRef now createdBy fromKind from_ref = (\<lambda>(kind, i, revision) d.
     if \<exists>e\<in>set (entity_edges d). ee_from_kind e = fromKind \<and> ee_from e = from_ref \<and> ee_to_kind e = kind \<and>
          ee_to e = RevisionRef i revision \<and> ee_rel e = ''references_revision''
     then Inr d
     else if fromKind \<notin> set [''project'', ''milestone'', ''doc'', ''deliverable'', ''task'', ''pr''] \<or>
             kind \<notin> set [''deliverable'', ''task'', ''doc'', ''pr'']
     then Inl (DBError ''entity_edges_kind_check'')
     else if \<not> knownActor d createdBy then Inl (DBError ''entity_edges_created_by_fkey'')
     else Inr (d\<lparr>entity_edges := entity_edges d @ [\<lparr>ee_from_kind = fromKind, ee_from = from_ref,
            ee_to_kind = kind, ee_to = RevisionRef i revision, ee_rel = ''references_revision'',
            ee_created_at = now, ee_created_by = createdBy\<rparr>]\<rparr>))"

definition InsertGovernedRefs ::
  "int \<Rightarrow> string option \<Rightarrow> string \<Rightarrow> string \<Rightarrow> string \<Rightarrow> (string \<times> string \<times> string) list \<Rightarrow> db \<Rightarrow> err + db" where
  "InsertGovernedRefs now createdBy fromKind fromID fromRevision refs =
     foldE (insertRef now createdBy fromKind (RevisionRef fromID fromRevision)) refs"

definition impactOne ::
  "int \<Rightarrow> string \<Rightarrow> string \<Rightarrow> string \<times> string \<times> string \<Rightarrow> nat \<times> db \<Rightarrow> err + nat \<times> db" where
  "impactOne now entityID newRevision = (\<lambda>(kind, i, _) (opened, d).
     case approvedReviewFor d kind i of
       None \<Rightarrow> Inr (opened, d)
     | Some a \<Rightarrow>
         if \<exists>x\<in>set (approvals d). ofEntity kind i x \<and> ap_review_kind x = ''impact'' \<and> openState (ap_state x)
         then Inr (opened, d)
         else andThen (insertApproval (awaitingRow now kind i
                  (ImpactRevision (ap_revision a) entityID newRevision) [] (ap_role a) None None ''impact'') d)
                (\<lambda>(inserted, d'). Inr (if inserted then opened + 1 else opened, d')))"

definition impactFanOut :: "int \<Rightarrow> string \<Rightarrow> string \<Rightarrow> string \<Rightarrow> db \<Rightarrow> err + nat \<times> db" where
  "impactFanOut now entityKind entityID newRevision d =
     foldE (impactOne now entityID newRevision) (DependentsOf d entityKind entityID) (0, d)"

definition designated :: "string \<Rightarrow> string \<Rightarrow> approval \<Rightarrow> bool" where
  "designated kind entity a \<longleftrightarrow> ofEntity kind entity a \<and> ap_lane a = [] \<and> ap_review_kind a = ''review''"

definition DesignateRevision ::
  "int \<Rightarrow> string \<Rightarrow> string \<Rightarrow> string \<Rightarrow> db \<Rightarrow> err + (revision_outcome \<times> nat) \<times> db" where
  "DesignateRevision now kind entity newRevision d =
     (let scope = filter (designated kind entity) (approvals d);
          open_row = firstOf (newestFirst (filter (\<lambda>a. openState (ap_state a)) scope));
          decided = filter (\<lambda>a. ap_state a = ''approved'' \<or> ap_state a = ''rejected'') scope;
          boundAlready = (\<exists>a\<in>set scope. ap_revision a = newRevision);
          res = OnNewRevision open_row (decided \<noteq> []) boundAlready
      in case res of
           RevisionNoop \<Rightarrow> Inr ((res, 0), d)
         | RevisionRebind \<Rightarrow>
             (case open_row of
                None \<Rightarrow> Inl (DBError ''no rows'')
              | Some a \<Rightarrow>
                  andThen (impactFanOut now kind entity newRevision
                            (updApproval (ap_id a) (\<lambda>x. x\<lparr>ap_revision := newRevision\<rparr>) d)) (\<lambda>(n, d').
                  Inr ((res, n), d')))
         | RevisionCandidate \<Rightarrow>
             (case firstOf (newestFirst decided) of
                None \<Rightarrow> Inl (DBError ''no rows'')
              | Some a \<Rightarrow>
                  andThen (InsertAwaitingApproval now kind entity newRevision [] (ap_role a)
                             (ap_required_actor a) None d) (\<lambda>(_, d1).
                  andThen (impactFanOut now kind entity newRevision d1) (\<lambda>(n, d').
                  Inr ((res, n), d')))))"

definition SetImpactNote :: "int \<Rightarrow> string \<Rightarrow> db \<Rightarrow> err + db" where
  "SetImpactNote i note d =
     (if trimSpace note = [] then Inl ErrInvalidInput
      else case approvalByID d i of
        None \<Rightarrow> Inl ErrNotFound
      | Some a \<Rightarrow>
          if ap_review_kind a \<noteq> ''impact'' then Inl ErrInvalidInput
          else if \<not> openState (ap_state a) then Inl ErrApprovalResolved
          else Inr (updApproval i (\<lambda>a. a\<lparr>ap_note := Some note\<rparr>) d))"

end
