(* ===== verification/ApprovalSpec.thy ===== *)
theory ApprovalSpec
  imports Approvals Samples
begin

text \<open>
  What approvals promise: the table stays keyed and in its vocabulary, a
  decision is only recorded when the rules allow it, the two forms of the
  acceptance gate agree, a new revision never touches a decided row, and the
  flow picked for a project is the most specific match. Three theorems record
  where the code and its comments part.
\<close>

section \<open>The table\<close>

definition rowFine :: "approval \<Rightarrow> bool" where
  "rowFine a \<longleftrightarrow>
     ap_state a \<in> {''awaiting'', ''approved'', ''rejected'', ''changes_requested''} \<and>
     ap_review_kind a \<in> {''review'', ''impact''} \<and> (ap_review_kind a = ''impact'' \<longrightarrow> ap_lane a = []) \<and>
     (ap_state a = ''awaiting'' \<longleftrightarrow> ap_resolved_at a = None) \<and>
     (ap_state a = ''awaiting'' \<longrightarrow> ap_resolving a = None)"

definition apOk :: "db \<Rightarrow> bool" where
  "apOk d \<longleftrightarrow> distinct (map ap_id (approvals d)) \<and> distinct (map approvalKey (approvals d)) \<and>
     (\<forall>a\<in>set (approvals d). ap_id a < next_approval_id d \<and> rowFine a)"

lemma apOkI:
  assumes "approvals d = A" "next_approval_id d = n" "distinct (map ap_id A)" "distinct (map approvalKey A)"
    "\<And>a. a \<in> set A \<Longrightarrow> ap_id a < n \<and> rowFine a"
  shows "apOk d"
  unfolding apOk_def assms(1,2) using assms(3-5) by blast

lemma apOk_cong: "approvals d' = approvals d \<Longrightarrow> next_approval_id d' = next_approval_id d \<Longrightarrow> apOk d' = apOk d"
  by (simp add: apOk_def)

lemma rowFine_id: "rowFine (a\<lparr>ap_id := i\<rparr>) = rowFine a"
  by (simp add: rowFine_def)

lemma apOk_insert:
  assumes "apOk d" "insertApproval a d = Inr (b, d')" "rowFine a"
  shows "apOk d'"
proof (cases "approvalKey a \<in> approvalKey ` set (approvals d)")
  case True
  then have d': "d' = d\<lparr>next_approval_id := next_approval_id d + 1\<rparr>"
    using assms(2) by (simp add: insertApproval_def Let_def)
  show ?thesis
    by (rule apOkI[of _ "approvals d" "next_approval_id d + 1"])
      (use assms(1) d' in \<open>auto simp: apOk_def\<close>)
next
  case False
  let ?a = "a\<lparr>ap_id := next_approval_id d\<rparr>"
  have d': "d' = d\<lparr>next_approval_id := next_approval_id d + 1, approvals := approvals d @ [?a]\<rparr>"
    using assms(2) False by (auto simp: insertApproval_def Let_def split: if_splits)
  have key: "approvalKey ?a = approvalKey a" by (simp add: approvalKey_def)
  have fine: "rowFine ?a" using assms(3) by (simp only: rowFine_id)
  show ?thesis
  proof (rule apOkI[of _ "approvals d @ [?a]" "next_approval_id d + 1"])
    show "approvals d' = approvals d @ [?a]" "next_approval_id d' = next_approval_id d + 1"
      by (simp_all add: d')
    show "distinct (map ap_id (approvals d @ [?a]))"
      using assms(1) by (auto simp: apOk_def)
    show "distinct (map approvalKey (approvals d @ [?a]))"
      using assms(1) False key by (auto simp: apOk_def)
    fix x assume "x \<in> set (approvals d @ [?a])"
    then consider "x \<in> set (approvals d)" | "x = ?a" by auto
    then show "ap_id x < next_approval_id d + 1 \<and> rowFine x"
    proof cases
      case 1
      then show ?thesis using assms(1) by (fastforce simp: apOk_def)
    next
      case 2
      then show ?thesis using fine by simp
    qed
  qed
qed

lemma rowFine_awaiting:
  "rk \<in> {''review'', ''impact''} \<Longrightarrow> (rk = ''impact'' \<longrightarrow> lane = []) \<Longrightarrow>
     rowFine (awaitingRow now kind entity revn lane role a by_actor rk)"
  by (auto simp: rowFine_def awaitingRow_def)

lemma apOk_InsertAwaiting:
  "apOk d \<Longrightarrow> InsertAwaitingApproval now kind entity revn lane role a c d = Inr (b, d') \<Longrightarrow> apOk d'"
  unfolding InsertAwaitingApproval_def by (rule apOk_insert, assumption+, rule rowFine_awaiting) simp_all

text \<open>An update that leaves ids and keys alone.\<close>

lemma apOk_update:
  assumes "apOk d" "\<And>r. ap_id (f r) = ap_id r" "\<And>r. approvalKey (f r) = approvalKey r"
    "\<And>r. p r \<Longrightarrow> rowFine r \<Longrightarrow> rowFine (f r)"
  shows "apOk (d\<lparr>approvals := updWhere p f (approvals d)\<rparr>)"
proof (rule apOkI)
  show "distinct (map ap_id (updWhere p f (approvals d)))"
    "distinct (map approvalKey (updWhere p f (approvals d)))"
    using assms(1-3) by (simp_all add: map_updWhere_same apOk_def)
  fix x assume "x \<in> set (updWhere p f (approvals d))"
  then obtain r where "r \<in> set (approvals d)" "x = (if p r then f r else r)" by (auto simp: in_set_updWhere)
  then show "ap_id x < next_approval_id d \<and> rowFine x"
    using assms(1,2,4) by (cases "p r") (simp_all add: apOk_def)
qed simp_all

lemma approvalKey_upd [simp]:
  "approvalKey (a\<lparr>ap_state := s\<rparr>) = approvalKey a" "approvalKey (a\<lparr>ap_resolving := x\<rparr>) = approvalKey a"
  "approvalKey (a\<lparr>ap_resolved_at := t\<rparr>) = approvalKey a" "approvalKey (a\<lparr>ap_exception := x\<rparr>) = approvalKey a"
  "approvalKey (a\<lparr>ap_note := x\<rparr>) = approvalKey a" "approvalKey (a\<lparr>ap_required_actor := x\<rparr>) = approvalKey a"
  by (simp_all add: approvalKey_def)

lemma rowFine_reopened: "rowFine a \<Longrightarrow> rowFine (reopened a)"
  by (simp add: rowFine_def reopened_def)

lemma reopened_same: "ap_id (reopened a) = ap_id a" "approvalKey (reopened a) = approvalKey a"
  by (simp_all add: reopened_def)

lemma apOk_reopen: "apOk d \<Longrightarrow> apOk (ReopenApproval i d)" "apOk d \<Longrightarrow> apOk (updApproval i reopened d)"
  unfolding ReopenApproval_def updApproval_def
  by (rule apOk_update; simp add: reopened_same rowFine_reopened)+

lemma apOk_Resolve:
  "apOk d \<Longrightarrow> st \<in> {''approved'', ''rejected'', ''changes_requested''} \<Longrightarrow> apOk (ResolveApproval i st a now d)"
  unfolding ResolveApproval_def updApproval_def by (rule apOk_update) (auto simp: rowFine_def)

lemma apOk_SetRequiredActor: "apOk d \<Longrightarrow> SetRequiredActor i a d = Inr d' \<Longrightarrow> apOk d'"
  unfolding SetRequiredActor_def by (auto split: if_splits intro!: apOk_update simp: rowFine_def)

lemma apOk_SetImpactNote: "apOk d \<Longrightarrow> SetImpactNote i note d = Inr d' \<Longrightarrow> apOk d'"
  unfolding SetImpactNote_def updApproval_def
  by (auto split: if_splits option.splits intro!: apOk_update simp: rowFine_def)

lemma apOk_RequestDocApproval: "apOk d \<Longrightarrow> RequestDocApproval now i v d = Inr d' \<Longrightarrow> apOk d'"
  unfolding RequestDocApproval_def Let_def
  by (auto split: if_splits simp: requestOne_def andThen_Inr_iff
      elim!: foldE_invariant[where P = apOk, rotated 2] intro: apOk_InsertAwaiting)


lemma apOk_DecisionState: "DecisionState dec = Some st \<Longrightarrow> st \<in> {''approved'', ''rejected'', ''changes_requested''}"
  by (auto simp: DecisionState_def split: if_splits)

lemma rowFine_exception: "rowFine (a\<lparr>ap_exception := x\<rparr>) = rowFine a"
  by (simp add: rowFine_def)

lemma decideGuard_keeps:
  assumes "decideGuard inp a d = Inr (a', d')" "apOk d"
  shows "apOk d' \<and> ap_id a' = ap_id a \<and> ap_review_kind a' = ap_review_kind a \<and> ap_kind a' = ap_kind a \<and>
     ap_entity a' = ap_entity a \<and> ap_revision a' = ap_revision a \<and> actors d' = actors d \<and>
     (a' = a \<and> d' = d \<or> a' = a\<lparr>ap_exception := Some (in_actor inp)\<rparr> \<and>
        d' = updApproval (ap_id a) (\<lambda>x. x\<lparr>ap_exception := Some (in_actor inp)\<rparr>) d)"
proof -
  have "apOk (updApproval (ap_id a) (\<lambda>x. x\<lparr>ap_exception := Some (in_actor inp)\<rparr>) d)"
    unfolding updApproval_def by (rule apOk_update[OF assms(2)]) (simp_all add: rowFine_exception)
  moreover have "a' = a \<and> d' = d \<or> a' = a\<lparr>ap_exception := Some (in_actor inp)\<rparr> \<and>
        d' = updApproval (ap_id a) (\<lambda>x. x\<lparr>ap_exception := Some (in_actor inp)\<rparr>) d"
    using assms(1) unfolding decideGuard_def Let_def
    by (auto simp: andThen_Inr_iff split: if_splits prod.splits)
  ultimately show ?thesis using assms(2) by (auto simp: updApproval_def)
qed

text \<open>The steps of a decision that is recorded.\<close>

lemma DecideApproval_InrE:
  assumes "DecideApproval inp d = Inr (r, d')"
  obtains st a a1 d1 where "DecisionState (in_decision inp) = Some st" "in_actor inp \<noteq> []"
    "approvalByID d (in_approval inp) = Some a" "openState (ap_state a)" "ap_revision a \<noteq> []"
    "QualifiedForRole (ap_role a) (in_groups inp)" "decideGuard inp a d = Inr (a1, d1)"
    "in_actor inp \<in> set (actors d1)"
    "let d3 = clearPatchedOnFullApproval a1 st (ResolveApproval (ap_id a1) st (Some (in_actor inp)) (in_now inp) d1)
     in (if ap_review_kind a1 = ''impact'' \<and> ImpactDecisionEffect st = ImpactReopen
         then reopenDependentReview (in_now inp) a1 d3 else Inr d3) = Inr d'"
    "r = a1\<lparr>ap_state := st, ap_resolving := Some (in_actor inp), ap_resolved_at := Some (in_now inp)\<rparr>"
proof -
  obtain st where st: "DecisionState (in_decision inp) = Some st"
    using assms unfolding DecideApproval_def by (cases "DecisionState (in_decision inp)") simp_all
  have n: "in_actor inp \<noteq> []" using assms unfolding DecideApproval_def st by (simp split: if_splits)
  obtain a where a: "approvalByID d (in_approval inp) = Some a"
    using assms n unfolding DecideApproval_def st by (cases "approvalByID d (in_approval inp)") simp_all
  note r0 = assms[unfolded DecideApproval_def st option.case if_not_P[OF n] a]
  have g: "openState (ap_state a)" "ap_revision a \<noteq> []" "QualifiedForRole (ap_role a) (in_groups inp)"
    using r0 by (simp_all split: if_splits)
  obtain a1 d1 where dg: "decideGuard inp a d = Inr (a1, d1)"
    and r1: "(if in_actor inp \<notin> set (actors d1) then Inl (DBError ''approvals_resolving_actor_fkey'')
                else
                  let d2 = ResolveApproval (ap_id a1) st (Some (in_actor inp)) (in_now inp) d1;
                      d3 = clearPatchedOnFullApproval a1 st d2
                  in andThen (if ap_review_kind a1 = ''impact'' \<and> ImpactDecisionEffect st = ImpactReopen
                              then reopenDependentReview (in_now inp) a1 d3 else Inr d3) (\<lambda>d4.
                     Inr (a1\<lparr>ap_state := st, ap_resolving := Some (in_actor inp),
                            ap_resolved_at := Some (in_now inp)\<rparr>, d4))) = Inr (r, d')"
    using r0 g by (auto simp: andThen_Inr_iff split: if_splits)
  have act: "in_actor inp \<in> set (actors d1)" using r1 by (auto split: if_splits)
  show ?thesis
    by (rule that[OF st n a g dg act]) (use r1 act in \<open>auto simp: Let_def andThen_Inr_iff\<close>)
qed

lemma clearPatched_frame:
  "approvals (clearPatchedOnFullApproval a st d) = approvals d"
  "next_approval_id (clearPatchedOnFullApproval a st d) = next_approval_id d"
  by (simp_all add: clearPatchedOnFullApproval_def ClearPatchedSections_def split: option.split)

lemma apOk_DecideApproval:
  assumes "apOk d" "DecideApproval inp d = Inr (r, d')"
  shows "apOk d'"
  using assms(2)
proof (rule DecideApproval_InrE)
  fix st a a1 d1
  assume st: "DecisionState (in_decision inp) = Some st" and g: "decideGuard inp a d = Inr (a1, d1)"
    and l: "let d3 = clearPatchedOnFullApproval a1 st (ResolveApproval (ap_id a1) st (Some (in_actor inp)) (in_now inp) d1)
     in (if ap_review_kind a1 = ''impact'' \<and> ImpactDecisionEffect st = ImpactReopen
         then reopenDependentReview (in_now inp) a1 d3 else Inr d3) = Inr d'"
  let ?d3 = "clearPatchedOnFullApproval a1 st (ResolveApproval (ap_id a1) st (Some (in_actor inp)) (in_now inp) d1)"
  have "apOk (ResolveApproval (ap_id a1) st (Some (in_actor inp)) (in_now inp) d1)"
    using apOk_Resolve decideGuard_keeps[OF g assms(1)] apOk_DecisionState[OF st] by blast
  then have ok: "apOk ?d3" using apOk_cong[OF clearPatched_frame] by blast
  show "apOk d'"
  proof (cases "ap_review_kind a1 = ''impact'' \<and> ImpactDecisionEffect st = ImpactReopen")
    case True
    then have "reopenDependentReview (in_now inp) a1 ?d3 = Inr d'" using l unfolding Let_def by simp
    then show ?thesis
      using ok unfolding reopenDependentReview_def
      by (auto simp: andThen_Inr_iff split: option.splits if_splits
          intro: apOk_InsertAwaiting apOk_reopen(2)[OF apOk_InsertAwaiting])
  next
    case False
    then have "d' = ?d3" using l unfolding Let_def by auto
    then show ?thesis using ok by simp
  qed
qed


lemma firstOf_newest: "firstOf (newestFirst xs) = Some a \<Longrightarrow> a \<in> set xs"
  by (auto simp: firstOf_def newestFirst_def split: list.splits dest: arg_cong[of _ _ set])

lemma apOk_rebind:
  assumes "apOk d" "a \<in> set (approvals d)" "designated kind entity a"
    and "\<not> (\<exists>x\<in>set (approvals d). designated kind entity x \<and> ap_revision x = new)"
  shows "apOk (updApproval (ap_id a) (\<lambda>x. x\<lparr>ap_revision := new\<rparr>) d)"
proof -
  let ?g = "\<lambda>x. if ap_id x = ap_id a then x\<lparr>ap_revision := new\<rparr> else x"
  have ok: "distinct (map ap_id (approvals d))" "distinct (map approvalKey (approvals d))"
    using assms(1) by (simp_all add: apOk_def)
  have uniq: "x = a" if "x \<in> set (approvals d)" "ap_id x = ap_id a" for x
    using ok(1) that assms(2) by (auto simp: distinct_map inj_on_def)
  have free: "approvalKey (a\<lparr>ap_revision := new\<rparr>) \<noteq> approvalKey x" if "x \<in> set (approvals d)" for x
    using assms(3,4) that by (auto simp: approvalKey_def designated_def ofEntity_def)
  have inj: "inj_on (approvalKey \<circ> ?g) (set (approvals d))"
  proof (rule inj_onI)
    fix x y assume x: "x \<in> set (approvals d)" and y: "y \<in> set (approvals d)"
      and e: "(approvalKey \<circ> ?g) x = (approvalKey \<circ> ?g) y"
    show "x = y"
    proof (cases "ap_id x = ap_id a"; cases "ap_id y = ap_id a")
      assume "ap_id x = ap_id a" "ap_id y = ap_id a"
      then show ?thesis using uniq x y by blast
    next
      assume "ap_id x = ap_id a" "ap_id y \<noteq> ap_id a"
      then show ?thesis using e free[OF y] uniq[OF x] by simp
    next
      assume "ap_id x \<noteq> ap_id a" "ap_id y = ap_id a"
      then show ?thesis using e free[OF x] uniq[OF y] by simp
    next
      assume "ap_id x \<noteq> ap_id a" "ap_id y \<noteq> ap_id a"
      then have "approvalKey x = approvalKey y" using e by simp
      then show ?thesis using ok(2) x y by (auto simp: distinct_map inj_on_def)
    qed
  qed
  have upd: "updWhere (\<lambda>x. ap_id x = ap_id a) (\<lambda>x. x\<lparr>ap_revision := new\<rparr>) (approvals d) = map ?g (approvals d)"
    by (simp add: updWhere_def)
  show ?thesis unfolding updApproval_def upd
  proof (rule apOkI)
    have "map ap_id (map ?g (approvals d)) = map ap_id (approvals d)" by simp
    then show "distinct (map ap_id (map ?g (approvals d)))" using ok(1) by (simp only:)
    show "distinct (map approvalKey (map ?g (approvals d)))"
      using ok(2) inj unfolding map_map distinct_map by blast
    fix x assume "x \<in> set (map ?g (approvals d))"
    then obtain r where r: "r \<in> set (approvals d)" "x = ?g r" by auto
    have "rowFine (r\<lparr>ap_revision := new\<rparr>) = rowFine r" by (simp add: rowFine_def)
    then show "ap_id x < next_approval_id d \<and> rowFine x" using assms(1) r by (fastforce simp: apOk_def)
  qed simp_all
qed

text \<open>What designating a revision keeps: the table's shape, and every row but
  an open one bound to the entity.\<close>

definition keepsDecided :: "db \<Rightarrow> db \<Rightarrow> bool" where
  "keepsDecided d0 d \<longleftrightarrow> apOk d \<and>
     (\<forall>a\<in>set (approvals d0). \<not> openState (ap_state a) \<longrightarrow> a \<in> set (approvals d))"

lemma insertApproval_keeps:
  assumes "keepsDecided d0 d" "insertApproval a d = Inr (b, d')" "rowFine a"
  shows "keepsDecided d0 d'"
proof -
  have "apOk d'" using assms(1) apOk_insert[OF _ assms(2,3)] by (simp add: keepsDecided_def)
  moreover have "set (approvals d) \<subseteq> set (approvals d')"
    using assms(2) by (auto simp: insertApproval_def Let_def split: if_splits)
  ultimately show ?thesis using assms(1) unfolding keepsDecided_def by blast
qed

lemma impactOne_keeps:
  assumes "keepsDecided d0 d" "impactOne now e r dep (n, d) = Inr (m, d')"
  shows "keepsDecided d0 d'"
proof -
  obtain kind i x where dep: "dep = (kind, i, x)" by (cases dep)
  have fine: "rowFine (awaitingRow now kind i rv [] role None None ''impact'')" for rv role
    by (rule rowFine_awaiting) simp_all
  show ?thesis
    using assms insertApproval_keeps[OF assms(1) _ fine]
    by (auto simp: impactOne_def dep andThen_Inr_iff split: option.splits if_splits)
qed

lemma impactFanOut_keeps:
  assumes "keepsDecided d0 d" "impactFanOut now k e r d = Inr (n, d')"
  shows "keepsDecided d0 d'"
proof -
  have "keepsDecided d0 (snd (n, d'))"
    by (rule foldE_invariant[OF _ _ assms(2)[unfolded impactFanOut_def], where P = "\<lambda>s. keepsDecided d0 (snd s)"])
      (use assms(1) impactOne_keeps in force)+
  then show ?thesis by simp
qed

lemma DesignateRevision_keeps:
  assumes "apOk d" "DesignateRevision now kind entity new d = Inr (out, d')"
  shows "keepsDecided d d'"
proof -
  let ?scope = "filter (designated kind entity) (approvals d)"
  let ?open = "firstOf (newestFirst (filter (\<lambda>a. openState (ap_state a)) ?scope))"
  let ?dec = "filter (\<lambda>a. ap_state a = ''approved'' \<or> ap_state a = ''rejected'') ?scope"
  let ?bound = "\<exists>a\<in>set ?scope. ap_revision a = new"
  have k: "keepsDecided d d" using assms(1) by (simp add: keepsDecided_def)
  note r = assms(2)[unfolded DesignateRevision_def Let_def]
  show ?thesis
  proof (cases "OnNewRevision ?open (?dec \<noteq> []) ?bound")
    case RevisionNoop
    then show ?thesis using r k by auto
  next
    case RevisionRebind
    then obtain a where a: "?open = Some a" and nb: "\<not> ?bound"
      by (auto simp: OnNewRevision_def split: if_splits)
    have mem: "a \<in> set (approvals d)" "designated kind entity a" "openState (ap_state a)"
      using firstOf_newest[OF a] by auto
    let ?u = "updApproval (ap_id a) (\<lambda>x. x\<lparr>ap_revision := new\<rparr>) d"
    have "apOk ?u" by (rule apOk_rebind[OF assms(1) mem(1,2)]) (use nb in auto)
    moreover have "x \<in> set (approvals ?u)" if "x \<in> set (approvals d)" "\<not> openState (ap_state x)" for x
    proof -
      have "ap_id x \<noteq> ap_id a"
        using that mem assms(1) by (auto simp: apOk_def distinct_map inj_on_def)
      then show ?thesis using that(1) by (auto simp: updApproval_def in_set_updWhere)
    qed
    ultimately have "keepsDecided d ?u" by (simp add: keepsDecided_def)
    moreover obtain n where "impactFanOut now kind entity new ?u = Inr (n, d')"
      using r unfolding RevisionRebind revision_outcome.case unfolding a option.case
      by (auto simp: andThen_Inr_iff)
    ultimately show ?thesis by (rule impactFanOut_keeps)
  next
    case RevisionCandidate
    then obtain a :: approval and b d1 n where "InsertAwaitingApproval now kind entity new [] (ap_role a)
                             (ap_required_actor a) None d = Inr (b, d1)"
      "impactFanOut now kind entity new d1 = Inr (n, d')"
      using r by (auto simp: andThen_Inr_iff split: option.splits)
    moreover have "rowFine (awaitingRow now kind entity new [] (ap_role a) (ap_required_actor a) None ''review'')"
      by (rule rowFine_awaiting) simp_all
    ultimately show ?thesis
      using insertApproval_keeps[OF k] impactFanOut_keeps unfolding InsertAwaitingApproval_def by blast
  qed
qed

lemma apOk_DesignateRevision: "apOk d \<Longrightarrow> DesignateRevision now kind entity new d = Inr (out, d') \<Longrightarrow> apOk d'"
  using DesignateRevision_keeps unfolding keepsDecided_def by blast

lemma apOk_MaterializeForEntity:
  assumes "apOk d" "MaterializeForEntity now snap kind i name d = Inr (n, d')"
  shows "apOk d'"
proof -
  have "apOk (snd (n, d'))"
    by (rule foldE_invariant[OF _ _ assms(2)[unfolded MaterializeForEntity_def], where P = "\<lambda>s. apOk (snd s)"])
      (use assms(1) in \<open>auto simp: materializeOne_def andThen_Inr_iff Let_def apOk_InsertAwaiting
          split: prod.splits option.splits if_splits\<close>)
  then show ?thesis by simp
qed

lemma apOk_MaterializeForProject:
  assumes "apOk d" "MaterializeForProject now p snap d = Inr (n, d')"
  shows "apOk d'"
proof -
  have "apOk (snd (n, d'))"
    by (rule foldE_invariant[OF _ _ assms(2)[unfolded MaterializeForProject_def], where P = "\<lambda>s. apOk (snd s)"])
      (use assms(1) in \<open>auto simp: materializeDeliverable_def andThen_Inr_iff apOk_MaterializeForEntity\<close>)
  then show ?thesis by simp
qed


lemma apOk_SetDocReviewers:
  assumes "apOk d" "SetDocReviewers now i actor rs ev d = Inr d'"
  shows "apOk d'"
proof -
  have "approvals (fold (addReviewer now i) rs e) = approvals e \<and>
      next_approval_id (fold (addReviewer now i) rs e) = next_approval_id e" for e
    by (induction rs arbitrary: e) (simp_all add: addReviewer_def)
  then have "approvals d' = approvals d" "next_approval_id d' = next_approval_id d"
    using assms(2) by (auto simp: SetDocReviewers_def andThen_Inr_iff Let_def logDocChange_def LogChange_def
        split: option.splits)
  then show ?thesis using assms(1) by (simp add: apOk_def)
qed

text \<open>C22: every operation on the table that succeeds keeps it keyed and in its
  vocabulary: unique ids, one row per entity, revision, lane and review kind,
  the four states and two kinds, impact rows without a lane, and a resolution
  time exactly on the rows that are not awaiting. ResolveApproval is asked for one
  of the three decided states, as both its callers do.\<close>

theorem approvals_stay_keyed:
  assumes "apOk d"
  shows "(InsertAwaitingApproval now kind entity revn lane role ra cb d = Inr (b, d1) \<longrightarrow> apOk d1) \<and>
     (RequestDocApproval now i v d = Inr d2 \<longrightarrow> apOk d2) \<and>
     (SetDocReviewers now i actor rs ev d = Inr d3 \<longrightarrow> apOk d3) \<and>
     (MaterializeForEntity now snap kind e name d = Inr (m, d4) \<longrightarrow> apOk d4) \<and>
     (MaterializeForProject now p snap d = Inr (n, d5) \<longrightarrow> apOk d5) \<and>
     (st \<in> {''approved'', ''rejected'', ''changes_requested''} \<longrightarrow> apOk (ResolveApproval j st rv now d)) \<and>
     (DecideApproval inp d = Inr (r, d6) \<longrightarrow> apOk d6) \<and>
     (DesignateRevision now kind entity revn d = Inr (out, d7) \<longrightarrow> apOk d7) \<and>
     (SetRequiredActor j a d = Inr d8 \<longrightarrow> apOk d8) \<and> (SetImpactNote j note d = Inr d9 \<longrightarrow> apOk d9) \<and>
     apOk (ReopenApproval j d)"
  by (intro conjI impI apOk_reopen(1)[OF assms] apOk_Resolve[OF assms])
    (erule apOk_InsertAwaiting[OF assms] apOk_RequestDocApproval[OF assms] apOk_SetDocReviewers[OF assms]
      apOk_MaterializeForEntity[OF assms] apOk_MaterializeForProject[OF assms]
      apOk_DecideApproval[OF assms] apOk_DesignateRevision[OF assms] apOk_SetRequiredActor[OF assms]
      apOk_SetImpactNote[OF assms] | assumption)+

section \<open>Deciding\<close>

lemma approvalByID_SomeD:
  "approvalByID d i = Some a \<Longrightarrow> a \<in> set (approvals d) \<and> ap_id a = i"
  by (auto simp: approvalByID_def dest: row_SomeD)

lemma apOk_unique: "apOk d \<Longrightarrow> x \<in> set (approvals d) \<Longrightarrow> y \<in> set (approvals d) \<Longrightarrow> ap_id x = ap_id y \<Longrightarrow> x = y"
  by (auto simp: apOk_def distinct_map inj_on_def)

lemma updWhere_one:
  assumes "apOk d" "a \<in> set (approvals d)"
  shows "updWhere (\<lambda>x. ap_id x = ap_id a) f (approvals d) = map (\<lambda>x. if ap_id x = ap_id a then f a else x) (approvals d)"
  unfolding updWhere_def by (rule map_cong[OF refl]) (use apOk_unique[OF assms(1) _ assms(2)] in auto)

text \<open>The row a decision writes, and the table right after it.\<close>

lemma decided_row:
  assumes "apOk d" "approvalByID d i = Some a" "decideGuard inp a d = Inr (a1, d1)"
    and "r = a1\<lparr>ap_state := st, ap_resolving := Some w, ap_resolved_at := Some now\<rparr>"
  shows "approvals (ResolveApproval (ap_id a1) st (Some w) now d1)
     = map (\<lambda>x. if ap_id x = ap_id a then r else x) (approvals d)"
proof -
  have a: "a \<in> set (approvals d)" using approvalByID_SomeD[OF assms(2)] by blast
  let ?f = "\<lambda>x. x\<lparr>ap_state := st, ap_resolving := Some w, ap_resolved_at := Some now\<rparr>"
  from decideGuard_keeps[OF assms(3,1)]
  consider "a1 = a" "d1 = d" | "a1 = a\<lparr>ap_exception := Some (in_actor inp)\<rparr>"
      "d1 = updApproval (ap_id a) (\<lambda>x. x\<lparr>ap_exception := Some (in_actor inp)\<rparr>) d" by blast
  then show ?thesis
  proof cases
    case 1
    then show ?thesis
      unfolding ResolveApproval_def updApproval_def by (simp add: updWhere_one[OF assms(1) a] assms(4))
  next
    case 2
    have "updWhere (\<lambda>x. ap_id x = ap_id a) ?f
        (map (\<lambda>x. if ap_id x = ap_id a then a\<lparr>ap_exception := Some (in_actor inp)\<rparr> else x) (approvals d))
      = map (\<lambda>x. if ap_id x = ap_id a then r else x) (approvals d)"
      unfolding updWhere_def map_map by (rule map_cong) (simp_all add: assms(4) 2(1))
    then show ?thesis
      unfolding ResolveApproval_def updApproval_def by (simp add: 2 updApproval_def updWhere_one[OF assms(1) a])
  qed
qed

lemma reopenDependent_keeps_row:
  assumes "apOk d" "reopenDependentReview now a d = Inr d'" "x \<in> set (approvals d)"
    "ap_review_kind x = ''impact''"
  shows "x \<in> set (approvals d')"
proof -
  have ins: "x \<in> set (approvals e)" if "InsertAwaitingApproval now k en rv [] ro ra None d = Inr (b, e)" for k en rv ro ra b e
    using that assms(3) unfolding InsertAwaitingApproval_def
    by (auto simp: insertApproval_def Let_def split: if_splits)
  have upd: "x \<in> set (approvals (updApproval (ap_id c) reopened e))"
    if c: "approvedReviewFor d k en = Some c" and x: "x \<in> set (approvals e)" for c k en e
  proof -
    have "c \<in> set (approvals d)" "ap_review_kind c = ''review''"
      using firstOf_newest c unfolding approvedReviewFor_def by fastforce+
    then have "ap_id c \<noteq> ap_id x" using apOk_unique[OF assms(1) _ assms(3)] assms(4) by force
    then show ?thesis using x by (auto simp: updApproval_def in_set_updWhere intro!: bexI[of _ x])
  qed
  show ?thesis
    using assms(2,3) ins upd unfolding reopenDependentReview_def
    by (auto simp: andThen_Inr_iff split: option.splits if_splits)
qed

text \<open>A decision that is recorded was allowed: the row was open and bound to
  a revision, the actor named and known, qualified for the row's role; an impact
  question was answered by a prior approver; an ordinary review by the author of
  the thing only where it is a plan or the project's flow allows it, and then the
  row says so. The row afterwards holds the decision and the actor, and an
  ordinary review changes no other row.\<close>

theorem decision_outcome:
  assumes "apOk d" "DecideApproval inp d = Inr (r, d')"
  shows "\<exists>a. approvalByID d (in_approval inp) = Some a \<and> openState (ap_state a) \<and> ap_revision a \<noteq> [] \<and>
     in_actor inp \<in> set (actors d) \<and> QualifiedForRole (ap_role a) (in_groups inp) \<and>
     (if ap_review_kind a = ''impact''
      then PriorApprover (ListApprovalsForEntity d (ap_kind a) (ap_entity a)) (in_actor inp)
      else case authorAndActorForEntity d (ap_kind a) (ap_entity a) (in_actor inp) of (author, decider) \<Rightarrow>
        \<not> IsSelfApproval author decider \<or> isPlanDoc d (ap_kind a) (ap_entity a) \<or>
        (SelfReviewAllowed d (ap_kind a) (ap_entity a) = Inr True \<and> ap_exception r = Some (in_actor inp))) \<and>
     r \<in> set (approvals d') \<and> ap_id r = in_approval inp \<and> DecisionState (in_decision inp) = Some (ap_state r) \<and>
     ap_resolving r = Some (in_actor inp) \<and> ap_resolved_at r = Some (in_now inp) \<and>
     (ap_review_kind a = ''impact'' \<or>
        approvals d' = map (\<lambda>x. if ap_id x = in_approval inp then r else x) (approvals d))"
  using assms(2)
proof (rule DecideApproval_InrE)
  fix st a a1 d1
  assume st: "DecisionState (in_decision inp) = Some st" and a: "approvalByID d (in_approval inp) = Some a"
    and op: "openState (ap_state a)" and rv: "ap_revision a \<noteq> []"
    and q: "QualifiedForRole (ap_role a) (in_groups inp)" and g: "decideGuard inp a d = Inr (a1, d1)"
    and act: "in_actor inp \<in> set (actors d1)"
    and l: "let d3 = clearPatchedOnFullApproval a1 st (ResolveApproval (ap_id a1) st (Some (in_actor inp)) (in_now inp) d1)
     in (if ap_review_kind a1 = ''impact'' \<and> ImpactDecisionEffect st = ImpactReopen
         then reopenDependentReview (in_now inp) a1 d3 else Inr d3) = Inr d'"
    and r: "r = a1\<lparr>ap_state := st, ap_resolving := Some (in_actor inp), ap_resolved_at := Some (in_now inp)\<rparr>"
  let ?d3 = "clearPatchedOnFullApproval a1 st (ResolveApproval (ap_id a1) st (Some (in_actor inp)) (in_now inp) d1)"
  note k = decideGuard_keeps[OF g assms(1)]
  have k1: "apOk d1" "ap_id a1 = ap_id a" "ap_review_kind a1 = ap_review_kind a" "actors d1 = actors d"
    using k by blast+
  have mem: "a \<in> set (approvals d)" "ap_id a = in_approval inp" using approvalByID_SomeD[OF a] by blast+
  have ap3: "approvals ?d3 = map (\<lambda>x. if ap_id x = ap_id a then r else x) (approvals d)"
    unfolding clearPatched_frame by (rule decided_row[OF assms(1) a g r])
  then have r3: "r \<in> set (approvals ?d3)" using mem(1) by force
  have "apOk (ResolveApproval (ap_id a1) st (Some (in_actor inp)) (in_now inp) d1)"
    using apOk_Resolve[OF k1(1)] apOk_DecisionState[OF st] by blast
  then have ok3: "apOk ?d3" using apOk_cong[OF clearPatched_frame] by blast
  have rr: "ap_review_kind r = ap_review_kind a" using r k1(3) by simp
  have rd: "r \<in> set (approvals d')"
    using l r3 reopenDependent_keeps_row[OF ok3 _ r3] rr k1(3) unfolding Let_def by (auto split: if_splits)
  have other: "ap_review_kind a = ''impact'' \<or> approvals d' = map (\<lambda>x. if ap_id x = in_approval inp then r else x) (approvals d)"
    using l ap3 k1(3) mem(2) unfolding Let_def by (auto split: if_splits)
  have allowed: "if ap_review_kind a = ''impact''
      then PriorApprover (ListApprovalsForEntity d (ap_kind a) (ap_entity a)) (in_actor inp)
      else case authorAndActorForEntity d (ap_kind a) (ap_entity a) (in_actor inp) of (author, decider) \<Rightarrow>
        \<not> IsSelfApproval author decider \<or> isPlanDoc d (ap_kind a) (ap_entity a) \<or>
        (SelfReviewAllowed d (ap_kind a) (ap_entity a) = Inr True \<and> ap_exception r = Some (in_actor inp))"
    using g r unfolding decideGuard_def Let_def
    by (auto simp: andThen_Inr_iff split: if_splits prod.splits)
  have fields: "ap_id r = in_approval inp" "DecisionState (in_decision inp) = Some (ap_state r)"
    "ap_resolving r = Some (in_actor inp)" "ap_resolved_at r = Some (in_now inp)"
    using r k1(2) mem(2) st by simp_all
  show ?thesis using a op rv act q allowed rd fields other unfolding k1(4) by blast
qed


section \<open>The acceptance gate\<close>

lemma fold_last:
  "fold (\<lambda>a m. m(k a := v a)) xs m r =
     (let ys = filter (\<lambda>a. k a = r) xs in if ys = [] then m r else v (last ys))"
  by (induction xs rule: rev_induct) (simp_all add: Let_def)

lemma distinct_singleton: "distinct xs \<Longrightarrow> set xs = {a} \<Longrightarrow> xs = [a]"
  by (cases xs; cases "tl xs") auto

lemma laneRow:
  assumes "apOk d" "r \<noteq> []"
    and "P = (\<lambda>a. ofEntity kind entity a \<and> ap_revision a = revn \<and> ap_lane a = r)"
  shows "filter P (approvals d) = (case row P (approvals d) of None \<Rightarrow> [] | Some a \<Rightarrow> [a])"
proof (cases "row P (approvals d)")
  case None
  then have "filter P (approvals d) = []" by (simp add: row_None_iff filter_empty_conv)
  then show ?thesis using None by simp
next
  case (Some a)
  have a: "a \<in> set (approvals d)" "P a" using row_SomeD[OF Some] by blast+
  have review: "ap_review_kind x = ''review''" if "x \<in> set (approvals d)" "P x" for x
    using assms that by (auto simp: apOk_def rowFine_def)
  have uniq: "x = a" if x: "x \<in> set (approvals d)" "P x" for x
  proof -
    have "approvalKey x = approvalKey a"
      using x(2) a(2) review[OF x] review[OF a] assms(3) by (simp add: approvalKey_def ofEntity_def)
    then show ?thesis using assms(1) x(1) a(1) by (auto simp: apOk_def distinct_map inj_on_def)
  qed
  have "distinct (filter P (approvals d))"
    using assms(1) by (auto simp: apOk_def distinct_map)
  moreover have "set (filter P (approvals d)) = {a}"
    unfolding set_filter using a uniq by blast
  ultimately have "filter P (approvals d) = [a]" by (rule distinct_singleton)
  then show ?thesis using Some by simp
qed

text \<open>The gate inside the acceptance and the pre-flight outside it answer the
  same, and they let a version through exactly when every assigned reviewer's
  lane on it is approved and no row on it is open.\<close>

theorem gate_agrees:
  assumes "apOk d" "[] \<notin> set (docReviewers d i)"
  shows "checkDocReviewerGateCtx d i v = checkDocReviewerGate d i v \<and>
     (checkDocReviewerGate d i v = Inr () \<longleftrightarrow>
        (\<forall>r\<in>set (docReviewers d i). \<exists>a\<in>set (approvals d). ofEntity ''doc'' (DocEntityID i) a \<and>
           ap_revision a = intStr v \<and> ap_lane a = r \<and> ap_state a = ''approved'') \<and>
        (\<forall>a\<in>set (approvals d). ofEntity ''doc'' (DocEntityID i) a \<longrightarrow> ap_revision a = intStr v \<longrightarrow>
           \<not> openState (ap_state a)))"
proof -
  let ?R = "docReviewers d i"
  let ?P = "\<lambda>r a. ofEntity ''doc'' (DocEntityID i) a \<and> ap_revision a = intStr v \<and> ap_lane a = r"
  let ?rows = "filter (\<lambda>a. ofEntity ''doc'' (DocEntityID i) a \<and> ap_revision a = intStr v \<and> ap_lane a \<in> set ?R) (approvals d)"
  let ?m = "fold (\<lambda>a m. m(ap_lane a := ap_state a)) ?rows (\<lambda>_. [])"
  let ?k = "\<lambda>r. case ApprovalByKey d ''doc'' (DocEntityID i) (intStr v) r of Inr a \<Rightarrow> ap_state a | Inl _ \<Rightarrow> []"
  have same: "?m r = ?k r" if r: "r \<in> set ?R" for r
  proof -
    have "filter (\<lambda>a. ap_lane a = r) ?rows = filter (?P r) (approvals d)"
      unfolding filter_filter by (rule filter_cong) (use r in auto)
    also have "\<dots> = (case row (?P r) (approvals d) of None \<Rightarrow> [] | Some a \<Rightarrow> [a])"
      by (rule laneRow[OF assms(1) _ refl]) (use r assms(2) in blast)
    finally show ?thesis
      unfolding fold_last Let_def ApprovalByKey_def by (cases "row (?P r) (approvals d)") simp_all
  qed
  have gate: "checkDocReviewerGate d i v = Inr () \<longleftrightarrow> (\<forall>r\<in>set ?R. ?k r = ''approved'') \<and>
      openDocApprovals d ''doc'' (DocEntityID i) (intStr v) = 0"
    by (auto simp: checkDocReviewerGate_def Let_def reviewerGateRefusal_def openApprovalRefusal_def
        filter_empty_conv)
  have approved: "?k r = ''approved'' \<longleftrightarrow> (\<exists>a\<in>set (approvals d). ?P r a \<and> ap_state a = ''approved'')"
    if r: "r \<in> set ?R" for r
  proof -
    have f: "filter (?P r) (approvals d) = (case row (?P r) (approvals d) of None \<Rightarrow> [] | Some a \<Rightarrow> [a])"
      by (rule laneRow[OF assms(1) _ refl]) (use r assms(2) in blast)
    have "(\<exists>a\<in>set (approvals d). ?P r a \<and> ap_state a = ''approved'') \<longleftrightarrow>
        (\<exists>a\<in>set (filter (?P r) (approvals d)). ap_state a = ''approved'')" by auto
    also have "\<dots> \<longleftrightarrow> ?k r = ''approved''"
      unfolding f ApprovalByKey_def by (cases "row (?P r) (approvals d)") simp_all
    finally show ?thesis by simp
  qed
  have "filter (\<lambda>r. ?m r \<noteq> ''approved'') ?R = filter (\<lambda>r. ?k r \<noteq> ''approved'') ?R"
    by (rule filter_cong) (simp_all add: same)
  then have "checkDocReviewerGateCtx d i v = checkDocReviewerGate d i v"
    unfolding checkDocReviewerGateCtx_def checkDocReviewerGate_def Let_def reviewerGateRefusal_def by simp
  then show ?thesis
    unfolding gate using approved by (auto simp: openDocApprovals_def filter_empty_conv)
qed


definition bobsDoc :: "string \<Rightarrow> db" where
  "bobsDoc by_actor = (sampleDb [] [])\<lparr>
     docs := [\<lparr> d_id = 7, d_project = ''wl'', d_kind = ''spec'', d_body = [], d_number = None, d_slug = ''s'',
       d_owner = Some ''bob'', d_created_by = Some by_actor, d_status = ''in_review'', d_version = 1,
       d_generated_by_task = None, d_updated_at = 0, d_deleted_at = None, d_deleted_by = None,
       d_delete_justification = None \<rparr>],
     doc_reviewers := [\<lparr>dr_doc = 7, dr_actor = ''bob'', dr_assigned_at = 0\<rparr>],
     actors := [''ada'', ''bob'', ''eve'']\<rparr>"

definition requested :: "string \<Rightarrow> db" where
  "requested by_actor = projr (RequestDocApproval 0 7 1 (bobsDoc by_actor))"

theorem gate_agrees_witness:
  "checkDocReviewerGate (requested ''eve'') 7 1 = Inl ErrMissingApprovals \<and>
   checkDocReviewerGateCtx (requested ''eve'') 7 1 = Inl ErrMissingApprovals"
proof -
  have "apOk (requested ''eve'')" "[] \<notin> set (docReviewers (requested ''eve'') 7)"
    "checkDocReviewerGate (requested ''eve'') 7 1 = Inl ErrMissingApprovals" by code_simp+
  then show ?thesis using gate_agrees[of "requested ''eve''" 7 1] by simp
qed

theorem approvals_stay_keyed_witness:
  "apOk (requested ''eve'') \<and> length (approvals (requested ''eve'')) = 1"
proof -
  have "apOk (bobsDoc ''eve'')" "RequestDocApproval 0 7 1 (bobsDoc ''eve'') = Inr (requested ''eve'')"
    "length (approvals (requested ''eve'')) = 1" by code_simp+
  note h = this
  show ?thesis
    using approvals_stay_keyed[OF h(1), THEN conjunct2, THEN conjunct1, rule_format, OF h(2)] h(3) by blast
qed

definition adaApproves :: decide_input where
  "adaApproves = \<lparr> in_approval = 1, in_decision = ''approve'', in_actor = ''ada'', in_groups = [], in_now = 5 \<rparr>"

definition adaDecided :: "approval \<times> db" where
  "adaDecided = projr (DecideApproval adaApproves (requested ''eve''))"

theorem decision_outcome_witness:
  "ap_state (fst adaDecided) = ''approved'' \<and> ap_resolving (fst adaDecided) = Some ''ada''"
proof -
  have ok: "apOk (requested ''eve'')" by code_simp
  have "\<not> isl (DecideApproval adaApproves (requested ''eve''))" by code_simp
  then have "DecideApproval adaApproves (requested ''eve'') = Inr (fst adaDecided, snd adaDecided)"
    unfolding adaDecided_def using succeeded by force
  from decision_outcome[OF ok this] show ?thesis
    by (auto simp: adaApproves_def DecisionState_def)
qed

text \<open>The lane of an assigned reviewer can be settled by somebody else:
  nothing in a decision looks at the actor the row requires. Here bob is the one
  reviewer, ada decides, and the acceptance gate, which asks for bob's approval,
  opens.\<close>

theorem anyone_settles_reviewer_lane:
  "(let d = requested ''eve'' in
     map ap_required_actor (approvals d) = [Some ''bob''] \<and>
     checkDocReviewerGate d 7 1 = Inl ErrMissingApprovals \<and>
     (case DecideApproval adaApproves d of
        Inr (r, d') \<Rightarrow> ap_resolving r = Some ''ada'' \<and> docReviewers d' 7 = [''bob''] \<and>
          checkDocReviewerGate d' 7 1 = Inr ()
      | Inl _ \<Rightarrow> False))"
  by code_simp

section \<open>New revisions\<close>

lemma impactFanOut_adds:
  assumes "impactFanOut now k e r d = Inr (n, d')"
  shows "set (approvals d) \<subseteq> set (approvals d')"
proof -
  have "set (approvals d) \<subseteq> set (approvals (snd (n, d')))"
    by (rule foldE_invariant[OF _ _ assms[unfolded impactFanOut_def],
          where P = "\<lambda>s. set (approvals d) \<subseteq> set (approvals (snd s))"])
      (auto simp: impactOne_def insertApproval_def Let_def andThen_Inr_iff subset_iff
        split: option.splits if_splits prod.splits)
  then show ?thesis by simp
qed

text \<open>Designating a revision rewrites no decided row, and leaves the new
  revision bound by a review row whenever anything was ever required of the
  entity.\<close>

theorem designation_binds:
  assumes "apOk d" "DesignateRevision now kind entity new d = Inr (out, d')"
  shows "(\<forall>a\<in>set (approvals d). openState (ap_state a) \<or> a \<in> set (approvals d')) \<and>
     (filter (designated kind entity) (approvals d) = [] \<or>
      (\<exists>a\<in>set (approvals d'). designated kind entity a \<and> ap_revision a = new))"
proof -
  have kept: "\<forall>a\<in>set (approvals d). openState (ap_state a) \<or> a \<in> set (approvals d')"
    using DesignateRevision_keeps[OF assms] unfolding keepsDecided_def by blast
  let ?scope = "filter (designated kind entity) (approvals d)"
  let ?open = "firstOf (newestFirst (filter (\<lambda>a. openState (ap_state a)) ?scope))"
  let ?dec = "filter (\<lambda>a. ap_state a = ''approved'' \<or> ap_state a = ''rejected'') ?scope"
  let ?bound = "\<exists>a\<in>set ?scope. ap_revision a = new"
  note r = assms(2)[unfolded DesignateRevision_def Let_def]
  have "?scope = [] \<or> (\<exists>a\<in>set (approvals d'). designated kind entity a \<and> ap_revision a = new)"
  proof (cases "OnNewRevision ?open (?dec \<noteq> []) ?bound")
    case RevisionNoop
    then have d': "d' = d" using r by auto
    have "?bound \<or> (?open = None \<and> ?dec = [])"
      using RevisionNoop by (auto simp: OnNewRevision_def split: if_splits)
    moreover have "?scope = []" if "?open = None" "?dec = []"
    proof -
      have "set (newestFirst (filter (\<lambda>a. openState (ap_state a)) ?scope)) = {}"
        using that(1) by (auto simp: firstOf_def split: list.splits)
      then have no: "\<forall>a\<in>set ?scope. \<not> openState (ap_state a)"
        unfolding newestFirst_def set_sortStable by auto
      have "\<forall>a\<in>set ?scope. ap_state a \<noteq> ''approved'' \<and> ap_state a \<noteq> ''rejected''"
        using that(2) by (auto simp: filter_empty_conv)
      moreover have "rowFine a" if "a \<in> set ?scope" for a using that assms(1) by (simp add: apOk_def)
      ultimately have "\<forall>a\<in>set ?scope. False" using no unfolding rowFine_def by blast
      then show ?thesis by (cases ?scope) auto
    qed
    ultimately show ?thesis unfolding d' by auto
  next
    case RevisionRebind
    then obtain a where a: "?open = Some a" by (auto simp: OnNewRevision_def split: if_splits)
    have mem: "a \<in> set (approvals d)" "designated kind entity a" using firstOf_newest[OF a] by auto
    let ?u = "updApproval (ap_id a) (\<lambda>x. x\<lparr>ap_revision := new\<rparr>) d"
    obtain n where n: "impactFanOut now kind entity new ?u = Inr (n, d')"
      using r unfolding RevisionRebind revision_outcome.case unfolding a option.case
      by (auto simp: andThen_Inr_iff)
    have "a\<lparr>ap_revision := new\<rparr> \<in> set (approvals ?u)"
      using mem(1) by (auto simp: updApproval_def in_set_updWhere intro!: bexI[of _ a])
    moreover have "designated kind entity (a\<lparr>ap_revision := new\<rparr>)"
      using mem(2) by (simp add: designated_def ofEntity_def)
    moreover have "ap_revision (a\<lparr>ap_revision := new\<rparr>) = new" by simp
    ultimately show ?thesis using impactFanOut_adds[OF n] by blast
  next
    case RevisionCandidate
    then obtain a :: approval and b d1 n where i: "InsertAwaitingApproval now kind entity new [] (ap_role a)
                             (ap_required_actor a) None d = Inr (b, d1)"
      and n: "impactFanOut now kind entity new d1 = Inr (n, d')"
      using r by (auto simp: andThen_Inr_iff split: option.splits)
    have "\<exists>x\<in>set (approvals d1). designated kind entity x \<and> ap_revision x = new"
      using i unfolding InsertAwaitingApproval_def insertApproval_def Let_def
      by (auto simp: awaitingRow_def approvalKey_def designated_def ofEntity_def split: if_splits)
    then show ?thesis using impactFanOut_adds[OF n] by blast
  qed
  then show ?thesis using kept by blast
qed

definition chained :: db where
  "chained = (sampleDb [] [])\<lparr>
     approvals := [
       (awaitingRow 0 ''pr'' ''r#1'' ''u1'' [] None None None ''review'')\<lparr>ap_id := 1\<rparr>,
       (awaitingRow 0 ''pr'' ''r#2'' ''v1'' [] None None None ''review'')\<lparr>ap_id := 2, ap_state := ''approved'',
          ap_resolving := Some ''ada'', ap_resolved_at := Some 1\<rparr>],
     next_approval_id := 3,
     entity_edges := [\<lparr>ee_from_kind = ''pr'', ee_from = ''r#2@v1'', ee_to_kind = ''pr'', ee_to = ''r#1@u1'',
       ee_rel = ''references_revision'', ee_created_at = 0, ee_created_by = None\<rparr>]\<rparr>"

theorem designation_binds_witness:
  "\<exists>a\<in>set (approvals (snd (projr (DesignateRevision 2 ''pr'' ''r#1'' ''u2'' chained)))).
     designated ''pr'' ''r#1'' a \<and> ap_revision a = ''u2''"
proof -
  let ?r = "DesignateRevision 2 ''pr'' ''r#1'' ''u2'' chained"
  have ok: "apOk chained" "filter (designated ''pr'' ''r#1'') (approvals chained) \<noteq> []" "\<not> isl ?r"
    by code_simp+
  have "?r = Inr (fst (projr ?r), snd (projr ?r))" using succeeded[OF ok(3)] by simp
  from designation_binds[OF ok(1) this] show ?thesis using ok(2) by blast
qed

definition decideBy :: "int \<Rightarrow> string \<Rightarrow> decide_input" where
  "decideBy i dec = \<lparr> in_approval = i, in_decision = dec, in_actor = ''ada'', in_groups = [], in_now = 5 \<rparr>"

text \<open>An impact question answered with request_changes stays open, and the
  open row absorbs the next one: after the dependent has been reopened and
  approved again, a further upstream revision opens no question, although the
  dependent's approval was given before it.\<close>

theorem answered_impact_absorbs:
  "(case andThen (DesignateRevision 2 ''pr'' ''r#1'' ''u2'' chained) (\<lambda>(x1, d1).
         andThen (DecideApproval (decideBy 3 ''request_changes'') d1) (\<lambda>(_, d2).
         andThen (DecideApproval (decideBy 2 ''approve'') d2) (\<lambda>(_, d3).
         andThen (DesignateRevision 9 ''pr'' ''r#1'' ''u3'' d3) (\<lambda>(x2, d4). Inr (x1, x2, d4))))) of
       Inr (x1, x2, d4) \<Rightarrow>
         x1 = (RevisionRebind, 1) \<and> x2 = (RevisionRebind, 0) \<and>
         map (\<lambda>a. (ap_revision a, ap_state a)) (filter (\<lambda>a. ap_review_kind a = ''impact'') (approvals d4)) =
           [(''v1+r#1@u2'', ''changes_requested'')] \<and>
         approvedReviewFor d4 ''pr'' ''r#2'' \<noteq> None
     | Inl _ \<Rightarrow> False)"
  by code_simp


section \<open>Choosing a flow\<close>

definition candidate :: "(string \<times> string) list \<Rightarrow> approval_flow \<Rightarrow> bool" where
  "candidate labels f \<longleftrightarrow> fl_match f \<noteq> [] \<and> matchesLabels (fl_match f) labels"

lemma strCompare_less_trans: "strCompare a b < 0 \<Longrightarrow> strCompare b c < 0 \<Longrightarrow> strCompare a c < 0"
proof -
  assume l: "strCompare a b < 0" "strCompare b c < 0"
  then have "strCompare a c \<le> 0" using strCompare_trans[of a b c] by simp
  moreover have "a \<noteq> c" using l strCompare_flip[of a b] by auto
  ultimately show ?thesis using strCompare_0_iff[of a c] by linarith
qed

lemma betterFlow_trans:
  assumes "betterFlow f g" "betterFlow g h" shows "betterFlow f h"
  using assms strCompare_less_trans[of "fl_name f" "fl_name g" "fl_name h"]
  unfolding betterFlow_def by linarith

lemma betterFlow_neg:
  assumes "\<not> betterFlow g h" "\<not> betterFlow h f" shows "\<not> betterFlow g f"
  using assms strCompare_trans[of "fl_name f" "fl_name h" "fl_name g"] strCompare_flip[of "fl_name g" "fl_name h"]
    strCompare_flip[of "fl_name h" "fl_name f"] strCompare_flip[of "fl_name g" "fl_name f"]
  unfolding betterFlow_def by linarith

lemma betterFlow_irrefl: "\<not> betterFlow f f"
  by (simp add: betterFlow_def)

lemma matchFlowFrom_best:
  "(matchFlowFrom best fs labels = None \<longleftrightarrow> best = None \<and> (\<forall>g\<in>set fs. \<not> candidate labels g)) \<and>
   (\<forall>f. matchFlowFrom best fs labels = Some f \<longrightarrow>
      (best = Some f \<or> f \<in> set fs \<and> candidate labels f) \<and>
      (\<forall>g\<in>set fs. candidate labels g \<longrightarrow> \<not> betterFlow g f) \<and> (\<forall>b. best = Some b \<longrightarrow> \<not> betterFlow b f))"
proof (induction fs arbitrary: best)
  case Nil
  then show ?case using betterFlow_irrefl by auto
next
  case (Cons g fs)
  show ?case
  proof (cases "candidate labels g \<and> (\<forall>b. best = Some b \<longrightarrow> betterFlow g b)")
    case True
    then have step: "matchFlowFrom best (g # fs) labels = matchFlowFrom (Some g) fs labels"
      by (auto simp: candidate_def split: option.split)
    note ih = Cons.IH[of "Some g"]
    have "matchFlowFrom (Some g) fs labels \<noteq> None" using ih by blast
    moreover {
      fix f assume f: "matchFlowFrom (Some g) fs labels = Some f"
      then have "g = f \<or> f \<in> set fs \<and> candidate labels f"
        "\<forall>h\<in>set fs. candidate labels h \<longrightarrow> \<not> betterFlow h f" "\<not> betterFlow g f"
        using ih by blast+
      moreover have "\<forall>b. best = Some b \<longrightarrow> \<not> betterFlow b f"
        using True \<open>\<not> betterFlow g f\<close> betterFlow_trans by blast
      ultimately have "(f \<in> set (g # fs) \<and> candidate labels f) \<and>
        (\<forall>h\<in>set (g # fs). candidate labels h \<longrightarrow> \<not> betterFlow h f) \<and> (\<forall>b. best = Some b \<longrightarrow> \<not> betterFlow b f)"
        using True by auto
    }
    ultimately show ?thesis unfolding step using True by auto
  next
    case False
    then have step: "matchFlowFrom best (g # fs) labels = matchFlowFrom best fs labels"
      by (auto simp: candidate_def split: option.split)
    note ih = Cons.IH[of best]
    have no: "\<not> candidate labels g \<or> (\<exists>b. best = Some b \<and> \<not> betterFlow g b)" using False by blast
    have "\<not> betterFlow g f" if f: "matchFlowFrom best fs labels = Some f" "candidate labels g" for f
    proof
      assume g: "betterFlow g f"
      obtain b where b: "best = Some b" "\<not> betterFlow g b" using no f(2) by blast
      have "\<not> betterFlow b f" using ih f(1) b(1) by blast
      then show False using g b(2) betterFlow_neg by blast
    qed
    then show ?thesis unfolding step using ih no by auto
  qed
qed

text \<open>The flow picked for a project's labels is one of the flows whose
  non-empty match the labels satisfy, and no other such flow is more specific or
  as specific with an earlier name; none is picked exactly when none matches.\<close>

theorem best_flow:
  "case MatchFlow flows labels of
     None \<Rightarrow> filter (\<lambda>f. fl_match f \<noteq> [] \<and> matchesLabels (fl_match f) labels) flows = []
   | Some f \<Rightarrow> f \<in> set flows \<and> fl_match f \<noteq> [] \<and> matchesLabels (fl_match f) labels \<and>
       filter (\<lambda>g. fl_match g \<noteq> [] \<and> matchesLabels (fl_match g) labels \<and> betterFlow g f) flows = []"
proof (cases "MatchFlow flows labels")
  case None
  then show ?thesis
    using matchFlowFrom_best[of None flows labels]
    by (simp add: MatchFlow_def candidate_def filter_empty_conv)
next
  case (Some f)
  then have "f \<in> set flows \<and> candidate labels f" "\<forall>g\<in>set flows. candidate labels g \<longrightarrow> \<not> betterFlow g f"
    using matchFlowFrom_best[of None flows labels] unfolding MatchFlow_def by blast+
  then show ?thesis using Some by (auto simp: candidate_def filter_empty_conv)
qed

text \<open>A pair with an empty value matches a project without the label.\<close>

lemma empty_value_matches_missing: "matchesLabels [(''team'', [])] []"
  by code_simp

end
