(* ===== verification/Correlate.thy ===== *)
theory Correlate
  imports Delivery Decisions
begin

text \<open>
  Branch names and what GitHub reports about changes (internal/store/branchname.go
  and changes.go): the branch template with the correlation pattern derived from
  it, git's rules for a ref, task trailers in a body, and the upserts of pull
  requests, CI runs and reviews with their non-regressing guard. Parsing and
  executing a template is Go's text/template: a parameter, a function from the
  fields to the rendered text, or None for an execution error. Text is valid
  UTF-8.
\<close>

section \<open>Task ids in text\<close>

text \<open>The pattern \<open>[A-Z][A-Z0-9]*-[0-9]+\<close> at the start of a text: the key
  with its dash, all the digits, and what follows.\<close>

definition keyChar :: "char \<Rightarrow> bool" where
  "keyChar c \<longleftrightarrow> isUpper c \<or> isDigit c"

definition idHead :: "string \<Rightarrow> (string \<times> string \<times> string) option" where
  "idHead s =
     (let k = takeWhile keyChar s; r = dropWhile keyChar s;
          ds = takeWhile isDigit (tl r)
      in if k \<noteq> [] \<and> isUpper (hd k) \<and> r \<noteq> [] \<and> hd r = CHR ''-'' \<and> ds \<noteq> []
         then Some (k @ ''-'', ds, dropWhile isDigit (tl r)) else None)"

section \<open>Trailers\<close>

definition trailerLabel :: string where
  "trailerLabel = ''Worklode-Task:''"

definition regexSpace :: "char \<Rightarrow> bool" where
  "regexSpace c \<longleftrightarrow> c \<in> {CHR 0x09, CHR 0x0A, CHR 0x0C, CHR 0x0D, CHR 0x20}"

definition bodyTaskIDPattern :: "string \<Rightarrow> string option" where
  "bodyTaskIDPattern line =
     (case dropPrefix trailerLabel line of
        None \<Rightarrow> None
      | Some r \<Rightarrow>
          (case idHead (dropWhile regexSpace r) of
             None \<Rightarrow> None | Some (k, ds, _) \<Rightarrow> Some (k @ ds)))"

definition TaskIDsFromBody :: "string \<Rightarrow> string list" where
  "TaskIDsFromBody body =
     concat (map (\<lambda>line. case bodyTaskIDPattern (trimSpace line) of None \<Rightarrow> [] | Some i \<Rightarrow> [i])
       (splitAt (CHR 0x0A) body))"

fun firstTrailer :: "string list \<Rightarrow> string" where
  "firstTrailer [] = []"
| "firstTrailer (line # ls) =
     (case bodyTaskIDPattern (trimSpace line) of Some i \<Rightarrow> i | None \<Rightarrow> firstTrailer ls)"

definition TaskIDFromBody :: "string \<Rightarrow> string" where
  "TaskIDFromBody body = firstTrailer (splitAt (CHR 0x0A) body)"

section \<open>The branch template\<close>

record branch_fields =
  bf_id :: string
  bf_slug :: string
  bf_project_id :: string
  bf_kind :: string

definition DefaultBranchTemplate :: string where
  "DefaultBranchTemplate = ''{{ .id }}-{{ .slug }}''"

definition nul :: string where "nul = [CHR 0x00]"

definition sentinels :: branch_fields where
  "sentinels = \<lparr> bf_id = nul @ ''id'' @ nul, bf_slug = nul @ ''slug'' @ nul,
     bf_project_id = nul @ ''projectId'' @ nul, bf_kind = nul @ ''kind'' @ nul \<rparr>"

definition sampleFields :: branch_fields where
  "sampleFields = \<lparr> bf_id = ''WL-1'', bf_slug = ''sample-title'', bf_project_id = ''sample'',
     bf_kind = ''feature'' \<rparr>"

text \<open>The pattern: quoted literals, the captured id, and \<open>[^/]*\<close>.\<close>

datatype segment = Literal string | IDPattern | AnyPattern

text \<open>strings.ReplaceAll of a sentinel by a pattern within one literal, the
  literal's bytes so far in \<open>acc\<close> reversed.\<close>

function replaceLit :: "string \<Rightarrow> segment \<Rightarrow> string \<Rightarrow> string \<Rightarrow> segment list" where
  "replaceLit old new acc s =
     (if s = [] then [Literal (rev acc)]
      else if old \<noteq> [] \<and> hasPrefix s old
      then Literal (rev acc) # new # replaceLit old new [] (drop (length old) s)
      else replaceLit old new (hd s # acc) (tl s))"
  by pat_completeness auto
termination by (relation "measure (\<lambda>(old, new, acc, s). length s)") auto

declare replaceLit.simps [simp del]

definition replaceSeg :: "string \<Rightarrow> segment \<Rightarrow> segment list \<Rightarrow> segment list" where
  "replaceSeg old new segs =
     concat (map (\<lambda>g. case g of Literal s \<Rightarrow> replaceLit old new [] s | _ \<Rightarrow> [g]) segs)"

definition derivePattern :: "(branch_fields \<Rightarrow> string option) \<Rightarrow> segment list option" where
  "derivePattern tmpl =
     (case tmpl sentinels of
        None \<Rightarrow> None
      | Some out \<Rightarrow>
          if \<not> containsStr out (bf_id sentinels) then None
          else Some (replaceSeg (bf_kind sentinels) AnyPattern
                 (replaceSeg (bf_project_id sentinels) AnyPattern
                   (replaceSeg (bf_slug sentinels) AnyPattern
                     (replaceSeg (bf_id sentinels) IDPattern [Literal out])))))"

text \<open>Matching the whole text, alternatives in the order the regexp engine
  prefers them (the longest repetition first); the captured ids.\<close>

fun firstSome :: "('a \<Rightarrow> 'b option) \<Rightarrow> 'a list \<Rightarrow> 'b option" where
  "firstSome f [] = None"
| "firstSome f (x # xs) = (case f x of Some y \<Rightarrow> Some y | None \<Rightarrow> firstSome f xs)"

primrec matchPattern :: "segment list \<Rightarrow> string \<Rightarrow> string list option" where
  "matchPattern [] s = (if s = [] then Some [] else None)"
| "matchPattern (g # gs) s =
     (case g of
        Literal l \<Rightarrow> (case dropPrefix l s of None \<Rightarrow> None | Some r \<Rightarrow> matchPattern gs r)
      | IDPattern \<Rightarrow>
          (case idHead s of
             None \<Rightarrow> None
           | Some (k, ds, r) \<Rightarrow>
               firstSome (\<lambda>n. map_option (\<lambda>ids. (k @ take n ds) # ids) (matchPattern gs (drop n ds @ r)))
                 (rev [1..<Suc (length ds)]))
      | AnyPattern \<Rightarrow>
          firstSome (\<lambda>n. matchPattern gs (drop n s))
            (rev [0..<Suc (length (takeWhile (\<lambda>c. c \<noteq> CHR ''/'') s))]))"

section \<open>Legal refs\<close>

definition refBadChar :: "char \<Rightarrow> bool" where
  "refBadChar c \<longleftrightarrow> (of_char c :: nat) \<le> 32 \<or> (of_char c :: nat) = 127 \<or>
     c \<in> {CHR ''~'', CHR ''^'', CHR '':'', CHR ''?'', CHR ''*'', CHR ''['', CHR 0x5C}"

definition partLegal :: "string \<Rightarrow> bool" where
  "partLegal part \<longleftrightarrow> part \<noteq> [] \<and> \<not> hasPrefix part ''.'' \<and> \<not> hasSuffix part ''.'' \<and>
     \<not> hasSuffix part ''.lock''"

text \<open>True where the source returns nil.\<close>

definition validateRef :: "string \<Rightarrow> bool" where
  "validateRef ref \<longleftrightarrow> ref \<noteq> [] \<and> (\<forall>c\<in>set ref. \<not> refBadChar c) \<and>
     \<not> containsStr ref ''..'' \<and> \<not> containsStr ref [CHR 0x40, CHR 0x7B] \<and>
     \<not> hasPrefix ref ''/'' \<and> \<not> hasSuffix ref ''/'' \<and> (\<forall>part\<in>set (splitAt (CHR ''/'') ref). partLegal part)"

section \<open>The configured template\<close>

text \<open>The three package variables, only ever replaced together.\<close>

record branch_config =
  bc_text :: string
  bc_tmpl :: "branch_fields \<Rightarrow> string option"
  bc_pattern :: "segment list"

definition SetBranchTemplate ::
  "(string \<Rightarrow> (branch_fields \<Rightarrow> string option) option) \<Rightarrow> string \<Rightarrow> branch_config \<Rightarrow>
     branch_config option" where
  "SetBranchTemplate parse text0 cfg =
     (let txt = (if text0 = [] then DefaultBranchTemplate else text0) in
      case parse txt of
        None \<Rightarrow> None
      | Some tmpl \<Rightarrow>
          (case tmpl sampleFields of
             None \<Rightarrow> None
           | Some sample \<Rightarrow>
               if \<not> validateRef sample then None
               else (case derivePattern tmpl of
                       None \<Rightarrow> None
                     | Some pat \<Rightarrow> Some (cfg\<lparr>bc_text := txt, bc_tmpl := tmpl, bc_pattern := pat\<rparr>))))"

definition BranchFor :: "branch_config \<Rightarrow> task \<Rightarrow> string" where
  "BranchFor cfg t =
     (let fallback = t_id t @ ''-'' @ SlugifyTitle (t_title t) in
      if bc_text cfg = DefaultBranchTemplate then fallback
      else case bc_tmpl cfg \<lparr> bf_id = t_id t, bf_slug = SlugifyTitle (t_title t),
                   bf_project_id = SlugifyTitle (t_project t), bf_kind = SlugifyTitle (t_kind t) \<rparr> of
             None \<Rightarrow> fallback
           | Some out \<Rightarrow> if out = [] then fallback else out)"

definition TaskIDFromRef :: "branch_config \<Rightarrow> string \<Rightarrow> string" where
  "TaskIDFromRef cfg ref =
     (case matchPattern (bc_pattern cfg) ref of Some (i # _) \<Rightarrow> i | _ \<Rightarrow> [])"

definition TaskIDForRef :: "branch_config \<Rightarrow> db \<Rightarrow> string \<Rightarrow> string" where
  "TaskIDForRef cfg d ref =
     (let i = TaskIDFromRef cfg ref in if taskExists d i then i else [])"

section \<open>Pull requests\<close>

text \<open>\<open>coalesce(new, '-infinity') >= coalesce(old, '-infinity')\<close>.\<close>

definition notOlder :: "int option \<Rightarrow> int option \<Rightarrow> bool" where
  "notOlder new old \<longleftrightarrow>
     (case old of None \<Rightarrow> True | Some o' \<Rightarrow> (case new of None \<Rightarrow> False | Some n \<Rightarrow> o' \<le> n))"

definition prKey :: "string \<Rightarrow> int \<Rightarrow> pull_request \<Rightarrow> bool" where
  "prKey repo number p \<longleftrightarrow> gp_repo p = repo \<and> gp_number p = number"

definition GetPR :: "db \<Rightarrow> string \<Rightarrow> int \<Rightarrow> err + pull_request" where
  "GetPR d repo number =
     (case row (prKey repo number) (pull_requests d) of None \<Rightarrow> Inl ErrNotFound | Some p \<Rightarrow> Inr p)"

text \<open>The task a delivery names: by branch, else by trailer, if it exists.\<close>

definition prCandidate :: "branch_config \<Rightarrow> db \<Rightarrow> pull_request \<Rightarrow> string \<Rightarrow> string option" where
  "prCandidate cfg d pr body =
     (let byRef = TaskIDFromRef cfg (gp_head_ref pr);
          candidate = (if byRef = [] then TaskIDFromBody body else byRef)
      in if taskExists d candidate then Some candidate else None)"

text \<open>The row an accepted update leaves.\<close>

definition refreshPR :: "pull_request \<Rightarrow> pull_request \<Rightarrow> pull_request" where
  "refreshPR new old = old\<lparr>gp_title := gp_title new, gp_state := gp_state new,
     gp_head_sha := gp_head_sha new, gp_merge_sha := gp_merge_sha new, gp_url := gp_url new,
     gp_merged_at := gp_merged_at new, gp_updated_at := gp_updated_at new,
     gp_author := (if gp_author new = None then gp_author old else gp_author new),
     gp_task := (if gp_task old = None then gp_task new else gp_task old)\<rparr>"

definition prStates :: "string list" where
  "prStates = [''open'', ''merged'', ''closed'']"

definition UpsertPR ::
  "branch_config \<Rightarrow> pull_request \<Rightarrow> string \<Rightarrow> db \<Rightarrow> err + (pull_request \<times> bool) \<times> db" where
  "UpsertPR cfg pr body d =
     (let new = pr\<lparr>gp_task := prCandidate cfg d pr body,
                   gp_author := (case gp_author pr of None \<Rightarrow> None | Some a \<Rightarrow> nullText a),
                   gp_queued_at := None\<rparr>
      in if \<not> int4 (Some (gp_number pr)) then Inl (DBError ''integer out of range'')
         else if gp_state pr \<notin> set prStates then Inl (DBError ''pull_requests_state_check'')
         else case row (prKey (gp_repo pr) (gp_number pr)) (pull_requests d) of
           None \<Rightarrow> Inr ((new, True), d\<lparr>pull_requests := pull_requests d @ [new]\<rparr>)
         | Some old \<Rightarrow>
             if notOlder (gp_updated_at new) (gp_updated_at old)
             then Inr ((refreshPR new old, True),
                    d\<lparr>pull_requests := updWhere (prKey (gp_repo pr) (gp_number pr)) (refreshPR new)
                        (pull_requests d)\<rparr>)
             else Inr ((old, False), d))"

definition ExistingPRNumbers :: "db \<Rightarrow> string \<Rightarrow> int list" where
  "ExistingPRNumbers d repo =
     map gp_number (filter (\<lambda>p. gp_repo p = repo) (pull_requests d))"

definition prOrder :: "pull_request \<Rightarrow> pull_request \<Rightarrow> int" where
  "prOrder a b = cmpOr [strCompare (gp_repo a) (gp_repo b), cmpInt (gp_number a) (gp_number b)]"

definition landedOrOpen :: "pull_request \<Rightarrow> bool" where
  "landedOrOpen p \<longleftrightarrow> gp_state p \<in> {''open'', ''merged''}"

definition TaskPRs :: "db \<Rightarrow> (string \<times> int \<times> string) list" where
  "TaskPRs d =
     map (\<lambda>p. (gp_repo p, gp_number p, case gp_task p of None \<Rightarrow> [] | Some t \<Rightarrow> t))
       (sortStable prOrder (filter (\<lambda>p. gp_task p \<noteq> None \<and> landedOrOpen p) (pull_requests d)))"

definition PRsForTask :: "db \<Rightarrow> string \<Rightarrow> pull_request list" where
  "PRsForTask d tid = sortStable prOrder (filter (\<lambda>p. gp_task p = Some tid) (pull_requests d))"

text \<open>DESC puts NULLs first.\<close>

definition newestUpdate :: "pull_request \<Rightarrow> pull_request \<Rightarrow> int" where
  "newestUpdate a b =
     (case (gp_updated_at a, gp_updated_at b) of
        (None, None) \<Rightarrow> 0 | (None, Some _) \<Rightarrow> -1 | (Some _, None) \<Rightarrow> 1
      | (Some x, Some y) \<Rightarrow> cmpInt y x)"

definition OpenPRsForProject :: "db \<Rightarrow> string \<Rightarrow> pull_request list" where
  "OpenPRsForProject d projectID =
     sortStable newestUpdate
       (filter (\<lambda>p. landedOrOpen p \<and>
           (\<exists>t\<in>set (tasks d). gp_task p = Some (t_id t) \<and> t_project t = projectID)) (pull_requests d))"

definition PRTaskID :: "db \<Rightarrow> string \<Rightarrow> int \<Rightarrow> string" where
  "PRTaskID d repo number =
     (case row (prKey repo number) (pull_requests d) of
        None \<Rightarrow> [] | Some p \<Rightarrow> (case gp_task p of None \<Rightarrow> [] | Some t \<Rightarrow> t))"

definition SetPRQueued :: "string \<Rightarrow> int \<Rightarrow> int option \<Rightarrow> db \<Rightarrow> db" where
  "SetPRQueued repo number at d =
     d\<lparr>pull_requests := updWhere (prKey repo number) (\<lambda>p. p\<lparr>gp_queued_at := at\<rparr>) (pull_requests d)\<rparr>"

section \<open>Branch rules\<close>

definition UpsertBranchRules :: "string \<Rightarrow> string \<Rightarrow> bool \<Rightarrow> bool \<Rightarrow> int \<Rightarrow> db \<Rightarrow> db" where
  "UpsertBranchRules repo branch mergeQueue pullRequest at d =
     (let key = (\<lambda>r. br_repo r = repo \<and> br_branch r = branch) in
      if \<exists>r\<in>set (branch_rules d). key r
      then d\<lparr>branch_rules := updWhere key
             (\<lambda>r. r\<lparr>br_merge_queue := mergeQueue, br_pull_request := Some pullRequest,
                    br_checked_at := at\<rparr>) (branch_rules d)\<rparr>
      else d\<lparr>branch_rules := branch_rules d @ [\<lparr>br_repo = repo, br_branch = branch,
             br_merge_queue = mergeQueue, br_pull_request = Some pullRequest, br_checked_at = at\<rparr>]\<rparr>)"

definition BranchRules :: "db \<Rightarrow> string \<Rightarrow> err + branch_rule" where
  "BranchRules d repo =
     (case sortStable (\<lambda>a b. cmpInt (br_checked_at b) (br_checked_at a))
             (filter (\<lambda>r. br_repo r = repo) (branch_rules d)) of
        [] \<Rightarrow> Inl ErrNotFound | r # _ \<Rightarrow> Inr r)"

text \<open>The map the bulk reader fills, a later row of a repo overwriting an
  earlier one.\<close>

definition BranchRulesForRepos :: "db \<Rightarrow> string list \<Rightarrow> string \<Rightarrow> bool option" where
  "BranchRulesForRepos d repos =
     fold (\<lambda>r m. m(br_repo r := Some (br_merge_queue r)))
       (filter (\<lambda>r. br_repo r \<in> set repos) (branch_rules d)) (\<lambda>_. None)"

section \<open>CI runs and reviews\<close>

definition runKey :: "ci_run \<Rightarrow> ci_run \<Rightarrow> bool" where
  "runKey a b \<longleftrightarrow> ci_repo a = ci_repo b \<and> ci_head_sha a = ci_head_sha b \<and>
     ci_workflow a = ci_workflow b \<and> ci_started_at a = ci_started_at b"

definition refreshRun :: "ci_run \<Rightarrow> ci_run \<Rightarrow> ci_run" where
  "refreshRun new old = old\<lparr>ci_status := ci_status new, ci_conclusion := ci_conclusion new,
     ci_url := ci_url new, ci_completed_at := ci_completed_at new, ci_updated_at := ci_updated_at new\<rparr>"

text \<open>A conflicting insert still takes a number from the identity.\<close>

definition UpsertCIRun :: "ci_run \<Rightarrow> db \<Rightarrow> db" where
  "UpsertCIRun r d =
     (let d1 = d\<lparr>next_ci_id := next_ci_id d + 1\<rparr> in
      case row (runKey r) (ci_runs d) of
        None \<Rightarrow> d1\<lparr>ci_runs := ci_runs d @ [r\<lparr>ci_id := next_ci_id d\<rparr>]\<rparr>
      | Some old \<Rightarrow>
          if notOlder (ci_updated_at r) (ci_updated_at old)
          then d1\<lparr>ci_runs := updWhere (runKey r) (refreshRun r) (ci_runs d)\<rparr>
          else d1)"

definition runOrder :: "ci_run \<Rightarrow> ci_run \<Rightarrow> int" where
  "runOrder a b = cmpOr [cmpInt (ci_started_at a) (ci_started_at b), cmpInt (ci_id a) (ci_id b)]"

definition CIRunsForSHA :: "db \<Rightarrow> string \<Rightarrow> string \<Rightarrow> ci_run list" where
  "CIRunsForSHA d repo sha =
     sortStable runOrder (filter (\<lambda>r. ci_repo r = repo \<and> ci_head_sha r = sha) (ci_runs d))"

text \<open>The bulk reader: sorted by key first, then grouped in that order.\<close>

definition groupFor :: "('a \<Rightarrow> 'k) \<Rightarrow> 'a list \<Rightarrow> 'k \<Rightarrow> 'a list option" where
  "groupFor k xs key = (let g = filter (\<lambda>x. k x = key) xs in if g = [] then None else Some g)"

definition CIRunsForSHAs :: "db \<Rightarrow> (string \<times> string) list \<Rightarrow> string \<times> string \<Rightarrow> ci_run list option" where
  "CIRunsForSHAs d keys =
     groupFor (\<lambda>r. (ci_repo r, ci_head_sha r))
       (sortStable (\<lambda>a b. cmpOr [strCompare (ci_repo a) (ci_repo b),
              strCompare (ci_head_sha a) (ci_head_sha b), cmpInt (ci_started_at a) (ci_started_at b),
              cmpInt (ci_id a) (ci_id b)])
         (filter (\<lambda>r. (ci_repo r, ci_head_sha r) \<in> set keys) (ci_runs d)))"

definition reviewStates :: "string list" where
  "reviewStates = [''approved'', ''changes_requested'', ''commented'']"

definition reviewKey :: "pr_review \<Rightarrow> pr_review \<Rightarrow> bool" where
  "reviewKey a b \<longleftrightarrow> pv_repo a = pv_repo b \<and> pv_number a = pv_number b \<and>
     pv_reviewer a = pv_reviewer b \<and> pv_submitted_at a = pv_submitted_at b"

definition UpsertReview :: "pr_review \<Rightarrow> db \<Rightarrow> err + db" where
  "UpsertReview v d =
     (if \<not> int4 (Some (pv_number v)) then Inl (DBError ''integer out of range'')
      else if pv_state v \<notin> set reviewStates then Inl (DBError ''reviews_state_check'')
      else if \<exists>x\<in>set (pr_reviews d). reviewKey v x
      then Inr (d\<lparr>pr_reviews := updWhere (reviewKey v) (\<lambda>x. x\<lparr>pv_state := pv_state v\<rparr>) (pr_reviews d)\<rparr>)
      else Inr (d\<lparr>pr_reviews := pr_reviews d @ [v]\<rparr>))"

text \<open>Rows stand in id order.\<close>

definition ReviewsForPR :: "db \<Rightarrow> string \<Rightarrow> int \<Rightarrow> pr_review list" where
  "ReviewsForPR d repo number =
     sortStable (\<lambda>a b. cmpInt (pv_submitted_at a) (pv_submitted_at b))
       (filter (\<lambda>v. pv_repo v = repo \<and> pv_number v = number) (pr_reviews d))"

definition ReviewsForPRs :: "db \<Rightarrow> (string \<times> int) list \<Rightarrow> string \<times> int \<Rightarrow> pr_review list option" where
  "ReviewsForPRs d keys =
     groupFor (\<lambda>v. (pv_repo v, pv_number v))
       (sortStable (\<lambda>a b. cmpOr [strCompare (pv_repo a) (pv_repo b), cmpInt (pv_number a) (pv_number b),
              cmpInt (pv_submitted_at a) (pv_submitted_at b)])
         (filter (\<lambda>v. (pv_repo v, pv_number v) \<in> set keys) (pr_reviews d)))"

end
