(* ===== verification/CorrelateSpec.thy ===== *)
theory CorrelateSpec
  imports Correlate IntakeSpec
begin

text \<open>
  What the correlation of branches and the change upserts promise: under the
  default template a task's branch is a legal ref that leads back to the task,
  and the facts a pull request ends with do not depend on the order in which
  its deliveries arrive.
\<close>

section \<open>The default template\<close>

definition wellKey :: "string \<Rightarrow> bool" where
  "wellKey key \<longleftrightarrow> key \<noteq> [] \<and> isUpper (hd key) \<and> (\<forall>c\<in>set key. keyChar c)"

lemma dash_classes [simp]: "\<not> keyChar (CHR ''-'')" "\<not> isDigit (CHR ''-'')"
  by (simp_all add: keyChar_def isUpper_def isDigit_def)

lemma digit_natStr: "c \<in> set (natStr n) \<Longrightarrow> isDigit c"
  using natStr_digits[of c n] by (simp add: isDigit_def)

lemma idHead_id:
  assumes "wellKey key" "\<forall>c\<in>set ds. isDigit c" "ds \<noteq> []" "r = [] \<or> \<not> isDigit (hd r)"
  shows "idHead (key @ ''-'' @ ds @ r) = Some (key @ ''-'', ds, r)"
proof -
  have k: "\<forall>c\<in>set key. keyChar c" "key \<noteq> []" "isUpper (hd key)"
    using assms(1) by (auto simp: wellKey_def)
  have "takeWhile keyChar (key @ ''-'' @ ds @ r) = key"
    "dropWhile keyChar (key @ ''-'' @ ds @ r) = ''-'' @ ds @ r"
    using k(1) by simp_all
  moreover have "takeWhile isDigit (ds @ r) = ds" "dropWhile isDigit (ds @ r) = r"
    using assms(2,4) by (cases r; simp)+
  ultimately show ?thesis using k assms(3) by (simp add: idHead_def Let_def)
qed

definition defaultPattern :: "segment list" where
  "defaultPattern = [Literal [], IDPattern, Literal ''-'', AnyPattern, Literal []]"

lemma derive_default:
  assumes "tmpl sentinels = Some (bf_id sentinels @ ''-'' @ bf_slug sentinels)"
  shows "derivePattern tmpl = Some defaultPattern"
proof -
  have "containsStr (bf_id sentinels @ ''-'' @ bf_slug sentinels) (bf_id sentinels)"
    "replaceSeg (bf_kind sentinels) AnyPattern
       (replaceSeg (bf_project_id sentinels) AnyPattern
         (replaceSeg (bf_slug sentinels) AnyPattern
           (replaceSeg (bf_id sentinels) IDPattern
             [Literal (bf_id sentinels @ ''-'' @ bf_slug sentinels)]))) = defaultPattern"
    by code_simp+
  then show ?thesis by (simp add: derivePattern_def assms)
qed

lemma firstSome_greedy:
  "f n = Some y \<Longrightarrow> m \<le> n \<Longrightarrow> firstSome f (rev [m..<Suc n]) = Some y"
  by simp

lemma matchPattern_default:
  assumes "wellKey key" "CHR ''/'' \<notin> set slug"
  shows "matchPattern defaultPattern (formatTaskID key n @ ''-'' @ slug) = Some [formatTaskID key n]"
proof -
  let ?ds = "natStr n" and ?r = "''-'' @ slug" and ?gs = "[Literal ''-'', AnyPattern, Literal []]"
  let ?f = "\<lambda>m. map_option (\<lambda>ids. ((key @ ''-'') @ take m ?ds) # ids) (matchPattern ?gs (drop m ?ds @ ?r))"
  have h: "idHead (formatTaskID key n @ ?r) = Some (key @ ''-'', ?ds, ?r)"
    using idHead_id[OF assms(1), of ?ds ?r] digit_natStr by (simp add: formatTaskID_def)
  have w: "takeWhile (\<lambda>c. c \<noteq> CHR ''/'') slug = slug"
    unfolding takeWhile_eq_all_conv using assms(2) by blast
  have "matchPattern [AnyPattern, Literal []] slug = Some []"
    using firstSome_greedy[of "\<lambda>n. matchPattern [Literal []] (drop n slug)" "length slug" "[]" 0]
    by (simp add: w)
  then have "matchPattern ?gs ?r = Some []" by (simp del: matchPattern.simps add: matchPattern.simps(2)[of "Literal _"])
  then have "?f (length ?ds) = Some [formatTaskID key n]" by (simp del: matchPattern.simps add: formatTaskID_def)
  then have "firstSome ?f (rev [1..<Suc (length ?ds)]) = Some [formatTaskID key n]"
    by (rule firstSome_greedy) (simp add: Suc_le_eq)
  moreover have "matchPattern (IDPattern # ?gs) (formatTaskID key n @ ?r) =
      firstSome ?f (rev [1..<Suc (length ?ds)])"
    unfolding matchPattern.simps(2)[of IDPattern] using h by (simp del: matchPattern.simps)
  ultimately have "matchPattern (IDPattern # ?gs) (formatTaskID key n @ ?r) = Some [formatTaskID key n]"
    by (simp only:)
  then show ?thesis
    unfolding defaultPattern_def matchPattern.simps(2)[of "Literal []"] by (simp only: segment.case dropPrefix.simps option.case)
qed

section \<open>Its branches are legal\<close>

definition plainChar :: "char \<Rightarrow> bool" where
  "plainChar c \<longleftrightarrow> keyChar c \<or> slugChar c \<or> c = CHR ''-''"

lemma plain_legal:
  assumes "plainChar c"
  shows "\<not> refBadChar c" "c \<noteq> CHR ''.''" "c \<noteq> CHR ''/''" "c \<noteq> CHR ''@''"
  using assms
  by (auto simp: plainChar_def keyChar_def slugChar_def isUpper_def isLower_def isDigit_def refBadChar_def)

lemma splitAt_absent: "sep \<notin> set s \<Longrightarrow> splitAt sep s = [s]"
  by (induction s) auto

lemma prefix_needs: "hasPrefix s p \<Longrightarrow> c \<in> set p \<Longrightarrow> c \<in> set s"
  by (auto simp: hasPrefix_def dest!: dropPrefix_Some)

lemma contains_needs: "containsStr s p \<Longrightarrow> c \<in> set p \<Longrightarrow> c \<in> set s"
proof (induction s p rule: containsStr.induct)
  case (2 a s p)
  then show ?case using prefix_needs[of "a # s" p c] by fastforce
qed simp

lemma suffix_needs: "hasSuffix s p \<Longrightarrow> c \<in> set p \<Longrightarrow> c \<in> set s"
  using prefix_needs[of "rev s" "rev p" c] by (simp add: hasSuffix_def)

lemma plain_ref:
  assumes "s \<noteq> []" "\<forall>c\<in>set s. plainChar c"
  shows "validateRef s"
proof -
  have no: "CHR ''.'' \<notin> set s" "CHR ''/'' \<notin> set s" "CHR ''@'' \<notin> set s"
    using assms(2) plain_legal(2-4) by metis+
  have "\<not> hasPrefix s ''.''" "\<not> hasSuffix s ''.''" "\<not> hasSuffix s ''.lock''"
    "\<not> containsStr s ''..''" "\<not> containsStr s [CHR 0x40, CHR 0x7B]" "\<not> hasPrefix s ''/''" "\<not> hasSuffix s ''/''"
    using no prefix_needs suffix_needs contains_needs by (metis list.set_intros(1))+
  moreover have "\<forall>c\<in>set s. \<not> refBadChar c" using assms(2) plain_legal(1) by metis
  ultimately show ?thesis
    using assms(1) unfolding validateRef_def partLegal_def splitAt_absent[OF no(2)] by simp
qed

lemma plain_branch:
  assumes "wellKey key"
  shows "\<forall>c\<in>set (formatTaskID key n @ ''-'' @ SlugifyTitle t). plainChar c"
  using assms SlugifyTitle_shape(1)[of t] digit_natStr[of _ n]
  by (auto simp: formatTaskID_def plainChar_def wellKey_def keyChar_def slugShape_def)

lemma sample_legal: "validateRef ''WL-1-sample-title''"
  by code_simp

lemma set_default:
  assumes "parse DefaultBranchTemplate = Some tmpl"
    and "\<And>f. tmpl f = Some (bf_id f @ ''-'' @ bf_slug f)"
  shows "SetBranchTemplate parse [] cfg0 =
    Some (cfg0\<lparr>bc_text := DefaultBranchTemplate, bc_tmpl := tmpl, bc_pattern := defaultPattern\<rparr>)"
  using derive_default[of tmpl] sample_legal assms
  by (simp add: SetBranchTemplate_def Let_def sampleFields_def)



text \<open>C29: with no template configured, the branch of every task (its id made
  from a key of the form the projects table requires, and any title) is a legal
  git ref, and a webhook that sees it finds the task again. The template engine
  is assumed to render the default template as written.\<close>

theorem branch_round_trip:
  assumes "parse DefaultBranchTemplate = Some tmpl"
    and "\<And>f. tmpl f = Some (bf_id f @ ''-'' @ bf_slug f)"
    and "wellKey key" "t_id t = formatTaskID key n"
  shows "\<exists>cfg. SetBranchTemplate parse [] cfg0 = Some cfg \<and> validateRef (BranchFor cfg t) \<and>
     TaskIDFromRef cfg (BranchFor cfg t) = t_id t"
proof -
  let ?cfg = "cfg0\<lparr>bc_text := DefaultBranchTemplate, bc_tmpl := tmpl, bc_pattern := defaultPattern\<rparr>"
  have b: "BranchFor ?cfg t = formatTaskID key n @ ''-'' @ SlugifyTitle (t_title t)"
    using assms(4) by (simp add: BranchFor_def)
  have plain: "\<forall>c\<in>set (SlugifyTitle (t_title t)). plainChar c"
    using plain_branch[OF assms(3), of n "t_title t"] by simp
  have "CHR ''/'' \<notin> set (SlugifyTitle (t_title t))"
    using plain plain_legal(3) by blast
  then have "TaskIDFromRef ?cfg (BranchFor ?cfg t) = t_id t"
    using matchPattern_default[OF assms(3)] b assms(4) by (simp add: TaskIDFromRef_def)
  moreover have "validateRef (BranchFor ?cfg t)"
    using plain_ref[OF _ plain_branch[OF assms(3), of n "t_title t"]] b by simp
  ultimately show ?thesis using set_default[of parse tmpl cfg0] assms(1,2) by blast
qed

definition fieldTemplate :: "string \<Rightarrow> (branch_fields \<Rightarrow> string option) option" where
  "fieldTemplate txt =
     (if txt = DefaultBranchTemplate then Some (\<lambda>f. Some (bf_id f @ ''-'' @ bf_slug f))
      else if txt = ''{{ .id }}{{ .slug }}'' then Some (\<lambda>f. Some (bf_id f @ bf_slug f))
      else None)"

definition noBranches :: branch_config where
  "noBranches = \<lparr> bc_text = [], bc_tmpl = (\<lambda>_. None), bc_pattern = [] \<rparr>"

definition titled :: "string \<Rightarrow> task" where
  "titled title = (sampleTask ''WL-1'' ''feature'' ''ready'')\<lparr>t_title := title\<rparr>"

theorem branch_round_trip_witness:
  "\<exists>cfg. SetBranchTemplate fieldTemplate [] noBranches = Some cfg \<and>
     validateRef (BranchFor cfg (titled ''2nd try'')) \<and>
     TaskIDFromRef cfg (BranchFor cfg (titled ''2nd try'')) = ''WL-1''"
proof -
  have "fieldTemplate DefaultBranchTemplate = Some (\<lambda>f. Some (bf_id f @ ''-'' @ bf_slug f))"
    by (simp add: fieldTemplate_def)
  moreover have "wellKey ''WL''" "t_id (titled ''2nd try'') = formatTaskID ''WL'' 1" by code_simp+
  moreover have "t_id (titled ''2nd try'') = ''WL-1''" by code_simp
  ultimately show ?thesis
    using branch_round_trip[of fieldTemplate _ "''WL''" "titled ''2nd try''" 1 noBranches] by simp
qed



text \<open>A template is accepted when it renders and its pattern can be
  derived, which does not mean that its branches lead back to their tasks: with
  the id followed by the slug, the branch of WL-1 with a title that starts with
  a digit is filed under WL-12.\<close>

theorem accepted_template_misfiles:
  "\<exists>cfg. SetBranchTemplate fieldTemplate ''{{ .id }}{{ .slug }}'' noBranches = Some cfg \<and>
     BranchFor cfg (titled ''2nd try'') = ''WL-12nd-try'' \<and>
     TaskIDFromRef cfg (BranchFor cfg (titled ''2nd try'')) = ''WL-12''"
proof -
  let ?c = "SetBranchTemplate fieldTemplate ''{{ .id }}{{ .slug }}'' noBranches"
  have "?c \<noteq> None" "BranchFor (the ?c) (titled ''2nd try'') = ''WL-12nd-try''"
    "TaskIDFromRef (the ?c) ''WL-12nd-try'' = ''WL-12''"
    by code_simp+
  then show ?thesis by (metis option.collapse)
qed

section \<open>Deliveries in any order\<close>

definition prFacts ::
  "pull_request \<Rightarrow> string \<times> string \<times> string \<times> string option \<times> string \<times> int option \<times> int option" where
  "prFacts p = (gp_title p, gp_state p, gp_head_sha p, gp_merge_sha p, gp_url p, gp_merged_at p,
     gp_updated_at p)"

text \<open>One delivery is the payload and the body.\<close>

definition deliverPR ::
  "branch_config \<Rightarrow> pull_request \<times> string \<Rightarrow> db \<Rightarrow> err + db" where
  "deliverPR cfg x d = andThen (UpsertPR cfg (fst x) (snd x) d) (\<lambda>(_, d'). Inr d')"

abbreviation clock :: "pull_request \<times> string \<Rightarrow> int option" where
  "clock x \<equiv> gp_updated_at (fst x)"

lemma notOlder_total: "notOlder a b \<or> notOlder b a"
  by (auto simp: notOlder_def split: option.splits)

lemma notOlder_trans: "notOlder a b \<Longrightarrow> notOlder b c \<Longrightarrow> notOlder a c"
  by (auto simp: notOlder_def split: option.splits)

lemma notOlder_antisym: "notOlder a b \<Longrightarrow> notOlder b a \<Longrightarrow> a = b"
  by (auto simp: notOlder_def split: option.splits)

text \<open>The row of the pull request after one delivery.\<close>

definition factsAt :: "string \<Rightarrow> int \<Rightarrow> db \<Rightarrow>
    (string \<times> string \<times> string \<times> string option \<times> string \<times> int option \<times> int option) option" where
  "factsAt repo number d = map_option prFacts (row (prKey repo number) (pull_requests d))"

lemma refreshPR_facts [simp]: "prFacts (refreshPR n old) = prFacts n"
  by (simp add: prFacts_def refreshPR_def)

lemma prFacts_link [simp]:
  "prFacts (p\<lparr>gp_task := a, gp_author := b, gp_queued_at := c\<rparr>) = prFacts p"
  by (simp add: prFacts_def)

lemma refreshPR_key: "prKey repo number (refreshPR n old) = prKey repo number old"
  by (simp add: prKey_def refreshPR_def)

lemma row_refresh:
  "row (prKey r n) (updWhere (prKey r n) (refreshPR x) ps) =
     map_option (refreshPR x) (row (prKey r n) ps)"
  by (induction ps) (auto simp: refreshPR_key)

lemma deliver_facts:
  assumes "prKey repo number (fst x)" "deliverPR cfg x d = Inr d'"
  shows "factsAt repo number d' =
    (case row (prKey repo number) (pull_requests d) of
       None \<Rightarrow> Some (prFacts (fst x))
     | Some old \<Rightarrow> if notOlder (clock x) (gp_updated_at old) then Some (prFacts (fst x))
                  else Some (prFacts old))"
proof -
  have k: "gp_repo (fst x) = repo" "gp_number (fst x) = number"
    using assms(1) by (simp_all add: prKey_def)
  let ?ps = "pull_requests d"
  show ?thesis
  proof (cases "row (prKey repo number) ?ps")
    case None
    then show ?thesis
      using assms k
      by (auto simp: deliverPR_def UpsertPR_def factsAt_def Let_def row_append prKey_def
          andThen_Inr_iff split: if_splits)
  next
    case (Some old)
    then show ?thesis
      using assms(2) k
      by (auto simp: deliverPR_def UpsertPR_def factsAt_def Let_def row_refresh
          andThen_Inr_iff split: if_splits)
  qed
qed

type_synonym pr_facts =
  "string \<times> string \<times> string \<times> string option \<times> string \<times> int option \<times> int option"

definition factsClock :: "pr_facts \<Rightarrow> int option" where
  "factsClock f = (case f of (_, _, _, _, _, _, u) \<Rightarrow> u)"

lemma factsClock_pr [simp]: "factsClock (prFacts p) = gp_updated_at p"
  by (simp add: factsClock_def prFacts_def)

text \<open>The rule the guard implements, on the facts alone.\<close>

definition takeNewer :: "pull_request \<times> string \<Rightarrow> pr_facts option \<Rightarrow> pr_facts option" where
  "takeNewer x known =
     (case known of None \<Rightarrow> Some (prFacts (fst x))
      | Some g \<Rightarrow> if notOlder (clock x) (factsClock g) then Some (prFacts (fst x)) else Some g)"

lemma deliver_takes:
  assumes "prKey repo number (fst x)" "deliverPR cfg x d = Inr d'"
  shows "factsAt repo number d' = takeNewer x (factsAt repo number d)"
  using deliver_facts[OF assms]
  by (simp add: takeNewer_def factsAt_def split: option.splits)

lemma deliveries_take:
  assumes "\<forall>x\<in>set ds. prKey repo number (fst x)" "foldE (deliverPR cfg) ds d = Inr d'"
  shows "factsAt repo number d' = fold takeNewer ds (factsAt repo number d)"
  using assms
proof (induction ds arbitrary: d)
  case (Cons x ds)
  then obtain d1 where "deliverPR cfg x d = Inr d1" "foldE (deliverPR cfg) ds d1 = Inr d'"
    by (auto simp: andThen_Inr_iff)
  then show ?case using Cons deliver_takes[of repo number x cfg d d1] by simp
qed simp

text \<open>What a run of deliveries ends with: the newest delivery, or what was known
  when that is newer than all of them.\<close>

definition newestOf :: "(pull_request \<times> string) list \<Rightarrow> pr_facts option \<Rightarrow> pr_facts option \<Rightarrow> bool" where
  "newestOf ds known res \<longleftrightarrow>
     (\<exists>x\<in>set ds. res = Some (prFacts (fst x)) \<and> (\<forall>y\<in>set ds. notOlder (clock x) (clock y)) \<and>
        (\<forall>g. known = Some g \<longrightarrow> notOlder (clock x) (factsClock g))) \<or>
     (res = known \<and> (\<forall>y\<in>set ds. \<exists>g. known = Some g \<and> \<not> notOlder (clock y) (factsClock g)))"

lemma newestOf_new:
  "x \<in> set ds \<Longrightarrow> res = Some (prFacts (fst x)) \<Longrightarrow> (\<And>y. y \<in> set ds \<Longrightarrow> notOlder (clock x) (clock y)) \<Longrightarrow>
     (\<And>g. known = Some g \<Longrightarrow> notOlder (clock x) (factsClock g)) \<Longrightarrow> newestOf ds known res"
  unfolding newestOf_def by blast

lemma newestOf_old:
  "res = known \<Longrightarrow> (\<And>y. y \<in> set ds \<Longrightarrow> \<exists>g. known = Some g \<and> \<not> notOlder (clock y) (factsClock g)) \<Longrightarrow>
     newestOf ds known res"
  unfolding newestOf_def by blast

lemma notOlder_refl [simp]: "notOlder a a"
  using notOlder_total by blast

lemma newestOf_snoc:
  assumes "newestOf ds known r"
  shows "newestOf (ds @ [x]) known (takeNewer x r)"
proof -
  consider (new) z where "z \<in> set ds" "r = Some (prFacts (fst z))"
      "\<forall>y\<in>set ds. notOlder (clock z) (clock y)"
      "\<forall>g. known = Some g \<longrightarrow> notOlder (clock z) (factsClock g)"
    | (old) "r = known" "\<forall>y\<in>set ds. \<exists>g. known = Some g \<and> \<not> notOlder (clock y) (factsClock g)"
    using assms unfolding newestOf_def by blast
  then show ?thesis
  proof cases
    case new
    show ?thesis
    proof (cases "notOlder (clock x) (clock z)")
      case True
      show ?thesis
      proof (rule newestOf_new[of x])
        show "takeNewer x r = Some (prFacts (fst x))" using new(2) True by (simp add: takeNewer_def)
        show "notOlder (clock x) (clock y)" if "y \<in> set (ds @ [x])" for y
        proof (cases "y = x")
          case False
          then have "notOlder (clock z) (clock y)" using that new(3) by simp
          then show ?thesis by (rule notOlder_trans[OF True])
        qed simp
        show "notOlder (clock x) (factsClock g)" if "known = Some g" for g
          using new(4) that notOlder_trans[OF True] by blast
      qed simp
    next
      case False
      show ?thesis
      proof (rule newestOf_new[of z])
        show "takeNewer x r = Some (prFacts (fst z))" using new(2) False by (simp add: takeNewer_def)
        show "notOlder (clock z) (clock y)" if "y \<in> set (ds @ [x])" for y
          using that new(3) False notOlder_total[of "clock z" "clock x"] by (cases "y = x") simp_all
        show "notOlder (clock z) (factsClock g)" if "known = Some g" for g
          using new(4) that by blast
      qed (simp add: new(1))
    qed
  next
    case old
    show ?thesis
    proof (cases "\<exists>g. known = Some g \<and> \<not> notOlder (clock x) (factsClock g)")
      case True
      then obtain g where g: "known = Some g" "\<not> notOlder (clock x) (factsClock g)" by blast
      show ?thesis
      proof (rule newestOf_old)
        show "takeNewer x r = known" using old(1) g by (simp add: takeNewer_def)
        show "\<exists>g. known = Some g \<and> \<not> notOlder (clock y) (factsClock g)" if "y \<in> set (ds @ [x])" for y
          using that old(2) g by (cases "y = x") simp_all
      qed
    next
      case False
      show ?thesis
      proof (rule newestOf_new[of x])
        show "takeNewer x r = Some (prFacts (fst x))"
          using old(1) False by (auto simp: takeNewer_def split: option.split)
        show "notOlder (clock x) (factsClock g)" if "known = Some g" for g using False that by blast
        show "notOlder (clock x) (clock y)" if "y \<in> set (ds @ [x])" for y
        proof (cases "y = x")
          case neq: False
          then have "y \<in> set ds" using that by simp
          then have "\<exists>g. known = Some g \<and> \<not> notOlder (clock y) (factsClock g)" using old(2) by blast
          then obtain g where g: "known = Some g" "\<not> notOlder (clock y) (factsClock g)" by blast
          have "notOlder (clock x) (factsClock g)" using False g(1) by blast
          moreover have "notOlder (factsClock g) (clock y)" using g(2) notOlder_total by blast
          ultimately show ?thesis by (rule notOlder_trans)
        qed simp
      qed simp
    qed
  qed
qed

lemma fold_newestOf: "newestOf ds known (fold takeNewer ds known)"
proof (induction ds rule: rev_induct)
  case Nil
  then show ?case by (simp add: newestOf_def)
next
  case (snoc x ds)
  then show ?case using newestOf_snoc[OF snoc.IH, of x] by simp
qed

lemma newestOf_unique:
  assumes "newestOf ds known r" "newestOf ds' known r'" "set ds' = set ds" "inj_on clock (set ds)"
  shows "r' = r"
proof -
  define win where "win x res \<longleftrightarrow> x \<in> set ds \<and> res = Some (prFacts (fst x)) \<and>
     (\<forall>y\<in>set ds. notOlder (clock x) (clock y)) \<and>
     (\<forall>g. known = Some g \<longrightarrow> notOlder (clock x) (factsClock g))" for x and res :: "pr_facts option"
  define stay where "stay res \<longleftrightarrow> res = known \<and>
     (\<forall>y\<in>set ds. \<exists>g. known = Some g \<and> \<not> notOlder (clock y) (factsClock g))" for res :: "pr_facts option"
  have n: "(\<exists>x. win x r) \<or> stay r" "(\<exists>x. win x r') \<or> stay r'"
    using assms(1,2) unfolding newestOf_def win_def stay_def assms(3) by blast+
  have ww: "a = b" if "win x a" "win y b" for x y a b
  proof -
    have m: "x \<in> set ds" "y \<in> set ds" using that by (simp_all add: win_def)
    have "notOlder (clock x) (clock y)" "notOlder (clock y) (clock x)"
      using that m by (simp_all add: win_def)
    then have "clock x = clock y" by (rule notOlder_antisym)
    then have "x = y" using inj_onD[OF assms(4) _ m] by blast
    then show ?thesis using that by (simp add: win_def)
  qed
  have ws: False if "win x a" "stay b" for x a b
    using that unfolding win_def stay_def by blast
  show ?thesis
  proof (cases "stay r")
    case True
    then have "stay r'" using n(2) ws by blast
    then show ?thesis using True by (simp add: stay_def)
  next
    case False
    then obtain x where x: "win x r" using n(1) by blast
    then obtain y where "win y r'" using n(2) ws by blast
    then show ?thesis using ww x by blast
  qed
qed



lemma newestOf_cong: "set ds' = set ds \<Longrightarrow> newestOf ds' = newestOf ds"
  by (simp add: newestOf_def fun_eq_iff)

text \<open>The two columns that do depend on the order, the task link and the author,
  are never lost once set.\<close>

definition linkedTo :: "string \<Rightarrow> int \<Rightarrow> string \<Rightarrow> db \<Rightarrow> bool" where
  "linkedTo repo number tid d \<longleftrightarrow>
     (\<exists>p. row (prKey repo number) (pull_requests d) = Some p \<and> gp_task p = Some tid)"

definition authorKnown :: "string \<Rightarrow> int \<Rightarrow> db \<Rightarrow> bool" where
  "authorKnown repo number d \<longleftrightarrow>
     (\<exists>p. row (prKey repo number) (pull_requests d) = Some p \<and> gp_author p \<noteq> None)"

lemma deliver_keeps_link:
  assumes "prKey repo number (fst x)" "deliverPR cfg x d = Inr d'"
  shows "linkedTo repo number tid d \<Longrightarrow> linkedTo repo number tid d'"
    "authorKnown repo number d \<Longrightarrow> authorKnown repo number d'"
proof -
  have k: "gp_repo (fst x) = repo" "gp_number (fst x) = number" using assms(1) by (simp_all add: prKey_def)
  have "\<exists>q. row (prKey repo number) (pull_requests d') = Some q \<and>
      (gp_task p \<noteq> None \<longrightarrow> gp_task q = gp_task p) \<and> (gp_author p \<noteq> None \<longrightarrow> gp_author q \<noteq> None)"
    if "row (prKey repo number) (pull_requests d) = Some p" for p
    using that assms(2) k
    by (auto simp: deliverPR_def UpsertPR_def Let_def row_refresh refreshPR_def andThen_Inr_iff split: if_splits)
  then show "linkedTo repo number tid d \<Longrightarrow> linkedTo repo number tid d'"
    "authorKnown repo number d \<Longrightarrow> authorKnown repo number d'"
    unfolding linkedTo_def authorKnown_def by fastforce+
qed

lemma deliveries_keep_link:
  assumes "\<forall>x\<in>set ds. prKey repo number (fst x)" "foldE (deliverPR cfg) ds d = Inr d'"
  shows "linkedTo repo number tid d \<Longrightarrow> linkedTo repo number tid d'"
    "authorKnown repo number d \<Longrightarrow> authorKnown repo number d'"
proof -
  have "(linkedTo repo number tid d \<longrightarrow> linkedTo repo number tid d') \<and>
      (authorKnown repo number d \<longrightarrow> authorKnown repo number d')"
    using assms
  proof (induction ds arbitrary: d)
    case (Cons x ds)
    then obtain d1 where "deliverPR cfg x d = Inr d1" "foldE (deliverPR cfg) ds d1 = Inr d'"
      by (auto simp: andThen_Inr_iff)
    then show ?case using Cons deliver_keeps_link[of repo number x cfg d d1] by simp
  qed simp
  then show "linkedTo repo number tid d \<Longrightarrow> linkedTo repo number tid d'"
    "authorKnown repo number d \<Longrightarrow> authorKnown repo number d'" by blast+
qed

text \<open>C30: whatever the order in which the deliveries of one pull request arrive
  (webhooks are not ordered, and reconcile replays old ones), its row ends with
  the title, state, head and merge commits, url, merge time and clock of a delivery
  whose clock (updated_at) no other's exceeds, or keeps what it held when that is
  newer than all of them; when no two deliveries carry the same clock both orders
  end with the same. The task link, the author and the columns only an insert writes
  (head_ref, opened_at) depend on the order, so they are left out of that; a link or
  an author once set is not lost.\<close>

theorem delivery_order_irrelevant:
  assumes "\<forall>x\<in>set ds. prKey repo number (fst x)" "mset ds' = mset ds"
    and "foldE (deliverPR cfg) ds d = Inr d1" "foldE (deliverPR cfg) ds' d = Inr d2"
  shows "newestOf ds (factsAt repo number d) (factsAt repo number d1) \<and>
     newestOf ds (factsAt repo number d) (factsAt repo number d2) \<and>
     (inj_on (\<lambda>x. gp_updated_at (fst x)) (set ds) \<longrightarrow> factsAt repo number d2 = factsAt repo number d1) \<and>
     (linkedTo repo number tid d \<longrightarrow> linkedTo repo number tid d1 \<and> linkedTo repo number tid d2) \<and>
     (authorKnown repo number d \<longrightarrow> authorKnown repo number d1 \<and> authorKnown repo number d2)"
proof -
  have s: "set ds' = set ds" using assms(2) by (metis set_mset_mset)
  have n2: "newestOf ds' (factsAt repo number d) (factsAt repo number d2)"
    using fold_newestOf deliveries_take[of ds'] assms(1,4) s by metis
  have n1: "newestOf ds (factsAt repo number d) (factsAt repo number d1)"
    using fold_newestOf deliveries_take[OF assms(1,3)] by metis
  have k': "\<forall>x\<in>set ds'. prKey repo number (fst x)" using assms(1) s by simp
  show ?thesis
    using n1 n2 newestOf_unique[OF n1 n2 s] deliveries_keep_link[OF assms(1,3)]
      deliveries_keep_link[OF k' assms(4)]
    unfolding newestOf_cong[OF s] by blast
qed

definition prAt :: "string \<Rightarrow> int option \<Rightarrow> pull_request \<times> string" where
  "prAt st at = (\<lparr> gp_repo = ''r'', gp_number = 7, gp_task = None, gp_state = st, gp_title = ''t'',
     gp_head_ref = ''topic'', gp_head_sha = ''a'', gp_merge_sha = None, gp_url = [], gp_opened_at = None,
     gp_merged_at = None, gp_updated_at = at, gp_author = None, gp_queued_at = None \<rparr>, [])"

definition inOrder :: db where
  "inOrder = projr (foldE (deliverPR noBranches) [prAt ''open'' (Some 1), prAt ''merged'' (Some 2)] emptyDb)"

definition outOfOrder :: db where
  "outOfOrder = projr (foldE (deliverPR noBranches) [prAt ''merged'' (Some 2), prAt ''open'' (Some 1)] emptyDb)"

theorem delivery_order_irrelevant_witness:
  "factsAt ''r'' 7 outOfOrder = factsAt ''r'' 7 inOrder \<and>
   map gp_state (pull_requests outOfOrder) = [''merged'']"
proof -
  let ?ds = "[prAt ''open'' (Some 1), prAt ''merged'' (Some 2)]"
  have "\<forall>x\<in>set ?ds. prKey ''r'' 7 (fst x)" by (simp add: prAt_def prKey_def)
  moreover have "inj_on (\<lambda>x. gp_updated_at (fst x)) (set ?ds)" by (simp add: prAt_def inj_on_def)
  moreover have "mset [prAt ''merged'' (Some 2), prAt ''open'' (Some 1)] = mset ?ds" by simp
  moreover have "\<not> isl (foldE (deliverPR noBranches) ?ds emptyDb)"
    "\<not> isl (foldE (deliverPR noBranches) [prAt ''merged'' (Some 2), prAt ''open'' (Some 1)] emptyDb)"
    by code_simp+
  then have "foldE (deliverPR noBranches) ?ds emptyDb = Inr inOrder"
    "foldE (deliverPR noBranches) [prAt ''merged'' (Some 2), prAt ''open'' (Some 1)] emptyDb = Inr outOfOrder"
    unfolding inOrder_def outOfOrder_def by (metis sum.collapse(2))+
  moreover have "map gp_state (pull_requests outOfOrder) = [''merged'']" by code_simp
  ultimately show ?thesis using delivery_order_irrelevant by blast
qed

section \<open>The bulk readers\<close>

text \<open>Sorting by a key first and grouping is grouping and sorting each
  group.\<close>

lemma filter_insertBy_key:
  assumes agree: "\<And>a b. k a = v \<Longrightarrow> k b = v \<Longrightarrow> c a b \<le> 0 \<longleftrightarrow> c' a b \<le> 0"
    and comp: "comparator c" and sorted: "sorted_wrt (\<lambda>a b. c a b \<le> 0) xs"
  shows "filter (\<lambda>y. k y = v) (insertBy c x xs) =
    (if k x = v then insertBy c' x (filter (\<lambda>y. k y = v) xs) else filter (\<lambda>y. k y = v) xs)"
  using sorted
proof (induction xs)
  case (Cons y ys)
  show ?case
  proof (cases "c x y \<le> 0 \<and> k x = v")
    case True
    have "c x z \<le> 0" if "z \<in> set (y # ys)" for z
      using that True Cons.prems comparator.trans[OF comp, of x y z] by auto
    then have "c' x z \<le> 0" if "z \<in> set (filter (\<lambda>y. k y = v) (y # ys))" for z
      using that agree[of x z] True by (auto split: if_splits)
    then have "insertBy c' x (filter (\<lambda>y. k y = v) (y # ys)) = x # filter (\<lambda>y. k y = v) (y # ys)"
      by (cases "filter (\<lambda>y. k y = v) (y # ys)") auto
    then show ?thesis using True by simp
  next
    case False
    then show ?thesis using Cons agree[of x y] by auto
  qed
qed simp

lemma filter_sortStable_key:
  assumes "\<And>a b. k a = v \<Longrightarrow> k b = v \<Longrightarrow> c a b \<le> 0 \<longleftrightarrow> c' a b \<le> 0" "comparator c"
  shows "filter (\<lambda>y. k y = v) (sortStable c xs) = sortStable c' (filter (\<lambda>y. k y = v) xs)"
proof (induction xs)
  case (Cons x xs)
  have "filter (\<lambda>y. k y = v) (insertBy c x (sortStable c xs)) =
    (if k x = v then insertBy c' x (filter (\<lambda>y. k y = v) (sortStable c xs))
     else filter (\<lambda>y. k y = v) (sortStable c xs))"
  proof (rule filter_insertBy_key)
    show "comparator c" by (rule assms(2))
    show "sorted_wrt (\<lambda>a b. c a b \<le> 0) (sortStable c xs)" by (rule comparator.sorted_sortStable[OF assms(2)])
    show "c a b \<le> 0 \<longleftrightarrow> c' a b \<le> 0" if "k a = v" "k b = v" for a b using that by (rule assms(1))
  qed
  then show ?case using Cons by simp
qed simp

lemma runOrder_tail:
  "comparator (\<lambda>a b. cmpOr [cmpInt (ci_started_at a) (ci_started_at b), cmpInt (ci_id a) (ci_id b)])"
  by (intro comparator_intros)

text \<open>Reading the CI runs of many commits in one query and grouping them
  gives each commit, in the same order, what asking for it alone gives; a commit
  with no runs has no entry.\<close>

theorem bulk_runs_agree:
  assumes "(repo, sha) \<in> set keys"
  shows "CIRunsForSHAs d keys (repo, sha) =
    (if CIRunsForSHA d repo sha = [] then None else Some (CIRunsForSHA d repo sha))"
proof -
  let ?k = "\<lambda>r. (ci_repo r, ci_head_sha r)"
  let ?c = "\<lambda>a b. cmpOr [strCompare (ci_repo a) (ci_repo b), strCompare (ci_head_sha a) (ci_head_sha b),
      cmpInt (ci_started_at a) (ci_started_at b), cmpInt (ci_id a) (ci_id b)]"
  let ?rows = "filter (\<lambda>r. ?k r \<in> set keys) (ci_runs d)"
  have c: "comparator ?c"
    by (rule comparator_cmpOr[OF comparator_key[OF strCmp.comparator_axioms]
          comparator_cmpOr[OF comparator_key[OF strCmp.comparator_axioms] runOrder_tail]])
  have "?c a b \<le> 0 \<longleftrightarrow> runOrder a b \<le> 0" if "?k a = (repo, sha)" "?k b = (repo, sha)" for a b
    using that by (simp add: runOrder_def)
  then have "filter (\<lambda>r. ?k r = (repo, sha)) (sortStable ?c ?rows) =
      sortStable runOrder (filter (\<lambda>r. ?k r = (repo, sha)) ?rows)"
    by (rule filter_sortStable_key[OF _ c])
  moreover have "filter (\<lambda>r. ?k r = (repo, sha)) (filter (\<lambda>r. ?k r \<in> set keys) (ci_runs d)) =
      filter (\<lambda>r. ci_repo r = repo \<and> ci_head_sha r = sha) (ci_runs d)"
    using assms by (auto simp: intro!: filter_cong)
  ultimately show ?thesis
    by (simp add: CIRunsForSHAs_def CIRunsForSHA_def groupFor_def Let_def)
qed

end
