(* ===== verification/BodyLocks.thy ===== *)
theory BodyLocks
  imports ApprovalRules
begin

text \<open>
  The body editor's lock (internal/store/bodylocks.go and the lock routes of
  internal/api/bodylocks.go): one holder at a time on a document, rule or task
  body, through one live session per tab; check-ins, unlocking, the sweep, and
  the checks an editor save runs. now() is a parameter, the random session id
  too. A document's body as GET serves it (its rendering) and SHA-256 in
  hexadecimal are parameters. An operation is one step, except the statement
  that drops locks left with no live session, which is also stated against
  the sessions its snapshot saw.
\<close>

section \<open>Answers\<close>

text \<open>The typed errors carry what the handlers answer with: who holds the lock,
  the stored body, why the session ended and by whom.\<close>

datatype lock_err =
    Store err
  | ErrLockHeld string
  | ErrBodyMoved string
  | ErrLockLost string string string

definition lockIdleAfter :: int where "lockIdleAfter = 3600 * 1000000"
definition lockExpireAfter :: int where "lockExpireAfter = 24 * 3600 * 1000000"

definition checkLockKind :: "string \<Rightarrow> lock_err + unit" where
  "checkLockKind kind =
     (if kind \<in> {''doc'', ''rule'', ''task''} then Inr () else Inl (Store ErrInvalidInput))"

section \<open>Sessions and locks\<close>

abbreviation liveSession :: "lock_session \<Rightarrow> bool" where
  "liveSession s \<equiv> ls_ended_at s = None"

definition sessionOn :: "string \<Rightarrow> string \<Rightarrow> lock_session \<Rightarrow> bool" where
  "sessionOn kind subject s \<longleftrightarrow> ls_kind s = kind \<and> ls_subject s = subject"

definition lockOn :: "string \<Rightarrow> string \<Rightarrow> body_lock \<Rightarrow> bool" where
  "lockOn kind subject l \<longleftrightarrow> bl_kind l = kind \<and> bl_subject l = subject"

definition GetLock :: "db \<Rightarrow> string \<Rightarrow> string \<Rightarrow> lock_err + string option" where
  "GetLock d kind subject =
     andThen (checkLockKind kind) (\<lambda>_.
     Inr (map_option bl_holder (row (lockOn kind subject) (body_locks d))))"

text \<open>The insert's conflict arm matches only the current holder. (In one step
  the lock cannot be released between the refused insert and the read that
  follows it, so the source's retry does not occur.)\<close>

definition TakeLock ::
  "int \<Rightarrow> string \<Rightarrow> string \<Rightarrow> string \<Rightarrow> string \<Rightarrow> db \<Rightarrow> lock_err + db" where
  "TakeLock now session kind subject holder d =
     andThen (checkLockKind kind) (\<lambda>_.
     let refused = (\<exists>l\<in>set (body_locks d). lockOn kind subject l \<and> bl_holder l \<noteq> holder);
         d1 = (if \<exists>l\<in>set (body_locks d). lockOn kind subject l then d
               else d\<lparr>body_locks := body_locks d @
                      [\<lparr>bl_kind = kind, bl_subject = subject, bl_holder = holder\<rparr>]\<rparr>)
     in if refused
        then (case row (lockOn kind subject) (body_locks d) of
                None \<Rightarrow> Inl (Store ErrNotFound) | Some l \<Rightarrow> Inl (ErrLockHeld (bl_holder l)))
        else if session \<in> ls_id ` set (lock_sessions d)
        then Inl (Store (DBError ''body_lock_sessions_pkey''))
        else Inr (d1\<lparr>lock_sessions := lock_sessions d @
               [\<lparr>ls_id = session, ls_kind = kind, ls_subject = subject, ls_holder = holder,
                 ls_dirty = False, ls_last_activity = now, ls_checked_in_at = now, ls_ended_at = None,
                 ls_reason = None, ls_ended_by = None\<rparr>]\<rparr>))"

definition CheckInLock ::
  "int \<Rightarrow> string \<Rightarrow> string \<Rightarrow> string \<Rightarrow> bool \<Rightarrow> int \<Rightarrow> db \<Rightarrow> lock_err + string \<times> db" where
  "CheckInLock now kind subject session dirty lastActivity d =
     andThen (checkLockKind kind) (\<lambda>_.
     let key = (\<lambda>s. ls_id s = session \<and> sessionOn kind subject s) in
     case row (\<lambda>s. key s \<and> liveSession s) (lock_sessions d) of
       Some s \<Rightarrow>
         Inr (ls_holder s, d\<lparr>lock_sessions := updWhere (\<lambda>s. key s \<and> liveSession s)
           (\<lambda>s. s\<lparr>ls_dirty := dirty, ls_last_activity := lastActivity, ls_checked_in_at := now\<rparr>)
           (lock_sessions d)\<rparr>)
     | None \<Rightarrow>
         (case row (\<lambda>s. key s \<and> \<not> liveSession s) (lock_sessions d) of
            None \<Rightarrow> Inl (Store ErrNotFound)
          | Some s \<Rightarrow> andThen (GetLock d kind subject) (\<lambda>cur.
              Inl (ErrLockLost (case ls_reason s of None \<Rightarrow> [] | Some r \<Rightarrow> r)
                     (case ls_ended_by s of None \<Rightarrow> [] | Some b \<Rightarrow> b)
                     (case cur of None \<Rightarrow> [] | Some h \<Rightarrow> h)))))"

text \<open>The delete against the sessions its snapshot holds; run on its own the
  snapshot is the table.\<close>

definition dropLocksUnseen :: "lock_session list \<Rightarrow> (body_lock \<Rightarrow> bool) \<Rightarrow> db \<Rightarrow> db" where
  "dropLocksUnseen seen p d =
     d\<lparr>body_locks := filter (\<lambda>l. \<not> (p l \<and>
         \<not> (\<exists>s\<in>set seen. sessionOn (bl_kind l) (bl_subject l) s \<and> liveSession s))) (body_locks d)\<rparr>"

definition dropEmptyLocks :: "(body_lock \<Rightarrow> bool) \<Rightarrow> db \<Rightarrow> db" where
  "dropEmptyLocks p d = dropLocksUnseen (lock_sessions d) p d"

text \<open>The update of endSessions, and the whole of it.\<close>

definition endLive ::
  "int \<Rightarrow> string \<Rightarrow> string option \<Rightarrow> (lock_session \<Rightarrow> bool) \<Rightarrow> db \<Rightarrow> db" where
  "endLive now reason by_whom p d =
     d\<lparr>lock_sessions := updWhere (\<lambda>s. liveSession s \<and> p s)
         (\<lambda>s. s\<lparr>ls_ended_at := Some now, ls_reason := Some reason, ls_ended_by := by_whom\<rparr>)
         (lock_sessions d)\<rparr>"

definition endSessions ::
  "int \<Rightarrow> string \<Rightarrow> string \<Rightarrow> string \<Rightarrow> string \<Rightarrow> string \<Rightarrow> db \<Rightarrow> db" where
  "endSessions now kind subject reason by_whom session d =
     dropEmptyLocks (lockOn kind subject)
       (endLive now reason (nullText by_whom)
         (\<lambda>s. sessionOn kind subject s \<and> (session = [] \<or> ls_id s = session)) d)"

definition ReleaseLockSession :: "int \<Rightarrow> string \<Rightarrow> string \<Rightarrow> string \<Rightarrow> db \<Rightarrow> lock_err + db" where
  "ReleaseLockSession now kind subject session d =
     andThen (checkLockKind kind) (\<lambda>_. Inr (endSessions now kind subject ''released'' [] session d))"

definition UnlockBody :: "int \<Rightarrow> string \<Rightarrow> string \<Rightarrow> string \<Rightarrow> db \<Rightarrow> lock_err + db" where
  "UnlockBody now kind subject by_whom d =
     andThen (checkLockKind kind) (\<lambda>_. Inr (endSessions now kind subject ''unlocked'' by_whom [] d))"

definition idleSession :: "int \<Rightarrow> lock_session \<Rightarrow> bool" where
  "idleSession now s \<longleftrightarrow> \<not> ls_dirty s \<and> ls_last_activity s < now - lockIdleAfter"

definition silentSession :: "int \<Rightarrow> lock_session \<Rightarrow> bool" where
  "silentSession now s \<longleftrightarrow> ls_checked_in_at s < now - lockExpireAfter"

definition countLive :: "(lock_session \<Rightarrow> bool) \<Rightarrow> db \<Rightarrow> nat" where
  "countLive p d = length (filter (\<lambda>s. liveSession s \<and> p s) (lock_sessions d))"

definition SweepLocks :: "int \<Rightarrow> db \<Rightarrow> (nat \<times> nat) \<times> db" where
  "SweepLocks now d =
     (let d1 = endLive now ''inactive'' None (idleSession now) d;
          d2 = endLive now ''expired'' None (silentSession now) d1
      in ((countLive (idleSession now) d, countLive (silentSession now) d1),
          dropEmptyLocks (\<lambda>_. True) d2))"

section \<open>Saving\<close>

text \<open>The subject's canonical id, and who may unlock it.\<close>

definition canonicalID :: "string \<Rightarrow> int option" where
  "canonicalID subject =
     (case atoi subject of None \<Rightarrow> None | Some n \<Rightarrow> if intStr n = subject then Some n else None)"

definition LockSubjectOwner :: "db \<Rightarrow> string \<Rightarrow> string \<Rightarrow> lock_err + string" where
  "LockSubjectOwner d kind subject =
     (if kind = ''doc'' \<or> kind = ''rule'' then
        (case canonicalID subject of
           None \<Rightarrow> Inl (Store ErrNotFound)
         | Some n \<Rightarrow>
             if kind = ''doc''
             then (case docRow d n of None \<Rightarrow> Inl (Store ErrNotFound)
                   | Some x \<Rightarrow> Inr (case d_owner x of None \<Rightarrow> [] | Some w \<Rightarrow> w))
             else if n \<notin> fst ` set (rules d) then Inl (Store ErrNotFound)
             else Inr (case map_of (rule_owners d) n of None \<Rightarrow> [] | Some w \<Rightarrow> w))
      else if kind = ''task'' then
        (case taskRow d subject of None \<Rightarrow> Inl (Store ErrNotFound)
         | Some t \<Rightarrow> Inr (case t_assignee t of None \<Rightarrow> [] | Some w \<Rightarrow> w))
      else andThen (checkLockKind kind) (\<lambda>_. Inr []))"

definition lockedBody ::
  "(db \<Rightarrow> int \<Rightarrow> string) \<Rightarrow> db \<Rightarrow> string \<Rightarrow> string \<Rightarrow> lock_err + string" where
  "lockedBody rendered d kind subject =
     (if kind = ''doc'' then
        (case atoi subject of
           None \<Rightarrow> Inl (Store ErrNotFound)
         | Some n \<Rightarrow> if docRow d n = None then Inl (Store ErrNotFound) else Inr (rendered d n))
      else if kind = ''rule'' then
        (case atoi subject of
           None \<Rightarrow> Inl (Store (DBError ''invalid input syntax''))
         | Some n \<Rightarrow>
             (case row (\<lambda>(i, _). i = n) (rules d) of
                None \<Rightarrow> Inl (Store ErrNotFound)
              | Some (_, v) \<Rightarrow>
                  (case row (\<lambda>w. rw_rule w = n \<and> rw_version w = v) (rule_versions d) of
                     None \<Rightarrow> Inl (Store ErrNotFound) | Some w \<Rightarrow> Inr (rw_body w))))
      else if kind = ''task'' then
        (case taskRow d subject of None \<Rightarrow> Inl (Store ErrNotFound) | Some t \<Rightarrow> Inr (t_body t))
      else andThen (checkLockKind kind) (\<lambda>_. Inr []))"

definition CheckBodySave ::
  "(db \<Rightarrow> int \<Rightarrow> string) \<Rightarrow> (string \<Rightarrow> string) \<Rightarrow> db \<Rightarrow> string \<Rightarrow> string \<Rightarrow> string \<Rightarrow> string \<Rightarrow>
     lock_err + unit" where
  "CheckBodySave rendered sha256 d kind subject lockSession ifBodySHA256 =
     (if lockSession = [] \<and> ifBodySHA256 = [] then Inr ()
      else
        andThen (lockedBody rendered d kind subject) (\<lambda>body.
        if lockSession \<noteq> [] \<and>
           \<not> (\<exists>s\<in>set (lock_sessions d). ls_id s = lockSession \<and> sessionOn kind subject s \<and> liveSession s)
        then Inl (ErrLockHeld (case row (lockOn kind subject) (body_locks d) of
                    None \<Rightarrow> [] | Some l \<Rightarrow> bl_holder l))
        else if ifBodySHA256 \<noteq> [] \<and> \<not> EqualFold (sha256 body) ifBodySHA256
        then Inl (ErrBodyMoved body)
        else Inr ()))"

section \<open>The routes\<close>

text \<open>The caller: the signed-in actor and whether the role grants the write
  permission of the kind and unlocking as an admin.\<close>

record lock_caller =
  lc_actor :: string
  lc_may_write :: "string \<Rightarrow> bool"
  lc_admin :: bool

definition canUnlock :: "lock_caller \<Rightarrow> string \<Rightarrow> bool" where
  "canUnlock c owner \<longleftrightarrow> lc_admin c \<or> (owner \<noteq> [] \<and> lc_actor c = owner)"

text \<open>Not found, forbidden and unprocessable by their status codes; other store
  errors as the store returned them.\<close>

datatype route_err = Status nat | Failed lock_err

definition lockSubject :: "db \<Rightarrow> lock_caller \<Rightarrow> string \<Rightarrow> string \<Rightarrow> route_err + string" where
  "lockSubject d c kind subject =
     (if kind \<notin> {''doc'', ''rule'', ''task''} then Inl (Status 404)
      else if \<not> lc_may_write c kind then Inl (Status 403)
      else if lc_actor c = [] then Inl (Status 403)
      else case LockSubjectOwner d kind subject of
             Inl e \<Rightarrow> Inl (Failed e) | Inr owner \<Rightarrow> Inr owner)"

definition liftLock :: "lock_err + 'a \<Rightarrow> route_err + 'a" where
  "liftLock r = (case r of Inl e \<Rightarrow> Inl (Failed e) | Inr x \<Rightarrow> Inr x)"

definition takeLock :: "int \<Rightarrow> string \<Rightarrow> lock_caller \<Rightarrow> string \<Rightarrow> string \<Rightarrow> db \<Rightarrow> route_err + db" where
  "takeLock now session c kind subject d =
     andThen (lockSubject d c kind subject) (\<lambda>_.
     liftLock (TakeLock now session kind subject (lc_actor c) d))"

definition checkInLock ::
  "int \<Rightarrow> lock_caller \<Rightarrow> string \<Rightarrow> string \<Rightarrow> string \<Rightarrow> bool \<Rightarrow> int \<Rightarrow> db \<Rightarrow> route_err + db" where
  "checkInLock now c kind subject session dirty lastActivity d =
     andThen (lockSubject d c kind subject) (\<lambda>_.
     andThen (liftLock (CheckInLock now kind subject session dirty lastActivity d)) (\<lambda>(_, d'). Inr d'))"

definition releaseLock :: "int \<Rightarrow> lock_caller \<Rightarrow> string \<Rightarrow> string \<Rightarrow> string \<Rightarrow> db \<Rightarrow> route_err + db" where
  "releaseLock now c kind subject session d =
     andThen (lockSubject d c kind subject) (\<lambda>_.
     if session = [] then Inl (Status 422)
     else liftLock (ReleaseLockSession now kind subject session d))"

definition unlockBody :: "int \<Rightarrow> lock_caller \<Rightarrow> string \<Rightarrow> string \<Rightarrow> db \<Rightarrow> route_err + db" where
  "unlockBody now c kind subject d =
     andThen (lockSubject d c kind subject) (\<lambda>owner.
     if \<not> canUnlock c owner then Inl (Status 403)
     else liftLock (UnlockBody now kind subject (lc_actor c) d))"

end
