(* ===== verification/LockSpec.thy ===== *)
theory LockSpec
  imports BodyLocks Samples
begin

text \<open>
  What the body lock promises: a lock row for exactly the subjects with a live
  session, one holder for all of them, whatever sequence of operations ran; a
  save that passes is the holder's, on the text it read; the sweep ends what is
  idle or silent and nothing else. And the interleaving that breaks it.
\<close>

section \<open>The invariant\<close>

definition lockKey :: "body_lock \<Rightarrow> string \<times> string" where
  "lockKey l = (bl_kind l, bl_subject l)"

definition heldBySession :: "db \<Rightarrow> lock_session \<Rightarrow> bool" where
  "heldBySession d s \<longleftrightarrow> (\<exists>l\<in>set (body_locks d). lockOn (ls_kind s) (ls_subject s) l \<and> bl_holder l = ls_holder s)"

definition hasSession :: "db \<Rightarrow> body_lock \<Rightarrow> bool" where
  "hasSession d l \<longleftrightarrow> (\<exists>s\<in>set (lock_sessions d). sessionOn (bl_kind l) (bl_subject l) s \<and> liveSession s)"

definition locksOk :: "db \<Rightarrow> bool" where
  "locksOk d \<longleftrightarrow> distinct (map lockKey (body_locks d)) \<and> distinct (map ls_id (lock_sessions d)) \<and>
     (\<forall>s\<in>set (lock_sessions d). liveSession s \<longrightarrow> heldBySession d s) \<and>
     (\<forall>l\<in>set (body_locks d). hasSession d l)"

lemma locksOkD:
  assumes "locksOk d"
  shows "distinct (map lockKey (body_locks d))" "distinct (map ls_id (lock_sessions d))"
    "s \<in> set (lock_sessions d) \<Longrightarrow> liveSession s \<Longrightarrow> heldBySession d s"
    "l \<in> set (body_locks d) \<Longrightarrow> hasSession d l"
  using assms unfolding locksOk_def by blast+

lemma locksOk_one:
  assumes "locksOk d" "l \<in> set (body_locks d)" "m \<in> set (body_locks d)" "lockOn k i l" "lockOn k i m"
  shows "l = m"
  using distinct_map_inj[OF locksOkD(1)[OF assms(1)] assms(2,3)] assms(4,5)
  by (simp add: lockKey_def lockOn_def)

lemma takeLock_ok:
  assumes "locksOk d" "TakeLock now session kind subject holder d = Inr d'"
  shows "locksOk d'"
proof -
  let ?s = "\<lparr>ls_id = session, ls_kind = kind, ls_subject = subject, ls_holder = holder,
     ls_dirty = False, ls_last_activity = now, ls_checked_in_at = now, ls_ended_at = None,
     ls_reason = None, ls_ended_by = None\<rparr>"
  let ?locks = "if \<exists>l\<in>set (body_locks d). lockOn kind subject l then body_locks d
     else body_locks d @ [\<lparr>bl_kind = kind, bl_subject = subject, bl_holder = holder\<rparr>]"
  have none: "\<And>l. l \<in> set (body_locks d) \<Longrightarrow> lockOn kind subject l \<Longrightarrow> bl_holder l = holder"
    and fresh: "session \<notin> ls_id ` set (lock_sessions d)"
    and d': "body_locks d' = ?locks" "lock_sessions d' = lock_sessions d @ [?s]"
    using assms(2) by (auto simp: TakeLock_def Let_def andThen_Inr_iff split: if_splits option.splits)
  have sub: "set (body_locks d) \<subseteq> set (body_locks d')" "set (lock_sessions d) \<subseteq> set (lock_sessions d')"
    using d' by auto
  have new: "\<exists>l\<in>set (body_locks d'). lockOn kind subject l \<and> bl_holder l = holder"
    using none d'(1) by (auto simp: lockOn_def)
  have "distinct (map lockKey (body_locks d'))"
    using locksOkD(1)[OF assms(1)] d'(1) by (auto simp: lockKey_def lockOn_def)
  moreover have "distinct (map ls_id (lock_sessions d'))"
    using locksOkD(2)[OF assms(1)] d'(2) fresh by simp
  moreover have "heldBySession d' s" if "s \<in> set (lock_sessions d')" "liveSession s" for s
    using that locksOkD(3)[OF assms(1), of s] sub(1) new d'(2) unfolding heldBySession_def by auto
  moreover have "hasSession d' l" if "l \<in> set (body_locks d')" for l
  proof (cases "l \<in> set (body_locks d)")
    case True
    then show ?thesis using locksOkD(4)[OF assms(1)] sub(2) unfolding hasSession_def by blast
  next
    case False
    then have "lockOn kind subject l" using that d'(1) by (auto simp: lockOn_def split: if_splits)
    then show ?thesis using d'(2) unfolding hasSession_def by (auto simp: sessionOn_def lockOn_def)
  qed
  ultimately show ?thesis unfolding locksOk_def by blast
qed

text \<open>Rewriting sessions in place without touching who and where they are.\<close>

lemma sessions_rewrite:
  assumes "locksOk d" "body_locks d' = body_locks d" "lock_sessions d' = map f (lock_sessions d)"
    and "\<And>s. ls_id (f s) = ls_id s \<and> ls_kind (f s) = ls_kind s \<and> ls_subject (f s) = ls_subject s \<and>
          ls_holder (f s) = ls_holder s"
    and "\<And>s. liveSession (f s) \<Longrightarrow> liveSession s"
  shows "distinct (map lockKey (body_locks d'))" "distinct (map ls_id (lock_sessions d'))"
    "s \<in> set (lock_sessions d') \<Longrightarrow> liveSession s \<Longrightarrow> heldBySession d' s"
proof -
  show "distinct (map lockKey (body_locks d'))" using assms(1,2) by (simp add: locksOkD)
  have "map ls_id (lock_sessions d') = map ls_id (lock_sessions d)" using assms(3,4) by simp
  then show "distinct (map ls_id (lock_sessions d'))" using assms(1) by (simp add: locksOkD)
  assume s: "s \<in> set (lock_sessions d')" "liveSession s"
  then obtain t where t: "t \<in> set (lock_sessions d)" "s = f t" using assms(3) by auto
  then have "heldBySession d t" using s(2) assms(5) locksOkD(3)[OF assms(1)] by blast
  then show "heldBySession d' s" using t(2) assms(2,4) by (simp add: heldBySession_def)
qed

lemma checkIn_ok:
  assumes "locksOk d" "CheckInLock now kind subject session dirty act d = Inr (h, d')"
  shows "locksOk d'"
proof -
  let ?p = "\<lambda>s. (ls_id s = session \<and> sessionOn kind subject s) \<and> liveSession s"
  let ?f = "\<lambda>s. if ?p s then s\<lparr>ls_dirty := dirty, ls_last_activity := act, ls_checked_in_at := now\<rparr> else s"
  have d': "body_locks d' = body_locks d" "lock_sessions d' = map ?f (lock_sessions d)"
    using assms(2)
    by (auto simp: CheckInLock_def Let_def andThen_Inr_iff updWhere_def split: option.splits)
  have same: "ls_id (?f s) = ls_id s \<and> ls_kind (?f s) = ls_kind s \<and> ls_subject (?f s) = ls_subject s \<and>
      ls_holder (?f s) = ls_holder s" "liveSession (?f s) = liveSession s" for s by simp_all
  note r = sessions_rewrite[OF assms(1) d' same(1)]
  have "hasSession d' l" if l: "l \<in> set (body_locks d')" for l
  proof -
    obtain s where s: "s \<in> set (lock_sessions d)" "sessionOn (bl_kind l) (bl_subject l) s" "liveSession s"
      using locksOkD(4)[OF assms(1)] l d'(1) unfolding hasSession_def by auto
    have "sessionOn (bl_kind l) (bl_subject l) (?f s)" "liveSession (?f s)"
      using s(2,3) by (simp_all add: sessionOn_def)
    moreover have "?f s \<in> set (lock_sessions d')"
      unfolding d'(2) set_map by (rule imageI[OF s(1)])
    ultimately show ?thesis unfolding hasSession_def by blast
  qed
  then show ?thesis using r same(2) unfolding locksOk_def by blast
qed

text \<open>Ending sessions and dropping the locks left empty.\<close>

lemma endLive_map:
  "lock_sessions (endLive now reason b p d) = map (\<lambda>s. if liveSession s \<and> p s
     then s\<lparr>ls_ended_at := Some now, ls_reason := Some reason, ls_ended_by := b\<rparr> else s) (lock_sessions d)"
  "body_locks (endLive now reason b p d) = body_locks d"
  by (simp_all add: endLive_def updWhere_def)

text \<open>What holds between the update and the delete: everything but that each
  lock has a session, which may fail only for the locks the delete covers.\<close>

definition almostOk :: "(body_lock \<Rightarrow> bool) \<Rightarrow> db \<Rightarrow> bool" where
  "almostOk p d \<longleftrightarrow> distinct (map lockKey (body_locks d)) \<and> distinct (map ls_id (lock_sessions d)) \<and>
     (\<forall>s\<in>set (lock_sessions d). liveSession s \<longrightarrow> heldBySession d s) \<and>
     (\<forall>l\<in>set (body_locks d). \<not> p l \<longrightarrow> hasSession d l)"

lemma endLive_almost:
  assumes "almostOk q d" "\<And>s l. p s \<Longrightarrow> sessionOn (bl_kind l) (bl_subject l) s \<Longrightarrow> q l"
  shows "almostOk q (endLive now reason b p d)"
proof -
  let ?f = "\<lambda>s. if liveSession s \<and> p s
     then s\<lparr>ls_ended_at := Some now, ls_reason := Some reason, ls_ended_by := b\<rparr> else s"
  let ?d = "endLive now reason b p d"
  have same: "ls_id (?f s) = ls_id s" "ls_kind (?f s) = ls_kind s" "ls_subject (?f s) = ls_subject s"
     "ls_holder (?f s) = ls_holder s" for s by simp_all
  have e: "map ls_id (lock_sessions ?d) = map ls_id (lock_sessions d)"
    unfolding endLive_map map_map by (rule map_cong) simp_all
  have ids: "distinct (map ls_id (lock_sessions ?d))" "distinct (map lockKey (body_locks ?d))"
    using assms(1) unfolding almostOk_def e endLive_map(2) by blast+
  have "heldBySession ?d s" if s: "s \<in> set (lock_sessions ?d)" "liveSession s" for s
  proof -
    obtain t where t: "t \<in> set (lock_sessions d)" "s = ?f t" using s(1) unfolding endLive_map by auto
    then have "liveSession t" using s(2) by (auto split: if_splits)
    then have "heldBySession d t" using assms(1) t(1) unfolding almostOk_def by blast
    then show ?thesis unfolding t(2) heldBySession_def endLive_map same .
  qed
  moreover have "hasSession ?d l" if l: "l \<in> set (body_locks ?d)" "\<not> q l" for l
  proof -
    obtain s where s: "s \<in> set (lock_sessions d)" "sessionOn (bl_kind l) (bl_subject l) s" "liveSession s"
      using assms(1) l unfolding almostOk_def hasSession_def endLive_map by blast
    then have "\<not> p s" using assms(2) l(2) by blast
    then have "?f s = s" by simp
    moreover have "?f s \<in> set (lock_sessions ?d)" unfolding endLive_map set_map by (rule imageI[OF s(1)])
    ultimately have "s \<in> set (lock_sessions ?d)" by metis
    then show ?thesis using s unfolding hasSession_def by blast
  qed
  ultimately show ?thesis using ids unfolding almostOk_def by blast
qed

lemma drop_ok:
  assumes "almostOk p d"
  shows "locksOk (dropEmptyLocks p d)"
proof -
  let ?d = "dropEmptyLocks p d"
  have m: "lock_sessions ?d = lock_sessions d"
    "body_locks ?d = filter (\<lambda>l. \<not> (p l \<and> \<not> hasSession d l)) (body_locks d)"
    by (simp_all add: dropEmptyLocks_def dropLocksUnseen_def hasSession_def)
  have "distinct (map lockKey (body_locks ?d))" using assms unfolding almostOk_def m by (simp add: distinct_map_filter)
  moreover have "heldBySession ?d s" if s: "s \<in> set (lock_sessions ?d)" "liveSession s" for s
  proof -
    obtain l where l: "l \<in> set (body_locks d)" "lockOn (ls_kind s) (ls_subject s) l" "bl_holder l = ls_holder s"
      using assms s unfolding almostOk_def heldBySession_def m by blast
    have "hasSession d l" using s l(2) unfolding hasSession_def m sessionOn_def lockOn_def by auto
    then show ?thesis using l unfolding heldBySession_def m by auto
  qed
  moreover have "hasSession ?d l" if "l \<in> set (body_locks ?d)" for l
    using that assms unfolding almostOk_def hasSession_def m by auto
  ultimately show ?thesis using assms unfolding almostOk_def locksOk_def m by blast
qed

lemma locksOk_almost: "locksOk d \<Longrightarrow> almostOk p d"
  unfolding locksOk_def almostOk_def by blast

lemma endSessions_ok: "locksOk d \<Longrightarrow> locksOk (endSessions now kind subject reason b session d)"
  unfolding endSessions_def
  by (rule drop_ok, rule endLive_almost[OF locksOk_almost]) (auto simp: sessionOn_def lockOn_def)

lemma sweep_ok: "locksOk d \<Longrightarrow> locksOk (snd (SweepLocks now d))"
  unfolding SweepLocks_def Let_def snd_conv
  by (intro drop_ok endLive_almost locksOk_almost) simp_all

section \<open>Every run\<close>

text \<open>One operation on the locks; the other tables may change in any way.\<close>

inductive lockStep :: "db \<Rightarrow> db \<Rightarrow> bool" where
  take_step: "TakeLock now session kind subject holder d = Inr d' \<Longrightarrow> lockStep d d'"
| check_step: "CheckInLock now kind subject session dirty act d = Inr (h, d') \<Longrightarrow> lockStep d d'"
| release_step: "ReleaseLockSession now kind subject session d = Inr d' \<Longrightarrow> lockStep d d'"
| unlock_step: "UnlockBody now kind subject b d = Inr d' \<Longrightarrow> lockStep d d'"
| sweep_step: "SweepLocks now d = (n, d') \<Longrightarrow> lockStep d d'"
| other_step: "body_locks d' = body_locks d \<Longrightarrow> lock_sessions d' = lock_sessions d \<Longrightarrow> lockStep d d'"

lemma lockStep_ok: "lockStep d d' \<Longrightarrow> locksOk d \<Longrightarrow> locksOk d'"
proof (induction rule: lockStep.induct)
  case (release_step now kind subject session d d')
  then show ?case by (auto simp: ReleaseLockSession_def andThen_Inr_iff intro: endSessions_ok)
next
  case (unlock_step now kind subject b d d')
  then show ?case by (auto simp: UnlockBody_def andThen_Inr_iff intro: endSessions_ok)
next
  case (sweep_step now d n d')
  then show ?case using sweep_ok[of d now] by simp
next
  case (other_step d' d)
  then show ?case by (simp add: locksOk_def heldBySession_def hasSession_def)
qed (blast intro: takeLock_ok checkIn_ok)+

inductive lockRun :: "db \<Rightarrow> db \<Rightarrow> bool" where
  run_done: "lockRun d d"
| run_step: "lockRun d d1 \<Longrightarrow> lockStep d1 d2 \<Longrightarrow> lockRun d d2"

lemma lockRun_ok: "lockRun d d' \<Longrightarrow> locksOk d \<Longrightarrow> locksOk d'"
  by (induction rule: lockRun.induct) (auto intro: lockStep_ok)



text \<open>C28: whatever sequence of takes, check-ins, releases, unlocks and sweeps
  runs from a database without locks, all live sessions of a body belong to one
  actor, who is the one the lock names, and a body without a live session has no
  lock.\<close>

theorem one_editor:
  assumes "body_locks d = []" "lock_sessions d = []" "lockRun d d'"
    and "s \<in> set (lock_sessions d')" "ls_ended_at s = None" "sessionOn kind subject s"
    and "t \<in> set (lock_sessions d')" "ls_ended_at t = None" "sessionOn kind subject t"
  shows "ls_holder s = ls_holder t \<and> GetLock d' kind subject = andThen (checkLockKind kind) (\<lambda>_. Inr (Some (ls_holder s)))"
proof -
  have ok: "locksOk d'" using lockRun_ok[OF assms(3)] assms(1,2) by (simp add: locksOk_def)
  obtain l where l: "l \<in> set (body_locks d')" "lockOn kind subject l" "bl_holder l = ls_holder s"
    using locksOkD(3)[OF ok assms(4,5)] assms(6) by (auto simp: heldBySession_def sessionOn_def)
  obtain m where m: "m \<in> set (body_locks d')" "lockOn kind subject m" "bl_holder m = ls_holder t"
    using locksOkD(3)[OF ok assms(7,8)] assms(9) by (auto simp: heldBySession_def sessionOn_def)
  have "l = m" by (rule locksOk_one[OF ok l(1) m(1) l(2) m(2)])
  moreover obtain x where x: "row (lockOn kind subject) (body_locks d') = Some x"
    using l(1,2) by (cases "row (lockOn kind subject) (body_locks d')") (auto simp: row_None_iff)
  moreover have "x = l" using row_SomeD[OF x] locksOk_one[OF ok _ l(1) _ l(2)] by blast
  ultimately show ?thesis using l m by (simp add: GetLock_def)
qed

definition oneTab :: db where
  "oneTab = projr (TakeLock 5 ''s1'' ''task'' ''WL-1'' ''ada'' (sampleDb [sampleTask ''WL-1'' ''feature'' ''ready''] []))"

definition adaTab :: "string \<Rightarrow> lock_session" where
  "adaTab i = \<lparr>ls_id = i, ls_kind = ''task'', ls_subject = ''WL-1'', ls_holder = ''ada'',
     ls_dirty = False, ls_last_activity = 5, ls_checked_in_at = 5, ls_ended_at = None,
     ls_reason = None, ls_ended_by = None\<rparr>"

lemma oneTab_eval:
  "TakeLock 5 ''s1'' ''task'' ''WL-1'' ''ada'' (sampleDb [sampleTask ''WL-1'' ''feature'' ''ready''] []) = Inr oneTab"
  "lock_sessions oneTab = [adaTab ''s1'']"
proof -
  have "\<not> isl (TakeLock 5 ''s1'' ''task'' ''WL-1'' ''ada'' (sampleDb [sampleTask ''WL-1'' ''feature'' ''ready''] []))"
    by code_simp
  then show "TakeLock 5 ''s1'' ''task'' ''WL-1'' ''ada'' (sampleDb [sampleTask ''WL-1'' ''feature'' ''ready''] []) = Inr oneTab"
    unfolding oneTab_def by (metis sum.collapse(2))
  show "lock_sessions oneTab = [adaTab ''s1'']" by code_simp
qed

theorem one_editor_witness:
  "GetLock oneTab ''task'' ''WL-1'' = andThen (checkLockKind ''task'') (\<lambda>_. Inr (Some ''ada''))"
proof -
  let ?d = "sampleDb [sampleTask ''WL-1'' ''feature'' ''ready''] []"
  have none: "body_locks ?d = []" "lock_sessions ?d = []" by code_simp+
  have run: "lockRun ?d oneTab" by (rule run_step[OF run_done take_step[OF oneTab_eval(1)]])
  have s: "adaTab ''s1'' \<in> set (lock_sessions oneTab)" by (simp add: oneTab_eval(2))
  have p: "ls_ended_at (adaTab ''s1'') = None" "sessionOn ''task'' ''WL-1'' (adaTab ''s1'')"
    "ls_holder (adaTab ''s1'') = ''ada''"
    by (simp_all add: adaTab_def sessionOn_def)
  show ?thesis using one_editor[OF none run s p(1,2) s p(1,2)] p(3) by simp
qed

section \<open>Saving\<close>



text \<open>An editor save that names its session and the hash of the text it
  edited passes only for the lock's holder on that very text: the session is live
  on the body, its holder is the one the lock names, no other actor has a live
  session there, and the stored body has the hash.\<close>

theorem accepted_save:
  assumes "locksOk d" "CheckBodySave rendered sha256 d kind subject session hash = Inr ()"
    and "session \<noteq> []" "hash \<noteq> []"
  shows "\<exists>s\<in>set (lock_sessions d). ls_id s = session \<and> ls_ended_at s = None \<and> sessionOn kind subject s \<and>
     (\<exists>l\<in>set (body_locks d). lockOn kind subject l \<and> bl_holder l = ls_holder s) \<and>
     (\<forall>t\<in>set (lock_sessions d). sessionOn kind subject t \<and> ls_ended_at t = None \<longrightarrow> ls_holder t = ls_holder s) \<and>
     (\<exists>body. lockedBody rendered d kind subject = Inr body \<and> EqualFold (sha256 body) hash)"
proof -
  obtain body where b: "lockedBody rendered d kind subject = Inr body"
    using assms(2,3) by (auto simp: CheckBodySave_def andThen_Inr_iff)
  obtain s where s: "s \<in> set (lock_sessions d)" "ls_id s = session" "sessionOn kind subject s" "liveSession s"
    and h: "EqualFold (sha256 body) hash"
    using assms(2-4) b by (auto simp: CheckBodySave_def split: if_splits)
  have on: "lockOn (ls_kind t) (ls_subject t) l = lockOn kind subject l" if "sessionOn kind subject t" for t l
    using that by (simp add: sessionOn_def)
  obtain l where l: "l \<in> set (body_locks d)" "lockOn kind subject l" "bl_holder l = ls_holder s"
    using locksOkD(3)[OF assms(1) s(1,4)] on[OF s(3)] unfolding heldBySession_def by blast
  have "ls_holder t = ls_holder s" if t: "t \<in> set (lock_sessions d)" "sessionOn kind subject t" "liveSession t" for t
  proof -
    obtain m where m: "m \<in> set (body_locks d)" "lockOn kind subject m" "bl_holder m = ls_holder t"
      using locksOkD(3)[OF assms(1) t(1,3)] on[OF t(2)] unfolding heldBySession_def by blast
    then show ?thesis using locksOk_one[OF assms(1) m(1) l(1) m(2) l(2)] l(3) by simp
  qed
  then show ?thesis using s l b h by blast
qed

lemma oneTab_ok: "locksOk oneTab"
proof (rule takeLock_ok[OF _ oneTab_eval(1)])
  show "locksOk (sampleDb [sampleTask ''WL-1'' ''feature'' ''ready''] [])" by code_simp
qed

theorem accepted_save_witness:
  "\<exists>s\<in>set (lock_sessions oneTab). ls_id s = ''s1'' \<and> ls_ended_at s = None \<and> ls_holder s = ''ada''"
proof -
  have "CheckBodySave (\<lambda>_ _. []) (\<lambda>_. ''2ab'') oneTab ''task'' ''WL-1'' ''s1'' ''2AB'' = Inr ()" by code_simp
  then have "\<exists>s\<in>set (lock_sessions oneTab). ls_id s = ''s1'' \<and> ls_ended_at s = None"
    using accepted_save[OF oneTab_ok] by blast
  then show ?thesis by (simp add: oneTab_eval(2) adaTab_def)
qed

section \<open>The sweep\<close>

lemma live_endLive:
  "filter (\<lambda>s. liveSession s \<and> q s) (lock_sessions (endLive now reason b p d)) =
     filter (\<lambda>s. liveSession s \<and> \<not> p s \<and> q s) (lock_sessions d)"
proof -
  have "filter (\<lambda>s. liveSession s \<and> q s) (map (\<lambda>s. if liveSession s \<and> p s
      then s\<lparr>ls_ended_at := Some now, ls_reason := Some reason, ls_ended_by := b\<rparr> else s) xs) =
    filter (\<lambda>s. liveSession s \<and> \<not> p s \<and> q s) xs" for xs
    by (induction xs) auto
  then show ?thesis unfolding endLive_map .
qed

lemma split_count:
  "length (filter (\<lambda>s. liveSession s \<and> p s) xs) + length (filter (\<lambda>s. liveSession s \<and> \<not> p s) xs) =
     length (filter liveSession xs)"
  by (induction xs) auto

definition keptSession :: "int \<Rightarrow> lock_session \<Rightarrow> bool" where
  "keptSession now s \<longleftrightarrow> liveSession s \<and> \<not> idleSession now s \<and> \<not> silentSession now s"



text \<open>The sweep ends exactly the live sessions that are idle without
  unsaved changes or silent for a day, counts each once, and leaves a lock on
  exactly the bodies that still have a session.\<close>

theorem sweep_ends_stale:
  assumes "SweepLocks now d = ((inactive, expired), d')"
  shows "filter (\<lambda>s. ls_ended_at s = None) (lock_sessions d') = filter (keptSession now) (lock_sessions d) \<and>
     inactive + expired + length (filter (keptSession now) (lock_sessions d)) =
       length (filter (\<lambda>s. ls_ended_at s = None) (lock_sessions d)) \<and>
     body_locks d' = filter (\<lambda>l. \<exists>s\<in>set (lock_sessions d).
         sessionOn (bl_kind l) (bl_subject l) s \<and> keptSession now s) (body_locks d)"
proof -
  let ?d1 = "endLive now ''inactive'' None (idleSession now) d"
  let ?d2 = "endLive now ''expired'' None (silentSession now) ?d1"
  have d: "inactive = countLive (idleSession now) d" "expired = countLive (silentSession now) ?d1"
    "d' = dropEmptyLocks (\<lambda>_. True) ?d2"
    using assms by (simp_all add: SweepLocks_def Let_def)
  have kept: "filter (\<lambda>s. liveSession s \<and> q s) (lock_sessions ?d2) =
      filter (\<lambda>s. keptSession now s \<and> q s) (lock_sessions d)" for q
    unfolding live_endLive by (simp add: keptSession_def conj_assoc)
  have one: "filter liveSession (lock_sessions d') = filter (keptSession now) (lock_sessions d)"
    using kept[of "\<lambda>_. True"] d(3) by (simp add: dropEmptyLocks_def dropLocksUnseen_def)
  have two: "expired + length (filter (keptSession now) (lock_sessions d)) =
      length (filter (\<lambda>s. liveSession s \<and> \<not> idleSession now s) (lock_sessions d))"
    using split_count[of "silentSession now" "filter (\<lambda>s. liveSession s \<and> \<not> idleSession now s) (lock_sessions d)"]
      live_endLive[of "silentSession now" now "''inactive''" None "idleSession now" d]
    unfolding d(2) countLive_def keptSession_def by (simp add: conj_ac)
  have three: "inactive + length (filter (\<lambda>s. liveSession s \<and> \<not> idleSession now s) (lock_sessions d)) =
      length (filter liveSession (lock_sessions d))"
    using split_count[of "idleSession now" "lock_sessions d"] unfolding d(1) countLive_def .
  have "(\<exists>s\<in>set (lock_sessions ?d2). sessionOn k i s \<and> liveSession s) \<longleftrightarrow>
      (\<exists>s\<in>set (lock_sessions d). sessionOn k i s \<and> keptSession now s)" for k i
    using arg_cong[OF kept[of "sessionOn k i"], of set] by (auto simp: set_eq_iff)
  then have "body_locks d' = filter (\<lambda>l. \<exists>s\<in>set (lock_sessions d).
         sessionOn (bl_kind l) (bl_subject l) s \<and> keptSession now s) (body_locks d)"
    unfolding d(3) dropEmptyLocks_def dropLocksUnseen_def by (simp add: endLive_map(2))
  then show ?thesis using one two three by simp
qed

definition swept :: "(nat \<times> nat) \<times> db" where
  "swept = SweepLocks (2 * lockIdleAfter) oneTab"

theorem sweep_ends_stale_witness:
  "filter (\<lambda>s. ls_ended_at s = None) (lock_sessions (snd swept)) = [] \<and> body_locks (snd swept) = [] \<and>
   fst (fst swept) + snd (fst swept) = 1"
proof -
  have s: "SweepLocks (2 * lockIdleAfter) oneTab = ((fst (fst swept), snd (fst swept)), snd swept)"
    by (simp add: swept_def)
  have k: "\<not> keptSession (2 * lockIdleAfter) (adaTab ''s1'')" "ls_ended_at (adaTab ''s1'') = None"
    by (simp_all add: keptSession_def idleSession_def adaTab_def lockIdleAfter_def)
  show ?thesis using sweep_ends_stale[OF s] k by (simp add: oneTab_eval(2))
qed

section \<open>A release against a take\<close>

definition closing :: db where
  "closing = endLive 6 ''released'' None (\<lambda>s. sessionOn ''task'' ''WL-1'' s \<and> ls_id s = ''s1'') oneTab"

definition reopened_tab :: db where
  "reopened_tab = projr (TakeLock 6 ''s2'' ''task'' ''WL-1'' ''ada'' closing)"

definition afterDelete :: db where
  "afterDelete = dropLocksUnseen (lock_sessions closing) (lockOn ''task'' ''WL-1'') reopened_tab"

definition bobToo :: db where
  "bobToo = projr (TakeLock 7 ''s3'' ''task'' ''WL-1'' ''bob'' afterDelete)"

text \<open>The delete that drops an empty lock decides by the sessions its
  snapshot saw. A tab released while the same actor takes the lock in another
  tab: the release ends its session, its delete starts and waits for the lock row
  the take holds, the take commits, the delete drops the lock although the new
  session is live. Another actor can then take the lock. Two actors hold live
  editors, and both pass the session check of a save; what is left to stop the
  second one is the hash of the body it read.\<close>

theorem stale_delete_lets_two_edit:
  "\<not> isl (TakeLock 6 ''s2'' ''task'' ''WL-1'' ''ada'' closing) \<and>
   \<not> isl (TakeLock 7 ''s3'' ''task'' ''WL-1'' ''bob'' afterDelete) \<and>
   map (\<lambda>s. (ls_holder s, ls_ended_at s)) (lock_sessions bobToo) =
     [(''ada'', Some 6), (''ada'', None), (''bob'', None)] \<and>
   CheckBodySave (\<lambda>_ _. []) (\<lambda>_. []) bobToo ''task'' ''WL-1'' ''s2'' [] = Inr () \<and>
   CheckBodySave (\<lambda>_ _. []) (\<lambda>_. []) bobToo ''task'' ''WL-1'' ''s3'' [] = Inr ()"
proof (intro conjI)
  show "\<not> isl (TakeLock 6 ''s2'' ''task'' ''WL-1'' ''ada'' closing)" by code_simp
  show "\<not> isl (TakeLock 7 ''s3'' ''task'' ''WL-1'' ''bob'' afterDelete)" by code_simp
  show "map (\<lambda>s. (ls_holder s, ls_ended_at s)) (lock_sessions bobToo) =
     [(''ada'', Some 6), (''ada'', None), (''bob'', None)]" by code_simp
  show "CheckBodySave (\<lambda>_ _. []) (\<lambda>_. []) bobToo ''task'' ''WL-1'' ''s2'' [] = Inr ()" by code_simp
  show "CheckBodySave (\<lambda>_ _. []) (\<lambda>_. []) bobToo ''task'' ''WL-1'' ''s3'' [] = Inr ()" by code_simp
qed

end
