(* ===== verification/Anchor.thy ===== *)
theory Anchor
  imports Kinds
begin

text \<open>
  Where a quoted passage sits after its text was edited (internal/review/anchor.go):
  matching up to white space, the longest common subsequence of lines, the four
  stages of Relocate, and ReanchorLine. Offsets are byte offsets. The stages
  return what the Go function returns: start, end, the stage's name and whether
  the passage was found.
\<close>

section \<open>Matching up to white space\<close>

definition isSpace :: "char \<Rightarrow> bool" where
  "isSpace c \<longleftrightarrow> c \<in> {CHR 0x09, CHR 0x0A, CHR 0x0B, CHR 0x0C, CHR 0x0D, CHR 0x20}"

text \<open>How much of the text a quote covers, from its start.\<close>

function matchLen :: "string \<Rightarrow> string \<Rightarrow> nat option" where
  "matchLen s [] = Some 0"
| "matchLen s (c # q) =
     (if isSpace c
      then if s = [] \<or> \<not> isSpace (hd s) then None
           else map_option ((+) (length (takeWhile isSpace s)))
                  (matchLen (dropWhile isSpace s) (dropWhile isSpace (c # q)))
      else if s = [] \<or> hd s \<noteq> c then None
           else map_option Suc (matchLen (tl s) q))"
  by pat_completeness auto
termination
  by (relation "measure (\<lambda>(s, q). length q)") (auto simp: length_dropWhile_le less_Suc_eq_le)

definition matchAt :: "string \<Rightarrow> int \<Rightarrow> string \<Rightarrow> int option" where
  "matchAt s p quote =
     (if p < 0 \<or> p > int (length s) then None
      else map_option (\<lambda>n. p + int n) (matchLen (drop (nat p) s) quote))"

fun collapseFrom :: "bool \<Rightarrow> string \<Rightarrow> string" where
  "collapseFrom inSpace [] = []"
| "collapseFrom inSpace (c # s) =
     (if isSpace c then (if inSpace then [] else [CHR 0x20]) @ collapseFrom True s
      else c # collapseFrom False s)"

definition collapse :: "string \<Rightarrow> string" where
  "collapse s = collapseFrom False s"

section \<open>Lines\<close>

definition splitLines :: "string \<Rightarrow> string list" where
  "splitLines s = map collapse (splitAt (CHR 0x0A) s)"

fun startsFrom :: "nat \<Rightarrow> string \<Rightarrow> nat list" where
  "startsFrom i [] = []"
| "startsFrom i (c # s) = (if c = CHR 0x0A then [i + 1] else []) @ startsFrom (i + 1) s"

definition lineStarts :: "string \<Rightarrow> nat list" where
  "lineStarts s = 0 # startsFrom 0 s"

definition lineOf :: "nat list \<Rightarrow> nat \<Rightarrow> nat" where
  "lineOf starts off = length (takeWhile (\<lambda>s. s \<le> off) (tl starts))"

definition lineText :: "string \<Rightarrow> nat list \<Rightarrow> nat \<Rightarrow> string" where
  "lineText s starts l =
     (let stop = (if l + 1 < length starts then starts ! (l + 1) - 1 else length s)
      in take (stop - starts ! l) (drop (starts ! l) s))"

text \<open>strings.Index.\<close>

fun indexOf :: "string \<Rightarrow> string \<Rightarrow> int" where
  "indexOf [] p = (if p = [] then 0 else - 1)"
| "indexOf (c # s) p =
     (if hasPrefix (c # s) p then 0
      else let i = indexOf s p in if i < 0 then i else i + 1)"

section \<open>The longest common subsequence of lines\<close>

text \<open>One row of the table from the row before it, then the rows.\<close>

fun dpRow :: "string \<Rightarrow> string list \<Rightarrow> nat list \<Rightarrow> nat \<Rightarrow> nat list" where
  "dpRow x (y # ys) (diag # up # prev) left =
     (let v = (if x = y then diag + 1 else max up left) in v # dpRow x ys (up # prev) v)"
| "dpRow x _ _ left = []"

fun dpRows :: "string list \<Rightarrow> string list \<Rightarrow> nat list \<Rightarrow> nat list list" where
  "dpRows [] b prev = [prev]"
| "dpRows (x # xs) b prev = prev # dpRows xs b (0 # dpRow x b prev 0)"

definition lcsTable :: "string list \<Rightarrow> string list \<Rightarrow> nat list list" where
  "lcsTable a b = dpRows a b (replicate (length b + 1) 0)"

function backtrack ::
  "string list \<Rightarrow> string list \<Rightarrow> nat list list \<Rightarrow> nat \<Rightarrow> nat \<Rightarrow> (nat \<times> nat) list" where
  "backtrack a b dp i j =
     (if i = 0 \<or> j = 0 then []
      else if a ! (i - 1) = b ! (j - 1) then (i - 1, j - 1) # backtrack a b dp (i - 1) (j - 1)
      else if dp ! i ! (j - 1) \<ge> dp ! (i - 1) ! j then backtrack a b dp i (j - 1)
      else backtrack a b dp (i - 1) j)"
  by pat_completeness auto
termination by (relation "measure (\<lambda>(a, b, dp, i, j). i + j)") auto

declare backtrack.simps [simp del]

definition lcsPairs :: "string list \<Rightarrow> string list \<Rightarrow> (nat \<times> nat) list" where
  "lcsPairs a b = backtrack a b (lcsTable a b) (length a) (length b)"

definition lcsLines :: "string list \<Rightarrow> string list \<Rightarrow> nat \<Rightarrow> nat option" where
  "lcsLines a b = map_of (lcsPairs a b)"

section \<open>Relocate\<close>

definition fuzzyMinLen :: nat where "fuzzyMinLen = 8"
definition fuzzyWindow :: nat where "fuzzyWindow = 10"

text \<open>The nearest line above that survived.\<close>

fun nearestAbove :: "(nat \<Rightarrow> nat option) \<Rightarrow> nat \<Rightarrow> (nat \<times> nat) option" where
  "nearestAbove pairs 0 = None"
| "nearestAbove pairs (Suc i) =
     (case pairs i of Some j \<Rightarrow> Some (i, j) | None \<Rightarrow> nearestAbove pairs i)"

definition predictedLine :: "(nat \<Rightarrow> nat option) \<Rightarrow> nat \<Rightarrow> nat list \<Rightarrow> nat" where
  "predictedLine pairs oldLine newLines =
     min (case nearestAbove pairs oldLine of None \<Rightarrow> oldLine | Some (i, j) \<Rightarrow> j + oldLine - i)
         (length newLines - 1)"

text \<open>The lines the fuzzy stage looks at, nearest first, and what it makes of
  one.\<close>

definition fuzzyLines :: "nat \<Rightarrow> nat \<Rightarrow> nat list" where
  "fuzzyLines predLine n =
     map nat (filter (\<lambda>j. 0 \<le> j \<and> j < int n)
       (concat (map (\<lambda>k. if k = 0 then [int predLine] else [int predLine - int k, int predLine + int k])
          [0..<fuzzyWindow + 1])))"

definition fuzzyHit :: "string \<Rightarrow> string \<Rightarrow> nat \<Rightarrow> (int \<times> int) option" where
  "fuzzyHit new want j =
     (let line = lineText new (lineStarts new) j; trimmed = trimSpace line;
          s = int (lineStarts new ! j) + indexOf line trimmed
      in if trimmed \<noteq> [] \<and> collapse trimmed = want then Some (s, s + int (length trimmed)) else None)"

fun firstHit :: "('a \<Rightarrow> 'b option) \<Rightarrow> 'a list \<Rightarrow> 'b option" where
  "firstHit f [] = None"
| "firstHit f (x # xs) = (case f x of Some y \<Rightarrow> Some y | None \<Rightarrow> firstHit f xs)"

text \<open>The scan keeps the first of the nearest hits.\<close>

fun scanFrom :: "string \<Rightarrow> string \<Rightarrow> int \<Rightarrow> (int \<times> int) option \<Rightarrow> nat list \<Rightarrow> (int \<times> int) option" where
  "scanFrom new quote pred best [] = best"
| "scanFrom new quote pred best (p # ps) =
     scanFrom new quote pred
       (case matchAt new (int p) quote of
          None \<Rightarrow> best
        | Some e \<Rightarrow>
            (case best of
               None \<Rightarrow> Some (int p, e)
             | Some (b, _) \<Rightarrow> if \<bar>int p - pred\<bar> < \<bar>b - pred\<bar> then Some (int p, e) else best)) ps"

definition anchorLine :: "string \<Rightarrow> int \<Rightarrow> nat" where
  "anchorLine old start = lineOf (lineStarts old) (nat start)"

definition anchorCol :: "string \<Rightarrow> int \<Rightarrow> nat" where
  "anchorCol old start = nat start - lineStarts old ! anchorLine old start"

definition linePairs :: "string \<Rightarrow> string \<Rightarrow> nat \<Rightarrow> nat option" where
  "linePairs old new = lcsLines (splitLines old) (splitLines new)"

definition lcsStage :: "string \<Rightarrow> string \<Rightarrow> int \<Rightarrow> string \<Rightarrow> (int \<times> int) option" where
  "lcsStage old new start quote =
     (case linePairs old new (anchorLine old start) of
        None \<Rightarrow> None
      | Some j \<Rightarrow>
          (let p = int (lineStarts new ! j + anchorCol old start)
           in map_option (\<lambda>e. (p, e)) (matchAt new p quote)))"

definition fuzzyStage :: "string \<Rightarrow> string \<Rightarrow> int \<Rightarrow> string \<Rightarrow> (int \<times> int) option" where
  "fuzzyStage old new start quote =
     (if length (trimSpace quote) \<ge> fuzzyMinLen
      then firstHit (fuzzyHit new (collapse (trimSpace quote)))
             (fuzzyLines (predictedLine (linePairs old new) (anchorLine old start) (lineStarts new))
                (length (lineStarts new)))
      else None)"

definition scanStage :: "string \<Rightarrow> string \<Rightarrow> int \<Rightarrow> string \<Rightarrow> (int \<times> int) option" where
  "scanStage old new start quote =
     (let predLine = predictedLine (linePairs old new) (anchorLine old start) (lineStarts new);
          pred = min (lineStarts new ! predLine + anchorCol old start) (length new)
      in scanFrom new quote (int pred) None [0..<length new])"

definition Relocate :: "string \<Rightarrow> string \<Rightarrow> int \<Rightarrow> int \<Rightarrow> string \<Rightarrow> int \<times> int \<times> string \<times> bool" where
  "Relocate old new start stop quote =
     (if quote = [] \<or> start < 0 \<or> start > stop \<or> stop > int (length old) then (0, 0, ''drifted'', False)
      else case matchAt new start quote of Some e \<Rightarrow> (start, e, ''exact'', True)
      | None \<Rightarrow>
        (case lcsStage old new start quote of Some (p, e) \<Rightarrow> (p, e, ''lcs'', True)
         | None \<Rightarrow>
           (case fuzzyStage old new start quote of Some (s, e) \<Rightarrow> (s, e, ''fuzzy'', True)
            | None \<Rightarrow>
              (case scanStage old new start quote of Some (s, e) \<Rightarrow> (s, e, ''scan'', True)
               | None \<Rightarrow> (0, 0, ''drifted'', False)))))"

section \<open>Threads on a line of a file\<close>

definition ReanchorLine :: "string list \<Rightarrow> string list \<Rightarrow> int \<Rightarrow> string \<Rightarrow> int \<times> string \<times> bool" where
  "ReanchorLine oldFile newFile oldLine anchorText =
     (if oldLine < 1 \<or> oldLine > int (length oldFile) then (0, ''drifted'', False)
      else
        let k = nat (oldLine - 1);
            start = sum_list (map (\<lambda>l. length l + 1) (take k oldFile));
            stop = start + length (oldFile ! k);
            newText = joinWith [CHR 0x0A] newFile
        in case Relocate (joinWith [CHR 0x0A] oldFile) newText (int start) (int stop) anchorText of
             (s, _, stage, ok) \<Rightarrow>
               if \<not> ok then (0, stage, False)
               else (int (lineOf (lineStarts newText) (nat s)) + 1, stage, True))"

end
