(* ===== verification/ReviewThreads.thy ===== *)
theory ReviewThreads
  imports Approvals Decisions Anchor
begin

text \<open>
  Review threads and their messages (internal/store/reviewthreads.go and
  reviewrelocate.go): opening a thread on a range of a document or rule, on a
  section or on a line of a change, replying, resolving, and carrying the open
  threads to a new text. Parsing and rendering a document goes through the
  Markdown library: its section map and the span map of a rendered spec are
  functions (the record renderer).
\<close>

section \<open>Inputs\<close>

record review_anchor =
  ra_doc :: int
  ra_rule :: int
  ra_version :: int
  ra_start :: int
  ra_end :: int
  ra_quote :: string
  ra_doc_anchor :: string
  ra_repo :: string
  ra_path :: string
  ra_side :: string
  ra_line :: int
  ra_anchor_text :: string
  ra_blob_sha :: string

record thread_input =
  ti_anchor :: review_anchor
  ti_intent :: string
  ti_body :: string
  ti_classifier :: string

text \<open>A span of a rendered spec: its bytes, and the rule version or stored body
  they come from (offset -1: neither).\<close>

record rendered_span =
  sp_start :: int
  sp_end :: int
  sp_rule :: int
  sp_rule_version :: int
  sp_offset :: int

text \<open>\<open>rd_sections\<close> is designdoc.Parse: anchor and text (heading and body) of
  each section, None for an error; \<open>rd_spans\<close> is renderSpans of a document.\<close>

record renderer =
  rd_sections :: "string \<Rightarrow> (string \<times> string) list option"
  rd_spans :: "db \<Rightarrow> int \<Rightarrow> string \<times> rendered_span list"

definition threadIntents :: "string list" where
  "threadIntents = [''note'', ''change_request'', ''question'']"

definition iri_ReviewThread :: "int \<Rightarrow> string" where
  "iri_ReviewThread i = IDNS @ ''review_thread/'' @ intStr i"

definition orText :: "string option \<Rightarrow> string" where
  "orText s = (case s of None \<Rightarrow> [] | Some x \<Rightarrow> x)"

definition orID :: "int option \<Rightarrow> int" where
  "orID i = (case i of None \<Rightarrow> 0 | Some x \<Rightarrow> x)"

section \<open>Reading\<close>

definition lockReview :: "db \<Rightarrow> int \<Rightarrow> err + review" where
  "lockReview d i =
     (case row (\<lambda>r. rv_id r = i) (reviews d) of
        None \<Rightarrow> Inl ErrNotFound
      | Some r \<Rightarrow> if rv_state r = ''closed'' then Inl ErrInvalidInput else Inr r)"

record thread_view =
  tv_thread :: review_thread
  tv_messages :: "review_message list"

definition threadsWhere :: "(review_thread \<Rightarrow> bool) \<Rightarrow> db \<Rightarrow> thread_view list" where
  "threadsWhere p d =
     map (\<lambda>t. \<lparr>tv_thread = t, tv_messages =
           sortStable (\<lambda>a b. cmpOr [cmpInt (rm_seq a) (rm_seq b), cmpInt (rm_id a) (rm_id b)])
             (filter (\<lambda>m. rm_thread m = th_id t) (review_messages d))\<rparr>)
       (sortStable (\<lambda>a b. cmpOr [cmpInt (th_created_at a) (th_created_at b), cmpInt (th_id a) (th_id b)])
         (filter p (review_threads d)))"

definition reviewThreads :: "db \<Rightarrow> int \<Rightarrow> thread_view list" where
  "reviewThreads d i = threadsWhere (\<lambda>t. th_review t = Some i) d"

definition GetThread :: "db \<Rightarrow> int \<Rightarrow> err + thread_view" where
  "GetThread d i =
     (case threadsWhere (\<lambda>t. th_id t = i) d of [] \<Rightarrow> Inl ErrNotFound | t # _ \<Rightarrow> Inr t)"

definition arranges :: "db \<Rightarrow> int \<Rightarrow> int \<Rightarrow> bool" where
  "arranges d docID ruleID \<longleftrightarrow> (\<exists>e\<in>set (doc_entries d). en_doc e = docID \<and> en_rule e = Some ruleID)"

definition trimHash :: "string \<Rightarrow> string" where
  "trimHash s = (case dropPrefix ''#'' s of None \<Rightarrow> s | Some r \<Rightarrow> r)"

definition ThreadsForSubject ::
  "db \<Rightarrow> int \<Rightarrow> int \<Rightarrow> int \<Rightarrow> string \<Rightarrow> string \<Rightarrow> err + thread_view list" where
  "ThreadsForSubject d docID ruleID version sect status =
     (if (docID = 0) = (ruleID = 0) then Inl ErrInvalidInput
      else Inr (threadsWhere (\<lambda>t.
        (if docID \<noteq> 0
         then th_doc t = Some docID \<or> (\<exists>r. th_rule t = Some r \<and> arranges d docID r)
         else th_rule t = Some ruleID) \<and>
        (version = 0 \<or> th_version t = Some version) \<and>
        (sect = [] \<or> th_doc_anchor t = Some (trimHash sect)) \<and>
        (status = [] \<or> th_status t = status)) d))"

definition threadSubject :: "db \<Rightarrow> review_thread \<Rightarrow> string" where
  "threadSubject d t =
     (case th_review t of
        Some i \<Rightarrow>
          (case row (\<lambda>r. rv_id r = i) (reviews d) of Some r \<Rightarrow> rv_subject r
           | None \<Rightarrow> if th_task t \<noteq> None then ''change'' else if th_rule t \<noteq> None then ''rule'' else ''doc'')
      | None \<Rightarrow> if th_task t \<noteq> None then ''change'' else if th_rule t \<noteq> None then ''rule'' else ''doc'')"

definition OpenThreadCounts :: "db \<Rightarrow> string \<Rightarrow> nat" where
  "OpenThreadCounts d subject =
     length (filter (\<lambda>t. th_status t = ''open'' \<and> threadSubject d t = subject) (review_threads d))"

section \<open>Anchors\<close>

definition checkThreadSubject :: "db \<Rightarrow> review \<Rightarrow> review_anchor \<Rightarrow> err + unit" where
  "checkThreadSubject d r a =
     (let doc = orID (rv_doc r); rule = orID (rv_rule r) in
      if doc \<noteq> 0 \<and> ra_doc a = doc \<or> rule \<noteq> 0 \<and> ra_rule a = rule then Inr ()
      else if doc \<noteq> 0 \<and> ra_rule a \<noteq> 0 \<and> arranges d doc (ra_rule a) then Inr ()
      else Inl ErrInvalidInput)"

text \<open>utf8.RuneStart: not a continuation byte.\<close>

definition runeStart :: "char \<Rightarrow> bool" where
  "runeStart c \<longleftrightarrow> (of_char c :: nat) div 64 \<noteq> 2"

definition checkRange :: "string \<Rightarrow> review_anchor \<Rightarrow> err + unit" where
  "checkRange body a =
     (let s = ra_start a; e = ra_end a in
      if s < 0 \<or> s \<ge> e \<or> e > int (length body) then Inl ErrInvalidInput
      else if \<not> runeStart (body ! nat s) \<or> (e < int (length body) \<and> \<not> runeStart (body ! nat e))
      then Inl ErrInvalidInput
      else if take (nat (e - s)) (drop (nat s) body) = ra_quote a then Inr ()
      else Inl ErrInvalidInput)"

fun sectionLoop :: "int \<Rightarrow> int \<Rightarrow> string \<Rightarrow> (string \<times> string) list \<Rightarrow> string" where
  "sectionLoop pos off anchor [] = anchor"
| "sectionLoop pos off anchor ((a, text) # ss) =
     (if pos > off then anchor else sectionLoop (pos + int (length text)) off a ss)"

definition sectionAt :: "renderer \<Rightarrow> string \<Rightarrow> int \<Rightarrow> string" where
  "sectionAt rd body off =
     (case rd_sections rd body of
        None \<Rightarrow> []
      | Some secs \<Rightarrow>
          sectionLoop (int (length body) - sum_list (map (\<lambda>s. int (length (snd s))) secs)) off [] secs)"

text \<open>A range of the rendered body of a spec (store/docrender.go) as a range of
  the rule version or the stored body it shows.\<close>

definition mapRenderedRange :: "renderer \<Rightarrow> db \<Rightarrow> int \<Rightarrow> int \<Rightarrow> int \<Rightarrow> int \<Rightarrow> err + review_anchor" where
  "mapRenderedRange rd d docID version start stop =
     (case docRow d docID of
        None \<Rightarrow> Inl ErrNotFound
      | Some x \<Rightarrow>
          if version \<noteq> d_version x then Inl ErrInvalidInput
          else
            let (rendered, spans) = rd_spans rd d docID;
                blank = \<lparr>ra_doc = 0, ra_rule = 0, ra_version = 0, ra_start = 0, ra_end = 0, ra_quote = [],
                  ra_doc_anchor = [], ra_repo = [], ra_path = [], ra_side = [], ra_line = 0,
                  ra_anchor_text = [], ra_blob_sha = []\<rparr>
            in if start < 0 \<or> start \<ge> stop \<or> stop > int (length rendered) then Inl ErrInvalidInput
               else case dropWhile (\<lambda>s. sp_end s \<le> start) spans of
                 [] \<Rightarrow> Inl (DBError ''index out of range'')
               | sp # _ \<Rightarrow>
                   if stop > sp_end sp \<or> sp_offset sp < 0 then Inl ErrInvalidInput
                   else
                     let b = blank\<lparr>ra_start := start - sp_start sp + sp_offset sp,
                                   ra_end := stop - sp_start sp + sp_offset sp\<rparr>
                     in Inr (if sp_rule sp \<noteq> 0 then b\<lparr>ra_rule := sp_rule sp, ra_version := sp_rule_version sp\<rparr>
                             else b\<lparr>ra_doc := docID, ra_version := d_version x\<rparr>))"

text \<open>The section a rule is arranged at, in the review's document first.\<close>

definition ruleSection :: "db \<Rightarrow> int \<Rightarrow> int \<Rightarrow> string" where
  "ruleSection d ruleID reviewDoc =
     (case sortStable (\<lambda>a b. cmpOr [cmpInt (if en_doc a = reviewDoc then 0 else 1 :: int) (if en_doc b = reviewDoc then 0 else 1),
               cmpInt (en_doc a) (en_doc b), cmpInt (en_position a) (en_position b)])
             (filter (\<lambda>e. en_rule e = Some ruleID) (doc_entries d)) of
        [] \<Rightarrow> [] | e # _ \<Rightarrow> orText (en_anchor e))"

definition checkRuleRange :: "db \<Rightarrow> review option \<Rightarrow> review_anchor \<Rightarrow> err + review_anchor" where
  "checkRuleRange d rvw a =
     (if ra_version a \<le> 0 \<or> ra_quote a = [] then Inl ErrInvalidInput
      else case row (\<lambda>v. rw_rule v = ra_rule a \<and> rw_version v = ra_version a) (rule_versions d) of
        None \<Rightarrow> Inl ErrInvalidInput
      | Some v \<Rightarrow>
          andThen (checkRange (rw_body v) a) (\<lambda>_.
          Inr (a\<lparr>ra_doc_anchor := ruleSection d (ra_rule a) (case rvw of None \<Rightarrow> 0 | Some r \<Rightarrow> orID (rv_doc r))\<rparr>)))"

definition checkDocRange :: "renderer \<Rightarrow> doc \<Rightarrow> review_anchor \<Rightarrow> err + review_anchor" where
  "checkDocRange rd x a =
     (if ra_version a \<noteq> d_version x then Inl ErrInvalidInput
      else andThen (checkRange (d_body x) a) (\<lambda>_.
           Inr (a\<lparr>ra_doc_anchor := sectionAt rd (d_body x) (ra_start a)\<rparr>)))"

definition checkRangeAnchor :: "renderer \<Rightarrow> db \<Rightarrow> review option \<Rightarrow> review_anchor \<Rightarrow> err + review_anchor" where
  "checkRangeAnchor rd d rvw a =
     (if ra_version a \<le> 0 \<or> ra_quote a = [] then Inl ErrInvalidInput
      else if ra_rule a \<noteq> 0 then checkRuleRange d rvw a
      else case docRow d (ra_doc a) of
        None \<Rightarrow> Inl ErrNotFound
      | Some x \<Rightarrow>
          if d_kind x \<noteq> ''plan''
          then andThen (mapRenderedRange rd d (ra_doc a) (ra_version a) (ra_start a) (ra_end a)) (\<lambda>m.
               let m = m\<lparr>ra_quote := ra_quote a\<rparr>
               in if ra_rule m \<noteq> 0 then checkRuleRange d rvw m else checkDocRange rd x m)
          else checkDocRange rd x a)"

section \<open>Messages\<close>

text \<open>The actor whose messages carry role author. The subselect of the lease
  answers one row (the unique index on active leases).\<close>

definition reviewAuthor :: "db \<Rightarrow> int \<Rightarrow> string \<Rightarrow> err + string" where
  "reviewAuthor d doc task =
     (if doc \<noteq> 0
      then case docRow d doc of None \<Rightarrow> Inl (DBError ''no rows'') | Some x \<Rightarrow> Inr (orText (d_owner x))
      else case taskRow d task of
        None \<Rightarrow> Inl (DBError ''no rows'')
      | Some t \<Rightarrow>
          Inr (case row (\<lambda>l. l_task l = task \<and> active l) (leases d) of
                 Some l \<Rightarrow> l_actor l | None \<Rightarrow> orText (t_assignee t)))"

definition threadAuthor :: "db \<Rightarrow> review option \<Rightarrow> int \<Rightarrow> err + string" where
  "threadAuthor d rvw doc =
     (case rvw of
        Some r \<Rightarrow> reviewAuthor d (orID (rv_doc r)) (orText (rv_task r))
      | None \<Rightarrow> if doc \<noteq> 0 then reviewAuthor d doc [] else Inr [])"

text \<open>The next number: the review's counter, or one more than the thread's
  last.\<close>

definition nextSeq :: "int \<Rightarrow> review option \<Rightarrow> db \<Rightarrow> int \<times> db" where
  "nextSeq threadID rvw d =
     (case rvw of
        Some r \<Rightarrow>
          ((case row (\<lambda>x. rv_id x = rv_id r) (reviews d) of None \<Rightarrow> rv_next_seq r | Some x \<Rightarrow> rv_next_seq x),
           d\<lparr>reviews := updWhere (\<lambda>x. rv_id x = rv_id r) (\<lambda>x. x\<lparr>rv_next_seq := rv_next_seq x + 1\<rparr>) (reviews d)\<rparr>)
      | None \<Rightarrow>
          (fold max (map rm_seq (filter (\<lambda>m. rm_thread m = threadID) (review_messages d))) 0 + 1, d))"

definition seqTaken :: "db \<Rightarrow> review_message \<Rightarrow> bool" where
  "seqTaken d m \<longleftrightarrow>
     (\<exists>x\<in>set (review_messages d). rm_seq x = rm_seq m \<and>
        (case rm_review m of None \<Rightarrow> rm_review x = None \<and> rm_thread x = rm_thread m
         | Some r \<Rightarrow> rm_review x = Some r))"

definition insertMessage :: "review_message \<Rightarrow> db \<Rightarrow> err + review_message \<times> db" where
  "insertMessage m d =
     (let m = m\<lparr>rm_id := next_message_id d\<rparr> in
      if seqTaken d m then Inl (DBError ''review_messages_seq'')
      else if rm_actor m \<notin> set (actors d) then Inl (DBError ''review_messages_actor_id_fkey'')
      else Inr (m, d\<lparr>review_messages := review_messages d @ [m], next_message_id := next_message_id d + 1\<rparr>))"

definition addThreadMessage ::
  "int \<Rightarrow> int \<Rightarrow> review option \<Rightarrow> int \<Rightarrow> string \<Rightarrow> string \<Rightarrow> db \<Rightarrow> err + review_message \<times> db" where
  "addThreadMessage ts threadID rvw docID body actorID d =
     andThen (threadAuthor d rvw docID) (\<lambda>author.
     let (sq, d1) = nextSeq threadID rvw d
     in insertMessage \<lparr>rm_id = 0, rm_thread = threadID, rm_review = map_option rv_id rvw, rm_seq = sq,
          rm_actor = actorID, rm_role = (if author \<noteq> [] \<and> actorID = author then ''author'' else ''reviewer''),
          rm_body = body, rm_created_at = ts\<rparr> d1)"

definition reviewEvent ::
  "int \<Rightarrow> string \<Rightarrow> int \<Rightarrow> string \<Rightarrow> int \<Rightarrow> (string \<times> json) list \<Rightarrow> db \<Rightarrow> err + db" where
  "reviewEvent at ty threadID = recordReviewEvent at ty (iri_CURIE (iri_ReviewThread threadID))"

section \<open>Opening a thread\<close>

text \<open>The constraints of review_threads an insert can run into.\<close>

definition insertThread :: "review_thread \<Rightarrow> db \<Rightarrow> err + review_thread \<times> db" where
  "insertThread t d =
     (let t = t\<lparr>th_id := next_thread_id d\<rparr> in
      if \<not> int4 (th_version t) \<or> \<not> int4 (th_start t) \<or> \<not> int4 (th_end t) \<or> \<not> int4 (th_line t)
      then Inl (DBError ''integer out of range'')
      else if th_classifier t \<notin> {None, Some ''jev'', Some ''default''}
      then Inl (DBError ''review_threads_classifier_known'')
      else if th_author t \<notin> set (actors d) then Inl (DBError ''review_threads_author_id_fkey'')
      else if (case th_raised_task t of None \<Rightarrow> False | Some x \<Rightarrow> taskRow d x = None)
      then Inl (DBError ''review_threads_raised_by_task_fkey'')
      else Inr (t, d\<lparr>review_threads := review_threads d @ [t], next_thread_id := next_thread_id d + 1\<rparr>))"

definition firstThreadMessage ::
  "int \<Rightarrow> review_thread \<Rightarrow> review option \<Rightarrow> int \<Rightarrow> string \<Rightarrow> int \<Rightarrow> db \<Rightarrow> err + db" where
  "firstThreadMessage ts t rvw docID body eventID d =
     andThen (addThreadMessage ts (th_id t) rvw docID body (th_author t) d) (\<lambda>(_, d1).
     if th_intent t = ''question''
     then reviewEvent ts ''wl:ReviewQuestionAsked'' (th_id t) (th_author t) eventID
            [(''wl:threadIntent'', JStr ''wlc:question'')] d1
     else Inr d1)"

definition blankThread :: "int \<Rightarrow> thread_input \<Rightarrow> string \<Rightarrow> string \<Rightarrow> string \<Rightarrow> review_thread" where
  "blankThread ts inp actorID taskID sessionID =
     \<lparr> th_id = 0, th_review = None, th_doc = None, th_rule = None, th_task = None, th_version = None,
       th_start = None, th_end = None, th_quote = None, th_doc_anchor = None, th_repo = None, th_path = None,
       th_side = None, th_line = None, th_anchor_text = None, th_blob_sha = None,
       th_raised_task = nullText taskID, th_raised_session = nullText sessionID, th_intent = ti_intent inp,
       th_classifier = nullText (ti_classifier inp), th_status = ''open'', th_author = actorID,
       th_created_at = ts, th_resolved_by = None, th_resolved_at = None \<rparr>"

definition openChangeThread ::
  "int \<Rightarrow> review \<Rightarrow> thread_input \<Rightarrow> string \<Rightarrow> string \<Rightarrow> string \<Rightarrow> string \<Rightarrow> int \<Rightarrow> db \<Rightarrow> err + review_thread \<times> db" where
  "openChangeThread now rvw inp body actorID taskID sessionID eventID d =
     (let a = ti_anchor inp; ts = truncSec now in
      if ra_doc a \<noteq> 0 \<or> ra_rule a \<noteq> 0 \<or> ra_version a \<noteq> 0 \<or> ra_start a \<noteq> 0 \<or> ra_end a \<noteq> 0 \<or>
         ra_quote a \<noteq> [] \<or> ra_doc_anchor a \<noteq> [] then Inl ErrInvalidInput
      else if ra_repo a = [] \<or> ra_path a = [] \<or> (ra_side a \<noteq> ''additions'' \<and> ra_side a \<noteq> ''deletions'') \<or>
         ra_line a \<le> 0 \<or> ra_anchor_text a = [] \<or> ra_blob_sha a = [] then Inl ErrInvalidInput
      else andThen (insertThread ((blankThread ts inp actorID taskID sessionID)\<lparr>
             th_review := Some (rv_id rvw), th_task := rv_task rvw, th_repo := Some (ra_repo a),
             th_path := Some (ra_path a), th_side := Some (ra_side a), th_line := Some (ra_line a),
             th_anchor_text := Some (ra_anchor_text a), th_blob_sha := Some (ra_blob_sha a)\<rparr>) d) (\<lambda>(t, d1).
           andThen (firstThreadMessage ts t (Some rvw) 0 body eventID d1) (\<lambda>d2. Inr (t, d2))))"

definition isRange :: "review_anchor \<Rightarrow> bool" where
  "isRange a \<longleftrightarrow> ra_version a \<noteq> 0 \<or> ra_end a \<noteq> 0 \<or> ra_quote a \<noteq> []"

text \<open>The anchor of a thread on a document or rule: a checked range, or for a bare
  note a section of the document.\<close>

definition resolveAnchor :: "renderer \<Rightarrow> db \<Rightarrow> review option \<Rightarrow> review_anchor \<Rightarrow> err + review_anchor" where
  "resolveAnchor rd d rvw a =
     (if isRange a then checkRangeAnchor rd d rvw a
      else if rvw \<noteq> None then Inl ErrInvalidInput
      else
        let a = a\<lparr>ra_doc_anchor := trimHash (trimSpace (ra_doc_anchor a))\<rparr> in
        if ra_doc a = 0 \<or> ra_doc_anchor a = [] then Inl ErrInvalidInput
        else if \<exists>s\<in>set (doc_sections d). sec_doc s = ra_doc a \<and> sec_anchor s = ra_doc_anchor a
        then Inr a else Inl ErrInvalidInput)"

definition openSubjectThread ::
  "renderer \<Rightarrow> int \<Rightarrow> review option \<Rightarrow> thread_input \<Rightarrow> string \<Rightarrow> string \<Rightarrow> string \<Rightarrow> string \<Rightarrow> int \<Rightarrow> db \<Rightarrow>
     err + review_thread \<times> db" where
  "openSubjectThread rd now rvw inp body actorID taskID sessionID eventID d =
     (let a0 = ti_anchor inp; ts = truncSec now in
      if (ra_doc a0 = 0) = (ra_rule a0 = 0) then Inl ErrInvalidInput
      else if ra_repo a0 \<noteq> [] \<or> ra_path a0 \<noteq> [] \<or> ra_side a0 \<noteq> [] \<or> ra_line a0 \<noteq> 0 \<or>
         ra_anchor_text a0 \<noteq> [] \<or> ra_blob_sha a0 \<noteq> [] then Inl ErrInvalidInput
      else andThen (case rvw of None \<Rightarrow> Inr () | Some r \<Rightarrow> checkThreadSubject d r a0) (\<lambda>_.
           andThen (resolveAnchor rd d rvw a0) (\<lambda>a.
           let range = isRange a0 in
           andThen (insertThread ((blankThread ts inp actorID taskID sessionID)\<lparr>
             th_review := map_option rv_id rvw, th_doc := nullID (ra_doc a), th_rule := nullID (ra_rule a),
             th_version := (if range then Some (ra_version a) else None),
             th_start := (if range then Some (ra_start a) else None),
             th_end := (if range then Some (ra_end a) else None),
             th_quote := nullText (ra_quote a), th_doc_anchor := nullText (ra_doc_anchor a)\<rparr>) d) (\<lambda>(t, d1).
           andThen (firstThreadMessage ts t rvw (ra_doc a) body eventID d1) (\<lambda>d2. Inr (t, d2))))))"

definition OpenThread ::
  "renderer \<Rightarrow> int \<Rightarrow> int \<Rightarrow> thread_input \<Rightarrow> string \<Rightarrow> string \<Rightarrow> string \<Rightarrow> int \<Rightarrow> db \<Rightarrow> err + review_thread \<times> db" where
  "OpenThread rd now reviewID inp actorID taskID sessionID eventID d =
     (let body = trimSpace (ti_body inp) in
      if body = [] then Inl ErrInvalidInput
      else if ti_intent inp \<notin> set threadIntents then Inl ErrInvalidInput
      else andThen (if reviewID = 0 then Inr None else andThen (lockReview d reviewID) (\<lambda>r. Inr (Some r))) (\<lambda>rvw.
           case rvw of
             Some r \<Rightarrow>
               if orText (rv_task r) \<noteq> []
               then openChangeThread now r inp body actorID taskID sessionID eventID d
               else openSubjectThread rd now rvw inp body actorID taskID sessionID eventID d
           | None \<Rightarrow> openSubjectThread rd now rvw inp body actorID taskID sessionID eventID d))"

text \<open>Only the review's document is looked at when a bare note's rule is
  checked.\<close>

definition docOnly :: "int \<Rightarrow> review" where
  "docOnly docID = \<lparr> rv_id = 0, rv_task = None, rv_doc = nullID docID, rv_rule = None, rv_subject = [],
     rv_state = [], rv_base_ref = [], rv_round = 0, rv_next_seq = 0, rv_opened_by = [], rv_opened_at = 0,
     rv_closed_at = None \<rparr>"

definition OpenDocThread ::
  "renderer \<Rightarrow> int \<Rightarrow> int \<Rightarrow> thread_input \<Rightarrow> string \<Rightarrow> int \<Rightarrow> db \<Rightarrow> err + review_thread \<times> db" where
  "OpenDocThread rd now docID inp actorID eventID d =
     (let a = ti_anchor inp;
          go = (\<lambda>inp. OpenThread rd now 0 inp actorID [] [] eventID d)
      in if ra_doc a = 0 \<and> ra_rule a = 0 then go (inp\<lparr>ti_anchor := a\<lparr>ra_doc := docID\<rparr>\<rparr>)
         else if ra_doc a \<noteq> 0 \<and> ra_doc a \<noteq> docID then Inl ErrInvalidInput
         else if ra_rule a \<noteq> 0
         then (case checkThreadSubject d (docOnly docID) a of
                 Inl _ \<Rightarrow> Inl ErrInvalidInput | Inr _ \<Rightarrow> go inp)
         else go inp)"

section \<open>Replying and resolving\<close>

definition lockThread :: "db \<Rightarrow> int \<Rightarrow> err + review_thread \<times> review option" where
  "lockThread d i =
     (case row (\<lambda>t. th_id t = i) (review_threads d) of
        None \<Rightarrow> Inl ErrNotFound
      | Some t \<Rightarrow>
          if th_status t \<noteq> ''open'' then Inl ErrInvalidInput
          else case th_review t of
            None \<Rightarrow> Inr (t, None)
          | Some r \<Rightarrow> andThen (lockReview d r) (\<lambda>rvw. Inr (t, Some rvw)))"

definition ReplyThread ::
  "int \<Rightarrow> int \<Rightarrow> string \<Rightarrow> string \<Rightarrow> int \<Rightarrow> db \<Rightarrow> err + (review_message \<times> bool \<times> int) \<times> db" where
  "ReplyThread now threadID body0 actorID eventID d =
     (let body = trimSpace body0; ts = truncSec now in
      if body = [] then Inl ErrInvalidInput
      else andThen (lockThread d threadID) (\<lambda>(t, rvw).
           let answered = (th_intent t = ''question'' \<and>
                 (\<exists>m\<in>set (review_messages d). rm_thread m = threadID \<and> rm_role m = ''author''))
           in andThen (addThreadMessage ts threadID rvw (orID (th_doc t)) body actorID d) (\<lambda>(m, d1).
              if th_intent t = ''question'' \<and> \<not> answered \<and> rm_role m = ''author''
              then andThen (reviewEvent ts ''wl:ReviewQuestionAnswered'' threadID actorID eventID [] d1) (\<lambda>d2.
                   Inr ((m, True, th_created_at t), d2))
              else Inr ((m, False, th_created_at t), d1))))"

definition updThread :: "int \<Rightarrow> (review_thread \<Rightarrow> review_thread) \<Rightarrow> db \<Rightarrow> db" where
  "updThread i f d = d\<lparr>review_threads := updWhere (\<lambda>t. th_id t = i) f (review_threads d)\<rparr>"

definition ResolveThread :: "int \<Rightarrow> int \<Rightarrow> string \<Rightarrow> string \<Rightarrow> int \<Rightarrow> db \<Rightarrow> err + db" where
  "ResolveThread now threadID actorID status eventID d =
     (if status \<noteq> ''resolved'' \<and> status \<noteq> ''obsolete'' then Inl ErrInvalidInput
      else andThen (lockThread d threadID) (\<lambda>_.
           let ts = truncSec now in
           if actorID \<notin> set (actors d) then Inl (DBError ''review_threads_resolved_by_fkey'')
           else reviewEvent ts ''wl:ReviewThreadResolved'' threadID actorID eventID
                  [(''wl:threadStatus'', JStr status)]
                  (updThread threadID (\<lambda>t. t\<lparr>th_status := status, th_resolved_by := Some actorID,
                     th_resolved_at := Some ts\<rparr>) d)))"

section \<open>Following an edit\<close>

definition relocateOne ::
  "int \<Rightarrow> string \<Rightarrow> string \<Rightarrow> int \<Rightarrow> (int \<Rightarrow> string) option \<Rightarrow> review_thread \<Rightarrow> db \<Rightarrow> err + db" where
  "relocateOne to_version old body eventID anchor t d =
     (case Relocate old body (orID (th_start t)) (orID (th_end t)) (orText (th_quote t)) of
        (s, e, _, ok) \<Rightarrow>
          if \<not> ok
          then reviewEvent (truncSec (wall d)) ''wl:ReviewThreadResolved'' (th_id t) FlowActorID eventID
                 [(''wl:threadStatus'', JStr ''obsolete'')]
                 (updThread (th_id t) (\<lambda>t. t\<lparr>th_status := ''obsolete'', th_resolved_at := Some (truncSec (wall d))\<rparr>) d)
          else
            let sec = (case anchor of None \<Rightarrow> orText (th_doc_anchor t) | Some f \<Rightarrow> f s)
            in Inr (updThread (th_id t) (\<lambda>t. t\<lparr>th_version := Some to_version, th_start := Some s, th_end := Some e,
                   th_quote := Some (take (nat (e - s)) (drop (nat s) body)), th_doc_anchor := nullText sec\<rparr>) d))"

definition relocateThreads ::
  "(review_thread \<Rightarrow> bool) \<Rightarrow> int \<Rightarrow> int \<Rightarrow> string \<Rightarrow> string \<Rightarrow> int \<Rightarrow> (int \<Rightarrow> string) option \<Rightarrow> db \<Rightarrow> err + db" where
  "relocateThreads on from_version to_version old body eventID anchor d =
     foldE (relocateOne to_version old body eventID anchor)
       (sortStable (\<lambda>a b. cmpInt (th_id a) (th_id b))
         (filter (\<lambda>t. on t \<and> th_version t = Some from_version \<and> th_status t = ''open'' \<and> th_start t \<noteq> None)
           (review_threads d))) d"

definition relocateDocThreads :: "renderer \<Rightarrow> int \<Rightarrow> int \<Rightarrow> int \<Rightarrow> string \<Rightarrow> int \<Rightarrow> db \<Rightarrow> err + db" where
  "relocateDocThreads rd docID from_version to_version old eventID d =
     (case docRow d docID of
        None \<Rightarrow> Inl (DBError ''no rows'')
      | Some x \<Rightarrow> relocateThreads (\<lambda>t. th_doc t = Some docID) from_version to_version old (d_body x) eventID
                   (Some (sectionAt rd (d_body x))) d)"

definition relocateRuleThreads :: "int \<Rightarrow> int \<Rightarrow> int \<Rightarrow> string \<Rightarrow> string \<Rightarrow> int \<Rightarrow> db \<Rightarrow> err + db" where
  "relocateRuleThreads ruleID from_version to_version old body eventID d =
     relocateThreads (\<lambda>t. th_rule t = Some ruleID) from_version to_version old body eventID None d"

end
