(* ===== verification/Reviews.thy ===== *)
theory Reviews
  imports ReviewThreads
begin

text \<open>
  Reviews over documents and over the changes of tasks (internal/store/reviews.go,
  reviewrounds.go and internal/review/rules.go): opening one with its roster and
  review tasks, the rounds of reviewers and of the author, the derived state, and
  closing. Writing operations also answer the review as getReview reads it. The
  reading guide (review_guides) is left out of that view.
\<close>

section \<open>The derived state (review/rules.go)\<close>

definition hasOpen :: "review_thread list \<Rightarrow> string \<Rightarrow> bool" where
  "hasOpen threads intent \<longleftrightarrow> (\<exists>t\<in>set threads. th_status t = ''open'' \<and> th_intent t = intent)"

definition OpenQuestion :: "review_thread list \<Rightarrow> bool" where
  "OpenQuestion threads = hasOpen threads ''question''"

definition BlocksApproval :: "review_thread list \<Rightarrow> bool" where
  "BlocksApproval threads = hasOpen threads ''change_request''"

text \<open>The verdict an actor cast last at a base; rounds arrive oldest first.\<close>

definition latestVerdict :: "review_round list \<Rightarrow> string \<Rightarrow> string \<Rightarrow> string" where
  "latestVerdict rounds baseRef a =
     fold (\<lambda>r v. if rr_base_ref r = baseRef \<and> rr_actor r = a then rr_verdict r else v) rounds []"

fun stateLoop :: "(string \<Rightarrow> string) \<Rightarrow> string list \<Rightarrow> nat \<Rightarrow> nat option" where
  "stateLoop latest [] approved = Some approved"
| "stateLoop latest (a # as) approved =
     (if latest a = ''changes_requested'' then None
      else stateLoop latest as (if latest a = ''approved'' then approved + 1 else approved))"

definition reviewState :: "string list \<Rightarrow> review_round list \<Rightarrow> string \<Rightarrow> bool \<Rightarrow> string" where
  "reviewState roster rounds baseRef openChangeRequest =
     (case stateLoop (latestVerdict rounds baseRef) roster 0 of
        None \<Rightarrow> ''changes_requested''
      | Some approved \<Rightarrow>
          if roster \<noteq> [] \<and> approved = length roster \<and> \<not> openChangeRequest then ''approved'' else ''open'')"

section \<open>Reading a review\<close>

record review_view =
  vw_row :: review
  vw_reviewers :: "string list"
  vw_reason :: string
  vw_threads :: "thread_view list"
  vw_rounds :: "review_round list"

definition taskReviewers :: "db \<Rightarrow> string \<Rightarrow> string list" where
  "taskReviewers d tid = map tr_actor
     (sortStable (\<lambda>a b. cmpOr [cmpInt (tr_assigned_at a) (tr_assigned_at b), strCompare (tr_actor a) (tr_actor b)])
       (filter (\<lambda>r. tr_task r = tid) (task_reviewers d)))"

definition reviewRoster :: "db \<Rightarrow> review \<Rightarrow> string list" where
  "reviewRoster d r =
     (if rv_subject r = ''change'' then taskReviewers d (orText (rv_task r)) else docReviewers d (orID (rv_doc r)))"

definition payloadText :: "string \<Rightarrow> event \<Rightarrow> string option" where
  "payloadText k e =
     (case ev_payload e of JObj fs \<Rightarrow> (case map_of fs k of Some (JStr s) \<Rightarrow> Some s | _ \<Rightarrow> None) | _ \<Rightarrow> None)"

definition reviewReason :: "db \<Rightarrow> int \<Rightarrow> string" where
  "reviewReason d i =
     (case sortStable (\<lambda>a b. cmpInt (ev_id a) (ev_id b))
             (filter (\<lambda>e. ev_type e = ''wl:ReviewOpened'' \<and>
                payloadText ''wl:subject'' e = Some (iri_CURIE (iri_Review i))) (events d)) of
        [] \<Rightarrow> [] | e # _ \<Rightarrow> orText (payloadText ''wl:reason'' e))"

definition reviewRounds :: "db \<Rightarrow> int \<Rightarrow> review_round list" where
  "reviewRounds d i =
     sortStable (\<lambda>a b. cmpInt (rr_round a) (rr_round b)) (filter (\<lambda>r. rr_review r = i) (review_rounds d))"

definition getReview :: "db \<Rightarrow> int \<Rightarrow> err + review_view" where
  "getReview d i =
     (case row (\<lambda>r. rv_id r = i) (reviews d) of
        None \<Rightarrow> Inl ErrNotFound
      | Some r \<Rightarrow> Inr \<lparr>vw_row = r, vw_reviewers = reviewRoster d r, vw_reason = reviewReason d i,
                  vw_threads = reviewThreads d i, vw_rounds = reviewRounds d i\<rparr>)"

definition withView :: "int \<Rightarrow> db \<Rightarrow> err + review_view \<times> db" where
  "withView i d = andThen (getReview d i) (\<lambda>v. Inr (v, d))"

definition ReviewTask :: "db \<Rightarrow> int \<Rightarrow> err + string" where
  "ReviewTask d i =
     (case row (\<lambda>r. rv_id r = i) (reviews d) of None \<Rightarrow> Inl ErrNotFound | Some r \<Rightarrow> Inr (orText (rv_task r)))"

definition ReviewForTask :: "db \<Rightarrow> string \<Rightarrow> err + review_view" where
  "ReviewForTask d tid =
     (case row (\<lambda>r. rv_task r = Some tid \<and> rv_closed_at r = None) (reviews d) of
        None \<Rightarrow> Inl ErrNotFound | Some r \<Rightarrow> getReview d (rv_id r))"

definition ListReviews :: "db \<Rightarrow> string \<Rightarrow> string \<Rightarrow> string \<Rightarrow> bool \<Rightarrow> (review \<times> string list) list" where
  "ListReviews d subject st reviewer onlyOpen =
     map (\<lambda>r. (r, reviewRoster d r))
       (sortStable (\<lambda>a b. cmpOr [cmpInt (rv_opened_at a) (rv_opened_at b), cmpInt (rv_id a) (rv_id b)])
         (filter (\<lambda>r. (subject = [] \<or> rv_subject r = subject) \<and> (st = [] \<or> rv_state r = st) \<and>
            (reviewer = [] \<or>
              (\<exists>x\<in>set (doc_reviewers d). rv_doc r = Some (dr_doc x) \<and> dr_actor x = reviewer) \<or>
              (\<exists>x\<in>set (task_reviewers d). rv_task r = Some (tr_task x) \<and> tr_actor x = reviewer)) \<and>
            (onlyOpen \<longrightarrow> rv_closed_at r = None)) (reviews d)))"

text \<open>The new cursor, the threads that changed, and the new messages.\<close>

definition ReviewEvents ::
  "db \<Rightarrow> int \<Rightarrow> int \<Rightarrow> err + int \<times> review_thread list \<times> review_message list" where
  "ReviewEvents d i after =
     (if \<not> (\<exists>r\<in>set (reviews d). rv_id r = i) then Inl ErrNotFound
      else
        let since = map_option rm_created_at (row (\<lambda>m. rm_review m = Some i \<and> rm_seq m = after) (review_messages d));
            ts = threadsWhere (\<lambda>t. th_review t = Some i \<and>
              ((\<exists>m\<in>set (review_messages d). rm_thread m = th_id t \<and> rm_seq m > after) \<or>
               (case (th_resolved_at t, since) of (Some r, Some s) \<Rightarrow> r \<ge> s | _ \<Rightarrow> False))) d;
            ms = filter (\<lambda>m. rm_seq m > after) (concat (map tv_messages ts))
        in Inr (fold max (map rm_seq ms) after, map tv_thread ts,
                sortStable (\<lambda>a b. cmpInt (rm_seq a) (rm_seq b)) ms))"

section \<open>Opening a review\<close>

record open_review_input =
  oi_doc :: int
  oi_task :: string
  oi_base_ref :: string
  oi_reason :: string
  oi_allow_ready :: bool

text \<open>The constraints an insert can run into: the actor, and one review that is
  not closed per task and per document.\<close>

definition insertReview :: "review \<Rightarrow> db \<Rightarrow> err + int \<times> db" where
  "insertReview r d =
     (if \<exists>x\<in>set (reviews d). rv_state x \<noteq> ''closed'' \<and>
           (rv_task r \<noteq> None \<and> rv_task x = rv_task r \<or> rv_doc r \<noteq> None \<and> rv_doc x = rv_doc r)
      then Inl ErrReviewOpen
      else if rv_opened_by r \<notin> set (actors d) then Inl (DBError ''reviews_opened_by_fkey'')
      else Inr (next_review_id d,
             d\<lparr>reviews := reviews d @ [r\<lparr>rv_id := next_review_id d\<rparr>], next_review_id := next_review_id d + 1\<rparr>))"

definition newReview :: "string option \<Rightarrow> int option \<Rightarrow> string \<Rightarrow> string \<Rightarrow> string \<Rightarrow> int \<Rightarrow> review" where
  "newReview task doc subject baseRef actorID ts =
     \<lparr> rv_id = 0, rv_task = task, rv_doc = doc, rv_rule = None, rv_subject = subject, rv_state = ''open'',
       rv_base_ref = baseRef, rv_round = 0, rv_next_seq = 1, rv_opened_by = actorID, rv_opened_at = ts,
       rv_closed_at = None \<rparr>"

definition upperByte :: "char \<Rightarrow> char" where
  "upperByte c = (let n = (of_char c :: nat) in if 97 \<le> n \<and> n \<le> 122 then char_of (n - 32) else c)"

definition docRef :: "db \<Rightarrow> int \<Rightarrow> err + string" where
  "docRef d docID =
     (case docRow d docID of
        None \<Rightarrow> Inl (DBError ''no rows'')
      | Some x \<Rightarrow>
          (case row (\<lambda>p. p_id p = d_project x) (projects d) of
             None \<Rightarrow> Inl (DBError ''no rows'')
           | Some p \<Rightarrow> Inr (p_key p @ ''-'' @ map upperByte (d_kind x) @ ''-'' @ intStr (orID (d_number x)))))"

definition reviewTaskInput :: "string \<Rightarrow> string \<Rightarrow> string \<Rightarrow> int \<Rightarrow> string \<Rightarrow> task_input" where
  "reviewTaskInput project title body aboutDoc actorID =
     \<lparr> in_project = project, in_title = title, in_body = body, in_priority = ''medium'', in_kind = ''review'',
       in_concern = [], in_secrets = [], in_created_by = actorID, in_draft = False, in_skills = [], in_due = [],
       in_plan_doc = 0, in_plan_task_key = [], in_about_doc = aboutDoc, in_about_anchor = [] \<rparr>"

definition setReviewAssignee :: "string \<Rightarrow> string \<Rightarrow> db \<Rightarrow> err + db" where
  "setReviewAssignee r tid d =
     (if r \<notin> set (actors d) then Inl (DBError ''tasks_assignee_fkey'')
      else Inr (updTask tid (\<lambda>t. t\<lparr>t_assignee := Some r\<rparr>) d))"

text \<open>Each reviewer gets one open review task about the document: one held
  already, else an unassigned one adopted, else a new one.\<close>

definition holdsReviewTask :: "db \<Rightarrow> int \<Rightarrow> string \<Rightarrow> bool" where
  "holdsReviewTask d docID r \<longleftrightarrow>
     (\<exists>t\<in>set (tasks d). t_about_doc t = Some docID \<and> t_kind t = ''review'' \<and> t_assignee t = Some r \<and> live t \<and>
        \<not> deliveredStateSet (t_state t))"

definition unassignedReviewTask :: "db \<Rightarrow> int \<Rightarrow> task option" where
  "unassignedReviewTask d docID =
     (case sortStable (\<lambda>a b. cmpOr [cmpInt (t_created_at a) (t_created_at b), strCompare (t_id a) (t_id b)])
             (filter (\<lambda>t. t_about_doc t = Some docID \<and> t_kind t = ''review'' \<and> t_assignee t = None \<and>
                t_state t \<in> {''draft'', ''ready''} \<and> live t) (tasks d)) of
        [] \<Rightarrow> None | t # _ \<Rightarrow> Some t)"

definition assignOne ::
  "(string \<Rightarrow> string) \<Rightarrow> (string \<Rightarrow> nat) \<Rightarrow> int \<Rightarrow> int \<Rightarrow> int \<Rightarrow> string \<Rightarrow> string \<Rightarrow> string \<Rightarrow> int \<Rightarrow> string \<Rightarrow>
     db \<Rightarrow> err + db" where
  "assignOne nb alts now reviewID docID project ref actorID eventID r d =
     (if holdsReviewTask d docID r then Inr d
      else andThen
        (case unassignedReviewTask d docID of
           Some t \<Rightarrow>
             if r \<notin> set (actors d) then Inl (DBError ''tasks_assignee_fkey'')
             else Inr (t_id t, updTask (t_id t) (\<lambda>t. t\<lparr>t_assignee := Some r, t_updated_at := now\<rparr>) d)
         | None \<Rightarrow>
             andThen (CreateTask nb alts now
               (reviewTaskInput project (''Review '' @ ref)
                 (''Review '' @ intStr reviewID @ '' over '' @ ref @ '' is open. Read it with `lode review show '' @
                    intStr reviewID @ ''`.'' @ [CHR 0x0A]) docID actorID) eventID d) (\<lambda>(t, d1).
             andThen (setReviewAssignee r (t_id t) d1) (\<lambda>d2. Inr (t_id t, d2))))
        (\<lambda>(tid, d3). Inr (LogChange ''task'' tid eventID (assigneeChange [] r) d3)))"

definition assignReviewTasks ::
  "(string \<Rightarrow> string) \<Rightarrow> (string \<Rightarrow> nat) \<Rightarrow> int \<Rightarrow> int \<Rightarrow> int \<Rightarrow> string \<Rightarrow> string list \<Rightarrow> string \<Rightarrow> int \<Rightarrow>
     db \<Rightarrow> err + db" where
  "assignReviewTasks nb alts now reviewID docID project reviewers actorID eventID d =
     andThen (docRef d docID) (\<lambda>ref.
     foldE (assignOne nb alts now reviewID docID project ref actorID eventID) reviewers d)"

definition gitSHA :: "string \<Rightarrow> bool" where
  "gitSHA s \<longleftrightarrow> length s = 40 \<and> (\<forall>c\<in>set s. isDigit c \<or> c \<in> set ''abcdef'')"

definition addTaskReviewer :: "string \<Rightarrow> string \<times> int \<Rightarrow> db \<Rightarrow> db" where
  "addTaskReviewer tid r d =
     (if \<exists>x\<in>set (task_reviewers d). tr_task x = tid \<and> tr_actor x = fst r then d
      else d\<lparr>task_reviewers := task_reviewers d @ [\<lparr>tr_task = tid, tr_actor = fst r, tr_assigned_at = snd r\<rparr>]\<rparr>)"

definition SetTaskReviewers :: "int \<Rightarrow> string \<Rightarrow> string list \<Rightarrow> db \<Rightarrow> err + db" where
  "SetTaskReviewers now tid reviewers d =
     (case taskRow d tid of
        None \<Rightarrow> Inl ErrNotFound
      | Some t \<Rightarrow>
          if taskClosed d t then Inl ErrInvalidInput
          else andThen (foldE (\<lambda>r (_ :: unit). checkActorExists d r) reviewers ()) (\<lambda>_.
               Inr (fold (addTaskReviewer tid)
                      (map (\<lambda>i. (reviewers ! i, now + int i)) [0..<length reviewers])
                      (d\<lparr>task_reviewers := filter (\<lambda>r. tr_task r \<noteq> tid) (task_reviewers d)\<rparr>))))"

text \<open>The default roster: the creator when human, else the project's lead.\<close>

definition defaultReviewer :: "db \<Rightarrow> task \<Rightarrow> string" where
  "defaultReviewer d t =
     (let createdBy = orText (t_created_by t) in
      if map_of (actor_kinds d) createdBy = Some ''human'' then createdBy
      else orText (map_of (project_leads d) (t_project t)))"

definition changeReviewBody :: "db \<Rightarrow> int \<Rightarrow> string \<Rightarrow> string" where
  "changeReviewBody d i tid =
     (let urls = map gp_url
            (sortStable (\<lambda>a b. cmpOr [strCompare (gp_repo a) (gp_repo b), cmpInt (gp_number a) (gp_number b)])
              (filter (\<lambda>p. gp_task p = Some tid \<and> gp_url p \<noteq> []) (pull_requests d)));
          nl = [CHR 0x0A]
      in ''Review '' @ intStr i @ '' over the change of '' @ tid @ '' is open. Read it with `lode review show '' @
         intStr i @ ''`.'' @ nl @
         (if urls = [] then [] else nl @ ''Pull requests:'' @ nl @ concat (map (\<lambda>u. ''- '' @ u @ nl) urls)))"

text \<open>The reviewer's own task, which the reviewed task waits for.\<close>

definition changeReviewTask ::
  "(string \<Rightarrow> string) \<Rightarrow> (string \<Rightarrow> nat) \<Rightarrow> int \<Rightarrow> string \<Rightarrow> string \<Rightarrow> string \<Rightarrow> string \<Rightarrow> int \<Rightarrow> string \<Rightarrow>
     db \<Rightarrow> err + db" where
  "changeReviewTask nb alts ts tid project body actorID eventID r d =
     andThen (CreateTask nb alts ts (reviewTaskInput project (''Review '' @ tid) body 0 actorID) eventID d) (\<lambda>(t, d1).
     andThen (setReviewAssignee r (t_id t) d1) (\<lambda>d2.
     AddEdge ts tid (t_id t) ''dependsOn'' eventID
       (LogChange ''task'' (t_id t) eventID (assigneeChange [] r) d2)))"

definition reviewableState :: "string \<Rightarrow> bool \<Rightarrow> bool" where
  "reviewableState st allowReady \<longleftrightarrow> st = ''in_review'' \<or> st = ''in_progress'' \<or> (st = ''ready'' \<and> allowReady)"

definition rosterOrDefault :: "int \<Rightarrow> task \<Rightarrow> db \<Rightarrow> err + string list \<times> db" where
  "rosterOrDefault ts t d =
     (let reviewers = taskReviewers d (t_id t) in
      if reviewers \<noteq> [] then Inr (reviewers, d)
      else if defaultReviewer d t = [] then Inl ErrInvalidInput
      else andThen (SetTaskReviewers ts (t_id t) [defaultReviewer d t] d) (\<lambda>d1. Inr ([defaultReviewer d t], d1)))"

definition openTaskReview ::
  "(string \<Rightarrow> string) \<Rightarrow> (string \<Rightarrow> nat) \<Rightarrow> int \<Rightarrow> open_review_input \<Rightarrow> string \<Rightarrow> int \<Rightarrow> db \<Rightarrow>
     err + review_view \<times> db" where
  "openTaskReview nb alts now inp actorID eventID d =
     (if \<not> gitSHA (oi_base_ref inp) then Inl ErrInvalidInput
      else case row (\<lambda>t. t_id t = oi_task inp \<and> live t) (tasks d) of
        None \<Rightarrow> Inl ErrNotFound
      | Some t \<Rightarrow>
          let ts = truncSec now in
          if \<not> reviewableState (t_state t) (oi_allow_ready inp) then Inl ErrInvalidInput
          else
            andThen (rosterOrDefault ts t d) (\<lambda>(reviewers, d1).
            andThen (insertReview (newReview (Some (oi_task inp)) None ''change'' (oi_base_ref inp) actorID ts) d1)
              (\<lambda>(i, d2).
            andThen (if t_state t = ''in_review'' then Inr d2
                     else Transition ts (oi_task inp) (t_state t) ''in_review'' eventID d2) (\<lambda>d3.
            andThen (foldE (changeReviewTask nb alts ts (oi_task inp) (t_project t)
                       (changeReviewBody d3 i (oi_task inp)) actorID eventID) reviewers d3) (\<lambda>d4.
            andThen (recordReviewEvent ts ''wl:ReviewOpened'' (iri_CURIE (iri_Review i)) actorID eventID
                       (if oi_reason inp = [] then [] else [(''wl:reason'', JStr (oi_reason inp))]) d4) (\<lambda>d5.
            withView i d5))))))"

definition OpenReview ::
  "(string \<Rightarrow> string) \<Rightarrow> (string \<Rightarrow> nat) \<Rightarrow> int \<Rightarrow> open_review_input \<Rightarrow> string \<Rightarrow> int \<Rightarrow> db \<Rightarrow>
     err + review_view \<times> db" where
  "OpenReview nb alts now inp actorID eventID d =
     (if oi_task inp \<noteq> []
      then (if oi_doc inp \<noteq> 0 then Inl ErrInvalidInput else openTaskReview nb alts now inp actorID eventID d)
      else if oi_doc inp = 0 then Inl ErrInvalidInput
      else case docRow d (oi_doc inp) of
        None \<Rightarrow> Inl ErrNotFound
      | Some x \<Rightarrow>
          let reviewers = docReviewers d (oi_doc inp); ts = truncSec now in
          if d_status x = ''superseded'' then Inl ErrInvalidInput
          else if reviewers = [] then Inl ErrInvalidInput
          else
            andThen (insertReview (newReview None (Some (oi_doc inp)) ''doc'' (intStr (d_version x)) actorID ts) d)
              (\<lambda>(i, d1).
            andThen (RequestDocApproval ts (oi_doc inp) (d_version x) d1) (\<lambda>d2.
            andThen (assignReviewTasks nb alts ts i (oi_doc inp) (d_project x) reviewers actorID eventID d2) (\<lambda>d3.
            andThen (recordReviewEvent ts ''wl:ReviewOpened'' (iri_CURIE (iri_Review i)) actorID eventID [] d3) (\<lambda>d4.
            withView i d4)))))"

section \<open>Rounds\<close>

record reanchor =
  rn_thread :: int
  rn_anchor :: review_anchor
  rn_status :: string

record round_input =
  ri_verdict :: string
  ri_note :: string
  ri_client :: string
  ri_focused :: bool
  ri_threads :: "thread_input list"
  ri_base_ref :: string
  ri_reanchors :: "reanchor list"

definition roundClients :: "string list" where
  "roundClients = [''crit'', ''web'', ''cli'', ''agent'']"

definition verdictDecisions :: "(string \<times> string) list" where
  "verdictDecisions = [(''approved'', ''approve''), (''changes_requested'', ''request_changes'')]"

definition lockReviewTask :: "db \<Rightarrow> int \<Rightarrow> string" where
  "lockReviewTask d i =
     (case row (\<lambda>r. rv_id r = i) (reviews d) of
        None \<Rightarrow> []
      | Some r \<Rightarrow>
          (case rv_task r of None \<Rightarrow> []
           | Some tid \<Rightarrow> (case taskRow d tid of None \<Rightarrow> [] | Some t \<Rightarrow> t_state t)))"

definition checkNotSelfApproval :: "db \<Rightarrow> string \<Rightarrow> string \<Rightarrow> err + unit" where
  "checkNotSelfApproval d tid actorID =
     (if \<exists>t\<in>set (tasks d). t_id t = tid \<and>
           (t_assignee t = Some actorID \<or>
            (\<exists>l\<in>set (leases d). l_task l = tid \<and> l_released_at l = None \<and> l_actor l = actorID))
      then Inl ErrForbidden else Inr ())"

definition decideReviewerLane :: "int \<Rightarrow> review \<Rightarrow> string \<Rightarrow> string \<Rightarrow> db \<Rightarrow> err + db" where
  "decideReviewerLane ts r actorID decision d =
     (let entity = DocEntityID (orID (rv_doc r)) in
      andThen (InsertAwaitingApproval ts ''doc'' entity (rv_base_ref r) actorID None (Some actorID) None d) (\<lambda>(_, d1).
      andThen (ApprovalByKey d1 ''doc'' entity (rv_base_ref r) actorID) (\<lambda>lane.
      if Some (ap_state lane) = DecisionState decision then Inr d1
      else andThen (DecideApproval \<lparr>in_approval = ap_id lane, in_decision = decision, in_actor = actorID,
                      in_groups = [], in_now = ts\<rparr> d1) (\<lambda>(_, d2). Inr d2))))"

definition updReview :: "int \<Rightarrow> (review \<Rightarrow> review) \<Rightarrow> db \<Rightarrow> db" where
  "updReview i f d = d\<lparr>reviews := updWhere (\<lambda>r. rv_id r = i) f (reviews d)\<rparr>"

definition insertRound :: "review_round \<Rightarrow> db \<Rightarrow> err + db" where
  "insertRound r d =
     (if \<exists>x\<in>set (review_rounds d). rr_review x = rr_review r \<and> rr_round x = rr_round r
      then Inl (DBError ''review_rounds_pkey'')
      else if rr_actor r \<notin> set (actors d) then Inl (DBError ''review_rounds_actor_id_fkey'')
      else Inr (d\<lparr>review_rounds := review_rounds d @ [r]\<rparr>))"

definition roundEvent :: "string \<Rightarrow> round_input \<Rightarrow> int \<Rightarrow> (string \<times> json) list" where
  "roundEvent role inp n =
     [(''wl:reviewRole'', JStr role), (''wl:client'', JStr (ri_client inp)), (''wl:focused'', JBool (ri_focused inp)),
      (''wl:threadCount'', JInt n)]"

text \<open>The part of a reviewer's round that records it: the row, the counter, the
  document's lane and the derived state.\<close>

definition recordRound ::
  "int \<Rightarrow> review \<Rightarrow> round_input \<Rightarrow> string \<Rightarrow> string \<Rightarrow> db \<Rightarrow> err + review_view \<times> db" where
  "recordRound ts r inp decision actorID d =
     andThen (insertRound \<lparr>rr_review = rv_id r, rr_round = rv_round r + 1, rr_actor = actorID,
        rr_client = ri_client inp, rr_base_ref = rv_base_ref r, rr_focused = ri_focused inp,
        rr_note = ri_note inp, rr_verdict = ri_verdict inp, rr_submitted_at = ts\<rparr> d) (\<lambda>d1.
     let d2 = updReview (rv_id r) (\<lambda>x. x\<lparr>rv_round := rv_round x + 1\<rparr>) d1 in
     andThen (if orID (rv_doc r) \<noteq> 0 then decideReviewerLane ts r actorID decision d2 else Inr d2) (\<lambda>d3.
     andThen (getReview d3 (rv_id r)) (\<lambda>v.
     let st = reviewState (vw_reviewers v) (vw_rounds v) (rv_base_ref (vw_row v))
                (BlocksApproval (map tv_thread (vw_threads v)))
     in Inr (v\<lparr>vw_row := (vw_row v)\<lparr>rv_state := st\<rparr>\<rparr>, updReview (rv_id r) (\<lambda>x. x\<lparr>rv_state := st\<rparr>) d3))))"

definition SubmitReviewerRound ::
  "renderer \<Rightarrow> int \<Rightarrow> int \<Rightarrow> round_input \<Rightarrow> string \<Rightarrow> int \<Rightarrow> db \<Rightarrow> err + review_view \<times> db" where
  "SubmitReviewerRound rd now reviewID inp actorID eventID d =
     (case map_of verdictDecisions (ri_verdict inp) of
        None \<Rightarrow> Inl ErrInvalidInput
      | Some decision \<Rightarrow>
          if ri_client inp \<notin> set roundClients then Inl ErrInvalidInput
          else
            let taskState = lockReviewTask d reviewID; ts = truncSec now;
                subject = iri_CURIE (iri_Review reviewID) in
            andThen (lockReview d reviewID) (\<lambda>r.
            andThen (if orText (rv_task r) \<noteq> [] then checkNotSelfApproval d (orText (rv_task r)) actorID
                     else Inr ()) (\<lambda>_.
            if actorID \<notin> set (reviewRoster d r) then Inl ErrForbidden
            else
              andThen (foldE (\<lambda>th d. andThen (OpenThread rd now reviewID th actorID [] [] eventID d) (\<lambda>(_, d'). Inr d'))
                         (ri_threads inp) d) (\<lambda>d1.
              if ri_verdict inp = ''approved'' \<and> BlocksApproval (map tv_thread (reviewThreads d1 reviewID))
              then Inl ErrInvalidInput
              else
                andThen (recordRound ts r inp decision actorID d1) (\<lambda>(v, d2).
                andThen (recordReviewEvent ts ''wl:ReviewRoundSubmitted'' subject actorID eventID
                           (roundEvent ''reviewer'' inp (int (length (ri_threads inp)))) d2) (\<lambda>d3.
                andThen (recordReviewEvent ts ''wl:ReviewVerdictRecorded'' subject actorID eventID
                           [(''wl:reviewVerdict'', JStr (''wlc:'' @ ri_verdict inp))] d3) (\<lambda>d4.
                andThen (if taskState = ''in_review'' \<and> ri_verdict inp = ''changes_requested''
                         then transitionKnown climbFuel ts eventID (orText (rv_task r)) taskState ''in_review''
                                ''in_progress'' d4
                         else Inr d4) (\<lambda>d5. Inr (v, d5)))))))))"

definition advanceReview :: "int \<Rightarrow> string \<Rightarrow> db \<Rightarrow> db" where
  "advanceReview i baseRef =
     updReview i (\<lambda>x. x\<lparr>rv_base_ref := baseRef, rv_round := rv_round x + 1, rv_state := ''open''\<rparr>)"

text \<open>One re-anchor; the threads still open and not named before are carried
  along.\<close>

definition reanchorOne :: "int \<Rightarrow> string \<Rightarrow> int \<Rightarrow> reanchor \<Rightarrow> int list \<times> db \<Rightarrow> err + int list \<times> db" where
  "reanchorOne ts actorID eventID ra s =
     (case s of (open_ids, d) \<Rightarrow>
        if rn_thread ra \<notin> set open_ids then Inl ErrInvalidInput
        else
          let rest = filter (\<lambda>i. i \<noteq> rn_thread ra) open_ids; a = rn_anchor ra in
          if rn_status ra = ''obsolete''
          then andThen (ResolveThread ts (rn_thread ra) actorID ''obsolete'' eventID d) (\<lambda>d1. Inr (rest, d1))
          else if rn_status ra = [] \<and> ra_line a > 0 \<and> ra_blob_sha a \<noteq> []
          then (if \<not> int4 (Some (ra_line a)) then Inl (DBError ''integer out of range'')
                else Inr (rest, updThread (rn_thread ra)
                       (\<lambda>t. t\<lparr>th_line := Some (ra_line a), th_blob_sha := Some (ra_blob_sha a)\<rparr>) d))
          else Inl ErrInvalidInput)"

definition submitChangeAuthorRound ::
  "int \<Rightarrow> review \<Rightarrow> thread_view list \<Rightarrow> round_input \<Rightarrow> string \<Rightarrow> int \<Rightarrow> db \<Rightarrow> err + review_view \<times> db" where
  "submitChangeAuthorRound now r threads inp actorID eventID d =
     (let ts = truncSec now;
          open_ids = map (\<lambda>t. th_id (tv_thread t)) (filter (\<lambda>t. th_status (tv_thread t) = ''open'') threads);
          tid = orText (rv_task r)
      in if \<not> gitSHA (ri_base_ref inp) then Inl ErrInvalidInput
         else if ri_base_ref inp = rv_base_ref r then Inl ErrInvalidInput
         else
           andThen (foldE (reanchorOne ts actorID eventID) (ri_reanchors inp) (open_ids, d)) (\<lambda>(_, d1).
           andThen (recordReviewEvent ts ''wl:ReviewRoundSubmitted'' (iri_CURIE (iri_Review (rv_id r))) actorID eventID
                      (roundEvent ''author'' inp 0) (advanceReview (rv_id r) (ri_base_ref inp) d1)) (\<lambda>d2.
           case taskRow d2 tid of
             None \<Rightarrow> Inl (DBError ''no rows'')
           | Some t \<Rightarrow>
               andThen (if t_state t = ''in_progress''
                        then Transition ts tid ''in_progress'' ''in_review'' eventID d2 else Inr d2) (\<lambda>d3.
               withView (rv_id r) d3))))"

definition SubmitAuthorRound ::
  "int \<Rightarrow> int \<Rightarrow> round_input \<Rightarrow> string \<Rightarrow> int \<Rightarrow> db \<Rightarrow> err + review_view \<times> db" where
  "SubmitAuthorRound now reviewID inp actorID eventID d =
     (if ri_verdict inp \<noteq> [] then Inl ErrInvalidInput
      else if ri_client inp \<notin> set roundClients then Inl ErrInvalidInput
      else
        andThen (lockReview d reviewID) (\<lambda>r.
        andThen (reviewAuthor d (orID (rv_doc r)) (orText (rv_task r))) (\<lambda>author.
        let threads = reviewThreads d reviewID; doc = orID (rv_doc r); ts = truncSec now in
        if author = [] \<or> actorID \<noteq> author then Inl ErrForbidden
        else if OpenQuestion (map tv_thread threads) then Inl ErrInvalidInput
        else if doc = 0 then submitChangeAuthorRound now r threads inp actorID eventID d
        else case docRow d doc of
          None \<Rightarrow> Inl (DBError ''no rows'')
        | Some x \<Rightarrow>
            let current = intStr (d_version x) in
            if ri_base_ref inp \<noteq> current then Inl ErrInvalidInput
            else if ri_base_ref inp = rv_base_ref r then Inl ErrInvalidInput
            else
              andThen (RequestDocApproval ts doc (d_version x) (advanceReview reviewID current d)) (\<lambda>d1.
              andThen (recordReviewEvent ts ''wl:ReviewRoundSubmitted'' (iri_CURIE (iri_Review reviewID)) actorID
                         eventID (roundEvent ''author'' inp 0) d1) (\<lambda>d2.
              withView reviewID d2)))))"

section \<open>Questions and closing\<close>

definition escalateOnQuestions :: "int \<Rightarrow> string \<Rightarrow> string \<Rightarrow> string \<Rightarrow> int \<Rightarrow> db \<Rightarrow> err + db" where
  "escalateOnQuestions now tid escalation actorID eventID d =
     (let body = ''Escalated to '' @ escalation @
            '': the plan or spec does not cover this, so the answer waits on it.'';
          ids = sortStable cmpInt (map th_id
            (filter (\<lambda>t. th_intent t = ''question'' \<and> th_status t = ''open'' \<and>
               (\<exists>r\<in>set (reviews d). th_review t = Some (rv_id r) \<and> rv_task r = Some tid \<and> rv_closed_at r = None))
              (review_threads d)))
      in foldE (\<lambda>i d. andThen (ReplyThread now i body actorID eventID d) (\<lambda>(_, d'). Inr d')) ids d)"

definition closeDocReview :: "int \<Rightarrow> int \<Rightarrow> string \<Rightarrow> int \<Rightarrow> db \<Rightarrow> err + db" where
  "closeDocReview now docID result eventID d =
     (case row (\<lambda>r. rv_doc r = Some docID \<and> rv_closed_at r = None) (reviews d) of
        None \<Rightarrow> Inr d
      | Some r \<Rightarrow> CloseReview now (rv_id r) result eventID d)"

end
