(* ===== verification/ReviewInv.thy ===== *)
theory ReviewInv
  imports Reviews
begin

text \<open>
  What the tables of reviews keep (one open review per subject, messages
  numbered without gaps or repeats, rounds of known reviews), the operations that
  leave these tables alone, and the operations on threads, which keep it.
\<close>

section \<open>Reading a run that succeeded off its steps\<close>

lemma guard_Inr_iff: "(if c then Inl e else x) = Inr y \<longleftrightarrow> \<not> c \<and> x = Inr y"
  by simp

lemma found_Inr_iff:
  "(case z of None \<Rightarrow> Inl e | Some y \<Rightarrow> f y) = Inr x \<longleftrightarrow> (\<exists>y. z = Some y \<and> f y = Inr x)"
  by (cases z) simp_all

lemmas run_steps = Let_def guard_Inr_iff found_Inr_iff andThen_Inr_iff split_paired_Ex prod.case sum.inject prod.inject

section \<open>Which operations leave the review tables alone\<close>

definition rtables where
  "rtables d = (reviews d, next_review_id d, review_threads d, next_thread_id d, review_messages d,
     next_message_id d, review_rounds d)"

lemma rtables_simps [simp]:
  "rtables (LogChange k i e c d) = rtables d"
  "rtables (appendEvent s x ty pl at d) = rtables d"
  "rtables (updTask i f d) = rtables d"
  "rtables (updApproval j g d) = rtables d"
  "rtables (setDocStatus now did st d) = rtables d"
  "rtables (d\<lparr>task_governed_by := gs\<rparr>) = rtables d"
  "rtables (d\<lparr>task_edges := es\<rparr>) = rtables d"
  "rtables (d\<lparr>projects := ps\<rparr>) = rtables d"
  "rtables (d\<lparr>tasks := ts\<rparr>) = rtables d"
  "rtables (d\<lparr>task_reviewers := rs\<rparr>) = rtables d"
  "rtables (d\<lparr>approvals := aps\<rparr>) = rtables d"
  "rtables (d\<lparr>next_approval_id := n\<rparr>) = rtables d"
  "rtables (d\<lparr>doc_sections := ss\<rparr>) = rtables d"
  by (simp_all add: rtables_def LogChange_def appendEvent_def updTask_def updApproval_def setDocStatus_def)

lemma rt_event: "recordReviewEvent at ty s a i props d = Inr d' \<Longrightarrow> rtables d' = rtables d"
  by (auto simp: recordReviewEvent_def Let_def split: if_splits)

lemma rt_foldE:
  "(\<And>x s s'. f x s = Inr s' \<Longrightarrow> rtables s' = rtables s) \<Longrightarrow> foldE f xs d = Inr d' \<Longrightarrow> rtables d' = rtables d"
  by (rule foldE_invariant[where P = "\<lambda>s. rtables s = rtables d" and xs = xs and f = f]) simp_all

lemma rt_createTask: "CreateTask nb alts now inp ev d = Inr (t, d') \<Longrightarrow> rtables d' = rtables d"
  by (auto simp: CreateTask_def allocTaskNum_def insertTask_def Let_def andThen_Inr_iff
      split: if_splits option.splits prod.splits)

lemma rt_assignee: "setReviewAssignee r i d = Inr d' \<Longrightarrow> rtables d' = rtables d"
  by (auto simp: setReviewAssignee_def split: if_splits)

lemma rt_addEdge: "AddEdge now a b ty ev d = Inr d' \<Longrightarrow> rtables d' = rtables d"
  by (drule AddEdge_InrD(2)) (auto simp: insertEdge_def logEdge_def split: if_splits)

lemma rt_insertApproval: "insertApproval a d = Inr (b, d') \<Longrightarrow> rtables d' = rtables d"
  by (auto simp: insertApproval_def Let_def split: if_splits)

lemma rt_awaiting:
  "InsertAwaitingApproval now k e r l ro ra cb d = Inr (b, d') \<Longrightarrow> rtables d' = rtables d"
  unfolding InsertAwaitingApproval_def by (rule rt_insertApproval)

lemma rt_request:
  assumes "RequestDocApproval now i v d = Inr d'" shows "rtables d' = rtables d"
proof -
  have "foldE (requestOne now (DocEntityID i) (intStr v)) (docReviewers d i) d = Inr d'"
    using assms by (simp add: RequestDocApproval_def Let_def split: if_splits)
  then show ?thesis
    by (rule rt_foldE[rotated]) (auto simp: requestOne_def andThen_Inr_iff dest!: rt_awaiting)
qed

lemma rt_decide: "DecideApproval inp d = Inr (a, d') \<Longrightarrow> rtables d' = rtables d"
proof -
  have g: "decideGuard inp a0 d = Inr (a1, d1) \<Longrightarrow> rtables d1 = rtables d" for a0 a1 d1
    by (auto simp: decideGuard_def andThen_Inr_iff split: if_splits prod.splits)
  have c: "rtables (clearPatchedOnFullApproval a st d1) = rtables d1" for a st d1
    by (simp add: clearPatchedOnFullApproval_def ClearPatchedSections_def split: option.split)
  have r: "reopenDependentReview now i d1 = Inr d2 \<Longrightarrow> rtables d2 = rtables d1" for now i d1 d2
    by (auto simp: reopenDependentReview_def andThen_Inr_iff dest!: rt_awaiting split: option.splits if_splits)
  show "DecideApproval inp d = Inr (a, d') \<Longrightarrow> rtables d' = rtables d"
    by (auto simp: DecideApproval_def andThen_Inr_iff Let_def ResolveApproval_def c
        split: option.splits if_splits dest!: g r)
qed

lemma rt_lane: "decideReviewerLane ts r a dec d = Inr d' \<Longrightarrow> rtables d' = rtables d"
  by (auto simp: decideReviewerLane_def Let_def andThen_Inr_iff dest!: rt_awaiting rt_decide split: if_splits)

lemma rt_setReviewers: "SetTaskReviewers now i rs d = Inr d' \<Longrightarrow> rtables d' = rtables d"
proof -
  have "rtables (fold (addTaskReviewer i) xs s) = rtables s" for xs s
    by (induction xs arbitrary: s) (simp_all add: addTaskReviewer_def)
  then show "SetTaskReviewers now i rs d = Inr d' \<Longrightarrow> rtables d' = rtables d"
    by (auto simp: SetTaskReviewers_def andThen_Inr_iff split: option.splits if_splits)
qed

lemma rt_assignTasks:
  assumes "assignReviewTasks nb alts now i doc p rs a ev d = Inr d'" shows "rtables d' = rtables d"
proof -
  have one: "rtables s' = rtables s" if "assignOne nb alts now i doc p ref a ev r s = Inr s'" for ref r s s'
    using that
    by (auto simp: assignOne_def andThen_Inr_iff dest!: rt_createTask rt_assignee split: if_splits option.splits)
  obtain ref where "foldE (assignOne nb alts now i doc p ref a ev) rs d = Inr d'"
    using assms by (auto simp: assignReviewTasks_def andThen_Inr_iff)
  then show ?thesis by (rule rt_foldE[rotated]) (rule one)
qed

lemma rt_changeTasks:
  assumes "foldE (changeReviewTask nb alts ts tid p b a ev) rs d = Inr d'" shows "rtables d' = rtables d"
  using assms
  by (rule rt_foldE[rotated])
     (auto simp: changeReviewTask_def andThen_Inr_iff dest!: rt_createTask rt_assignee rt_addEdge)

lemma rt_roster: "rosterOrDefault ts t d = Inr (rs, d') \<Longrightarrow> rtables d' = rtables d"
  by (auto simp: rosterOrDefault_def Let_def andThen_Inr_iff dest!: rt_setReviewers split: if_splits)

section \<open>What the tables keep\<close>

definition sameSubject :: "review \<Rightarrow> review \<Rightarrow> bool" where
  "sameSubject r s \<longleftrightarrow>
     rv_task r \<noteq> None \<and> rv_task r = rv_task s \<or> rv_doc r \<noteq> None \<and> rv_doc r = rv_doc s"

definition isClosed :: "review \<Rightarrow> bool" where
  "isClosed r \<longleftrightarrow> rv_state r = ''closed''"

text \<open>The place of a message: its number in the review, or in its thread.\<close>

definition slot :: "review_message \<Rightarrow> int option \<times> int option \<times> int" where
  "slot m = (rm_review m, if rm_review m = None then Some (rm_thread m) else None, rm_seq m)"

definition rowsOk :: "db \<Rightarrow> bool" where
  "rowsOk d \<longleftrightarrow> distinct (map rv_id (reviews d)) \<and> 0 < next_review_id d \<and>
     (\<forall>r\<in>set (reviews d). 0 < rv_id r \<and> rv_id r < next_review_id d \<and> 1 \<le> rv_next_seq r \<and>
        (isClosed r \<longleftrightarrow> rv_closed_at r \<noteq> None)) \<and>
     (\<forall>r\<in>set (reviews d). \<forall>s\<in>set (reviews d). \<not> isClosed r \<longrightarrow> \<not> isClosed s \<longrightarrow> sameSubject r s \<longrightarrow> r = s)"

definition threadsOk :: "db \<Rightarrow> bool" where
  "threadsOk d \<longleftrightarrow> distinct (map th_id (review_threads d)) \<and>
     (\<forall>t\<in>set (review_threads d). th_id t < next_thread_id d) \<and>
     distinct (map rm_id (review_messages d)) \<and> (\<forall>m\<in>set (review_messages d). rm_id m < next_message_id d) \<and>
     (\<forall>m\<in>set (review_messages d). \<exists>t\<in>set (review_threads d). th_id t = rm_thread m \<and> th_review t = rm_review m)"

definition numbersOf :: "db \<Rightarrow> int \<Rightarrow> int set" where
  "numbersOf d i = rm_seq ` {m \<in> set (review_messages d). rm_review m = Some i}"

definition numbersOk :: "db \<Rightarrow> bool" where
  "numbersOk d \<longleftrightarrow> distinct (map slot (review_messages d)) \<and>
     (\<forall>r\<in>set (reviews d). numbersOf d (rv_id r) = {1..<rv_next_seq r}) \<and>
     (\<forall>m\<in>set (review_messages d). rm_review m \<noteq> None \<longrightarrow> rm_review m \<in> Some ` rv_id ` set (reviews d))"

definition roundsOk :: "db \<Rightarrow> bool" where
  "roundsOk d \<longleftrightarrow> distinct (map (\<lambda>x. (rr_review x, rr_round x)) (review_rounds d)) \<and>
     (\<forall>x\<in>set (review_rounds d). \<exists>r\<in>set (reviews d). rv_id r = rr_review x \<and> rr_round x \<le> rv_round r)"

definition rvOk :: "db \<Rightarrow> bool" where
  "rvOk d \<longleftrightarrow> rowsOk d \<and> threadsOk d \<and> numbersOk d \<and> roundsOk d"

lemma rvOk_cong: "rtables d' = rtables d \<Longrightarrow> rvOk d' = rvOk d"
  by (simp add: rvOk_def rowsOk_def threadsOk_def numbersOk_def numbersOf_def roundsOk_def rtables_def)

lemma rowsOk_unique:
  assumes "rowsOk d" "r \<in> set (reviews d)" "s \<in> set (reviews d)" "rv_id r = rv_id s"
  shows "r = s"
  using assms distinct_map_inj[of rv_id "reviews d"] unfolding rowsOk_def by blast

text \<open>Rewriting rows of reviews in place.\<close>

definition softly :: "(review \<Rightarrow> review) \<Rightarrow> db \<Rightarrow> bool" where
  "softly f d \<longleftrightarrow> (\<forall>r\<in>set (reviews d). rv_id (f r) = rv_id r \<and> rv_task (f r) = rv_task r \<and> rv_doc (f r) = rv_doc r \<and>
     rv_next_seq (f r) = rv_next_seq r \<and> rv_round r \<le> rv_round (f r) \<and>
     (isClosed (f r) \<longleftrightarrow> rv_closed_at (f r) \<noteq> None) \<and> (isClosed r \<longrightarrow> isClosed (f r)))"

lemma rvOk_soft:
  assumes "rvOk d" "softly f d"
  shows "rvOk (d\<lparr>reviews := map f (reviews d)\<rparr>)"
proof -
  have f: "rv_id (f r) = rv_id r" "rv_task (f r) = rv_task r" "rv_doc (f r) = rv_doc r"
    "rv_next_seq (f r) = rv_next_seq r" "rv_round r \<le> rv_round (f r)"
    "isClosed (f r) \<longleftrightarrow> rv_closed_at (f r) \<noteq> None" "isClosed r \<longrightarrow> isClosed (f r)"
    if "r \<in> set (reviews d)" for r
    using assms(2) that unfolding softly_def by blast+
  let ?d = "d\<lparr>reviews := map f (reviews d)\<rparr>"
  have ids: "map rv_id (reviews ?d) = map rv_id (reviews d)" using f(1) by simp
  have rows: "rowsOk d" using assms(1) by (simp add: rvOk_def)
  have "rowsOk ?d"
    unfolding rowsOk_def
  proof (intro conjI ballI impI)
    show "distinct (map rv_id (reviews ?d))" using rows unfolding ids rowsOk_def by blast
    show "0 < next_review_id ?d" using rows by (simp add: rowsOk_def)
    fix r assume "r \<in> set (reviews ?d)"
    then obtain r0 where r0: "r0 \<in> set (reviews d)" "r = f r0" by auto
    then show "0 < rv_id r" "rv_id r < next_review_id ?d" "1 \<le> rv_next_seq r" "isClosed r = (rv_closed_at r \<noteq> None)"
      using rows f[OF r0(1)] by (simp_all add: rowsOk_def)
    fix s assume "s \<in> set (reviews ?d)" "\<not> isClosed r" "\<not> isClosed s" "sameSubject r s"
    moreover from this(1) obtain s0 where s0: "s0 \<in> set (reviews d)" "s = f s0" by auto
    ultimately have "sameSubject r0 s0" "\<not> isClosed r0" "\<not> isClosed s0"
      using r0(2) f[OF r0(1)] f[OF s0(1)] by (auto simp: sameSubject_def)
    then have "r0 = s0" using rows r0(1) s0(1) unfolding rowsOk_def by blast
    then show "r = s" using r0 s0 by simp
  qed
  moreover have "threadsOk ?d" using assms(1) by (simp add: rvOk_def threadsOk_def)
  moreover have "numbersOk ?d"
    using assms(1) f(1,4) by (simp add: rvOk_def numbersOk_def numbersOf_def image_image)
  moreover have "roundsOk ?d"
    unfolding roundsOk_def
  proof (intro conjI ballI)
    show "distinct (map (\<lambda>x. (rr_review x, rr_round x)) (review_rounds ?d))"
      using assms(1) by (simp add: rvOk_def roundsOk_def)
    fix x assume "x \<in> set (review_rounds ?d)"
    then obtain r where "r \<in> set (reviews d)" "rv_id r = rr_review x" "rr_round x \<le> rv_round r"
      using assms(1) by (auto simp: rvOk_def roundsOk_def)
    then show "\<exists>r\<in>set (reviews ?d). rv_id r = rr_review x \<and> rr_round x \<le> rv_round r"
      using f(1,5) by (intro bexI[of _ "f r"]) force+
  qed
  ultimately show ?thesis by (simp add: rvOk_def)
qed

lemma rvOk_closeRow: "rvOk d \<Longrightarrow> rvOk (closeReviewRow now i d)"
  unfolding closeReviewRow_def updWhere_def
  by (rule rvOk_soft) (auto simp: softly_def isClosed_def rvOk_def rowsOk_def)

text \<open>An open review moved on: any state but closed, never an earlier round.\<close>

lemma rvOk_updReview:
  assumes "rvOk d" "r \<in> set (reviews d)" "rv_id r = i" "\<not> isClosed r"
    and "\<And>x. rv_id (f x) = rv_id x \<and> rv_task (f x) = rv_task x \<and> rv_doc (f x) = rv_doc x \<and>
      rv_next_seq (f x) = rv_next_seq x \<and> rv_round x \<le> rv_round (f x) \<and> rv_closed_at (f x) = rv_closed_at x"
    and "\<And>x. \<not> isClosed x \<Longrightarrow> \<not> isClosed (f x)"
  shows "rvOk (updReview i f d)"
proof -
  have rows: "rowsOk d" using assms(1) by (simp add: rvOk_def)
  have one: "x = r" if "x \<in> set (reviews d)" "rv_id x = i" for x
    using rowsOk_unique[OF rows that(1) assms(2)] that(2) assms(3) by simp
  have "softly (\<lambda>x. if rv_id x = i then f x else x) d"
    unfolding softly_def
  proof
    fix x assume x: "x \<in> set (reviews d)"
    have c: "isClosed x \<longleftrightarrow> rv_closed_at x \<noteq> None" using rows x unfolding rowsOk_def by blast
    show "rv_id (if rv_id x = i then f x else x) = rv_id x \<and> rv_task (if rv_id x = i then f x else x) = rv_task x \<and>
       rv_doc (if rv_id x = i then f x else x) = rv_doc x \<and>
       rv_next_seq (if rv_id x = i then f x else x) = rv_next_seq x \<and>
       rv_round x \<le> rv_round (if rv_id x = i then f x else x) \<and>
       isClosed (if rv_id x = i then f x else x) = (rv_closed_at (if rv_id x = i then f x else x) \<noteq> None) \<and>
       (isClosed x \<longrightarrow> isClosed (if rv_id x = i then f x else x))"
    proof (cases "rv_id x = i")
      case True
      then have "x = r" using one x by blast
      then have "\<not> isClosed (f x)" "rv_closed_at x = None" "\<not> isClosed x" using assms(4,6) c by auto
      then show ?thesis using assms(5)[of x] by simp
    qed (simp add: c)
  qed
  then show ?thesis unfolding updReview_def updWhere_def by (rule rvOk_soft[OF assms(1)])
qed

lemma rvOk_insertReview:
  assumes "rvOk d" "insertReview r d = Inr (i, d')" "\<not> isClosed r" "rv_closed_at r = None" "rv_next_seq r = 1"
  shows "rvOk d' \<and> i = next_review_id d \<and> reviews d' = reviews d @ [r\<lparr>rv_id := i\<rparr>]"
proof -
  have c: "\<not> (\<exists>x\<in>set (reviews d). rv_state x \<noteq> ''closed'' \<and>
      (rv_task r \<noteq> None \<and> rv_task x = rv_task r \<or> rv_doc r \<noteq> None \<and> rv_doc x = rv_doc r))"
    using assms(2) unfolding insertReview_def by (metis Inl_Inr_False)
  then have free: "\<not> sameSubject r x \<and> \<not> sameSubject x r" if "x \<in> set (reviews d)" "\<not> isClosed x" for x
    using that unfolding sameSubject_def isClosed_def by metis
  have d': "i = next_review_id d" "d' = d\<lparr>reviews := reviews d @ [r\<lparr>rv_id := next_review_id d\<rparr>],
      next_review_id := next_review_id d + 1\<rparr>"
    using assms(2) unfolding insertReview_def if_not_P[OF c] by (auto split: if_splits)
  let ?r = "r\<lparr>rv_id := next_review_id d\<rparr>"
  have rows: "rowsOk d" "threadsOk d" "numbersOk d" "roundsOk d" using assms(1) by (simp_all add: rvOk_def)
  have r: "\<not> isClosed ?r" "\<And>x. sameSubject ?r x = sameSubject r x" "\<And>x. sameSubject x ?r = sameSubject x r"
    using assms(3) by (simp_all add: isClosed_def sameSubject_def)
  have new: "next_review_id d \<notin> rv_id ` set (reviews d)" using rows(1) by (auto simp: rowsOk_def)
  have "rowsOk d'"
    unfolding rowsOk_def
  proof (intro conjI ballI impI)
    show "distinct (map rv_id (reviews d'))" "0 < next_review_id d'"
      using rows(1) new by (simp_all add: rowsOk_def d'(2))
    fix x assume x: "x \<in> set (reviews d')"
    then show "0 < rv_id x" "rv_id x < next_review_id d'" "1 \<le> rv_next_seq x" "isClosed x = (rv_closed_at x \<noteq> None)"
      using rows(1) r(1) assms(4,5) by (auto simp: rowsOk_def d'(2))
    fix y assume y: "y \<in> set (reviews d')" "\<not> isClosed x" "\<not> isClosed y" "sameSubject x y"
    consider "x \<in> set (reviews d)" "y \<in> set (reviews d)" | "x = ?r" "y = ?r" | "x = ?r" "y \<in> set (reviews d)"
      | "y = ?r" "x \<in> set (reviews d)"
      using x y(1) by (auto simp: d'(2))
    then show "x = y"
    proof cases
      case 1
      then show ?thesis using rows(1) y unfolding rowsOk_def by blast
    next
      case 3
      then show ?thesis using free[of y] y(3,4) r(2) by simp
    next
      case 4
      then show ?thesis using free[of x] y(2,4) r(3) by simp
    qed simp
  qed
  moreover have "threadsOk d'" using rows(2) by (simp add: threadsOk_def d'(2))
  moreover have "numbersOk d'"
  proof -
    have "rm_review m \<noteq> Some (next_review_id d)" if "m \<in> set (review_messages d)" for m
      using rows(3) new that unfolding numbersOk_def by (metis imageE option.distinct(1) option.inject)
    then have "numbersOf d (next_review_id d) = {}" unfolding numbersOf_def by blast
    then show ?thesis using rows(3) assms(5) by (simp add: numbersOk_def numbersOf_def d'(2) image_Un)
  qed
  moreover have "roundsOk d'" using rows(4) by (auto simp: roundsOk_def d'(2))
  ultimately show ?thesis using d' by (simp add: rvOk_def)
qed

text \<open>Threads and messages.\<close>

lemma insertThread_InrD:
  assumes "insertThread t d = Inr (t', d')"
  shows "t' = t\<lparr>th_id := next_thread_id d\<rparr>" "th_author t \<in> set (actors d)"
    "d' = d\<lparr>review_threads := review_threads d @ [t'], next_thread_id := next_thread_id d + 1\<rparr>"
  using assms by (auto simp: insertThread_def Let_def split: if_splits)

lemma rvOk_insertThread:
  assumes "rvOk d" "insertThread t d = Inr (t', d')"
  shows "rvOk d'"
proof -
  note d' = insertThread_InrD[OF assms(2)]
  have "threadsOk d'"
    using assms(1) unfolding d'(3) by (fastforce simp: rvOk_def threadsOk_def d'(1))
  then show ?thesis
    using assms(1) unfolding d'(3)
    by (simp add: rvOk_def rowsOk_def numbersOk_def numbersOf_def roundsOk_def)
qed

lemma rvOk_updThread:
  assumes "rvOk d" "\<And>t. th_id (f t) = th_id t \<and> th_review (f t) = th_review t"
  shows "rvOk (updThread i f d)"
proof -
  let ?g = "\<lambda>t. if th_id t = i then f t else t"
  have g: "th_id (?g t) = th_id t" "th_review (?g t) = th_review t" for t using assms(2) by simp_all
  have "threadsOk (updThread i f d)"
    unfolding threadsOk_def updThread_def updWhere_def
  proof (intro conjI ballI)
    fix m assume "m \<in> set (review_messages (d\<lparr>review_threads := map ?g (review_threads d)\<rparr>))"
    then obtain t where t: "t \<in> set (review_threads d)" "th_id t = rm_thread m" "th_review t = rm_review m"
      using assms(1) by (auto simp: rvOk_def threadsOk_def)
    have "?g t \<in> set (review_threads (d\<lparr>review_threads := map ?g (review_threads d)\<rparr>))"
      using t(1) by simp
    moreover have "th_id (?g t) = rm_thread m" "th_review (?g t) = rm_review m" using t(2,3) g[of t] by simp_all
    ultimately show "\<exists>t\<in>set (review_threads (d\<lparr>review_threads := map ?g (review_threads d)\<rparr>)).
        th_id t = rm_thread m \<and> th_review t = rm_review m" by blast
  next
    have "(\<lambda>x. th_id (?g x)) = th_id" using g(1) by blast
    then show "distinct (map th_id (review_threads (d\<lparr>review_threads := map ?g (review_threads d)\<rparr>)))"
      using assms(1) by (simp add: rvOk_def threadsOk_def comp_def)
  qed (use assms in \<open>auto simp: rvOk_def threadsOk_def comp_def\<close>)
  then show ?thesis
    using assms(1) by (simp add: rvOk_def rowsOk_def numbersOk_def numbersOf_def roundsOk_def updThread_def)
qed

lemma fold_max_ge: "x \<in> set xs \<or> x = a \<Longrightarrow> x \<le> fold max xs (a :: int)"
  by (subst Max.set_eq_fold[symmetric]) auto

lemma addThreadMessage_InrD:
  assumes "addThreadMessage ts tid rvw doc body a d = Inr (m, d')"
  shows "rm_thread m = tid" "rm_review m = map_option rv_id rvw" "rm_seq m = fst (nextSeq tid rvw d)"
    "rm_id m = next_message_id d" "rm_actor m = a" "rm_body m = body"
    "d' = (snd (nextSeq tid rvw d))\<lparr>review_messages := review_messages d @ [m], next_message_id := next_message_id d + 1\<rparr>"
    "\<not> seqTaken d m" "a \<in> set (actors d)"
proof -
  have n: "review_messages (snd (nextSeq tid rvw d)) = review_messages d"
    "next_message_id (snd (nextSeq tid rvw d)) = next_message_id d" "actors (snd (nextSeq tid rvw d)) = actors d"
    by (simp_all add: nextSeq_def split: option.split)
  have t: "seqTaken (snd (nextSeq tid rvw d)) x = seqTaken d x" for x by (simp add: seqTaken_def n)
  obtain author where "insertMessage \<lparr>rm_id = 0, rm_thread = tid, rm_review = map_option rv_id rvw,
      rm_seq = fst (nextSeq tid rvw d), rm_actor = a,
      rm_role = (if author \<noteq> [] \<and> a = author then ''author'' else ''reviewer''),
      rm_body = body, rm_created_at = ts\<rparr> (snd (nextSeq tid rvw d)) = Inr (m, d')"
    using assms by (auto simp: addThreadMessage_def andThen_Inr_iff case_prod_beta Let_def)
  note i = this[unfolded insertMessage_def Let_def t n]
  show "rm_thread m = tid" "rm_review m = map_option rv_id rvw" "rm_seq m = fst (nextSeq tid rvw d)"
    "rm_id m = next_message_id d" "rm_actor m = a" "rm_body m = body"
    "d' = (snd (nextSeq tid rvw d))\<lparr>review_messages := review_messages d @ [m], next_message_id := next_message_id d + 1\<rparr>"
    "\<not> seqTaken d m" "a \<in> set (actors d)"
    using i by (auto split: if_splits)
qed

lemma rvOk_message:
  assumes ok: "rvOk d" and m: "addThreadMessage ts tid rvw doc body a d = Inr (m, d')"
    and th: "\<exists>t\<in>set (review_threads d). th_id t = tid \<and> th_review t = map_option rv_id rvw"
    and rv: "case rvw of None \<Rightarrow> True | Some r \<Rightarrow> rv_id r \<in> rv_id ` set (reviews d)"
  shows "rvOk d'"
proof -
  note msg = addThreadMessage_InrD[OF m]
  have rows: "rowsOk d" "threadsOk d" "numbersOk d" "roundsOk d" using ok by (simp_all add: rvOk_def)
  have msgs: "review_messages d' = review_messages d @ [m]" "next_message_id d' = next_message_id d + 1"
    "review_threads d' = review_threads d" "next_thread_id d' = next_thread_id d" "review_rounds d' = review_rounds d"
    "next_review_id d' = next_review_id d"
    unfolding msg(7) by (simp_all add: nextSeq_def split: option.split)
  have slot: "slot m \<notin> slot ` set (review_messages d)"
    using msg(8) unfolding seqTaken_def slot_def by (auto split: option.splits if_splits)
  have thr: "threadsOk d'"
    using rows(2) th msg(1,2,4) unfolding threadsOk_def msgs by fastforce
  show ?thesis
  proof (cases rvw)
    case None
    then have rev_same: "reviews d' = reviews d" unfolding msg(7) by (simp add: nextSeq_def)
    have "numbersOf d' i = numbersOf d i" for i
      using msg(2) None unfolding numbersOf_def msgs by auto
    then have "numbersOk d'"
      using rows(3) slot msg(2) None unfolding numbersOk_def rev_same msgs by simp
    then show ?thesis using rows thr unfolding rvOk_def rowsOk_def roundsOk_def rev_same msgs by blast
  next
    case (Some r)
    let ?b = "\<lambda>x. if rv_id x = rv_id r then x\<lparr>rv_next_seq := rv_next_seq x + 1\<rparr> else x"
    have revs: "reviews d' = map ?b (reviews d)"
      unfolding msg(7) Some by (simp add: nextSeq_def updWhere_def)
    obtain x where x: "x \<in> set (reviews d)" "rv_id x = rv_id r" using rv Some by auto
    have "row (\<lambda>y. rv_id y = rv_id r) (reviews d) = Some x"
      using row_unique[of rv_id "reviews d" x] rows(1) x by (simp add: rowsOk_def)
    then have sq: "rm_seq m = rv_next_seq x" using msg(3) Some by (simp add: nextSeq_def)
    have mr: "rm_review m = Some (rv_id r)" using msg(2) Some by simp
    have nums: "numbersOf d' i = (if i = rv_id r then insert (rv_next_seq x) (numbersOf d i) else numbersOf d i)" for i
    proof -
      have "{z \<in> set (review_messages d @ [m]). rm_review z = Some i} =
          (if i = rv_id r then insert m {z \<in> set (review_messages d). rm_review z = Some i}
           else {z \<in> set (review_messages d). rm_review z = Some i})"
        using mr by auto
      then show ?thesis unfolding numbersOf_def msgs by (simp add: sq)
    qed
    have one: "y = x" if "y \<in> set (reviews d)" "rv_id y = rv_id r" for y
      using rowsOk_unique[OF rows(1) that(1) x(1)] that(2) x(2) by simp
    have "numbersOk d'"
      unfolding numbersOk_def
    proof (intro conjI ballI impI)
      show "distinct (map slot (review_messages d'))"
        using rows(3) slot unfolding numbersOk_def msgs by simp
    next
      fix z assume "z \<in> set (reviews d')"
      then obtain y where y: "y \<in> set (reviews d)" "z = ?b y" unfolding revs by auto
      have n: "numbersOf d (rv_id y) = {1..<rv_next_seq y}" "1 \<le> rv_next_seq y"
        using rows(1,3) y(1) unfolding numbersOk_def rowsOk_def by blast+
      show "numbersOf d' (rv_id z) = {1..<rv_next_seq z}"
      proof (cases "rv_id y = rv_id r")
        case True
        then have "y = x" using one y(1) by blast
        then show ?thesis using n True y(2) unfolding nums by auto
      next
        case False
        then show ?thesis using n y(2) unfolding nums by simp
      qed
    next
      fix z assume z: "z \<in> set (review_messages d')" "rm_review z \<noteq> None"
      have "map rv_id (reviews d') = map rv_id (reviews d)" unfolding revs by simp
      then have "set (map rv_id (reviews d')) = set (map rv_id (reviews d))" by simp
      then have "rv_id ` set (reviews d') = rv_id ` set (reviews d)" unfolding list.set_map .
      show "rm_review z \<in> Some ` rv_id ` set (reviews d')"
      proof (cases "z = m")
        case True
        have "rv_id r \<in> rv_id ` set (reviews d)" using imageI[OF x(1), of rv_id] x(2) by simp
        then show ?thesis
          unfolding True mr \<open>rv_id ` set (reviews d') = rv_id ` set (reviews d)\<close> by (rule imageI)
      next
        case False
        then have "z \<in> set (review_messages d)" using z(1) unfolding msgs by simp
        then show ?thesis
          using rows(3) z(2) unfolding numbersOk_def \<open>rv_id ` set (reviews d') = rv_id ` set (reviews d)\<close> by blast
      qed
    qed
    moreover have "rowsOk d'"
      unfolding rowsOk_def
    proof (intro conjI ballI impI)
      have "map rv_id (reviews d') = map rv_id (reviews d)" unfolding revs by simp
      then show "distinct (map rv_id (reviews d'))" using rows(1) by (simp add: rowsOk_def)
      show "0 < next_review_id d'" using rows(1) msgs by (simp add: rowsOk_def)
      fix z assume "z \<in> set (reviews d')"
      then obtain y where y: "y \<in> set (reviews d)" "z = ?b y" unfolding revs by auto
      show "0 < rv_id z" "rv_id z < next_review_id d'" "1 \<le> rv_next_seq z" "isClosed z = (rv_closed_at z \<noteq> None)"
        using rows(1) y msgs(6) by (auto simp: rowsOk_def isClosed_def)
      fix z' assume z': "z' \<in> set (reviews d')" "\<not> isClosed z" "\<not> isClosed z'" "sameSubject z z'"
      then obtain y' where y': "y' \<in> set (reviews d)" "z' = ?b y'" unfolding revs by auto
      have "sameSubject y y'" "\<not> isClosed y" "\<not> isClosed y'"
        using z' y(2) y'(2) by (auto simp: sameSubject_def isClosed_def split: if_splits)
      then have "y = y'" using rows(1) y(1) y'(1) unfolding rowsOk_def by blast
      then show "z = z'" using y(2) y'(2) by simp
    qed
    moreover have "roundsOk d'"
      unfolding roundsOk_def
    proof (intro conjI ballI)
      show "distinct (map (\<lambda>x. (rr_review x, rr_round x)) (review_rounds d'))"
        using rows(4) unfolding roundsOk_def msgs by blast
      fix x assume "x \<in> set (review_rounds d')"
      then obtain y where y: "y \<in> set (reviews d)" "rv_id y = rr_review x" "rr_round x \<le> rv_round y"
        using rows(4) unfolding roundsOk_def msgs by blast
      have "?b y \<in> set (reviews d')" unfolding revs set_map by (rule imageI[OF y(1)])
      moreover have "rv_id (?b y) = rr_review x" "rr_round x \<le> rv_round (?b y)" using y(2,3) by simp_all
      ultimately show "\<exists>r\<in>set (reviews d'). rv_id r = rr_review x \<and> rr_round x \<le> rv_round r" by blast
    qed
    ultimately show ?thesis using thr by (simp add: rvOk_def)
  qed
qed

section \<open>Every operation\<close>

lemma lockReview_InrD:
  "lockReview d i = Inr r \<Longrightarrow> r \<in> set (reviews d) \<and> rv_id r = i \<and> \<not> isClosed r \<and> row (\<lambda>r. rv_id r = i) (reviews d) = Some r"
  by (auto simp: lockReview_def isClosed_def dest: row_SomeD split: option.splits if_splits)

text \<open>Reviews but for the message counters: what threads never change.\<close>

definition sansSeq :: "db \<Rightarrow> review list" where
  "sansSeq d = map (\<lambda>r. r\<lparr>rv_next_seq := 0\<rparr>) (reviews d)"

lemma message_sansSeq:
  assumes "addThreadMessage ts tid rvw doc body a d = Inr (m, d')"
  shows "sansSeq d' = sansSeq d" "review_rounds d' = review_rounds d" "review_threads d' = review_threads d"
    "tasks d' = tasks d" "docs d' = docs d" "task_edges d' = task_edges d"
  unfolding addThreadMessage_InrD(7)[OF assms]
  by (simp_all add: sansSeq_def nextSeq_def updWhere_def split: option.split)

lemma rt_sansSeq: "rtables d' = rtables d \<Longrightarrow> sansSeq d' = sansSeq d \<and> review_rounds d' = review_rounds d"
  by (simp add: rtables_def sansSeq_def)

lemma rvOk_first:
  assumes "rvOk d" "firstThreadMessage ts t rvw doc body ev d = Inr d'"
    and "\<exists>x\<in>set (review_threads d). th_id x = th_id t \<and> th_review x = map_option rv_id rvw"
    and "case rvw of None \<Rightarrow> True | Some r \<Rightarrow> rv_id r \<in> rv_id ` set (reviews d)"
  shows "rvOk d' \<and> sansSeq d' = sansSeq d \<and> review_rounds d' = review_rounds d \<and> review_threads d' = review_threads d"
proof -
  obtain m d1 where m: "addThreadMessage ts (th_id t) rvw doc body (th_author t) d = Inr (m, d1)"
    and e0: "(if th_intent t = ''question''
       then reviewEvent ts ''wl:ReviewQuestionAsked'' (th_id t) (th_author t) ev
              [(''wl:threadIntent'', JStr ''wlc:question'')] d1 else Inr d1) = Inr d'"
    using assms(2) by (auto simp: firstThreadMessage_def andThen_Inr_iff)
  have e: "d' = d1 \<or> (\<exists>ty k p. reviewEvent ts ty (th_id t) k ev p d1 = Inr d')"
    using e0 by (cases "th_intent t = ''question''") auto
  have rt: "rtables d' = rtables d1" using e rt_event unfolding reviewEvent_def by blast
  then have "review_threads d' = review_threads d1" by (simp add: rtables_def)
  then show ?thesis
    using rvOk_message[OF assms(1) m assms(3,4)] rvOk_cong[OF rt] rt_sansSeq[OF rt] message_sansSeq[OF m] by simp
qed

lemma rvOk_opened:
  assumes "rvOk d" "insertThread t0 d = Inr (t, d1)" "firstThreadMessage ts t rvw doc body ev d1 = Inr d'"
    and "th_review t0 = map_option rv_id rvw"
    and "case rvw of None \<Rightarrow> True | Some r \<Rightarrow> r \<in> set (reviews d)"
  shows "rvOk d' \<and> sansSeq d' = sansSeq d \<and> review_rounds d' = review_rounds d \<and>
     review_threads d' = review_threads d @ [t0\<lparr>th_id := next_thread_id d\<rparr>]"
proof -
  note i = insertThread_InrD[OF assms(2)]
  have r: "reviews d1 = reviews d" "review_rounds d1 = review_rounds d" "review_threads d1 = review_threads d @ [t]"
    using i(3) by simp_all
  have "rvOk d1" by (rule rvOk_insertThread[OF assms(1,2)])
  moreover have "\<exists>x\<in>set (review_threads d1). th_id x = th_id t \<and> th_review x = map_option rv_id rvw"
    using assms(4) i(1) r(3) by simp
  moreover have "case rvw of None \<Rightarrow> True | Some r \<Rightarrow> rv_id r \<in> rv_id ` set (reviews d1)"
    using assms(5) r(1) by (auto split: option.splits)
  ultimately show ?thesis using rvOk_first[OF _ assms(3)] r i(1) by (simp add: sansSeq_def)
qed

lemma openSubjectThread_InrD:
  assumes "openSubjectThread rd now rvw inp body actorID task sess ev d = Inr (t, d')"
  shows "\<exists>t0 d1 doc. insertThread t0 d = Inr (t, d1) \<and> firstThreadMessage (truncSec now) t rvw doc body ev d1 = Inr d' \<and>
    th_review t0 = map_option rv_id rvw \<and> th_status t0 = ''open'' \<and> th_intent t0 = ti_intent inp \<and> th_author t0 = actorID"
proof -
  obtain a :: review_anchor and d1 where "insertThread ((blankThread (truncSec now) inp actorID task sess)\<lparr>
       th_review := map_option rv_id rvw, th_doc := nullID (ra_doc a), th_rule := nullID (ra_rule a),
       th_version := (if isRange (ti_anchor inp) then Some (ra_version a) else None),
       th_start := (if isRange (ti_anchor inp) then Some (ra_start a) else None),
       th_end := (if isRange (ti_anchor inp) then Some (ra_end a) else None),
       th_quote := nullText (ra_quote a), th_doc_anchor := nullText (ra_doc_anchor a)\<rparr>) d = Inr (t, d1)"
    "firstThreadMessage (truncSec now) t rvw (ra_doc a) body ev d1 = Inr d'"
    using assms unfolding openSubjectThread_def run_steps
    by blast
  then show ?thesis by (intro exI conjI) (assumption | simp add: blankThread_def)+
qed

lemma OpenThread_InrE:
  assumes "OpenThread rd now rid inp actorID task sess ev d = Inr (t, d')"
  obtains t0 d1 rvw doc body ts where "insertThread t0 d = Inr (t, d1)"
    "firstThreadMessage ts t rvw doc body ev d1 = Inr d'" "th_review t0 = map_option rv_id rvw"
    "case rvw of None \<Rightarrow> rid = 0 | Some r \<Rightarrow> lockReview d rid = Inr r"
    "th_status t0 = ''open''" "th_intent t0 = ti_intent inp" "th_author t0 = actorID"
proof -
  let ?b = "trimSpace (ti_body inp)"
  obtain rvw where rv0: "(if rid = 0 then Inr None else andThen (lockReview d rid) (\<lambda>r. Inr (Some r))) = Inr rvw"
    and o0: "(case rvw of
             Some r \<Rightarrow>
               if orText (rv_task r) \<noteq> []
               then openChangeThread now r inp ?b actorID task sess ev d
               else openSubjectThread rd now rvw inp ?b actorID task sess ev d
           | None \<Rightarrow> openSubjectThread rd now rvw inp ?b actorID task sess ev d) = Inr (t, d')"
    using assms unfolding OpenThread_def Let_def
    by (cases "?b = []"; cases "ti_intent inp \<in> set threadIntents") (simp_all add: andThen_Inr_iff, blast)
  have rv: "case rvw of None \<Rightarrow> rid = 0 | Some r \<Rightarrow> lockReview d rid = Inr r"
    using rv0 by (cases "rid = 0"; cases "lockReview d rid") auto
  show ?thesis
  proof (cases "\<exists>r. rvw = Some r \<and> orText (rv_task r) \<noteq> []")
    case True
    then obtain r where r: "rvw = Some r" "openChangeThread now r inp ?b actorID task sess ev d = Inr (t, d')"
      using o0 by auto
    from r(2) obtain t0 d1 where o: "insertThread t0 d = Inr (t, d1)" "th_review t0 = Some (rv_id r)"
      "firstThreadMessage (truncSec now) t (Some r) 0 ?b ev d1 = Inr d'" "th_status t0 = ''open''"
      "th_intent t0 = ti_intent inp" "th_author t0 = actorID"
      unfolding openChangeThread_def Let_def
      by (auto simp: andThen_Inr_iff blankThread_def split: if_splits)
    have "th_review t0 = map_option rv_id (Some r)" "case Some r of None \<Rightarrow> rid = 0 | Some r \<Rightarrow> lockReview d rid = Inr r"
      using o(2) rv r(1) by simp_all
    from that[OF o(1,3) this o(4-6)] show ?thesis .
  next
    case False
    then have "openSubjectThread rd now rvw inp ?b actorID task sess ev d = Inr (t, d')"
      using o0 by (cases rvw) auto
    from openSubjectThread_InrD[OF this] obtain t0 d1 doc where o: "insertThread t0 d = Inr (t, d1)"
      "firstThreadMessage (truncSec now) t rvw doc ?b ev d1 = Inr d'" "th_review t0 = map_option rv_id rvw"
      "th_status t0 = ''open''" "th_intent t0 = ti_intent inp" "th_author t0 = actorID"
      by blast
    from that[OF o(1-3) rv o(4-6)] show ?thesis .
  qed
qed

lemma OpenThread_ok:
  assumes "rvOk d" "OpenThread rd now rid inp actorID task sess ev d = Inr (t, d')"
  shows "rvOk d' \<and> sansSeq d' = sansSeq d \<and> review_rounds d' = review_rounds d"
proof -
  obtain t0 d1 rvw doc body ts where o: "insertThread t0 d = Inr (t, d1)"
    "firstThreadMessage ts t rvw doc body ev d1 = Inr d'" "th_review t0 = map_option rv_id rvw"
    "case rvw of None \<Rightarrow> rid = 0 | Some r \<Rightarrow> lockReview d rid = Inr r"
    by (rule OpenThread_InrE[OF assms(2)])
  have "case rvw of None \<Rightarrow> True | Some r \<Rightarrow> r \<in> set (reviews d)"
    using o(4) lockReview_InrD by (auto split: option.splits)
  then show ?thesis using rvOk_opened[OF assms(1) o(1-3)] by simp
qed

lemma lockThread_InrD:
  assumes "lockThread d i = Inr (t, rvw)"
  shows "t \<in> set (review_threads d)" "th_id t = i" "th_status t = ''open''" "th_review t = map_option rv_id rvw"
    "case rvw of None \<Rightarrow> True | Some r \<Rightarrow> r \<in> set (reviews d) \<and> \<not> isClosed r"
  using assms
  by (auto simp: lockThread_def andThen_Inr_iff dest!: row_SomeD lockReview_InrD split: option.splits if_splits)

lemma ReplyThread_ok:
  assumes "rvOk d" "ReplyThread now i body a ev d = Inr (x, d')"
  shows "rvOk d' \<and> sansSeq d' = sansSeq d \<and> review_rounds d' = review_rounds d"
proof -
  obtain t rvw where l: "lockThread d i = Inr (t, rvw)"
    using assms(2) by (auto simp: ReplyThread_def Let_def andThen_Inr_iff split: if_splits)
  obtain m d1 where m: "addThreadMessage (truncSec now) i rvw (orID (th_doc t)) (trimSpace body) a d = Inr (m, d1)"
    and e0: "(if th_intent t = ''question'' \<and> \<not> (th_intent t = ''question'' \<and>
                 (\<exists>m\<in>set (review_messages d). rm_thread m = i \<and> rm_role m = ''author'')) \<and> rm_role m = ''author''
       then andThen (reviewEvent (truncSec now) ''wl:ReviewQuestionAnswered'' i a ev [] d1) (\<lambda>d2.
                   Inr ((m, True, th_created_at t), d2))
       else Inr ((m, False, th_created_at t), d1)) = Inr (x, d')"
    using assms(2) l unfolding ReplyThread_def Let_def
    by (cases "trimSpace body = []") (auto simp: andThen_Inr_iff)
  have e: "d' = d1 \<or> (\<exists>ty k p. reviewEvent (truncSec now) ty i k ev p d1 = Inr d')"
    using e0 by (auto simp: andThen_Inr_iff split: if_splits)
  note t = lockThread_InrD[OF l]
  have "rvOk d1"
  proof (rule rvOk_message[OF assms(1) m])
    show "\<exists>t\<in>set (review_threads d). th_id t = i \<and> th_review t = map_option rv_id rvw" using t by blast
    show "case rvw of None \<Rightarrow> True | Some r \<Rightarrow> rv_id r \<in> rv_id ` set (reviews d)"
      using t(5) by (auto split: option.splits)
  qed
  moreover have "rtables d' = rtables d1" using e rt_event unfolding reviewEvent_def by blast
  ultimately show ?thesis using rvOk_cong rt_sansSeq message_sansSeq[OF m] by metis
qed

lemma ResolveThread_ok:
  assumes "rvOk d" "ResolveThread now i a st ev d = Inr d'"
  shows "rvOk d' \<and> reviews d' = reviews d \<and> review_rounds d' = review_rounds d"
proof -
  let ?f = "\<lambda>t. t\<lparr>th_status := st, th_resolved_by := Some a, th_resolved_at := Some (truncSec now)\<rparr>"
  have e: "reviewEvent (truncSec now) ''wl:ReviewThreadResolved'' i a ev [(''wl:threadStatus'', JStr st)]
      (updThread i ?f d) = Inr d'"
    using assms(2) by (auto simp: ResolveThread_def Let_def andThen_Inr_iff split: if_splits)
  have "rtables d' = rtables (updThread i ?f d)" using e rt_event unfolding reviewEvent_def by blast
  moreover have "rvOk (updThread i ?f d)" by (rule rvOk_updThread[OF assms(1)]) simp
  ultimately show ?thesis
    using rvOk_cong[of d' "updThread i ?f d"] by (simp add: rtables_def updThread_def)
qed

end
