(* ===== verification/ReviewOps.thy ===== *)
theory ReviewOps
  imports ReviewInv
begin

text \<open>
  Every operation on reviews keeps what ReviewInv states of their tables: rounds
  of reviewers and authors, opening, closing, relocating; the step relation
  \<open>reviewStep\<close> collects them with the steps of the task machine.
\<close>

section \<open>Rounds and closing\<close>

lemma updReview_row:
  assumes "r \<in> set (reviews d)" "rv_id (f r) = rv_id r"
  shows "f r \<in> set (reviews (updReview (rv_id r) f d))"
  using imageI[OF assms(1), of "\<lambda>x. if rv_id x = rv_id r then f x else x"]
  by (simp add: updReview_def updWhere_def)

lemma rvOk_newRound:
  assumes ok: "rvOk d" and r: "r \<in> set (reviews d)" "\<not> isClosed r"
    and x: "insertRound x d = Inr d1" "rr_review x = rv_id r" "rr_round x = rv_round r + 1"
  shows "rvOk (updReview (rv_id r) (\<lambda>x. x\<lparr>rv_round := rv_round x + 1\<rparr>) d1)"
proof -
  let ?f = "\<lambda>x. x\<lparr>rv_round := rv_round x + 1\<rparr>" and ?d = "updReview (rv_id r) (\<lambda>x. x\<lparr>rv_round := rv_round x + 1\<rparr>) d"
  have d1: "d1 = d\<lparr>review_rounds := review_rounds d @ [x]\<rparr>"
    and new: "(rr_review x, rr_round x) \<notin> (\<lambda>x. (rr_review x, rr_round x)) ` set (review_rounds d)"
    using x(1) by (auto simp: insertRound_def split: if_splits)
  have "rvOk ?d" by (rule rvOk_updReview[OF ok r(1) _ r(2)]) (simp_all add: isClosed_def)
  moreover have "roundsOk (?d\<lparr>review_rounds := review_rounds d @ [x]\<rparr>)"
  proof -
    have "?f r \<in> set (reviews ?d)" by (rule updReview_row[OF r(1)]) simp
    then have "\<exists>y\<in>set (reviews ?d). rv_id y = rr_review x \<and> rr_round x \<le> rv_round y"
      using x(2,3) by (intro bexI[of _ "?f r"]) simp_all
    moreover have "roundsOk ?d" using \<open>rvOk ?d\<close> by (simp add: rvOk_def)
    ultimately show ?thesis
      using new unfolding roundsOk_def by (simp add: updReview_def)
  qed
  moreover have "updReview (rv_id r) ?f d1 = ?d\<lparr>review_rounds := review_rounds d @ [x]\<rparr>"
    unfolding d1 by (simp add: updReview_def)
  ultimately show ?thesis
    by (simp add: rvOk_def rowsOk_def threadsOk_def numbersOk_def numbersOf_def)
qed

lemma reviewState_open: "reviewState a b c e \<noteq> ''closed''"
  by (auto simp: reviewState_def split: option.split)

definition viewState :: "review_view \<Rightarrow> string" where
  "viewState v = reviewState (vw_reviewers v) (vw_rounds v) (rv_base_ref (vw_row v))
     (BlocksApproval (map tv_thread (vw_threads v)))"

lemma recordRound_InrE:
  assumes "recordRound ts r inp dec a d = Inr (v, d')"
  obtains d1 d3 and v0 :: review_view
  where "insertRound \<lparr>rr_review = rv_id r, rr_round = rv_round r + 1, rr_actor = a, rr_client = ri_client inp,
        rr_base_ref = rv_base_ref r, rr_focused = ri_focused inp, rr_note = ri_note inp,
        rr_verdict = ri_verdict inp, rr_submitted_at = ts\<rparr> d = Inr d1"
    "(if orID (rv_doc r) \<noteq> 0
      then decideReviewerLane ts r a dec (updReview (rv_id r) (\<lambda>x. x\<lparr>rv_round := rv_round x + 1\<rparr>) d1)
      else Inr (updReview (rv_id r) (\<lambda>x. x\<lparr>rv_round := rv_round x + 1\<rparr>) d1)) = Inr d3"
    "getReview d3 (rv_id r) = Inr v0" "v = v0\<lparr>vw_row := (vw_row v0)\<lparr>rv_state := viewState v0\<rparr>\<rparr>"
    "d' = updReview (rv_id r) (\<lambda>x. x\<lparr>rv_state := viewState v0\<rparr>) d3"
  using assms unfolding recordRound_def Let_def andThen_Inr_iff viewState_def[symmetric] sum.inject prod.inject
  by blast

text \<open>The round is recorded for the row as it was read before the threads.\<close>

lemma recordRound_ok:
  assumes ok: "rvOk d" and r: "r \<in> set (reviews d)" "\<not> isClosed r"
    and s: "recordRound ts r inp dec a d = Inr (v, d')"
  shows "rvOk d'"
proof -
  let ?f = "\<lambda>x. x\<lparr>rv_round := rv_round x + 1\<rparr>"
  obtain d1 d3 v0 where e: "insertRound \<lparr>rr_review = rv_id r, rr_round = rv_round r + 1, rr_actor = a,
        rr_client = ri_client inp, rr_base_ref = rv_base_ref r, rr_focused = ri_focused inp, rr_note = ri_note inp,
        rr_verdict = ri_verdict inp, rr_submitted_at = ts\<rparr> d = Inr d1" (is "insertRound ?x d = _")
    and l: "(if orID (rv_doc r) \<noteq> 0 then decideReviewerLane ts r a dec (updReview (rv_id r) ?f d1)
        else Inr (updReview (rv_id r) ?f d1)) = Inr d3"
    and d': "d' = updReview (rv_id r) (\<lambda>x. x\<lparr>rv_state := viewState v0\<rparr>) d3"
    by (rule recordRound_InrE[OF s])
  have x: "insertRound ?x d = Inr d1" "rr_review ?x = rv_id r" "rr_round ?x = rv_round r + 1" using e by simp_all
  have rt: "rtables d3 = rtables (updReview (rv_id r) ?f d1)"
    using l rt_lane by (auto split: if_splits)
  have "rvOk (updReview (rv_id r) ?f d1)" by (rule rvOk_newRound[OF ok r x])
  then have ok3: "rvOk d3" using rvOk_cong[OF rt] by simp
  have "?f r \<in> set (reviews (updReview (rv_id r) ?f d1))"
    by (rule updReview_row) (use x(1) r(1) in \<open>auto simp: insertRound_def split: if_splits\<close>)
  then have r3: "?f r \<in> set (reviews d3)" using rt by (simp add: rtables_def)
  show ?thesis
    unfolding d' by (rule rvOk_updReview[OF ok3 r3])
      (use r(2) in \<open>simp_all add: isClosed_def viewState_def reviewState_open\<close>)
qed

interpretation machine_reviews: machine_inv rvOk
proof unfold_locales
  fix d tid t st now d'
  assume "rvOk d" "setState now tid st d = Inr d'"
  then show "rvOk d'"
    using setState_InrD(1)[of now tid st d d'] rvOk_cong[of d' d] rtables_simps(3) by metis
next
  fix d now r assume "rvOk d"
  then show "rvOk (closeReviewRow now r d)" by (rule rvOk_closeRow)
qed (subst rvOk_cong, auto)+

text \<open>The machine leaves rounds, threads and messages alone.\<close>

abbreviation saidSame :: "db \<Rightarrow> db \<Rightarrow> bool" where
  "saidSame d0 d \<equiv> review_rounds d = review_rounds d0 \<and> review_threads d = review_threads d0 \<and>
     review_messages d = review_messages d0"

interpretation machine_said: machine_inv "saidSame d0" for d0
proof unfold_locales
  fix d tid t st now d'
  assume "saidSame d0 d" "setState now tid st d = Inr d'"
  then show "saidSame d0 d'"
    using setState_InrD(1)[of now tid st d d'] by (auto simp: updTask_def)
qed (simp_all add: LogChange_def closeReviewRow_def appendEvent_def setDocStatus_def)

lemma recordReviewEvent_ok: "rvOk d \<Longrightarrow> recordReviewEvent at ty s a i ps d = Inr d' \<Longrightarrow> rvOk d'"
  using rt_event rvOk_cong by blast

lemma sansSeq_row:
  assumes "sansSeq d' = sansSeq d" "r \<in> set (reviews d)"
  obtains r' where "r' \<in> set (reviews d')" "r'\<lparr>rv_next_seq := 0\<rparr> = r\<lparr>rv_next_seq := 0\<rparr>"
proof -
  have "r\<lparr>rv_next_seq := 0\<rparr> \<in> set (sansSeq d')"
    using imageI[OF assms(2), of "\<lambda>r. r\<lparr>rv_next_seq := 0\<rparr>"] unfolding assms(1) by (simp add: sansSeq_def)
  then obtain r' where "r' \<in> set (reviews d')" "r\<lparr>rv_next_seq := 0\<rparr> = r'\<lparr>rv_next_seq := 0\<rparr>"
    by (auto simp: sansSeq_def)
  then show ?thesis using that by simp
qed

lemma openThreads_ok:
  assumes "rvOk d"
    and "foldE (\<lambda>th d. andThen (OpenThread rd now i th a [] [] ev d) (\<lambda>(_, d'). Inr d')) ths d = Inr d'"
  shows "rvOk d' \<and> sansSeq d' = sansSeq d \<and> review_rounds d' = review_rounds d"
proof (rule foldE_invariant[where P = "\<lambda>s. rvOk s \<and> sansSeq s = sansSeq d \<and> review_rounds s = review_rounds d",
    OF _ _ assms(2)])
  fix th s s'
  assume s: "rvOk s \<and> sansSeq s = sansSeq d \<and> review_rounds s = review_rounds d"
    and o: "andThen (OpenThread rd now i th a [] [] ev s) (\<lambda>(_, d'). Inr d') = Inr s'"
  from o obtain t where "OpenThread rd now i th a [] [] ev s = Inr (t, s')" by (auto simp: andThen_Inr_iff)
  from OpenThread_ok[OF _ this] s show "rvOk s' \<and> sansSeq s' = sansSeq d \<and> review_rounds s' = review_rounds d" by simp
qed (use assms(1) in simp)

text \<open>A review keeps its row, but for the counter of messages.\<close>

lemma sansSeq_fields:
  assumes "r\<lparr>rv_next_seq := 0\<rparr> = r0\<lparr>rv_next_seq := 0\<rparr>"
  shows "rv_id r = rv_id r0" "rv_task r = rv_task r0" "rv_doc r = rv_doc r0" "rv_state r = rv_state r0"
    "rv_round r = rv_round r0" "rv_base_ref r = rv_base_ref r0" "rv_closed_at r = rv_closed_at r0"
    "rv_subject r = rv_subject r0"
  using assms[THEN arg_cong, of rv_id] assms[THEN arg_cong, of rv_task] assms[THEN arg_cong, of rv_doc]
    assms[THEN arg_cong, of rv_state] assms[THEN arg_cong, of rv_round] assms[THEN arg_cong, of rv_base_ref]
    assms[THEN arg_cong, of rv_closed_at] assms[THEN arg_cong, of rv_subject]
  by simp_all

text \<open>Rounds leave the task rows and edges alone until the machine moves one.\<close>

definition graph :: "db \<Rightarrow> task list \<times> edge list" where
  "graph d = (tasks d, task_edges d)"

lemma graph_simps [simp]:
  "graph (updApproval i f d) = graph d"
  "graph (updReview i g d) = graph d"
  "graph (d\<lparr>review_rounds := rs\<rparr>) = graph d"
  by (simp_all add: graph_def updApproval_def updReview_def)

lemma event_graph: "recordReviewEvent at ty s a i ps d = Inr d' \<Longrightarrow> graph d' = graph d"
  by (auto simp: recordReviewEvent_def Let_def appendEvent_def graph_def split: if_splits)

lemma OpenThread_graph:
  assumes "OpenThread rd now i inp a tk ss ev d = Inr (t, d')" shows "graph d' = graph d"
proof -
  obtain t0 d1 rvw doc body ts where o: "insertThread t0 d = Inr (t, d1)"
    "firstThreadMessage ts t rvw doc body ev d1 = Inr d'"
    by (rule OpenThread_InrE[OF assms])
  obtain m d2 where m: "addThreadMessage ts (th_id t) rvw doc body (th_author t) d1 = Inr (m, d2)"
    and e0: "(if th_intent t = ''question''
       then reviewEvent ts ''wl:ReviewQuestionAsked'' (th_id t) (th_author t) ev
              [(''wl:threadIntent'', JStr ''wlc:question'')] d2 else Inr d2) = Inr d'"
    using o(2) by (auto simp: firstThreadMessage_def andThen_Inr_iff)
  have e: "d' = d2 \<or> (\<exists>ty k p. reviewEvent ts ty (th_id t) k ev p d2 = Inr d')"
    using e0 by (cases "th_intent t = ''question''") auto
  have "graph d' = graph d2" using e event_graph unfolding reviewEvent_def by blast
  then show ?thesis using message_sansSeq[OF m] insertThread_InrD(3)[OF o(1)] by (simp add: graph_def)
qed

lemma awaiting_graph: "InsertAwaitingApproval now k e r l ro ra cb d = Inr (b, d') \<Longrightarrow> graph d' = graph d"
  by (auto simp: InsertAwaitingApproval_def insertApproval_def Let_def graph_def split: if_splits)

lemma decide_graph: "DecideApproval inp d = Inr (a, d') \<Longrightarrow> graph d' = graph d"
proof -
  have g: "decideGuard inp a0 d = Inr (a1, d1) \<Longrightarrow> graph d1 = graph d" for a0 a1 d1
    by (auto simp: decideGuard_def andThen_Inr_iff split: if_splits prod.splits)
  have c: "graph (clearPatchedOnFullApproval a st d1) = graph d1" for a st d1
    by (simp add: clearPatchedOnFullApproval_def ClearPatchedSections_def graph_def split: option.split)
  have r: "reopenDependentReview now i d1 = Inr d2 \<Longrightarrow> graph d2 = graph d1" for now i d1 d2
    by (auto simp: reopenDependentReview_def andThen_Inr_iff dest!: awaiting_graph
        split: option.splits if_splits)
  show "DecideApproval inp d = Inr (a, d') \<Longrightarrow> graph d' = graph d"
    by (auto simp: DecideApproval_def andThen_Inr_iff Let_def ResolveApproval_def c
        split: option.splits if_splits dest!: g r)
qed

lemma lane_graph: "decideReviewerLane ts r a dec d = Inr d' \<Longrightarrow> graph d' = graph d"
  by (auto simp: decideReviewerLane_def Let_def andThen_Inr_iff dest!: awaiting_graph decide_graph split: if_splits)

lemma recordRound_graph:
  assumes "recordRound ts r inp dec a d = Inr (v, d')" shows "graph d' = graph d"
  using assms
  by (rule recordRound_InrE)
     (auto simp: insertRound_def dest!: lane_graph split: if_splits)

lemma openThreads_graph:
  assumes "foldE (\<lambda>th d. andThen (OpenThread rd now i th a [] [] ev d) (\<lambda>(_, d'). Inr d')) ths d = Inr d'"
  shows "graph d' = graph d"
  by (rule foldE_invariant[where P = "\<lambda>s. graph s = graph d", OF _ _ assms])
     (auto simp: andThen_Inr_iff dest: OpenThread_graph)

text \<open>What a reviewer's round that succeeds went through, step by step.\<close>

lemma SubmitReviewerRound_InrE:
  assumes "SubmitReviewerRound rd now i inp a ev d = Inr (v, d')"
  obtains dec r d1 d2 d3 d4 where "map_of verdictDecisions (ri_verdict inp) = Some dec"
    "ri_client inp \<in> set roundClients" "lockReview d i = Inr r"
    "orText (rv_task r) \<noteq> [] \<Longrightarrow> checkNotSelfApproval d (orText (rv_task r)) a = Inr ()"
    "a \<in> set (reviewRoster d r)"
    "foldE (\<lambda>th d. andThen (OpenThread rd now i th a [] [] ev d) (\<lambda>(_, d'). Inr d')) (ri_threads inp) d = Inr d1"
    "ri_verdict inp = ''approved'' \<Longrightarrow> \<not> BlocksApproval (map tv_thread (reviewThreads d1 i))"
    "recordRound (truncSec now) r inp dec a d1 = Inr (v, d2)"
    "recordReviewEvent (truncSec now) ''wl:ReviewRoundSubmitted'' (iri_CURIE (iri_Review i)) a ev
       (roundEvent ''reviewer'' inp (int (length (ri_threads inp)))) d2 = Inr d3"
    "recordReviewEvent (truncSec now) ''wl:ReviewVerdictRecorded'' (iri_CURIE (iri_Review i)) a ev
       [(''wl:reviewVerdict'', JStr (''wlc:'' @ ri_verdict inp))] d3 = Inr d4"
    "(if lockReviewTask d i = ''in_review'' \<and> ri_verdict inp = ''changes_requested''
      then transitionKnown climbFuel (truncSec now) ev (orText (rv_task r)) (lockReviewTask d i) ''in_review''
             ''in_progress'' d4 else Inr d4) = Inr d'"
proof -
  obtain dec where dec: "map_of verdictDecisions (ri_verdict inp) = Some dec"
    using assms unfolding SubmitReviewerRound_def by (cases "map_of verdictDecisions (ri_verdict inp)") simp_all
  have rest: "SubmitReviewerRound rd now i inp a ev d = Inr (v, d')" by (rule assms)
  note u = rest[unfolded SubmitReviewerRound_def dec option.case Let_def guard_Inr_iff andThen_Inr_iff split_paired_Ex
      prod.case sum.inject prod.inject]
  from u obtain r d1 d2 d3 d4 where g: "ri_client inp \<in> set roundClients" "lockReview d i = Inr r"
    "\<exists>x. (if orText (rv_task r) \<noteq> [] then checkNotSelfApproval d (orText (rv_task r)) a else Inr ()) = Inr x"
    "a \<in> set (reviewRoster d r)"
    "foldE (\<lambda>th d. andThen (OpenThread rd now i th a [] [] ev d) (\<lambda>(_, d'). Inr d')) (ri_threads inp) d = Inr d1"
    "\<not> (ri_verdict inp = ''approved'' \<and> BlocksApproval (map tv_thread (reviewThreads d1 i)))"
    "recordRound (truncSec now) r inp dec a d1 = Inr (v, d2)"
    "recordReviewEvent (truncSec now) ''wl:ReviewRoundSubmitted'' (iri_CURIE (iri_Review i)) a ev
       (roundEvent ''reviewer'' inp (int (length (ri_threads inp)))) d2 = Inr d3"
    "recordReviewEvent (truncSec now) ''wl:ReviewVerdictRecorded'' (iri_CURIE (iri_Review i)) a ev
       [(''wl:reviewVerdict'', JStr (''wlc:'' @ ri_verdict inp))] d3 = Inr d4"
    "(if lockReviewTask d i = ''in_review'' \<and> ri_verdict inp = ''changes_requested''
      then transitionKnown climbFuel (truncSec now) ev (orText (rv_task r)) (lockReviewTask d i) ''in_review''
             ''in_progress'' d4 else Inr d4) = Inr d'"
    by blast
  have s: "checkNotSelfApproval d (orText (rv_task r)) a = Inr ()" if "orText (rv_task r) \<noteq> []"
    using g(3) that by auto
  have b: "\<not> BlocksApproval (map tv_thread (reviewThreads d1 i))" if "ri_verdict inp = ''approved''"
    using g(6) that by blast
  show ?thesis by (rule that[OF dec g(1,2) s g(4,5) b g(7-10)])
qed

lemma SubmitReviewerRound_ok:
  assumes ok: "rvOk d" and s: "SubmitReviewerRound rd now i inp a ev d = Inr (v, d')"
  shows "rvOk d'"
  using s
proof (rule SubmitReviewerRound_InrE)
  fix dec r d1 d2 d3 d4
  assume l: "lockReview d i = Inr r"
    and t: "foldE (\<lambda>th d. andThen (OpenThread rd now i th a [] [] ev d) (\<lambda>(_, d'). Inr d')) (ri_threads inp) d = Inr d1"
    and rr: "recordRound (truncSec now) r inp dec a d1 = Inr (v, d2)"
    and e1: "recordReviewEvent (truncSec now) ''wl:ReviewRoundSubmitted'' (iri_CURIE (iri_Review i)) a ev
       (roundEvent ''reviewer'' inp (int (length (ri_threads inp)))) d2 = Inr d3"
    and e2: "recordReviewEvent (truncSec now) ''wl:ReviewVerdictRecorded'' (iri_CURIE (iri_Review i)) a ev
       [(''wl:reviewVerdict'', JStr (''wlc:'' @ ri_verdict inp))] d3 = Inr d4"
    and m: "(if lockReviewTask d i = ''in_review'' \<and> ri_verdict inp = ''changes_requested''
      then transitionKnown climbFuel (truncSec now) ev (orText (rv_task r)) (lockReviewTask d i) ''in_review''
             ''in_progress'' d4 else Inr d4) = Inr d'"
  note r = lockReview_InrD[OF l] and t1 = openThreads_ok[OF ok t]
  obtain r' where r': "r' \<in> set (reviews d1)" "r'\<lparr>rv_next_seq := 0\<rparr> = r\<lparr>rv_next_seq := 0\<rparr>"
    using sansSeq_row t1 r by blast
  note same = sansSeq_fields[OF r'(2)]
  have "recordRound (truncSec now) r' inp dec a d1 = Inr (v, d2)"
    using rr unfolding recordRound_def decideReviewerLane_def same by simp
  from recordRound_ok[OF _ r'(1) _ this] have "rvOk d2" using t1 r same by (simp add: isClosed_def)
  then have d4: "rvOk d4" using recordReviewEvent_ok e1 e2 by blast
  show "rvOk d'"
  proof (cases "lockReviewTask d i = ''in_review'' \<and> ri_verdict inp = ''changes_requested''")
    case True
    then obtain t where tk: "taskRow d (orText (rv_task r)) = Some t" "t_state t = lockReviewTask d i"
      using r by (auto simp: lockReviewTask_def orText_def split: option.splits)
    have "graph d4 = graph d"
      using event_graph[OF e2] event_graph[OF e1] recordRound_graph[OF rr] openThreads_graph[OF t] by simp
    then have "taskRow d4 (orText (rv_task r)) = Some t" using tk(1) by (simp add: taskRow_def graph_def)
    then show ?thesis using m True machine_reviews.transitionKnown_keeps[OF d4] tk(2) by auto
  qed (use m d4 in auto)
qed

lemma reanchorOne_ok:
  assumes "rvOk (snd s)" "reanchorOne ts a ev ra s = Inr s'"
  shows "rvOk (snd s') \<and> reviews (snd s') = reviews (snd s)"
proof -
  obtain ids d where s: "s = (ids, d)" by (cases s)
  let ?f = "\<lambda>t. t\<lparr>th_line := Some (ra_line (rn_anchor ra)), th_blob_sha := Some (ra_blob_sha (rn_anchor ra))\<rparr>"
  have u: "rvOk (updThread (rn_thread ra) ?f d) \<and> reviews (updThread (rn_thread ra) ?f d) = reviews d"
    using rvOk_updThread[of d ?f "rn_thread ra"] assms(1) s by (simp add: updThread_def)
  show ?thesis
  proof (cases "rn_status ra = ''obsolete''")
    case True
    then obtain d1 where "ResolveThread ts (rn_thread ra) a ''obsolete'' ev d = Inr d1" "snd s' = d1"
      using assms(2) s by (auto simp: reanchorOne_def Let_def andThen_Inr_iff split: if_splits)
    then show ?thesis using ResolveThread_ok assms(1) s by auto
  next
    case False
    then have "snd s' = updThread (rn_thread ra) ?f d"
      using assms(2) unfolding s reanchorOne_def Let_def prod.case by (auto split: if_split_asm)
    then show ?thesis using u s by simp
  qed
qed

lemma advanceReview_ok:
  assumes "rvOk d" "r \<in> set (reviews d)" "\<not> isClosed r"
  shows "rvOk (advanceReview (rv_id r) b d)"
  unfolding advanceReview_def
  by (rule rvOk_updReview[OF assms(1,2) refl assms(3)]) (simp_all add: isClosed_def)

lemma submitChangeAuthorRound_ok:
  assumes ok: "rvOk d" and r: "r \<in> set (reviews d)" "\<not> isClosed r"
    and s: "submitChangeAuthorRound now r ths inp a ev d = Inr (v, d')"
  shows "rvOk d'"
proof -
  obtain ids d1 d2 and t :: task and d3 where f: "foldE (reanchorOne (truncSec now) a ev) (ri_reanchors inp)
        (map (\<lambda>t. th_id (tv_thread t)) (filter (\<lambda>t. th_status (tv_thread t) = ''open'') ths), d) = Inr (ids, d1)"
    and e: "recordReviewEvent (truncSec now) ''wl:ReviewRoundSubmitted'' (iri_CURIE (iri_Review (rv_id r))) a ev
        (roundEvent ''author'' inp 0) (advanceReview (rv_id r) (ri_base_ref inp) d1) = Inr d2"
    and m: "(if t_state t = ''in_progress''
        then Transition (truncSec now) (orText (rv_task r)) ''in_progress'' ''in_review'' ev d2 else Inr d2) = Inr d3"
    and w: "withView (rv_id r) d3 = Inr (v, d')"
    using s unfolding submitChangeAuthorRound_def run_steps by blast
  have "rvOk (snd (ids, d1)) \<and> reviews (snd (ids, d1)) = reviews d"
    by (rule foldE_invariant[where P = "\<lambda>s. rvOk (snd s) \<and> reviews (snd s) = reviews d", OF _ _ f])
      (use reanchorOne_ok ok in auto)
  then have "rvOk (advanceReview (rv_id r) (ri_base_ref inp) d1)" using advanceReview_ok[of d1 r] r by simp
  then have "rvOk d2" using recordReviewEvent_ok e by blast
  then have "rvOk d3" using m machine_reviews.Transition_keeps by (cases "t_state t = ''in_progress''") auto
  then show ?thesis using w by (auto simp: withView_def andThen_Inr_iff)
qed

lemma SubmitAuthorRound_ok:
  assumes ok: "rvOk d" and s: "SubmitAuthorRound now i inp a ev d = Inr (v, d')"
  shows "rvOk d'"
proof -
  obtain r where l: "lockReview d i = Inr r"
    using s by (auto simp: SubmitAuthorRound_def andThen_Inr_iff split: if_split_asm)
  note r = lockReview_InrD[OF l]
  consider "submitChangeAuthorRound now r (reviewThreads d i) inp a ev d = Inr (v, d')"
    | (doc) x :: doc and d1 d2 where "RequestDocApproval (truncSec now) (orID (rv_doc r)) (d_version x)
          (advanceReview i (intStr (d_version x)) d) = Inr d1"
        "recordReviewEvent (truncSec now) ''wl:ReviewRoundSubmitted'' (iri_CURIE (iri_Review i)) a ev
           (roundEvent ''author'' inp 0) d1 = Inr d2"
        "withView i d2 = Inr (v, d')"
    using s unfolding SubmitAuthorRound_def run_steps l
    by (cases "orID (rv_doc r) = 0") (simp add: run_steps; blast)+
  then show ?thesis
  proof cases
    case 1
    then show ?thesis using submitChangeAuthorRound_ok[OF ok] r by blast
  next
    case (doc x d1 d2)
    have "rvOk (advanceReview i (intStr (d_version x)) d)" using advanceReview_ok[OF ok, of r] r by blast
    then have "rvOk d2" using rvOk_cong[OF rt_request[OF doc(1)]] recordReviewEvent_ok doc(2) by blast
    then show ?thesis using doc(3) by (auto simp: withView_def andThen_Inr_iff)
  qed
qed

lemma OpenReview_ok:
  assumes ok: "rvOk d" and s: "OpenReview nb alts now inp a ev d = Inr (v, d')"
  shows "rvOk d'"
proof (cases "oi_task inp \<noteq> []")
  case True
  then have "openTaskReview nb alts now inp a ev d = Inr (v, d')"
    using s by (simp add: OpenReview_def split: if_splits)
  then obtain t :: task and rs d1 i d2 d3 d4 d5 where o: "rosterOrDefault (truncSec now) t d = Inr (rs, d1)"
    "insertReview (newReview (Some (oi_task inp)) None ''change'' (oi_base_ref inp) a (truncSec now)) d1 = Inr (i, d2)"
    "(if t_state t = ''in_review'' then Inr d2
      else Transition (truncSec now) (oi_task inp) (t_state t) ''in_review'' ev d2) = Inr d3"
    "foldE (changeReviewTask nb alts (truncSec now) (oi_task inp) (t_project t)
       (changeReviewBody d3 i (oi_task inp)) a ev) rs d3 = Inr d4"
    "\<exists>ps. recordReviewEvent (truncSec now) ''wl:ReviewOpened'' (iri_CURIE (iri_Review i)) a ev ps d4 = Inr d5"
    "withView i d5 = Inr (v, d')"
    unfolding openTaskReview_def run_steps by blast
  have "rvOk d1" using rvOk_cong[OF rt_roster[OF o(1)]] ok by simp
  then have "rvOk d2" using rvOk_insertReview[OF _ o(2)] by (simp add: newReview_def isClosed_def)
  then have "rvOk d3" using o(3) machine_reviews.Transition_keeps by (cases "t_state t = ''in_review''") auto
  then have "rvOk d5" using rvOk_cong[OF rt_changeTasks[OF o(4)]] recordReviewEvent_ok o(5) by blast
  then show ?thesis using o(6) by (auto simp: withView_def andThen_Inr_iff)
next
  case False
  then obtain x :: doc and rs i d1 d2 d3 d4 where o:
    "insertReview (newReview None (Some (oi_doc inp)) ''doc'' (intStr (d_version x)) a (truncSec now)) d = Inr (i, d1)"
    "RequestDocApproval (truncSec now) (oi_doc inp) (d_version x) d1 = Inr d2"
    "assignReviewTasks nb alts (truncSec now) i (oi_doc inp) (d_project x) rs a ev d2 = Inr d3"
    "recordReviewEvent (truncSec now) ''wl:ReviewOpened'' (iri_CURIE (iri_Review i)) a ev [] d3 = Inr d4"
    "withView i d4 = Inr (v, d')"
    using s unfolding OpenReview_def if_not_P[OF False] run_steps by blast
  have "rvOk d1" using rvOk_insertReview[OF ok o(1)] by (simp add: newReview_def isClosed_def)
  then have "rvOk d3" using rvOk_cong[OF rt_request[OF o(2)]] rvOk_cong[OF rt_assignTasks[OF o(3)]] by simp
  then have "rvOk d4" using recordReviewEvent_ok o(4) by blast
  then show ?thesis using o(5) by (auto simp: withView_def andThen_Inr_iff)
qed

lemma relocateThreads_ok:
  assumes "rvOk d" "relocateThreads on v v' old body ev anchor d = Inr d'"
  shows "rvOk d'"
proof -
  have "rvOk s'" if "rvOk s" and s: "relocateOne v' old body ev anchor t s = Inr s'" for t s s'
  proof -
    obtain i e c ok where R: "Relocate old body (orID (th_start t)) (orID (th_end t)) (orText (th_quote t)) = (i, e, c, ok)"
      by (cases "Relocate old body (orID (th_start t)) (orID (th_end t)) (orText (th_quote t))")
    have upd: "rvOk (updThread (th_id t) f s)" if "\<And>t. th_id (f t) = th_id t \<and> th_review (f t) = th_review t" for f
      using rvOk_updThread \<open>rvOk s\<close> that by blast
    show ?thesis
    proof (cases ok)
      case True
      then obtain sec where "s' = updThread (th_id t) (\<lambda>t. t\<lparr>th_version := Some v', th_start := Some i, th_end := Some e,
          th_quote := Some (take (nat (e - i)) (drop (nat i) body)), th_doc_anchor := nullText sec\<rparr>) s"
        using s R by (auto simp: relocateOne_def Let_def)
      then show ?thesis using upd by simp
    next
      case False
      then have "reviewEvent (truncSec (wall s)) ''wl:ReviewThreadResolved'' (th_id t) FlowActorID ev
           [(''wl:threadStatus'', JStr ''obsolete'')]
           (updThread (th_id t) (\<lambda>t. t\<lparr>th_status := ''obsolete'', th_resolved_at := Some (truncSec (wall s))\<rparr>) s) = Inr s'"
        using s R by (simp add: relocateOne_def)
      moreover have "rvOk (updThread (th_id t) (\<lambda>t. t\<lparr>th_status := ''obsolete'', th_resolved_at := Some (truncSec (wall s))\<rparr>) s)"
        by (rule upd) simp
      ultimately show ?thesis using recordReviewEvent_ok unfolding reviewEvent_def by blast
    qed
  qed
  then show ?thesis
    by (rule foldE_invariant[where P = rvOk, OF _ assms(1) assms(2)[unfolded relocateThreads_def]])
qed

lemma CloseReview_ok: "rvOk d \<Longrightarrow> CloseReview now i out ev d = Inr d' \<Longrightarrow> rvOk d'"
  unfolding CloseReview_def run_steps using rvOk_closeRow recordReviewEvent_ok by blast

lemma escalate_ok:
  assumes "rvOk d" "escalateOnQuestions now tid esc a ev d = Inr d'" shows "rvOk d'"
proof -
  have "rvOk s'" if "rvOk s" "andThen (ReplyThread now i b a ev s) (\<lambda>(_, d'). Inr d') = Inr s'" for i b s s'
    using that ReplyThread_ok unfolding run_steps by blast
  then show ?thesis
    by (rule foldE_invariant[where P = rvOk, OF _ assms(1) assms(2)[unfolded escalateOnQuestions_def Let_def]])
qed

lemma OpenDocThread_InrD:
  assumes "OpenDocThread rd now doc inp a ev d = Inr (t, d')"
  shows "\<exists>inp'. OpenThread rd now 0 inp' a [] [] ev d = Inr (t, d')"
  using assms unfolding OpenDocThread_def Let_def
  by (auto split: if_split_asm sum.splits)

section \<open>Reachable states\<close>

text \<open>One call of the store: an operation on reviews, a step of the task machine
  (which closes the review of a finished task), or anything that leaves the
  tables of reviews alone.\<close>

inductive reviewStep :: "db \<Rightarrow> db \<Rightarrow> bool" where
  openReview: "OpenReview nb alts now inp a ev d = Inr (v, d') \<Longrightarrow> reviewStep d d'"
| openThread: "OpenThread rd now i th a tid sess ev d = Inr (t, d') \<Longrightarrow> reviewStep d d'"
| openDocThread: "OpenDocThread rd now doc th a ev d = Inr (t, d') \<Longrightarrow> reviewStep d d'"
| reply: "ReplyThread now i body a ev d = Inr (x, d') \<Longrightarrow> reviewStep d d'"
| resolve: "ResolveThread now i a st ev d = Inr d' \<Longrightarrow> reviewStep d d'"
| reviewerRound: "SubmitReviewerRound rd now i rnd a ev d = Inr (v, d') \<Longrightarrow> reviewStep d d'"
| authorRound: "SubmitAuthorRound now i rnd a ev d = Inr (v, d') \<Longrightarrow> reviewStep d d'"
| relocate: "relocateThreads on v v' old body ev anchor d = Inr d' \<Longrightarrow> reviewStep d d'"
| escalate: "escalateOnQuestions now tid esc a ev d = Inr d' \<Longrightarrow> reviewStep d d'"
| closes: "CloseReview now i out ev d = Inr d' \<Longrightarrow> reviewStep d d'"
| machine: "Transition now tid st st' ev d = Inr d' \<Longrightarrow> reviewStep d d'"
| elsewhere: "rtables d' = rtables d \<Longrightarrow> reviewStep d d'"

lemma reviewStep_ok:
  assumes "reviewStep d d'" "rvOk d" shows "rvOk d'"
  using assms(1)
proof cases
  case openReview
  then show ?thesis using OpenReview_ok assms(2) by blast
next
  case openThread
  then show ?thesis using OpenThread_ok assms(2) by blast
next
  case openDocThread
  then show ?thesis using OpenDocThread_InrD OpenThread_ok assms(2) by blast
next
  case (reply now i body a ev x)
  then show ?thesis using ReplyThread_ok assms(2) by blast
next
  case resolve
  then show ?thesis using ResolveThread_ok assms(2) by blast
next
  case reviewerRound
  then show ?thesis using SubmitReviewerRound_ok assms(2) by blast
next
  case authorRound
  then show ?thesis using SubmitAuthorRound_ok assms(2) by blast
next
  case relocate
  then show ?thesis using relocateThreads_ok assms(2) by blast
next
  case escalate
  then show ?thesis using escalate_ok assms(2) by blast
next
  case closes
  then show ?thesis using CloseReview_ok assms(2) by blast
next
  case machine
  then show ?thesis using machine_reviews.Transition_keeps assms(2) by blast
next
  case elsewhere
  then show ?thesis using rvOk_cong assms(2) by blast
qed

lemma rvOk_empty:
  "reviews d = [] \<Longrightarrow> review_threads d = [] \<Longrightarrow> review_messages d = [] \<Longrightarrow> review_rounds d = [] \<Longrightarrow>
     0 < next_review_id d \<Longrightarrow> rvOk d"
  by (simp add: rvOk_def rowsOk_def threadsOk_def numbersOk_def roundsOk_def)

end
