(* ===== verification/ReviewClosing.thy ===== *)
theory ReviewClosing
  imports ReviewOps
begin

text \<open>
  Which reviews a transition closes: those of the task when it ends merged,
  abandoned or completed, and those of the ancestors it rolls up. A move that does
  not end the task leaves the task's own reviews alone.
\<close>

definition taskReviews :: "string \<Rightarrow> db \<Rightarrow> review list" where
  "taskReviews tid d = filter (\<lambda>r. rv_task r = Some tid) (reviews d)"

definition reviewIds :: "db \<Rightarrow> bool" where
  "reviewIds d \<longleftrightarrow> distinct (map rv_id (reviews d))"

lemma closeReviewRow_ids: "map rv_id (reviews (closeReviewRow now i d)) = map rv_id (reviews d)"
  by (simp add: closeReviewRow_def map_updWhere_same)

lemma closeReviewRow_other:
  assumes "reviewIds d" "r \<in> set (reviews d)" "rv_task r \<noteq> Some tid"
  shows "taskReviews tid (closeReviewRow now (rv_id r) d) = taskReviews tid d"
proof -
  have "s = r" if "s \<in> set (reviews d)" "rv_id s = rv_id r" for s
    using distinct_map_inj[of rv_id "reviews d" s r] assms(1,2) that by (simp add: reviewIds_def)
  then have "rv_task s \<noteq> Some tid" if "s \<in> set (reviews d)" "rv_id s = rv_id r" for s
    using assms(3) that by blast
  then have "filter (\<lambda>s. rv_task s = Some tid) (updWhere (\<lambda>s. rv_id s = rv_id r)
      (\<lambda>s. s\<lparr>rv_state := ''closed'', rv_closed_at := Some now\<rparr>) rs) = filter (\<lambda>s. rv_task s = Some tid) rs"
    if "set rs \<subseteq> set (reviews d)" for rs
    using that by (induction rs) (auto simp: updWhere_def)
  then show ?thesis by (simp add: taskReviews_def closeReviewRow_def)
qed

lemma recordReviewEvent_reviews:
  "recordReviewEvent at ty s a i ps d = Inr d' \<Longrightarrow> reviews d' = reviews d"
  by (auto simp: recordReviewEvent_def appendEvent_def Let_def split: if_splits)

lemma closeTaskReview_other:
  assumes "closeTaskReview now x out ev d = Inr d'" "reviewIds d" "x \<noteq> tid"
  shows "reviewIds d' \<and> taskReviews tid d' = taskReviews tid d"
proof (cases "row (\<lambda>r. rv_task r = Some x \<and> rv_closed_at r = None) (reviews d)")
  case None
  then show ?thesis using assms by (simp add: closeTaskReview_def)
next
  case (Some r)
  then have r: "r \<in> set (reviews d)" "rv_task r \<noteq> Some tid" using assms(3) by (auto dest: row_SomeD)
  have "row (\<lambda>s. rv_id s = rv_id r) (reviews d) = Some r"
    using row_unique[of rv_id "reviews d" r] assms(2) r(1) by (simp add: reviewIds_def)
  then have "reviews d' = reviews (closeReviewRow (truncSec now) (rv_id r) d)"
    using assms(1) Some by (auto simp: closeTaskReview_def CloseReview_def split: if_splits
        dest: recordReviewEvent_reviews)
  then show ?thesis
    using closeReviewRow_other[OF assms(2) r] closeReviewRow_ids[of "truncSec now" "rv_id r" d] assms(2)
    by (simp add: reviewIds_def taskReviews_def)
qed

lemma settlePlan_reviews:
  assumes "settlePlan now tid ev d = Inr d'"
  shows "reviews d' = reviews d"
proof -
  have govern: "reviews d' = reviews d" if "Govern t r src pin d = Inr d'" for t r src pin d d'
    using that by (auto simp: Govern_def Let_def split: option.splits if_splits)
  have inner: "reviews s' = reviews s" if "foldE (\<lambda>r. Govern t r ''plan'' False) rs s = Inr s'" for t rs s s'
    using foldE_invariant[where P = "\<lambda>e. reviews e = reviews s", OF _ refl that] govern by metis
  have "reviews d' = reviews d" if "governPlanTasks p d = Inr d'" for p d d'
  proof (cases "planRules d p = []")
    case True
    then show ?thesis using that by (simp add: governPlanTasks_def)
  next
    case False
    then have "foldE (\<lambda>t. foldE (\<lambda>r. Govern t r ''plan'' False) (planRules d p)) (ungovernedTasks d p) d = Inr d'"
      using that by (simp add: governPlanTasks_def)
    from foldE_invariant[where P = "\<lambda>e. reviews e = reviews d", OF _ refl this] inner show ?thesis by metis
  qed
  then show ?thesis using assms
    by (auto simp: settlePlan_def executePlan_def logDocChange_def andThen_Inr_iff setDocStatus_def LogChange_def
        split: option.splits prod.splits if_splits)
qed

abbreviation sameReviews :: "string \<Rightarrow> db \<Rightarrow> db \<Rightarrow> bool" where
  "sameReviews tid d d' \<equiv> reviewIds d' \<and> taskReviews tid d' = taskReviews tid d"

lemma sameReviews_cong: "reviews d' = reviews d \<Longrightarrow> reviewIds d \<Longrightarrow> sameReviews tid d d'"
  by (simp add: reviewIds_def taskReviews_def)

lemma resolveWith_reviews:
  assumes "\<And>a b e e'. task_edges e = task_edges d \<Longrightarrow> reviewIds e \<Longrightarrow> tr p a b e = Inr e' \<Longrightarrow>
      task_edges e' = task_edges d \<and> sameReviews tid e e'"
    and "resolveWith tr p d = Inr d'" "reviewIds d"
  shows "sameReviews tid d d'"
  using assms(2)
proof (rule resolveWith_cases)
  fix st target d1
  assume 1: "tr p st ''ready'' d = Inr d1" and 2: "tr p ''ready'' target d1 = Inr d'"
  from assms(1)[OF refl assms(3) 1] have "task_edges d1 = task_edges d" "sameReviews tid d d1" by auto
  with assms(1)[OF _ _ 2] show ?thesis by simp
next
  assume "d' = d" then show ?thesis using assms(3) by simp
next
  fix st target assume "tr p st target d = Inr d'"
  from assms(1)[OF refl assms(3) this] show ?thesis by blast
next
  fix st assume "tr p st ''ready'' d = Inr d'"
  from assms(1)[OF refl assms(3) this] show ?thesis by blast
qed

lemma TransitionFuel_reviews:
  assumes "TransitionFuel fuel now ev x a b d = Inr d'" "hierarchyOk d" "reviewIds d"
    and "(x, tid) \<notin> (edgeRel d ''childOf'')\<^sup>* \<or>
      x = tid \<and> b \<noteq> ''merged'' \<and> b \<noteq> ''abandoned'' \<and> b \<noteq> ''completed''"
  shows "sameReviews tid d d'"
  using assms
proof (induction fuel arbitrary: x a b d d')
  case 0
  then show ?case by (auto simp: TransitionFuel_def split: option.splits if_splits)
next
  case (Suc fuel)
  from Suc.prems(1) obtain t where t: "taskRow d x = Some t"
    and k: "transitionKnown (Suc fuel) now ev x (t_state t) a b d = Inr d'"
    by (auto simp: TransitionFuel_def split: option.splits if_splits)
  from k obtain d1 d3 d4
    where s: "setState now x b d = Inr d1"
      and cl: "(if b = ''merged'' \<or> b = ''abandoned'' \<or> b = ''completed''
          then closeTaskReview now x b ev (LogChange ''task'' x ev (stateChange a b) d1)
          else Inr (LogChange ''task'' x ev (stateChange a b) d1)) = Inr d3"
      and rp: "resolveParentWith (TransitionFuel fuel now ev) x d3 = Inr d4"
      and sp: "settlePlan now x ev d4 = Inr d'"
    by (elim transitionKnown_InrE) blast
  have d1: "d1 = updTask x (\<lambda>t. t\<lparr>t_state := b, t_updated_at := now\<rparr>) d"
    using setState_InrD(2)[OF s] t by simp
  have "reviews (LogChange ''task'' x ev (stateChange a b) d1) = reviews d"
    by (simp add: d1 updTask_def LogChange_def)
  note l = sameReviews_cong[OF this Suc.prems(3)]
  have r3: "sameReviews tid d d3"
  proof (cases "b = ''merged'' \<or> b = ''abandoned'' \<or> b = ''completed''")
    case True
    then have "x \<noteq> tid" using Suc.prems(4) by auto
    then show ?thesis using closeTaskReview_other[of now x b ev _ d3 tid] cl True l by auto
  next
    case False
    then show ?thesis using cl l by simp
  qed
  have e3: "task_edges d3 = task_edges d" using closing_step(2)[OF cl] d1 by simp
  have h3: "hierarchyOk e" if "task_edges e = task_edges d3" for e
    using hierarchyOk_cong[of e d] Suc.prems(2) e3 that by simp
  have "sameReviews tid d3 d4"
  proof (cases "parentOf d3 x")
    case None
    with rp r3 show ?thesis by (simp add: resolveParentWith_def)
  next
    case (Some p)
    with rp have rw: "resolveWith (TransitionFuel fuel now ev) p d3 = Inr d4"
      by (simp add: resolveParentWith_def)
    have up: "(x, p) \<in> edgeRel d ''childOf''"
      using parentOf_SomeD[OF Some] edgeRel_cong[OF e3] by simp
    have px: "(p, tid) \<notin> (edgeRel d ''childOf'')\<^sup>*"
      using Suc.prems(4)
    proof
      assume "(x, tid) \<notin> (edgeRel d ''childOf'')\<^sup>*"
      then show ?thesis using up by (meson converse_rtrancl_into_rtrancl)
    next
      assume "x = tid \<and> b \<noteq> ''merged'' \<and> b \<noteq> ''abandoned'' \<and> b \<noteq> ''completed''"
      then show ?thesis using hierarchyOk_acyclic[OF Suc.prems(2)] up
        by (meson acyclic_def rtrancl_into_trancl1)
    qed
    show ?thesis
    proof (rule resolveWith_reviews[OF _ rw])
      fix a b e e'
      assume e: "task_edges e = task_edges d3" "reviewIds e" and tr: "TransitionFuel fuel now ev p a b e = Inr e'"
      have "(p, tid) \<notin> (edgeRel e ''childOf'')\<^sup>*"
        using px edgeRel_cong[OF e(1)] edgeRel_cong[OF e3] by simp
      with Suc.IH[OF tr h3[OF e(1)] e(2)] TransitionFuel_edges[OF tr] e(1)
      show "task_edges e' = task_edges d3 \<and> sameReviews tid e e'" by simp
    qed (use r3 in simp)
  qed
  then have "sameReviews tid d d4" using r3 by simp
  then show ?case using settlePlan_reviews[OF sp] by (simp add: reviewIds_def taskReviews_def)
qed

lemma own_review_stays:
  assumes "TransitionFuel fuel now ev tid a b d = Inr d'" "hierarchyOk d" "reviewIds d"
    and "b \<noteq> ''merged'' \<and> b \<noteq> ''abandoned'' \<and> b \<noteq> ''completed''"
    and "row (\<lambda>r. rv_id r = i) (reviews d) = Some r" "rv_task r = Some tid"
  shows "row (\<lambda>r. rv_id r = i) (reviews d') = Some r"
proof -
  have s: "sameReviews tid d d'" by (rule TransitionFuel_reviews[OF assms(1-3)]) (use assms(4) in simp)
  have "r \<in> set (taskReviews tid d)" using row_SomeD[OF assms(5)] assms(6) by (simp add: taskReviews_def)
  then have "r \<in> set (taskReviews tid d')" using s by simp
  then have "r \<in> set (reviews d')" "rv_id r = i" using row_SomeD[OF assms(5)] by (simp_all add: taskReviews_def)
  then show ?thesis using row_unique[of rv_id "reviews d'" r] s by (simp add: reviewIds_def)
qed

end
