(* ===== verification/AnchorSpec.thy ===== *)
theory AnchorSpec
  imports Anchor
begin

text \<open>
  Correctness of re-anchoring: a match covers the quote's text up to white
  space, the line pairs are a longest common subsequence, what Relocate returns
  is a range of the new text that holds the quote, and it reports a quote as
  drifted only when the new text holds it nowhere.
\<close>

section \<open>Matches\<close>

lemma collapseFrom_True: "collapseFrom True s = collapseFrom False (dropWhile isSpace s)"
  by (induction s) simp_all

lemma collapse_simps [simp]:
  "collapse [] = []"
  "isSpace c \<Longrightarrow> collapse (c # s) = CHR 0x20 # collapse (dropWhile isSpace s)"
  "\<not> isSpace c \<Longrightarrow> collapse (c # s) = c # collapse s"
  by (simp_all add: collapse_def collapseFrom_True)

lemma collapse_run:
  assumes "u \<noteq> []" "\<forall>c\<in>set u. isSpace c"
  shows "collapse (u @ s) = CHR 0x20 # collapse (dropWhile isSpace s)"
proof -
  obtain c v where u: "u = c # v" using assms(1) by (cases u) auto
  have "dropWhile isSpace (v @ s) = dropWhile isSpace s"
    using assms(2) u by (simp add: dropWhile_append2)
  then show ?thesis using assms(2) u by simp
qed

lemma matchLen_collapse:
  "matchLen s q = Some n \<Longrightarrow> n \<le> length s \<and> collapse (take n s) = collapse q"
proof (induction s q arbitrary: n rule: matchLen.induct)
  case (1 s)
  then show ?case by simp
next
  case (2 s c q)
  show ?case
  proof (cases "isSpace c")
    case True
    then have s: "s \<noteq> []" "isSpace (hd s)"
      using "2.prems" by (auto split: if_splits)
    obtain u r where ur: "u = takeWhile isSpace s" "r = dropWhile isSpace s" by blast
    then have sp: "s = u @ r" by simp
    obtain m where m: "matchLen r (dropWhile isSpace (c # q)) = Some m" "n = length u + m"
      using "2.prems" True s ur by auto
    have ih: "m \<le> length r" "collapse (take m r) = collapse (dropWhile isSpace (c # q))"
      using "2.IH"(1)[OF True _ m(1)[unfolded ur]] s unfolding ur by blast+
    have u: "u \<noteq> []" "\<forall>x\<in>set u. isSpace x"
      using s ur(1) by (cases s; simp) (auto simp: ur(1) dest: set_takeWhileD)
    have r: "dropWhile isSpace (take m r) = take m r"
    proof (cases "take m r")
      case (Cons x xs)
      then have "r \<noteq> []" "x = hd r" by (cases r; cases m; simp)+
      then have "\<not> isSpace x" using hd_dropWhile[of isSpace s] ur(2) by simp
      then show ?thesis using Cons by simp
    qed auto
    have "take n s = u @ take m r" using sp m(2) by simp
    then have "collapse (take n s) = CHR 0x20 # collapse (take m r)"
      using collapse_run[OF u, of "take m r"] r by simp
    then show ?thesis using ih m(2) sp True by simp
  next
    case False
    then obtain t m where t: "s = c # t" "matchLen t q = Some m" "n = Suc m"
      using "2.prems" by (cases s) (auto split: if_splits)
    then show ?thesis using "2.IH"(2)[OF False, of m] False by simp
  qed
qed

lemma matchLen_prefix:
  "\<exists>n. matchLen (q @ rest) q = Some n \<and> length q \<le> n"
proof (induction "length q" arbitrary: q rule: less_induct)
  case less
  show ?case
  proof (cases q)
    case Nil
    then show ?thesis by simp
  next
    case (Cons c q')
    show ?thesis
    proof (cases "isSpace c")
      case False
      then show ?thesis using less[of q'] Cons by auto
    next
      case True
      let ?q = "dropWhile isSpace q"
      have l: "length ?q < length q" using Cons True by (simp add: length_dropWhile_le less_Suc_eq_le)
      have q: "length (takeWhile isSpace q) + length ?q = length q"
        by (metis length_append takeWhile_dropWhile_id)
      show ?thesis
      proof (cases "?q = []")
        case True2: True
        then have all: "\<forall>c\<in>set q. isSpace c" by (simp add: dropWhile_eq_Nil_conv)
        then have "length (takeWhile isSpace (q @ rest)) \<ge> length q"
          by (simp add: takeWhile_append)
        moreover have d: "dropWhile isSpace (c # q') = []" using True2 Cons by blast
        have "matchLen (c # q' @ rest) (c # q') = Some (length (takeWhile isSpace (c # q' @ rest)))"
          by (subst matchLen.simps(2), subst d) (simp add: True)
        ultimately show ?thesis unfolding Cons append_Cons by blast
      next
        case False2: False
        then obtain x where x: "x \<in> set q" "\<not> isSpace x" by (auto simp: dropWhile_eq_Nil_conv)
        have "dropWhile isSpace (q @ rest) = ?q @ rest" "takeWhile isSpace (q @ rest) = takeWhile isSpace q"
          using x by (auto simp: dropWhile_append1 takeWhile_append1)
        moreover obtain n where "matchLen (?q @ rest) ?q = Some n" "length ?q \<le> n"
          using less[OF l] by blast
        ultimately show ?thesis using True Cons q by auto
      qed
    qed
  qed
qed

lemma matchAt_Some:
  assumes "matchAt s p quote = Some e"
  shows "0 \<le> p \<and> p \<le> e \<and> e \<le> int (length s) \<and>
     collapse (take (nat (e - p)) (drop (nat p) s)) = collapse quote"
proof -
  obtain n where n: "matchLen (drop (nat p) s) quote = Some n" "e = p + int n" "0 \<le> p" "p \<le> int (length s)"
    using assms by (auto simp: matchAt_def split: if_splits)
  show ?thesis using matchLen_collapse[OF n(1)] n(2-4) by auto
qed

section \<open>The longest common subsequence\<close>

text \<open>The recurrence, and a chain of pairs of equal elements, last pair
  first.\<close>

fun lcsLen :: "'a list \<Rightarrow> 'a list \<Rightarrow> nat \<Rightarrow> nat \<Rightarrow> nat" where
  "lcsLen a b 0 j = 0"
| "lcsLen a b (Suc i) 0 = 0"
| "lcsLen a b (Suc i) (Suc j) =
     (if a ! i = b ! j then lcsLen a b i j + 1 else max (lcsLen a b i (Suc j)) (lcsLen a b (Suc i) j))"

definition commonPairs :: "'a list \<Rightarrow> 'a list \<Rightarrow> nat \<Rightarrow> nat \<Rightarrow> (nat \<times> nat) list \<Rightarrow> bool" where
  "commonPairs a b n m ps \<longleftrightarrow>
     sorted_wrt (\<lambda>p q. fst q < fst p \<and> snd q < snd p) ps \<and>
     (\<forall>p\<in>set ps. fst p < n \<and> snd p < m \<and> a ! fst p = b ! snd p)"

lemma commonPairs_Cons:
  "commonPairs a b n m (p # ps) \<longleftrightarrow>
     fst p < n \<and> snd p < m \<and> a ! fst p = b ! snd p \<and> commonPairs a b (fst p) (snd p) ps"
  by (auto simp: commonPairs_def)

lemma commonPairs_mono: "commonPairs a b n m ps \<Longrightarrow> n \<le> n' \<Longrightarrow> m \<le> m' \<Longrightarrow> commonPairs a b n' m' ps"
  by (fastforce simp: commonPairs_def)

lemma commonPairs_bound: "commonPairs a b n m ps \<Longrightarrow> length ps \<le> lcsLen a b n m"
proof (induction a b n m arbitrary: ps rule: lcsLen.induct)
  case (3 a b i j)
  show ?case
  proof (cases ps)
    case (Cons p qs)
    have p: "fst p \<le> i" "snd p \<le> j" "a ! fst p = b ! snd p" "commonPairs a b (fst p) (snd p) qs"
      using "3.prems" Cons by (auto simp: commonPairs_Cons)
    show ?thesis
    proof (cases "a ! i = b ! j")
      case True
      then have "length qs \<le> lcsLen a b i j"
        using "3.IH"(1)[OF True commonPairs_mono[OF p(4,1,2)]] by simp
      then show ?thesis using Cons True by simp
    next
      case False
      then consider "fst p < i" | "snd p < j" using p by (metis le_neq_implies_less)
      then show ?thesis
      proof cases
        case 1
        then have "commonPairs a b i (Suc j) ps" using p Cons by (simp add: commonPairs_Cons)
        then show ?thesis using "3.IH"(2)[OF False] False by fastforce
      next
        case 2
        then have "commonPairs a b (Suc i) j ps" using p Cons by (simp add: commonPairs_Cons)
        then show ?thesis using "3.IH"(3)[OF False] False by fastforce
      qed
    qed
  qed simp
next
  case (1 a b j)
  then show ?case by (cases ps) (auto simp: commonPairs_Cons)
next
  case (2 a b i)
  then show ?case by (cases ps) (auto simp: commonPairs_Cons)
qed

lemma dpRow_lcsLen:
  assumes "ys = drop k b" "k \<le> length b" "i < length a"
  shows "dpRow (a ! i) ys (map (lcsLen a b i) [k..<length b + 1]) (lcsLen a b (Suc i) k) =
     map (lcsLen a b (Suc i)) [k + 1..<length b + 1]"
  using assms
proof (induction ys arbitrary: k)
  case Nil
  then show ?case by simp
next
  case (Cons y ys)
  then have k: "k < length b" by (metis drop_all leI list.distinct(1))
  then have y: "y = b ! k" "ys = drop (Suc k) b"
    using Cons.prems(1) by (metis Cons_nth_drop_Suc list.inject)+
  have up: "[k..<length b + 1] = k # Suc k # [Suc (Suc k)..<length b + 1]" "[k + 1..<length b + 1] = Suc k # [Suc (Suc k)..<length b + 1]"
    using k by (simp_all add: upt_conv_Cons)
  have "dpRow (a ! i) ys (map (lcsLen a b i) [Suc k..<length b + 1]) (lcsLen a b (Suc i) (Suc k)) =
      map (lcsLen a b (Suc i)) [Suc k + 1..<length b + 1]"
    using Cons.IH[OF y(2)] k Cons.prems(3) by simp
  then show ?case using y(1) up by (simp del: upt_Suc)
qed

lemma dpRows_lcsLen:
  assumes "xs = drop i a" "i \<le> length a"
  shows "dpRows xs b (map (lcsLen a b i) [0..<length b + 1]) =
     map (\<lambda>i. map (lcsLen a b i) [0..<length b + 1]) [i..<length a + 1]"
  using assms
proof (induction xs arbitrary: i)
  case Nil
  then show ?case by simp
next
  case (Cons x xs)
  then have i: "i < length a" by (metis drop_all leI list.distinct(1))
  then have x: "x = a ! i" "xs = drop (Suc i) a"
    using Cons.prems(1) by (metis Cons_nth_drop_Suc list.inject)+
  have "0 # dpRow x b (map (lcsLen a b i) [0..<length b + 1]) 0 = map (lcsLen a b (Suc i)) [0..<length b + 1]"
    using dpRow_lcsLen[of b 0 b i a] i x(1) by (simp add: upt_conv_Cons del: upt_Suc)
  then show ?case
    using Cons.IH[OF x(2)] i by (simp add: upt_conv_Cons[of i] del: upt_Suc)
qed

lemma lcsTable_lcsLen:
  "i \<le> length a \<Longrightarrow> j \<le> length b \<Longrightarrow> lcsTable a b ! i ! j = lcsLen a b i j"
proof -
  assume ij: "i \<le> length a" "j \<le> length b"
  have z: "replicate (length b + 1) 0 = map (lcsLen a b 0) [0..<length b + 1]"
    by (rule nth_equalityI) (auto simp del: upt_Suc replicate_Suc)
  have "lcsTable a b = map (\<lambda>i. map (lcsLen a b i) [0..<length b + 1]) [0..<length a + 1]"
    unfolding lcsTable_def z by (rule dpRows_lcsLen) simp_all
  then show ?thesis using ij by (simp del: upt_Suc)
qed

lemma backtrack_lcsLen:
  assumes "i \<le> length a" "j \<le> length b"
  shows "commonPairs a b i j (backtrack a b (lcsTable a b) i j) \<and>
     length (backtrack a b (lcsTable a b) i j) = lcsLen a b i j"
  using assms
proof (induction "i + j" arbitrary: i j rule: less_induct)
  case less
  show ?case
  proof (cases "i = 0 \<or> j = 0")
    case True
    then show ?thesis by (cases i) (auto simp: backtrack.simps commonPairs_def)
  next
    case False
    then obtain i' j' where s: "i = Suc i'" "j = Suc j'" by (metis not0_implies_Suc)
    have le: "i' \<le> length a" "j' \<le> length b" using s less.prems by simp_all
    note t = lcsTable_lcsLen[of _ a _ b]
    show ?thesis
      using less.hyps[of i' j'] less.hyps[of i' j] less.hyps[of i j'] less.prems le
      unfolding s
      by (subst (1 2) backtrack.simps)
        (auto simp: t commonPairs_Cons max_def intro: commonPairs_mono)
  qed
qed

lemma lcsPairs_common: "commonPairs a b (length a) (length b) (lcsPairs a b)"
  using backtrack_lcsLen[of "length a" a "length b" b] by (simp add: lcsPairs_def)

lemma lcsLines_SomeD:
  assumes "lcsLines a b i = Some j"
  shows "i < length a \<and> j < length b \<and> a ! i = b ! j"
  using map_of_SomeD[OF assms[unfolded lcsLines_def]] lcsPairs_common[of a b]
  by (auto simp: commonPairs_def)

text \<open>The pairs of lines found by the table and the walk back through it
  are a common subsequence of the two texts (equal lines, strictly increasing on
  both sides), and none is longer.\<close>

theorem lcs_longest:
  assumes "commonPairs a b (length a) (length b) ps"
  shows "commonPairs a b (length a) (length b) (lcsPairs a b) \<and> length ps \<le> length (lcsPairs a b)"
  using lcsPairs_common[of a b] commonPairs_bound[OF assms]
    backtrack_lcsLen[of "length a" a "length b" b] by (simp add: lcsPairs_def)

theorem lcs_longest_witness:
  "lcsPairs [''a'', ''b'', ''c'', ''b''] [''b'', ''c'', ''a'', ''b''] = [(3, 3), (2, 1), (1, 0)] \<and>
   2 \<le> length (lcsPairs [''a'', ''b'', ''c'', ''b''] [''b'', ''c'', ''a'', ''b''])"
proof -
  have "commonPairs [''a'', ''b'', ''c'', ''b''] [''b'', ''c'', ''a'', ''b''] (length [''a'', ''b'', ''c'', ''b''])
      (length [''b'', ''c'', ''a'', ''b'']) [(3, 3), (0, 2)]"
    by (simp add: commonPairs_def)
  then have "length [(3::nat, 3::nat), (0, 2)] \<le> length (lcsPairs [''a'', ''b'', ''c'', ''b''] [''b'', ''c'', ''a'', ''b''])"
    using lcs_longest[of "[''a'', ''b'', ''c'', ''b'']" "[''b'', ''c'', ''a'', ''b'']" "[(3, 3), (0, 2)]"] by blast
  then show ?thesis by (simp add: lcsPairs_def lcsTable_def backtrack.simps)
qed

section \<open>Relocate\<close>

lemma firstHit_Some: "firstHit f xs = Some y \<Longrightarrow> \<exists>x\<in>set xs. f x = Some y"
  by (induction xs) (auto split: option.splits)

lemma indexOf_Some:
  "0 \<le> indexOf s p \<Longrightarrow> indexOf s p + int (length p) \<le> int (length s) \<and>
     take (length p) (drop (nat (indexOf s p)) s) = p"
proof (induction s)
  case (Cons c s)
  show ?case
  proof (cases "hasPrefix (c # s) p")
    case True
    then obtain r where "c # s = p @ r" by (auto simp: hasPrefix_def dest: dropPrefix_Some)
    then have "length (c # s) = length p + length r" "take (length p) (c # s) = p" by simp_all
    moreover have "indexOf (c # s) p = 0" using True by simp
    ultimately show ?thesis by simp
  next
    case False
    then show ?thesis using Cons by (auto simp: Let_def nat_add_distrib split: if_splits)
  qed
qed (auto split: if_splits)

lemma scanFrom_Some:
  "scanFrom new quote pred best ps = Some r \<Longrightarrow>
     best = Some r \<or> (\<exists>p\<in>set ps. fst r = int p \<and> matchAt new (int p) quote = Some (snd r))"
  by (induction ps arbitrary: best) (fastforce split: option.splits if_splits)+

lemma scanFrom_nearest:
  "scanFrom new quote pred best ps = Some r \<Longrightarrow>
     (\<forall>b. best = Some b \<longrightarrow> \<bar>fst r - pred\<bar> \<le> \<bar>fst b - pred\<bar>) \<and>
     (\<forall>p\<in>set ps. matchAt new (int p) quote \<noteq> None \<longrightarrow> \<bar>fst r - pred\<bar> \<le> \<bar>int p - pred\<bar>)"
proof (induction ps arbitrary: best)
  case (Cons p ps)
  then show ?case
    by (cases "matchAt new (int p) quote"; cases best) (fastforce split: if_splits)+
qed auto

lemma scanFrom_None:
  "scanFrom new quote pred best ps = None \<longleftrightarrow>
     best = None \<and> (\<forall>p\<in>set ps. matchAt new (int p) quote = None)"
  by (induction ps arbitrary: best) (auto split: option.splits)

lemma scanFrom_None_iff:
  assumes "quote \<noteq> []"
  shows "scanFrom new quote pred None [0..<length new] = None \<longleftrightarrow> (\<forall>p. matchAt new p quote = None)"
proof -
  have "matchAt new p quote = None" if "\<not> (0 \<le> p \<and> p < int (length new))" for p
  proof (cases "p = int (length new)")
    case True
    then show ?thesis using assms by (cases quote) (simp_all add: matchAt_def)
  qed (use that in \<open>auto simp: matchAt_def\<close>)
  then have "(\<forall>p. matchAt new p quote = None) \<longleftrightarrow> (\<forall>p\<in>set [0..<length new]. matchAt new (int p) quote = None)"
    by (metis atLeast0LessThan atLeastLessThan_upt lessThan_iff nat_less_iff nonneg_int_cases of_nat_less_iff)
  then show ?thesis by (simp add: scanFrom_None)
qed

definition slice :: "string \<Rightarrow> int \<Rightarrow> int \<Rightarrow> string" where
  "slice t s e = take (nat (e - s)) (drop (nat s) t)"

lemma startsFrom_bounds: "x \<in> set (startsFrom i s) \<Longrightarrow> i < x \<and> x \<le> i + length s"
  by (induction s arbitrary: i) (fastforce split: if_splits)+

lemma lineStarts_le: "j < length (lineStarts s) \<Longrightarrow> lineStarts s ! j \<le> length s"
  using startsFrom_bounds[of "lineStarts s ! j" 0 s] nth_mem[of j "lineStarts s"]
  by (auto simp: lineStarts_def)

lemma trimSpace_infix: "\<exists>u v. s = u @ trimSpace s @ v"
proof -
  obtain u where u: "s = u @ stripLeading spaceSeqs s" using stripLeading_suffix by blast
  obtain v where "rev (stripLeading spaceSeqs s) = v @ stripLeading (map rev spaceSeqs) (rev (stripLeading spaceSeqs s))"
    using stripLeading_suffix by blast
  then have "stripLeading spaceSeqs s = trimSpace s @ rev v"
    unfolding trimSpace_def by (metis rev_append rev_rev_ident)
  then show ?thesis using u by metis
qed

lemma indexOf_infix: "0 \<le> indexOf (u @ p @ v) p"
proof (induction u)
  case Nil
  then show ?case
    using dropPrefix_append[of p v] by (cases "p @ v") (auto simp: hasPrefix_def simp del: dropPrefix_append)
next
  case (Cons c u)
  then show ?case by (auto simp: Let_def)
qed

lemma fuzzyHit_Some:
  assumes "fuzzyHit new want j = Some (s, e)" "j < length (lineStarts new)"
  shows "0 \<le> s \<and> s \<le> e \<and> e \<le> int (length new) \<and> collapse (slice new s e) = want"
proof -
  define st where "st = lineStarts new ! j"
  define line where "line = lineText new (lineStarts new) j"
  define t where "t = trimSpace line"
  define i where "i = nat (indexOf line t)"
  have h: "collapse t = want" "s = int st + indexOf line t" "e = s + int (length t)"
    using assms(1) by (auto simp: fuzzyHit_def Let_def t_def line_def st_def split: if_splits)
  have ix: "0 \<le> indexOf line t" unfolding t_def by (metis indexOf_infix trimSpace_infix)
  then have i: "indexOf line t = int i" "i + length t \<le> length line" "take (length t) (drop i line) = t"
    using indexOf_Some[OF ix] unfolding i_def by (auto simp: nat_le_iff)
  obtain k where k: "line = take k (drop st new)" unfolding line_def lineText_def st_def Let_def by blast
  have st: "st \<le> length new" using lineStarts_le[OF assms(2)] by (simp add: st_def)
  have "take (length t) (drop i line) = take (length t) (drop (st + i) new)"
  proof -
    have "length t \<le> k - i" using i(2) unfolding k by auto
    then show ?thesis unfolding k by (simp add: drop_take add.commute min_absorb1)
  qed
  then have "slice new s e = t" using h(2,3) i(1,3) by (simp add: slice_def nat_add_distrib)
  moreover have "length line \<le> length new - st" unfolding k by simp
  ultimately show ?thesis using h i(1,2) st by simp
qed

lemma fuzzyLines_bounds: "j \<in> set (fuzzyLines predLine n) \<Longrightarrow> j < n"
  by (auto simp: fuzzyLines_def)

lemma lcsStage_Some: "lcsStage old new start quote = Some (s, e) \<Longrightarrow> matchAt new s quote = Some e"
  by (auto simp: lcsStage_def Let_def split: option.splits)

lemma scanStage_Some: "scanStage old new start quote = Some (s, e) \<Longrightarrow> matchAt new s quote = Some e"
  by (auto simp: scanStage_def Let_def dest!: scanFrom_Some)

lemma scanStage_None:
  "quote \<noteq> [] \<Longrightarrow> scanStage old new start quote = None \<longleftrightarrow> (\<forall>p. matchAt new p quote = None)"
  by (simp add: scanStage_def Let_def scanFrom_None_iff)

lemma fuzzyStage_Some:
  assumes "fuzzyStage old new start quote = Some (s, e)"
  shows "0 \<le> s \<and> s \<le> e \<and> e \<le> int (length new) \<and> collapse (slice new s e) = collapse (trimSpace quote)"
proof -
  obtain j where "j < length (lineStarts new)" "fuzzyHit new (collapse (trimSpace quote)) j = Some (s, e)"
    using assms by (auto simp: fuzzyStage_def dest!: firstHit_Some dest: fuzzyLines_bounds split: if_splits)
  then show ?thesis using fuzzyHit_Some by blast
qed

lemma Relocate_found:
  assumes "Relocate old new start stop quote = (s, e, stage, True)"
  shows "stage \<noteq> ''fuzzy'' \<and> matchAt new s quote = Some e \<or>
     stage = ''fuzzy'' \<and> fuzzyStage old new start quote = Some (s, e)"
  using assms
  by (auto simp: Relocate_def lcsStage_Some scanStage_Some split: if_splits option.splits)

lemma Relocate_drifted:
  assumes "Relocate old new start stop quote = (s, e, stage, False)"
    and "quote \<noteq> []" "0 \<le> start" "start \<le> stop" "stop \<le> int (length old)"
  shows "stage = ''drifted'' \<and> (\<forall>p. matchAt new p quote = None)"
  using assms by (auto simp: Relocate_def scanStage_None split: if_splits option.splits)

lemma relocate_found_range:
  assumes "Relocate old new start stop quote = (s, e, stage, True)"
  shows "0 \<le> s \<and> s \<le> e \<and> e \<le> int (length new) \<and>
     collapse (slice new s e) = collapse (if stage = ''fuzzy'' then trimSpace quote else quote)"
  using Relocate_found[OF assms]
proof
  assume "stage \<noteq> ''fuzzy'' \<and> matchAt new s quote = Some e"
  then show ?thesis using matchAt_Some[of new s quote e] by (auto simp: slice_def)
next
  assume "stage = ''fuzzy'' \<and> fuzzyStage old new start quote = Some (s, e)"
  then show ?thesis using fuzzyStage_Some by auto
qed

text \<open>C33: for a quote anchored at a range of the old text, Relocate answers a
  range of the new text that holds the quote up to white space (the fuzzy stage:
  the quote without the space around it), or that it drifted, and then the new
  text holds it nowhere.\<close>

theorem relocate_finds_quote:
  assumes "quote \<noteq> []" "0 \<le> start" "start \<le> stop" "stop \<le> int (length old)"
  shows "case Relocate old new start stop quote of (s, e, stage, ok) \<Rightarrow>
     if ok then 0 \<le> s \<and> s \<le> e \<and> e \<le> int (length new) \<and>
       collapse (slice new s e) = collapse (if stage = ''fuzzy'' then trimSpace quote else quote)
     else stage = ''drifted'' \<and> (\<forall>p. matchAt new p quote = None)"
proof -
  obtain s e stage ok where r: "Relocate old new start stop quote = (s, e, stage, ok)"
    by (metis prod_cases4)
  show ?thesis
  proof (cases ok)
    case True
    then show ?thesis using r relocate_found_range[of old new start stop quote s e stage] by simp
  next
    case False
    then show ?thesis using r Relocate_drifted[of old new start stop quote s e stage] assms by simp
  qed
qed

theorem relocate_finds_quote_witness:
  "Relocate ''a b'' ''xx a   b'' 0 3 ''a b'' = (3, 8, ''scan'', True) \<and>
   collapse (slice ''xx a   b'' 3 8) = collapse ''a b''"
proof -
  have r: "Relocate ''a b'' ''xx a   b'' 0 3 ''a b'' = (3, 8, ''scan'', True)" by code_simp
  show ?thesis using relocate_finds_quote[of "''a b''" 0 3 "''a b''" "''xx a   b''"] r by simp
qed

section \<open>Lines of a file\<close>

abbreviation newlines :: "string \<Rightarrow> nat" where
  "newlines s \<equiv> length (filter (\<lambda>c. c = CHR 0x0A) s)"

lemma startsFrom_count:
  "length (takeWhile (\<lambda>x. x \<le> off) (startsFrom i s)) = newlines (take (off - i) s)"
proof (induction s arbitrary: i)
  case (Cons c s)
  show ?case
  proof (cases "off \<le> i")
    case True
    then have "takeWhile (\<lambda>x. x \<le> off) (startsFrom i (c # s)) = []"
      using startsFrom_bounds[of _ i "c # s"] True
      by (cases "startsFrom i (c # s)") (simp_all del: startsFrom.simps, fastforce simp del: startsFrom.simps)
    then show ?thesis using True by simp
  next
    case False
    then obtain k where "off - i = Suc k" "k = off - (i + 1)" by (cases "off - i") auto
    then show ?thesis using Cons.IH[of "i + 1"] False by auto
  qed
qed simp

lemma lineOf_count: "lineOf (lineStarts s) off = newlines (take off s)"
  using startsFrom_count[of off 0 s] by (simp add: lineOf_def lineStarts_def)

definition lineOffset :: "string list \<Rightarrow> nat \<Rightarrow> nat" where
  "lineOffset ls k = sum_list (map (\<lambda>l. length l + 1) (take k ls))"

lemma newlines_none: "CHR 0x0A \<notin> set s \<Longrightarrow> newlines s = 0"
  by (auto simp: filter_empty_conv)

lemma line_at:
  assumes "ls \<noteq> []" "\<forall>l\<in>set ls. CHR 0x0A \<notin> set l" "off \<le> length (joinWith [CHR 0x0A] ls)"
  shows "\<exists>k<length ls. \<exists>col\<le>length (ls ! k). off = lineOffset ls k + col \<and>
     newlines (take off (joinWith [CHR 0x0A] ls)) = k"
  using assms
proof (induction ls arbitrary: off)
  case (Cons x ls)
  have nl: "newlines (take off x) = 0" if "off \<le> length x"
    using Cons.prems(2) by (intro newlines_none) (auto dest: in_set_takeD)
  show ?case
  proof (cases "off \<le> length x")
    case True
    then have "newlines (take off (joinWith [CHR 0x0A] (x # ls))) = 0"
      using nl by (cases ls) simp_all
    then show ?thesis using True by (intro exI[of _ 0]) (auto simp: lineOffset_def)
  next
    case False
    then obtain y ys where ls: "ls = y # ys" using Cons.prems(3) by (cases ls) auto
    obtain o1 where o1: "off = length x + 1 + o1" using False by (metis add.commute add_Suc_right le_Suc_ex not_less_eq_eq Suc_eq_plus1)
    have "o1 \<le> length (joinWith [CHR 0x0A] ls)" using Cons.prems(3) o1 ls by simp
    then obtain k col where k: "k < length ls" "col \<le> length (ls ! k)" "o1 = lineOffset ls k + col"
      "newlines (take o1 (joinWith [CHR 0x0A] ls)) = k"
      using Cons.IH[of o1] Cons.prems(2) ls by auto
    have "newlines (take off (joinWith [CHR 0x0A] (x # ls))) = Suc k"
      using k(4) newlines_none[of x] Cons.prems(2) unfolding o1 ls by simp
    moreover have "off = lineOffset (x # ls) (Suc k) + col" using k(3) o1 by (simp add: lineOffset_def)
    ultimately show ?thesis using k(1,2) by (intro exI[of _ "Suc k"]) auto
  qed
qed simp

lemma join_split:
  assumes "k < length ls"
  shows "\<exists>pre rest. joinWith [CHR 0x0A] ls = pre @ ls ! k @ rest \<and> length pre = lineOffset ls k \<and>
     ((\<forall>l\<in>set ls. CHR 0x0A \<notin> set l) \<longrightarrow> newlines pre = k)"
  using assms
proof (induction ls arbitrary: k)
  case (Cons x ls)
  show ?case
  proof (cases k)
    case 0
    then show ?thesis by (cases ls) (auto simp: lineOffset_def)
  next
    case (Suc j)
    then obtain pre rest where j: "joinWith [CHR 0x0A] ls = pre @ ls ! j @ rest" "length pre = lineOffset ls j"
      "(\<forall>l\<in>set ls. CHR 0x0A \<notin> set l) \<longrightarrow> newlines pre = j"
      using Cons.IH[of j] Cons.prems by auto
    obtain y ys where ls: "ls = y # ys" using Suc Cons.prems by (cases ls) auto
    show ?thesis
      using j Suc newlines_none[of x] unfolding ls
      by (intro exI[of _ "x @ [CHR 0x0A] @ pre"] exI[of _ rest]) (simp add: lineOffset_def)
  qed
qed simp

text \<open>A thread re-anchored in the new file is on a line the file has, and
  unless the fuzzy stage placed it, the anchor text starts on that very line. In
  an unchanged file a thread stays where it was.\<close>

theorem reanchor_starts_on_line:
  assumes "\<forall>l\<in>set newFile. CHR 0x0A \<notin> set l" "newFile \<noteq> []"
    and "ReanchorLine oldFile newFile oldLine anchorText = (line, stage, True)"
  shows "1 \<le> line \<and> line \<le> int (length newFile) \<and>
     (stage = ''fuzzy'' \<or> (\<exists>col\<le>length (newFile ! nat (line - 1)).
        matchAt (joinWith [CHR 0x0A] newFile) (int (lineOffset newFile (nat (line - 1)) + col)) anchorText \<noteq> None)) \<and>
     (newFile = oldFile \<and> anchorText = oldFile ! nat (oldLine - 1) \<longrightarrow> line = oldLine \<and> stage = ''exact'')"
proof -
  let ?k = "nat (oldLine - 1)" and ?new = "joinWith [CHR 0x0A] newFile"
  let ?start = "int (lineOffset oldFile ?k)"
  let ?r = "Relocate (joinWith [CHR 0x0A] oldFile) ?new ?start (?start + int (length (oldFile ! ?k))) anchorText"
  have k: "1 \<le> oldLine" "?k < length oldFile"
    using assms(3) by (auto simp: ReanchorLine_def split: if_splits)
  then obtain s e where r: "?r = (s, e, stage, True)" "line = int (lineOf (lineStarts ?new) (nat s)) + 1"
    using assms(3) by (auto simp: ReanchorLine_def Let_def lineOffset_def split: if_splits prod.splits)
  obtain pre rest where old: "joinWith [CHR 0x0A] oldFile = pre @ oldFile ! ?k @ rest"
    "length pre = lineOffset oldFile ?k" "(\<forall>l\<in>set oldFile. CHR 0x0A \<notin> set l) \<longrightarrow> newlines pre = ?k"
    using join_split[OF k(2)] by blast
  have q: "anchorText \<noteq> []" using r(1) by (auto simp: Relocate_def)
  have in_text: "0 \<le> s \<and> s \<le> int (length ?new)"
    using relocate_found_range[OF r(1)] by simp
  obtain l col where l: "l < length newFile" "col \<le> length (newFile ! l)" "nat s = lineOffset newFile l + col"
    "newlines (take (nat s) ?new) = l"
    using line_at[OF assms(2,1), of "nat s"] in_text by (metis nat_le_iff)
  have line: "line = int l + 1" using r(2) l(4) by (simp add: lineOf_count)
  have "stage = ''fuzzy'' \<or> matchAt ?new (int (lineOffset newFile l + col)) anchorText = Some e"
    using Relocate_found[OF r(1)] l(3) in_text by (auto simp: nat_eq_iff)
  moreover have "line = oldLine \<and> stage = ''exact''" if same: "newFile = oldFile" "anchorText = oldFile ! ?k"
  proof -
    obtain n where n: "matchLen (anchorText @ rest) anchorText = Some n" using matchLen_prefix by blast
    have "matchAt ?new ?start anchorText = Some (?start + int n)"
      using n old(1) same unfolding matchAt_def old(2)[symmetric] by simp
    then have "s = ?start" "stage = ''exact''" using r(1) q old same by (simp_all add: Relocate_def)
    moreover have "newlines (take (nat ?start) ?new) = ?k"
      using old same assms(1) by simp
    ultimately show ?thesis using l(4) line k(1) by simp
  qed
  ultimately show ?thesis using line l(1,2) by auto
qed

theorem reanchor_starts_on_line_witness:
  "ReanchorLine [''a'', ''b c''] [''x'', ''a'', ''b  c''] 2 ''b c'' = (3, ''lcs'', True) \<and>
   (\<exists>col\<le>length ''b  c''. matchAt (joinWith [CHR 0x0A] [''x'', ''a'', ''b  c'']) (int (4 + col)) ''b c'' \<noteq> None)"
proof -
  have r: "ReanchorLine [''a'', ''b c''] [''x'', ''a'', ''b  c''] 2 ''b c'' = (3, ''lcs'', True)" by code_simp
  show ?thesis using reanchor_starts_on_line[OF _ _ r] r by (simp add: lineOffset_def numeral_3_eq_3)
qed

end
