(* ===== verification/ReviewSpec.thy ===== *)
theory ReviewSpec
  imports ReviewClosing AnchorSpec Samples
begin

text \<open>
  Correctness of reviews: the derived state is the declared one, the tables stay
  consistent under every operation, what a reviewer's round requires and leaves,
  and that polling for events delivers every message once.
\<close>

section \<open>The derived state\<close>

lemma stateLoop_eq:
  "stateLoop latest as n =
     (if \<exists>a\<in>set as. latest a = ''changes_requested'' then None
      else Some (n + length (filter (\<lambda>a. latest a = ''approved'') as)))"
  by (induction as arbitrary: n) auto

text \<open>C1: a review's state says what the rules say: changes requested while a
  reviewer's last verdict at the current base asks for changes, approved when
  there are reviewers, the last verdict of each approves and no change request is
  open, open otherwise.\<close>

theorem review_state_meaning:
  "reviewState roster rounds base openCR =
     (if \<exists>a\<in>set roster. latestVerdict rounds base a = ''changes_requested'' then ''changes_requested''
      else if roster \<noteq> [] \<and> (\<forall>a\<in>set roster. latestVerdict rounds base a = ''approved'') \<and> \<not> openCR
      then ''approved'' else ''open'')"
proof -
  have "length (filter (\<lambda>a. latestVerdict rounds base a = ''approved'') roster) = length roster \<longleftrightarrow>
      (\<forall>a\<in>set roster. latestVerdict rounds base a = ''approved'')"
    by (rule length_filter_all)
  then show ?thesis by (auto simp: reviewState_def stateLoop_eq)
qed

section \<open>A sample review\<close>

text \<open>A task of ada in review, with bob and cyd on its roster.\<close>

definition plainRenderer :: renderer where
  "plainRenderer = \<lparr> rd_sections = (\<lambda>_. Some []), rd_spans = (\<lambda>_ _. ([], [])) \<rparr>"

definition reviewDb :: db where
  "reviewDb = (sampleDb [(sampleTask ''WL-1'' ''chore'' ''in_review'')\<lparr>t_assignee := Some ''ada''\<rparr>] [])\<lparr>
     actors := [''ada'', ''bob'', ''cyd''],
     task_reviewers := [\<lparr>tr_task = ''WL-1'', tr_actor = ''bob'', tr_assigned_at = 0\<rparr>,
       \<lparr>tr_task = ''WL-1'', tr_actor = ''cyd'', tr_assigned_at = 1\<rparr>]\<rparr>"

definition openIn :: open_review_input where
  "openIn = \<lparr> oi_doc = 0, oi_task = ''WL-1'', oi_base_ref = replicate 40 (CHR ''a''), oi_reason = [],
     oi_allow_ready = False \<rparr>"

definition onLine :: "string \<Rightarrow> thread_input" where
  "onLine intent = \<lparr> ti_anchor = \<lparr>ra_doc = 0, ra_rule = 0, ra_version = 0, ra_start = 0, ra_end = 0, ra_quote = [],
       ra_doc_anchor = [], ra_repo = ''r'', ra_path = ''p'', ra_side = ''additions'', ra_line = 1,
       ra_anchor_text = ''x'', ra_blob_sha = ''b''\<rparr>,
     ti_intent = intent, ti_body = ''why'', ti_classifier = [] \<rparr>"

definition roundIn :: "string \<Rightarrow> string \<Rightarrow> thread_input list \<Rightarrow> round_input" where
  "roundIn verdict base ths = \<lparr> ri_verdict = verdict, ri_note = [], ri_client = ''cli'', ri_focused = False,
     ri_threads = ths, ri_base_ref = base, ri_reanchors = [] \<rparr>"

definition openedDb :: db where
  "openedDb = snd (projr (OpenReview (\<lambda>x. x) (\<lambda>_. 0) 0 openIn ''ada'' 1 reviewDb))"

lemma openedDb_run:
  "OpenReview (\<lambda>x. x) (\<lambda>_. 0) 0 openIn ''ada'' 1 reviewDb =
     Inr (fst (projr (OpenReview (\<lambda>x. x) (\<lambda>_. 0) 0 openIn ''ada'' 1 reviewDb)), openedDb)"
proof -
  have "\<not> isl (OpenReview (\<lambda>x. x) (\<lambda>_. 0) 0 openIn ''ada'' 1 reviewDb)" by code_simp
  then show ?thesis by (simp add: openedDb_def)
qed

definition askedDb :: db where
  "askedDb = snd (projr (SubmitReviewerRound plainRenderer 0 1
     (roundIn ''changes_requested'' [] [onLine ''change_request'', onLine ''note'']) ''bob'' 1 openedDb))"

lemma askedDb_run:
  "SubmitReviewerRound plainRenderer 0 1
     (roundIn ''changes_requested'' [] [onLine ''change_request'', onLine ''note'']) ''bob'' 1 openedDb =
   Inr (fst (projr (SubmitReviewerRound plainRenderer 0 1
     (roundIn ''changes_requested'' [] [onLine ''change_request'', onLine ''note'']) ''bob'' 1 openedDb)), askedDb)"
proof -
  have "\<not> isl (SubmitReviewerRound plainRenderer 0 1
     (roundIn ''changes_requested'' [] [onLine ''change_request'', onLine ''note'']) ''bob'' 1 openedDb)" by code_simp
  then show ?thesis by (simp add: askedDb_def)
qed

lemma reviewDb_none:
  "reviews reviewDb = []" "review_threads reviewDb = []" "review_messages reviewDb = []" "review_rounds reviewDb = []"
  "0 < next_review_id reviewDb"
  by code_simp+

lemma openedDb_ok: "rvOk openedDb"
  using OpenReview_ok[OF rvOk_empty[OF reviewDb_none] openedDb_run] .

lemma askedDb_ok: "rvOk askedDb"
  using SubmitReviewerRound_ok[OF openedDb_ok askedDb_run] .

section \<open>Consistency\<close>

text \<open>C19: from a store without reviews, whatever calls run, at most one review of
  a task or document is not closed, closing sets the time, the messages of a
  review are numbered from 1 to its counter with none missing or twice, those of a
  bare thread with none twice, every message is in a thread of its review, and no
  round of a review is recorded twice or above its counter.\<close>

theorem reviews_stay_consistent:
  assumes "reviews d = []" "review_threads d = []" "review_messages d = []" "review_rounds d = []"
    and "0 < next_review_id d" "reviewStep\<^sup>*\<^sup>* d d'"
  shows "(\<forall>r\<in>set (reviews d'). \<forall>s\<in>set (reviews d'). rv_state r \<noteq> ''closed'' \<longrightarrow> rv_state s \<noteq> ''closed'' \<longrightarrow>
      rv_task r \<noteq> None \<and> rv_task r = rv_task s \<or> rv_doc r \<noteq> None \<and> rv_doc r = rv_doc s \<longrightarrow> r = s) \<and>
     (\<forall>r\<in>set (reviews d'). rv_state r = ''closed'' \<longleftrightarrow> rv_closed_at r \<noteq> None) \<and>
     (\<forall>r\<in>set (reviews d'). rm_seq ` {m \<in> set (review_messages d'). rm_review m = Some (rv_id r)} = {1..<rv_next_seq r}) \<and>
     (distinct (map (\<lambda>m. (rm_review m, if rm_review m = None then Some (rm_thread m) else None, rm_seq m))
      (review_messages d'))) \<and>
     (\<forall>m\<in>set (review_messages d'). \<exists>t\<in>set (review_threads d'). th_id t = rm_thread m \<and> th_review t = rm_review m) \<and>
     (distinct (map (\<lambda>x. (rr_review x, rr_round x)) (review_rounds d'))) \<and>
     (\<forall>x\<in>set (review_rounds d'). \<exists>r\<in>set (reviews d'). rv_id r = rr_review x \<and> rr_round x \<le> rv_round r)"
proof -
  have "rvOk d'"
    using assms(6)
  proof (induction rule: rtranclp_induct)
    case base
    then show ?case using rvOk_empty assms(1-5) by blast
  next
    case (step y z)
    then show ?case using reviewStep_ok by blast
  qed
  then have ok: "rowsOk d'" "threadsOk d'" "numbersOk d'" "roundsOk d'" by (simp_all add: rvOk_def)
  have "slot = (\<lambda>m. (rm_review m, if rm_review m = None then Some (rm_thread m) else None, rm_seq m))"
    by (rule ext) (simp add: slot_def)
  then have "distinct (map (\<lambda>m. (rm_review m, if rm_review m = None then Some (rm_thread m) else None, rm_seq m))
      (review_messages d'))" using ok(3) by (simp add: numbersOk_def)
  moreover have "\<forall>r\<in>set (reviews d'). rm_seq ` {m \<in> set (review_messages d'). rm_review m = Some (rv_id r)} = {1..<rv_next_seq r}"
    using ok(3) unfolding numbersOk_def numbersOf_def by blast
  ultimately show ?thesis
    using ok(1,2,4) unfolding rowsOk_def threadsOk_def roundsOk_def isClosed_def sameSubject_def
    by (intro conjI) blast+
qed

theorem reviews_stay_consistent_witness:
  "distinct (map (\<lambda>x. (rr_review x, rr_round x)) (review_rounds askedDb)) \<and> length (review_messages askedDb) = 2"
proof -
  have "reviewStep reviewDb openedDb" by (rule reviewStep.openReview[OF openedDb_run])
  moreover have "reviewStep openedDb askedDb" by (rule reviewStep.reviewerRound[OF askedDb_run])
  ultimately have "reviewStep\<^sup>*\<^sup>* reviewDb askedDb" by simp
  note c = reviews_stay_consistent[OF reviewDb_none this]
  have "length (review_messages askedDb) = 2" by code_simp
  then show ?thesis using c by blast
qed

section \<open>A reviewer's round\<close>

text \<open>Recording a round: the row it leaves, read back.\<close>

lemma recordRound_row:
  assumes ok: "rvOk d" and r: "r \<in> set (reviews d)" "\<not> isClosed r"
    and s: "recordRound ts r inp dec a d = Inr (v, d')"
  shows "review_rounds d' = review_rounds d @ [\<lparr>rr_review = rv_id r, rr_round = rv_round r + 1, rr_actor = a,
       rr_client = ri_client inp, rr_base_ref = rv_base_ref r, rr_focused = ri_focused inp,
       rr_note = ri_note inp, rr_verdict = ri_verdict inp, rr_submitted_at = ts\<rparr>]"
    and "review_threads d' = review_threads d" "review_messages d' = review_messages d"
    and "rv_round (vw_row v) = rv_round r + 1" "rv_base_ref (vw_row v) = rv_base_ref r"
    and "vw_rounds v = reviewRounds d' (rv_id r)" "vw_threads v = reviewThreads d' (rv_id r)"
    and "rv_state (vw_row v) = viewState v" "row (\<lambda>x. rv_id x = rv_id r) (reviews d') = Some (vw_row v)"
    and "rv_task (vw_row v) = rv_task r" "map rv_id (reviews d') = map rv_id (reviews d)"
proof -
  let ?f = "\<lambda>x. x\<lparr>rv_round := rv_round x + 1\<rparr>"
  obtain d1 d3 v0 where e: "insertRound \<lparr>rr_review = rv_id r, rr_round = rv_round r + 1, rr_actor = a,
        rr_client = ri_client inp, rr_base_ref = rv_base_ref r, rr_focused = ri_focused inp, rr_note = ri_note inp,
        rr_verdict = ri_verdict inp, rr_submitted_at = ts\<rparr> d = Inr d1" (is "insertRound ?x d = _")
    and l: "(if orID (rv_doc r) \<noteq> 0 then decideReviewerLane ts r a dec (updReview (rv_id r) ?f d1)
        else Inr (updReview (rv_id r) ?f d1)) = Inr d3"
    and g: "getReview d3 (rv_id r) = Inr v0"
    and v: "v = v0\<lparr>vw_row := (vw_row v0)\<lparr>rv_state := viewState v0\<rparr>\<rparr>"
    and d': "d' = updReview (rv_id r) (\<lambda>x. x\<lparr>rv_state := viewState v0\<rparr>) d3"
    by (rule recordRound_InrE[OF s])
  have rt: "rtables d3 = rtables (updReview (rv_id r) ?f d1)"
    using l rt_lane by (auto split: if_splits)
  have d1: "d1 = d\<lparr>review_rounds := review_rounds d @ [?x]\<rparr>"
    using e by (auto simp: insertRound_def split: if_splits)
  have same: "review_rounds d3 = review_rounds d @ [?x]" "review_threads d3 = review_threads d"
    "review_messages d3 = review_messages d" "reviews d3 = updWhere (\<lambda>x. rv_id x = rv_id r) ?f (reviews d)"
    using rt unfolding d1 by (simp_all add: rtables_def updReview_def)
  have "row (\<lambda>x. rv_id x = rv_id r) (reviews d) = Some r"
    using row_unique[of rv_id "reviews d" r] ok r(1) by (simp add: rvOk_def rowsOk_def)
  then have row3: "row (\<lambda>x. rv_id x = rv_id r) (reviews d3) = Some (?f r)"
    unfolding same(4) by (subst row_updWhere_same) simp_all
  then have v0: "vw_row v0 = ?f r" "vw_rounds v0 = reviewRounds d3 (rv_id r)" "vw_threads v0 = reviewThreads d3 (rv_id r)"
    using g by (simp_all add: getReview_def) (auto)
  show "review_rounds d' = review_rounds d @ [?x]" "review_threads d' = review_threads d"
    "review_messages d' = review_messages d"
    using same by (simp_all add: d' updReview_def)
  show "rv_round (vw_row v) = rv_round r + 1" "rv_base_ref (vw_row v) = rv_base_ref r" using v0(1) by (simp_all add: v)
  show "vw_rounds v = reviewRounds d' (rv_id r)" "vw_threads v = reviewThreads d' (rv_id r)"
    using v0 by (simp_all add: v d' updReview_def reviewRounds_def reviewThreads_def threadsWhere_def)
  show "rv_state (vw_row v) = viewState v" by (simp add: v viewState_def)
  show "row (\<lambda>x. rv_id x = rv_id r) (reviews d') = Some (vw_row v)"
    unfolding d' updReview_def using row3 by (simp add: v v0(1) row_updWhere_same)
  show "rv_task (vw_row v) = rv_task r" using v0(1) by (simp add: v)
  show "map rv_id (reviews d') = map rv_id (reviews d)" by (simp add: d' updReview_def same map_updWhere_same)
qed

lemma rtables_said: "rtables d' = rtables d \<Longrightarrow> saidSame d d' \<and> reviews d' = reviews d"
  by (simp add: rtables_def)

text \<open>The end of a round: what sends a task in review back to work leaves the
  review's own row and what was said.\<close>

lemma sent_back:
  assumes m: "(if lockReviewTask d i = ''in_review'' \<and> P
      then transitionKnown climbFuel now ev (orText (rv_task r)) (lockReviewTask d i) ''in_review'' ''in_progress'' d4
      else Inr d4) = Inr d'"
    and h4: "hierarchyOk d4" and ids4: "reviewIds d4" and stay4: "row (\<lambda>r. rv_id r = i) (reviews d4) = Some w"
    and g4: "graph d4 = graph d" and r: "row (\<lambda>r. rv_id r = i) (reviews d) = Some r" and w: "rv_task w = rv_task r"
  shows "saidSame d4 d' \<and> row (\<lambda>r. rv_id r = i) (reviews d') = Some w \<and>
     (if lockReviewTask d i = ''in_review'' \<and> P
      then \<exists>t. taskRow d (orText (rv_task r)) = Some t \<and>
        taskRow d' (orText (rv_task r)) = Some (t\<lparr>t_state := ''in_progress'', t_updated_at := now\<rparr>)
      else d' = d4)" (is "_ \<and> _ \<and> (if ?move then _ else _)")
proof (cases ?move)
  case True
  then obtain tk where tk: "taskRow d (orText (rv_task r)) = Some tk" "t_state tk = lockReviewTask d i"
    and own_task: "rv_task r = Some (orText (rv_task r))"
    using r by (auto simp: lockReviewTask_def orText_def split: option.splits)
  have row4: "taskRow d4 (orText (rv_task r)) = Some tk" using tk(1) g4 by (simp add: taskRow_def graph_def)
  have k: "transitionKnown climbFuel now ev (orText (rv_task r)) (t_state tk) ''in_review'' ''in_progress'' d4 = Inr d'"
    using m True tk(2) by simp
  have "legal ''in_review'' ''in_progress''" by code_simp
  then have f: "TransitionFuel climbFuel now ev (orText (rv_task r)) ''in_review'' ''in_progress'' d4 = Inr d'"
    using k row4 by (simp add: TransitionFuel_def)
  have "\<exists>t. taskRow d (orText (rv_task r)) = Some t \<and>
      taskRow d' (orText (rv_task r)) = Some (t\<lparr>t_state := ''in_progress'', t_updated_at := now\<rparr>)"
    using TransitionFuel_own[OF h4 f] row4 tk(1) by simp
  moreover have "saidSame d4 d'" by (rule machine_said.transitionKnown_keeps[OF _ row4 k]) simp
  moreover have "rv_task w = Some (orText (rv_task r))" using w own_task by simp
  from own_review_stays[OF f h4 ids4 _ stay4 this] have "row (\<lambda>r. rv_id r = i) (reviews d') = Some w"
    by simp
  ultimately show ?thesis using True by simp
next
  case False
  then have "d' = d4" using m by (simp only: if_False sum.inject)
  then show ?thesis using stay4 unfolding if_not_P[OF False] by simp
qed

text \<open>C20: a reviewer's round that is accepted. The review was open and the actor
  is on its roster, neither assigned to the reviewed task nor holding its lease;
  the client is a known one, the verdict is one of two and approves only when no
  change request is open. One round is recorded, at the review's base; the stored
  row is the returned one, its state the one the rules give; and asking for changes
  sends a task that was in review back to work, and no other verdict writes a
  task.\<close>

theorem reviewer_round_outcome:
  assumes "rvOk d" "hierarchyOk d" "SubmitReviewerRound rd now i inp a ev d = Inr (v, d')"
  shows "\<exists>r\<in>set (reviews d). rv_id r = i \<and> rv_state r \<noteq> ''closed'' \<and> a \<in> set (reviewRoster d r) \<and>
     ri_client inp \<in> set roundClients \<and> ri_verdict inp \<in> {''approved'', ''changes_requested''} \<and>
     (orText (rv_task r) \<noteq> [] \<longrightarrow> \<not> (\<exists>t\<in>set (tasks d). t_id t = orText (rv_task r) \<and>
        (t_assignee t = Some a \<or>
         (\<exists>l\<in>set (leases d). l_task l = orText (rv_task r) \<and> active l \<and> l_actor l = a)))) \<and>
     review_rounds d' = review_rounds d @ [\<lparr>rr_review = i, rr_round = rv_round r + 1, rr_actor = a,
       rr_client = ri_client inp, rr_base_ref = rv_base_ref r, rr_focused = ri_focused inp,
       rr_note = ri_note inp, rr_verdict = ri_verdict inp, rr_submitted_at = truncSec now\<rparr>] \<and>
     (ri_verdict inp = ''approved'' \<longrightarrow> \<not> BlocksApproval (map tv_thread (reviewThreads d' i))) \<and>
     row (\<lambda>r. rv_id r = i) (reviews d') = Some (vw_row v) \<and> rv_round (vw_row v) = rv_round r + 1 \<and>
     rv_state (vw_row v) = reviewState (vw_reviewers v) (reviewRounds d' i) (rv_base_ref r)
       (BlocksApproval (map tv_thread (reviewThreads d' i))) \<and>
     (if lockReviewTask d i = ''in_review'' \<and> ri_verdict inp = ''changes_requested''
      then \<exists>t. taskRow d (orText (rv_task r)) = Some t \<and>
        taskRow d' (orText (rv_task r)) = Some (t\<lparr>t_state := ''in_progress'', t_updated_at := truncSec now\<rparr>)
      else tasks d' = tasks d)"
  using assms(3)
proof (rule SubmitReviewerRound_InrE)
  fix dec r d1 d2 d3 d4
  assume dec: "map_of verdictDecisions (ri_verdict inp) = Some dec" and l: "lockReview d i = Inr r"
    and own: "orText (rv_task r) \<noteq> [] \<Longrightarrow> checkNotSelfApproval d (orText (rv_task r)) a = Inr ()"
    and ros: "a \<in> set (reviewRoster d r)"
    and t: "foldE (\<lambda>th d. andThen (OpenThread rd now i th a [] [] ev d) (\<lambda>(_, d'). Inr d')) (ri_threads inp) d = Inr d1"
    and bl: "ri_verdict inp = ''approved'' \<Longrightarrow> \<not> BlocksApproval (map tv_thread (reviewThreads d1 i))"
    and rr: "recordRound (truncSec now) r inp dec a d1 = Inr (v, d2)"
    and e1: "recordReviewEvent (truncSec now) ''wl:ReviewRoundSubmitted'' (iri_CURIE (iri_Review i)) a ev
       (roundEvent ''reviewer'' inp (int (length (ri_threads inp)))) d2 = Inr d3"
    and e2: "recordReviewEvent (truncSec now) ''wl:ReviewVerdictRecorded'' (iri_CURIE (iri_Review i)) a ev
       [(''wl:reviewVerdict'', JStr (''wlc:'' @ ri_verdict inp))] d3 = Inr d4"
    and m: "(if lockReviewTask d i = ''in_review'' \<and> ri_verdict inp = ''changes_requested''
      then transitionKnown climbFuel (truncSec now) ev (orText (rv_task r)) (lockReviewTask d i) ''in_review''
             ''in_progress'' d4 else Inr d4) = Inr d'" (is "(if ?move then _ else _) = _")
  note r = lockReview_InrD[OF l] and t1 = openThreads_ok[OF assms(1) t]
  obtain r' where r': "r' \<in> set (reviews d1)" "r'\<lparr>rv_next_seq := 0\<rparr> = r\<lparr>rv_next_seq := 0\<rparr>"
    using sansSeq_row t1 r by blast
  note same = sansSeq_fields[OF r'(2)]
  have rr': "recordRound (truncSec now) r' inp dec a d1 = Inr (v, d2)"
    using rr unfolding recordRound_def decideReviewerLane_def same by simp
  have "\<not> isClosed r'" using r same by (simp add: isClosed_def)
  note rec = recordRound_row[OF conjunct1[OF t1] r'(1) this rr', unfolded same]
  have rt4: "rtables d4 = rtables d2" using rt_event[OF e2] rt_event[OF e1] by simp
  have g4: "graph d4 = graph d"
    using event_graph[OF e2] event_graph[OF e1] recordRound_graph[OF rr] openThreads_graph[OF t] by simp
  have reviews4: "reviews d4 = reviews d2" using rtables_said[OF rt4] by simp
  have ids4: "reviewIds d4"
    using t1 rec(11) unfolding reviewIds_def reviews4 by (simp add: rvOk_def rowsOk_def)
  have h4: "hierarchyOk d4" using hierarchyOk_cong[of d4 d] assms(2) g4 by (simp add: graph_def)
  have stay4: "row (\<lambda>r. rv_id r = i) (reviews d4) = Some (vw_row v)" using rec(9) r by (simp add: reviews4)
  have moved: "saidSame d4 d' \<and> row (\<lambda>r. rv_id r = i) (reviews d') = Some (vw_row v) \<and>
     (if ?move then \<exists>t. taskRow d (orText (rv_task r)) = Some t \<and>
        taskRow d' (orText (rv_task r)) = Some (t\<lparr>t_state := ''in_progress'', t_updated_at := truncSec now\<rparr>)
      else d' = d4)"
    by (rule sent_back[OF m h4 ids4 stay4 g4 _ rec(10)]) (use r in blast)
  have said: "saidSame d2 d'" using moved rtables_said[OF rt4] by simp
  have rounds: "reviewRounds d' j = reviewRounds d2 j" "reviewThreads d' j = reviewThreads d2 j"
    "reviewThreads d2 j = reviewThreads d1 j" for j
    using said rec(2,3) by (simp_all add: reviewRounds_def reviewThreads_def threadsWhere_def)
  have verdict: "ri_verdict inp \<in> {''approved'', ''changes_requested''}"
    using map_of_SomeD[OF dec] by (auto simp: verdictDecisions_def)
  show ?thesis
  proof (rule bexI[of _ r], intro conjI)
    show "rv_id r = i" "r \<in> set (reviews d)" "rv_state r \<noteq> ''closed''" using r by (simp_all add: isClosed_def)
    show "review_rounds d' = review_rounds d @ [\<lparr>rr_review = i, rr_round = rv_round r + 1, rr_actor = a,
       rr_client = ri_client inp, rr_base_ref = rv_base_ref r, rr_focused = ri_focused inp,
       rr_note = ri_note inp, rr_verdict = ri_verdict inp, rr_submitted_at = truncSec now\<rparr>]"
      using said rec(1) t1 r by simp
    show "orText (rv_task r) \<noteq> [] \<longrightarrow> \<not> (\<exists>t\<in>set (tasks d). t_id t = orText (rv_task r) \<and>
        (t_assignee t = Some a \<or>
         (\<exists>l\<in>set (leases d). l_task l = orText (rv_task r) \<and> active l \<and> l_actor l = a)))"
      using own unfolding checkNotSelfApproval_def guard_Inr_iff by blast
    show "ri_verdict inp = ''approved'' \<longrightarrow> \<not> BlocksApproval (map tv_thread (reviewThreads d' i))"
      using bl rounds by simp
    show "rv_state (vw_row v) = reviewState (vw_reviewers v) (reviewRounds d' i) (rv_base_ref r)
       (BlocksApproval (map tv_thread (reviewThreads d' i)))"
      using rec(5-8) r rounds by (simp add: viewState_def)
    show "if ?move then \<exists>t. taskRow d (orText (rv_task r)) = Some t \<and>
        taskRow d' (orText (rv_task r)) = Some (t\<lparr>t_state := ''in_progress'', t_updated_at := truncSec now\<rparr>)
      else tasks d' = tasks d"
      using moved g4 by (auto simp: graph_def)
    show "row (\<lambda>r. rv_id r = i) (reviews d') = Some (vw_row v)" using moved by simp
    show "ri_client inp \<in> set roundClients"
      using assms(3) by (simp add: SubmitReviewerRound_def split: option.splits if_splits)
  qed (use ros verdict rec(4) in simp_all)
qed

theorem reviewer_round_outcome_witness:
  "map (\<lambda>x. (rr_round x, rr_verdict x)) (review_rounds askedDb) = [(1, ''changes_requested'')] \<and>
   map_option t_state (taskRow askedDb ''WL-1'') = Some ''in_progress''"
proof -
  have h: "hierarchyOk openedDb"
  proof -
    have "map (\<lambda>e. e_type e = ''childOf'') (task_edges openedDb) = [False, False]" by code_simp
    then have "edgeRel openedDb ''childOf'' = {}" by (auto simp: edgeRel_def)
    then show ?thesis by (simp add: hierarchyOk_def)
  qed
  have "lockReviewTask openedDb 1 = ''in_review''" "map (\<lambda>r. (rv_id r, rv_round r, rv_task r)) (reviews openedDb) = [(1, 0, Some ''WL-1'')]"
    "review_rounds openedDb = []"
    by code_simp+
  then show ?thesis
    using reviewer_round_outcome[OF openedDb_ok h askedDb_run] by (auto simp: roundIn_def orText_def)
qed

section \<open>Polling\<close>

lemma in_threadsWhere:
  "(\<exists>v\<in>set (threadsWhere p d). m \<in> set (tv_messages v)) \<longleftrightarrow>
     (\<exists>t\<in>set (review_threads d). p t \<and> m \<in> set (review_messages d) \<and> rm_thread m = th_id t)"
  by (auto simp: threadsWhere_def)

lemma threads_messages_distinct:
  assumes "rvOk d" shows "distinct (concat (map tv_messages (threadsWhere p d)))"
proof -
  let ?sel = "\<lambda>t. sortStable (\<lambda>a b. cmpOr [cmpInt (rm_seq a) (rm_seq b), cmpInt (rm_id a) (rm_id b)])
             (filter (\<lambda>m. rm_thread m = th_id t) (review_messages d))"
  have ms: "distinct (review_messages d)"
    using assms by (auto simp: rvOk_def threadsOk_def distinct_map)
  have "distinct (concat (map ?sel ts))" if "distinct (map th_id ts)" for ts
    using that
  proof (induction ts)
    case (Cons t ts)
    have "distinct (?sel t)" using ms by simp
    moreover have "th_id y \<noteq> th_id t" if "y \<in> set ts" for y
    proof
      assume "th_id y = th_id t"
      then have "th_id t \<in> th_id ` set ts" using imageI[OF that, of th_id] by simp
      then show False using Cons.prems by simp
    qed
    ultimately show ?case using Cons by auto
  qed simp
  moreover have "distinct (map th_id (sortStable (\<lambda>a b. cmpOr [cmpInt (th_created_at a) (th_created_at b),
      cmpInt (th_id a) (th_id b)]) (filter p (review_threads d))))"
  proof -
    have "distinct (map th_id (filter p (review_threads d)))"
      using assms distinct_map_filter by (auto simp: rvOk_def threadsOk_def)
    then show ?thesis by (simp add: distinct_map)
  qed
  ultimately show ?thesis by (simp add: threadsWhere_def comp_def)
qed

text \<open>The threads a poll selects hold every message of the review past the cursor,
  and no others.\<close>

lemma polled_messages:
  assumes "threadsOk d" "\<And>t. P t \<Longrightarrow> th_review t = Some i"
    and "\<And>t m. th_review t = Some i \<Longrightarrow> m \<in> set (review_messages d) \<Longrightarrow> rm_thread m = th_id t \<Longrightarrow>
      after < rm_seq m \<Longrightarrow> P t"
  shows "set (filter (\<lambda>m. rm_seq m > after) (concat (map tv_messages (threadsWhere P d)))) =
    {m \<in> set (review_messages d). rm_review m = Some i \<and> after < rm_seq m}"
proof (rule Set.set_eqI)
  fix m
  have "m \<in> set (filter (\<lambda>m. rm_seq m > after) (concat (map tv_messages (threadsWhere P d)))) \<longleftrightarrow>
      after < rm_seq m \<and> (\<exists>t\<in>set (review_threads d). P t \<and> m \<in> set (review_messages d) \<and> rm_thread m = th_id t)"
    using in_threadsWhere[of P d m] by auto
  also have "\<dots> \<longleftrightarrow> m \<in> set (review_messages d) \<and> rm_review m = Some i \<and> after < rm_seq m"
  proof
    assume *: "after < rm_seq m \<and> (\<exists>t\<in>set (review_threads d). P t \<and> m \<in> set (review_messages d) \<and> rm_thread m = th_id t)"
    then obtain t where t: "t \<in> set (review_threads d)" "P t" "m \<in> set (review_messages d)" "rm_thread m = th_id t" by blast
    obtain t' where t': "t' \<in> set (review_threads d)" "th_id t' = rm_thread m" "th_review t' = rm_review m"
      using assms(1) t(3) unfolding threadsOk_def by blast
    have "t = t'" using distinct_map_inj[of th_id "review_threads d"] assms(1) t(1,4) t'(1,2) unfolding threadsOk_def by simp
    then show "m \<in> set (review_messages d) \<and> rm_review m = Some i \<and> after < rm_seq m"
      using * t(3) t'(3) assms(2)[OF t(2)] by simp
  next
    assume *: "m \<in> set (review_messages d) \<and> rm_review m = Some i \<and> after < rm_seq m"
    then obtain t where t: "t \<in> set (review_threads d)" "th_id t = rm_thread m" "th_review t = rm_review m"
      using assms(1) unfolding threadsOk_def by blast
    then have "P t" using * assms(3)[of t m] by simp
    then show "after < rm_seq m \<and> (\<exists>t\<in>set (review_threads d). P t \<and> m \<in> set (review_messages d) \<and> rm_thread m = th_id t)"
      using * t by metis
  qed
  finally show "m \<in> set (filter (\<lambda>m. rm_seq m > after) (concat (map tv_messages (threadsWhere P d)))) \<longleftrightarrow>
      m \<in> {m \<in> set (review_messages d). rm_review m = Some i \<and> after < rm_seq m}" by simp
qed

lemma numbers_apart:
  assumes "numbersOk d" "set ms = {m \<in> set (review_messages d). rm_review m = Some i \<and> after < rm_seq m}" "distinct ms"
  shows "distinct (map rm_seq ms)"
  unfolding distinct_map
proof
  show "inj_on rm_seq (set ms)"
  proof (rule inj_onI)
    fix x y assume xy: "x \<in> set ms" "y \<in> set ms" "rm_seq x = rm_seq y"
    then have "slot x = slot y" unfolding assms(2) slot_def by simp
    then show "x = y"
      using distinct_map_inj[of slot "review_messages d" x y] assms(1) xy(1,2) unfolding assms(2) numbersOk_def by simp
  qed
qed (rule assms(3))

text \<open>C31: reading the events of a review from a cursor hands out exactly the
  messages numbered above it, in order and none missing, and moves the cursor to
  the last: a client that polls from the cursor it got back sees every message
  once.\<close>

theorem polling_complete:
  assumes "rvOk d" "0 \<le> after" "ReviewEvents d i after = Inr (c, ts, ms)"
  shows "map rm_seq ms = [after + 1..c] \<and> after \<le> c \<and>
     set ms = {m \<in> set (review_messages d). rm_review m = Some i \<and> after < rm_seq m} \<and>
     (\<forall>r\<in>set (reviews d). rv_id r = i \<and> after < rv_next_seq r \<longrightarrow> c = rv_next_seq r - 1)"
proof -
  define P :: "review_thread \<Rightarrow> bool" where "P t \<longleftrightarrow> th_review t = Some i \<and>
     ((\<exists>m\<in>set (review_messages d). rm_thread m = th_id t \<and> rm_seq m > after) \<or>
      (case (th_resolved_at t, map_option rm_created_at
          (row (\<lambda>m. rm_review m = Some i \<and> rm_seq m = after) (review_messages d))) of
         (Some r, Some s) \<Rightarrow> r \<ge> s | _ \<Rightarrow> False))" for t
  define new where "new = filter (\<lambda>m. rm_seq m > after) (concat (map tv_messages (threadsWhere P d)))"
  have ms: "ms = sortStable (\<lambda>a b. cmpInt (rm_seq a) (rm_seq b)) new" and c: "c = fold max (map rm_seq new) after"
    and found: "\<exists>r\<in>set (reviews d). rv_id r = i"
    using assms(3) unfolding ReviewEvents_def Let_def P_def new_def by (auto split: if_splits)
  have rows: "rowsOk d" "threadsOk d" "numbersOk d" using assms(1) by (simp_all add: rvOk_def)
  have set_new: "set new = {m \<in> set (review_messages d). rm_review m = Some i \<and> after < rm_seq m}"
    unfolding new_def by (rule polled_messages[OF rows(2)]) (auto simp: P_def)
  obtain r where r: "r \<in> set (reviews d)" "rv_id r = i" using found by blast
  have nums: "rm_seq ` {m \<in> set (review_messages d). rm_review m = Some i} = {1..<rv_next_seq r}"
    using rows(3) r unfolding numbersOk_def numbersOf_def by blast
  have seqs: "rm_seq ` set new = {after + 1..<rv_next_seq r}"
  proof -
    have "rm_seq ` set new = {s \<in> rm_seq ` {m \<in> set (review_messages d). rm_review m = Some i}. after < s}"
      unfolding set_new by blast
    then show ?thesis unfolding nums using assms(2) by auto
  qed
  have dist: "distinct (map rm_seq new)"
    using threads_messages_distinct[OF assms(1)] by (intro numbers_apart[OF rows(3) set_new]) (simp add: new_def)
  have "sorted_wrt (\<lambda>a b. cmpInt (rm_seq a) (rm_seq b) \<le> 0) ms"
    unfolding ms by (rule comparator.sorted_sortStable[OF comparator_key[OF cmpInt.comparator_axioms]])
  then have "sorted (map rm_seq ms)" by (simp add: sorted_map)
  moreover have "distinct (map rm_seq ms)" using dist unfolding ms distinct_map by simp
  moreover have "set (map rm_seq ms) = {after + 1..rv_next_seq r - 1}"
    using seqs by (simp add: ms atLeastLessThanPlusOne_atLeastAtMost_int[symmetric])
  ultimately have list: "map rm_seq ms = [after + 1..rv_next_seq r - 1]"
    by (intro sorted_distinct_set_unique) simp_all
  have "c = Max (insert after {after + 1..<rv_next_seq r})"
    unfolding c seqs[symmetric] by (simp add: Max.set_eq_fold[symmetric])
  then have cv: "c = (if after < rv_next_seq r then rv_next_seq r - 1 else after)"
    by (simp, intro conjI impI Max_eqI) auto
  have "\<forall>r'\<in>set (reviews d). rv_id r' = i \<longrightarrow> r' = r" using rowsOk_unique[OF rows(1)] r by blast
  moreover have "[after + 1..rv_next_seq r - 1] = [after + 1..c]" using cv by simp
  ultimately show ?thesis using list cv set_new by (auto simp: ms)
qed

theorem polling_complete_witness:
  "map rm_seq (snd (snd (projr (ReviewEvents askedDb 1 0)))) = [1, 2]"
proof -
  have run: "\<not> isl (ReviewEvents askedDb 1 0)" "fst (projr (ReviewEvents askedDb 1 0)) = 2" by code_simp+
  then have "ReviewEvents askedDb 1 0 = Inr (2, fst (snd (projr (ReviewEvents askedDb 1 0))),
      snd (snd (projr (ReviewEvents askedDb 1 0))))"
    by (metis prod.collapse succeeded)
  from polling_complete[OF askedDb_ok _ this] show ?thesis by (simp add: upto.simps)
qed

section \<open>Threads follow an edit\<close>

text \<open>What becomes of an open thread of the edited text: it moves to where its
  quote is now, or is obsolete, and then its quote is nowhere.\<close>

definition follows :: "int \<Rightarrow> string \<Rightarrow> string \<Rightarrow> review_thread \<Rightarrow> review_thread \<Rightarrow> bool" where
  "follows v' old body t t' \<longleftrightarrow>
     (let quote = orText (th_quote t) in
      th_status t' = th_status t \<and> th_version t' = Some v' \<and>
        (\<exists>s e. th_start t' = Some s \<and> th_end t' = Some e \<and> 0 \<le> s \<and> s \<le> e \<and> e \<le> int (length body) \<and>
           th_quote t' = Some (slice body s e) \<and>
           (collapse (slice body s e) = collapse quote \<or> collapse (slice body s e) = collapse (trimSpace quote))) \<or>
      th_status t' = ''obsolete'' \<and>
        (quote \<noteq> [] \<and> 0 \<le> orID (th_start t) \<and> orID (th_start t) \<le> orID (th_end t) \<and>
           orID (th_end t) \<le> int (length old) \<longrightarrow> (\<forall>p. matchAt body p quote = None)))"

lemma event_threads: "recordReviewEvent at ty s a i ps d = Inr d' \<Longrightarrow> review_threads d' = review_threads d"
  using rt_event by (simp add: rtables_def)

lemma relocateOne_InrD:
  assumes "relocateOne v' old body ev anchor t d = Inr d'"
  shows "\<exists>f. review_threads d' = map (\<lambda>x. if th_id x = th_id t then f x else x) (review_threads d) \<and>
     (\<forall>x. th_id (f x) = th_id x) \<and> follows v' old body t (f t)"
proof -
  obtain s e c ok where R: "Relocate old body (orID (th_start t)) (orID (th_end t)) (orText (th_quote t)) = (s, e, c, ok)"
    by (cases "Relocate old body (orID (th_start t)) (orID (th_end t)) (orText (th_quote t))")
  show ?thesis
  proof (cases ok)
    case True
    then obtain sec where d': "d' = updThread (th_id t) (\<lambda>t. t\<lparr>th_version := Some v', th_start := Some s, th_end := Some e,
        th_quote := Some (take (nat (e - s)) (drop (nat s) body)), th_doc_anchor := nullText sec\<rparr>) d"
      (is "_ = updThread _ ?f d")
      using assms R by (auto simp: relocateOne_def Let_def)
    note found = relocate_found_range[OF R[unfolded True[THEN eq_True[THEN iffD2]]]]
    have "follows v' old body t (?f t)"
      using found unfolding follows_def Let_def slice_def by (auto split: if_splits)
    then show ?thesis
      by (intro exI[of _ ?f]) (simp add: d' updThread_def updWhere_def)
  next
    case False
    let ?f = "\<lambda>t. t\<lparr>th_status := ''obsolete'', th_resolved_at := Some (truncSec (wall d))\<rparr>"
    have "reviewEvent (truncSec (wall d)) ''wl:ReviewThreadResolved'' (th_id t) FlowActorID ev
           [(''wl:threadStatus'', JStr ''obsolete'')] (updThread (th_id t) ?f d) = Inr d'"
      using assms R False by (simp add: relocateOne_def)
    then have d': "review_threads d' = map (\<lambda>x. if th_id x = th_id t then ?f x else x) (review_threads d)"
      using event_threads unfolding reviewEvent_def by (auto simp: updThread_def updWhere_def)
    have "follows v' old body t (?f t)"
      using Relocate_drifted[OF R[unfolded False[THEN eq_False[THEN iffD2]]]] unfolding follows_def Let_def by auto
    then show ?thesis using d' by (intro exI[of _ ?f]) simp
  qed
qed

lemma relocateAll_InrD:
  assumes "foldE (relocateOne v' old body ev anchor) ts d = Inr d'" "distinct (map th_id ts)"
  shows "\<exists>g. review_threads d' = map g (review_threads d) \<and> (\<forall>x. th_id (g x) = th_id x) \<and>
     (\<forall>x. th_id x \<notin> th_id ` set ts \<longrightarrow> g x = x) \<and> (\<forall>x\<in>set ts. follows v' old body x (g x))"
  using assms
proof (induction ts arbitrary: d)
  case Nil
  then show ?case by (intro exI[of _ id]) simp
next
  case (Cons t ts)
  then obtain d1 where d1: "relocateOne v' old body ev anchor t d = Inr d1"
    "foldE (relocateOne v' old body ev anchor) ts d1 = Inr d'"
    by (auto simp: andThen_Inr_iff)
  have distinct: "distinct (map th_id ts)" using Cons.prems(2) by simp
  obtain f where f: "review_threads d1 = map (\<lambda>x. if th_id x = th_id t then f x else x) (review_threads d)"
    "\<And>x. th_id (f x) = th_id x" "follows v' old body t (f t)"
    using relocateOne_InrD[OF d1(1)] by blast
  obtain g where g: "review_threads d' = map g (review_threads d1)" "\<And>x. th_id (g x) = th_id x"
    "\<And>x. th_id x \<notin> th_id ` set ts \<Longrightarrow> g x = x" "\<And>x. x \<in> set ts \<Longrightarrow> follows v' old body x (g x)"
    using Cons.IH[OF d1(2) distinct] by blast
  let ?h = "\<lambda>x. g (if th_id x = th_id t then f x else x)"
  have new: "th_id t \<notin> th_id ` set ts" using Cons.prems(2) by simp
  show ?case
  proof (intro exI[of _ ?h] conjI allI ballI impI)
    show "review_threads d' = map ?h (review_threads d)" using g(1) f(1) by simp
    fix x show "th_id (?h x) = th_id x" using g(2) f(2) by simp
    show "?h x = x" if "th_id x \<notin> th_id ` set (t # ts)" using that g(3)[of x] by auto
    show "follows v' old body x (?h x)" if "x \<in> set (t # ts)"
    proof (cases "x = t")
      case True
      have "g (f t) = f t" using g(3)[of "f t"] f(2)[of t] new by simp
      then show ?thesis using f(3) True by simp
    next
      case False
      then have x: "x \<in> set ts" using that by simp
      then have "th_id x \<noteq> th_id t" using new by (metis imageI)
      then show ?thesis using g(4)[OF x] by simp
    qed
  qed
qed

text \<open>C32: after an edit every open thread anchored to the old version is at its
  quote in the new text, with the quote it stores being the text there, or is
  obsolete, and then the new text holds its quote nowhere; every other thread is
  as it was.\<close>

theorem threads_follow_edit:
  assumes "distinct (map th_id (review_threads d))" "relocateThreads on v v' old body ev anchor d = Inr d'"
    and "t \<in> set (review_threads d)"
  shows "\<exists>t'\<in>set (review_threads d'). th_id t' = th_id t \<and>
     (if on t \<and> th_version t = Some v \<and> th_status t = ''open'' \<and> th_start t \<noteq> None
      then follows v' old body t t' else t' = t)"
proof -
  let ?on = "\<lambda>t. on t \<and> th_version t = Some v \<and> th_status t = ''open'' \<and> th_start t \<noteq> None"
  let ?ts = "sortStable (\<lambda>a b. cmpInt (th_id a) (th_id b)) (filter ?on (review_threads d))"
  have "distinct (map th_id ?ts)" using assms(1) by (simp add: distinct_map inj_on_def)
  from relocateAll_InrD[OF assms(2)[unfolded relocateThreads_def] this]
  obtain g where g: "review_threads d' = map g (review_threads d)" "\<And>x. th_id (g x) = th_id x"
    "\<And>x. th_id x \<notin> th_id ` set ?ts \<Longrightarrow> g x = x" "\<And>x. x \<in> set ?ts \<Longrightarrow> follows v' old body x (g x)"
    by blast
  have "g t \<in> set (review_threads d')" unfolding g(1) set_map by (rule imageI[OF assms(3)])
  moreover have "g t = t" if "\<not> ?on t"
  proof (rule g(3), rule notI)
    assume "th_id t \<in> th_id ` set ?ts"
    then obtain x where "x \<in> set (review_threads d)" "?on x" "th_id x = th_id t" by auto
    then have "x = t" using distinct_map_inj[OF assms(1)] assms(3) by blast
    then show False using \<open>?on x\<close> that by blast
  qed
  moreover have "follows v' old body t (g t)" if "?on t" using g(4)[of t] that assms(3) by simp
  ultimately show ?thesis using g(2)[of t] by (intro bexI[of _ "g t"]) simp_all
qed

definition rangeThread :: review_thread where
  "rangeThread = (blankThread 0 (onLine ''note'') ''bob'' [] [])\<lparr>th_id := 1, th_doc := Some 7, th_version := Some 1,
     th_start := Some 0, th_end := Some 3, th_quote := Some ''a b''\<rparr>"

definition editedDb :: db where
  "editedDb = reviewDb\<lparr>review_threads := [rangeThread], next_thread_id := 2\<rparr>"

theorem threads_follow_edit_witness:
  "follows 2 ''a b'' ''xx a   b'' rangeThread (hd (review_threads
     (projr (relocateThreads (\<lambda>t. th_doc t = Some 7) 1 2 ''a b'' ''xx a   b'' 1 None editedDb))))"
proof -
  let ?r = "relocateThreads (\<lambda>t. th_doc t = Some 7) 1 2 ''a b'' ''xx a   b'' 1 None editedDb"
  have run: "\<not> isl ?r" "length (review_threads (projr ?r)) = 1" by code_simp+
  have t: "distinct (map th_id (review_threads editedDb))" "rangeThread \<in> set (review_threads editedDb)"
    "th_doc rangeThread = Some 7 \<and> th_version rangeThread = Some 1 \<and> th_status rangeThread = ''open'' \<and>
     th_start rangeThread \<noteq> None"
    by (simp_all add: editedDb_def) (simp add: rangeThread_def blankThread_def)
  obtain t' where "t' \<in> set (review_threads (projr ?r))" "follows 2 ''a b'' ''xx a   b'' rangeThread t'"
    using threads_follow_edit[OF t(1) succeeded[OF run(1)] t(2)] t(3) by auto
  moreover have "review_threads (projr ?r) = [hd (review_threads (projr ?r))]"
    using run(2) by (cases "review_threads (projr ?r)") auto
  ultimately show ?thesis by (metis empty_iff empty_set set_ConsD)
qed

section \<open>What the rules let through\<close>

text \<open>The roster and lock of the only review, read off a run.\<close>

definition ownDb :: db where
  "ownDb = reviewDb\<lparr>task_reviewers := [], actor_kinds := [(''ada'', ''human'')],
     tasks := [(sampleTask ''WL-1'' ''chore'' ''in_review'')\<lparr>t_assignee := Some ''ada'', t_created_by := Some ''ada''\<rparr>]\<rparr>"

lemma own_roster_refuses:
  assumes "row (\<lambda>r. rv_id r = i) (reviews d) = Some r" "rv_task r = Some tid" "tid \<noteq> []"
    and "\<exists>t\<in>set (tasks d). t_id t = tid \<and>
      (\<forall>a\<in>set (reviewRoster d r). t_assignee t = Some a \<or>
         (\<exists>l\<in>set (leases d). l_task l = tid \<and> active l \<and> l_actor l = a))"
  shows "isl (SubmitReviewerRound rd now i inp a ev d)"
proof (rule ccontr)
  assume "\<not> isl (SubmitReviewerRound rd now i inp a ev d)"
  then obtain v d' where s: "SubmitReviewerRound rd now i inp a ev d = Inr (v, d')"
    by (cases "SubmitReviewerRound rd now i inp a ev d") auto
  then obtain q where q: "lockReview d i = Inr q" "a \<in> set (reviewRoster d q)"
    "orText (rv_task q) \<noteq> [] \<Longrightarrow> checkNotSelfApproval d (orText (rv_task q)) a = Inr ()"
    by (rule SubmitReviewerRound_InrE) blast
  have "q = r" using q(1) assms(1) by (simp add: lockReview_def split: if_splits)
  then have "\<not> (\<exists>t\<in>set (tasks d). t_id t = tid \<and> (t_assignee t = Some a \<or>
      (\<exists>l\<in>set (leases d). l_task l = tid \<and> active l \<and> l_actor l = a)))"
    using q(3) assms(2,3) unfolding checkNotSelfApproval_def guard_Inr_iff by (simp add: orText_def)
  then show False using q(2) \<open>q = r\<close> assms(4) by blast
qed

text \<open>C36: a review nobody can pass. While everyone on the roster of a task's
  review is assigned to the task or holds its lease, every reviewer's round on it
  is refused, whoever submits it and whatever it says. Opening a review with no
  reviewers named makes such a roster when the task's creator is a human who works
  on it herself.\<close>

theorem own_roster_wedges_review:
  assumes "row (\<lambda>r. rv_id r = i) (reviews d) = Some r" "rv_task r = Some tid" "tid \<noteq> []"
    and "\<exists>t\<in>set (tasks d). t_id t = tid \<and>
      (\<forall>a\<in>set (reviewRoster d r). t_assignee t = Some a \<or>
         (\<exists>l\<in>set (leases d). l_task l = tid \<and> active l \<and> l_actor l = a))"
  shows "isl (SubmitReviewerRound rd now i inp a ev d)"
  using assms by (rule own_roster_refuses)

theorem own_roster_wedges_review_witness:
  "\<exists>v d. OpenReview (\<lambda>x. x) (\<lambda>_. 0) 0 openIn ''ada'' 1 ownDb = Inr (v, d) \<and> vw_reviewers v = [''ada''] \<and>
     isl (SubmitReviewerRound plainRenderer 0 1 (roundIn ''approved'' [] []) ''ada'' 2 d)"
proof -
  let ?r = "OpenReview (\<lambda>x. x) (\<lambda>_. 0) 0 openIn ''ada'' 1 ownDb"
  define d where "d = snd (projr ?r)"
  have run: "\<not> isl ?r" "vw_reviewers (fst (projr ?r)) = [''ada'']" by code_simp+
  have only: "map_option (\<lambda>r. (reviewRoster d r, rv_task r)) (row (\<lambda>r. rv_id r = 1) (reviews d)) =
      Some ([''ada''], Some ''WL-1'')" unfolding d_def by code_simp
  have own: "\<exists>t\<in>set (tasks d). t_id t = ''WL-1'' \<and> t_assignee t = Some ''ada''" unfolding d_def by code_simp
  from only obtain r where r: "row (\<lambda>r. rv_id r = 1) (reviews d) = Some r" "reviewRoster d r = [''ada'']"
    "rv_task r = Some ''WL-1''" by auto
  have "\<exists>t\<in>set (tasks d). t_id t = ''WL-1'' \<and>
      (\<forall>a\<in>set (reviewRoster d r). t_assignee t = Some a \<or>
         (\<exists>l\<in>set (leases d). l_task l = ''WL-1'' \<and> active l \<and> l_actor l = a))"
    using own unfolding r(2) by auto
  from own_roster_wedges_review[OF r(1,3) _ this] have
    "isl (SubmitReviewerRound plainRenderer 0 1 (roundIn ''approved'' [] []) ''ada'' 2 d)" by simp
  moreover have "?r = Inr (fst (projr ?r), d)" using run(1) by (simp add: d_def)
  ultimately show ?thesis using run(2) by blast
qed

text \<open>Verdicts belong to a base, not to a round: bob approves, ada moves the
  change to another commit and back, and with cyd's approval alone the review is
  approved, though bob has not looked again since ada's rounds.\<close>

theorem earlier_verdict_returns:
  "let shaA = replicate 40 (CHR ''a''); shaB = replicate 40 (CHR ''b'');
       d1 = snd (projr (SubmitReviewerRound plainRenderer 0 1 (roundIn ''approved'' [] []) ''bob'' 1 openedDb));
       d2 = snd (projr (SubmitAuthorRound 0 1 (roundIn [] shaB []) ''ada'' 2 d1));
       d3 = snd (projr (SubmitAuthorRound 0 1 (roundIn [] shaA []) ''ada'' 3 d2));
       r = SubmitReviewerRound plainRenderer 0 1 (roundIn ''approved'' [] []) ''cyd'' 4 d3
   in map rv_state (reviews d3) = [''open''] \<and> \<not> isl r \<and> map rv_state (reviews (snd (projr r))) = [''approved''] \<and>
      map (\<lambda>x. (rr_round x, rr_actor x)) (review_rounds (snd (projr r))) = [(1, ''bob''), (4, ''cyd'')]"
  by code_simp

end
