(* ===== verification/Rollouts.thy ===== *)
theory Rollouts
  imports Correlate Intake
begin

text \<open>
  What is built, where it runs and what was observed there, and the inbox of
  issues (internal/store/artifacts.go, runtime.go and inbox.go). An id taken from
  a sequence is taken also when the insert turns into an update. JSON of a string
  list is the list.
\<close>

section \<open>Artifacts\<close>

definition artifactKinds :: "string list" where
  "artifactKinds = [''docker_image'', ''pypi'', ''git_tag'', ''binary'']"

definition artifactKey :: "artifact \<Rightarrow> artifact \<Rightarrow> bool" where
  "artifactKey a b \<longleftrightarrow> af_kind b = af_kind a \<and> af_name b = af_name a \<and> af_version b = af_version a"

definition refreshArtifact :: "artifact \<Rightarrow> artifact \<Rightarrow> artifact" where
  "refreshArtifact new old =
     old\<lparr>af_digest := af_digest new, af_repo := af_repo new, af_source_sha := af_source_sha new,
         af_built_at := af_built_at new\<rparr>"

definition CreateArtifact :: "artifact \<Rightarrow> db \<Rightarrow> err + int \<times> db" where
  "CreateArtifact a d =
     (if af_kind a \<notin> set artifactKinds then Inl (DBError ''artifacts_kind_check'')
      else
        let i = next_artifact_id d; d1 = d\<lparr>next_artifact_id := i + 1\<rparr> in
        case row (artifactKey a) (artifacts d) of
          None \<Rightarrow> Inr (i, d1\<lparr>artifacts := artifacts d @ [a\<lparr>af_id := i\<rparr>]\<rparr>)
        | Some old \<Rightarrow>
            if notOlder (af_built_at a) (af_built_at old)
            then Inr (af_id old, d1\<lparr>artifacts := updWhere (artifactKey a) (refreshArtifact a) (artifacts d)\<rparr>)
            else Inr (af_id old, d1))"

definition artifactsByID :: "artifact list \<Rightarrow> artifact list" where
  "artifactsByID = sortStable (\<lambda>a b. cmpInt (af_id a) (af_id b))"

definition AllArtifactsByID :: "db \<Rightarrow> int \<Rightarrow> artifact option" where
  "AllArtifactsByID d i = row (\<lambda>a. af_id a = i) (artifacts d)"

definition ArtifactsBySourceSHA :: "db \<Rightarrow> string \<Rightarrow> artifact list" where
  "ArtifactsBySourceSHA d sha = artifactsByID (filter (\<lambda>a. af_source_sha a = sha) (artifacts d))"

definition ArtifactsBySourceSHAs :: "db \<Rightarrow> string list \<Rightarrow> string \<Rightarrow> artifact list option" where
  "ArtifactsBySourceSHAs d shas =
     groupFor af_source_sha
       (sortStable (\<lambda>a b. cmpOr [strCompare (af_source_sha a) (af_source_sha b), cmpInt (af_id a) (af_id b)])
         (filter (\<lambda>a. af_source_sha a \<in> set shas) (artifacts d)))"

definition newestArtifact :: "(artifact \<Rightarrow> bool) \<Rightarrow> db \<Rightarrow> artifact option" where
  "newestArtifact p d =
     (case sortStable (\<lambda>a b. cmpInt (af_id b) (af_id a)) (filter p (artifacts d)) of
        [] \<Rightarrow> None | a # _ \<Rightarrow> Some a)"

definition ArtifactIDBySourceSHA :: "db \<Rightarrow> string \<Rightarrow> int option" where
  "ArtifactIDBySourceSHA d sha = map_option af_id (newestArtifact (\<lambda>a. af_source_sha a = sha) d)"

definition ArtifactByDigest :: "db \<Rightarrow> string \<Rightarrow> artifact option" where
  "ArtifactByDigest d digest = newestArtifact (\<lambda>a. af_digest a = Some digest) d"

text \<open>Cutting at the last occurrence of a character; None when there is none.\<close>

definition cutLast :: "char \<Rightarrow> string \<Rightarrow> (string \<times> string) option" where
  "cutLast c s =
     (if c \<notin> set s then None
      else Some (rev (tl (dropWhile (\<lambda>x. x \<noteq> c) (rev s))), rev (takeWhile (\<lambda>x. x \<noteq> c) (rev s))))"

definition splitImage :: "string \<Rightarrow> (string \<times> string) option" where
  "splitImage img =
     (let (prefix, tail) =
        (case cutLast (CHR ''/'') img of None \<Rightarrow> ([], img) | Some (p, t) \<Rightarrow> (p @ ''/'', t))
      in case cutLast (CHR '':'') tail of
           None \<Rightarrow> None
         | Some (n, tag) \<Rightarrow> Some (prefix @ n, tag))"

definition FindArtifactByImage :: "db \<Rightarrow> string \<Rightarrow> err + artifact" where
  "FindArtifactByImage d img =
     (case splitImage img of
        None \<Rightarrow> Inl ErrNotFound
      | Some (name, tag) \<Rightarrow>
          (case row (\<lambda>a. af_kind a = ''docker_image'' \<and> af_name a = name \<and> af_version a = tag) (artifacts d) of
             None \<Rightarrow> Inl ErrNotFound | Some a \<Rightarrow> Inr a))"

section \<open>Deployments\<close>

definition deploymentStatuses :: "string list" where
  "deploymentStatuses = [''pending'', ''reconciling'', ''deployed'', ''failed'']"

definition targetKinds :: "string list" where
  "targetKinds = [''flux_kustomization'', ''pypi'', ''manual'']"

definition deployKey :: "string \<Rightarrow> string \<Rightarrow> string \<Rightarrow> deployment \<Rightarrow> bool" where
  "deployKey env kind name p \<longleftrightarrow>
     dp_environment p = env \<and> dp_target_kind p = kind \<and> dp_target_name p = name"

definition artifactKnown :: "int option \<Rightarrow> db \<Rightarrow> bool" where
  "artifactKnown i d \<longleftrightarrow> (case i of None \<Rightarrow> True | Some x \<Rightarrow> \<exists>a\<in>set (artifacts d). af_id a = x)"

definition UpsertDeployment :: "int \<Rightarrow> deployment \<Rightarrow> db \<Rightarrow> err + db" where
  "UpsertDeployment now p d =
     (let key = deployKey (dp_environment p) (dp_target_kind p) (dp_target_name p) in
      if dp_status p \<notin> set deploymentStatuses then Inl (DBError ''deployments_status_check'')
      else if dp_target_kind p \<notin> set targetKinds then Inl (DBError ''deployments_target_kind_check'')
      else if \<not> artifactKnown (dp_artifact p) d then Inl (DBError ''deployments_artifact_id_fkey'')
      else case row key (deployments d) of
        None \<Rightarrow> Inr (d\<lparr>deployments := deployments d @ [p\<lparr>dp_first_seen := now, dp_last_update := now\<rparr>]\<rparr>)
      | Some _ \<Rightarrow>
          Inr (d\<lparr>deployments := updWhere key
            (\<lambda>q. q\<lparr>dp_status := dp_status p,
                   dp_artifact := (if dp_artifact p \<noteq> None then dp_artifact p else dp_artifact q),
                   dp_last_update := now\<rparr>) (deployments d)\<rparr>))"

definition DeploymentStatus :: "db \<Rightarrow> string \<Rightarrow> string \<Rightarrow> string \<Rightarrow> string" where
  "DeploymentStatus d env kind name =
     (case row (deployKey env kind name) (deployments d) of None \<Rightarrow> [] | Some p \<Rightarrow> dp_status p)"

text \<open>The table is in the order of its ids.\<close>

definition DeploymentsForArtifact :: "db \<Rightarrow> int \<Rightarrow> deployment list" where
  "DeploymentsForArtifact d i =
     sortStable (\<lambda>a b. cmpInt (dp_last_update a) (dp_last_update b))
       (filter (\<lambda>p. dp_artifact p = Some i) (deployments d))"

definition DeploymentsForArtifacts :: "db \<Rightarrow> int list \<Rightarrow> int \<Rightarrow> deployment list option" where
  "DeploymentsForArtifacts d ids =
     groupFor (\<lambda>p. the (dp_artifact p))
       (sortStable (\<lambda>a b. cmpOr [cmpInt (the (dp_artifact a)) (the (dp_artifact b)),
              cmpInt (dp_last_update a) (dp_last_update b)])
         (filter (\<lambda>p. dp_artifact p \<in> Some ` set ids) (deployments d)))"

definition ListDeployments :: "db \<Rightarrow> string \<Rightarrow> deployment list" where
  "ListDeployments d environment =
     sortStable (\<lambda>a b. cmpOr [strCompare (dp_environment a) (dp_environment b),
         strCompare (dp_target_kind a) (dp_target_kind b), strCompare (dp_target_name a) (dp_target_name b)])
       (filter (\<lambda>p. environment = [] \<or> dp_environment p = environment) (deployments d))"

section \<open>Runtime events\<close>

definition runtimeKinds :: "string list" where
  "runtimeKinds = [''crashloop'', ''oom'', ''flux_failure'', ''flux_recovery'']"

definition InsertRuntimeEvent :: "runtime_event \<Rightarrow> db \<Rightarrow> err + int \<times> db" where
  "InsertRuntimeEvent re d =
     (let artifactID =
        (if re_artifact re = None \<and> re_image re \<noteq> []
         then (case FindArtifactByImage d (re_image re) of Inl _ \<Rightarrow> None | Inr a \<Rightarrow> Some (af_id a))
         else re_artifact re)
      in if re_kind re \<notin> set runtimeKinds then Inl (DBError ''runtime_events_kind_check'')
         else if \<not> artifactKnown artifactID d then Inl (DBError ''runtime_events_artifact_id_fkey'')
         else Inr (next_runtime_id d,
                d\<lparr>runtime_events := runtime_events d @ [re\<lparr>re_id := next_runtime_id d, re_artifact := artifactID\<rparr>],
                  next_runtime_id := next_runtime_id d + 1\<rparr>))"

definition RuntimeEventsForArtifact :: "db \<Rightarrow> int \<Rightarrow> runtime_event list" where
  "RuntimeEventsForArtifact d i =
     sortStable (\<lambda>a b. cmpOr [cmpInt (re_occurred_at a) (re_occurred_at b), cmpInt (re_id a) (re_id b)])
       (filter (\<lambda>e. re_artifact e = Some i) (runtime_events d))"

definition RuntimeEventsForArtifacts :: "db \<Rightarrow> int list \<Rightarrow> int \<Rightarrow> runtime_event list option" where
  "RuntimeEventsForArtifacts d ids =
     groupFor (\<lambda>e. the (re_artifact e))
       (sortStable (\<lambda>a b. cmpOr [cmpInt (the (re_artifact a)) (the (re_artifact b)),
              cmpInt (re_occurred_at a) (re_occurred_at b), cmpInt (re_id a) (re_id b)])
         (filter (\<lambda>e. re_artifact e \<in> Some ` set ids) (runtime_events d)))"

definition ListRuntimeEvents :: "db \<Rightarrow> string \<Rightarrow> int \<Rightarrow> runtime_event list" where
  "ListRuntimeEvents d cluster limit =
     take (nat (if limit \<le> 0 then 50 else limit))
       (sortStable (\<lambda>a b. cmpOr [cmpInt (re_occurred_at b) (re_occurred_at a), cmpInt (re_id b) (re_id a)])
         (filter (\<lambda>e. cluster = [] \<or> re_cluster e = cluster) (runtime_events d)))"

section \<open>The inbox\<close>

definition issueKey :: "string \<Rightarrow> int \<Rightarrow> github_issue \<Rightarrow> bool" where
  "issueKey repo number g \<longleftrightarrow> gi_repo g = repo \<and> gi_number g = number"

definition UpsertIssue :: "github_issue \<Rightarrow> db \<Rightarrow> err + db" where
  "UpsertIssue is d =
     (let key = issueKey (gi_repo is) (gi_number is) in
      if \<not> int4 (Some (gi_number is)) then Inl (DBError ''integer out of range'')
      else case row key (github_issues d) of
        None \<Rightarrow>
          Inr (d\<lparr>github_issues := github_issues d @
            [is\<lparr>gi_triage_state := ''new'', gi_task := None, gi_applies_to_versions := None\<rparr>]\<rparr>)
      | Some old \<Rightarrow>
          if notOlder (gi_updated_at is) (gi_updated_at old)
          then Inr (d\<lparr>github_issues := updWhere key
                 (\<lambda>g. g\<lparr>gi_title := gi_title is, gi_state := gi_state is, gi_url := gi_url is,
                        gi_updated_at := gi_updated_at is\<rparr>) (github_issues d)\<rparr>)
          else Inr d)"

definition ExistingIssueNumbers :: "db \<Rightarrow> string \<Rightarrow> int list" where
  "ExistingIssueNumbers d repo = map gi_number (filter (\<lambda>g. gi_repo g = repo) (github_issues d))"

definition requireNewIssue :: "db \<Rightarrow> string \<Rightarrow> int \<Rightarrow> err + unit" where
  "requireNewIssue d repo number =
     (case row (issueKey repo number) (github_issues d) of
        None \<Rightarrow> Inl ErrNotFound
      | Some g \<Rightarrow> if gi_triage_state g \<noteq> ''new'' then Inl ErrBadTransition else Inr ())"

text \<open>The guarded update with requireTriaged: no row still new is an error.\<close>

definition triage :: "string \<Rightarrow> int \<Rightarrow> (github_issue \<Rightarrow> github_issue) \<Rightarrow> db \<Rightarrow> err + db" where
  "triage repo number f d =
     (let p = (\<lambda>g. issueKey repo number g \<and> gi_triage_state g = ''new'') in
      if \<exists>g\<in>set (github_issues d). p g then Inr (d\<lparr>github_issues := updWhere p f (github_issues d)\<rparr>)
      else Inl ErrBadTransition)"

definition PromoteIssue ::
  "(string \<Rightarrow> string) \<Rightarrow> (string \<Rightarrow> nat) \<Rightarrow> int \<Rightarrow> string \<Rightarrow> int \<Rightarrow> task_input \<Rightarrow> string list \<Rightarrow> int \<Rightarrow> db \<Rightarrow>
     err + task \<times> db" where
  "PromoteIssue nb alts now repo number inp appliesToVersions eventID d =
     andThen (requireNewIssue d repo number) (\<lambda>_.
     andThen (CreateTask nb alts now inp eventID d) (\<lambda>(t, d1).
     andThen (triage repo number (\<lambda>g. g\<lparr>gi_triage_state := ''promoted'', gi_task := Some (t_id t),
         gi_applies_to_versions := Some appliesToVersions\<rparr>) d1) (\<lambda>d2. Inr (t, d2))))"

definition LinkIssue :: "string \<Rightarrow> int \<Rightarrow> string \<Rightarrow> db \<Rightarrow> err + db" where
  "LinkIssue repo number taskID d =
     andThen (requireNewIssue d repo number) (\<lambda>_.
     if \<not> taskExists d taskID then Inl ErrNotFound
     else triage repo number (\<lambda>g. g\<lparr>gi_triage_state := ''promoted'', gi_task := Some taskID\<rparr>) d)"

definition DismissIssue :: "string \<Rightarrow> int \<Rightarrow> db \<Rightarrow> err + db" where
  "DismissIssue repo number d =
     andThen (requireNewIssue d repo number) (\<lambda>_.
     triage repo number (\<lambda>g. g\<lparr>gi_triage_state := ''dismissed''\<rparr>) d)"

definition IssueTitle :: "db \<Rightarrow> string \<Rightarrow> int \<Rightarrow> err + string" where
  "IssueTitle d repo number =
     (case row (issueKey repo number) (github_issues d) of None \<Rightarrow> Inl ErrNotFound | Some g \<Rightarrow> Inr (gi_title g))"

definition ListIssues :: "db \<Rightarrow> string \<Rightarrow> string \<Rightarrow> github_issue list" where
  "ListIssues d triageState projectID =
     sortStable (\<lambda>a b. cmpOr [strCompare (gi_repo a) (gi_repo b), cmpInt (gi_number a) (gi_number b)])
       (filter (\<lambda>g.
          (projectID = [] \<or> (\<exists>p\<in>set (project_repos d). pr_repo p = gi_repo g \<and> pr_project p = projectID)) \<and>
          (triageState = [] \<or> gi_triage_state g = triageState)) (github_issues d))"

definition CountIssues :: "db \<Rightarrow> string \<Rightarrow> nat" where
  "CountIssues d triageState =
     length (filter (\<lambda>g. triageState = [] \<or> gi_triage_state g = triageState) (github_issues d))"

end
