(* ===== verification/Hooks.thy ===== *)
theory Hooks
  imports Rollouts Approvals
begin

text \<open>
  What a GitHub or Flux delivery does to the database (internal/hooks: push.go,
  deployment.go, github.go, apply.go and flux.go). A payload comes decoded:
  each part of the record is what unmarshalling the body into the struct of that
  name gives, None when it fails. Zero times are None. Logging and metrics are
  left out; the store's clock is the argument \<open>now\<close>.
\<close>

section \<open>Payloads\<close>

record envelope =
  en_ref :: string
  en_action :: string
  en_repo :: string
  en_default_branch :: string

record issue_payload =
  ip_number :: int
  ip_title :: string
  ip_state :: string
  ip_url :: string
  ip_updated_at :: "int option"

record push_commit =
  pc_id :: string
  pc_message :: string

record push_payload =
  pu_ref :: string
  pu_before :: string
  pu_after :: string
  pu_commits :: "push_commit list"

record pr_payload =
  pp_number :: int
  pp_title :: string
  pp_state :: string
  pp_merged :: bool
  pp_body :: string
  pp_url :: string
  pp_created_at :: "int option"
  pp_updated_at :: "int option"
  pp_merged_at :: "int option"
  pp_merge_sha :: "string option"
  pp_head_ref :: string
  pp_head_sha :: string
  pp_user :: string
  pp_reviewers :: "string list"
  pp_requested :: string

record deployment_payload =
  dy_state :: string
  dy_environment :: string
  dy_sha :: string

record review_payload =
  vp_number :: int
  vp_login :: string
  vp_state :: string
  vp_submitted_at :: "int option"

record run_payload =
  wr_name :: string
  wr_head_sha :: string
  wr_head_branch :: string
  wr_prs :: "int list"
  wr_status :: string
  wr_conclusion :: "string option"
  wr_url :: string
  wr_started_at :: "int option"
  wr_updated_at :: "int option"

record check_payload =
  ck_head_sha :: string
  ck_head_branch :: string
  ck_prs :: "int list"
  ck_suite_branch :: string

record release_payload =
  rl_tag :: string
  rl_commitish :: string
  rl_published_at :: "int option"

record package_payload =
  pk_name :: string
  pk_type :: string
  pk_version :: string
  pk_commitish :: string
  pk_created_at :: "int option"
  pk_url :: string
  pk_tag :: string
  pk_digest :: string

text \<open>A body, unmarshalled into each struct the handlers use; the check payload
  holds the check_run and the check_suite object.\<close>

record gh_body =
  gb_env :: "envelope option"
  gb_issue :: "issue_payload option"
  gb_push :: "push_payload option"
  gb_pr :: "pr_payload option"
  gb_deployment :: "deployment_payload option"
  gb_review :: "review_payload option"
  gb_run :: "run_payload option"
  gb_check :: "(check_payload \<times> check_payload) option"
  gb_release :: "release_payload option"
  gb_package :: "package_payload option"
  gb_merge_group :: "string option"

definition decoded :: "string \<Rightarrow> 'p option \<Rightarrow> ('p \<Rightarrow> err + 'a) \<Rightarrow> err + 'a" where
  "decoded what p f = (case p of None \<Rightarrow> Inl (ParseError what) | Some x \<Rightarrow> f x)"

section \<open>Pushes\<close>

definition zeroSHA :: string where
  "zeroSHA = replicate 40 (CHR ''0'')"

definition truncated :: "push_payload \<Rightarrow> bool" where
  "truncated p \<longleftrightarrow> \<not> (pu_after p = [] \<or> pu_after p = zeroSHA \<or> pu_commits p = []) \<and>
     (\<forall>c\<in>set (pu_commits p). pc_id c \<noteq> pu_after p)"

text \<open>The two merge-message patterns, each answering its captured branch.\<close>

definition mergeBranchPattern :: "string \<Rightarrow> string option" where
  "mergeBranchPattern msg =
     (case dropPrefix (''Merge branch '' @ [CHR 0x27]) msg of
        None \<Rightarrow> None
      | Some r \<Rightarrow>
          let b = takeWhile (\<lambda>c. c \<noteq> CHR 0x27) r in
          if b \<noteq> [] \<and> b \<noteq> r then Some b else None)"

definition mergePullPattern :: "string \<Rightarrow> string option" where
  "mergePullPattern msg =
     (case dropPrefix ''Merge pull request #'' msg of
        None \<Rightarrow> None
      | Some r \<Rightarrow>
          if takeWhile isDigit r = [] then None
          else case dropPrefix '' from '' (dropWhile isDigit r) of
            None \<Rightarrow> None
          | Some r2 \<Rightarrow>
              let owner = takeWhile (\<lambda>c. c \<noteq> CHR ''/'' \<and> \<not> regexSpace c) r2;
                  rest = dropWhile (\<lambda>c. c \<noteq> CHR ''/'' \<and> \<not> regexSpace c) r2;
                  b = takeWhile (\<lambda>c. \<not> regexSpace c) (tl rest)
              in if owner \<noteq> [] \<and> rest \<noteq> [] \<and> hd rest = CHR ''/'' \<and> b \<noteq> [] then Some b else None)"

definition mergeMessagePatterns :: "(string \<Rightarrow> string option) list" where
  "mergeMessagePatterns = [mergeBranchPattern, mergePullPattern]"

text \<open>The main-sha trailer at the start of some line, in either case (the long s
  folds to s); the hash may follow on a later line.\<close>

function lineSuffixes :: "string \<Rightarrow> string list" where
  "lineSuffixes s =
     s # (let r = dropWhile (\<lambda>c. c \<noteq> CHR 0x0A) s in if r = [] then [] else lineSuffixes (tl r))"
  by pat_completeness auto
termination
proof (relation "measure length")
  fix s x assume x: "x = dropWhile (\<lambda>c. c \<noteq> CHR 0x0A) s" "x \<noteq> []"
  have "length x \<le> length s" using x by (simp add: length_dropWhile_le)
  with x(2) show "(tl x, s) \<in> measure length" by (cases x) auto
qed simp

declare lineSuffixes.simps [simp del]

definition hexDigit :: "char \<Rightarrow> bool" where
  "hexDigit c \<longleftrightarrow> isDigit c \<or> (97 \<le> (of_char c :: nat) \<and> (of_char c :: nat) \<le> 102)"

definition asciiLower :: "char \<Rightarrow> char" where
  "asciiLower c = (if isUpper c then char_of ((of_char c :: nat) + 32) else c)"

fun dropPrefixFold :: "string \<Rightarrow> string \<Rightarrow> string option" where
  "dropPrefixFold [] s = Some s"
| "dropPrefixFold (p # ps) s =
     (case s of
        [] \<Rightarrow> None
      | c # cs \<Rightarrow>
          if asciiLower c = p then dropPrefixFold ps cs
          else if p = CHR ''s'' \<and> c = CHR 0xC5 \<and> cs \<noteq> [] \<and> hd cs = CHR 0xBF
          then dropPrefixFold ps (tl cs) else None)"

definition mainSHAHere :: "string \<Rightarrow> string option" where
  "mainSHAHere s =
     (case dropPrefixFold ''main-sha:'' s of
        None \<Rightarrow> None
      | Some r \<Rightarrow>
          let h = take 40 (takeWhile (\<lambda>c. hexDigit (asciiLower c)) (dropWhile regexSpace r)) in
          if length h < 7 then None else Some h)"

definition mainSHATrailer :: "string \<Rightarrow> string option" where
  "mainSHATrailer msg = firstSome mainSHAHere (lineSuffixes msg)"

definition taskIDsFromMessage :: "branch_config \<Rightarrow> string \<Rightarrow> string list \<times> string" where
  "taskIDsFromMessage cfg msg =
     (let ids = concat (map (\<lambda>pat. case pat msg of
                   None \<Rightarrow> [] | Some b \<Rightarrow> (let i = TaskIDFromRef cfg b in if i = [] then [] else [i]))
                 mergeMessagePatterns);
          trailers = TaskIDsFromBody msg
      in if trailers \<noteq> [] then (ids @ trailers, ''marker'') else (ids, ''merge_message''))"

definition attribute ::
  "int \<Rightarrow> string \<Rightarrow> string \<Rightarrow> string \<Rightarrow> string \<Rightarrow> db \<Rightarrow> err + db" where
  "attribute now repo sha source tid d =
     InsertTaskCommit \<lparr>tc_task = tid, tc_repo = repo, tc_sha = sha, tc_source = source, tc_seen_at = now\<rparr> d"

definition mainCommit ::
  "branch_config \<Rightarrow> int \<Rightarrow> string \<Rightarrow> push_commit \<Rightarrow> string list \<times> db \<Rightarrow> err + string list \<times> db" where
  "mainCommit cfg now repo c = (\<lambda>(affected, d).
     let d1 = snd (AppendMainCommit repo (pc_id c) now d); (ids, source) = taskIDsFromMessage cfg (pc_message c) in
     andThen (foldE (attribute now repo (pc_id c) source) ids d1) (\<lambda>d2.
     Inr (affected @ ids @ TaskIDsForSHA d2 repo (pc_id c), d2)))"

definition applyMainPush ::
  "branch_config \<Rightarrow> int \<Rightarrow> int \<Rightarrow> string \<Rightarrow> push_payload \<Rightarrow> db \<Rightarrow> err + db" where
  "applyMainPush cfg now eventID repo p d =
     andThen (foldE (mainCommit cfg now repo) (pu_commits p) ([], d)) (\<lambda>(affected, d1).
     resolveAll now repo (sortStable strCompare (remdups affected)) eventID d1)"

definition mapDeployed :: "string \<Rightarrow> push_commit \<Rightarrow> db \<Rightarrow> err + db" where
  "mapDeployed repo c d =
     (case mainSHATrailer (pc_message c) of
        None \<Rightarrow> Inr d
      | Some m \<Rightarrow>
          (case MainIDForSHA d repo m of None \<Rightarrow> Inr d | Some mainID \<Rightarrow> MapDeploySHA repo (pc_id c) mainID d))"

definition applyPush ::
  "branch_config \<Rightarrow> int \<Rightarrow> int \<Rightarrow> string \<Rightarrow> string \<Rightarrow> gh_body \<Rightarrow> db \<Rightarrow> err + db" where
  "applyPush cfg now eventID repo defaultBranch body d =
     decoded ''parse push payload'' (gb_push body) (\<lambda>p.
     case dropPrefix ''refs/heads/'' (pu_ref p) of
       None \<Rightarrow> Inr d
     | Some branch \<Rightarrow>
         let tid = TaskIDFromRef cfg branch in
         if tid \<noteq> []
         then foldE (\<lambda>c. attribute now repo (pc_id c) ''branch_push'' tid) (pu_commits p) d
         else if defaultBranch \<noteq> [] \<and> branch = defaultBranch
         then applyMainPush cfg now eventID repo p d
         else case dropPrefix ''last-deploy/'' branch of
                None \<Rightarrow> Inr d
              | Some env \<Rightarrow>
                  if NormalizeEnvironment env = [] then Inr d
                  else foldE (mapDeployed repo) (pu_commits p) d)"

section \<open>Deployments\<close>

definition resolveTasksBelow :: "int \<Rightarrow> string \<Rightarrow> int \<Rightarrow> int \<Rightarrow> db \<Rightarrow> err + db" where
  "resolveTasksBelow now repo frontier eventID d =
     resolveAll now repo (TasksBelowFrontier d repo frontier) eventID d"

definition resolveFrontier :: "int \<Rightarrow> string \<Rightarrow> string \<Rightarrow> int \<Rightarrow> db \<Rightarrow> err + db" where
  "resolveFrontier now repo env eventID d =
     (case ConfirmedFrontier d repo env of
        None \<Rightarrow> Inr d | Some f \<Rightarrow> resolveTasksBelow now repo f eventID d)"

definition applyDeploymentStatus :: "int \<Rightarrow> int \<Rightarrow> string \<Rightarrow> gh_body \<Rightarrow> db \<Rightarrow> err + db" where
  "applyDeploymentStatus now eventID repo body d =
     decoded ''parse deployment_status payload'' (gb_deployment body) (\<lambda>p.
     if dy_state p \<noteq> ''success'' then Inr d
     else
       let env = NormalizeEnvironment (dy_environment p) in
       if env = [] then Inr d
       else case MainIDForSHA d repo (dy_sha p) of
              None \<Rightarrow> Inr d
            | Some mainID \<Rightarrow>
                andThen (BumpEnvDeployGH now repo env mainID d) (resolveFrontier now repo env eventID))"

section \<open>Issues\<close>

definition applyIssue :: "string \<Rightarrow> gh_body \<Rightarrow> db \<Rightarrow> err + db" where
  "applyIssue repo body d =
     decoded ''parse issues payload'' (gb_issue body) (\<lambda>p.
     UpsertIssue \<lparr> gi_repo = repo, gi_number = ip_number p, gi_title = ip_title p, gi_state = ip_state p,
         gi_url = ip_url p, gi_triage_state = ''new'', gi_task = None, gi_applies_to_versions = None,
         gi_updated_at = ip_updated_at p \<rparr> d)"

section \<open>Pull requests\<close>

definition orNow :: "int \<Rightarrow> int option \<Rightarrow> int" where
  "orNow now t = (case t of None \<Rightarrow> now | Some x \<Rightarrow> x)"

definition prStateOf :: "pr_payload \<Rightarrow> string" where
  "prStateOf gh =
     (if pp_state gh = ''closed'' then (if pp_merged gh then ''merged'' else ''closed'') else ''open'')"

definition prRow :: "int \<Rightarrow> string \<Rightarrow> pr_payload \<Rightarrow> pull_request" where
  "prRow now repo gh =
     \<lparr> gp_repo = repo, gp_number = pp_number gh, gp_task = None, gp_state = prStateOf gh,
       gp_title = pp_title gh, gp_head_ref = pp_head_ref gh, gp_head_sha = pp_head_sha gh,
       gp_merge_sha = pp_merge_sha gh, gp_url = pp_url gh, gp_opened_at = Some (orNow now (pp_created_at gh)),
       gp_merged_at = pp_merged_at gh, gp_updated_at = pp_updated_at gh, gp_author = Some (pp_user gh),
       gp_queued_at = None \<rparr>"

text \<open>prLane: the row without a lane.\<close>

definition prLane :: string where
  "prLane = []"

fun firstKnownActor :: "db \<Rightarrow> string list \<Rightarrow> string option" where
  "firstKnownActor d [] = None"
| "firstKnownActor d (login # ls) =
     (if login = [] \<or> ActorIDForGitHubLogin d login = [] then firstKnownActor d ls
      else Some (ActorIDForGitHubLogin d login))"

definition openApproval ::
  "int \<Rightarrow> string \<Rightarrow> int \<Rightarrow> string \<Rightarrow> string list \<Rightarrow> db \<Rightarrow> err + db" where
  "openApproval now repo number headSHA logins d =
     (case OpenApprovalForLane d ''pr'' (PREntityID repo number) prLane of
        Inr _ \<Rightarrow> Inr d
      | Inl e \<Rightarrow>
          if e \<noteq> ErrNotFound then Inl e
          else andThen (InsertAwaitingApproval now ''pr'' (PREntityID repo number) headSHA prLane None
                          (firstKnownActor d logins) None d) (\<lambda>(_, d'). Inr d'))"

definition reopenApproval :: "string \<Rightarrow> int \<Rightarrow> string \<Rightarrow> db \<Rightarrow> err + db" where
  "reopenApproval repo number login d =
     (case OpenApprovalForLane d ''pr'' (PREntityID repo number) prLane of
        Inl e \<Rightarrow> if e = ErrNotFound then Inr d else Inl e
      | Inr a \<Rightarrow>
          let actorID = ActorIDForGitHubLogin d login in
          andThen (if ap_required_actor a = None \<and> login \<noteq> [] \<and> actorID \<noteq> []
                   then SetRequiredActor (ap_id a) actorID d else Inr d) (\<lambda>d1.
          if ap_state a \<noteq> ''changes_requested'' then Inr d1 else Inr (ReopenApproval (ap_id a) d1)))"

definition resolveApprovalForReview ::
  "string \<Rightarrow> int \<Rightarrow> string \<Rightarrow> string \<Rightarrow> int \<Rightarrow> db \<Rightarrow> err + db" where
  "resolveApprovalForReview repo number reviewState login at d =
     (if reviewState \<noteq> ''approved'' \<and> reviewState \<noteq> ''changes_requested'' then Inr d
      else case GetPR d repo number of
        Inl e \<Rightarrow> if e = ErrNotFound then Inr d else Inl e
      | Inr pr \<Rightarrow>
          if gp_task pr = None then Inr d
          else case OpenApprovalForLane d ''pr'' (PREntityID repo number) prLane of
            Inl e \<Rightarrow> if e = ErrNotFound then Inr d else Inl e
          | Inr a \<Rightarrow>
              Inr (ResolveApproval (ap_id a) reviewState (nullText (ActorIDForGitHubLogin d login)) at d))"

definition reviewReady :: "int \<Rightarrow> int \<Rightarrow> string \<Rightarrow> db \<Rightarrow> err + db" where
  "reviewReady now eventID tid d =
     andThen (TaskState d tid) (\<lambda>st.
     if st = ''in_progress'' then Transition now tid ''in_progress'' ''in_review'' eventID d else Inr d)"

definition mergedSHAs :: "pr_payload \<Rightarrow> string list" where
  "mergedSHAs gh =
     filter (\<lambda>s. s \<noteq> []) (pp_head_sha gh # (case pp_merge_sha gh of None \<Rightarrow> [] | Some s \<Rightarrow> [s]))"

definition applyPullRequest ::
  "branch_config \<Rightarrow> int \<Rightarrow> int \<Rightarrow> string \<Rightarrow> string \<Rightarrow> gh_body \<Rightarrow> db \<Rightarrow> err + db" where
  "applyPullRequest cfg now eventID repo action body d =
     decoded ''parse pull_request payload'' (gb_pr body) (\<lambda>gh.
     andThen (UpsertPR cfg (prRow now repo gh) (pp_body gh) d) (\<lambda>((pr, _), d1).
     let d2 = (if action = ''closed'' then SetPRQueued repo (pp_number gh) None d1 else d1) in
     case gp_task pr of
       None \<Rightarrow> Inr d2
     | Some tid \<Rightarrow>
         andThen (MergeEventPayload eventID [(''task'', JStr tid)] d2) (\<lambda>d3.
         if action = ''opened'' \<or> action = ''ready_for_review''
         then andThen (reviewReady now eventID tid d3)
                (openApproval now repo (pp_number gh) (pp_head_sha gh) (pp_reviewers gh))
         else if action = ''review_requested''
         then reopenApproval repo (pp_number gh) (pp_requested gh) d3
         else if action = ''synchronize''
         then andThen (DesignateRevision now ''pr'' (PREntityID repo (pp_number gh)) (pp_head_sha gh) d3)
                (\<lambda>(_, d4). Inr d4)
         else if action = ''closed'' \<and> pp_merged gh
         then andThen (foldE (\<lambda>sha. attribute now repo sha ''pr'' tid) (mergedSHAs gh) d3) (\<lambda>d4.
              andThen (ResolveDelivery now tid repo eventID d4) (\<lambda>(_, d5). Inr d5))
         else Inr d3)))"

text \<open>\<open>/pr-(digits)-(hex)\<close> at the end of the text; the number as ParseInt reads
  it into an int64, None when it does not fit.\<close>

definition mergeGroupHeadRef :: "string \<Rightarrow> string option" where
  "mergeGroupHeadRef ref =
     (case cutLast (CHR ''/'') ref of
        None \<Rightarrow> None
      | Some (_, t) \<Rightarrow>
          (case dropPrefix ''pr-'' t of
             None \<Rightarrow> None
           | Some r \<Rightarrow>
               let ds = takeWhile isDigit r; r2 = dropWhile isDigit r in
               if ds \<noteq> [] \<and> r2 \<noteq> [] \<and> hd r2 = CHR ''-'' \<and> tl r2 \<noteq> [] \<and> (\<forall>c\<in>set (tl r2). hexDigit c)
               then Some ds else None))"

definition parseInt64 :: "string \<Rightarrow> int option" where
  "parseInt64 ds =
     (case atoi ds of None \<Rightarrow> None | Some n \<Rightarrow> if n < 2 ^ 63 then Some n else None)"

definition applyMergeGroup ::
  "int \<Rightarrow> int \<Rightarrow> string \<Rightarrow> string \<Rightarrow> gh_body \<Rightarrow> db \<Rightarrow> err + db" where
  "applyMergeGroup now eventID repo action body d =
     decoded ''parse merge_group payload'' (gb_merge_group body) (\<lambda>ref.
     case mergeGroupHeadRef ref of
       None \<Rightarrow> Inr d
     | Some ds \<Rightarrow>
         (case parseInt64 ds of
            None \<Rightarrow> Inr d
          | Some number \<Rightarrow>
              let d1 = SetPRQueued repo number (if action = ''checks_requested'' then Some now else None) d;
                  tid = PRTaskID d1 repo number
              in if tid = [] then Inr d1 else MergeEventPayload eventID [(''task'', JStr tid)] d1))"

definition reviewStateOf :: "string \<Rightarrow> string" where
  "reviewStateOf s =
     (let st = lowerBytes s in
      if st \<in> set [''approved'', ''changes_requested'', ''commented''] then st else ''commented'')"

definition applyReview :: "int \<Rightarrow> string \<Rightarrow> gh_body \<Rightarrow> db \<Rightarrow> err + db" where
  "applyReview now repo body d =
     decoded ''parse pull_request_review payload'' (gb_review body) (\<lambda>p.
     let st = reviewStateOf (vp_state p); at = orNow now (vp_submitted_at p) in
     andThen (UpsertReview \<lparr> pv_repo = repo, pv_number = vp_number p, pv_reviewer = vp_login p,
                pv_state = st, pv_submitted_at = at \<rparr> d)
       (resolveApprovalForReview repo (vp_number p) st (vp_login p) at))"

section \<open>CI\<close>

definition namedByBranch :: "branch_config \<Rightarrow> db \<Rightarrow> string \<Rightarrow> string list \<times> int list" where
  "namedByBranch cfg d branch =
     (case mergeGroupHeadRef branch of
        Some ds \<Rightarrow> ([], case parseInt64 ds of None \<Rightarrow> [] | Some n \<Rightarrow> [n])
      | None \<Rightarrow>
          (let i = TaskIDForRef cfg d branch in (if branch \<noteq> [] \<and> i \<noteq> [] then [i] else [], [])))"

definition nameCITasks ::
  "branch_config \<Rightarrow> int \<Rightarrow> string \<Rightarrow> string \<Rightarrow> string \<Rightarrow> int list \<Rightarrow> db \<Rightarrow> err + db" where
  "nameCITasks cfg eventID repo branch sha prs d =
     (let (byBranch, queued) = namedByBranch cfg d branch;
          named = fold (\<lambda>n ts. let i = PRTaskID d repo n in if i \<noteq> [] \<and> i \<notin> set ts then ts @ [i] else ts)
                    (prs @ queued) byBranch;
          bySHA = TaskIDsForSHA d repo sha;
          ts = (if named = [] \<and> sha \<noteq> [] \<and> length bySHA = 1 then bySHA else named)
      in case ts of
           [] \<Rightarrow> Inr d
         | [t] \<Rightarrow> MergeEventPayload eventID [(''task'', JStr t)] d
         | _ \<Rightarrow> MergeEventPayload eventID [(''tasks'', JArr (map JStr (sortStable strCompare ts)))] d)"

definition applyWorkflowRun ::
  "branch_config \<Rightarrow> int \<Rightarrow> int \<Rightarrow> string \<Rightarrow> gh_body \<Rightarrow> db \<Rightarrow> err + db" where
  "applyWorkflowRun cfg now eventID repo body d =
     decoded ''parse workflow_run payload'' (gb_run body) (\<lambda>run.
     nameCITasks cfg eventID repo (wr_head_branch run) (wr_head_sha run) (wr_prs run)
       (UpsertCIRun \<lparr> ci_id = 0, ci_repo = repo, ci_head_sha = wr_head_sha run, ci_workflow = wr_name run,
          ci_status = wr_status run, ci_conclusion = wr_conclusion run, ci_url = wr_url run,
          ci_started_at = orNow now (wr_started_at run),
          ci_completed_at = (if wr_status run = ''completed'' then wr_updated_at run else None),
          ci_updated_at = wr_updated_at run \<rparr> d))"

definition applyCheck ::
  "branch_config \<Rightarrow> int \<Rightarrow> string \<Rightarrow> string \<Rightarrow> gh_body \<Rightarrow> db \<Rightarrow> err + db" where
  "applyCheck cfg eventID repo event body d =
     decoded ''parse check payload'' (gb_check body) (\<lambda>(checkRun, checkSuite).
     let c = (if event = ''check_run'' then checkRun\<lparr>ck_head_branch := ck_suite_branch checkRun\<rparr>
              else checkSuite)
     in nameCITasks cfg eventID repo (ck_head_branch c) (ck_head_sha c) (ck_prs c) d)"

section \<open>Releases and packages\<close>

definition isCommitSHA :: "string \<Rightarrow> bool" where
  "isCommitSHA s \<longleftrightarrow> length s = 40 \<and> (\<forall>c\<in>set s. hexDigit c)"

definition releaseFrontier :: "db \<Rightarrow> string \<Rightarrow> string \<Rightarrow> int option" where
  "releaseFrontier d repo commitish =
     (case MainIDForSHA d repo commitish of None \<Rightarrow> LatestMainID d repo | Some i \<Rightarrow> Some i)"

definition releaseSHA :: "db \<Rightarrow> string \<Rightarrow> string \<Rightarrow> int option \<Rightarrow> string" where
  "releaseSHA d resolved commitish frontier =
     (let s = (if resolved = [] \<and> isCommitSHA commitish then commitish else resolved) in
      if s \<noteq> [] then s else (case frontier of None \<Rightarrow> [] | Some i \<Rightarrow> MainSHAForID d i))"

definition applyRelease :: "int \<Rightarrow> int \<Rightarrow> string \<Rightarrow> gh_body \<Rightarrow> string \<Rightarrow> db \<Rightarrow> err + db" where
  "applyRelease now eventID repo body resolved d =
     decoded ''parse release payload'' (gb_release body) (\<lambda>p.
     let frontier = releaseFrontier d repo (if resolved = [] then rl_commitish p else resolved) in
     andThen (CreateArtifact \<lparr> af_id = 0, af_kind = ''git_tag'', af_name = repo, af_version = rl_tag p,
                af_digest = None, af_repo = repo,
                af_source_sha = releaseSHA d resolved (rl_commitish p) frontier,
                af_built_at = rl_published_at p \<rparr> d) (\<lambda>(_, d1).
     case frontier of
       None \<Rightarrow> Inr d1
     | Some f \<Rightarrow>
         andThen (SetReleaseFrontier repo (rl_tag p) f (orNow now (rl_published_at p)) d1)
           (resolveTasksBelow now repo f eventID)))"

text \<open>strings.EqualFold with CONTAINER or docker: only the k of the second folds
  with a rune outside ASCII.\<close>

definition containerType :: "string \<Rightarrow> bool" where
  "containerType s \<longleftrightarrow> map asciiLower s = ''container'' \<or> lowerBytes s = ''docker''"

definition packageName :: "string \<Rightarrow> package_payload \<Rightarrow> string" where
  "packageName repo p =
     (if pk_url p \<noteq> [] then pk_url p
      else ''ghcr.io/'' @ takeWhile (\<lambda>c. c \<noteq> CHR ''/'') repo @ ''/'' @ pk_name p)"

definition packageDigest :: "package_payload \<Rightarrow> string option" where
  "packageDigest p =
     (let digest = (if pk_digest p = [] then pk_version p else pk_digest p) in
      if hasPrefix digest ''sha256:'' then Some digest else None)"

definition applyRegistryPackage :: "int \<Rightarrow> string \<Rightarrow> gh_body \<Rightarrow> db \<Rightarrow> err + db" where
  "applyRegistryPackage now repo body d =
     decoded ''parse registry_package payload'' (gb_package body) (\<lambda>p.
     if \<not> containerType (pk_type p) then Inr d
     else if pk_tag p = [] then Inr d
     else andThen (CreateArtifact \<lparr> af_id = 0, af_kind = ''docker_image'', af_name = packageName repo p,
                     af_version = pk_tag p, af_digest = packageDigest p, af_repo = repo,
                     af_source_sha = pk_commitish p,
                     af_built_at = Some (orNow now (pk_created_at p)) \<rparr> d) (\<lambda>(_, d'). Inr d'))"

section \<open>The router\<close>

definition handledEvents :: "string list" where
  "handledEvents = [''issues'', ''push'', ''pull_request'', ''deployment_status'',
     ''pull_request_review'', ''workflow_run'', ''release'', ''registry_package'',
     ''merge_group'', ''repository_ruleset'', ''check_run'', ''check_suite'']"

text \<open>The apply of a mapped repo's event, None for nil.\<close>

definition applyFunc ::
  "branch_config \<Rightarrow> int \<Rightarrow> string \<Rightarrow> envelope \<Rightarrow> gh_body \<Rightarrow> string \<Rightarrow> (int \<Rightarrow> db \<Rightarrow> err + db) option" where
  "applyFunc cfg now event env body resolved =
     (let repo = en_repo env; action = en_action env in
      if event \<notin> set handledEvents then None
      else if event = ''issues'' then Some (\<lambda>_. applyIssue repo body)
      else if event = ''push'' then Some (\<lambda>i. applyPush cfg now i repo (en_default_branch env) body)
      else if event = ''pull_request'' then Some (\<lambda>i. applyPullRequest cfg now i repo action body)
      else if event = ''deployment_status'' then Some (\<lambda>i. applyDeploymentStatus now i repo body)
      else if event = ''pull_request_review''
      then (if action \<noteq> ''submitted'' then None else Some (\<lambda>_. applyReview now repo body))
      else if event = ''workflow_run'' then Some (\<lambda>i. applyWorkflowRun cfg now i repo body)
      else if event = ''check_run'' \<or> event = ''check_suite''
      then Some (\<lambda>i. applyCheck cfg i repo event body)
      else if event = ''release''
      then (if action \<noteq> ''published'' then None else Some (\<lambda>i. applyRelease now i repo body resolved))
      else if event = ''registry_package''
      then (if action \<noteq> ''published'' \<and> action \<noteq> ''updated'' then None
            else Some (\<lambda>_. applyRegistryPackage now repo body))
      else if event = ''merge_group''
      then (if action \<noteq> ''checks_requested'' \<and> action \<noteq> ''destroyed'' then None
            else Some (\<lambda>i. applyMergeGroup now i repo action body))
      else None)"

text \<open>The branch lookup is GitHub's: a parameter, None without a configured App;
  its answer is an error, the empty text (no such branch) or a commit.\<close>

type_synonym branch_lookup = "(string \<Rightarrow> string \<Rightarrow> err + string) option"

definition resolveReleaseCommitish :: "branch_lookup \<Rightarrow> string \<Rightarrow> gh_body \<Rightarrow> string" where
  "resolveReleaseCommitish lookup repo body =
     (case gb_release body of
        None \<Rightarrow> []
      | Some p \<Rightarrow>
          if rl_commitish p = [] \<or> isCommitSHA (rl_commitish p) then []
          else case lookup of
                 None \<Rightarrow> []
               | Some f \<Rightarrow> (case f repo (rl_commitish p) of Inl _ \<Rightarrow> [] | Inr sha \<Rightarrow> sha))"

definition MarkEventApplied :: "int \<Rightarrow> int \<Rightarrow> db \<Rightarrow> db" where
  "MarkEventApplied i at d =
     d\<lparr>events := updWhere (\<lambda>e. ev_id e = i) (\<lambda>e. e\<lparr>ev_applied_at := Some at\<rparr>) (events d)\<rparr>"

definition markApplied ::
  "int \<Rightarrow> (int \<Rightarrow> db \<Rightarrow> err + db) option \<Rightarrow> int \<Rightarrow> db \<Rightarrow> err + db" where
  "markApplied now inner i d =
     andThen (case inner of None \<Rightarrow> Inr d | Some f \<Rightarrow> f i d) (\<lambda>d'. Inr (MarkEventApplied i now d'))"

definition trimSuffix :: "string \<Rightarrow> string \<Rightarrow> string" where
  "trimSuffix s suf = (if hasSuffix s suf then take (length s - length suf) s else s)"

definition applyForType ::
  "branch_config \<Rightarrow> branch_lookup \<Rightarrow> int \<Rightarrow> string \<Rightarrow> envelope \<Rightarrow> gh_body \<Rightarrow> (int \<Rightarrow> db \<Rightarrow> err + db) option" where
  "applyForType cfg lookup now ty env body =
     (if ty = ''push.skills'' then None
      else
        let event = takeWhile (\<lambda>c. c \<noteq> CHR ''.'') (trimSuffix ty ''.ignored'');
            resolved = (if event = ''release'' \<and> en_action env = ''published''
                        then resolveReleaseCommitish lookup (en_repo env) body else [])
        in applyFunc cfg now event env body resolved)"

section \<open>Flux\<close>

record flux_event =
  fx_kind :: string
  fx_namespace :: string
  fx_name :: string
  fx_severity :: string
  fx_timestamp :: string
  fx_message :: string
  fx_reason :: string
  fx_metadata :: "(string \<times> string) list"

definition metadataOf :: "flux_event \<Rightarrow> string \<Rightarrow> string" where
  "metadataOf ev k = (case map_of (fx_metadata ev) k of None \<Rightarrow> [] | Some v \<Rightarrow> v)"

definition fluxDefaultEnvironment :: string where
  "fluxDefaultEnvironment = ''dev''"

definition fluxTargetKind :: string where
  "fluxTargetKind = ''flux_kustomization''"

definition resolveEnvironment :: "string \<Rightarrow> (string \<times> string) list \<Rightarrow> string" where
  "resolveEnvironment cluster clusterEnv =
     (if cluster \<noteq> []
      then (case map_of clusterEnv cluster of Some env \<Rightarrow> env | None \<Rightarrow> fluxDefaultEnvironment)
      else case clusterEnv of [(_, env)] \<Rightarrow> env | _ \<Rightarrow> fluxDefaultEnvironment)"

text \<open>The rest from the last occurrence of a text on (strings.LastIndex).\<close>

fun fromLast :: "string \<Rightarrow> string \<Rightarrow> string option" where
  "fromLast x [] = (if x = [] then Some [] else None)"
| "fromLast x (c # s) =
     (case fromLast x s of Some r \<Rightarrow> Some r | None \<Rightarrow> if hasPrefix (c # s) x then Some (c # s) else None)"

definition parseRevision :: "string \<Rightarrow> string \<times> string" where
  "parseRevision revision =
     (if revision = [] then ([], [])
      else case fromLast ''sha256:'' revision of
        Some r \<Rightarrow> ([], r)
      | None \<Rightarrow>
          (case fromLast ''sha1:'' revision of
             Some r \<Rightarrow> (drop 5 r, [])
           | None \<Rightarrow>
               (case fromLast [CHR 0x40] revision of
                  Some r \<Rightarrow> (drop 1 r, [])
                | None \<Rightarrow> (revision, []))))"

definition confirmFluxDelivery ::
  "int \<Rightarrow> string \<Rightarrow> string \<Rightarrow> artifact option \<Rightarrow> int \<Rightarrow> db \<Rightarrow> err + db" where
  "confirmFluxDelivery now env gitSHA art eventID d =
     (if env \<noteq> ''dev'' \<and> env \<noteq> ''prod'' then Inr d
      else
        let sha = (case art of None \<Rightarrow> gitSHA | Some a \<Rightarrow> af_source_sha a) in
        if sha = [] then Inr d
        else case (case art of
                     Some a \<Rightarrow> map_option (Pair (af_repo a)) (MainIDForSHA d (af_repo a) sha)
                   | None \<Rightarrow> MainIDForSHAAnyRepo d sha) of
               None \<Rightarrow> Inr d
             | Some (repo, mainID) \<Rightarrow>
                 andThen (BumpEnvDeployFlux now repo env mainID d) (\<lambda>(_, d1).
                 resolveFrontier now repo env eventID d1))"

definition fluxFailed :: "flux_event \<Rightarrow> bool" where
  "fluxFailed ev \<longleftrightarrow> fx_severity ev = ''error'' \<or> fx_reason ev = ''ReconciliationFailed'' \<or>
     fx_reason ev = ''HealthCheckFailed''"

definition fluxTarget :: "flux_event \<Rightarrow> string" where
  "fluxTarget ev = fx_namespace ev @ ''/'' @ fx_name ev"

text \<open>The artifact an image digest names, and the artifact id either kind of
  revision does.\<close>

definition fluxArtifact :: "db \<Rightarrow> flux_event \<Rightarrow> artifact option" where
  "fluxArtifact d ev =
     (let (_, oci) = parseRevision (metadataOf ev ''revision'') in
      if oci \<noteq> [] then ArtifactByDigest d oci else None)"

definition fluxArtifactID :: "db \<Rightarrow> flux_event \<Rightarrow> int option" where
  "fluxArtifactID d ev =
     (let (git, oci) = parseRevision (metadataOf ev ''revision'') in
      if oci \<noteq> [] then map_option af_id (fluxArtifact d ev)
      else if git \<noteq> [] then ArtifactIDBySourceSHA d git else None)"

definition setFluxStatus :: "int \<Rightarrow> string \<Rightarrow> int option \<Rightarrow> flux_event \<Rightarrow> string \<Rightarrow> db \<Rightarrow> err + db" where
  "setFluxStatus now env artifactID ev status =
     UpsertDeployment now \<lparr> dp_artifact = artifactID, dp_environment = env,
       dp_target_kind = fluxTargetKind, dp_target_name = fluxTarget ev, dp_status = status,
       dp_first_seen = now, dp_last_update = now \<rparr>"

definition fluxRuntimeEvent ::
  "(string \<Rightarrow> int option) \<Rightarrow> int \<Rightarrow> int option \<Rightarrow> flux_event \<Rightarrow> string \<Rightarrow> db \<Rightarrow> err + db" where
  "fluxRuntimeEvent parseTime now artifactID ev kind d =
     andThen (InsertRuntimeEvent \<lparr> re_id = 0, re_cluster = metadataOf ev ''cluster'', re_kind = kind,
         re_workload = fluxTarget ev, re_image = [], re_artifact = artifactID, re_message = fx_message ev,
         re_occurred_at = orNow now (if fx_timestamp ev = [] then None else parseTime (fx_timestamp ev)) \<rparr> d)
       (\<lambda>(_, d'). Inr d')"

text \<open>time.Parse of the timestamp is a parameter, None for an error.\<close>

definition fluxApply ::
  "(string \<Rightarrow> int option) \<Rightarrow> (string \<times> string) list \<Rightarrow> int \<Rightarrow> int \<Rightarrow> flux_event \<Rightarrow> db \<Rightarrow> err + db" where
  "fluxApply parseTime clusterEnv now eventID ev d =
     (let env = resolveEnvironment (metadataOf ev ''cluster'') clusterEnv;
          gitSHA = fst (parseRevision (metadataOf ev ''revision''));
          artifactID = fluxArtifactID d ev
      in if fluxFailed ev
         then andThen (setFluxStatus now env artifactID ev ''failed'' d)
                (fluxRuntimeEvent parseTime now artifactID ev ''flux_failure'')
         else if fx_reason ev = ''ReconciliationSucceeded''
         then
           let prior = DeploymentStatus d env fluxTargetKind (fluxTarget ev) in
           andThen (setFluxStatus now env artifactID ev ''deployed'' d) (\<lambda>d1.
           andThen (confirmFluxDelivery now env gitSHA (fluxArtifact d ev) eventID d1) (\<lambda>d2.
           if prior \<noteq> ''failed'' then Inr d2
           else fluxRuntimeEvent parseTime now artifactID ev ''flux_recovery'' d2))
         else setFluxStatus now env artifactID ev ''reconciling'' d)"

end
