(* ===== verification/Deliverables.thy ===== *)
theory Deliverables
  imports Approvals Decisions
begin

text \<open>
  Deliverables and milestones (internal/store/deliverables.go, milestones.go,
  milestone_progress.go) and the declarations and evidence a deliverable's state
  is read from (artifactevidence.go). The inline references that the writers
  derive from the Markdown fields are not part of the model.
\<close>

section \<open>Ordinals of a project\<close>

text \<open>The upsert of project_entity_seq: the ordinal drawn and the counter
  advanced.\<close>

definition nextOrdinal :: "string \<Rightarrow> string \<Rightarrow> db \<Rightarrow> int" where
  "nextOrdinal projectID kind d =
     (case map_of (entity_seq d) (projectID, kind) of None \<Rightarrow> 1 | Some n \<Rightarrow> n)"

definition advanceOrdinal :: "string \<Rightarrow> string \<Rightarrow> db \<Rightarrow> db" where
  "advanceOrdinal projectID kind d =
     d\<lparr>entity_seq := ((projectID, kind), nextOrdinal projectID kind d + 1) #
         filter (\<lambda>e. fst e \<noteq> (projectID, kind)) (entity_seq d)\<rparr>"

definition typedID :: "string \<Rightarrow> string \<Rightarrow> int \<Rightarrow> string" where
  "typedID key kind n = key @ ''-'' @ kind @ ''-'' @ intStr n"

definition projectKey :: "db \<Rightarrow> string \<Rightarrow> string option" where
  "projectKey d projectID = map_option p_key (row (\<lambda>p. p_id p = projectID) (projects d))"

section \<open>Declarations and evidence\<close>

definition entityKinds :: "string list" where
  "entityKinds = [''deliverable'', ''task'', ''doc'']"

definition DeclareArtifact ::
  "int \<Rightarrow> string \<Rightarrow> string \<Rightarrow> string \<Rightarrow> string \<Rightarrow> db \<Rightarrow> err + db" where
  "DeclareArtifact now kind entity selector key d =
     (if kind \<notin> set entityKinds then Inl (DBError ''artifact_declarations_entity_kind_check'')
      else if selector \<notin> set [''address'', ''label'']
      then Inl (DBError ''artifact_declarations_selector_check'')
      else if \<exists>a\<in>set (artifact_declarations d). ad_kind a = kind \<and> ad_entity a = entity \<and> ad_uri a = key
      then Inr d
      else Inr (d\<lparr>artifact_declarations := artifact_declarations d @
             [\<lparr>ad_kind = kind, ad_entity = entity, ad_selector = selector, ad_uri = key,
               ad_created_at = now\<rparr>]\<rparr>))"

text \<open>The union of the three arms over the declarations that match, as kind, id
  and address.\<close>

definition openTarget :: "db \<Rightarrow> artifact_declaration \<Rightarrow> (string \<times> string \<times> string) list" where
  "openTarget d a =
     (if ad_kind a = ''deliverable''
      then map (\<lambda>x. (''deliverable'', dl_id x, ad_uri a))
             (filter (\<lambda>x. dl_id x = ad_entity a) (deliverables d))
      else if ad_kind a = ''task''
      then map (\<lambda>t. (''task'', t_id t, ad_uri a))
             (filter (\<lambda>t. t_id t = ad_entity a \<and> live t \<and> \<not> taskClosed d t) (tasks d))
      else if ad_kind a = ''doc''
      then map (\<lambda>x. (''doc'', intStr (d_id x), ad_uri a))
             (filter (\<lambda>x. intStr (d_id x) = ad_entity a \<and> d_deleted_at x = None \<and>
                 d_status x \<noteq> ''superseded'') (docs d))
      else [])"

definition openDeclarationsQuery ::
  "(artifact_declaration \<Rightarrow> bool) \<Rightarrow> db \<Rightarrow> (string \<times> string \<times> string) list" where
  "openDeclarationsQuery match d =
     sortStable (\<lambda>(k, i, _) (k', i', _). cmpOr [strCompare k k', strCompare i i'])
       (concat (map (openTarget d) (filter match (artifact_declarations d))))"

definition OpenDeclarationsForArtifact :: "db \<Rightarrow> string \<Rightarrow> string \<Rightarrow> (string \<times> string) list" where
  "OpenDeclarationsForArtifact d selector key =
     map (\<lambda>(k, i, _). (k, i))
       (openDeclarationsQuery (\<lambda>a. ad_uri a = key \<and> ad_selector a = selector) d)"

definition ProbeTargets :: "db \<Rightarrow> string list" where
  "ProbeTargets d =
     sortStable strCompare (remdups (map (\<lambda>(_, _, uri). uri)
       (openDeclarationsQuery (\<lambda>a. ad_selector a = ''address'') d)))"

definition ArtifactStates :: "string list" where
  "ArtifactStates = [''published'', ''updated'', ''deprecated'', ''removed'', ''failed'']"

definition sameEvidence :: "artifact_evidence_row \<Rightarrow> artifact_evidence_row \<Rightarrow> bool" where
  "sameEvidence a b \<longleftrightarrow> ae_kind b = ae_kind a \<and> ae_entity b = ae_entity a \<and> ae_uri b = ae_uri a \<and>
     ae_event b = ae_event a"

definition InsertArtifactEvidence :: "artifact_evidence_row \<Rightarrow> db \<Rightarrow> err + bool \<times> db" where
  "InsertArtifactEvidence e d =
     (if ae_kind e \<notin> set entityKinds then Inl (DBError ''artifact_evidence_entity_kind_check'')
      else if ae_provenance e \<notin> set [''observed'', ''user_reported'']
      then Inl (DBError ''artifact_evidence_provenance_check'')
      else if ae_state e \<notin> set ArtifactStates then Inl (DBError ''artifact_evidence_state_check'')
      else if \<exists>x\<in>set (artifact_evidence d). sameEvidence e x then Inr (False, d)
      else if \<not> (\<exists>v\<in>set (events d). ev_id v = ae_event e)
      then Inl (DBError ''artifact_evidence_event_id_fkey'')
      else Inr (True, d\<lparr>artifact_evidence := artifact_evidence d @ [e]\<rparr>))"

section \<open>Deliverables\<close>

record deliverable_input =
  di_project :: string
  di_name :: string
  di_description :: string
  di_url :: string
  di_artifact :: string
  di_label :: bool
  di_created_by :: string
  di_milestone :: string

text \<open>A named milestone of the same project, or none.\<close>

definition checkMilestoneOf :: "db \<Rightarrow> string \<Rightarrow> string \<Rightarrow> err + unit" where
  "checkMilestoneOf d projectID m =
     (if m = [] then Inr ()
      else case row (\<lambda>x. ml_id x = m) (milestones d) of
        None \<Rightarrow> Inl ErrInvalidInput
      | Some x \<Rightarrow> if ml_project x \<noteq> projectID then Inl ErrInvalidInput else Inr ())"

definition deliverableLabel :: "string \<Rightarrow> string \<Rightarrow> string" where
  "deliverableLabel key name = ''worklode.deliverable='' @ key @ ''/'' @ SlugifyTitle name"

definition labelTaken :: "db \<Rightarrow> string \<Rightarrow> string \<Rightarrow> bool" where
  "labelTaken d label projectID \<longleftrightarrow>
     (\<exists>a\<in>set (artifact_declarations d). \<exists>x\<in>set (deliverables d).
        dl_id x = ad_entity a \<and> ad_kind a = ''deliverable'' \<and> ad_selector a = ''label'' \<and>
        ad_uri a = label \<and> dl_project x = projectID)"

definition insertDeliverable :: "deliverable \<Rightarrow> db \<Rightarrow> err + db" where
  "insertDeliverable x d =
     (if dl_id x \<in> dl_id ` set (deliverables d) then Inl (DBError ''deliverables_pkey'')
      else if \<not> knownActor d (dl_created_by x) then Inl (DBError ''deliverables_created_by_fkey'')
      else Inr (d\<lparr>deliverables := deliverables d @ [x]\<rparr>))"

definition newDeliverable :: "int \<Rightarrow> string \<Rightarrow> deliverable_input \<Rightarrow> deliverable" where
  "newDeliverable now i inp =
     \<lparr> dl_id = i, dl_project = di_project inp, dl_name = trimSpace (di_name inp),
       dl_description = trimSpace (di_description inp), dl_url = trimSpace (di_url inp),
       dl_created_by = nullText (di_created_by inp), dl_created_at = truncSec now,
       dl_updated_at = truncSec now, dl_milestone = nullText (trimSpace (di_milestone inp)) \<rparr>"

definition CreateDeliverable :: "int \<Rightarrow> deliverable_input \<Rightarrow> db \<Rightarrow> err + deliverable \<times> db" where
  "CreateDeliverable now inp d =
     (let name = trimSpace (di_name inp); artifact = trimSpace (di_artifact inp) in
      if name = [] then Inl ErrInvalidInput
      else if di_label inp \<and> artifact \<noteq> [] then Inl ErrInvalidInput
      else case projectKey d (di_project inp) of
        None \<Rightarrow> Inl ErrNotFound
      | Some key \<Rightarrow>
          andThen (checkMilestoneOf d (di_project inp) (trimSpace (di_milestone inp))) (\<lambda>_.
          let label = (if di_label inp then deliverableLabel key name else []) in
          if di_label inp \<and> labelTaken d label (di_project inp) then Inl ErrInvalidInput
          else
            let x = newDeliverable now (typedID key ''DEL'' (nextOrdinal (di_project inp) ''DEL'' d)) inp in
            andThen (insertDeliverable x (advanceOrdinal (di_project inp) ''DEL'' d)) (\<lambda>d1.
            andThen (if artifact \<noteq> [] then DeclareArtifact now ''deliverable'' (dl_id x) ''address'' artifact d1
                     else Inr d1) (\<lambda>d2.
            andThen (if label \<noteq> [] then DeclareArtifact now ''deliverable'' (dl_id x) ''label'' label d2
                     else Inr d2) (\<lambda>d3. Inr (x, d3))))))"

text \<open>What a read projects: the row, the first declaration's selector and
  address, and the state, provenance and time reported last about that address.\<close>

record deliverable_view =
  dv_row :: deliverable
  dv_selector :: string
  dv_key :: string
  dv_state :: string
  dv_provenance :: string
  dv_reported_at :: "int option"

definition firstDeclaration :: "db \<Rightarrow> string \<Rightarrow> artifact_declaration option" where
  "firstDeclaration d i =
     row (\<lambda>a. ad_kind a = ''deliverable'' \<and> ad_entity a = i) (artifact_declarations d)"

definition declaredKey :: "db \<Rightarrow> string \<Rightarrow> string" where
  "declaredKey d i = (case firstDeclaration d i of None \<Rightarrow> [] | Some a \<Rightarrow> ad_uri a)"

text \<open>ORDER BY occurred_at DESC, id DESC LIMIT 1.\<close>

definition latestEvidence :: "db \<Rightarrow> string \<Rightarrow> string \<Rightarrow> artifact_evidence_row option" where
  "latestEvidence d i uri =
     firstOf (sortStable (\<lambda>a b. cmpInt (ae_occurred_at b) (ae_occurred_at a))
       (rev (filter (\<lambda>e. ae_kind e = ''deliverable'' \<and> ae_entity e = i \<and> ae_uri e = uri)
         (artifact_evidence d))))"

definition viewDeliverable :: "db \<Rightarrow> deliverable \<Rightarrow> deliverable_view" where
  "viewDeliverable d x =
     (let ev = latestEvidence d (dl_id x) (declaredKey d (dl_id x)) in
      \<lparr> dv_row = x,
        dv_selector = (case firstDeclaration d (dl_id x) of None \<Rightarrow> [] | Some a \<Rightarrow> ad_selector a),
        dv_key = declaredKey d (dl_id x),
        dv_state = (case ev of None \<Rightarrow> [] | Some e \<Rightarrow> ae_state e),
        dv_provenance = (case ev of None \<Rightarrow> [] | Some e \<Rightarrow> ae_provenance e),
        dv_reported_at = map_option ae_occurred_at ev \<rparr>)"

definition ListDeliverables :: "db \<Rightarrow> string \<Rightarrow> deliverable_view list" where
  "ListDeliverables d projectID =
     map (viewDeliverable d)
       (sortStable (\<lambda>a b. cmpOr [cmpInt (dl_created_at a) (dl_created_at b), strCompare (dl_id a) (dl_id b)])
         (filter (\<lambda>x. dl_project x = projectID) (deliverables d)))"

definition GetDeliverable :: "db \<Rightarrow> string \<Rightarrow> err + deliverable_view" where
  "GetDeliverable d i =
     (case deliverableRow d i of None \<Rightarrow> Inl ErrNotFound | Some x \<Rightarrow> Inr (viewDeliverable d x))"

definition ReportDeliverableState ::
  "int \<Rightarrow> int \<Rightarrow> string \<Rightarrow> string \<Rightarrow> string \<Rightarrow> string \<Rightarrow> string \<Rightarrow> db \<Rightarrow> err + db" where
  "ReportDeliverableState eventID now i state source actorID note d =
     (if state \<notin> set ArtifactStates then Inl ErrInvalidInput
      else case deliverableRow d i of
        None \<Rightarrow> Inl ErrNotFound
      | Some _ \<Rightarrow>
          andThen (InsertArtifactEvidence
            \<lparr> ae_kind = ''deliverable'', ae_entity = i, ae_uri = declaredKey d i, ae_source = source,
              ae_state = state, ae_provenance = ''user_reported'', ae_version = [], ae_url = [],
              ae_detail = Some (JObj [(''actor'', JStr actorID), (''note'', JStr note)]),
              ae_event = eventID, ae_occurred_at = now \<rparr> d) (\<lambda>(_, d'). Inr d'))"

definition SetDeliverableMilestone :: "int \<Rightarrow> string \<Rightarrow> string \<Rightarrow> db \<Rightarrow> err + db" where
  "SetDeliverableMilestone now i m d =
     (case deliverableRow d i of
        None \<Rightarrow> Inl ErrNotFound
      | Some x \<Rightarrow>
          andThen (checkMilestoneOf d (dl_project x) m) (\<lambda>_.
          Inr (d\<lparr>deliverables := updWhere (\<lambda>y. dl_id y = i)
                (\<lambda>y. y\<lparr>dl_milestone := nullText m, dl_updated_at := now\<rparr>) (deliverables d)\<rparr>)))"

definition DeleteDeliverable :: "string \<Rightarrow> db \<Rightarrow> err + db" where
  "DeleteDeliverable i d =
     (if \<exists>a\<in>set (approvals d). ap_kind a = ''deliverable'' \<and> ap_entity a = i then Inl ErrInvalidInput
      else if \<not> (\<exists>x\<in>set (deliverables d). dl_id x = i) then Inl ErrNotFound
      else Inr (d\<lparr>artifact_evidence := filter (\<lambda>e. \<not> (ae_kind e = ''deliverable'' \<and> ae_entity e = i))
                    (artifact_evidence d),
                  entity_edges := filter (\<lambda>e. \<not> (ee_to_kind e = ''deliverable'' \<and> ee_to e = i) \<and>
                      \<not> (ee_from_kind e = ''deliverable'' \<and> ee_from e = i)) (entity_edges d),
                  deliverables := filter (\<lambda>x. dl_id x \<noteq> i) (deliverables d)\<rparr>))"

section \<open>Milestones\<close>

text \<open>utf8.RuneCountInString of valid text: the bytes that start a rune.\<close>

definition runeCount :: "string \<Rightarrow> nat" where
  "runeCount s = length (filter (\<lambda>c. \<not> (128 \<le> (of_char c :: nat) \<and> (of_char c :: nat) < 192)) s)"

definition maxMilestoneTitle :: nat where
  "maxMilestoneTitle = 200"

definition lastPosition :: "db \<Rightarrow> string \<Rightarrow> int" where
  "lastPosition d projectID =
     (case filter (\<lambda>m. ml_project m = projectID) (milestones d) of
        [] \<Rightarrow> 0 | ms \<Rightarrow> Max (set (map ml_position ms)))"

definition CreateMilestone :: "int \<Rightarrow> string \<Rightarrow> string \<Rightarrow> int \<Rightarrow> string \<Rightarrow> db \<Rightarrow> err + milestone \<times> db" where
  "CreateMilestone now projectID title0 position createdBy d =
     (let title = trimSpace title0 in
      if title = [] \<or> maxMilestoneTitle < runeCount title \<or> position < 0 then Inl ErrInvalidInput
      else case projectKey d projectID of
        None \<Rightarrow> Inl ErrNotFound
      | Some key \<Rightarrow>
          let m = \<lparr> ml_id = typedID key ''MILE'' (nextOrdinal projectID ''MILE'' d), ml_project = projectID,
                    ml_title = title, ml_position = (if position = 0 then lastPosition d projectID + 1 else position),
                    ml_created_by = nullText createdBy, ml_created_at = truncSec now,
                    ml_updated_at = truncSec now \<rparr> in
          if \<not> int4 (Some (ml_position m)) then Inl (DBError ''integer out of range'')
          else if ml_id m \<in> ml_id ` set (milestones d) then Inl (DBError ''milestones_pkey'')
          else if \<not> knownActor d (ml_created_by m) then Inl (DBError ''milestones_created_by_fkey'')
          else Inr (m, (advanceOrdinal projectID ''MILE'' d)\<lparr>milestones := milestones d @ [m]\<rparr>))"

record milestone_progress =
  mp_tasks_total :: nat
  mp_tasks_closed :: nat
  mp_deliverables_total :: nat
  mp_deliverables_live :: nat

definition liveDeliverableStates :: "string list" where
  "liveDeliverableStates = [''published'', ''updated'']"

definition ComputeMilestoneProgress :: "string list \<Rightarrow> string list \<Rightarrow> milestone_progress" where
  "ComputeMilestoneProgress taskStates deliverableStates =
     \<lparr> mp_tasks_total = length taskStates,
       mp_tasks_closed = length (filter deliveredStateSet taskStates),
       mp_deliverables_total = length deliverableStates,
       mp_deliverables_live = length (filter (\<lambda>s. s \<in> set liveDeliverableStates) deliverableStates) \<rparr>"

definition milestoneTaskStates :: "db \<Rightarrow> string \<Rightarrow> string \<Rightarrow> string list" where
  "milestoneTaskStates d projectID m =
     map t_state (filter (\<lambda>t. t_project t = projectID \<and> t_milestone t = Some m \<and> live t) (tasks d))"

definition milestoneDeliverableStates :: "db \<Rightarrow> string \<Rightarrow> string \<Rightarrow> string list" where
  "milestoneDeliverableStates d projectID m =
     map (\<lambda>x. dv_state (viewDeliverable d x))
       (filter (\<lambda>x. dl_project x = projectID \<and> dl_milestone x = Some m) (deliverables d))"

definition ListMilestones :: "db \<Rightarrow> string \<Rightarrow> (milestone \<times> milestone_progress) list" where
  "ListMilestones d projectID =
     map (\<lambda>m. (m, ComputeMilestoneProgress (milestoneTaskStates d projectID (ml_id m))
                    (milestoneDeliverableStates d projectID (ml_id m))))
       (sortStable (\<lambda>a b. cmpOr [cmpInt (ml_position a) (ml_position b), strCompare (ml_id a) (ml_id b)])
         (filter (\<lambda>m. ml_project m = projectID) (milestones d)))"

record milestone_deletion =
  md_milestone :: milestone
  md_tasks :: "string list"
  md_deleted :: "string list"
  md_references :: "string list"

definition detachTasks :: "string \<Rightarrow> db \<Rightarrow> string list \<times> db" where
  "detachTasks m d =
     (sortStable strCompare (map t_id (filter (\<lambda>t. t_milestone t = Some m) (tasks d))),
      d\<lparr>tasks := updWhere (\<lambda>t. t_milestone t = Some m) (\<lambda>t. t\<lparr>t_milestone := None\<rparr>) (tasks d)\<rparr>)"

definition detachDeliverables :: "string \<Rightarrow> db \<Rightarrow> string list \<times> db" where
  "detachDeliverables m d =
     (sortStable strCompare (map dl_id (filter (\<lambda>x. dl_milestone x = Some m) (deliverables d))),
      d\<lparr>deliverables := updWhere (\<lambda>x. dl_milestone x = Some m) (\<lambda>x. x\<lparr>dl_milestone := None\<rparr>)
          (deliverables d)\<rparr>)"

definition holdsChildren :: "db \<Rightarrow> string \<Rightarrow> bool" where
  "holdsChildren d m \<longleftrightarrow> (\<exists>t\<in>set (tasks d). t_milestone t = Some m \<and> live t) \<or>
     (\<exists>x\<in>set (deliverables d). dl_milestone x = Some m)"

definition DeleteMilestone :: "string \<Rightarrow> bool \<Rightarrow> db \<Rightarrow> err + milestone_deletion \<times> db" where
  "DeleteMilestone i cascade d =
     (case row (\<lambda>m. ml_id m = i) (milestones d) of
        None \<Rightarrow> Inl ErrNotFound
      | Some m \<Rightarrow>
          if \<not> cascade \<and> holdsChildren d i then Inl ErrInvalidInput
          else
            let (ts, d1) = detachTasks i d; (ds, d2) = detachDeliverables i d1 in
            andThen (foldE DeleteDeliverable ds d2) (\<lambda>d3.
            let out = (\<lambda>e. ee_from_kind e = ''milestone'' \<and> ee_from e = i) in
            Inr (\<lparr> md_milestone = m, md_tasks = ts, md_deleted = ds,
                   md_references = map ee_to (filter out (entity_edges d3)) \<rparr>,
                 d3\<lparr>entity_edges := filter (\<lambda>e. \<not> out e) (entity_edges d3),
                    milestones := filter (\<lambda>x. ml_id x \<noteq> i) (milestones d3)\<rparr>)))"

end
