(* ===== verification/Ingest.thy ===== *)
theory Ingest
  imports Hooks Deliverables
begin

text \<open>
  The webhook handlers and the replayer (internal/hooks: the ServeHTTP methods of
  github.go, flux.go and catalog.go, the artifact-evidence applier, replay.go;
  internal/store/reconcile.go: UnappliedEvents). HMAC-SHA256, SHA-256, the JSON
  reader and time.Parse are parameters; a response is its code and its status or
  error text.
\<close>

section \<open>Signatures\<close>

definition maxHookBody :: nat where
  "maxHookBody = 5 * 2 ^ 20"

text \<open>hex.DecodeString: either case, None for an odd length or a foreign byte.\<close>

definition hexVal :: "char \<Rightarrow> nat option" where
  "hexVal c =
     (let l = asciiLower c in
      if \<not> hexDigit l then None
      else if isDigit l then Some (of_char l - 48) else Some (of_char l - 87))"

fun hexDecode :: "string \<Rightarrow> string option" where
  "hexDecode [] = Some []"
| "hexDecode [c] = None"
| "hexDecode (a # b # s) =
     (case (hexVal a, hexVal b) of
        (Some x, Some y) \<Rightarrow> map_option (Cons (char_of (16 * x + y))) (hexDecode s)
      | _ \<Rightarrow> None)"

definition hexChar :: "nat \<Rightarrow> char" where
  "hexChar n = (if n < 10 then char_of (48 + n) else char_of (87 + n))"

definition hexEncode :: "string \<Rightarrow> string" where
  "hexEncode s = concat (map (\<lambda>c. let n = (of_char c :: nat) in [hexChar (n div 16), hexChar (n mod 16)]) s)"

definition validSignature :: "(string \<Rightarrow> string \<Rightarrow> string) \<Rightarrow> string \<Rightarrow> string \<Rightarrow> string \<Rightarrow> bool" where
  "validSignature mac secret body header =
     (case dropPrefix ''sha256='' header of
        None \<Rightarrow> False
      | Some h \<Rightarrow> (case hexDecode h of None \<Rightarrow> False | Some sig \<Rightarrow> sig = mac secret body))"

record hook_request =
  hq_body :: string
  hq_signature :: string
  hq_event :: string
  hq_delivery :: string

text \<open>What one handler is configured with; \<open>'p\<close> is what a parsed body
  decodes to.\<close>

record 'p hook_env =
  he_secret :: string
  he_mac :: "string \<Rightarrow> string \<Rightarrow> string"
  he_sha256 :: "string \<Rightarrow> string"
  he_json :: "string \<Rightarrow> json option"
  he_decode :: "json \<Rightarrow> 'p"

type_synonym response = "nat \<times> string"

text \<open>The steps every handler opens with: the secret, the body's size and its
  signature.\<close>

definition admit :: "'p hook_env \<Rightarrow> hook_request \<Rightarrow> response option" where
  "admit h r =
     (if he_secret h = [] then Some (503, ''webhook secret not configured'')
      else if maxHookBody < length (hq_body r) then Some (413, ''request body too large'')
      else if \<not> validSignature (he_mac h) (he_secret h) (hq_body r) (hq_signature r)
      then Some (401, ''invalid signature'')
      else None)"

section \<open>GitHub\<close>

definition repoMapped :: "db \<Rightarrow> string \<Rightarrow> bool" where
  "repoMapped d repo \<longleftrightarrow>
     (\<exists>r\<in>set (project_repos d). pr_repo r = repo \<and> (\<exists>p\<in>set (projects d). p_id p = pr_project r))"

definition eventType :: "string \<Rightarrow> envelope \<Rightarrow> string" where
  "eventType event env = (if en_action env = [] then event else event @ ''.'' @ en_action env)"

definition skillPush :: "(string \<Rightarrow> string \<Rightarrow> bool) option \<Rightarrow> string \<Rightarrow> envelope \<Rightarrow> bool" where
  "skillPush onSkillPush event env \<longleftrightarrow> event = ''push'' \<and>
     (case (onSkillPush, dropPrefix ''refs/heads/'' (en_ref env)) of
        (Some f, Some branch) \<Rightarrow> f (en_repo env) branch
      | _ \<Rightarrow> False)"

definition githubServe ::
  "branch_config \<Rightarrow> branch_lookup \<Rightarrow> (string \<Rightarrow> string \<Rightarrow> bool) option \<Rightarrow> gh_body hook_env \<Rightarrow> int \<Rightarrow>
     hook_request \<Rightarrow> db \<Rightarrow> response \<times> db" where
  "githubServe cfg lookup onSkillPush h now r d =
     (case admit h r of
        Some resp \<Rightarrow> (resp, d)
      | None \<Rightarrow>
          if hq_event r = [] \<or> hq_delivery r = [] then ((400, ''missing header''), d)
          else case he_json h (hq_body r) of
            None \<Rightarrow> ((400, ''invalid JSON payload''), d)
          | Some payload \<Rightarrow>
              (let body = he_decode h payload in
               case gb_env body of
                 None \<Rightarrow> ((400, ''invalid JSON payload''), d)
               | Some env \<Rightarrow>
                   let skill = skillPush onSkillPush (hq_event r) env;
                       ignored = (en_repo env \<noteq> [] \<and> \<not> repoMapped d (en_repo env));
                       resolved = (if hq_event r = ''release'' \<and> en_action env = ''published'' \<and> \<not> ignored
                                   then resolveReleaseCommitish lookup (en_repo env) body else []);
                       ty = eventType (hq_event r) env;
                       (ty', app) =
                         (if skill then (''push.skills'', Some (markApplied now None))
                          else if ignored then (ty @ ''.ignored'', None)
                          else (ty, Some (markApplied now (applyFunc cfg now (hq_event r) env body resolved))))
                   in case RecordEventThenApply now ''github'' (hq_delivery r) ty' payload app d of
                        (Inl _, d') \<Rightarrow> ((500, ''internal error''), d')
                      | (Inr (_, inserted, failure), d') \<Rightarrow>
                          if failure \<noteq> None then ((500, ''internal error''), d')
                          else if \<not> inserted then ((200, ''duplicate''), d')
                          else if ignored \<and> \<not> skill then ((200, ''ignored''), d')
                          else ((200, ''ok''), d')))"

section \<open>Flux\<close>

definition fluxType :: "flux_event \<Rightarrow> string" where
  "fluxType ev = ''flux.'' @ fx_kind ev @ ''.'' @ fx_reason ev"

definition fluxIgnored :: "flux_event \<Rightarrow> bool" where
  "fluxIgnored ev \<longleftrightarrow> fx_kind ev \<noteq> ''Kustomization'' \<and> fx_kind ev \<noteq> ''HelmRelease''"

text \<open>The callback the delivery is recorded with; an ignored one has none.\<close>

definition fluxRun ::
  "(string \<Rightarrow> int option) \<Rightarrow> (string \<times> string) list \<Rightarrow> int \<Rightarrow> flux_event \<Rightarrow> int \<Rightarrow> db \<Rightarrow> err + unit \<times> db" where
  "fluxRun parseTime clusterEnv now ev i d =
     (if fluxIgnored ev then Inr ((), d)
      else andThen (fluxApply parseTime clusterEnv now i ev d) (\<lambda>d'. Inr ((), d')))"

definition fluxServe ::
  "(string \<Rightarrow> int option) \<Rightarrow> (string \<times> string) list \<Rightarrow> flux_event option hook_env \<Rightarrow> int \<Rightarrow>
     hook_request \<Rightarrow> db \<Rightarrow> response \<times> db" where
  "fluxServe parseTime clusterEnv h now r d =
     (case admit h r of
        Some resp \<Rightarrow> (resp, d)
      | None \<Rightarrow>
          (case he_json h (hq_body r) of
             None \<Rightarrow> ((400, ''invalid JSON payload''), d)
           | Some payload \<Rightarrow>
               (case he_decode h payload of
                  None \<Rightarrow> ((400, ''invalid JSON payload''), d)
                | Some ev \<Rightarrow>
                    (case RecordEvent now ''flux'' (hexEncode (he_sha256 h (hq_body r)))
                            (if fluxIgnored ev then fluxType ev @ ''.ignored'' else fluxType ev) payload
                            (fluxRun parseTime clusterEnv now ev) d of
                       (Inl _, d') \<Rightarrow> ((500, ''internal error''), d')
                     | (Inr (_, None), d') \<Rightarrow> ((200, ''duplicate''), d')
                     | (Inr (_, Some _), d') \<Rightarrow>
                         ((200, if fluxIgnored ev then ''ignored'' else ''ok''), d')))))"

section \<open>Artifact evidence\<close>

record catalog_event =
  ce_event :: string
  ce_artifact :: string
  ce_labels :: "(string \<times> string) list"
  ce_state :: string
  ce_version :: string
  ce_url :: string
  ce_occurred_at :: string
  ce_detail :: "json option"
  ce_published_by :: string
  ce_approved_by :: string

record ingest_config =
  ic_source :: string
  ic_validate :: "catalog_event \<Rightarrow> catalog_event option"

definition validateCMS :: "catalog_event \<Rightarrow> catalog_event option" where
  "validateCMS ev =
     (let ev' = ev\<lparr>ce_published_by := trimSpace (ce_published_by ev),
                   ce_approved_by := trimSpace (ce_approved_by ev)\<rparr>
      in if ce_published_by ev' = [] \<or> ce_approved_by ev' = [] then None else Some ev')"

definition ingestConfigs :: "(string \<times> ingest_config) list" where
  "ingestConfigs =
     [(''catalog'', \<lparr>ic_source = ''catalog'', ic_validate = Some\<rparr>),
      (''ci'', \<lparr>ic_source = ''ci'', ic_validate = Some\<rparr>),
      (''pipeline'', \<lparr>ic_source = ''pipeline'', ic_validate = Some\<rparr>),
      (''cms'', \<lparr>ic_source = ''cms'', ic_validate = validateCMS\<rparr>)]"

definition routingKeys :: "catalog_event \<Rightarrow> (string \<times> string) list" where
  "routingKeys ev =
     (if ce_artifact ev = [] then [] else [(''address'', ce_artifact ev)]) @
     map (\<lambda>(k, v). (''label'', k @ ''='' @ v)) (sortStable (\<lambda>a b. strCompare (fst a) (fst b)) (ce_labels ev))"

text \<open>The checks a live and a stored delivery both pass.\<close>

definition catalogValid :: "ingest_config \<Rightarrow> catalog_event \<Rightarrow> catalog_event option" where
  "catalogValid cfg ev0 =
     (let ev = ev0\<lparr>ce_artifact := trimSpace (ce_artifact ev0)\<rparr> in
      if ce_artifact ev = [] \<and> ce_labels ev = [] then None
      else if ce_state ev \<notin> set ArtifactStates then None
      else ic_validate cfg ev)"

record catalog_result =
  cr_state :: string
  cr_targets :: "(string \<times> string) list"
  cr_written :: "(string \<times> string) list"

definition Routed :: "catalog_result \<Rightarrow> bool" where
  "Routed res \<longleftrightarrow> cr_targets res \<noteq> []"

definition mergePersonDetail :: "json option \<Rightarrow> string \<Rightarrow> string \<Rightarrow> err + json" where
  "mergePersonDetail detail publishedBy approvedBy =
     (let people = [(''published_by'', JStr publishedBy), (''approved_by'', JStr approvedBy)] in
      case detail of
        None \<Rightarrow> Inr (JObj people)
      | Some JNull \<Rightarrow> Inr (JObj people)
      | Some (JObj kvs) \<Rightarrow> Inr (mergeJson people (JObj kvs))
      | Some _ \<Rightarrow> Inl (ParseError ''detail is not a JSON object''))"

definition evidenceFor ::
  "string \<Rightarrow> int \<Rightarrow> int \<Rightarrow> json option \<Rightarrow> catalog_event \<Rightarrow> string \<Rightarrow> string \<times> string \<Rightarrow>
     artifact_evidence_row" where
  "evidenceFor source eventID occurredAt detail ev key target =
     \<lparr> ae_kind = fst target, ae_entity = snd target, ae_uri = key, ae_source = source,
       ae_state = ce_state ev, ae_provenance = ''observed'', ae_version = ce_version ev,
       ae_url = ce_url ev, ae_detail = detail, ae_event = eventID, ae_occurred_at = occurredAt \<rparr>"

definition fileTarget ::
  "string \<Rightarrow> int \<Rightarrow> int \<Rightarrow> json option \<Rightarrow> catalog_event \<Rightarrow> string \<Rightarrow> string \<times> string \<Rightarrow>
     catalog_result \<times> db \<Rightarrow> err + catalog_result \<times> db" where
  "fileTarget source eventID occurredAt detail ev key target = (\<lambda>(res, d).
     andThen (InsertArtifactEvidence (evidenceFor source eventID occurredAt detail ev key target) d) (\<lambda>(inserted, d').
     Inr (if inserted then res\<lparr>cr_written := cr_written res @ [target]\<rparr> else res, d')))"

definition fileKey ::
  "string \<Rightarrow> int \<Rightarrow> int \<Rightarrow> json option \<Rightarrow> catalog_event \<Rightarrow> string \<times> string \<Rightarrow>
     catalog_result \<times> db \<Rightarrow> err + catalog_result \<times> db" where
  "fileKey source eventID occurredAt detail ev = (\<lambda>(selector, key) (res, d).
     let targets = OpenDeclarationsForArtifact d selector key in
     foldE (fileTarget source eventID occurredAt detail ev key) targets
       (res\<lparr>cr_targets := cr_targets res @ targets\<rparr>, d))"

definition catalogApply ::
  "(string \<Rightarrow> int option) \<Rightarrow> int \<Rightarrow> ingest_config \<Rightarrow> int \<Rightarrow> catalog_event \<Rightarrow> db \<Rightarrow> err + catalog_result \<times> db" where
  "catalogApply parseTime now cfg eventID ev d =
     (let occurredAt = orNow now (if ce_occurred_at ev = [] then None else parseTime (ce_occurred_at ev)) in
      andThen (if ic_source cfg = ''cms''
               then andThen (mergePersonDetail (ce_detail ev) (ce_published_by ev) (ce_approved_by ev))
                      (\<lambda>j. Inr (Some j))
               else Inr (ce_detail ev)) (\<lambda>detail.
      foldE (fileKey (ic_source cfg) eventID occurredAt detail ev) (routingKeys ev)
        (\<lparr>cr_state = ce_state ev, cr_targets = [], cr_written = []\<rparr>, d)))"

definition applyThenMark ::
  "(string \<Rightarrow> int option) \<Rightarrow> int \<Rightarrow> ingest_config \<Rightarrow> int \<Rightarrow> catalog_event \<Rightarrow> db \<Rightarrow> err + catalog_result \<times> db" where
  "applyThenMark parseTime now cfg eventID ev d =
     andThen (catalogApply parseTime now cfg eventID ev d) (\<lambda>(res, d').
     Inr (res, if Routed res then MarkEventApplied eventID now d' else d'))"

definition ingestServe ::
  "(string \<Rightarrow> int option) \<Rightarrow> ingest_config \<Rightarrow> catalog_event option hook_env \<Rightarrow> int \<Rightarrow> hook_request \<Rightarrow> db \<Rightarrow>
     response \<times> db" where
  "ingestServe parseTime cfg h now r d =
     (case admit h r of
        Some resp \<Rightarrow> (resp, d)
      | None \<Rightarrow>
          (case he_json h (hq_body r) of
             None \<Rightarrow> ((400, ''invalid JSON payload''), d)
           | Some payload \<Rightarrow>
               (case he_decode h payload of
                  None \<Rightarrow> ((400, ''invalid JSON payload''), d)
                | Some ev0 \<Rightarrow>
                    (case catalogValid cfg ev0 of
                       None \<Rightarrow> ((400, ''invalid payload''), d)
                     | Some ev \<Rightarrow>
                         let header = trimSpace (hq_delivery r);
                             ext = (if header = [] then hexEncode (he_sha256 h (hq_body r)) else header);
                             ty = ic_source cfg @ ''.'' @ (if ce_event ev = [] then ce_state ev else ce_event ev)
                         in case RecordEvent now (ic_source cfg) ext ty payload
                                   (\<lambda>i. applyThenMark parseTime now cfg i ev) d of
                              (Inl _, d') \<Rightarrow> ((500, ''internal error''), d')
                            | (Inr (_, None), d') \<Rightarrow> ((200, ''duplicate''), d')
                            | (Inr (_, Some res), d') \<Rightarrow>
                                ((200, if Routed res then ''ok'' else ''unrouted''), d')))))"

section \<open>Replay\<close>

definition replaySources :: "string list" where
  "replaySources = [''github'', ''catalog'', ''ci'', ''pipeline'']"

text \<open>\<open>payload->'repository'->>'full_name'\<close>, for a text.\<close>

definition payloadField :: "string \<Rightarrow> json \<Rightarrow> json option" where
  "payloadField k j = (case j of JObj kvs \<Rightarrow> map_of kvs k | _ \<Rightarrow> None)"

definition payloadRepo :: "json \<Rightarrow> string option" where
  "payloadRepo j =
     (case payloadField ''repository'' j of
        None \<Rightarrow> None
      | Some r \<Rightarrow> (case payloadField ''full_name'' r of Some (JStr s) \<Rightarrow> Some s | _ \<Rightarrow> None))"

definition unapplied :: "string \<Rightarrow> int option \<Rightarrow> event \<Rightarrow> bool" where
  "unapplied repo since e \<longleftrightarrow> ev_source e \<in> set replaySources \<and> ev_applied_at e = None \<and>
     (repo = [] \<or> payloadRepo (ev_payload e) = Some repo) \<and>
     (case since of None \<Rightarrow> True | Some s \<Rightarrow> s \<le> ev_received_at e)"

definition UnappliedEvents :: "db \<Rightarrow> string \<Rightarrow> int option \<Rightarrow> int \<Rightarrow> event list" where
  "UnappliedEvents d repo since limit =
     (let es = byId (filter (unapplied repo since) (events d)) in
      if 0 < limit then take (nat limit) es else es)"

definition defaultReplayBatch :: int where
  "defaultReplayBatch = 500"

definition maxReplayErrors :: nat where
  "maxReplayErrors = 100"

record replay_options =
  ro_repo :: string
  ro_since :: "int option"
  ro_dry_run :: bool
  ro_limit :: int

record replay_result =
  rs_dry_run :: bool
  rs_candidates :: nat
  rs_replayed :: nat
  rs_still_unmapped :: nat
  rs_truncated :: bool
  rs_errors :: "(int \<times> err) list"
  rs_errors_omitted :: nat

definition addErr :: "int \<Rightarrow> err \<Rightarrow> replay_result \<Rightarrow> replay_result" where
  "addErr i e res =
     (if maxReplayErrors \<le> length (rs_errors res) then res\<lparr>rs_errors_omitted := rs_errors_omitted res + 1\<rparr>
      else res\<lparr>rs_errors := rs_errors res @ [(i, e)]\<rparr>)"

definition replayed :: "replay_result \<Rightarrow> replay_result" where
  "replayed res = res\<lparr>rs_replayed := rs_replayed res + 1\<rparr>"

definition unmapped :: "replay_result \<Rightarrow> replay_result" where
  "unmapped res = res\<lparr>rs_still_unmapped := rs_still_unmapped res + 1\<rparr>"

text \<open>What the replayer is given beside its options: the decoders, time.Parse and
  the branch lookup.\<close>

record replay_env =
  rp_decode :: "json \<Rightarrow> gh_body"
  rp_catalog :: "json \<Rightarrow> catalog_event option"
  rp_time :: "string \<Rightarrow> int option"
  rp_lookup :: branch_lookup

definition replayCatalog ::
  "replay_env \<Rightarrow> int \<Rightarrow> bool \<Rightarrow> ingest_config \<Rightarrow> event \<Rightarrow> replay_result \<times> db \<Rightarrow> replay_result \<times> db" where
  "replayCatalog h now dry cfg ev = (\<lambda>(res, d).
     case Option.bind (rp_catalog h (ev_payload ev)) (catalogValid cfg) of
       None \<Rightarrow> (addErr (ev_id ev) (ParseError ''catalog payload'') res, d)
     | Some ce \<Rightarrow>
         if dry then (replayed res, d)
         else case applyThenMark (rp_time h) now cfg (ev_id ev) ce d of
           Inl e \<Rightarrow> (addErr (ev_id ev) e res, d)
         | Inr (out, d') \<Rightarrow> (if Routed out then replayed res else unmapped res, d'))"

definition replayGitHub ::
  "branch_config \<Rightarrow> replay_env \<Rightarrow> int \<Rightarrow> bool \<Rightarrow> event \<Rightarrow> replay_result \<times> db \<Rightarrow> replay_result \<times> db" where
  "replayGitHub cfg h now dry ev = (\<lambda>(res, d).
     let body = rp_decode h (ev_payload ev) in
     case gb_env body of
       None \<Rightarrow> (addErr (ev_id ev) (ParseError ''parse payload'') res, d)
     | Some env \<Rightarrow>
         if en_repo env = [] \<or> \<not> repoMapped d (en_repo env) then (unmapped res, d)
         else if dry then (replayed res, d)
         else case markApplied now (applyForType cfg (rp_lookup h) now (ev_type ev) env body) (ev_id ev) d of
           Inl e \<Rightarrow> (addErr (ev_id ev) e res, d)
         | Inr d' \<Rightarrow> (replayed res, d'))"

definition replayOne ::
  "branch_config \<Rightarrow> replay_env \<Rightarrow> int \<Rightarrow> bool \<Rightarrow> event \<Rightarrow> replay_result \<times> db \<Rightarrow> replay_result \<times> db" where
  "replayOne cfg h now dry ev =
     (case map_of ingestConfigs (ev_source ev) of
        Some ic \<Rightarrow> replayCatalog h now dry ic ev
      | None \<Rightarrow> replayGitHub cfg h now dry ev)"

definition replayLimit :: "replay_options \<Rightarrow> int" where
  "replayLimit opts = (if ro_limit opts \<le> 0 then defaultReplayBatch else ro_limit opts)"

definition Replay ::
  "branch_config \<Rightarrow> replay_env \<Rightarrow> int \<Rightarrow> replay_options \<Rightarrow> db \<Rightarrow> replay_result \<times> db" where
  "Replay cfg h now opts d =
     (let evs = UnappliedEvents d (ro_repo opts) (ro_since opts) (replayLimit opts) in
      fold (replayOne cfg h now (ro_dry_run opts)) evs
        (\<lparr> rs_dry_run = ro_dry_run opts, rs_candidates = length evs, rs_replayed = 0, rs_still_unmapped = 0,
           rs_truncated = (int (length evs) = replayLimit opts), rs_errors = [], rs_errors_omitted = 0 \<rparr>, d))"

end
