(* ===== verification/HookInv.thy ===== *)
theory HookInv
  imports Ingest DeliverySpec
begin

text \<open>
  What a delivery can touch. The tables of recorded facts are erased by
  \<open>sansFacts\<close>; a property that does not depend on them, that the task machine
  keeps and that survives an issue upsert, a payload merge and the applied mark
  is kept by every apply, every handler and the replayer: locale
  \<open>hook_inv\<close>. It extends \<open>resolve_inv\<close>, for what the resolver alone
  keeps, and that the machine's.
\<close>

section \<open>The recorded facts\<close>

definition sansFacts :: "db \<Rightarrow> db" where
  "sansFacts d = d\<lparr>task_commits := [], main_commits := [], next_main_id := 0, deploy_shas := [],
     env_deploys := [], release_frontiers := [], pull_requests := [], ci_runs := [], next_ci_id := 0,
     pr_reviews := [], approvals := [], next_approval_id := 0, artifacts := [], next_artifact_id := 0,
     deployments := [], runtime_events := [], next_runtime_id := 0, artifact_evidence := []\<rparr>"

abbreviation factsOnly :: "db \<Rightarrow> db \<Rightarrow> bool" where
  "factsOnly d d' \<equiv> sansFacts d' = sansFacts d"

named_theorems facts "an operation that writes recorded facts only"

lemma sansFacts_rest:
  assumes "factsOnly d d'"
  shows "tasks d' = tasks d" "task_edges d' = task_edges d" "leases d' = leases d" "tokens d' = tokens d"
    "agent_sessions d' = agent_sessions d" "next_lease_id d' = next_lease_id d" "events d' = events d"
    "next_event_id d' = next_event_id d" "projects d' = projects d" "project_repos d' = project_repos d"
    "actors d' = actors d" "github_issues d' = github_issues d" "docs d' = docs d" "doc_edges d' = doc_edges d"
    "decisions d' = decisions d" "wall d' = wall d" "deliverables d' = deliverables d"
    "artifact_declarations d' = artifact_declarations d" "milestones d' = milestones d"
    "entity_seq d' = entity_seq d" "reviews d' = reviews d" "state_log d' = state_log d"
  using arg_cong[OF assms, of tasks]
    arg_cong[OF assms, of task_edges]
    arg_cong[OF assms, of leases]
    arg_cong[OF assms, of tokens]
    arg_cong[OF assms, of agent_sessions]
    arg_cong[OF assms, of next_lease_id]
    arg_cong[OF assms, of events]
    arg_cong[OF assms, of next_event_id]
    arg_cong[OF assms, of projects]
    arg_cong[OF assms, of project_repos]
    arg_cong[OF assms, of actors]
    arg_cong[OF assms, of github_issues]
    arg_cong[OF assms, of docs]
    arg_cong[OF assms, of doc_edges]
    arg_cong[OF assms, of decisions]
    arg_cong[OF assms, of wall]
    arg_cong[OF assms, of deliverables]
    arg_cong[OF assms, of artifact_declarations]
    arg_cong[OF assms, of milestones]
    arg_cong[OF assms, of entity_seq]
    arg_cong[OF assms, of reviews]
    arg_cong[OF assms, of state_log]
  by (simp_all add: sansFacts_def)

lemma facts_basic [facts]:
  "InsertTaskCommit tc d = Inr d' \<Longrightarrow> factsOnly d d'"
  "factsOnly d (snd (AppendMainCommit repo sha now d))"
  "MapDeploySHA repo sha i d = Inr d' \<Longrightarrow> factsOnly d d'"
  "SetReleaseFrontier repo tag i at d = Inr d' \<Longrightarrow> factsOnly d d'"
  "UpsertPR cfg pr body d = Inr (x, d') \<Longrightarrow> factsOnly d d'"
  "factsOnly d (SetPRQueued repo n q d)"
  "factsOnly d (UpsertCIRun r d)"
  "UpsertReview v d = Inr d' \<Longrightarrow> factsOnly d d'"
  by (auto simp: sansFacts_def InsertTaskCommit_def AppendMainCommit_def MapDeploySHA_def Let_def
      SetReleaseFrontier_def UpsertPR_def SetPRQueued_def UpsertCIRun_def UpsertReview_def
      split: if_splits option.splits)

lemma facts_deploys [facts]:
  "bumpEnvDeploy now repo env col i seen d = Inr d' \<Longrightarrow> factsOnly d d'"
  "BumpEnvDeployGH now repo env i d = Inr d' \<Longrightarrow> factsOnly d d'"
  "BumpEnvDeployFlux now repo env i d = Inr (b, d') \<Longrightarrow> factsOnly d d'"
  by (auto simp: sansFacts_def BumpEnvDeployGH_def BumpEnvDeployFlux_def bumpEnvDeploy_def Let_def
      andThen_Inr_iff split: if_splits option.splits)

lemma facts_rollouts [facts]:
  "CreateArtifact a d = Inr (i, d') \<Longrightarrow> factsOnly d d'"
  "UpsertDeployment now p d = Inr d' \<Longrightarrow> factsOnly d d'"
  "InsertRuntimeEvent re d = Inr (i, d') \<Longrightarrow> factsOnly d d'"
  "InsertArtifactEvidence ae d = Inr (b, d') \<Longrightarrow> factsOnly d d'"
  by (auto simp: sansFacts_def CreateArtifact_def UpsertDeployment_def InsertRuntimeEvent_def
      InsertArtifactEvidence_def Let_def split: if_splits option.splits)

lemma facts_approvals [facts]:
  "insertApproval a d = Inr (b, d') \<Longrightarrow> factsOnly d d'"
  "InsertAwaitingApproval now k e r l ro ra c d = Inr (b, d') \<Longrightarrow> factsOnly d d'"
  "SetRequiredActor i actor d = Inr d' \<Longrightarrow> factsOnly d d'"
  "factsOnly d (ReopenApproval i d)"
  "factsOnly d (ResolveApproval i st ra at d)"
  "factsOnly d (updApproval i f d)"
  by (auto simp: sansFacts_def InsertAwaitingApproval_def insertApproval_def SetRequiredActor_def updApproval_def
      ReopenApproval_def ResolveApproval_def Let_def split: if_splits)

lemma facts_fold:
  assumes "\<And>x d d'. f x d = Inr d' \<Longrightarrow> factsOnly d d'" and "foldE f xs d = Inr d'"
  shows "factsOnly d d'"
  by (rule foldE_invariant[where P = "factsOnly d", OF _ refl assms(2)]) (use assms(1) in simp)

lemma impactOne_facts:
  assumes "impactOne now i r x s = Inr s'"
  shows "factsOnly (snd s) (snd s')"
proof -
  have "snd s' = snd s \<or> (\<exists>a b. insertApproval a (snd s) = Inr (b, snd s'))"
    using assms by (cases s; cases x) (auto simp: impactOne_def andThen_Inr_iff split: option.splits if_splits)
  then show ?thesis using facts_approvals(1) by (elim disjE exE) simp_all
qed

lemma facts_impact [facts]:
  assumes "impactFanOut now k i r d = Inr (n, d')"
  shows "factsOnly d d'"
proof -
  have "factsOnly d (snd (n, d'))"
  proof (rule foldE_invariant[where P = "\<lambda>s. factsOnly d (snd s)", OF _ _ assms[unfolded impactFanOut_def]])
    fix x s s' assume "factsOnly d (snd s)" "impactOne now i r x s = Inr s'"
    then show "factsOnly d (snd s')" using impactOne_facts by (simp only:)
  qed simp
  then show ?thesis by simp
qed

lemma facts_designate [facts]:
  assumes "DesignateRevision now k i r d = Inr (x, d')"
  shows "factsOnly d d'"
proof -
  define scope where "scope = filter (designated k i) (approvals d)"
  define open_row where "open_row = firstOf (newestFirst (filter (\<lambda>a. openState (ap_state a)) scope))"
  define decided where "decided = filter (\<lambda>a. ap_state a = ''approved'' \<or> ap_state a = ''rejected'') scope"
  define res where "res = OnNewRevision open_row (decided \<noteq> []) (\<exists>a\<in>set scope. ap_revision a = r)"
  note run = assms[unfolded DesignateRevision_def Let_def, folded scope_def, folded open_row_def decided_def,
      folded res_def]
  show ?thesis
  proof (cases res)
    case RevisionNoop
    then show ?thesis using run by simp
  next
    case RevisionRebind
    then obtain a :: approval and n where
      "impactFanOut now k i r (updApproval (ap_id a) (\<lambda>x. x\<lparr>ap_revision := r\<rparr>) d) = Inr (n, d')"
      using run by (auto simp: andThen_Inr_iff split: option.splits)
    then show ?thesis using facts_impact facts_approvals(6) by simp
  next
    case RevisionCandidate
    then obtain a :: approval and b d1 n where
      "InsertAwaitingApproval now k i r [] (ap_role a) (ap_required_actor a) None d = Inr (b, d1)"
      "impactFanOut now k i r d1 = Inr (n, d')"
      using run by (auto simp: andThen_Inr_iff split: option.splits)
    then show ?thesis using facts_impact facts_approvals(2) by simp
  qed
qed

lemma facts_pr_approvals [facts]:
  "openApproval now repo n sha ls d = Inr d' \<Longrightarrow> factsOnly d d'"
  "reopenApproval repo n l d = Inr d' \<Longrightarrow> factsOnly d d'"
  "resolveApprovalForReview repo n st l at d = Inr d' \<Longrightarrow> factsOnly d d'"
  using facts_approvals
  by (auto simp: openApproval_def reopenApproval_def resolveApprovalForReview_def Let_def andThen_Inr_iff
      split: sum.splits if_splits option.splits)

lemma facts_attribute [facts]:
  "attribute now repo sha src tid d = Inr d' \<Longrightarrow> factsOnly d d'"
  "foldE (attribute now repo sha src) ids d = Inr d' \<Longrightarrow> factsOnly d d'"
  "foldE (\<lambda>c. attribute now repo (f c) src tid) cs d = Inr d' \<Longrightarrow> factsOnly d d'"
  unfolding attribute_def by (rule facts_basic(1), assumption) (erule facts_fold[rotated], erule facts_basic(1))+

lemma facts_deployed [facts]: "foldE (mapDeployed repo) cs d = Inr d' \<Longrightarrow> factsOnly d d'"
  by (erule facts_fold[rotated]) (auto simp: mapDeployed_def dest: facts_basic(3) split: option.splits)

lemma if_SomeE: "(if c then x else y) = Some f \<Longrightarrow> (x = Some f \<Longrightarrow> R) \<Longrightarrow> (y = Some f \<Longrightarrow> R) \<Longrightarrow> R"
  by (simp split: if_splits)

lemma applyFunc_cases:
  assumes "applyFunc cfg now event env body r = Some f" "f i d = Inr d'"
  obtains "applyIssue (en_repo env) body d = Inr d'"
  | "applyPush cfg now i (en_repo env) (en_default_branch env) body d = Inr d'"
  | "applyPullRequest cfg now i (en_repo env) (en_action env) body d = Inr d'"
  | "applyDeploymentStatus now i (en_repo env) body d = Inr d'"
  | "applyReview now (en_repo env) body d = Inr d'"
  | "applyWorkflowRun cfg now i (en_repo env) body d = Inr d'"
  | "applyCheck cfg i (en_repo env) event body d = Inr d'"
  | "applyRelease now i (en_repo env) body r d = Inr d'"
  | "applyRegistryPackage now (en_repo env) body d = Inr d'"
  | "applyMergeGroup now i (en_repo env) (en_action env) body d = Inr d'"
proof -
  have leaf: R if "Some g = Some f" "g i d = Inr d' \<Longrightarrow> R" for g R
    using that assms(2) by simp
  have none: R if "None = Some f" for R using that by simp
  show thesis
    by (rule if_SomeE[OF assms(1)[unfolded applyFunc_def Let_def]], erule none,
        (erule none | (erule leaf, erule that) | erule if_SomeE)+)
qed

text \<open>A delivery that changed the database went through the log.\<close>

lemma githubServe_run:
  assumes "githubServe cfg lookup onSkill h now r d = (resp, d')" "d' \<noteq> d"
  shows "\<exists>res ty j app. RecordEventThenApply now ''github'' (hq_delivery r) ty j app d = (res, d') \<and>
    (app = None \<or> app = Some (markApplied now None) \<or>
     (\<exists>env body rs. app = Some (markApplied now (applyFunc cfg now (hq_event r) env body rs))))"
proof -
  obtain payload where p0: "admit h r = None" "hq_event r \<noteq> [] \<and> hq_delivery r \<noteq> []"
      "he_json h (hq_body r) = Some payload"
    using assms by (auto simp: githubServe_def split: option.splits if_splits)
  obtain env where "gb_env (he_decode h payload) = Some env"
    using assms p0 by (cases "gb_env (he_decode h payload)") (simp_all add: githubServe_def)
  note p = p0 this
  define skill where "skill = skillPush onSkill (hq_event r) env"
  define ign where "ign = (en_repo env \<noteq> [] \<and> \<not> repoMapped d (en_repo env))"
  define rs where "rs = (if hq_event r = ''release'' \<and> en_action env = ''published'' \<and> \<not> ign
     then resolveReleaseCommitish lookup (en_repo env) (he_decode h payload) else [])"
  define tyapp where "tyapp = (if skill then (''push.skills'', Some (markApplied now None))
     else if ign then (eventType (hq_event r) env @ ''.ignored'', None)
     else (eventType (hq_event r) env,
           Some (markApplied now (applyFunc cfg now (hq_event r) env (he_decode h payload) rs))))"
  obtain ty app where ta: "tyapp = (ty, app)" by (cases tyapp)
  define run where "run = RecordEventThenApply now ''github'' (hq_delivery r) ty payload app d"
  have "d' = snd run"
    using assms(1) p(2)
    unfolding githubServe_def p(1,3,4) option.case Let_def skill_def[symmetric] ign_def[symmetric]
      rs_def[symmetric] tyapp_def[symmetric] ta prod.case run_def[symmetric]
    by (cases run) (auto split: sum.splits if_splits)
  moreover have "app = None \<or> app = Some (markApplied now None) \<or>
     (\<exists>env body rs. app = Some (markApplied now (applyFunc cfg now (hq_event r) env body rs)))"
    using ta unfolding tyapp_def by (auto split: if_splits)
  ultimately show ?thesis unfolding run_def by (metis prod.collapse)
qed

section \<open>What resolving deliveries keeps\<close>

locale resolve_inv = machine_inv +
  assumes keep_merge: "P d \<Longrightarrow> P (updEvent i (mergeJson kvs) d)"
begin

definition ok :: "db \<Rightarrow> bool" where
  "ok d \<longleftrightarrow> P d \<and> hierarchyOk d \<and> distinct (map t_id (tasks d))"

lemma ok_merge: "ok d \<Longrightarrow> MergeEventPayload i kvs d = Inr d' \<Longrightarrow> ok d'"
  using keep_merge hierarchyOk_cong[of d' d] unfolding ok_def MergeEventPayload_def
  by (auto simp: updEvent_def split: if_splits)

lemma ok_machine:
  assumes "ok d" "taskRow d tid = Some t" "transitionKnown fuel now ev tid (t_state t) a b d = Inr d'"
  shows "ok d'"
proof -
  have "otherTables d d'" by (rule machine_frame.transitionKnown_keeps[OF _ assms(2,3)]) simp_all
  then show ?thesis
    using assms transitionKnown_keeps[OF _ assms(2,3)] hierarchyOk_cong[of d' d] unfolding ok_def by simp
qed

lemma ok_Transition: "ok d \<Longrightarrow> Transition now tid a b ev d = Inr d' \<Longrightarrow> ok d'"
  unfolding Transition_def TransitionFuel_def by (auto split: if_splits option.splits intro: ok_machine)

lemma ok_advance:
  assumes "(if c then advance now ev tid target (st, moved, d) else Inr (st, moved, d)) = Inr (st', moved', d')"
    and "ok d" "taskRow d tid = Some t" "t_state t = st"
  shows "ok d'"
  using assms ok_machine[OF assms(2,3)] by (auto simp: advance_def andThen_Inr_iff split: if_splits)

lemma ok_resolve:
  assumes "ok d" "ResolveDelivery now tid repo ev d = Inr (m, d')"
  shows "ok d'"
proof (cases "row (\<lambda>t. t_id t = tid \<and> live t) (tasks d)")
  case None
  then show ?thesis using assms resolve_skips[of tid d repo] by simp
next
  case (Some t)
  have sf: "sameFacts d d" using assms(1) by (simp add: sameFacts_def ok_def)
  have tr: "taskRow d tid = Some t" "live t" using liveRow(1,2)[OF _ Some] assms(1) unfolding ok_def by blast+
  show ?thesis
  proof (cases "hasChildren d tid \<or> LandedMainID d tid repo = None \<or> t_state t \<notin> set advanceableStates")
    case True
    then have "d' = d" using assms(2) Some
      by (cases "LandedMainID d tid repo") (auto simp: ResolveDelivery_def split: if_splits)
    then show ?thesis using assms(1) by simp
  next
    case False
    then obtain landed where l: "\<not> hasChildren d tid" "LandedMainID d tid repo = Some landed"
      "t_state t \<in> set advanceableStates" by auto
    obtain st1 m1 d1 st2 m2 d2 st3 where
      s1: "(if t_state t \<in> set [''ready'', ''in_progress'', ''in_review'']
        then advance now ev tid ''merged'' (t_state t, False, d) else Inr (t_state t, False, d)) = Inr (st1, m1, d1)"
      and s2: "(if st1 = ''merged'' \<and> covered landed (ConfirmedFrontier d1 repo ''dev'')
        then advance now ev tid ''deployed_dev'' (st1, m1, d1) else Inr (st1, m1, d1)) = Inr (st2, m2, d2)"
      and s3: "(if (if RepoDoneState d2 repo = ''released'' then covered landed (ReleaseFrontier d2 repo)
            else covered landed (ConfirmedFrontier d2 repo ''prod''))
        then advance now ev tid (if RepoDoneState d2 repo = ''released'' then ''released'' else ''deployed_prod'')
               (st2, m2, d2) else Inr (st2, m2, d2)) = Inr (st3, m, d')"
      using ResolveDelivery_InrE[OF assms(2) Some l] by blast
    note a1 = maybe_advance[OF s1 sf tr(1) refl tr(2)]
    have o1: "ok d1" by (rule ok_advance[OF s1 assms(1) tr(1) refl])
    obtain t1 where t1: "taskRow d1 tid = Some t1" "t_state t1 = st1" "live t1" using a1 by blast
    have f1: "sameFacts d d1" using a1 by blast
    note a2 = maybe_advance[OF s2 f1 t1]
    have o2: "ok d2" by (rule ok_advance[OF s2 o1 t1(1,2)])
    obtain t2 where t2: "taskRow d2 tid = Some t2" "t_state t2 = st2" using a2 by blast
    show ?thesis by (rule ok_advance[OF s3 o2 t2])
  qed
qed

lemma ok_resolveAll:
  assumes "ok d" "resolveAll now repo ids ev d = Inr d'"
  shows "ok d'"
proof -
  obtain moved d1 where f: "foldE (resolveOne now repo ev) ids ([], d) = Inr (moved, d1)"
    and n: "nameMoved ev moved d1 = Inr d'"
    using assms(2) unfolding resolveAll_def andThen_Inr_iff by auto
  have "ok (snd s')" if "ok (snd s)" "resolveOne now repo ev tid s = Inr s'" for tid s s'
    using that ok_resolve by (cases s) (auto simp: resolveOne_def andThen_Inr_iff)
  then have "ok (snd (moved, d1))"
    by (intro foldE_invariant[where P = "\<lambda>s. ok (snd s)", OF _ _ f]) (use assms(1) in auto)
  then show ?thesis using n ok_merge by (auto simp: nameMoved_def split: if_splits)
qed

lemma ok_below: "ok d \<Longrightarrow> resolveTasksBelow now repo f ev d = Inr d' \<Longrightarrow> ok d'"
  unfolding resolveTasksBelow_def by (rule ok_resolveAll)

lemma ok_frontier: "ok d \<Longrightarrow> resolveFrontier now repo env ev d = Inr d' \<Longrightarrow> ok d'"
  by (auto simp: resolveFrontier_def split: option.splits intro: ok_below[rotated])

end

section \<open>What every apply keeps\<close>

locale hook_inv = resolve_inv +
  assumes keep_facts: "P d \<Longrightarrow> factsOnly d d' \<Longrightarrow> P d'"
    and keep_mark: "P d \<Longrightarrow> P (MarkEventApplied i at d)"
    and keep_record: "P d \<Longrightarrow> P (appendEvent src x ty j at d)"
    and keep_burn: "P d \<Longrightarrow> P (burnId d)"
    and keep_issue: "P d \<Longrightarrow> UpsertIssue g d = Inr d' \<Longrightarrow> P d'"
begin

lemma ok_facts: "ok d \<Longrightarrow> factsOnly d d' \<Longrightarrow> ok d'"
  using keep_facts hierarchyOk_cong[of d' d] sansFacts_rest(1,2)[of d' d] unfolding ok_def by metis

lemma ok_mark: "ok d \<Longrightarrow> ok (MarkEventApplied i at d)"
  using keep_mark hierarchyOk_cong[of "MarkEventApplied i at d" d] unfolding ok_def
  by (simp add: MarkEventApplied_def)

lemma ok_issue: "ok d \<Longrightarrow> UpsertIssue g d = Inr d' \<Longrightarrow> ok d'"
proof -
  assume o: "ok d" and u: "UpsertIssue g d = Inr d'"
  have "tasks d' = tasks d" "task_edges d' = task_edges d"
    using u by (auto simp: UpsertIssue_def Let_def split: if_splits option.splits)
  then show "ok d'" using o keep_issue[OF _ u] hierarchyOk_cong[of d' d] unfolding ok_def by simp
qed

lemmas ok_writes = facts_basic(1,3,4,5,8)[THEN ok_facts[rotated]] facts_deploys[THEN ok_facts[rotated]]
  facts_rollouts[THEN ok_facts[rotated]] facts_approvals(2)[THEN ok_facts[rotated]]
  facts_designate[THEN ok_facts[rotated]] facts_pr_approvals[THEN ok_facts[rotated]]
  facts_attribute[THEN ok_facts[rotated]] facts_deployed[THEN ok_facts[rotated]]

lemmas ok_total = facts_basic(2,6,7)[THEN ok_facts[rotated]]

lemma ok_mainPush:
  assumes "ok d" "applyMainPush cfg now ev repo p d = Inr d'"
  shows "ok d'"
proof -
  obtain affected d1 where f: "foldE (mainCommit cfg now repo) (pu_commits p) ([], d) = Inr (affected, d1)"
    and r: "resolveAll now repo (sortStable strCompare (remdups affected)) ev d1 = Inr d'"
    using assms(2) unfolding applyMainPush_def andThen_Inr_iff by auto
  have "ok (snd s')" if "ok (snd s)" "mainCommit cfg now repo c s = Inr s'" for c s s'
    using that
    by (cases s) (auto simp: mainCommit_def Let_def andThen_Inr_iff split: prod.splits intro: ok_writes ok_total)
  then have "ok (snd (affected, d1))"
    by (intro foldE_invariant[where P = "\<lambda>s. ok (snd s)", OF _ _ f]) (use assms(1) in auto)
  then show ?thesis using r ok_resolveAll by simp
qed

lemma ok_push: "ok d \<Longrightarrow> applyPush cfg now ev repo db body d = Inr d' \<Longrightarrow> ok d'"
  by (auto simp: applyPush_def decoded_def Let_def split: option.splits if_splits intro: ok_mainPush[rotated] ok_writes)

lemma ok_deployment: "ok d \<Longrightarrow> applyDeploymentStatus now ev repo body d = Inr d' \<Longrightarrow> ok d'"
  by (auto simp: applyDeploymentStatus_def decoded_def Let_def andThen_Inr_iff split: option.splits if_splits intro: ok_frontier[rotated] ok_writes)

lemma ok_issues: "ok d \<Longrightarrow> applyIssue repo body d = Inr d' \<Longrightarrow> ok d'"
  by (auto simp: applyIssue_def decoded_def split: option.splits intro: ok_issue[rotated])

lemma ok_ready: "ok d \<Longrightarrow> reviewReady now ev tid d = Inr d' \<Longrightarrow> ok d'"
  by (auto simp: reviewReady_def andThen_Inr_iff split: if_splits intro: ok_Transition[rotated])

lemma ok_merged:
  assumes "ok d" "andThen (foldE (\<lambda>sha. attribute now repo sha src tid) shas d) (\<lambda>d4.
              andThen (ResolveDelivery now tid repo ev d4) (\<lambda>(_, d5). Inr d5)) = Inr d'"
  shows "ok d'"
  using assms by (auto simp: andThen_Inr_iff intro: ok_writes ok_resolve[rotated])

lemma ok_pull_request:
  assumes "ok d" "applyPullRequest cfg now ev repo action body d = Inr d'"
  shows "ok d'"
proof -
  obtain gh where gh: "gb_pr body = Some gh"
    using assms(2) by (cases "gb_pr body") (simp_all add: applyPullRequest_def decoded_def)
  obtain pr b d1 where u: "UpsertPR cfg (prRow now repo gh) (pp_body gh) d = Inr ((pr, b), d1)"
    using assms(2) gh by (auto simp: applyPullRequest_def decoded_def andThen_Inr_iff)
  define d2 where "d2 = (if action = ''closed'' then SetPRQueued repo (pp_number gh) None d1 else d1)"
  have "ok d1" by (rule facts_basic(5)[OF u, THEN ok_facts[OF assms(1)]])
  then have o2: "ok d2" using ok_total(2) unfolding d2_def by simp
  note run = assms(2)[unfolded applyPullRequest_def decoded_def gh option.case u andThen_simps prod.case Let_def,
      folded d2_def]
  show ?thesis
  proof (cases "gp_task pr")
    case None
    then show ?thesis using run o2 by simp
  next
    case (Some tid)
    then obtain d3 where m: "MergeEventPayload ev [(''task'', JStr tid)] d2 = Inr d3"
      using run by (auto simp: andThen_Inr_iff)
    have o3: "ok d3" by (rule ok_merge[OF o2 m])
    note run = run[unfolded Some option.case m andThen_simps]
    show ?thesis
      using run o3
      by (auto simp: andThen_Inr_iff split: if_splits intro: ok_writes ok_ready[rotated] ok_resolve[rotated])
  qed
qed

lemma ok_merge_group: "ok d \<Longrightarrow> applyMergeGroup now ev repo action body d = Inr d' \<Longrightarrow> ok d'"
  by (auto simp: applyMergeGroup_def decoded_def Let_def split: option.splits if_splits intro: ok_total ok_merge[rotated])

lemma ok_review: "ok d \<Longrightarrow> applyReview now repo body d = Inr d' \<Longrightarrow> ok d'"
  by (auto simp: applyReview_def decoded_def Let_def andThen_Inr_iff split: option.splits intro: ok_writes)

lemma ok_nameCI: "ok d \<Longrightarrow> nameCITasks cfg ev repo branch sha prs d = Inr d' \<Longrightarrow> ok d'"
  by (auto simp: nameCITasks_def Let_def split: prod.splits list.splits intro: ok_merge[rotated])

lemma ok_workflow: "ok d \<Longrightarrow> applyWorkflowRun cfg now ev repo body d = Inr d' \<Longrightarrow> ok d'"
  by (auto simp: applyWorkflowRun_def decoded_def split: option.splits intro: ok_nameCI[rotated] ok_total)

lemma ok_check: "ok d \<Longrightarrow> applyCheck cfg ev repo event body d = Inr d' \<Longrightarrow> ok d'"
  by (auto simp: applyCheck_def decoded_def Let_def split: option.splits intro: ok_nameCI[rotated])

lemma ok_release:
  assumes "ok d" "applyRelease now ev repo body r d = Inr d'"
  shows "ok d'"
proof -
  obtain p where p: "gb_release body = Some p"
    using assms(2) by (cases "gb_release body") (simp_all add: applyRelease_def decoded_def)
  define f where "f = releaseFrontier d repo (if r = [] then rl_commitish p else r)"
  note run = assms(2)[unfolded applyRelease_def decoded_def p option.case Let_def, folded f_def]
  obtain i d1 where c: "CreateArtifact \<lparr> af_id = 0, af_kind = ''git_tag'', af_name = repo, af_version = rl_tag p,
      af_digest = None, af_repo = repo, af_source_sha = releaseSHA d r (rl_commitish p) f,
      af_built_at = rl_published_at p \<rparr> d = Inr (i, d1)"
    using run by (auto simp: andThen_Inr_iff)
  have o1: "ok d1" by (rule facts_rollouts(1)[OF c, THEN ok_facts[OF assms(1)]])
  show ?thesis
  proof (cases f)
    case None
    then show ?thesis using run c o1 by simp
  next
    case (Some y)
    then obtain d2 where s: "SetReleaseFrontier repo (rl_tag p) y (orNow now (rl_published_at p)) d1 = Inr d2"
      and b: "resolveTasksBelow now repo y ev d2 = Inr d'"
      using run c by (auto simp: andThen_Inr_iff)
    have "ok d2" by (rule facts_basic(4)[OF s, THEN ok_facts[OF o1]])
    then show ?thesis using b by (rule ok_below)
  qed
qed

lemma ok_package:
  assumes "ok d" "applyRegistryPackage now repo body d = Inr d'"
  shows "ok d'"
proof -
  obtain p where p: "gb_package body = Some p"
    using assms(2) by (cases "gb_package body") (simp_all add: applyRegistryPackage_def decoded_def)
  note run = assms(2)[unfolded applyRegistryPackage_def decoded_def p option.case]
  have "d' = d \<or> (\<exists>a i. CreateArtifact a d = Inr (i, d'))"
  proof (cases "\<not> containerType (pk_type p) \<or> pk_tag p = []")
    case True
    then show ?thesis using run by (auto split: if_splits)
  next
    case False
    then show ?thesis using run by (simp only: de_Morgan_disj not_not if_False simp_thms) (auto simp: andThen_Inr_iff)
  qed
  then show ?thesis using assms(1) facts_rollouts(1) ok_facts by blast
qed

lemma ok_applyFunc:
  assumes "applyFunc cfg now event env body r = Some f" "ok d" "f i d = Inr d'"
  shows "ok d'"
  using assms(1,3)
  by (rule applyFunc_cases)
    (erule ok_issues[OF assms(2)] ok_push[OF assms(2)] ok_pull_request[OF assms(2)] ok_deployment[OF assms(2)]
      ok_review[OF assms(2)] ok_workflow[OF assms(2)] ok_check[OF assms(2)] ok_release[OF assms(2)]
      ok_package[OF assms(2)] ok_merge_group[OF assms(2)])+

lemma ok_marked:
  assumes "\<And>f d d'. inner = Some f \<Longrightarrow> ok d \<Longrightarrow> f i d = Inr d' \<Longrightarrow> ok d'"
    and "ok d" "markApplied now inner i d = Inr d'"
  shows "ok d'"
  using assms ok_mark by (cases inner) (auto simp: markApplied_def andThen_Inr_iff)

lemma ok_record: "ok d \<Longrightarrow> ok (appendEvent src x ty j at d)"
  using keep_record hierarchyOk_cong[of "appendEvent src x ty j at d" d] unfolding ok_def
  by (simp add: appendEvent_def)

lemma ok_burn: "ok d \<Longrightarrow> ok (burnId d)"
  using keep_burn hierarchyOk_cong[of "burnId d" d] unfolding ok_def by (simp add: burnId_def)

lemma ok_RecordEvent:
  assumes "ok d" "\<And>i d v d'. ok d \<Longrightarrow> app i d = Inr (v, d') \<Longrightarrow> ok d'"
    and "RecordEvent now src ext ty j app d = (res, d')"
  shows "ok d'"
  using assms(1,3) ok_burn ok_record assms(2)[OF ok_record]
  by (auto simp: RecordEvent_def split: if_splits option.splits sum.splits)

lemma ok_RecordEventThenApply:
  assumes "ok d" "\<And>f i d d'. app = Some f \<Longrightarrow> ok d \<Longrightarrow> f i d = Inr d' \<Longrightarrow> ok d'"
    and "RecordEventThenApply now src ext ty j app d = (res, d')"
  shows "ok d'"
proof (cases app)
  case None
  then show ?thesis using assms(1,3) ok_burn ok_record
    by (auto simp: RecordEventThenApply_def Let_def split: if_splits option.splits)
next
  case (Some f)
  have o: "ok (burnId d)" "ok (appendEvent src ext ty j now d)" using assms(1) ok_burn ok_record by auto
  show ?thesis using assms(3) o assms(2)[OF Some]
    by (auto simp: RecordEventThenApply_def Let_def Some split: if_splits option.splits sum.splits)
qed

lemma ok_githubServe:
  assumes "ok d" "githubServe cfg lookup onSkill h now r d = (resp, d')"
  shows "ok d'"
proof (cases "d' = d")
  case True
  then show ?thesis using assms(1) by simp
next
  case False
  then obtain res ty j app where run: "RecordEventThenApply now ''github'' (hq_delivery r) ty j app d = (res, d')"
    and app: "app = None \<or> app = Some (markApplied now None) \<or>
      (\<exists>env body rs. app = Some (markApplied now (applyFunc cfg now (hq_event r) env body rs)))"
    using githubServe_run[OF assms(2)] by metis
  show ?thesis
  proof (rule ok_RecordEventThenApply[OF assms(1) _ run])
    fix f i e e' assume f: "app = Some f" and e: "ok e" "f i e = Inr e'"
    show "ok e'"
    proof (cases "app = Some (markApplied now None)")
      case True
      then show ?thesis using f e ok_marked[of None i e now e'] by simp
    next
      case False
      then obtain env body rs where "f = markApplied now (applyFunc cfg now (hq_event r) env body rs)"
        using app f by auto
      then show ?thesis using e ok_marked[of "applyFunc cfg now (hq_event r) env body rs"] ok_applyFunc by blast
    qed
  qed
qed

lemma ok_confirm:
  assumes "confirmFluxDelivery now env sha art ev d = Inr d'" "ok d"
  shows "ok d'"
proof -
  have "d' = d \<or> (\<exists>repo i b d1. BumpEnvDeployFlux now repo env i d = Inr (b, d1) \<and>
      resolveFrontier now repo env ev d1 = Inr d')"
    using assms(1)
    by (auto simp: confirmFluxDelivery_def Let_def andThen_Inr_iff split: option.splits if_splits)
  then show ?thesis using assms(2) facts_deploys(3) ok_facts ok_frontier by metis
qed

lemma ok_flux_status: "setFluxStatus now env a ev st d = Inr d' \<Longrightarrow> ok d \<Longrightarrow> ok d'"
  unfolding setFluxStatus_def by (rule ok_writes)

lemma ok_flux_runtime: "fluxRuntimeEvent pt now a ev k d = Inr d' \<Longrightarrow> ok d \<Longrightarrow> ok d'"
  by (auto simp: fluxRuntimeEvent_def andThen_Inr_iff intro: ok_writes)

lemma ok_flux: "ok d \<Longrightarrow> fluxApply pt ce now i ev d = Inr d' \<Longrightarrow> ok d'"
  unfolding fluxApply_def Let_def
  by (auto simp: andThen_Inr_iff split: if_splits) (meson ok_flux_status ok_confirm ok_flux_runtime)+

lemma ok_fluxServe:
  assumes "ok d" "fluxServe pt ce h now r d = (resp, d')"
  shows "ok d'"
proof (cases "\<exists>res ext ty j ev. RecordEvent now ''flux'' ext ty j (fluxRun pt ce now ev) d = (res, d')")
  case True
  then obtain res ext ty j ev where r: "RecordEvent now ''flux'' ext ty j (fluxRun pt ce now ev) d = (res, d')"
    by blast
  show ?thesis
    by (rule ok_RecordEvent[OF assms(1) _ r]) (auto simp: fluxRun_def andThen_Inr_iff split: if_splits intro: ok_flux)
next
  case False
  then have "d' = d"
    using assms(2) by (auto simp: fluxServe_def Let_def split: option.splits if_splits prod.splits sum.splits)
  then show ?thesis using assms(1) by simp
qed

lemma ok_catalog:
  assumes "ok d" "catalogApply pt now cfg i ev d = Inr (res, d')"
  shows "ok d'"
proof -
  obtain detail at where run: "foldE (fileKey (ic_source cfg) i at detail ev) (routingKeys ev)
      (\<lparr>cr_state = ce_state ev, cr_targets = [], cr_written = []\<rparr>, d) = Inr (res, d')"
    using assms(2) by (auto simp: catalogApply_def Let_def andThen_Inr_iff)
  have target: "ok (snd s')" if "ok (snd s)" "fileTarget src i at detail ev key t s = Inr s'" for src key t s s'
    using that by (cases s) (auto simp: fileTarget_def andThen_Inr_iff intro: ok_writes)
  have key: "ok (snd s')" if "ok (snd s)" "fileKey src i at detail ev k s = Inr s'" for src k s s'
  proof -
    obtain sel kk where k: "k = (sel, kk)" by (cases k)
    obtain res0 d0 where s: "s = (res0, d0)" by (cases s)
    show ?thesis
      by (rule foldE_invariant[where P = "\<lambda>s. ok (snd s)", OF _ _ that(2)[unfolded fileKey_def k s prod.case Let_def]])
        (use target that(1) s in auto)
  qed
  have "ok (snd (res, d'))"
    by (rule foldE_invariant[where P = "\<lambda>s. ok (snd s)", OF _ _ run]) (use key assms(1) in auto)
  then show ?thesis by simp
qed

lemma ok_catalogMark: "ok d \<Longrightarrow> applyThenMark pt now cfg i ev d = Inr (res, d') \<Longrightarrow> ok d'"
  using ok_mark by (auto simp: applyThenMark_def andThen_Inr_iff dest: ok_catalog)

lemma ok_ingestServe:
  assumes "ok d" "ingestServe pt cfg h now r d = (resp, d')"
  shows "ok d'"
proof (cases "\<exists>res src ext ty j ev. RecordEvent now src ext ty j (\<lambda>i. applyThenMark pt now cfg i ev) d = (res, d')")
  case True
  then obtain res src ext ty j ev where
    r: "RecordEvent now src ext ty j (\<lambda>i. applyThenMark pt now cfg i ev) d = (res, d')" by blast
  show ?thesis by (rule ok_RecordEvent[OF assms(1) _ r]) (rule ok_catalogMark)
next
  case False
  then have "d' = d"
    using assms(2) by (auto simp: ingestServe_def Let_def split: option.splits if_splits prod.splits sum.splits)
  then show ?thesis using assms(1) by simp
qed

lemma ok_applyForType:
  assumes "applyForType cfg lookup now ty env body = Some f" "ok d" "f i d = Inr d'"
  shows "ok d'"
proof -
  obtain event rs where "applyFunc cfg now event env body rs = Some f"
    using assms(1) by (auto simp: applyForType_def Let_def split: if_splits)
  then show ?thesis using assms(2,3) by (rule ok_applyFunc)
qed

lemma ok_replayOne:
  assumes "ok (snd s)"
  shows "ok (snd (replayOne cfg h now dry ev s))"
proof (cases "map_of ingestConfigs (ev_source ev)")
  case None
  have "ok d'" if "markApplied now (applyForType cfg l now ty env body) i (snd s) = Inr d'" for l ty env body i d'
    using ok_marked[OF _ assms that] ok_applyForType by blast
  then show ?thesis using None assms
    by (cases s) (auto simp: replayOne_def replayGitHub_def Let_def split: option.splits if_splits sum.splits)
next
  case (Some ic)
  show ?thesis using Some assms ok_catalogMark
    by (cases s) (auto simp: replayOne_def replayCatalog_def Let_def split: option.splits if_splits sum.splits)
qed

lemma ok_Replay:
  assumes "ok d" "Replay cfg h now opts d = (res, d')"
  shows "ok d'"
proof -
  have "ok (snd (fold (replayOne cfg h now dry) evs s))" if "ok (snd s)" for dry evs s
    using that by (induction evs arbitrary: s) (simp_all add: ok_replayOne)
  then have "ok (snd (Replay cfg h now opts d))" using assms(1) by (simp add: Replay_def Let_def)
  then show ?thesis by (simp add: assms(2))
qed

end

end
