(* ===== verification/HookSamples.thy ===== *)
theory HookSamples
  imports Ingest Samples
begin

text \<open>
  Small concrete deliveries the witnesses evaluate on: handlers with a constant
  decoder, a repository \<open>r\<close> mapped to the sample project, and the payloads of
  a pull request, an artifact state and a Flux reconciliation. Nothing here
  models code.
\<close>

definition sampleHook :: "'p \<Rightarrow> 'p hook_env" where
  "sampleHook p = \<lparr> he_secret = ''k'', he_mac = (\<lambda>_ _. []), he_sha256 = (\<lambda>s. s),
     he_json = (\<lambda>_. Some JNull), he_decode = (\<lambda>_. p) \<rparr>"

definition sampleRequest :: "string \<Rightarrow> string \<Rightarrow> hook_request" where
  "sampleRequest event delivery =
     \<lparr> hq_body = ''{}'', hq_signature = ''sha256='', hq_event = event, hq_delivery = delivery \<rparr>"

text \<open>Evaluated here once: the size bound is a large number.\<close>

lemma admit_sample: "admit (sampleHook p) (sampleRequest event delivery) = None"
  by (simp add: admit_def sampleHook_def sampleRequest_def maxHookBody_def validSignature_def)

definition plainBranches :: branch_config where
  "plainBranches = \<lparr> bc_text = [], bc_tmpl = (\<lambda>_. None), bc_pattern = [] \<rparr>"

definition sampleEnvelope :: "string \<Rightarrow> envelope" where
  "sampleEnvelope action = \<lparr> en_ref = [], en_action = action, en_repo = ''r'', en_default_branch = ''main'' \<rparr>"

definition samplePull :: pr_payload where
  "samplePull = \<lparr> pp_number = 7, pp_title = ''P'', pp_state = ''open'', pp_merged = False, pp_body = [],
     pp_url = [], pp_created_at = None, pp_updated_at = None, pp_merged_at = None, pp_merge_sha = None,
     pp_head_ref = ''b'', pp_head_sha = ''s'', pp_user = [], pp_reviewers = [], pp_requested = [] \<rparr>"

definition samplePullBody :: "string \<Rightarrow> gh_body" where
  "samplePullBody action = \<lparr> gb_env = Some (sampleEnvelope action), gb_issue = None, gb_push = None,
     gb_pr = Some samplePull, gb_deployment = None, gb_review = None, gb_run = None, gb_check = None,
     gb_release = None, gb_package = None, gb_merge_group = None \<rparr>"

text \<open>Pull request 7 of an in-progress task, which may have a child.\<close>

definition pullDb :: "edge list \<Rightarrow> db" where
  "pullDb es = (sampleDb [sampleTask ''WL-1'' ''feature'' ''in_progress'', sampleTask ''WL-2'' ''feature'' ''ready''] es)
     \<lparr>pull_requests := [samplePR 7 ''WL-1'' ''open'']\<rparr>"

definition sampleCatalog :: "string \<Rightarrow> catalog_event" where
  "sampleCatalog address = \<lparr> ce_event = [], ce_artifact = address, ce_labels = [], ce_state = ''published'',
     ce_version = [], ce_url = [], ce_occurred_at = [], ce_detail = None, ce_published_by = ''ada'',
     ce_approved_by = ''bob'' \<rparr>"

definition sampleEvent :: "int \<Rightarrow> string \<Rightarrow> json \<Rightarrow> event" where
  "sampleEvent i src j = \<lparr> ev_id = i, ev_source = src, ev_external_id = intStr i, ev_type = src,
     ev_payload = j, ev_received_at = 0, ev_applied_at = None, ev_txid = 0 \<rparr>"

text \<open>A payload that is its address.\<close>

definition sampleReplayer :: replay_env where
  "sampleReplayer = \<lparr> rp_decode = (\<lambda>_. samplePullBody []),
     rp_catalog = (\<lambda>j. case j of JStr s \<Rightarrow> Some (sampleCatalog s) | _ \<Rightarrow> None),
     rp_time = (\<lambda>_. None), rp_lookup = None \<rparr>"

definition replayUpTo :: "int \<Rightarrow> replay_options" where
  "replayUpTo n = \<lparr> ro_repo = [], ro_since = None, ro_dry_run = False, ro_limit = n \<rparr>"

text \<open>Two stored catalog deliveries: nothing declares the address of the first,
  task WL-2 that of the second.\<close>

definition backlogDb :: db where
  "backlogDb = (sampleDb [sampleTask ''WL-2'' ''feature'' ''ready''] [])
     \<lparr>events := [sampleEvent 1 ''catalog'' (JStr ''x''), sampleEvent 2 ''catalog'' (JStr ''y'')],
      next_event_id := 3,
      artifact_declarations := [\<lparr>ad_kind = ''task'', ad_entity = ''WL-2'', ad_selector = ''address'',
        ad_uri = ''y'', ad_created_at = 0\<rparr>]\<rparr>"

definition sampleFlux :: "string \<Rightarrow> string \<Rightarrow> flux_event" where
  "sampleFlux severity reason = \<lparr> fx_kind = ''Kustomization'', fx_namespace = ''n'', fx_name = ''app'',
     fx_severity = severity, fx_timestamp = [], fx_message = [], fx_reason = reason, fx_metadata = [] \<rparr>"

end
