(* ===== verification/HookSpec.thy ===== *)
theory HookSpec
  imports HookInv HookSamples
begin

text \<open>
  What the webhook endpoints promise together: whatever is delivered, in any
  order and however often, tasks move along legal edges only and leases, edges
  and credentials stay as they are; a delivery once answered is a duplicate ever
  after; a triaged issue keeps its answer; and what a Flux event leaves behind.
\<close>

section \<open>Deliveries as steps\<close>

text \<open>One request to one of the endpoints, or one run of the replayer.\<close>

inductive delivery :: "db \<Rightarrow> db \<Rightarrow> bool" where
  GitHub: "githubServe cfg lookup onSkill h now r d = (resp, d') \<Longrightarrow> delivery d d'"
| Flux: "fluxServe pt ce hf now r d = (resp, d') \<Longrightarrow> delivery d d'"
| Catalog: "ingestServe pt ic hc now r d = (resp, d') \<Longrightarrow> delivery d d'"
| Replayer: "Replay cfg hr now opts d = (res, d') \<Longrightarrow> delivery d d'"

inductive_cases deliveryE: "delivery d d'"

context hook_inv
begin

lemma delivery_keeps: "delivery d d' \<Longrightarrow> ok d \<Longrightarrow> ok d'"
  by (erule deliveryE) (blast intro: ok_githubServe ok_fluxServe ok_ingestServe ok_Replay)+

lemma deliveries_keep: "delivery\<^sup>*\<^sup>* d d' \<Longrightarrow> ok d \<Longrightarrow> ok d'"
  by (induction rule: rtranclp_induct) (auto intro: delivery_keeps)

end

lemma UpsertIssue_rest: "UpsertIssue g d = Inr d' \<Longrightarrow> d' = d\<lparr>github_issues := github_issues d'\<rparr>"
  by (auto simp: UpsertIssue_def Let_def split: if_splits option.splits)

section \<open>The store\<close>

text \<open>What no delivery changes besides the states of tasks.\<close>

definition storeKept :: "db \<Rightarrow> db \<Rightarrow> bool" where
  "storeKept d0 d \<longleftrightarrow> movedLegally d0 d \<and> map t_id (tasks d) = map t_id (tasks d0) \<and>
     task_edges d = task_edges d0 \<and> leases d = leases d0 \<and> next_lease_id d = next_lease_id d0 \<and>
     tokens d = tokens d0 \<and> agent_sessions d = agent_sessions d0 \<and> projects d = projects d0 \<and>
     project_repos d = project_repos d0 \<and> actors d = actors d0"

lemma storeKept_refl: "storeKept d d"
  by (simp add: storeKept_def movedLegally_refl)

lemma storeKept_cong:
  assumes "storeKept d0 d" "tasks d' = tasks d" "task_edges d' = task_edges d" "leases d' = leases d"
    "next_lease_id d' = next_lease_id d" "tokens d' = tokens d" "agent_sessions d' = agent_sessions d"
    "projects d' = projects d" "project_repos d' = project_repos d" "actors d' = actors d"
  shows "storeKept d0 d'"
  using assms movedLegally_tasks[OF assms(2), of d0] by (simp add: storeKept_def)

interpretation hook_store: hook_inv "storeKept d0" for d0
proof unfold_locales
  fix d tid t st now d'
  assume k: "storeKept d0 d" and t: "taskRow d tid = Some t" "legal (t_state t) st"
    "containerForbiddenStates st \<Longrightarrow> \<not> hasChildren d tid" and s: "setState now tid st d = Inr d'"
  have "movedLegally d0 d'"
    using machine_legal.keep_state[OF _ t s] k by (simp add: storeKept_def)
  moreover have "otherTables d d'" by (rule machine_frame.keep_state[OF _ t s]) simp_all
  ultimately show "storeKept d0 d'" using k by (simp add: storeKept_def)
next
  fix d d' assume "storeKept d0 d" "factsOnly d d'"
  then show "storeKept d0 d'" by (intro storeKept_cong[of d0 d d'] sansFacts_rest)
next
  fix d g d' assume k: "storeKept d0 d" and u: "UpsertIssue g d = Inr d'"
  show "storeKept d0 d'" by (subst UpsertIssue_rest[OF u], rule storeKept_cong[OF k]) simp_all
qed (erule storeKept_cong; simp add: LogChange_def closeReviewRow_def appendEvent_def setDocStatus_def
      updEvent_def MarkEventApplied_def burnId_def)+

section \<open>The log\<close>

text \<open>A recorded delivery stays recorded under its id, and an applied one stays
  applied.\<close>

definition logKept :: "db \<Rightarrow> db \<Rightarrow> bool" where
  "logKept d0 d \<longleftrightarrow> (\<forall>s x e. eventRecorded d0 s x = Some e \<longrightarrow>
     (\<exists>e'. eventRecorded d s x = Some e' \<and> ev_id e' = ev_id e \<and> (ev_applied_at e \<noteq> None \<longrightarrow> ev_applied_at e' \<noteq> None)))"

lemma logKept_refl: "logKept d d"
  by (auto simp: logKept_def)

lemma logKept_trans: "logKept a b \<Longrightarrow> logKept b c \<Longrightarrow> logKept a c"
  unfolding logKept_def by metis

lemma logKept_events: "logKept d0 d \<Longrightarrow> events d' = events d \<Longrightarrow> logKept d0 d'"
  by (simp add: logKept_def eventRecorded_def)

lemma eventRecorded_upd:
  assumes "\<And>e. ev_source (f e) = ev_source e" "\<And>e. ev_external_id (f e) = ev_external_id e"
  shows "eventRecorded (d\<lparr>events := updWhere p f (events d)\<rparr>) s x =
     map_option (\<lambda>e. if p e then f e else e) (eventRecorded d s x)"
  using assms by (simp add: eventRecorded_def row_updWhere_same)

lemma eventRecorded_more:
  "eventRecorded d s x = Some e \<Longrightarrow> eventRecorded (appendEvent src ext ty j at d) s x = Some e"
  by (simp add: eventRecorded_def appendEvent_def row_append)

lemma logKept_burn: "logKept d (burnId d)"
  by (rule logKept_events[OF logKept_refl]) (simp add: burnId_def)

lemma logKept_append: "logKept d0 d \<Longrightarrow> logKept d0 (appendEvent src x ty j at d)"
  by (erule logKept_trans) (auto simp: logKept_def intro!: eventRecorded_more)

interpretation hook_log: hook_inv "logKept d0" for d0
proof unfold_locales
  fix d tid t st now d'
  assume k: "logKept d0 d" and s: "setState now tid st d = Inr d'"
  have "events d' = events d" using s by (auto simp: setState_def putTask_def split: if_splits option.splits)
  then show "logKept d0 d'" by (rule logKept_events[OF k])
next
  fix d d' assume k: "logKept d0 d" and f: "factsOnly d d'"
  show "logKept d0 d'" by (rule logKept_events[OF k]) (rule sansFacts_rest(7)[OF f])
next
  fix d g d' assume k: "logKept d0 d" and u: "UpsertIssue g d = Inr d'"
  show "logKept d0 d'" by (subst UpsertIssue_rest[OF u], rule logKept_events[OF k]) simp
next
  fix d i kvs assume k: "logKept d0 d"
  have "logKept d (updEvent i (mergeJson kvs) d)"
    by (auto simp: logKept_def updEvent_def eventRecorded_upd)
  then show "logKept d0 (updEvent i (mergeJson kvs) d)" by (rule logKept_trans[OF k])
next
  fix d i at assume k: "logKept d0 d"
  have "logKept d (MarkEventApplied i at d)"
    by (auto simp: logKept_def MarkEventApplied_def eventRecorded_upd)
  then show "logKept d0 (MarkEventApplied i at d)" by (rule logKept_trans[OF k])
qed (erule logKept_append | (erule logKept_events; simp add: LogChange_def closeReviewRow_def setDocStatus_def burnId_def))+

section \<open>Sample deliveries\<close>

lemma pullDb_ok: "hierarchyOk (pullDb [])" "distinct (map t_id (tasks (pullDb [])))"
  by (simp_all add: pullDb_def hierarchyOk_def edgeRel_def)

text \<open>The delivery of pull request 7 of WL-1, which GitHub then sends again.\<close>

definition servePull :: "edge list \<Rightarrow> response \<times> db" where
  "servePull es = githubServe plainBranches None None (sampleHook (samplePullBody ''opened'')) 5
     (sampleRequest ''pull_request'' ''g'') (pullDb es)"

lemma servePull_run:
  "fst (servePull []) = (200, ''ok'')" "stateOf (snd (servePull [])) ''WL-1'' = Some ''in_review''"
  unfolding servePull_def githubServe_def admit_sample option.case by code_simp+

text \<open>With a child under WL-1 the delivery fails, and leaves the event unapplied.\<close>

lemma servePull_parent:
  "fst (servePull [sampleEdge ''WL-2'' ''WL-1'' ''childOf'']) = (500, ''internal error'')"
  "map ev_applied_at (events (snd (servePull [sampleEdge ''WL-2'' ''WL-1'' ''childOf'']))) = [None]"
  unfolding servePull_def githubServe_def admit_sample option.case by code_simp+

section \<open>Answered deliveries\<close>

lemma githubServe_ok:
  assumes "githubServe cfg lookup onSkill h now r d = ((200, ''ok''), d')"
  shows "\<exists>i ty j inner. RecordEventThenApply now ''github'' (hq_delivery r) ty j (Some (markApplied now inner)) d =
      (Inr (i, True, None), d') \<and>
    (inner = None \<or> (\<exists>env body rs. inner = applyFunc cfg now (hq_event r) env body rs))"
proof -
  obtain payload where p0: "admit h r = None" "hq_event r \<noteq> [] \<and> hq_delivery r \<noteq> []"
      "he_json h (hq_body r) = Some payload"
    using assms by (auto simp: githubServe_def admit_def split: option.splits if_splits)
  obtain env where "gb_env (he_decode h payload) = Some env"
    using assms p0 by (cases "gb_env (he_decode h payload)") (simp_all add: githubServe_def)
  note p = p0 this
  define skill where "skill = skillPush onSkill (hq_event r) env"
  define ign where "ign = (en_repo env \<noteq> [] \<and> \<not> repoMapped d (en_repo env))"
  define rs where "rs = (if hq_event r = ''release'' \<and> en_action env = ''published'' \<and> \<not> ign
     then resolveReleaseCommitish lookup (en_repo env) (he_decode h payload) else [])"
  define inner where "inner = applyFunc cfg now (hq_event r) env (he_decode h payload) rs"
  define tyapp where "tyapp = (if skill then (''push.skills'', Some (markApplied now None))
     else if ign then (eventType (hq_event r) env @ ''.ignored'', None)
     else (eventType (hq_event r) env, Some (markApplied now inner)))"
  obtain ty app where ta: "tyapp = (ty, app)" by (cases tyapp)
  obtain res d2 where run: "RecordEventThenApply now ''github'' (hq_delivery r) ty payload app d = (res, d2)"
    by fastforce
  have a: "(case res of Inl _ \<Rightarrow> ((500, ''internal error''), d2)
      | Inr (_, inserted, failure) \<Rightarrow>
          if failure \<noteq> None then ((500, ''internal error''), d2)
          else if \<not> inserted then ((200, ''duplicate''), d2)
          else if ign \<and> \<not> skill then ((200, ''ignored''), d2)
          else ((200, ''ok''), d2)) = ((200::nat, ''ok''), d')"
    using assms p(2)
    unfolding githubServe_def p(1,3,4) option.case Let_def skill_def[symmetric] ign_def[symmetric]
      rs_def[symmetric] inner_def[symmetric] tyapp_def[symmetric] ta prod.case run
    by (cases res) auto
  then obtain i where i: "res = Inr (i, True, None)" "d2 = d'" "\<not> (ign \<and> \<not> skill)"
    by (auto split: sum.splits if_splits)
  have "app = Some (markApplied now (if skill then None else inner))"
    using ta i(3) by (auto simp: tyapp_def split: if_splits)
  moreover have "(if skill then None else inner) = None \<or>
      (\<exists>env body rs. (if skill then None else inner) = applyFunc cfg now (hq_event r) env body rs)"
    using inner_def by auto
  ultimately show ?thesis using run unfolding i(1,2) by blast
qed

lemma githubServe_applied:
  assumes "githubServe cfg lookup onSkill h now r d = ((200, ''ok''), d')"
    and "hierarchyOk d" "distinct (map t_id (tasks d))"
  shows "\<exists>e. eventRecorded d' ''github'' (hq_delivery r) = Some e \<and> ev_applied_at e = Some now"
proof -
  obtain i ty j inner where
    run: "RecordEventThenApply now ''github'' (hq_delivery r) ty j (Some (markApplied now inner)) d = (Inr (i, True, None), d')"
    and inner: "inner = None \<or> (\<exists>env body rs. inner = applyFunc cfg now (hq_event r) env body rs)"
    using githubServe_ok[OF assms(1)] by blast
  define d1 where "d1 = appendEvent ''github'' (hq_delivery r) ty j now d"
  have n: "eventRecorded d ''github'' (hq_delivery r) = None" "i = next_event_id d"
    and m: "markApplied now inner i d1 = Inr d'"
    using run by (auto simp: RecordEventThenApply_def Let_def d1_def split: if_splits option.splits sum.splits)
  obtain d2 where d2: "d' = MarkEventApplied i now d2" "(case inner of None \<Rightarrow> Inr d1 | Some f \<Rightarrow> f i d1) = Inr d2"
    using m by (auto simp: markApplied_def andThen_Inr_iff)
  have "hook_log.ok d1 d1"
    using assms(2,3) hierarchyOk_cong[of d1 d] by (simp add: hook_log.ok_def logKept_refl d1_def appendEvent_def)
  then have "logKept d1 d2"
  proof (cases inner)
    case None
    then show ?thesis using d2(2) by (simp add: logKept_refl)
  next
    case (Some f)
    then obtain env body rs where "applyFunc cfg now (hq_event r) env body rs = Some f" "f i d1 = Inr d2"
      using d2(2) inner by auto
    then show ?thesis using hook_log.ok_applyFunc \<open>hook_log.ok d1 d1\<close> hook_log.ok_def by blast
  qed
  moreover obtain e1 where "eventRecorded d1 ''github'' (hq_delivery r) = Some e1" "ev_id e1 = i"
    using n by (simp add: d1_def)
  ultimately obtain e2 where "eventRecorded d2 ''github'' (hq_delivery r) = Some e2" "ev_id e2 = i"
    unfolding logKept_def by metis
  then show ?thesis unfolding d2(1) MarkEventApplied_def by (simp add: eventRecorded_upd)
qed

lemma githubServe_duplicate:
  assumes "githubServe cfg lookup onSkill h now r d = ((200, ''ok''), d')"
    and "eventRecorded c ''github'' (hq_delivery r) = Some e" "ev_applied_at e \<noteq> None"
  shows "githubServe cfg lookup' onSkill h now' r c = ((200, ''duplicate''), burnId c)"
proof -
  obtain payload where p0: "admit h r = None" "hq_event r \<noteq> [] \<and> hq_delivery r \<noteq> []"
      "he_json h (hq_body r) = Some payload"
    using assms(1) by (auto simp: githubServe_def admit_def split: option.splits if_splits)
  obtain env where env: "gb_env (he_decode h payload) = Some env"
    using assms(1) p0 by (cases "gb_env (he_decode h payload)") (simp_all add: githubServe_def)
  have "RecordEventThenApply now' ''github'' (hq_delivery r) ty payload app c = (Inr (ev_id e, False, None), burnId c)"
    for ty app
    using assms(2,3) by (simp add: RecordEventThenApply_def eventSources_def Let_def)
  then show ?thesis using p0(2)
    by (simp add: githubServe_def p0(1,3) env Let_def split: prod.split)
qed

text \<open>C15: A GitHub delivery answered ok has been applied and stays so: whatever
  deliveries and replays follow, sending it again is answered as a duplicate and
  changes nothing but the id sequence.\<close>

theorem redelivery_is_noop:
  assumes "githubServe cfg lookup onSkill h now r d = ((200, ''ok''), d')"
    and "hierarchyOk d" "distinct (map t_id (tasks d))"
    and "delivery\<^sup>*\<^sup>* d' c"
  shows "githubServe cfg lookup' onSkill h now' r c = ((200, ''duplicate''), burnId c)"
proof -
  obtain e where e: "eventRecorded d' ''github'' (hq_delivery r) = Some e" "ev_applied_at e = Some now"
    using githubServe_applied[OF assms(1-3)] by blast
  have "hook_store.ok d d" using assms(2,3) by (simp add: hook_store.ok_def storeKept_refl)
  then have "hook_store.ok d d'" using assms(1) by (rule hook_store.ok_githubServe)
  then have "hook_log.ok d' d'" by (simp add: hook_store.ok_def hook_log.ok_def logKept_refl)
  from hook_log.deliveries_keep[OF assms(4) this] have "logKept d' c" by (simp add: hook_log.ok_def)
  then obtain e' where "eventRecorded c ''github'' (hq_delivery r) = Some e'" "ev_applied_at e' \<noteq> None"
    using e unfolding logKept_def by fastforce
  then show ?thesis by (rule githubServe_duplicate[OF assms(1)])
qed

theorem redelivery_is_noop_witness:
  "\<exists>d' c. servePull [] = ((200, ''ok''), d') \<and> delivery d' c \<and>
     githubServe plainBranches None None (sampleHook (samplePullBody ''opened'')) 8
       (sampleRequest ''pull_request'' ''g'') c = ((200, ''duplicate''), burnId c)"
proof -
  obtain d' where s: "servePull [] = ((200, ''ok''), d')" using servePull_run(1) by (cases "servePull []") auto
  obtain res c where "Replay plainBranches sampleReplayer 6 (replayUpTo 1) d' = (res, c)" by fastforce
  then have d: "delivery d' c" by (rule delivery.Replayer)
  then have "delivery\<^sup>*\<^sup>* d' c" by blast
  from redelivery_is_noop[OF s[unfolded servePull_def] pullDb_ok this] s d show ?thesis by blast
qed

text \<open>C14: Whatever is delivered, in any order and however often, and however
  often it is replayed: tasks keep their identity and move along legal edges
  only, and edges, leases, tokens, sessions, projects and actors stay as they
  are.\<close>

theorem deliveries_keep_store:
  assumes "delivery\<^sup>*\<^sup>* d d'" "hierarchyOk d" "distinct (map t_id (tasks d))"
  shows "storeKept d d'"
proof -
  have "hook_store.ok d d" using assms(2,3) by (simp add: hook_store.ok_def storeKept_refl)
  from hook_store.deliveries_keep[OF assms(1) this] show ?thesis by (simp add: hook_store.ok_def)
qed

theorem deliveries_keep_store_witness:
  "\<exists>d'. delivery\<^sup>*\<^sup>* (pullDb []) d' \<and> stateOf d' ''WL-1'' = Some ''in_review'' \<and> storeKept (pullDb []) d'"
proof -
  obtain d' where s: "servePull [] = ((200, ''ok''), d')" using servePull_run(1) by (cases "servePull []") auto
  have d: "delivery\<^sup>*\<^sup>* (pullDb []) d'" using delivery.GitHub[OF s[unfolded servePull_def]] by blast
  from deliveries_keep_store[OF d pullDb_ok] d servePull_run(2) s show ?thesis by auto
qed

section \<open>Pull requests of a task with children\<close>

lemma parent_pull_refused:
  assumes "gb_pr body = Some gh" "action = ''opened'' \<or> action = ''ready_for_review''"
    and "UpsertPR cfg (prRow now repo gh) (pp_body gh) d = Inr ((pr, b), d1)" "gp_task pr = Some tid"
    and "taskRow d tid = Some t" "t_state t = ''in_progress''" "hasChildren d tid"
    and "\<exists>e\<in>set (events d). ev_id e = i"
  shows "applyPullRequest cfg now i repo action body d = Inl ErrBadTransition"
proof -
  have f: "factsOnly d d1" using assms(3) by (rule facts_basic(5))
  obtain d3 where m: "MergeEventPayload i [(''task'', JStr tid)] d1 = Inr d3"
    using assms(8) sansFacts_rest(7)[OF f] by (simp add: MergeEventPayload_def)
  then have k: "tasks d3 = tasks d" "task_edges d3 = task_edges d"
    using sansFacts_rest(1,2)[OF f] by (auto simp: MergeEventPayload_def updEvent_def split: if_splits)
  then have t: "taskRow d3 tid = Some t" "hasChildren d3 tid"
    using assms(5,7) by (simp_all add: taskRow_def hasChildren_def)
  have "Transition now tid ''in_progress'' ''in_review'' i d3 = Inl ErrBadTransition"
    using t assms(6)
    by (simp add: Transition_def TransitionFuel_def climbFuel_def transitionKnown.simps(2) checkTransition_def
        containerForbiddenStates_def)
  then have "reviewReady now i tid d3 = Inl ErrBadTransition"
    using t(1) assms(6) by (simp add: reviewReady_def TaskState_def)
  then show ?thesis
    using assms(1-4) m by (auto simp: applyPullRequest_def decoded_def Let_def)
qed

text \<open>C37: A pull request opened (or made ready) for an in-progress task that has
  children fails its delivery, although its move to review is to be left out where
  the task does not allow it. GitHub is answered 500; the event is recorded and
  stays unapplied; and that row is all that is left: the pull request's own row,
  the approval and everything else are rolled back, the database is the one before
  with the event appended.\<close>

theorem parent_pull_fails:
  assumes "admit h r = None" "hq_event r = ''pull_request''" "hq_delivery r \<noteq> []"
    and "he_json h (hq_body r) = Some payload" "gb_env (he_decode h payload) = Some env"
    and "en_action env = ''opened'' \<or> en_action env = ''ready_for_review''" "repoMapped d (en_repo env)"
    and "gb_pr (he_decode h payload) = Some gh" "eventRecorded d ''github'' (hq_delivery r) = None"
    and "d1 = appendEvent ''github'' (hq_delivery r) (eventType ''pull_request'' env) payload now d"
    and "UpsertPR cfg (prRow now (en_repo env) gh) (pp_body gh) d1 = Inr ((pr, b), d2)" "gp_task pr = Some tid"
    and "taskRow d tid = Some t" "t_state t = ''in_progress''" "hasChildren d tid"
  shows "githubServe cfg lookup onSkill h now r d = ((500, ''internal error''), d1) \<and>
    pull_requests d1 = pull_requests d \<and> tasks d1 = tasks d \<and> approvals d1 = approvals d \<and>
    (\<exists>e. eventRecorded d1 ''github'' (hq_delivery r) = Some e \<and> ev_applied_at e = None)"
proof -
  have "taskRow d1 tid = Some t" "hasChildren d1 tid" "\<exists>e\<in>set (events d1). ev_id e = next_event_id d"
    using assms(13,15) by (simp_all add: assms(10) taskRow_def hasChildren_def appendEvent_def)
  from parent_pull_refused[OF assms(8,6,11,12) this(1) assms(14) this(2,3)]
  have apply_fails: "applyPullRequest cfg now (next_event_id d) (en_repo env) (en_action env) (he_decode h payload) d1 =
      Inl ErrBadTransition" .
  let ?app = "applyFunc cfg now ''pull_request'' env (he_decode h payload) []"
  have "markApplied now ?app (next_event_id d) d1 = Inl ErrBadTransition"
    using apply_fails by (simp add: markApplied_def applyFunc_def handledEvents_def)
  then have "RecordEventThenApply now ''github'' (hq_delivery r) (eventType ''pull_request'' env) payload
      (Some (markApplied now ?app)) d = (Inr (next_event_id d, True, Some ErrBadTransition), d1)"
    using assms(9) by (simp add: RecordEventThenApply_def eventSources_def assms(10)[symmetric])
  then have "githubServe cfg lookup onSkill h now r d = ((500, ''internal error''), d1)"
    using assms(1-5,7) by (simp add: githubServe_def skillPush_def)
  moreover have "eventRecorded d1 ''github'' (hq_delivery r) \<noteq> None \<and>
      (\<forall>e. eventRecorded d1 ''github'' (hq_delivery r) = Some e \<longrightarrow> ev_applied_at e = None)"
    unfolding assms(10) eventRecorded_append using assms(9) by simp
  ultimately show ?thesis by (auto simp: assms(10) appendEvent_def)
qed

theorem parent_pull_fails_witness:
  "\<exists>d. servePull [sampleEdge ''WL-2'' ''WL-1'' ''childOf''] = ((500, ''internal error''), d) \<and>
     hasChildren d ''WL-1'' \<and> pull_requests d = [samplePR 7 ''WL-1'' ''open''] \<and> map ev_applied_at (events d) = [None]"
proof -
  let ?d = "pullDb [sampleEdge ''WL-2'' ''WL-1'' ''childOf'']" and ?h = "sampleHook (samplePullBody ''opened'')"
    and ?r = "sampleRequest ''pull_request'' ''g''"
  obtain env where env: "gb_env (samplePullBody ''opened'') = Some env" "en_action env = ''opened''"
    "en_repo env = ''r''"
    by (simp add: samplePullBody_def sampleEnvelope_def)
  define d1 where "d1 = appendEvent ''github'' ''g'' (eventType ''pull_request'' env) JNull 5 ?d"
  have h: "hq_event ?r = ''pull_request''" "hq_delivery ?r = ''g''" "he_json ?h (hq_body ?r) = Some JNull"
    "he_decode ?h JNull = samplePullBody ''opened''"
    by (simp_all add: sampleRequest_def sampleHook_def)
  have d: "repoMapped ?d ''r''" "eventRecorded ?d ''github'' ''g'' = None"
    "taskRow ?d ''WL-1'' = Some (sampleTask ''WL-1'' ''feature'' ''in_progress'')" "hasChildren ?d ''WL-1''"
    "events ?d = []"
    by code_simp+
  have p: "pull_requests ?d = [samplePR 7 ''WL-1'' ''open'']" by (simp add: pullDb_def)
  let ?up = "UpsertPR plainBranches (prRow 5 ''r'' samplePull) (pp_body samplePull) d1"
  have "\<not> isl ?up" "gp_task (fst (fst (projr ?up))) = Some ''WL-1''"
    unfolding d1_def by code_simp+
  then obtain pr b d2 where u: "?up = Inr ((pr, b), d2)" "gp_task pr = Some ''WL-1''"
    by (cases ?up) auto
  have gh: "gb_pr (samplePullBody ''opened'') = Some samplePull" by (simp add: samplePullBody_def)
  have "servePull [sampleEdge ''WL-2'' ''WL-1'' ''childOf''] = ((500, ''internal error''), d1) \<and>
      pull_requests d1 = pull_requests ?d"
    using parent_pull_fails[of ?h ?r JNull env ?d samplePull d1 5 plainBranches pr b d2 "''WL-1''" _ None None]
      admit_sample[of "samplePullBody ''opened''" "''pull_request''" "''g''"] h env d(1-4) u gh
    by (simp add: servePull_def d1_def[symmetric] sampleTask_def)
  moreover have "hasChildren d1 ''WL-1''" "map ev_applied_at (events d1) = [None]"
    using d(4,5) by (simp_all add: d1_def appendEvent_def hasChildren_def)
  ultimately show ?thesis using p by auto
qed

section \<open>Flux events\<close>

text \<open>Resolving deliveries leaves the rollout tables alone.\<close>

interpretation rollout_frame:
  resolve_inv "\<lambda>d. deployments d = deployments d0 \<and> runtime_events d = runtime_events d0" for d0 :: db
proof unfold_locales
  fix d tid t st now d'
  assume k: "deployments d = deployments d0 \<and> runtime_events d = runtime_events d0"
    and s: "setState now tid st d = Inr d'"
  show "deployments d' = deployments d0 \<and> runtime_events d' = runtime_events d0"
    using s k by (auto simp: setState_def putTask_def updTask_def split: if_splits option.splits)
qed (simp_all add: LogChange_def closeReviewRow_def appendEvent_def setDocStatus_def updEvent_def)

lemma confirmFluxDelivery_frame:
  assumes "confirmFluxDelivery now env sha art ev d = Inr d'" "hierarchyOk d" "distinct (map t_id (tasks d))"
  shows "deployments d' = deployments d" "runtime_events d' = runtime_events d"
proof -
  have "d' = d \<or> (\<exists>repo i b d1. BumpEnvDeployFlux now repo env i d = Inr (b, d1) \<and>
      resolveFrontier now repo env ev d1 = Inr d')"
    using assms(1)
    by (auto simp: confirmFluxDelivery_def Let_def andThen_Inr_iff split: option.splits if_splits)
  then have "deployments d' = deployments d \<and> runtime_events d' = runtime_events d"
  proof (elim disjE exE conjE)
    fix repo i b d1
    assume b: "BumpEnvDeployFlux now repo env i d = Inr (b, d1)" and r: "resolveFrontier now repo env ev d1 = Inr d'"
    have "deployments d1 = deployments d" "runtime_events d1 = runtime_events d" "tasks d1 = tasks d"
      "task_edges d1 = task_edges d"
      using b by (auto simp: BumpEnvDeployFlux_def bumpEnvDeploy_def Let_def andThen_Inr_iff split: if_splits option.splits)
    then have "rollout_frame.ok d d1"
      using assms(2,3) hierarchyOk_cong[of d1 d] by (simp add: rollout_frame.ok_def)
    from rollout_frame.ok_frontier[OF this r] show ?thesis by (simp add: rollout_frame.ok_def)
  qed simp
  then show "deployments d' = deployments d" "runtime_events d' = runtime_events d" by simp_all
qed

lemma UpsertDeployment_status:
  assumes "UpsertDeployment now p d = Inr d'"
  shows "DeploymentStatus d' env kind name =
      (if env = dp_environment p \<and> kind = dp_target_kind p \<and> name = dp_target_name p then dp_status p
       else DeploymentStatus d env kind name)"
    "runtime_events d' = runtime_events d" "tasks d' = tasks d" "task_edges d' = task_edges d"
proof -
  define key where "key = deployKey (dp_environment p) (dp_target_kind p) (dp_target_name p)"
  define f where "f = (\<lambda>q :: deployment. q\<lparr>dp_status := dp_status p,
      dp_artifact := (if dp_artifact p \<noteq> None then dp_artifact p else dp_artifact q), dp_last_update := now\<rparr>)"
  define new where "new = p\<lparr>dp_first_seen := now, dp_last_update := now\<rparr>"
  have d': "d' = d\<lparr>deployments := (if row key (deployments d) = None then deployments d @ [new]
      else updWhere key f (deployments d))\<rparr>"
    using assms unfolding UpsertDeployment_def Let_def key_def f_def new_def by (auto split: if_splits option.splits)
  then show "runtime_events d' = runtime_events d" "tasks d' = tasks d" "task_edges d' = task_edges d" by simp_all
  have f: "deployKey e k n (f q) = deployKey e k n q" "dp_status (f q) = dp_status p" for e k n q
    by (simp_all add: f_def deployKey_def)
  have same: "row (deployKey env kind name) (updWhere key f xs) =
      map_option (\<lambda>q. if key q then f q else q) (row (deployKey env kind name) xs)" for xs
    by (rule row_updWhere_same) (simp add: f)
  have new: "deployKey env kind name new = key' " "dp_status new = dp_status p"
    if "key' = (env = dp_environment p \<and> kind = dp_target_kind p \<and> name = dp_target_name p)" for key'
    using that by (auto simp: new_def deployKey_def)
  show "DeploymentStatus d' env kind name =
      (if env = dp_environment p \<and> kind = dp_target_kind p \<and> name = dp_target_name p then dp_status p
       else DeploymentStatus d env kind name)"
  proof (cases "env = dp_environment p \<and> kind = dp_target_kind p \<and> name = dp_target_name p")
    case True
    then have k: "deployKey env kind name = key" by (simp add: key_def)
    have "key new" using new(1)[OF refl] True unfolding k by simp
    then have "DeploymentStatus d' env kind name = dp_status p"
      using new(2)[OF refl] same[unfolded k] row_SomeD[of key "deployments d"]
      by (cases "row key (deployments d)") (auto simp: DeploymentStatus_def d' k row_append f)
    then show ?thesis using True by simp
  next
    case False
    then have "\<not> key q" if "row (deployKey env kind name) (deployments d) = Some q" for q
      using row_SomeD[OF that] by (auto simp: key_def deployKey_def)
    then show ?thesis
      using False new[OF refl] same
      by (cases "row (deployKey env kind name) (deployments d)") (auto simp: DeploymentStatus_def d' row_append)
  qed
qed

lemma fluxRuntimeEvent_row:
  assumes "fluxRuntimeEvent pt now a ev kind d = Inr d'"
  shows "deployments d' = deployments d" "\<exists>re. runtime_events d' = runtime_events d @ [re] \<and> re_kind re = kind \<and>
      re_workload re = fluxTarget ev \<and> re_artifact re = a"
  using assms by (auto simp: fluxRuntimeEvent_def InsertRuntimeEvent_def Let_def andThen_Inr_iff split: if_splits)

definition fluxStatus :: "flux_event \<Rightarrow> string" where
  "fluxStatus ev = (if fluxFailed ev then ''failed''
     else if fx_reason ev = ''ReconciliationSucceeded'' then ''deployed'' else ''reconciling'')"

text \<open>The runtime events an event leaves: a failure is always one, a success
  only after a failure.\<close>

definition fluxObserved :: "flux_event \<Rightarrow> string \<Rightarrow> string list" where
  "fluxObserved ev prior = (if fluxStatus ev = ''failed'' then [''flux_failure'']
     else if fluxStatus ev = ''deployed'' \<and> prior = ''failed'' then [''flux_recovery''] else [])"

text \<open>C18: A Flux event that applies leaves its target in the status it reports
  and no other deployment's status changed, and adds one runtime event for the
  target when it reports a failure or the recovery from one, none otherwise.\<close>

theorem flux_outcome:
  assumes "fluxApply pt ce now i ev d = Inr d'" "hierarchyOk d" "distinct (map t_id (tasks d))"
  shows "DeploymentStatus d' e k n =
      (if e = resolveEnvironment (metadataOf ev ''cluster'') ce \<and> k = fluxTargetKind \<and> n = fluxTarget ev
       then fluxStatus ev else DeploymentStatus d e k n) \<and>
    (\<exists>res. runtime_events d' = runtime_events d @ res \<and>
       map re_kind res = fluxObserved ev
         (DeploymentStatus d (resolveEnvironment (metadataOf ev ''cluster'') ce) fluxTargetKind (fluxTarget ev)) \<and>
       (\<forall>re\<in>set res. re_workload re = fluxTarget ev \<and> re_artifact re = fluxArtifactID d ev))"
proof -
  let ?env = "resolveEnvironment (metadataOf ev ''cluster'') ce"
  let ?prior = "DeploymentStatus d ?env fluxTargetKind (fluxTarget ev)"
  obtain d1 where st: "setFluxStatus now ?env (fluxArtifactID d ev) ev (fluxStatus ev) d = Inr d1"
    using assms(1) by (auto simp: fluxApply_def fluxStatus_def Let_def andThen_Inr_iff split: if_splits)
  note s = UpsertDeployment_status[OF st[unfolded setFluxStatus_def], simplified]
  have "deployments d' = deployments d1 \<and> (\<exists>res. runtime_events d' = runtime_events d @ res \<and>
      map re_kind res = fluxObserved ev ?prior \<and>
      (\<forall>re\<in>set res. re_workload re = fluxTarget ev \<and> re_artifact re = fluxArtifactID d ev))"
  proof (cases "fluxFailed ev")
    case True
    then have "fluxRuntimeEvent pt now (fluxArtifactID d ev) ev ''flux_failure'' d1 = Inr d'"
      using assms(1) st by (simp add: fluxApply_def Let_def fluxStatus_def)
    from fluxRuntimeEvent_row[OF this] s(2) True show ?thesis by (auto simp: fluxObserved_def fluxStatus_def)
  next
    case False
    show ?thesis
    proof (cases "fx_reason ev = ''ReconciliationSucceeded''")
      case True
      obtain d2 where c: "confirmFluxDelivery now ?env (fst (parseRevision (metadataOf ev ''revision''))) (fluxArtifact d ev) i d1 = Inr d2"
        and r: "(if ?prior \<noteq> ''failed'' then Inr d2
          else fluxRuntimeEvent pt now (fluxArtifactID d ev) ev ''flux_recovery'' d2) = Inr d'"
        using assms(1) st False True by (auto simp: fluxApply_def Let_def fluxStatus_def andThen_Inr_iff)
      have "hierarchyOk d1" "distinct (map t_id (tasks d1))"
        using assms(2,3) s(3,4) hierarchyOk_cong[of d1 d] by simp_all
      note fr = confirmFluxDelivery_frame[OF c this]
      show ?thesis
      proof (cases "?prior = ''failed''")
        case p: True
        then have "fluxRuntimeEvent pt now (fluxArtifactID d ev) ev ''flux_recovery'' d2 = Inr d'" using r by simp
        from fluxRuntimeEvent_row[OF this] s(2) fr p False True show ?thesis
          by (auto simp: fluxObserved_def fluxStatus_def)
      next
        case p: False
        then show ?thesis using r fr s(2) False True by (simp add: fluxObserved_def fluxStatus_def)
      qed
    next
      case r: False
      then show ?thesis using assms(1) st s(2) False by (simp add: fluxApply_def Let_def fluxObserved_def fluxStatus_def)
    qed
  qed
  moreover have "DeploymentStatus d' e k n = DeploymentStatus d1 e k n" if "deployments d' = deployments d1"
    using that by (simp add: DeploymentStatus_def)
  ultimately show ?thesis using s(1) by simp
qed


theorem flux_outcome_witness:
  "\<exists>d1 d2. fluxApply (\<lambda>_. None) [] 5 1 (sampleFlux ''error'' ''HealthCheckFailed'') emptyDb = Inr d1 \<and>
     fluxApply (\<lambda>_. None) [] 6 2 (sampleFlux ''info'' ''ReconciliationSucceeded'') d1 = Inr d2 \<and>
     DeploymentStatus d2 ''dev'' fluxTargetKind ''n/app'' = ''deployed'' \<and>
     map re_kind (runtime_events d2) = [''flux_failure'', ''flux_recovery'']"
proof -
  let ?bad = "sampleFlux ''error'' ''HealthCheckFailed''" and ?good = "sampleFlux ''info'' ''ReconciliationSucceeded''"
  let ?r1 = "fluxApply (\<lambda>_. None) [] 5 1 ?bad emptyDb"
  let ?r2 = "fluxApply (\<lambda>_. None) [] 6 2 ?good (projr ?r1)"
  have "\<not> isl ?r1" "\<not> isl ?r2" by code_simp+
  then obtain d1 d2 where r1: "?r1 = Inr d1" and r2: "fluxApply (\<lambda>_. None) [] 6 2 ?good d1 = Inr d2"
    by (cases ?r1; cases ?r2) auto
  have e: "hierarchyOk emptyDb" "distinct (map t_id (tasks emptyDb))"
    by (simp_all add: emptyDb_def hierarchyOk_def edgeRel_def)
  have "tasks (projr ?r1) = []" "task_edges (projr ?r1) = []" by code_simp+
  then have o1: "hierarchyOk d1" "distinct (map t_id (tasks d1))"
    using r1 by (simp_all add: hierarchyOk_def edgeRel_def)
  have k: "resolveEnvironment (metadataOf ?bad ''cluster'') [] = ''dev''" "fluxTarget ?bad = ''n/app''"
    "resolveEnvironment (metadataOf ?good ''cluster'') [] = ''dev''" "fluxTarget ?good = ''n/app''"
    "fluxStatus ?bad = ''failed''" "fluxStatus ?good = ''deployed''"
    "runtime_events emptyDb = []" by code_simp+
  note f1 = flux_outcome[OF r1 e, unfolded k fluxObserved_def]
  note f2 = flux_outcome[OF r2 o1, unfolded k fluxObserved_def]
  have "DeploymentStatus d1 ''dev'' fluxTargetKind ''n/app'' = ''failed''" using f1 by simp
  then have "map re_kind (runtime_events d2) = [''flux_failure'', ''flux_recovery'']"
    "DeploymentStatus d2 ''dev'' fluxTargetKind ''n/app'' = ''deployed''"
    using f1 f2[of "''dev''" fluxTargetKind "''n/app''"] by auto
  then show ?thesis using r1 r2 by (intro exI conjI)
qed

end
