(* ===== verification/ReplaySpec.thy ===== *)
theory ReplaySpec
  imports HookSamples
begin

text \<open>
  What the replayer and the artifact-evidence applier promise: a run accounts
  for every event it read within its bounds, a delivery is filed with exactly
  the open declarations of its keys, and only a routed one is marked applied.
  Two theorems record stored deliveries that are never filed.
\<close>

section \<open>What a run counts\<close>

definition accounted :: "replay_result \<Rightarrow> nat" where
  "accounted res = rs_replayed res + rs_still_unmapped res + length (rs_errors res) + rs_errors_omitted res"

definition boundedErrors :: "replay_result \<Rightarrow> bool" where
  "boundedErrors res \<longleftrightarrow> length (rs_errors res) \<le> maxReplayErrors \<and>
     (rs_errors_omitted res = 0 \<or> length (rs_errors res) = maxReplayErrors)"

lemma counted_steps [simp]:
  "accounted (replayed res) = accounted res + 1" "accounted (unmapped res) = accounted res + 1"
  "accounted (addErr i e res) = accounted res + 1"
  "boundedErrors (replayed res) = boundedErrors res" "boundedErrors (unmapped res) = boundedErrors res"
  "boundedErrors res \<Longrightarrow> boundedErrors (addErr i e res)"
  "rs_candidates (replayed res) = rs_candidates res" "rs_candidates (unmapped res) = rs_candidates res"
  "rs_candidates (addErr i e res) = rs_candidates res"
  "rs_truncated (replayed res) = rs_truncated res" "rs_truncated (unmapped res) = rs_truncated res"
  "rs_truncated (addErr i e res) = rs_truncated res"
  "rs_replayed (replayed res) = rs_replayed res + 1" "rs_replayed (unmapped res) = rs_replayed res"
  "rs_replayed (addErr i e res) = rs_replayed res"
  by (auto simp: accounted_def boundedErrors_def replayed_def unmapped_def addErr_def maxReplayErrors_def)

section \<open>Filing evidence\<close>

definition evidenceKey :: "artifact_evidence_row \<Rightarrow> string \<times> string \<times> string \<times> int" where
  "evidenceKey e = (ae_kind e, ae_entity e, ae_uri e, ae_event e)"

lemma sameEvidence_iff: "sameEvidence a b \<longleftrightarrow> evidenceKey a = evidenceKey b"
  by (auto simp: sameEvidence_def evidenceKey_def)

lemma InsertArtifactEvidence_InrD:
  assumes "InsertArtifactEvidence e d = Inr (b, d')"
  shows "d' = d\<lparr>artifact_evidence := artifact_evidence d @ (if b then [e] else [])\<rparr>"
    "b \<longleftrightarrow> evidenceKey e \<notin> evidenceKey ` set (artifact_evidence d)"
  using assms by (auto simp: InsertArtifactEvidence_def sameEvidence_iff image_iff split: if_splits)

lemma OpenDeclarations_evidence [simp]:
  "OpenDeclarationsForArtifact (d\<lparr>artifact_evidence := xs\<rparr>) sel key = OpenDeclarationsForArtifact d sel key"
proof -
  have "taskClosed (d\<lparr>artifact_evidence := xs\<rparr>) = taskClosed d" by (rule taskClosed_cong) simp_all
  then have "openTarget (d\<lparr>artifact_evidence := xs\<rparr>) = openTarget d"
    by (intro ext) (simp add: openTarget_def)
  then show ?thesis by (simp add: OpenDeclarationsForArtifact_def openDeclarationsQuery_def)
qed

text \<open>The keys of the evidence a delivery is owed: one for every open declaration
  of one of its routing keys.\<close>

definition owedFor :: "int \<Rightarrow> string \<Rightarrow> (string \<times> string) list \<Rightarrow> (string \<times> string \<times> string \<times> int) set" where
  "owedFor i key ts = (\<lambda>(k, e). (k, e, key, i)) ` set ts"

definition owed :: "db \<Rightarrow> int \<Rightarrow> (string \<times> string) list \<Rightarrow> (string \<times> string \<times> string \<times> int) set" where
  "owed d i keys = (\<Union>(sel, key)\<in>set keys. owedFor i key (OpenDeclarationsForArtifact d sel key))"

text \<open>The rows a filing appends: each key once, those owed that were not there.\<close>

definition filedRows :: "string \<Rightarrow> catalog_event \<Rightarrow> db \<Rightarrow> (string \<times> string \<times> string \<times> int) set \<Rightarrow>
    artifact_evidence_row list \<Rightarrow> bool" where
  "filedRows src ev d ks rows \<longleftrightarrow> distinct (map evidenceKey rows) \<and>
     evidenceKey ` set rows = ks - evidenceKey ` set (artifact_evidence d) \<and>
     (\<forall>e\<in>set rows. ae_state e = ce_state ev \<and> ae_source e = src \<and> ae_provenance e = ''observed'')"

lemma filedRows_append:
  assumes "filedRows src ev d ks rows" "filedRows src ev (d\<lparr>artifact_evidence := artifact_evidence d @ rows\<rparr>) ks' rows'"
  shows "filedRows src ev d (ks \<union> ks') (rows @ rows')"
  using assms unfolding filedRows_def by (auto simp: image_Un)

lemma fileTarget_rows:
  assumes "fileTarget src i at detail ev key t (res, d) = Inr (res', d')"
  shows "\<exists>rows. d' = d\<lparr>artifact_evidence := artifact_evidence d @ rows\<rparr> \<and> cr_targets res' = cr_targets res \<and>
    filedRows src ev d (owedFor i key [t]) rows"
proof -
  define e where "e = evidenceFor src i at detail ev key t"
  obtain b where b: "InsertArtifactEvidence e d = Inr (b, d')" and r: "cr_targets res' = cr_targets res"
    using assms by (auto simp: fileTarget_def andThen_Inr_iff e_def split: if_splits)
  have k: "owedFor i key [t] = {evidenceKey e}"
    by (cases t) (simp add: owedFor_def evidenceKey_def evidenceFor_def e_def)
  have "ae_state e = ce_state ev" "ae_source e = src" "ae_provenance e = ''observed''"
    by (simp_all add: e_def evidenceFor_def)
  then have "filedRows src ev d (owedFor i key [t]) (if b then [e] else [])"
    using InsertArtifactEvidence_InrD(2)[OF b] unfolding filedRows_def k by (cases b) (simp_all add: insert_absorb Diff_eq_empty_iff insert_Diff_if)
  then show ?thesis using InsertArtifactEvidence_InrD(1)[OF b] r by blast
qed

lemma fileTargets_rows:
  assumes "foldE (fileTarget src i at detail ev key) ts (res, d) = Inr (res', d')"
  shows "\<exists>rows. d' = d\<lparr>artifact_evidence := artifact_evidence d @ rows\<rparr> \<and> cr_targets res' = cr_targets res \<and>
    filedRows src ev d (owedFor i key ts) rows"
  using assms
proof (induction ts arbitrary: res d)
  case Nil
  then show ?case by (auto simp: owedFor_def filedRows_def intro: exI[of _ "[]"])
next
  case (Cons t ts)
  obtain res1 d1 where s: "fileTarget src i at detail ev key t (res, d) = Inr (res1, d1)"
    and r: "foldE (fileTarget src i at detail ev key) ts (res1, d1) = Inr (res', d')"
    using Cons.prems by (auto simp: andThen_Inr_iff)
  obtain rows1 where 1: "d1 = d\<lparr>artifact_evidence := artifact_evidence d @ rows1\<rparr>" "cr_targets res1 = cr_targets res"
    "filedRows src ev d (owedFor i key [t]) rows1" using fileTarget_rows[OF s] by blast
  obtain rows2 where 2: "d' = d1\<lparr>artifact_evidence := artifact_evidence d1 @ rows2\<rparr>" "cr_targets res' = cr_targets res1"
    "filedRows src ev d1 (owedFor i key ts) rows2" using Cons.IH[OF r] by blast
  have "owedFor i key (t # ts) = owedFor i key [t] \<union> owedFor i key ts" by (auto simp: owedFor_def)
  then have "filedRows src ev d (owedFor i key (t # ts)) (rows1 @ rows2)"
    using filedRows_append[OF 1(3) 2(3)[unfolded 1(1)]] by simp
  then show ?case using 1 2 by auto
qed

lemma fileKeys_rows:
  assumes "foldE (fileKey src i at detail ev) ks (res, d) = Inr (res', d')"
  shows "\<exists>rows. d' = d\<lparr>artifact_evidence := artifact_evidence d @ rows\<rparr> \<and>
    cr_targets res' = cr_targets res @ concat (map (\<lambda>(sel, key). OpenDeclarationsForArtifact d sel key) ks) \<and>
    filedRows src ev d (owed d i ks) rows"
  using assms
proof (induction ks arbitrary: res d)
  case Nil
  then show ?case by (auto simp: owed_def filedRows_def intro: exI[of _ "[]"])
next
  case (Cons k ks)
  obtain sel key where k: "k = (sel, key)" by (cases k)
  let ?ts = "OpenDeclarationsForArtifact d sel key"
  obtain res1 d1 where s: "foldE (fileTarget src i at detail ev key) ?ts
      (res\<lparr>cr_targets := cr_targets res @ ?ts\<rparr>, d) = Inr (res1, d1)"
    and r: "foldE (fileKey src i at detail ev) ks (res1, d1) = Inr (res', d')"
    using Cons.prems by (auto simp: k fileKey_def Let_def andThen_Inr_iff)
  obtain rows1 where 1: "d1 = d\<lparr>artifact_evidence := artifact_evidence d @ rows1\<rparr>"
    "cr_targets res1 = cr_targets res @ ?ts" "filedRows src ev d (owedFor i key ?ts) rows1"
    using fileTargets_rows[OF s] by auto
  obtain rows2 where 2: "d' = d1\<lparr>artifact_evidence := artifact_evidence d1 @ rows2\<rparr>"
    "cr_targets res' = cr_targets res1 @ concat (map (\<lambda>(sel, key). OpenDeclarationsForArtifact d1 sel key) ks)"
    "filedRows src ev d1 (owed d1 i ks) rows2" using Cons.IH[OF r] by blast
  have "owed d1 i ks = owed d i ks" by (simp add: owed_def 1(1))
  moreover have "owed d i (k # ks) = owedFor i key ?ts \<union> owed d i ks" by (simp add: owed_def k)
  ultimately have "filedRows src ev d (owed d i (k # ks)) (rows1 @ rows2)"
    using filedRows_append[OF 1(3)] 2(3) 1(1) by metis
  then show ?case using 1 2 by (auto simp: k)
qed

lemma catalogApply_rows:
  assumes "catalogApply pt now cfg i ev d = Inr (res, d')"
  shows "\<exists>rows. d' = d\<lparr>artifact_evidence := artifact_evidence d @ rows\<rparr> \<and>
    (Routed res \<longleftrightarrow> owed d i (routingKeys ev) \<noteq> {}) \<and>
    filedRows (ic_source cfg) ev d (owed d i (routingKeys ev)) rows"
proof -
  obtain detail at where run: "foldE (fileKey (ic_source cfg) i at detail ev) (routingKeys ev)
      (\<lparr>cr_state = ce_state ev, cr_targets = [], cr_written = []\<rparr>, d) = Inr (res, d')"
    using assms by (auto simp: catalogApply_def Let_def andThen_Inr_iff)
  have "owed d i ks = {} \<longleftrightarrow> concat (map (\<lambda>(sel, key). OpenDeclarationsForArtifact d sel key) ks) = []" for ks
    by (auto simp: owed_def owedFor_def)
  then show ?thesis using fileKeys_rows[OF run] by (auto simp: Routed_def)
qed

text \<open>C16: Applying a delivery appends exactly the evidence it is owed and does
  not have, one row for every open declaration of its address or one of its
  labels, and marks the event applied exactly when some declaration matched;
  otherwise nothing changes.\<close>

theorem evidence_filed:
  assumes "applyThenMark pt now cfg i ev d = Inr (res, d')"
  shows "\<exists>rows. filedRows (ic_source cfg) ev d (owed d i (routingKeys ev)) rows \<and>
    d' = (if owed d i (routingKeys ev) = {} then d
          else MarkEventApplied i now (d\<lparr>artifact_evidence := artifact_evidence d @ rows\<rparr>))"
proof -
  obtain d1 where a: "catalogApply pt now cfg i ev d = Inr (res, d1)"
    and m: "d' = (if Routed res then MarkEventApplied i now d1 else d1)"
    using assms by (auto simp: applyThenMark_def andThen_Inr_iff)
  obtain rows where r: "d1 = d\<lparr>artifact_evidence := artifact_evidence d @ rows\<rparr>"
    "Routed res \<longleftrightarrow> owed d i (routingKeys ev) \<noteq> {}"
    "filedRows (ic_source cfg) ev d (owed d i (routingKeys ev)) rows" using catalogApply_rows[OF a] by blast
  show ?thesis
  proof (cases "owed d i (routingKeys ev) = {}")
    case True
    then have "rows = []" using r(3) by (simp add: filedRows_def)
    then have "d' = d" using True m r(1,2) by simp
    then show ?thesis using True r(3) by auto
  next
    case False
    then show ?thesis using m r by auto
  qed
qed

theorem evidence_filed_witness:
  "\<exists>res d'. applyThenMark (\<lambda>_. None) 9 \<lparr>ic_source = ''catalog'', ic_validate = Some\<rparr> 2 (sampleCatalog ''y'') backlogDb = Inr (res, d') \<and>
     (\<exists>rows. rows \<noteq> [] \<and> filedRows ''catalog'' (sampleCatalog ''y'') backlogDb (owed backlogDb 2 [(''address'', ''y'')]) rows \<and>
        d' = MarkEventApplied 2 9 (backlogDb\<lparr>artifact_evidence := artifact_evidence backlogDb @ rows\<rparr>))"
proof -
  let ?cfg = "\<lparr>ic_source = ''catalog'', ic_validate = Some\<rparr>"
  let ?run = "applyThenMark (\<lambda>_. None) 9 ?cfg 2 (sampleCatalog ''y'') backlogDb"
  have "\<not> isl ?run" by code_simp
  then obtain res d' where r: "?run = Inr (res, d')" by (cases ?run) auto
  have "OpenDeclarationsForArtifact backlogDb ''address'' ''y'' = [(''task'', ''WL-2'')]" by code_simp
  then have o: "owed backlogDb 2 [(''address'', ''y'')] = {(''task'', ''WL-2'', ''y'', 2)}"
    by (simp add: owed_def owedFor_def)
  have k: "routingKeys (sampleCatalog ''y'') = [(''address'', ''y'')]" by code_simp
  have e: "artifact_evidence backlogDb = []" by code_simp
  obtain rows where "filedRows ''catalog'' (sampleCatalog ''y'') backlogDb (owed backlogDb 2 [(''address'', ''y'')]) rows"
    "d' = MarkEventApplied 2 9 (backlogDb\<lparr>artifact_evidence := artifact_evidence backlogDb @ rows\<rparr>)"
    using evidence_filed[OF r] by (auto simp: k o)
  moreover from this have "rows \<noteq> []" by (auto simp: filedRows_def o e)
  ultimately show ?thesis using r by auto
qed

section \<open>A run of the replayer\<close>

lemma unrouted_unchanged:
  "applyThenMark pt now cfg i ev d = Inr (res, d') \<Longrightarrow> \<not> Routed res \<Longrightarrow> d' = d"
  by (auto simp: applyThenMark_def andThen_Inr_iff filedRows_def dest!: catalogApply_rows)

text \<open>One event: counted once, within the bounds; the database changes only with
  an event counted as replayed.\<close>

definition accounts :: "bool \<Rightarrow> nat \<Rightarrow> replay_result \<times> db \<Rightarrow> replay_result \<times> db \<Rightarrow> bool" where
  "accounts dry n s s' \<longleftrightarrow> accounted (fst s') = accounted (fst s) + n \<and>
     (boundedErrors (fst s) \<longrightarrow> boundedErrors (fst s')) \<and>
     rs_candidates (fst s') = rs_candidates (fst s) \<and> rs_truncated (fst s') = rs_truncated (fst s) \<and>
     rs_replayed (fst s) \<le> rs_replayed (fst s') \<and>
     (dry \<or> rs_replayed (fst s') = rs_replayed (fst s) \<longrightarrow> snd s' = snd s)"

lemma accounts_trans: "accounts dry n s s' \<Longrightarrow> accounts dry m s' s'' \<Longrightarrow> accounts dry (n + m) s s''"
  by (auto simp: accounts_def)

lemma accounts_replayOne: "accounts dry 1 s (replayOne cfg h now dry ev s)"
proof (cases "map_of ingestConfigs (ev_source ev)")
  case None
  then show ?thesis
    by (cases s) (auto simp: accounts_def replayOne_def replayGitHub_def Let_def split: option.split sum.split)
next
  case (Some ic)
  then show ?thesis
    by (cases s) (auto simp: accounts_def replayOne_def replayCatalog_def Let_def unrouted_unchanged
        split: option.split sum.split)
qed

lemma accounts_fold: "accounts dry (length evs) s (fold (replayOne cfg h now dry) evs s)"
proof (induction evs arbitrary: s)
  case Nil
  show ?case by (simp add: accounts_def)
next
  case (Cons e evs)
  from accounts_trans[OF accounts_replayOne[of dry s cfg h now e] Cons.IH] show ?case by simp
qed

lemma Replay_accounts:
  assumes "Replay cfg h now opts d = (res, d')"
  shows "rs_candidates res = length (UnappliedEvents d (ro_repo opts) (ro_since opts) (replayLimit opts))"
    "accounted res = rs_candidates res" "boundedErrors res"
    "rs_truncated res \<longleftrightarrow> int (rs_candidates res) = replayLimit opts"
    "ro_dry_run opts \<or> rs_replayed res = 0 \<Longrightarrow> d' = d"
proof -
  define evs where "evs = UnappliedEvents d (ro_repo opts) (ro_since opts) (replayLimit opts)"
  define s0 where "s0 = (\<lparr> rs_dry_run = ro_dry_run opts, rs_candidates = length evs, rs_replayed = 0,
      rs_still_unmapped = 0, rs_truncated = (int (length evs) = replayLimit opts), rs_errors = [],
      rs_errors_omitted = 0 \<rparr>, d)"
  have "accounts (ro_dry_run opts) (length evs) s0 (res, d')"
    using accounts_fold[of "ro_dry_run opts" evs s0 cfg h now] assms
    by (simp add: Replay_def Let_def evs_def s0_def)
  moreover have "accounted (fst s0) = 0" "boundedErrors (fst s0)"
    by (simp_all add: s0_def accounted_def boundedErrors_def)
  ultimately show "rs_candidates res = length (UnappliedEvents d (ro_repo opts) (ro_since opts) (replayLimit opts))"
    "accounted res = rs_candidates res" "boundedErrors res"
    "rs_truncated res \<longleftrightarrow> int (rs_candidates res) = replayLimit opts"
    "ro_dry_run opts \<or> rs_replayed res = 0 \<Longrightarrow> d' = d"
    by (auto simp: accounts_def s0_def evs_def)
qed

lemma UnappliedEvents_length: "0 < limit \<Longrightarrow> int (length (UnappliedEvents d repo since limit)) \<le> limit"
  by (simp add: UnappliedEvents_def Let_def)

lemma replayLimit_pos: "0 < replayLimit opts"
  by (simp add: replayLimit_def defaultReplayBatch_def)

text \<open>C17: A run reads at most its limit of events (500 by default), counts each of
  them exactly once as replayed, still unmapped or failed, reports at most 100
  errors and counts the rest only when those are full, and says it was
  truncated exactly when it filled its batch.\<close>

theorem replay_accounts:
  "case Replay cfg h now opts d of (res, d') \<Rightarrow>
     int (rs_candidates res) \<le> replayLimit opts \<and>
     rs_replayed res + rs_still_unmapped res + length (rs_errors res) + rs_errors_omitted res = rs_candidates res \<and>
     length (rs_errors res) \<le> 100 \<and> (rs_errors_omitted res = 0 \<or> length (rs_errors res) = 100) \<and>
     rs_truncated res = (int (rs_candidates res) = replayLimit opts)"
proof -
  obtain res d' where r: "Replay cfg h now opts d = (res, d')" by fastforce
  note a = Replay_accounts[OF r]
  have "int (rs_candidates res) \<le> replayLimit opts"
    unfolding a(1) by (rule UnappliedEvents_length[OF replayLimit_pos])
  then show ?thesis
    using a(2,3,4) by (simp add: r accounted_def boundedErrors_def maxReplayErrors_def)
qed

text \<open>C39: A run that replays nothing leaves everything as it was, so any number
  of further runs reads the same batch again: stored deliveries behind a batch
  that cannot be applied are never reached.\<close>

theorem replay_starves:
  assumes "\<And>now. rs_replayed (fst (Replay cfg h now opts d)) = 0"
  shows "fold (\<lambda>now d. snd (Replay cfg h now opts d)) nows d = d"
proof (induction nows)
  case (Cons now nows)
  have "snd (Replay cfg h now opts d) = d"
    by (rule Replay_accounts(5)[of cfg h now opts d "fst (Replay cfg h now opts d)"]) (use assms in simp_all)
  then show ?case using Cons.IH by simp
qed simp

text \<open>The first delivery of the backlog is declared by nobody: with a batch of one
  no number of runs files the second, which a batch of two does.\<close>

theorem replay_starves_witness:
  "(\<forall>nows. fold (\<lambda>now d. snd (Replay plainBranches sampleReplayer now (replayUpTo 1) d)) nows backlogDb = backlogDb) \<and>
   rs_replayed (fst (Replay plainBranches sampleReplayer 9 (replayUpTo 2) backlogDb)) = 1"
proof -
  have "rs_replayed (fst (Replay plainBranches sampleReplayer now (replayUpTo 1) backlogDb)) = 0" for now
    by code_simp
  then have "\<forall>nows. fold (\<lambda>now d. snd (Replay plainBranches sampleReplayer now (replayUpTo 1) d)) nows backlogDb = backlogDb"
    using replay_starves[of plainBranches sampleReplayer "replayUpTo 1" backlogDb] by blast
  moreover have "rs_replayed (fst (Replay plainBranches sampleReplayer 9 (replayUpTo 2) backlogDb)) = 1"
    by code_simp
  ultimately show ?thesis by blast
qed

section \<open>Deliveries that are never replayed\<close>

lemma RecordEvent_unrouted:
  assumes "RecordEvent now src ext ty j (\<lambda>i. applyThenMark pt now cfg i ev) d = (Inr (i, Some res), d')"
    and "\<not> Routed res"
  shows "d' = appendEvent src ext ty j now d"
  using RecordEvent_first(3)[OF assms(1)] assms(2) by (rule unrouted_unchanged)

text \<open>C40: A CMS delivery that no declaration matched is recorded without
  evidence and not applied, and no replay ever reads it again, whatever is
  declared later.\<close>

theorem unrouted_cms_never_replayed:
  assumes "map_of ingestConfigs ''cms'' = Some cfg"
    and "ingestServe pt cfg h now r d = ((200, ''unrouted''), d')"
  shows "\<exists>e\<in>set (events d'). ev_id e = next_event_id d \<and> ev_source e = ''cms'' \<and> ev_applied_at e = None \<and>
    artifact_evidence d' = artifact_evidence d \<and>
    (\<forall>c repo since limit. e \<notin> set (UnappliedEvents c repo since limit))"
proof -
  have cms: "ic_source cfg = ''cms''" using assms(1) by (auto simp: ingestConfigs_def)
  obtain ext ty j ev i res where
    r: "RecordEvent now ''cms'' ext ty j (\<lambda>i. applyThenMark pt now cfg i ev) d = (Inr (i, Some res), d')"
    and u: "\<not> Routed res"
    using assms(2) unfolding ingestServe_def cms Let_def
    by (auto simp: admit_def split: option.splits if_splits prod.splits sum.splits)
  have "d' = appendEvent ''cms'' ext ty j now d" by (rule RecordEvent_unrouted[OF r u])
  then show ?thesis
    by (auto simp: appendEvent_def UnappliedEvents_def Let_def byId_def unapplied_def replaySources_def
        dest!: in_set_takeD)
qed

theorem unrouted_cms_never_replayed_witness:
  "\<exists>cfg d'. map_of ingestConfigs ''cms'' = Some cfg \<and>
     ingestServe (\<lambda>_. None) cfg (sampleHook (Some (sampleCatalog ''x''))) 9 (sampleRequest [] ''e'') backlogDb =
       ((200, ''unrouted''), d') \<and>
     (\<exists>e\<in>set (events d'). ev_id e = 3 \<and> ev_source e = ''cms'' \<and>
        (\<forall>c repo since limit. e \<notin> set (UnappliedEvents c repo since limit)))"
proof -
  let ?cfg = "\<lparr>ic_source = ''cms'', ic_validate = validateCMS\<rparr>"
  let ?run = "ingestServe (\<lambda>_. None) ?cfg (sampleHook (Some (sampleCatalog ''x''))) 9 (sampleRequest [] ''e'') backlogDb"
  have "fst ?run = (200, ''unrouted'')" unfolding ingestServe_def admit_sample option.case by code_simp
  then obtain d' where r: "?run = ((200, ''unrouted''), d')" by (cases ?run) auto
  have c: "map_of ingestConfigs ''cms'' = Some ?cfg" by (simp add: ingestConfigs_def)
  have "next_event_id backlogDb = 3" by code_simp
  then have "\<exists>e\<in>set (events d'). ev_id e = 3 \<and> ev_source e = ''cms'' \<and>
      (\<forall>c repo since limit. e \<notin> set (UnappliedEvents c repo since limit))"
    using unrouted_cms_never_replayed[OF c r] by metis
  with c r show ?thesis by blast
qed

end
