(* ===== verification/Lifecycle.thy ===== *)
theory Lifecycle
  imports Ranking Delivery
begin

text \<open>
  The lifecycle endpoints of the HTTP API (internal/api/lifecycle.go, with
  recordEvent and mapStoreErr of server.go, kindalias.go and the stale-plan flag
  of store/docgroom.go): claim, claim-next, renew, release, and the moves that
  finish or reopen a task. A request comes decoded; its external id is the random
  one the server draws. A reply is the refusal's HTTP code or what the handler
  answers.
\<close>

section \<open>Refusals\<close>

definition mapStoreErr :: "err \<Rightarrow> nat" where
  "mapStoreErr e =
     (if e = ErrNotFound then 404
      else if e = ErrForbidden then 403
      else if e \<in> set [ErrBadTransition, ErrCycle, ErrInvalidInput] then 422
      else if e \<in> set [ErrLeased, ErrBlocked, ErrEdgeExists, ErrReviewOpen] then 409
      else 500)"

section \<open>Reads\<close>

definition GetTask :: "db \<Rightarrow> string \<Rightarrow> err + task \<times> bool" where
  "GetTask d tid =
     (case taskRow d tid of None \<Rightarrow> Inl ErrNotFound | Some t \<Rightarrow> Inr (t, taskClosed d t))"

text \<open>The reference of a stale plan document, empty otherwise: its formatted
  number, or its slug while it has none.\<close>

definition StalePlanRef :: "db \<Rightarrow> int option \<Rightarrow> string" where
  "StalePlanRef d planDoc =
     (case planDoc of
        None \<Rightarrow> []
      | Some i \<Rightarrow>
          (case row (\<lambda>x. d_id x = i \<and> d_status x = ''stale'' \<and> d_deleted_at x = None) (docs d) of
             None \<Rightarrow> []
           | Some x \<Rightarrow>
               (case row (\<lambda>p. p_id p = d_project x) (projects d) of
                  None \<Rightarrow> []
                | Some p \<Rightarrow>
                    (case d_number x of
                       None \<Rightarrow> d_slug x
                     | Some n \<Rightarrow> p_key p @ ''-'' @
                         map (\<lambda>c. if isLower c then char_of ((of_char c :: nat) - 32) else c) (d_kind x) @
                         ''-'' @ intStr n))))"

section \<open>One recorded event per call\<close>

definition recordEvent ::
  "int \<Rightarrow> string \<Rightarrow> string \<Rightarrow> string \<Rightarrow> json \<Rightarrow> (int \<Rightarrow> db \<Rightarrow> err + db) \<Rightarrow> db \<Rightarrow> err option \<times> db" where
  "recordEvent now extID source ty payload app d =
     (case RecordEvent now source extID ty payload (unitTx app) d of
        (Inl e, d') \<Rightarrow> (Some e, d')
      | (Inr _, d') \<Rightarrow> (None, d'))"

section \<open>Finishing and reopening\<close>

definition finishTask ::
  "int \<Rightarrow> string \<Rightarrow> string \<Rightarrow> string \<Rightarrow> (string \<Rightarrow> int \<Rightarrow> db \<Rightarrow> err + db) \<Rightarrow> db \<Rightarrow> (nat + task \<times> bool) \<times> db" where
  "finishTask now extID tid eventType transition d =
     (case recordEvent now extID ''cli'' eventType (JObj [(''task'', JStr tid)])
             (\<lambda>i d. andThen (transition tid i d) (\<lambda>d'. Inr (CloseActiveLease now tid d'))) d of
        (Some e, d') \<Rightarrow> (Inl (mapStoreErr e), d')
      | (None, d') \<Rightarrow>
          (case GetTask d' tid of Inl e \<Rightarrow> (Inl (mapStoreErr e), d') | Inr t \<Rightarrow> (Inr t, d')))"

definition transitionTo :: "int \<Rightarrow> string \<Rightarrow> string \<Rightarrow> int \<Rightarrow> db \<Rightarrow> err + db" where
  "transitionTo now target tid eventID d =
     andThen (TaskState d tid) (\<lambda>cur. Transition now tid cur target eventID d)"

definition reopenableStates :: "string list" where
  "reopenableStates = [''merged'', ''deployed_dev'', ''deployed_prod'', ''released'', ''abandoned'', ''completed'']"

definition setStateEventType :: "string \<Rightarrow> string" where
  "setStateEventType state = (if state = ''merged'' then ''task.done'' else ''task.'' @ state)"

definition setTaskState :: "int \<Rightarrow> string \<Rightarrow> string \<Rightarrow> string \<Rightarrow> db \<Rightarrow> (nat + task \<times> bool) \<times> db" where
  "setTaskState now extID tid state d =
     (if state \<notin> set SettableTaskStates then (Inl 422, d)
      else finishTask now extID tid (setStateEventType state)
             (\<lambda>tid i. ManualTransition now tid state i) d)"

definition abandonTask :: "int \<Rightarrow> string \<Rightarrow> string \<Rightarrow> db \<Rightarrow> (nat + task \<times> bool) \<times> db" where
  "abandonTask now extID tid = finishTask now extID tid ''task.abandoned'' (transitionTo now ''abandoned'')"

definition completeTask :: "int \<Rightarrow> string \<Rightarrow> string \<Rightarrow> db \<Rightarrow> (nat + task \<times> bool) \<times> db" where
  "completeTask now extID tid =
     finishTask now extID tid ''task.completed'' (\<lambda>tid i. ManualTransition now tid ''completed'' i)"

definition reopenTx :: "int \<Rightarrow> string \<Rightarrow> int \<Rightarrow> db \<Rightarrow> err + db" where
  "reopenTx now tid eventID d =
     andThen (TaskState d tid) (\<lambda>cur.
     if cur \<notin> set reopenableStates then Inl ErrBadTransition
     else andThen (Transition now tid cur ''ready'' eventID d) (\<lambda>d'. Inr (ClearTaskCommits tid d')))"

definition reopenTask :: "int \<Rightarrow> string \<Rightarrow> string \<Rightarrow> db \<Rightarrow> (nat + task \<times> bool) \<times> db" where
  "reopenTask now extID tid = finishTask now extID tid ''task.reopened'' (reopenTx now)"

section \<open>Claiming\<close>

text \<open>A conflict names the holder of the task's lease, or says that the caller's
  worktree is the one that is taken.\<close>

datatype claim_reply =
    Claimed lease string string
  | HeldBy string int
  | WorktreeBusy
  | ClaimRefused nat

text \<open>A count of seconds as a time.Duration, in microseconds: the nanoseconds are
  an int64 and wrap.\<close>

definition secondsTTL :: "int \<Rightarrow> int" where
  "secondsTTL s = ((s * 1000000000 + 2 ^ 63) mod 2 ^ 64 - 2 ^ 63) div 1000"

text \<open>The branch template is a parameter of the endpoint.\<close>

definition claimTask ::
  "(task \<Rightarrow> string) \<Rightarrow> int \<Rightarrow> string \<Rightarrow> string \<Rightarrow> string \<Rightarrow> string \<Rightarrow> int \<Rightarrow> db \<Rightarrow> claim_reply \<times> db" where
  "claimTask branchFor now extID tid actorID worktree ttlSeconds d =
     (if worktree = [] then (ClaimRefused 400, d)
      else case Claim now extID tid actorID worktree (secondsTTL ttlSeconds) d of
        (Inl e, d') \<Rightarrow>
          (if e = ErrLeased
           then (case activeLeaseTx d' tid of
                   Inr l \<Rightarrow> HeldBy (l_actor l) (l_expires_at l)
                 | Inl _ \<Rightarrow> WorktreeBusy)
           else ClaimRefused (mapStoreErr e), d')
      | (Inr None, d') \<Rightarrow> (ClaimRefused 500, d')
      | (Inr (Some l), d') \<Rightarrow>
          (case GetTask d' tid of
             Inl e \<Rightarrow> (ClaimRefused (mapStoreErr e), d')
           | Inr (t, _) \<Rightarrow> (Claimed l (branchFor t) (StalePlanRef d' (t_plan_doc t)), d')))"

definition DeprecatedTaskKinds :: "(string \<times> string) list" where
  "DeprecatedTaskKinds = [(''spec'', ''design'')]"

definition NormalizeTaskKind :: "string \<Rightarrow> string" where
  "NormalizeTaskKind kind = (case map_of DeprecatedTaskKinds kind of Some k \<Rightarrow> k | None \<Rightarrow> kind)"

fun joinComma :: "string list \<Rightarrow> string" where
  "joinComma [] = []"
| "joinComma [s] = s"
| "joinComma (s # t # ss) = s @ '','' @ joinComma (t # ss)"

definition normalizeTaskKindList :: "string \<Rightarrow> string + string" where
  "normalizeTaskKindList list =
     (if trimSpace list = [] then Inr []
      else
        let kinds = map (\<lambda>p. NormalizeTaskKind (trimSpace p)) (splitComma [] list)
        in case filter (\<lambda>k. k \<notin> set TaskKinds) kinds of
             bad # _ \<Rightarrow> Inl bad
           | [] \<Rightarrow> Inr (joinComma kinds))"

datatype next_reply =
    NextRefused nat
  | NothingReady
  | WouldClaim string string
  | NextClaimed string "lease option" string

definition claimNext ::
  "int \<Rightarrow> (string \<Rightarrow> string) \<Rightarrow> string \<Rightarrow> string \<Rightarrow> bool \<Rightarrow> bool \<Rightarrow> string \<Rightarrow> string \<Rightarrow> int \<Rightarrow> db \<Rightarrow>
     next_reply \<times> db" where
  "claimNext now extID projectID kind strictFocus dryRun worktree actorID ttlSeconds d =
     (if worktree = [] \<and> \<not> dryRun then (NextRefused 400, d)
      else case normalizeTaskKindList kind of
        Inl _ \<Rightarrow> (NextRefused 422, d)
      | Inr kinds \<Rightarrow>
          (case ClaimNext now extID projectID kinds strictFocus dryRun worktree actorID
                  (secondsTTL ttlSeconds) d of
             (Inl e, d') \<Rightarrow> (NextRefused (mapStoreErr e), d')
           | (Inr None, d') \<Rightarrow> (NothingReady, d')
           | (Inr (Some (i, l)), d') \<Rightarrow>
               (case GetTask d' i of
                  Inl e \<Rightarrow> (NextRefused (mapStoreErr e), d')
                | Inr (t, _) \<Rightarrow>
                    let stale = StalePlanRef d' (t_plan_doc t)
                    in (if dryRun then WouldClaim i stale else NextClaimed i l stale, d'))))"

section \<open>Renewing and releasing\<close>

definition renewLease :: "int \<Rightarrow> string \<Rightarrow> string \<Rightarrow> string \<Rightarrow> int \<Rightarrow> db \<Rightarrow> (nat + lease option) \<times> db" where
  "renewLease now extID tid actorID ttlSeconds d =
     (case Renew now extID tid actorID (secondsTTL ttlSeconds) d of
        (Inl e, d') \<Rightarrow> (Inl (mapStoreErr e), d')
      | (Inr l, d') \<Rightarrow> (Inr l, d'))"

definition releaseLease :: "int \<Rightarrow> string \<Rightarrow> string \<Rightarrow> string \<Rightarrow> db \<Rightarrow> (nat + unit) \<times> db" where
  "releaseLease now extID tid actorID d =
     (case Release now extID tid actorID d of
        (Inl e, d') \<Rightarrow> (Inl (mapStoreErr e), d')
      | (Inr _, d') \<Rightarrow> (Inr (), d'))"

end
