(* ===== verification/LifecycleSpec.thy ===== *)
theory LifecycleSpec
  imports Lifecycle LeaseSpec DeliverySpec
begin

text \<open>
  What the lifecycle endpoints promise: a move that is answered took the task
  where it was asked to and left nothing of the lease behind, a refused one
  changed nothing, a reopened task does not fall back to its former delivery, and
  a claim conflict names its cause.
\<close>

section \<open>The four moves\<close>

datatype lifecycle = SetTo string | Abandon | Complete | Reopen

fun serveLifecycle :: "int \<Rightarrow> string \<Rightarrow> string \<Rightarrow> lifecycle \<Rightarrow> db \<Rightarrow> (nat + task \<times> bool) \<times> db" where
  "serveLifecycle now x tid (SetTo st) = setTaskState now x tid st"
| "serveLifecycle now x tid Abandon = abandonTask now x tid"
| "serveLifecycle now x tid Complete = completeTask now x tid"
| "serveLifecycle now x tid Reopen = reopenTask now x tid"

fun settlesIn :: "lifecycle \<Rightarrow> string" where
  "settlesIn (SetTo st) = st"
| "settlesIn Abandon = ''abandoned''"
| "settlesIn Complete = ''completed''"
| "settlesIn Reopen = ''ready''"

text \<open>What each move runs in its transaction.\<close>

fun lifecycleTx :: "int \<Rightarrow> lifecycle \<Rightarrow> string \<Rightarrow> int \<Rightarrow> db \<Rightarrow> err + db" where
  "lifecycleTx now (SetTo st) tid i = ManualTransition now tid st i"
| "lifecycleTx now Abandon tid i = transitionTo now ''abandoned'' tid i"
| "lifecycleTx now Complete tid i = ManualTransition now tid ''completed'' i"
| "lifecycleTx now Reopen tid i = reopenTx now tid i"

lemma serveLifecycle_finish:
  "serveLifecycle now x tid req d = (Inl 422, d) \<or>
   (\<exists>ty. serveLifecycle now x tid req d = finishTask now x tid ty (lifecycleTx now req) d)"
proof -
  have "lifecycleTx now (SetTo st) = (\<lambda>tid i. ManualTransition now tid st i)"
    "lifecycleTx now Abandon = transitionTo now ''abandoned''"
    "lifecycleTx now Complete = (\<lambda>tid i. ManualTransition now tid ''completed'' i)"
    "lifecycleTx now Reopen = reopenTx now" for st
    by (simp_all add: fun_eq_iff)
  then show ?thesis
    by (cases req) (auto simp: setTaskState_def abandonTask_def completeTask_def reopenTask_def)
qed

lemma Transition_outcome:
  assumes "Transition now tid a b ev d = Inr d'" "hierarchyOk d"
  shows "\<exists>t. taskRow d tid = Some t \<and> legal (t_state t) b \<and>
     taskRow d' tid = Some (t\<lparr>t_state := b, t_updated_at := now\<rparr>)" "otherTables d d'"
  using TransitionFuel_own[OF assms(2)] TransitionFuel_frame assms(1) unfolding Transition_def by blast+

lemma lifecycleTx_outcome:
  assumes "lifecycleTx now req tid i d = Inr d'" "hierarchyOk d"
  shows "\<exists>t. taskRow d tid = Some t \<and> legal (t_state t) (settlesIn req) \<and>
     taskRow d' tid = Some (t\<lparr>t_state := settlesIn req, t_updated_at := now\<rparr>)"
    "leases d' = leases d" "next_lease_id d' = next_lease_id d"
    "task_commits d' = (if req = Reopen then filter (\<lambda>c. tc_task c \<noteq> tid) (task_commits d) else task_commits d)"
proof -
  obtain cur d1 where t: "Transition now tid cur (settlesIn req) i d = Inr d1"
    and d': "d' = (if req = Reopen then ClearTaskCommits tid d1 else d1)"
    using assms(1)
    by (cases req) (auto simp: ManualTransition_def transitionTo_def reopenTx_def andThen_Inr_iff split: if_splits)
  note o = Transition_outcome[OF t assms(2)]
  from o(1) show "\<exists>t. taskRow d tid = Some t \<and> legal (t_state t) (settlesIn req) \<and>
     taskRow d' tid = Some (t\<lparr>t_state := settlesIn req, t_updated_at := now\<rparr>)"
    unfolding d' by (auto simp: ClearTaskCommits_def taskRow_def)
  from o(2) show "leases d' = leases d" "next_lease_id d' = next_lease_id d"
    "task_commits d' = (if req = Reopen then filter (\<lambda>c. tc_task c \<noteq> tid) (task_commits d) else task_commits d)"
    unfolding d' by (simp_all add: ClearTaskCommits_def)
qed

lemma filter_updWhere_out:
  "(\<And>x. x \<in> set xs \<Longrightarrow> p x \<Longrightarrow> \<not> q x \<and> \<not> q (f x)) \<Longrightarrow> filter q (updWhere p f xs) = filter q xs"
  by (induction xs) auto

lemma CloseActiveLease_outcome:
  assumes "leasesOk d"
  shows "\<not> hasActiveLease (CloseActiveLease now tid d) tid"
    "\<forall>k\<in>set (tokens (CloseActiveLease now tid d)). tk_task k = Some tid \<longrightarrow> tk_revoked_at k \<noteq> None"
    "filter (\<lambda>l. l_task l \<noteq> tid) (leases (CloseActiveLease now tid d)) = filter (\<lambda>l. l_task l \<noteq> tid) (leases d)"
    "tasks (CloseActiveLease now tid d) = tasks d" "task_commits (CloseActiveLease now tid d) = task_commits d"
proof -
  let ?d1 = "revokeTaskTokens now tid d"
  have l1: "leases ?d1 = leases d" "tasks ?d1 = tasks d" "task_commits ?d1 = task_commits d"
    by (simp_all add: revokeTaskTokens_def)
  have t1: "\<forall>k\<in>set (tokens ?d1). tk_task k = Some tid \<longrightarrow> tk_revoked_at k \<noteq> None"
    by (auto simp: revokeTaskTokens_def in_set_updWhere)
  have "\<not> hasActiveLease (CloseActiveLease now tid d) tid \<and>
      tokens (CloseActiveLease now tid d) = tokens ?d1 \<and>
      filter (\<lambda>l. l_task l \<noteq> tid) (leases (CloseActiveLease now tid d)) = filter (\<lambda>l. l_task l \<noteq> tid) (leases d) \<and>
      tasks (CloseActiveLease now tid d) = tasks d \<and> task_commits (CloseActiveLease now tid d) = task_commits d"
  proof (cases "row (\<lambda>l. l_task l = tid \<and> active l) (leases ?d1)")
    case None
    then have "CloseActiveLease now tid d = ?d1" by (simp add: CloseActiveLease_def Let_def)
    then show ?thesis using None l1 by (auto simp: hasActiveLease_def row_None_iff)
  next
    case (Some l)
    note l = row_SomeD[OF Some, unfolded l1]
    have c: "CloseActiveLease now tid d = endOpenAgentSessionsOnLease now (l_id l)
        (updLease (l_id l) (\<lambda>l. l\<lparr>l_released_at := Some now\<rparr>) ?d1)"
      using Some by (simp add: CloseActiveLease_def Let_def)
    have ls: "leases (CloseActiveLease now tid d) = released now (l_id l) (leases d)"
      by (simp add: c endOpenAgentSessionsOnLease_def updLease_def released_def l1)
    have "\<not> hasActiveLease (CloseActiveLease now tid d) tid"
      unfolding hasActiveLease_def ls
    proof (rule notI, elim bexE conjE)
      fix m assume "m \<in> set (released now (l_id l) (leases d))" "l_task m = tid" "active m"
      then show False using active_released leaseOf_active[OF assms, of m l] l by metis
    qed
    moreover have "l_task m = tid" if "m \<in> set (leases d)" "l_id m = l_id l" for m
      using that l assms distinct_map_inj[of l_id "leases d" m l] by (simp add: leasesOk_def)
    then have "filter (\<lambda>l. l_task l \<noteq> tid) (released now (l_id l) (leases d)) = filter (\<lambda>l. l_task l \<noteq> tid) (leases d)"
      unfolding released_def by (intro filter_updWhere_out) simp
    ultimately show ?thesis using ls l1
      by (simp add: c endOpenAgentSessionsOnLease_def updLease_def)
  qed
  then show "\<not> hasActiveLease (CloseActiveLease now tid d) tid"
    "\<forall>k\<in>set (tokens (CloseActiveLease now tid d)). tk_task k = Some tid \<longrightarrow> tk_revoked_at k \<noteq> None"
    "filter (\<lambda>l. l_task l \<noteq> tid) (leases (CloseActiveLease now tid d)) = filter (\<lambda>l. l_task l \<noteq> tid) (leases d)"
    "tasks (CloseActiveLease now tid d) = tasks d" "task_commits (CloseActiveLease now tid d) = task_commits d"
    using t1 by simp_all
qed

lemma finishTask_Inr:
  assumes "finishTask now x tid ty tr d = (Inr (t, c), d')" "eventRecorded d ''cli'' x = None"
  shows "\<exists>j d2. tr tid (next_event_id d) (appendEvent ''cli'' x ty j now d) = Inr d2 \<and>
    d' = CloseActiveLease now tid d2 \<and> taskRow d' tid = Some t"
  using assms
  by (auto simp: finishTask_def recordEvent_def RecordEvent_def GetTask_def unitTx_def eventSources_def andThen_Inr_iff
      split: option.splits sum.splits prod.splits if_splits)

text \<open>C10: A lifecycle move that is answered took the task along a legal edge to
  the state asked for, and leaves it without an active lease, with every token of
  it revoked, other tasks' leases as they were and, when reopened, without the
  commits of its former delivery.\<close>

theorem lifecycle_outcome:
  assumes "serveLifecycle now x tid req d = (Inr (t, c), d')" "eventRecorded d ''cli'' x = None"
    and "storeOk d" "hierarchyOk d"
  shows "taskRow d' tid = Some t \<and> t_state t = settlesIn req \<and>
     (\<exists>t0. taskRow d tid = Some t0 \<and> legal (t_state t0) (settlesIn req)) \<and>
     \<not> hasActiveLease d' tid \<and>
     (\<forall>k\<in>set (tokens d'). tk_task k = Some tid \<longrightarrow> tk_revoked_at k \<noteq> None) \<and>
     filter (\<lambda>l. l_task l \<noteq> tid) (leases d') = filter (\<lambda>l. l_task l \<noteq> tid) (leases d) \<and>
     (req = Reopen \<longrightarrow> (\<forall>tc\<in>set (task_commits d'). tc_task tc \<noteq> tid))"
proof -
  obtain ty j d2 where
    tx: "lifecycleTx now req tid (next_event_id d) (appendEvent ''cli'' x ty j now d) = Inr d2"
    and d': "d' = CloseActiveLease now tid d2" and t: "taskRow d' tid = Some t"
    using serveLifecycle_finish[of now x tid req d] finishTask_Inr[OF _ assms(2)] assms(1) by fastforce
  define d1 where "d1 = appendEvent ''cli'' x ty j now d"
  have e: "tasks d1 = tasks d" "task_edges d1 = task_edges d" "leases d1 = leases d"
    "next_lease_id d1 = next_lease_id d" "task_commits d1 = task_commits d"
    by (simp_all add: d1_def appendEvent_def)
  have h: "hierarchyOk d1" using hierarchyOk_cong[OF e(2)] assms(4) by simp
  note o = lifecycleTx_outcome[OF tx[folded d1_def] h]
  have "leasesOk d2" using leasesOk_cong[of d2 d] o(2,3) e(3,4) assms(3) by (simp add: storeOk_def)
  note c = CloseActiveLease_outcome[OF this, where now = now and tid = tid, folded d']
  obtain t0 where "taskRow d tid = Some t0" "legal (t_state t0) (settlesIn req)" "t_state t = settlesIn req"
    using o(1) t c(4) e(1) by (auto simp: taskRow_def)
  moreover have "filter (\<lambda>l. l_task l \<noteq> tid) (leases d') = filter (\<lambda>l. l_task l \<noteq> tid) (leases d)"
    using c(3) o(2) e(3) by simp
  moreover have "req = Reopen \<longrightarrow> (\<forall>tc\<in>set (task_commits d'). tc_task tc \<noteq> tid)"
    using c(5) o(4) by simp
  ultimately show ?thesis using c(1,2) t by blast
qed

text \<open>WL-1, leased by ada, is marked merged, and reopened.\<close>

lemma answered: "\<not> isl (fst r) \<Longrightarrow> \<exists>t c d'. r = (Inr (t, c), d')"
  by (cases r; cases "fst r") auto

definition mergedByHand :: "(nat + task \<times> bool) \<times> db" where
  "mergedByHand = serveLifecycle 9000000 ''m'' ''WL-1'' (SetTo ''merged'') claimed"

definition reopenedByHand :: "(nat + task \<times> bool) \<times> db" where
  "reopenedByHand = reopenTask 9500000 ''o'' ''WL-1'' (snd mergedByHand)"

lemma claimed_facts:
  "storeOk claimed" "hierarchyOk claimed" "eventRecorded claimed ''cli'' ''m'' = None"
proof -
  show "storeOk claimed" by (simp add: claimed_def lease_ops_ok claimable_ok)
  have "task_edges claimed = []" by code_simp
  then show "hierarchyOk claimed" by (simp add: hierarchyOk_def edgeRel_def)
  show "eventRecorded claimed ''cli'' ''m'' = None" by code_simp
qed

theorem lifecycle_outcome_witness:
  "hasActiveLease claimed ''WL-1'' \<and> \<not> hasActiveLease (snd mergedByHand) ''WL-1'' \<and>
   stateOf (snd mergedByHand) ''WL-1'' = Some ''merged''"
proof -
  have "\<not> isl (fst mergedByHand)" by code_simp
  then obtain t c d' where r: "mergedByHand = (Inr (t, c), d')" using answered by blast
  have a: "hasActiveLease claimed ''WL-1''" by code_simp
  have m: "snd mergedByHand = d'" by (simp add: r)
  show ?thesis
    using lifecycle_outcome[OF r[unfolded mergedByHand_def] claimed_facts(3,1,2)] a unfolding m
    by (simp add: stateOf_def)
qed

text \<open>C13: A reopened task does not fall back: whatever is on main and deployed,
  resolving its delivery moves nothing until a commit of it is seen again.\<close>

theorem reopen_sticks:
  assumes "reopenTask now x tid d = (Inr (t, c), d')" "eventRecorded d ''cli'' x = None"
    and "storeOk d" "hierarchyOk d"
  shows "t_state t = ''ready'' \<and> ResolveDelivery now' tid repo ev d' = Inr (False, d')"
proof -
  have s: "serveLifecycle now x tid Reopen d = (Inr (t, c), d')" using assms(1) by simp
  obtain ty j d2 where
    tx: "lifecycleTx now Reopen tid (next_event_id d) (appendEvent ''cli'' x ty j now d) = Inr d2"
    and d': "d' = CloseActiveLease now tid d2" and t: "taskRow d' tid = Some t"
    using finishTask_Inr[OF assms(1)[unfolded reopenTask_def] assms(2)] by auto
  define d1 where "d1 = appendEvent ''cli'' x ty j now d"
  have e: "tasks d1 = tasks d" "task_edges d1 = task_edges d" "leases d1 = leases d"
    "next_lease_id d1 = next_lease_id d" by (simp_all add: d1_def appendEvent_def)
  have h: "hierarchyOk d1" using hierarchyOk_cong[OF e(2)] assms(4) by simp
  note o = lifecycleTx_outcome[OF tx[folded d1_def] h]
  have "leasesOk d2" using leasesOk_cong[of d2 d] o(2,3) e(3,4) assms(3) by (simp add: storeOk_def)
  note c = CloseActiveLease_outcome[OF this, where now = now and tid = tid, folded d']
  have "LandedMainID d' tid repo = None"
    using c(5) o(4) by (simp add: LandedMainID_def landedIDs_def maxID_def)
  then show ?thesis using resolve_skips[of tid d' repo] o(1) t c(4) by (auto simp: taskRow_def)
qed

theorem reopen_sticks_witness:
  "\<exists>t c d'. reopenedByHand = (Inr (t, c), d') \<and> t_state t = ''ready'' \<and>
     ResolveDelivery 9600000 ''WL-1'' ''r'' 7 d' = Inr (False, d')"
proof -
  let ?d = "snd mergedByHand"
  have "\<not> isl (fst reopenedByHand)" by code_simp
  then obtain t c d' where r: "reopenedByHand = (Inr (t, c), d')" using answered by blast
  have "leases ?d = [\<lparr>l_id = 1, l_task = ''WL-1'', l_actor = ''ada'', l_worktree = ''/w'',
      l_acquired_at = 3000000, l_renewed_at = Some 3000000, l_expires_at = 7203000000, l_released_at = Some 9000000\<rparr>]"
    "map t_id (tasks ?d) = [''WL-1'']" "next_lease_id ?d = 2" by code_simp+
  then have "storeOk ?d" by (simp add: storeOk_def leasesOk_def)
  moreover have "task_edges ?d = []" by code_simp
  then have "hierarchyOk ?d" by (simp add: hierarchyOk_def edgeRel_def)
  moreover have "eventRecorded ?d ''cli'' ''o'' = None" by code_simp
  ultimately show ?thesis using reopen_sticks[OF r[unfolded reopenedByHand_def]] r by blast
qed

section \<open>The next task of a busy worktree\<close>

lemma Claim_busy:
  assumes "l \<in> set (leases d)" "active l" "l_actor l = a" "l_worktree l = w" "storeOk d"
    and "eventRecorded d ''cli'' x = None"
  shows "\<exists>e. Claim now x tid a w ttl d = (Inl e, burnId d)"
proof (cases "fst (Claim now x tid a w ttl d)")
  case (Inl e)
  then show ?thesis
    by (cases "Claim now x tid a w ttl d")
      (auto simp: Claim_def RecordEvent_def outcome_def split: if_splits option.splits sum.splits prod.splits)
next
  case (Inr v)
  define d1 where "d1 = appendEvent ''cli'' x ''lease.claimed'' (claimPayload tid a w) now d"
  obtain l' d' where c: "claimTx (truncSec now) tid a w (effectiveTTL ttl) (next_event_id d) d1 = Inr (l', d')"
    using Inr assms(6)
    by (auto simp: Claim_def RecordEvent_def outcome_def eventSources_def d1_def split: if_splits option.splits sum.splits prod.splits)
  obtain t d2 where t: "taskRow d1 tid = Some t" "transitionKnown climbFuel (truncSec now) (next_event_id d) tid (t_state t)
      ''ready'' ''in_progress'' d1 = Inr d2"
    and i: "insertLease (truncSec now) (truncSec now + effectiveTTL ttl) tid a w d2 = Inr (l', d')"
  proof (rule claimTx_steps[OF c])
    fix t pol d2
    assume r: "row (\<lambda>t. t_id t = tid \<and> live t) (tasks d1) = Some t"
      and k: "transitionKnown climbFuel (truncSec now) (next_event_id d) tid (t_state t) ''ready'' ''in_progress'' d1 = Inr d2"
      and i: "insertLease (truncSec now) (truncSec now + effectiveTTL ttl) tid a w d2 = Inr (l', d')"
    have "distinct (map t_id (tasks d1))" using assms(5) by (simp add: d1_def appendEvent_def storeOk_def)
    from that[OF liveRow(1)[OF this r] k i] show thesis .
  qed
  have "otherTables d1 d2" by (rule machine_frame.transitionKnown_keeps[OF _ t]) simp_all
  then have "leases d2 = leases d" "next_lease_id d2 = next_lease_id d" by (simp_all add: d1_def appendEvent_def)
  moreover have "l_id l \<noteq> next_lease_id d" using assms(1,5) by (auto simp: storeOk_def leasesOk_def)
  ultimately have "worktreeTaken d2 (next_lease_id d2) a w"
    using assms(1-4) by (auto simp: worktreeTaken_def)
  then show ?thesis using i by (simp add: insertLease_def Let_def)
qed

lemma claimFirst_busy:
  assumes "l \<in> set (leases d)" "active l" "l_actor l = a" "l_worktree l = w" "storeOk d"
    and "\<And>i. eventRecorded d ''cli'' (x i) = None"
  shows "fst (claimFirst now x a w ttl ids d) = Inr None \<or> (\<exists>e. fst (claimFirst now x a w ttl ids d) = Inl e)"
  using assms
proof (induction ids arbitrary: d)
  case (Cons i ids)
  obtain e where c: "Claim now (x i) i a w ttl d = (Inl e, burnId d)"
    using Claim_busy[OF Cons.prems(1-5) Cons.prems(6)] by blast
  have b: "leases (burnId d) = leases d" "tasks (burnId d) = tasks d" "next_lease_id (burnId d) = next_lease_id d"
    by (simp_all add: burnId_def)
  then have "storeOk (burnId d)" using Cons.prems(5) storeOk_cong[of "burnId d" d] by simp
  then show ?case using c Cons.IH[of "burnId d"] Cons.prems b by simp
qed simp

text \<open>C38: To a caller whose worktree already holds an active lease claim-next hands
  out nothing, whatever is ready: every candidate counts as a lost race, and the
  answer is that no task is ready.\<close>

theorem claim_next_busy_worktree:
  assumes "l \<in> set (leases d)" "active l" "l_actor l = actorID" "l_worktree l = worktree" "storeOk d"
    and "\<And>i. eventRecorded d ''cli'' (extID i) = None"
  shows "fst (claimNext now extID project kind strict False worktree actorID ttl d) = NothingReady \<or>
    (\<exists>code. fst (claimNext now extID project kind strict False worktree actorID ttl d) = NextRefused code)"
proof -
  show ?thesis
  proof (cases "normalizeTaskKindList kind")
    case (Inr k)
    let ?r = "ClaimNext now extID project k strict False worktree actorID (secondsTTL ttl) d"
    have "fst ?r = Inr None \<or> (\<exists>e. fst ?r = Inl e)"
      using claimFirst_busy[OF assms] by (simp add: ClaimNext_def Let_def)
    then show ?thesis using Inr by (cases ?r) (auto simp: claimNext_def)
  qed (simp add: claimNext_def)
qed

text \<open>Ada holds WL-1 from the worktree she asks from; WL-2 is ready.\<close>

definition busyDb :: db where
  "busyDb = claimed\<lparr>tasks := tasks claimed @ [sampleTask ''WL-2'' ''feature'' ''ready'']\<rparr>"

theorem claim_next_busy_worktree_witness:
  "map t_id (Frontier busyDb ''wl'') = [''WL-2''] \<and>
   fst (claimNext 9000000 (\<lambda>i. ''c'' @ i) ''wl'' [] False False ''/w'' ''ada'' 0 busyDb) = NothingReady"
proof -
  let ?l = "\<lparr>l_id = 1, l_task = ''WL-1'', l_actor = ''ada'', l_worktree = ''/w'',
      l_acquired_at = 3000000, l_renewed_at = Some 3000000, l_expires_at = 7203000000, l_released_at = None\<rparr>"
  let ?r = "fst (claimNext 9000000 (\<lambda>i. ''c'' @ i) ''wl'' [] False False ''/w'' ''ada'' 0 busyDb)"
  have l: "leases busyDb = [?l]" "map t_id (tasks busyDb) = [''WL-1'', ''WL-2'']" "next_lease_id busyDb = 2"
    by code_simp+
  then have "storeOk busyDb" by (simp add: storeOk_def leasesOk_def)
  moreover have "map ev_external_id (events busyDb) = [''x'']" by code_simp
  then have "eventRecorded busyDb ''cli'' (''c'' @ i) = None" for i
    by (auto simp: eventRecorded_def row_None_iff map_eq_Cons_conv)
  ultimately have "?r = NothingReady \<or> (\<exists>code. ?r = NextRefused code)"
    using claim_next_busy_worktree[of ?l busyDb "''ada''" "''/w''" "\<lambda>i. ''c'' @ i"] l(1) by simp
  moreover have "?r \<noteq> NextRefused code" for code by code_simp
  moreover have "map t_id (Frontier busyDb ''wl'') = [''WL-2'']" by code_simp
  ultimately show ?thesis by blast
qed

end
