(* ===== verification/EventLoop.thy ===== *)
theory EventLoop
  imports EventLog
begin

text \<open>
  The subscriber loop (internal/eventbus/loop.go) and the checks of an emitted
  payload (emit.go, vocab.go). One pass of the loop with the lock held is a
  function of the database; acquiring and losing the lock, a cancelled context
  and the other transactions on the database are steps of a relation. Waiting,
  logging and metrics are left out.
\<close>

section \<open>A pass\<close>

text \<open>A handler runs its own transactions on the database and answers an outcome,
  or None for an error.\<close>

type_synonym handler = "event \<Rightarrow> db \<Rightarrow> string option \<times> db"

text \<open>The events handled before the first failure, whether there was one, and the
  database the handler left.\<close>

fun handleBatch :: "handler \<Rightarrow> event list \<Rightarrow> db \<Rightarrow> event list \<times> bool \<times> db" where
  "handleBatch h [] d = ([], False, d)"
| "handleBatch h (e # es) d =
     (case h e d of
        (None, d') \<Rightarrow> ([], True, d')
      | (Some _, d') \<Rightarrow> (case handleBatch h es d' of (hs, failed, d'') \<Rightarrow> (e # hs, failed, d'')))"

definition handledUpTo :: "event list \<Rightarrow> int" where
  "handledUpTo hs = (if hs = [] then 0 else ev_id (last hs))"

definition outcomeLabel :: "string \<Rightarrow> string" where
  "outcomeLabel out = (if out = ''suppressed'' then ''suppressed'' else ''applied'')"

definition defaultBatchSize :: int where
  "defaultBatchSize = 100"

text \<open>How the loop goes on: with the lock, without it, or not at all.\<close>

datatype loop_next = KeepLock | DropLock | EndLoop

definition loopPass ::
  "string \<Rightarrow> int \<Rightarrow> handler \<Rightarrow> int \<Rightarrow> bool \<Rightarrow> db \<Rightarrow> loop_next \<times> event list \<times> db" where
  "loopPass name batchSize h now cancelled d =
     (let n = (if batchSize \<le> 0 then defaultBatchSize else batchSize) in
      case ReadEventBatch now name (nat n) d of
        Inl e \<Rightarrow> (if e = ErrNotFound then EndLoop else DropLock, [], d)
      | Inr (es, d1) \<Rightarrow>
          if es = [] then (KeepLock, [], d1)
          else case handleBatch h es d1 of (hs, failed, d2) \<Rightarrow>
            if cancelled then (EndLoop, hs, d2)
            else (case (if 0 < handledUpTo hs then AckEvents now name (handledUpTo hs) d2 else Inr d2) of
              Inl _ \<Rightarrow> (DropLock, hs, d2)
            | Inr d3 \<Rightarrow>
                if \<not> failed then (KeepLock, hs, d3)
                else (case ResetEventRead now name d3 of
                        Inl _ \<Rightarrow> (DropLock, hs, d3) | Inr d4 \<Rightarrow> (KeepLock, hs, d4))))"

text \<open>Acquiring rewinds the read offset.\<close>

definition acquired :: "string \<Rightarrow> int \<Rightarrow> db \<Rightarrow> err + db" where
  "acquired name now d = ResetEventRead now name d"

section \<open>The loop among other transactions\<close>

text \<open>The ids a reader may be given, and what the log keeps: ids are unique,
  positive and below the sequence, and no cursor is beyond it.\<close>

definition readableIds :: "db \<Rightarrow> int set" where
  "readableIds d = set (map ev_id (filter (eventHorizon d) (events d)))"

definition logOk :: "string \<Rightarrow> db \<Rightarrow> bool" where
  "logOk name d \<longleftrightarrow> 0 < next_event_id d \<and> distinct (map ev_id (events d)) \<and>
     (\<forall>e\<in>set (events d). 0 < ev_id e \<and> ev_id e < next_event_id d) \<and>
     (case subRow d name of None \<Rightarrow> True
      | Some s \<Rightarrow> sb_last_acked s \<le> sb_last_read s \<and> sb_last_read s < next_event_id d)"

text \<open>What everybody else may do: anything that keeps the log in order and leaves
  this subscriber's row alone. Events may become readable anywhere, behind the
  cursor too: \<open>lateIds\<close> are those that do so at or below the acknowledged
  offset (EventRace shows when that happens).\<close>

definition others :: "string \<Rightarrow> db \<Rightarrow> db \<Rightarrow> bool" where
  "others name d d' \<longleftrightarrow> subRow d' name = subRow d name \<and> (logOk name d \<longrightarrow> logOk name d')"

definition lateIds :: "string \<Rightarrow> db \<Rightarrow> db \<Rightarrow> int set" where
  "lateIds name d d' =
     {i \<in> readableIds d'. i \<notin> readableIds d \<and>
        (case subRow d' name of None \<Rightarrow> False | Some s \<Rightarrow> i \<le> sb_last_acked s)}"

text \<open>The state: whether the lock is held (by this process or another: one at a
  time), the ids handled so far, the ids that came late, and the database.\<close>

type_synonym loop_state = "bool \<times> int list \<times> int set \<times> db"

inductive loopStep :: "string \<Rightarrow> int \<Rightarrow> handler \<Rightarrow> loop_state \<Rightarrow> loop_state \<Rightarrow> bool"
  for name batchSize h where
  Acquire: "acquired name now d = Inr d' \<Longrightarrow>
     loopStep name batchSize h (False, tr, late, d) (True, tr, late, d')"
| Pass: "loopPass name batchSize h now cancelled d = (nxt, hs, d') \<Longrightarrow>
     loopStep name batchSize h (True, tr, late, d)
       (nxt = KeepLock, tr @ map ev_id hs, late \<union> lateIds name d d', d')"
| Lost: "loopStep name batchSize h (True, tr, late, d) (False, tr, late, d)"
| Others: "others name d d' \<Longrightarrow>
     loopStep name batchSize h (b, tr, late, d) (b, tr, late \<union> lateIds name d d', d')"

inductive_cases loopStepE: "loopStep name batchSize h s s'"

section \<open>Emitted payloads\<close>

definition baseProperties :: "string list" where
  "baseProperties = [CHR 0x40 # ''context'', CHR 0x40 # ''type'', CHR 0x40 # ''id'',
     ''prov:atTime'', ''prov:wasAssociatedWith'', ''wl:subject'']"

definition payloadProperties :: "(string \<times> string list) list" where
  "payloadProperties =
     [(''wl:DocumentSubmitted'', []),
      (''wl:DocumentAccepted'', [''wl:fromStatus'', ''wl:toStatus'']),
      (''wl:ReferenceClassified'', []),
      (''wl:ClassificationRepaired'', []),
      (''wl:ReviewOpened'', [''wl:reason'']),
      (''wl:ReviewRoundSubmitted'', [''wl:reviewRole'', ''wl:client'', ''wl:focused'', ''wl:threadCount'']),
      (''wl:ReviewQuestionAsked'', [''wl:threadIntent'']),
      (''wl:ReviewQuestionAnswered'', []),
      (''wl:ReviewThreadResolved'', [''wl:threadStatus'']),
      (''wl:ReviewVerdictRecorded'', [''wl:reviewVerdict'']),
      (''wl:ReviewClosed'', [''wl:outcome''])]"

definition KnownType :: "string \<Rightarrow> bool" where
  "KnownType ty \<longleftrightarrow> map_of payloadProperties ty \<noteq> None"

text \<open>validatePayload: True when it returns no error.\<close>

definition validatePayload :: "string \<Rightarrow> string list \<Rightarrow> bool" where
  "validatePayload ty keys =
     (case map_of payloadProperties ty of
        None \<Rightarrow> False
      | Some extra \<Rightarrow> (\<forall>k\<in>set keys. k \<in> set (baseProperties @ extra)) \<and> (\<forall>p\<in>set extra. p \<in> set keys))"

text \<open>Emit: the properties are those of the event, the id is the log's.\<close>

definition Emit ::
  "int \<Rightarrow> string \<Rightarrow> string \<Rightarrow> string \<Rightarrow> (string \<times> json) list \<Rightarrow> (int \<Rightarrow> string) \<Rightarrow>
     (int \<Rightarrow> db \<Rightarrow> err + 'a \<times> db) \<Rightarrow> db \<Rightarrow> (err + int \<times> 'a option) \<times> db" where
  "Emit now source ty extID props eventCURIE app d =
     (if \<not> validatePayload ty (map fst props) then (Inl (ParseError ''validate payload''), d)
      else RecordEventWithID now source extID ty
        (\<lambda>i. Inr (mergeJson
           [(CHR 0x40 # ''context'', JStr ''https://worklode.io/ns/ontology#''),
            (CHR 0x40 # ''type'', JStr ty), (CHR 0x40 # ''id'', JStr (eventCURIE i))] (JObj props)))
        app d)"

end
