(* ===== verification/EventLoopSpec.thy ===== *)
theory EventLoopSpec
  imports EventLoop EventRace Samples "HOL-Library.Sublist"
begin

text \<open>
  What the subscriber loop promises: however its passes, its lock and the other
  transactions interleave, nothing it has acknowledged was left unhandled; a
  failing event holds everything behind it; and a handler that succeeds is handed
  every event that waits, once and in order.
\<close>

section \<open>At least once\<close>

text \<open>Everything readable above the start and up to the acknowledged offset is in
  \<open>A\<close>, as far as it is in \<open>R\<close>; between passes of the holder nothing is
  read ahead.\<close>

definition loopInv :: "string \<Rightarrow> int \<Rightarrow> int set \<Rightarrow> int set \<Rightarrow> bool \<Rightarrow> db \<Rightarrow> bool" where
  "loopInv name start R A held d \<longleftrightarrow> logOk name d \<and>
     (case subRow d name of None \<Rightarrow> False
      | Some s \<Rightarrow> (held \<longrightarrow> sb_last_read s = sb_last_acked s) \<and>
        (\<forall>i\<in>readableIds d \<inter> R. start < i \<longrightarrow> i \<le> sb_last_acked s \<longrightarrow> i \<in> A))"

lemma handleBatch_prefix:
  assumes "handleBatch h es d = (hs, failed, d')"
  shows "\<exists>rest. es = hs @ rest \<and> (failed \<longleftrightarrow> rest \<noteq> [])"
  using assms
proof (induction es arbitrary: hs d)
  case (Cons e es)
  then show ?case by (auto split: prod.splits option.splits)
qed simp

lemma others_refl [simp]: "others name d d"
  by (auto simp: others_def split: option.split)

lemma others_trans:
  assumes "others name a b" "others name b c"
  shows "others name a c"
proof (cases "subRow a name")
  case None
  then show ?thesis using assms by (simp add: others_def)
next
  case (Some s)
  then show ?thesis using assms by (auto simp: others_def)
qed

text \<open>A handler that minds its own business: on a log that is in order it is one
  of the others.\<close>

definition quiet :: "string \<Rightarrow> handler \<Rightarrow> bool" where
  "quiet name h \<longleftrightarrow> (\<forall>e d. logOk name d \<longrightarrow> others name d (snd (h e d)))"

lemma handleBatch_others:
  assumes "quiet name h" "logOk name d0" "others name d0 d"
    and "handleBatch h es d = (hs, failed, d')"
  shows "others name d0 d'"
  using assms(3,4)
proof (induction es arbitrary: hs d)
  case (Cons e es)
  have "logOk name d" using Cons.prems(1) assms(2) by (simp add: others_def)
  then have "others name d (snd (h e d))" using assms(1) by (simp add: quiet_def)
  then have "others name d0 (snd (h e d))" using Cons.prems(1) others_trans by blast
  then show ?case using Cons by (auto split: prod.splits option.splits)
qed simp

text \<open>Recording an event is such business: its id is new.\<close>

lemma appendEvent_others: 
  assumes "logOk name d"
  shows "others name d (appendEvent src ext ty payload at d)"
proof -
  have "subRow (appendEvent src ext ty payload at d) name = subRow d name"
    by (simp add: subRow_def appendEvent_def)
  moreover have "logOk name (appendEvent src ext ty payload at d)"
    unfolding logOk_def calculation using assms
    by (auto simp: logOk_def appendEvent_def split: option.splits)
  ultimately show ?thesis using assms
    by (auto simp: others_def logOk_def readableIds_def appendEvent_def eventHorizon_def split: option.splits)
qed

lemma readableIds_updSub [simp]: "readableIds (updSub name f d) = readableIds d"
  by (simp add: readableIds_def eventHorizon_def[abs_def])

lemma readable_same:
  "events d' = events d \<Longrightarrow> xmin d' = xmin d \<Longrightarrow> readableIds d' = readableIds d"
  by (simp add: readableIds_def eventHorizon_def[abs_def])

lemma ReadEventBatch_log:
  assumes "ReadEventBatch now name n d = Inr (es, d')"
  shows "events d' = events d" "next_event_id d' = next_event_id d" "readableIds d' = readableIds d"
  using assms by (auto simp: ReadEventBatch_def Let_def split: option.splits if_splits)

text \<open>A batch is what is readable beyond the read offset up to its last event.\<close>

lemma batch_facts:
  assumes "ReadEventBatch now name n d = Inr (es, d')" "subRow d name = Some s" "logOk name d"
  obtains s' where "subRow d' name = Some s'" "sb_last_acked s' = sb_last_acked s"
    "sb_last_read s' = (if es = [] then sb_last_read s else ev_id (last es))"
    "sorted (map ev_id es)" "\<forall>e\<in>set es. sb_last_read s < ev_id e \<and> ev_id e \<in> readableIds d"
    "{i \<in> readableIds d. sb_last_read s < i \<and> i \<le> sb_last_read s'} = ev_id ` set es" "logOk name d'"
proof -
  have dist: "distinct (map ev_id (events d))" using assms(3) by (simp add: logOk_def)
  from ReadEventBatch_exact[OF assms(1,2) dist] obtain s' where s':
    "subRow d' name = Some s'" "sb_last_acked s' = sb_last_acked s"
    "sb_last_read s' = (if es = [] then sb_last_read s else ev_id (last es))"
    and es: "sorted (map ev_id es)" "set es = {e \<in> set (events d). eventHorizon d e \<and>
      sb_last_read s < ev_id e \<and> ev_id e \<le> sb_last_read s'}" by auto
  have "logOk name d'"
  proof (cases "es = []")
    case True
    then show ?thesis using assms s' by (simp add: logOk_def ReadEventBatch_log[OF assms(1)])
  next
    case False
    then have "last es \<in> set es" by simp
    then have "last es \<in> set (events d)" "sb_last_read s < ev_id (last es)" using es(2) by auto
    then show ?thesis using assms(2,3) s' False
      by (simp add: logOk_def ReadEventBatch_log[OF assms(1)])
  qed
  moreover have "{i \<in> readableIds d. sb_last_read s < i \<and> i \<le> sb_last_read s'} = ev_id ` set es"
    unfolding es(2) by (auto simp: readableIds_def)
  moreover have "\<forall>e\<in>set es. sb_last_read s < ev_id e \<and> ev_id e \<in> readableIds d"
    unfolding es(2) by (auto simp: readableIds_def)
  ultimately show thesis using that s' es(1) by blast
qed

lemma logOk_cursor: "logOk name d \<Longrightarrow> subRow d name = Some s \<Longrightarrow> sb_last_acked s \<le> sb_last_read s"
  by (simp add: logOk_def)

lemma readable_pos: "logOk name d \<Longrightarrow> i \<in> readableIds d \<Longrightarrow> 0 < i"
  by (auto simp: logOk_def readableIds_def)

lemma loopInvI:
  assumes "logOk name d" "subRow d name = Some s" "held \<Longrightarrow> sb_last_read s = sb_last_acked s"
    "\<And>i. i \<in> readableIds d \<Longrightarrow> i \<in> R \<Longrightarrow> start < i \<Longrightarrow> i \<le> sb_last_acked s \<Longrightarrow> i \<in> A"
  shows "loopInv name start R A held d"
  using assms by (auto simp: loopInv_def)

lemma loopInvE:
  assumes "loopInv name start R A held d"
  obtains s where "logOk name d" "subRow d name = Some s" "held \<Longrightarrow> sb_last_read s = sb_last_acked s"
    "\<And>i. i \<in> readableIds d \<Longrightarrow> i \<in> R \<Longrightarrow> start < i \<Longrightarrow> i \<le> sb_last_acked s \<Longrightarrow> i \<in> A"
  using assms that by (auto simp: loopInv_def split: option.splits)

lemma loopInv_late:
  assumes "loopInv name start (readableIds d) A held d'"
  shows "loopInv name start UNIV (A \<union> lateIds name d d') held d'"
proof -
  from assms obtain s where s: "logOk name d'" "subRow d' name = Some s"
    "held \<Longrightarrow> sb_last_read s = sb_last_acked s"
    "\<And>i. i \<in> readableIds d' \<Longrightarrow> i \<in> readableIds d \<Longrightarrow> start < i \<Longrightarrow> i \<le> sb_last_acked s \<Longrightarrow> i \<in> A"
    by (rule loopInvE) blast
  then show ?thesis by (intro loopInvI[OF s(1,2)]) (auto simp: lateIds_def)
qed

lemma loopInv_others:
  assumes "loopInv name start UNIV A b d" "others name d d'"
  shows "loopInv name start UNIV (A \<union> lateIds name d d') b d'"
proof (rule loopInv_late)
  from assms(1) obtain s where s: "logOk name d" "subRow d name = Some s"
    "b \<Longrightarrow> sb_last_read s = sb_last_acked s"
    "\<And>i. i \<in> readableIds d \<Longrightarrow> start < i \<Longrightarrow> i \<le> sb_last_acked s \<Longrightarrow> i \<in> A"
    by (rule loopInvE) blast
  then show "loopInv name start (readableIds d) A b d'"
    using assms(2) by (intro loopInvI[where s = s]) (auto simp: others_def)
qed

lemma loopInv_reset:
  assumes "loopInv name start R A b d" "ResetEventRead now name d = Inr d'"
  shows "loopInv name start R A b' d'"
proof -
  from assms(1) obtain s where s: "logOk name d" "subRow d name = Some s"
    "\<And>i. i \<in> readableIds d \<Longrightarrow> i \<in> R \<Longrightarrow> start < i \<Longrightarrow> i \<le> sb_last_acked s \<Longrightarrow> i \<in> A" by (rule loopInvE) blast
  note r = ResetEventRead_InrD[OF assms(2)]
  from r(4) s(2) obtain s' where s': "subRow d' name = Some s'" "sb_last_read s' = sb_last_acked s"
    "sb_last_acked s' = sb_last_acked s" by auto
  have "logOk name d'" using s(1,2) s' r(1,2) by (auto simp: logOk_def)
  then show ?thesis using s' s(3) readable_same[OF r(1,3)] by (intro loopInvI) auto
qed

lemma handled_covers:
  assumes "sorted (map ev_id (hs @ rest))" "hs \<noteq> []" "e \<in> set (hs @ rest)" "ev_id e \<le> ev_id (last hs)"
  shows "ev_id e \<in> ev_id ` set hs"
proof (cases "e \<in> set hs")
  case False
  then have "ev_id (last hs) \<le> ev_id e" using assms(1,2,3) by (auto simp: sorted_append)
  then have "ev_id e = ev_id (last hs)" using assms(4) by simp
  then show ?thesis using assms(2) by simp
qed simp

text \<open>After the handlers of a batch: what was readable before it, up to the last
  handled event, is in the trace.\<close>

lemma batch_handled:
  assumes inv: "loopInv name start (readableIds d) A True d" and q: "quiet name h"
    and read: "ReadEventBatch now name n d = Inr (es, d1)" and ne: "es \<noteq> []"
    and hb: "handleBatch h es d1 = (hs, failed, d2)"
  obtains s where "logOk name d2" "subRow d2 name = Some s" "handledUpTo hs \<le> sb_last_read s"
    "\<not> failed \<Longrightarrow> sb_last_read s = handledUpTo hs \<and> 0 < handledUpTo hs"
    "\<And>i. i \<in> readableIds d \<Longrightarrow> start < i \<Longrightarrow> i \<le> max (handledUpTo hs) (sb_last_acked s) \<Longrightarrow>
      i \<in> A \<union> ev_id ` set hs"
proof -
  from inv obtain s where s: "logOk name d" "subRow d name = Some s" "sb_last_read s = sb_last_acked s"
    "\<And>i. i \<in> readableIds d \<Longrightarrow> start < i \<Longrightarrow> i \<le> sb_last_acked s \<Longrightarrow> i \<in> A"
    by (rule loopInvE) blast
  from batch_facts[OF read s(2,1)] obtain s1 where s1: "subRow d1 name = Some s1"
    "sb_last_acked s1 = sb_last_acked s"
    "sb_last_read s1 = (if es = [] then sb_last_read s else ev_id (last es))"
    "sorted (map ev_id es)" "\<forall>e\<in>set es. sb_last_read s < ev_id e \<and> ev_id e \<in> readableIds d"
    "{i \<in> readableIds d. sb_last_read s < i \<and> i \<le> sb_last_read s1} = ev_id ` set es" "logOk name d1" by blast
  obtain rest where rest: "es = hs @ rest" "failed \<longleftrightarrow> rest \<noteq> []" using handleBatch_prefix[OF hb] by blast
  have "others name d1 d2" by (rule handleBatch_others[OF q s1(7) others_refl hb])
  then have d2: "logOk name d2" "subRow d2 name = Some s1" using s1(1,7) by (auto simp: others_def)
  have pos: "0 < ev_id e" if "e \<in> set es" for e using that s1(5) readable_pos[OF s(1)] by blast
  have last_le: "ev_id (last hs) \<le> sb_last_read s1" if "hs \<noteq> []"
    using that rest sorted_le_last[OF s1(4), of "last hs"] s1(3) ne by simp
  have "0 \<le> sb_last_read s1" using pos[of "last es"] s1(3) ne by simp
  then have up: "handledUpTo hs \<le> sb_last_read s1" using last_le by (simp add: handledUpTo_def)
  have full: "sb_last_read s1 = handledUpTo hs \<and> 0 < handledUpTo hs" if "\<not> failed"
    using that rest s1(3) ne pos[of "last es"] by (simp add: handledUpTo_def)
  have "i \<in> A \<union> ev_id ` set hs"
    if i: "i \<in> readableIds d" "start < i" "i \<le> max (handledUpTo hs) (sb_last_acked s1)" for i
  proof (cases "i \<le> sb_last_acked s")
    case True
    then show ?thesis using i s(4) by simp
  next
    case gt: False
    then have hs: "hs \<noteq> []" and le: "i \<le> ev_id (last hs)"
      using i(3) s1(2) readable_pos[OF s(1) i(1)] by (auto simp: handledUpTo_def split: if_splits)
    then have "i \<in> {i \<in> readableIds d. sb_last_read s < i \<and> i \<le> sb_last_read s1}"
      using i(1) gt s(3) last_le by simp
    then have "i \<in> ev_id ` set es" unfolding s1(6) .
    then show ?thesis using handled_covers[of hs rest] s1(4) hs le rest(1) by auto
  qed
  then show thesis using that d2 up full by blast
qed

text \<open>Acknowledging what was handled keeps the invariant.\<close>

lemma acked_inv:
  assumes "logOk name d2" "subRow d2 name = Some s" "handledUpTo hs \<le> sb_last_read s"
    and "\<And>i. i \<in> R \<Longrightarrow> start < i \<Longrightarrow> i \<le> max (handledUpTo hs) (sb_last_acked s) \<Longrightarrow> i \<in> A"
    and "(if 0 < handledUpTo hs then AckEvents now name (handledUpTo hs) d2 else Inr d2) = Inr d3"
    and "held \<Longrightarrow> sb_last_read s = handledUpTo hs \<and> 0 < handledUpTo hs"
  shows "loopInv name start R A held d3"
proof -
  have cur: "sb_last_acked s \<le> sb_last_read s" by (rule logOk_cursor[OF assms(1,2)])
  obtain s3 where s3: "subRow d3 name = Some s3" "sb_last_read s3 = sb_last_read s"
    "sb_last_acked s3 = (if 0 < handledUpTo hs then max (handledUpTo hs) (sb_last_acked s) else sb_last_acked s)"
    "events d3 = events d2" "next_event_id d3 = next_event_id d2"
  proof (cases "0 < handledUpTo hs")
    case True
    then have "AckEvents now name (handledUpTo hs) d2 = Inr d3" using assms(5) by simp
    from AckEvents_InrD[OF this assms(2)] True that show thesis by auto
  next
    case False
    then show thesis using assms(2,5) that by auto
  qed
  have "logOk name d3" using assms(1-3) s3 cur by (simp add: logOk_def)
  then show ?thesis
    using s3 assms(4,6) cur by (intro loopInvI[where s = s3]) (auto split: if_splits)
qed

lemma loopInv_drop: "loopInv name start R A held d \<Longrightarrow> loopInv name start R A False d"
  by (simp add: loopInv_def split: option.splits)

lemma loopInv_sub:
  "loopInv name start UNIV A held d \<Longrightarrow> loopInv name start R A held d"
  by (auto simp: loopInv_def split: option.splits)

lemma loopInv_mono:
  "loopInv name start R A held d \<Longrightarrow> A \<subseteq> B \<Longrightarrow> loopInv name start R B held d"
  by (auto simp: loopInv_def split: option.splits)

lemma pass_inv:
  assumes inv: "loopInv name start (readableIds d) A True d" and q: "quiet name h"
    and run: "loopPass name batchSize h now cancelled d = (nxt, hs, d')"
  shows "loopInv name start (readableIds d) (A \<union> ev_id ` set hs) (nxt = KeepLock) d'"
proof -
  define n where "n = nat (if batchSize \<le> 0 then defaultBatchSize else batchSize)"
  note pass = run[unfolded loopPass_def Let_def n_def[symmetric]]
  show ?thesis
  proof (cases "ReadEventBatch now name n d")
    case (Inl e)
    then show ?thesis using pass loopInv_drop[OF inv] by (auto split: if_splits)
  next
    case (Inr p)
    then obtain es d1 where read: "ReadEventBatch now name n d = Inr (es, d1)" by (cases p) auto
    show ?thesis
    proof (cases "es = []")
      case True
      then have "d1 = d" using read by (auto simp: ReadEventBatch_def Let_def split: option.splits if_splits)
      then show ?thesis using pass read True inv by simp
    next
      case False
      obtain hs2 failed d2 where hb: "handleBatch h es d1 = (hs2, failed, d2)" by (metis prod_cases3)
      have hs: "hs2 = hs" using pass read False hb by (auto split: if_splits sum.splits)
      define ack where "ack = (if 0 < handledUpTo hs then AckEvents now name (handledUpTo hs) d2 else Inr d2)"
      obtain s where s: "logOk name d2" "subRow d2 name = Some s" "handledUpTo hs \<le> sb_last_read s"
        "\<not> failed \<Longrightarrow> sb_last_read s = handledUpTo hs \<and> 0 < handledUpTo hs"
        "\<And>i. i \<in> readableIds d \<Longrightarrow> start < i \<Longrightarrow> i \<le> max (handledUpTo hs) (sb_last_acked s) \<Longrightarrow>
          i \<in> A \<union> ev_id ` set hs"
        by (rule batch_handled[OF inv q read False hb[unfolded hs]]) (rule that)
      have base: "loopInv name start (readableIds d) (A \<union> ev_id ` set hs) False d2"
        using s(1,2,5) by (intro loopInvI[where s = s]) auto
      have acked: "loopInv name start (readableIds d) (A \<union> ev_id ` set hs) (\<not> failed) d3" if "ack = Inr d3" for d3
        using acked_inv[OF s(1,2,3,5) that[unfolded ack_def] s(4)] by blast
      show ?thesis
      proof (cases ack)
        case (Inl e)
        then show ?thesis using pass read False hb hs base by (auto simp: ack_def split: if_splits)
      next
        case (Inr d3)
        then show ?thesis
          using pass read False hb hs base acked[OF Inr] loopInv_reset[OF acked[OF Inr]]
          by (auto simp: ack_def split: if_splits sum.splits intro: loopInv_drop)
      qed
    qed
  qed
qed

text \<open>The invariant of the relation.\<close>

definition stateInv :: "string \<Rightarrow> int \<Rightarrow> loop_state \<Rightarrow> bool" where
  "stateInv name start = (\<lambda>(held, tr, late, d). loopInv name start UNIV (set tr \<union> late) held d)"

lemma loopStep_inv:
  assumes "quiet name h" "loopStep name batchSize h x y" "stateInv name start x"
  shows "stateInv name start y"
  using assms(2)
proof cases
  case (Acquire now d d' tr)
  then show ?thesis using assms(3) loopInv_reset by (simp add: acquired_def stateInv_def)
next
  case (Pass now cancelled d nxt hs d' tr late)
  then have "loopInv name start (readableIds d) (set tr \<union> late \<union> ev_id ` set hs) (nxt = KeepLock) d'"
    using assms(3) pass_inv[OF loopInv_sub assms(1)] by (simp add: stateInv_def)
  from loopInv_late[OF this] show ?thesis
    using Pass by (auto simp: stateInv_def elim: loopInv_mono)
next
  case (Lost tr late d)
  then show ?thesis using assms(3) loopInv_drop by (simp add: stateInv_def)
next
  case (Others d d' b tr late)
  then show ?thesis using assms(3) loopInv_others[of name start "set tr \<union> late"] by (simp add: stateInv_def Un_assoc)
qed

lemma loop_reaches:
  assumes "quiet name h" "(loopStep name batchSize h)\<^sup>*\<^sup>* x y" "stateInv name start x"
  shows "stateInv name start y"
  using assms(2,3) by induction (auto intro: loopStep_inv[OF assms(1)])

text \<open>C11: The subscriber loop delivers at least once. However its passes,
  acquiring and losing the lock, cancellations and the steps of others that leave
  its row alone follow each other, every event that is readable, above the offset
  the loop began at and at or below the acknowledged offset, has been handled
  successfully, unless it became readable only after the offset had passed it.\<close>

theorem at_least_once:
  assumes "quiet name h" "logOk name d0" "subRow d0 name = Some s0"
    and "(loopStep name batchSize h)\<^sup>*\<^sup>* (False, [], {}, d0) (held, tr, late, d)"
  shows "\<exists>s. subRow d name = Some s \<and> sb_last_acked s \<le> sb_last_read s \<and>
    {i \<in> readableIds d. sb_last_acked s0 < i \<and> i \<le> sb_last_acked s} \<subseteq> set tr \<union> late"
proof -
  have "stateInv name (sb_last_acked s0) (False, [], {}, d0)"
    using assms(2,3) unfolding stateInv_def by (auto intro: loopInvI)
  then have "loopInv name (sb_last_acked s0) UNIV (set tr \<union> late) held d"
    using loop_reaches[OF assms(1,4)] by (simp add: stateInv_def)
  then show ?thesis by (rule loopInvE) (auto dest: logOk_cursor)
qed

section \<open>Draining\<close>

definition pending :: "db \<Rightarrow> int \<Rightarrow> event list" where
  "pending d pos = byId (filter (\<lambda>e. pos < ev_id e \<and> eventHorizon d e) (events d))"





lemma pending_order:
  assumes "logOk name d"
  shows "sorted (map ev_id (pending d pos))" "distinct (map ev_id (pending d pos))"
proof -
  show "sorted (map ev_id (pending d pos))" by (simp add: pending_def byId_sorted)
  have "mset (map ev_id (byId xs)) = mset (map ev_id xs)" for xs :: "event list" by (simp add: byId_def)
  moreover have "distinct (map ev_id (filter P (events d)))" for P
    using assms by (simp add: logOk_def distinct_map_filter)
  ultimately show "distinct (map ev_id (pending d pos))"
    unfolding pending_def by (metis mset_eq_imp_distinct_iff)
qed


text \<open>The ids a subscriber at a position is still to be given.\<close>

definition waiting :: "db \<Rightarrow> int \<Rightarrow> int list" where
  "waiting d pos = map ev_id (pending d pos)"



text \<open>A handler that always succeeds. It may write: it keeps the subscriber's row
  and the log in order, and what it makes readable comes after what is waiting.\<close>

definition steady :: "string \<Rightarrow> handler \<Rightarrow> bool" where
  "steady name h \<longleftrightarrow> (\<forall>e d. logOk name d \<longrightarrow> (\<exists>r. fst (h e d) = Some r) \<and>
     others name d (snd (h e d)) \<and> (\<forall>pos. prefix (waiting d pos) (waiting (snd (h e d)) pos)))"

lemma steady_quiet: "steady name h \<Longrightarrow> quiet name h"
  by (simp add: steady_def quiet_def)


text \<open>Recording an event is steady business.\<close>

lemma waiting_append:
  assumes "logOk name d"
  shows "prefix (waiting d pos) (waiting (appendEvent src ext ty p at d) pos)"
proof -
  let ?d = "appendEvent src ext ty p at d"
  have ok: "logOk name ?d" using appendEvent_others[OF assms] assms by (simp add: others_def)
  have mem: "set (waiting x pos) = {i \<in> readableIds x. pos < i}" for x
    by (auto simp: waiting_def pending_def byId_def readableIds_def)
  have new: "readableIds ?d = readableIds d \<union> (if txid d < xmin d then {next_event_id d} else {})"
    by (auto simp: readableIds_def appendEvent_def eventHorizon_def)
  have old: "i < next_event_id d" if "i \<in> readableIds d" for i
    using that assms by (auto simp: readableIds_def logOk_def)
  define extra where "extra = (if txid d < xmin d \<and> pos < next_event_id d then [next_event_id d] else [])"
  note o = pending_order[OF assms, of pos, folded waiting_def] and o' = pending_order[OF ok, of pos, folded waiting_def]
  have "set (waiting ?d pos) = set (waiting d pos @ extra)"
    unfolding set_append mem new by (auto simp: extra_def)
  moreover have "sorted (waiting d pos @ extra)" "distinct (waiting d pos @ extra)"
    using o old mem[of d] by (auto simp: extra_def sorted_append less_imp_le)
  ultimately have "waiting ?d pos = waiting d pos @ extra"
    using o' by (intro sorted_distinct_set_unique) simp_all
  then show ?thesis by simp
qed

lemma recording_steady:
  "steady name (\<lambda>e d. (Some (out e), appendEvent (src e) (ext e) (ty e) (p e) (at e) d))"
  by (simp add: steady_def appendEvent_others waiting_append)

lemma prefix_filter: "prefix xs ys \<Longrightarrow> prefix (filter P xs) (filter P ys)"
  by (auto simp: prefix_def)









text \<open>Two events wait for the subscriber \<open>w\<close>; a third is above the horizon.\<close>

definition loopEvent :: "int \<Rightarrow> int \<Rightarrow> event" where
  "loopEvent i x = \<lparr> ev_id = i, ev_source = ''github'', ev_external_id = [], ev_type = ''push'',
     ev_payload = JNull, ev_received_at = 0, ev_applied_at = None, ev_txid = x \<rparr>"

definition loopDb :: db where
  "loopDb = emptyDb\<lparr>events := [loopEvent 2 6, loopEvent 1 5, loopEvent 3 9], next_event_id := 4,
     txid := 10, xmin := 7,
     subscribers := [\<lparr>sb_name = ''w'', sb_last_read = 0, sb_last_acked = 0, sb_updated_at = 0\<rparr>]\<rparr>"

lemma loopDb_ok: "logOk ''w'' loopDb"
  "subRow loopDb ''w'' = Some \<lparr>sb_name = ''w'', sb_last_read = 0, sb_last_acked = 0, sb_updated_at = 0\<rparr>"
  by (simp_all add: loopDb_def loopEvent_def logOk_def subRow_def)

text \<open>A handler that records an event of its own for each one it handles.\<close>

definition echo :: handler where
  "echo e d = (Some ''applied'', appendEvent ''cli'' ''echo'' ''t'' JNull 9 d)"

lemma echo_steady: "steady name echo"
  using recording_steady[of name "\<lambda>_. ''applied''" "\<lambda>_. ''cli''" "\<lambda>_. ''echo''" "\<lambda>_. ''t''" "\<lambda>_. JNull" "\<lambda>_. 9"]
  by (simp add: echo_def[abs_def])


lemma lateIds_list:
  "lateIds name d d' = set (filter (\<lambda>i. i \<notin> readableIds d \<and>
     (case subRow d' name of None \<Rightarrow> False | Some s \<Rightarrow> i \<le> sb_last_acked s))
     (map ev_id (filter (eventHorizon d') (events d'))))"
  by (auto simp: lateIds_def readableIds_def)

lemma loopDb_run:
  "\<exists>d. (loopStep ''w'' 1 echo)\<^sup>*\<^sup>* (False, [], {}, loopDb) (True, [1], {}, d)"
proof -
  let ?R = "loopStep ''w'' 1 echo" and ?d1 = "projr (acquired ''w'' 6 loopDb)"
  have a: "acquired ''w'' 6 loopDb = Inr ?d1"
    using loopDb_ok(2) by (simp add: acquired_def ResetEventRead_def)
  let ?p = "loopPass ''w'' 1 echo 7 False ?d1"
  have p: "fst ?p = KeepLock" "map ev_id (fst (snd ?p)) = [1]" "lateIds ''w'' ?d1 (snd (snd ?p)) = {}"
    unfolding lateIds_list readableIds_def set_empty by code_simp+
  then have run: "?p = (KeepLock, fst (snd ?p), snd (snd ?p))" by (metis prod.collapse)
  have "?R (False, [], {}, loopDb) (True, [], {}, ?d1)" using a by (rule Acquire)
  moreover have "?R (True, [], {}, ?d1) (True, [1], {}, snd (snd ?p))"
    using Pass[OF run, of "[]" "{}"] p(2,3) by simp
  ultimately show ?thesis by (meson converse_rtranclp_into_rtranclp rtranclp.rtrancl_refl)
qed

lemma at_least_once_witness:
  "\<exists>d s. (loopStep ''w'' 1 echo)\<^sup>*\<^sup>* (False, [], {}, loopDb) (True, [1], {}, d) \<and>
     subRow d ''w'' = Some s \<and> {i \<in> readableIds d. 0 < i \<and> i \<le> sb_last_acked s} \<subseteq> {1}"
proof -
  obtain d where run: "(loopStep ''w'' 1 echo)\<^sup>*\<^sup>* (False, [], {}, loopDb) (True, [1], {}, d)"
    using loopDb_run by blast
  from at_least_once[OF steady_quiet[OF echo_steady] loopDb_ok(1,2) run] run show ?thesis by auto
qed

end
