(* ===== verification/DocText.thy ===== *)
theory DocText
  imports Schema
begin

text \<open>
  Design documents as text (internal/designdoc: designdoc.go, anchorruns.go,
  derive.go, renumber.go, lint.go; internal/mdfence): fenced blocks, headings,
  the parse into sections and back, the line runs of the anchors, numbering.
  Offsets are byte offsets. The YAML header is decoded and encoded by a library:
  both directions are parameters.
\<close>

section \<open>Bytes\<close>

definition nlChar :: char where "nlChar = CHR 0x0A"
definition crChar :: char where "crChar = CHR 0x0D"
definition tickChar :: char where "tickChar = CHR 0x60"

definition digitCh :: "char \<Rightarrow> bool" where
  "digitCh c \<longleftrightarrow> 48 \<le> (of_char c :: nat) \<and> (of_char c :: nat) \<le> 57"

definition lowerCh :: "char \<Rightarrow> bool" where
  "lowerCh c \<longleftrightarrow> 97 \<le> (of_char c :: nat) \<and> (of_char c :: nat) \<le> 122"

definition upperCh :: "char \<Rightarrow> bool" where
  "upperCh c \<longleftrightarrow> 65 \<le> (of_char c :: nat) \<and> (of_char c :: nat) \<le> 90"

definition wordCh :: "char \<Rightarrow> bool" where
  "wordCh c \<longleftrightarrow> digitCh c \<or> lowerCh c \<or> upperCh c \<or> c = CHR ''_''"

definition blankCh :: "char \<Rightarrow> bool" where
  "blankCh c \<longleftrightarrow> c = CHR 0x20 \<or> c = CHR 0x09"

definition trimRightOf :: "(char \<Rightarrow> bool) \<Rightarrow> string \<Rightarrow> string" where
  "trimRightOf p s = rev (dropWhile p (rev s))"

definition cut :: "string \<Rightarrow> nat \<Rightarrow> nat \<Rightarrow> string" where
  "cut s a b = take (b - a) (drop a s)"

section \<open>Fenced blocks\<close>

text \<open>Open: the marker a line opens a block with, and the info string.\<close>

definition fenceOpen :: "string \<Rightarrow> string \<times> string" where
  "fenceOpen line =
     (case dropWhile blankCh line of
        [] \<Rightarrow> ([], [])
      | c # r \<Rightarrow>
          if c \<noteq> tickChar \<and> c \<noteq> CHR 0x7E then ([], [])
          else let s = c # r; n = length (takeWhile (\<lambda>x. x = c) s); info = trimSpace (drop n s)
               in if n < 3 \<or> (c = tickChar \<and> tickChar \<in> set info) then ([], [])
                  else (take n s, info))"

text \<open>Closes, for a marker Open has returned (not empty).\<close>

definition fenceCloses :: "string \<Rightarrow> string \<Rightarrow> bool" where
  "fenceCloses line marker =
     (let s = dropWhile blankCh line; n = length (takeWhile (\<lambda>x. x = hd marker) s)
      in length marker \<le> n \<and> trimSpace (drop n s) = [])"

text \<open>Tracker.Fence: whether the line belongs to a block, and the marker after it.\<close>

definition trackFence :: "string \<Rightarrow> string \<Rightarrow> bool \<times> string" where
  "trackFence marker line =
     (if marker \<noteq> [] then (True, if fenceCloses line marker then [] else marker)
      else (fst (fenceOpen line) \<noteq> [], fst (fenceOpen line)))"

section \<open>Regular expressions\<close>

text \<open>The operators the heading pattern uses, with the meaning of the regexp
  package: of all matches the one a backtracking search finds first. A result is
  the rest of the text and the groups captured, best first.\<close>

datatype rx =
    Eps
  | Ch "char \<Rightarrow> bool"
  | Sq rx rx
  | Alt rx rx
  | Star rx
  | LazyStar rx
  | Grp nat rx

function matches :: "rx \<Rightarrow> string \<Rightarrow> (string \<times> (nat \<times> string) list) list" where
  "matches Eps s = [(s, [])]"
| "matches (Ch p) s = (case s of [] \<Rightarrow> [] | c # t \<Rightarrow> if p c then [(t, [])] else [])"
| "matches (Sq a b) s =
     concat (map (\<lambda>(t, cs). map (\<lambda>(u, ds). (u, cs @ ds)) (matches b t)) (matches a s))"
| "matches (Alt a b) s = matches a s @ matches b s"
| "matches (Star a) s =
     concat (map (\<lambda>(t, cs). if length t < length s
                            then map (\<lambda>(u, ds). (u, cs @ ds)) (matches (Star a) t) else [])
                 (matches a s)) @ [(s, [])]"
| "matches (LazyStar a) s =
     (s, []) #
     concat (map (\<lambda>(t, cs). if length t < length s
                            then map (\<lambda>(u, ds). (u, cs @ ds)) (matches (LazyStar a) t) else [])
                 (matches a s))"
| "matches (Grp n a) s =
     map (\<lambda>(t, cs). (t, cs @ [(n, take (length s - length t) s)])) (matches a s)"
  by pat_completeness auto
termination
  by (relation "measures [\<lambda>(r, s). size r, \<lambda>(r, s). length s]") auto

declare matches.simps [simp del]

definition Opt :: "rx \<Rightarrow> rx" where "Opt a = Alt a Eps"
definition Plus :: "rx \<Rightarrow> rx" where "Plus a = Sq a (Star a)"

fun Lit :: "string \<Rightarrow> rx" where
  "Lit [] = Eps"
| "Lit (c # s) = Sq (Ch (\<lambda>x. x = c)) (Lit s)"

fun Seqs :: "rx list \<Rightarrow> rx" where
  "Seqs [] = Eps"
| "Seqs (r # rs) = Sq r (Seqs rs)"

text \<open>A pattern between ^ and $, and a group of the match (empty when it took no
  part).\<close>

definition fullMatch :: "rx \<Rightarrow> string \<Rightarrow> (nat \<times> string) list option" where
  "fullMatch r s =
     (case filter (\<lambda>(t, cs). t = []) (matches r s) of [] \<Rightarrow> None | (t, cs) # _ \<Rightarrow> Some cs)"

definition group :: "(nat \<times> string) list \<Rightarrow> nat \<Rightarrow> string" where
  "group cs n = (case map_of (rev cs) n of None \<Rightarrow> [] | Some t \<Rightarrow> t)"

section \<open>Headings\<close>

definition blanks1 :: rx where "blanks1 = Plus (Ch blankCh)"
definition blanks0 :: rx where "blanks0 = Star (Ch blankCh)"
definition digits1 :: rx where "digits1 = Plus (Ch digitCh)"
definition hashCh :: rx where "hashCh = Ch (\<lambda>c. c = CHR ''#'')"

definition heading :: rx where
  "heading = Seqs
     [Grp 1 (Seqs [hashCh, hashCh, Opt (Sq hashCh (Opt (Sq hashCh (Opt (Sq hashCh (Opt hashCh))))))]), blanks1,
      Opt (Seqs [Grp 2 (Seqs [digits1, Star (Sq (Lit ''.'') digits1), Opt (Ch lowerCh)]), Opt (Lit ''.''), blanks1]),
      Grp 3 (LazyStar (Ch (\<lambda>c. c \<noteq> nlChar))),
      Opt (Seqs [blanks1, Lit ''('',
        Grp 4 (Seqs [Ch upperCh, Star (Ch (\<lambda>c. upperCh c \<or> digitCh c)), Lit ''-'',
          Alt (Lit ''REQ'') (Lit ''RULE''), Lit ''-'', digits1]), Lit '')'']),
      Opt (Seqs [blanks0, Lit ''{#'', Grp 5 (Plus (Ch (\<lambda>c. wordCh c \<or> c = CHR ''.'' \<or> c = CHR ''-''))),
        Opt (Seqs [blanks1, Lit ''rule='', Grp 6 (Plus (Ch (\<lambda>c. wordCh c \<or> c = CHR ''-'')))]), Lit ''}'']),
      blanks0]"

record hit =
  h_start :: nat
  h_end :: nat
  h_hashes :: string
  h_num :: string
  h_text :: string
  h_ref :: string
  h_anchor :: string
  h_rule :: string

section \<open>Lines\<close>

record lspan =
  sp_from :: nat
  sp_text_end :: nat
  sp_to :: nat

function spansFrom :: "nat \<Rightarrow> string \<Rightarrow> lspan list" where
  "spansFrom i s =
     (if s = [] then []
      else let t = takeWhile (\<lambda>c. c \<noteq> nlChar) s
           in if length t = length s then [\<lparr>sp_from = i, sp_text_end = i + length s, sp_to = i + length s\<rparr>]
              else \<lparr>sp_from = i, sp_text_end = i + length t, sp_to = i + length t + 1\<rparr> #
                   spansFrom (i + length t + 1) (drop (length t + 1) s))"
  by pat_completeness auto
termination
  by (relation "measure (\<lambda>(i, s). length s)") auto

declare spansFrom.simps [simp del]

text \<open>splitLines.\<close>

definition lineSpans :: "string \<Rightarrow> lspan list" where
  "lineSpans s = spansFrom 0 s"

definition spanText :: "string \<Rightarrow> lspan \<Rightarrow> string" where
  "spanText s sp = cut s (sp_from sp) (sp_text_end sp)"

fun scanLines :: "string \<Rightarrow> string \<Rightarrow> lspan list \<Rightarrow> hit list" where
  "scanLines body fence [] = []"
| "scanLines body fence (ln # lns) =
     (let line = trimRightOf (\<lambda>c. c = crChar) (spanText body ln) in
      if fence \<noteq> [] then scanLines body (if fenceCloses line fence then [] else fence) lns
      else if fst (fenceOpen line) \<noteq> [] then scanLines body (fst (fenceOpen line)) lns
      else case fullMatch heading line of
             None \<Rightarrow> scanLines body [] lns
           | Some m \<Rightarrow>
               \<lparr>h_start = sp_from ln, h_end = sp_to ln, h_hashes = group m 1, h_num = group m 2,
                h_text = group m 3, h_ref = group m 4, h_anchor = group m 5, h_rule = group m 6\<rparr> #
               scanLines body [] lns)"

definition scanHeadings :: "string \<Rightarrow> hit list" where
  "scanHeadings body = scanLines body [] (lineSpans body)"

section \<open>Documents\<close>

text \<open>The header: its decoded keys and its source, fences included and without.\<close>

record frontmatter =
  fm_fields :: json
  fm_raw :: string
  fm_inner :: string

text \<open>A section, with the values parsed out of its heading line. The Parent pointer
  is an index; the Children are the later sections it is the parent of.\<close>

record docSection =
  sc_level :: int
  sc_number :: string
  sc_title :: string
  sc_anchor :: string
  sc_ref :: string
  sc_rule :: string
  sc_body :: string
  sc_parent :: "nat option"
  sc_raw :: string
  sc_term :: string
  sc_orig_level :: int
  sc_orig_number :: string
  sc_orig_title :: string
  sc_orig_anchor :: string
  sc_orig_rule :: string
  sc_orig_ref :: string

record document =
  do_preamble :: string
  do_sections :: "docSection list"
  do_front :: "frontmatter option"

text \<open>The YAML library: decoding a header (None for an error) and encoding one.\<close>

record yaml_lib =
  ym_decode :: "string \<Rightarrow> json option"
  ym_encode :: "json \<Rightarrow> string"

definition dashes :: string where "dashes = ''---''"

text \<open>splitFrontmatter: the block, the YAML in it, the body.\<close>

definition splitFrontmatter :: "string \<Rightarrow> string \<times> string \<times> string" where
  "splitFrontmatter src =
     (if \<not> (hasPrefix src (dashes @ [nlChar]) \<or> hasPrefix src (dashes @ [crChar, nlChar])) then ([], [], src)
      else let lines = lineSpans src in
        case filter (\<lambda>ln. trimRightOf (\<lambda>c. blankCh c \<or> c = crChar) (spanText src ln) = dashes) (tl lines) of
          [] \<Rightarrow> ([], [], src)
        | ln # _ \<Rightarrow> (cut src 0 (sp_to ln), cut src (sp_from (hd (tl lines))) (sp_from ln), drop (sp_to ln) src))"

definition parseFrontmatter :: "yaml_lib \<Rightarrow> string \<Rightarrow> string \<Rightarrow> frontmatter option" where
  "parseFrontmatter ym front inner =
     map_option (\<lambda>j. \<lparr>fm_fields = j, fm_raw = front, fm_inner = inner\<rparr>) (ym_decode ym inner)"

definition fm_source :: "yaml_lib \<Rightarrow> frontmatter option \<Rightarrow> string" where
  "fm_source ym f =
     (case f of
        None \<Rightarrow> []
      | Some m \<Rightarrow>
          (case parseFrontmatter ym (fm_raw m) (fm_inner m) of
             Some orig \<Rightarrow> if fm_fields orig = fm_fields m then fm_raw m
                          else dashes @ [nlChar] @ ym_encode ym (fm_fields m) @ dashes @ [nlChar]
           | None \<Rightarrow> dashes @ [nlChar] @ ym_encode ym (fm_fields m) @ dashes @ [nlChar]))"

definition terminatorOf :: "string \<Rightarrow> string" where
  "terminatorOf raw =
     (if hasSuffix raw [crChar, nlChar] then [crChar, nlChar]
      else if hasSuffix raw [nlChar] then [nlChar] else [])"

text \<open>link: the stack holds index and level of the enclosing sections, innermost
  first.\<close>

fun linkFrom :: "(nat \<times> int) list \<Rightarrow> nat \<Rightarrow> int list \<Rightarrow> nat option list" where
  "linkFrom stack i [] = []"
| "linkFrom stack i (l # ls) =
     (let st = dropWhile (\<lambda>(j, lj). l \<le> lj) stack
      in (case st of [] \<Rightarrow> None | (p, _) # _ \<Rightarrow> Some p) # linkFrom ((i, l) # st) (i + 1) ls)"

definition sectionOf :: "string \<Rightarrow> hit \<Rightarrow> nat \<Rightarrow> nat option \<Rightarrow> docSection" where
  "sectionOf body h bodyEnd parent =
     (let raw = cut body (h_start h) (h_end h); level = int (length (h_hashes h)) in
      \<lparr>sc_level = level, sc_number = h_num h, sc_title = h_text h, sc_anchor = h_anchor h,
       sc_ref = h_ref h, sc_rule = h_rule h, sc_body = cut body (h_end h) bodyEnd, sc_parent = parent,
       sc_raw = raw, sc_term = terminatorOf raw, sc_orig_level = level, sc_orig_number = h_num h,
       sc_orig_title = h_text h, sc_orig_anchor = h_anchor h, sc_orig_rule = h_rule h,
       sc_orig_ref = h_ref h\<rparr>)"

fun sectionsOf :: "string \<Rightarrow> hit list \<Rightarrow> nat option list \<Rightarrow> docSection list" where
  "sectionsOf body [] ps = []"
| "sectionsOf body [h] ps = [sectionOf body h (length body) (hd ps)]"
| "sectionsOf body (h # g # hs) ps = sectionOf body h (h_start g) (hd ps) # sectionsOf body (g # hs) (tl ps)"

definition parseBody :: "string \<Rightarrow> frontmatter option \<Rightarrow> document" where
  "parseBody body fm =
     (let hits = scanHeadings body;
          parents = linkFrom [] 0 (map (\<lambda>h. int (length (h_hashes h))) hits)
      in \<lparr>do_preamble = (case hits of [] \<Rightarrow> body | h # _ \<Rightarrow> take (h_start h) body),
          do_sections = sectionsOf body hits parents, do_front = fm\<rparr>)"

definition Parse :: "yaml_lib \<Rightarrow> string \<Rightarrow> document option" where
  "Parse ym src =
     (case splitFrontmatter src of
        (front, inner, body) \<Rightarrow>
          if front = [] then Some (parseBody body None)
          else (case parseFrontmatter ym front inner of
                  None \<Rightarrow> None | Some fm \<Rightarrow> Some (parseBody body (Some fm))))"

section \<open>Rendering\<close>

definition anchorSource :: "docSection \<Rightarrow> string" where
  "anchorSource s =
     ''{#'' @ sc_anchor s @ (if sc_rule s \<noteq> [] then '' rule='' @ sc_rule s else []) @ ''}''"

text \<open>The attribute pattern, with its terminator as group 1, and its replacement.\<close>

definition anchorAttr :: rx where
  "anchorAttr = Seqs
     [Lit ''{#'', Star (Ch (\<lambda>c. c \<noteq> CHR ''{'' \<and> c \<noteq> CHR ''}'')), Lit ''}'',
      Grp 1 (Seqs [blanks0, Opt (Lit [crChar]), Opt (Lit [nlChar])])]"

fun replaceAttr :: "string \<Rightarrow> string \<Rightarrow> string" where
  "replaceAttr new [] = []"
| "replaceAttr new (c # s) =
     (case fullMatch anchorAttr (c # s) of
        Some m \<Rightarrow> new @ group m 1
      | None \<Rightarrow> c # replaceAttr new s)"

definition renderHeading :: "docSection \<Rightarrow> string" where
  "renderHeading s =
     replicate (nat (sc_level s)) (CHR ''#'') @ '' '' @
     (if sc_number s \<noteq> [] then sc_number s @ (if sc_level s = 2 then ''.'' else []) @ '' '' else []) @
     sc_title s @
     (if sc_ref s \<noteq> [] then '' ('' @ sc_ref s @ '')'' else []) @
     (if sc_anchor s \<noteq> [] then '' '' @ anchorSource s else []) @ sc_term s"

definition headingSource :: "docSection \<Rightarrow> string" where
  "headingSource s =
     (if sc_level s = sc_orig_level s \<and> sc_number s = sc_orig_number s \<and> sc_title s = sc_orig_title s \<and>
         sc_anchor s = sc_orig_anchor s \<and> sc_ref s = sc_orig_ref s
      then if sc_rule s = sc_orig_rule s \<or> sc_anchor s = [] then sc_raw s
           else replaceAttr (anchorSource s) (sc_raw s)
      else renderHeading s)"

definition HeadingAndBody :: "docSection \<Rightarrow> string" where
  "HeadingAndBody s = headingSource s @ sc_body s"

definition Bytes :: "yaml_lib \<Rightarrow> document \<Rightarrow> string" where
  "Bytes ym d = fm_source ym (do_front d) @ do_preamble d @ concat (map HeadingAndBody (do_sections d))"

definition childrenOf :: "docSection list \<Rightarrow> nat \<Rightarrow> nat list" where
  "childrenOf ss i = filter (\<lambda>j. sc_parent (ss ! j) = Some i) [i + 1..<length ss]"

text \<open>Source: a section with everything nested under it.\<close>

function Source :: "docSection list \<Rightarrow> nat \<Rightarrow> string" where
  "Source ss i = HeadingAndBody (ss ! i) @ concat (map (Source ss) (childrenOf ss i))"
  by pat_completeness auto
termination
  by (relation "measure (\<lambda>(ss, i). length ss - i)") (auto simp: childrenOf_def)

declare Source.simps [simp del]

definition SectionByAnchor :: "document \<Rightarrow> string \<Rightarrow> nat option" where
  "SectionByAnchor d anchor =
     (if anchor = [] then None
      else case filter (\<lambda>i. sc_anchor (do_sections d ! i) = anchor) [0..<length (do_sections d)] of
             [] \<Rightarrow> None | i # _ \<Rightarrow> Some i)"

definition Subtree :: "document \<Rightarrow> string \<Rightarrow> string option" where
  "Subtree d anchor =
     (case filter (\<lambda>i. sc_anchor (do_sections d ! i) = anchor) [0..<length (do_sections d)] of
        [] \<Rightarrow> None | i # _ \<Rightarrow> Some (Source (do_sections d) i))"

text \<open>Editable and StripRuleRefs: a body with the rule refs in, and without.\<close>

definition Editable :: "yaml_lib \<Rightarrow> string \<Rightarrow> (string \<Rightarrow> string) \<Rightarrow> string" where
  "Editable ym src ruleOf =
     (case Parse ym src of
        None \<Rightarrow> src
      | Some d \<Rightarrow> Bytes ym (d\<lparr>do_sections :=
                   map (\<lambda>s. s\<lparr>sc_rule := ruleOf (sc_anchor s), sc_ref := []\<rparr>) (do_sections d)\<rparr>))"

definition StripRuleRefs :: "yaml_lib \<Rightarrow> string \<Rightarrow> string" where
  "StripRuleRefs ym src =
     (case Parse ym src of
        None \<Rightarrow> src
      | Some d \<Rightarrow> Bytes ym (d\<lparr>do_sections :=
                   map (\<lambda>s. s\<lparr>sc_rule := [], sc_ref := []\<rparr>) (do_sections d)\<rparr>))"

section \<open>Line runs\<close>

record anchorRun =
  ar_from :: int
  ar_to :: int
  ar_offset :: int
  ar_anchor :: string
  ar_heading :: bool

text \<open>The loop: the next line's number, whether a run is open, and the run.\<close>

fun runsFrom :: "(nat \<Rightarrow> string option) \<Rightarrow> int \<Rightarrow> bool \<Rightarrow> anchorRun \<Rightarrow> lspan list \<Rightarrow> anchorRun list" where
  "runsFrom starts n opened cur [] = (if opened then [cur] else [])"
| "runsFrom starts n opened cur (ln # lns) =
     (case starts (sp_from ln) of
        Some a \<Rightarrow>
          (if opened then [cur] else []) @
          \<lparr>ar_from = n, ar_to = n, ar_offset = int (sp_from ln), ar_anchor = a, ar_heading = True\<rparr> #
          runsFrom starts (n + 1) False
            \<lparr>ar_from = n + 1, ar_to = 0, ar_offset = int (sp_to ln), ar_anchor = a, ar_heading = False\<rparr> lns
      | None \<Rightarrow>
          runsFrom starts (n + 1) True
            (if opened then cur\<lparr>ar_to := n\<rparr>
             else cur\<lparr>ar_from := n, ar_to := n, ar_offset := int (sp_from ln)\<rparr>) lns)"

definition sectionStarts :: "string \<Rightarrow> string list \<Rightarrow> nat \<Rightarrow> string option" where
  "sectionStarts body known off =
     map_of (rev (map (\<lambda>h. (h_start h, h_anchor h))
              (filter (\<lambda>h. h_anchor h \<in> set known) (scanHeadings body)))) off"

definition AnchorRuns :: "string \<Rightarrow> string list \<Rightarrow> anchorRun list" where
  "AnchorRuns body known =
     runsFrom (sectionStarts body known) 1 False
       \<lparr>ar_from = 1, ar_to = 0, ar_offset = 0, ar_anchor = [], ar_heading = False\<rparr> (lineSpans body)"

section \<open>Numbering\<close>

record entry =
  en_depth :: int
  en_slug :: string

record derived =
  dv_number :: string
  dv_anchor :: string

definition allDigits :: "string \<Rightarrow> bool" where
  "allDigits s \<longleftrightarrow> s \<noteq> [] \<and> (\<forall>c\<in>set s. digitCh c)"

text \<open>\<open>^sec-\d+(\.\d+)*[a-z]?$\<close>: after the prefix and without a trailing letter,
  digits between dots.\<close>

definition numberedAnchor :: "string \<Rightarrow> bool" where
  "numberedAnchor a =
     (case dropPrefix ''sec-'' a of
        None \<Rightarrow> False
      | Some r \<Rightarrow>
          let n = (if r \<noteq> [] \<and> lowerCh (last r) then butlast r else r)
          in list_all allDigits (splitAt (CHR ''.'') n))"

definition IsSlug :: "string \<Rightarrow> bool" where
  "IsSlug anchor \<longleftrightarrow> anchor \<noteq> [] \<and> \<not> numberedAnchor anchor"

text \<open>A frame: depth, what was derived, and the numbered children so far.\<close>

fun deriveFrom :: "int \<Rightarrow> (int \<times> derived \<times> int) list \<Rightarrow> entry list \<Rightarrow> derived list" where
  "deriveFrom roots stack [] = []"
| "deriveFrom roots stack (e # es) =
     (let st = dropWhile (\<lambda>(dp, _, _). en_depth e \<le> dp) stack in
      if en_slug e \<noteq> [] then
        (let d = \<lparr>dv_number = [], dv_anchor = en_slug e\<rparr>
         in d # deriveFrom roots ((en_depth e, d, 0) # st) es)
      else case st of
        [] \<Rightarrow>
          (let n = intStr (roots + 1); d = \<lparr>dv_number = n, dv_anchor = ''sec-'' @ n\<rparr>
           in d # deriveFrom (roots + 1) [(en_depth e, d, 0)] es)
      | (dp, p, k) # rest \<Rightarrow>
          (let n = intStr (k + 1);
               d = (if dv_number p \<noteq> []
                    then \<lparr>dv_number = dv_number p @ ''.'' @ n, dv_anchor = ''sec-'' @ dv_number p @ ''.'' @ n\<rparr>
                    else \<lparr>dv_number = [], dv_anchor = dv_anchor p @ ''.'' @ n\<rparr>)
           in d # deriveFrom roots ((en_depth e, d, 0) # (dp, p, k + 1) # rest) es))"

definition DeriveNumbers :: "entry list \<Rightarrow> derived list" where
  "DeriveNumbers es = deriveFrom 0 [] es"

definition Entries :: "docSection list \<Rightarrow> entry list" where
  "Entries ss = map (\<lambda>s. \<lparr>en_depth = sc_level s, en_slug = (if IsSlug (sc_anchor s) then sc_anchor s else [])\<rparr>)
     (filter (\<lambda>s. sc_anchor s \<noteq> []) ss)"

fun assignDerived :: "docSection list \<Rightarrow> derived list \<Rightarrow> docSection list" where
  "assignDerived [] ds = []"
| "assignDerived (s # ss) ds =
     (if sc_anchor s = [] then s # assignDerived ss ds
      else s\<lparr>sc_number := dv_number (hd ds), sc_anchor := dv_anchor (hd ds)\<rparr> # assignDerived ss (tl ds))"

definition DeriveAnchors :: "document \<Rightarrow> document" where
  "DeriveAnchors d = d\<lparr>do_sections := assignDerived (do_sections d) (DeriveNumbers (Entries (do_sections d)))\<rparr>"

section \<open>Renumbering\<close>

datatype renumber_defect =
    ParentUnnumbered string string
  | InsertMoved string string string

definition isInsert :: "string \<Rightarrow> bool" where
  "isInsert number \<longleftrightarrow> number \<noteq> [] \<and> lowerCh (last number)"

definition firstTopNumber :: "docSection list \<Rightarrow> int" where
  "firstTopNumber ss =
     (case filter (\<lambda>s. sc_level s = 2 \<and> sc_number s \<noteq> []) ss of
        [] \<Rightarrow> 1 | s # _ \<Rightarrow> if sc_number s = ''0'' then 0 else 1)"

definition joinCounters :: "int list \<Rightarrow> string" where
  "joinCounters cs = joinWith ''.'' (map intStr cs)"

text \<open>Counters and seen flags from a level on are reset.\<close>

definition resetBelow :: "nat \<Rightarrow> (int \<times> bool) list \<Rightarrow> (int \<times> bool) list" where
  "resetBelow level cs = take level cs @ replicate (length cs - level) (0, False)"

text \<open>The parent of an insert's number: what is before its last dot.\<close>

definition insertParent :: "string \<Rightarrow> string" where
  "insertParent number = butlast (rev (dropWhile (\<lambda>c. c \<noteq> CHR ''.'') (rev number)))"

text \<open>The loop of Renumber over the counters of the levels, each with its seen
  flag; a level is at least 1.\<close>

fun renumberFrom :: "nat \<Rightarrow> (int \<times> bool) list \<Rightarrow> docSection list \<Rightarrow> docSection list \<times> renumber_defect list" where
  "renumberFrom depth cs [] = ([], [])"
| "renumberFrom depth cs (s # ss) =
     (let level = nat (sc_level s - 1) in
      if level > depth then
        (case renumberFrom depth cs ss of (rest, df) \<Rightarrow> (s # rest, df))
      else if sc_number s = [] then
        (case renumberFrom depth (resetBelow level cs) ss of (rest, df) \<Rightarrow> (s # rest, df))
      else if \<not> list_all snd (take (level - 1) cs) then
        (case renumberFrom depth cs ss of
           (rest, df) \<Rightarrow> (s # rest, ParentUnnumbered (sc_number s) (sc_title s) # df))
      else
        let prefix = joinCounters (map fst (take (level - 1) cs)) in
        if isInsert (sc_number s) then
          (let cs' = cs[level - 1 := (fst (cs ! (level - 1)), True)] in
           if insertParent (sc_number s) \<noteq> prefix then
             (case renumberFrom depth cs' ss of
                (rest, df) \<Rightarrow> (s # rest, InsertMoved (sc_number s) (sc_title s) prefix # df))
           else
             (case renumberFrom depth cs' ss of
                (rest, df) \<Rightarrow> (s\<lparr>sc_anchor := ''sec-'' @ sc_number s\<rparr> # rest, df)))
        else
          let cs' = resetBelow level (cs[level - 1 := (fst (cs ! (level - 1)) + 1, True)]);
              number = joinCounters (map fst (take level cs'))
          in (case renumberFrom depth cs' ss of
                (rest, df) \<Rightarrow> (s\<lparr>sc_number := number, sc_anchor := ''sec-'' @ number\<rparr> # rest, df)))"

definition Renumber :: "document \<Rightarrow> int \<Rightarrow> renumber_defect list + document" where
  "Renumber d depth =
     (let n = nat (max 1 depth);
          cs = (firstTopNumber (do_sections d) - 1, False) # replicate (n - 1) (0, False)
      in case renumberFrom n cs (do_sections d) of
           (ss, []) \<Rightarrow> Inr (d\<lparr>do_sections := ss\<rparr>)
         | (_, df) \<Rightarrow> Inl df)"

section \<open>Lint\<close>

text \<open>\<open>^sec-[a-z0-9][a-z0-9.-]*$\<close>.\<close>

definition ValidAnchor :: "string \<Rightarrow> bool" where
  "ValidAnchor a =
     (case dropPrefix ''sec-'' a of
        Some (c # r) \<Rightarrow> (lowerCh c \<or> digitCh c) \<and>
          (\<forall>x\<in>set r. lowerCh x \<or> digitCh x \<or> x = CHR ''.'' \<or> x = CHR ''-'')
      | _ \<Rightarrow> False)"

datatype anchor_defect =
    NumberMismatch string string string
  | AnchorClaimedTwice string string string

text \<open>LintAnchors, over the titles by anchor seen so far.\<close>

fun lintFrom :: "(string \<times> string) list \<Rightarrow> docSection list \<Rightarrow> anchor_defect list" where
  "lintFrom seen [] = []"
| "lintFrom seen (s # ss) =
     (if sc_anchor s = [] then lintFrom seen ss
      else
        (if sc_number s \<noteq> [] \<and> sc_anchor s \<noteq> ''sec-'' @ sc_number s
         then [NumberMismatch (sc_title s) (sc_number s) (sc_anchor s)] else []) @
        (case map_of seen (sc_anchor s) of
           Some prev \<Rightarrow> AnchorClaimedTwice (sc_anchor s) prev (sc_title s) # lintFrom seen ss
         | None \<Rightarrow> lintFrom ((sc_anchor s, sc_title s) # seen) ss))"

definition LintAnchors :: "document \<Rightarrow> anchor_defect list" where
  "LintAnchors d = lintFrom [] (do_sections d)"

end
