(* ===== verification/DocDiff.thy ===== *)
theory DocDiff
  imports DocText StableSort
begin

text \<open>
  Comparing versions of a document (internal/designdoc/diff.go and patch.go):
  what a section's own text is, the gate a candidate passes against the accepted
  version, the changed entries, and the mechanical findings of a patch.
\<close>

section \<open>Sections by anchor\<close>

text \<open>A map from anchors to sections is the list of first occurrences; ranging
  over its sorted keys is \<open>sortedAnchors\<close>.\<close>

definition anchoredSections :: "document \<Rightarrow> string \<Rightarrow> nat option" where
  "anchoredSections d = SectionByAnchor d"

definition sortedAnchors :: "document \<Rightarrow> string list" where
  "sortedAnchors d = sortStable strCompare
     (remdups (filter (\<lambda>a. a \<noteq> []) (map sc_anchor (do_sections d))))"

definition anchoredInOrder :: "document \<Rightarrow> nat list" where
  "anchoredInOrder d = filter (\<lambda>i. sc_anchor (do_sections d ! i) \<noteq> []) [0..<length (do_sections d)]"

section \<open>Effective content\<close>

text \<open>appendUnanchored: the headings and bodies of the anchorless descendants.\<close>

function unanchoredParts :: "docSection list \<Rightarrow> nat \<Rightarrow> string list" where
  "unanchoredParts ss i = concat (map (\<lambda>j.
     if sc_anchor (ss ! j) \<noteq> [] then []
     else [intStr (sc_level (ss ! j)) @ '' '' @ sc_number (ss ! j) @ '' '' @ sc_title (ss ! j),
           trimSpace (sc_body (ss ! j))] @ unanchoredParts ss j) (childrenOf ss i))"
  by pat_completeness auto
termination
  by (relation "measure (\<lambda>(ss, i). length ss - i)") (auto simp: childrenOf_def)

declare unanchoredParts.simps [simp del]

definition effectiveContent :: "docSection list \<Rightarrow> nat \<Rightarrow> string" where
  "effectiveContent ss i = joinWith [nlChar] (trimSpace (sc_body (ss ! i)) # unanchoredParts ss i)"

definition contentAt :: "document \<Rightarrow> nat \<Rightarrow> string" where
  "contentAt d i = effectiveContent (do_sections d) i"

section \<open>The gate\<close>

definition DepthLimit :: int where "DepthLimit = 3"

record section_diff =
  df_added :: "string list"
  df_removed :: "string list"
  df_renumbered :: "(string \<times> string \<times> string) list"
  df_changed :: "string list"
  df_too_deep :: "string list"

definition tooDeepAnchors :: "document \<Rightarrow> int \<Rightarrow> string list" where
  "tooDeepAnchors d limit = filter (\<lambda>a.
     (case anchoredSections d a of None \<Rightarrow> False | Some i \<Rightarrow> sc_level (do_sections d ! i) > limit)) (sortedAnchors d)"

text \<open>The renumberings carry both numbers.\<close>

definition CompareSections :: "document \<Rightarrow> document \<Rightarrow> int \<Rightarrow> section_diff" where
  "CompareSections acc cand depthLimit =
     \<lparr>df_added = filter (\<lambda>a. anchoredSections acc a = None) (sortedAnchors cand),
      df_removed = filter (\<lambda>a. anchoredSections cand a = None) (sortedAnchors acc),
      df_renumbered = concat (map (\<lambda>a.
        case (anchoredSections acc a, anchoredSections cand a) of
          (Some i, Some j) \<Rightarrow>
            (let x = sc_number (do_sections acc ! i); y = sc_number (do_sections cand ! j)
             in if x \<noteq> y then [(a, x, y)] else [])
        | _ \<Rightarrow> []) (sortedAnchors cand)),
      df_changed = filter (\<lambda>a.
        case (anchoredSections acc a, anchoredSections cand a) of
          (Some i, Some j) \<Rightarrow> contentAt acc i \<noteq> contentAt cand j | _ \<Rightarrow> False) (sortedAnchors cand),
      df_too_deep = tooDeepAnchors cand depthLimit\<rparr>"

datatype violation =
    SectionRemoved string
  | SectionRenumbered string string string
  | SectionTooDeep string

definition DepthViolations :: "document \<Rightarrow> int \<Rightarrow> violation list" where
  "DepthViolations d limit = map SectionTooDeep (tooDeepAnchors d limit)"

definition Violations :: "section_diff \<Rightarrow> violation list" where
  "Violations df = map SectionRemoved (df_removed df) @
     map (\<lambda>(a, x, y). SectionRenumbered a x y) (df_renumbered df) @ map SectionTooDeep (df_too_deep df)"

section \<open>Changed sections\<close>

definition ChangedEntries :: "document \<Rightarrow> document \<Rightarrow> string list \<Rightarrow> string list \<Rightarrow> nat list" where
  "ChangedEntries acc cand accKeys candKeys =
     (let accAt = zip accKeys (anchoredInOrder acc); candAt = zip candKeys (anchoredInOrder cand) in
      map fst (filter (\<lambda>(n, k, j).
        case map_of accAt k of None \<Rightarrow> False | Some i \<Rightarrow> contentAt acc i \<noteq> contentAt cand j)
        (zip [0..<length candAt] candAt)))"

fun distinctFirst :: "string list \<Rightarrow> string list \<Rightarrow> string list" where
  "distinctFirst seen [] = []"
| "distinctFirst seen (a # as) =
     (if a = [] \<or> a \<in> set seen then distinctFirst seen as else a # distinctFirst (a # seen) as)"

definition ChangedAnchors :: "document \<Rightarrow> document \<Rightarrow> string list" where
  "ChangedAnchors old nw =
     (let fromNew = distinctFirst [] (map sc_anchor (do_sections nw));
          fromOld = distinctFirst fromNew (map sc_anchor (do_sections old)) in
      filter (\<lambda>a. case (anchoredSections old a, anchoredSections nw a) of
                    (Some i, Some j) \<Rightarrow> contentAt old i \<noteq> contentAt nw j | _ \<Rightarrow> True) fromNew @
      filter (\<lambda>a. anchoredSections nw a = None) fromOld)"

section \<open>Mechanical findings\<close>

text \<open>The terms \<open>\bwlc?:[A-Za-z][A-Za-z0-9_]*\b\<close>: the flag says whether the byte
  before is a word character; the run of word characters ends at a boundary.\<close>

definition alphaCh :: "char \<Rightarrow> bool" where
  "alphaCh c \<longleftrightarrow> lowerCh c \<or> upperCh c"

definition termAt :: "string \<Rightarrow> nat option" where
  "termAt s =
     (let body = (\<lambda>p. case dropPrefix p s of
                    Some (c # r) \<Rightarrow> if alphaCh c then Some (length p + 1 + length (takeWhile wordCh r)) else None
                  | _ \<Rightarrow> None)
      in case body ''wlc:'' of Some n \<Rightarrow> Some n | None \<Rightarrow> body ''wl:'')"

function termsFrom :: "bool \<Rightarrow> string \<Rightarrow> string list" where
  "termsFrom prevWord [] = []"
| "termsFrom prevWord (c # s) =
     (case (if prevWord then None else termAt (c # s)) of
        Some n \<Rightarrow> take n (c # s) # termsFrom True (drop (max 1 n) (c # s))
      | None \<Rightarrow> termsFrom (wordCh c) s)"
  by pat_completeness auto
termination
  by (relation "measure (\<lambda>(b, s). length s)") auto

definition nsTermSet :: "string \<Rightarrow> string list" where
  "nsTermSet t = sortStable strCompare (remdups (termsFrom False t))"

text \<open>A code span: a backtick, at least one other byte, a backtick.\<close>

function codeSpans :: "string \<Rightarrow> string list" where
  "codeSpans [] = []"
| "codeSpans (c # r) =
     (let t = takeWhile (\<lambda>x. x \<noteq> tickChar \<and> x \<noteq> nlChar) r in
      if c = tickChar \<and> t \<noteq> [] \<and> length t < length r \<and> r ! length t = tickChar
      then (c # t @ [tickChar]) # codeSpans (drop (length t + 1) r)
      else codeSpans r)"
  by pat_completeness auto
termination
  by (relation "measure length") auto

fun surfacesFrom :: "string \<Rightarrow> string list \<Rightarrow> string list" where
  "surfacesFrom fence [] = []"
| "surfacesFrom fence (line # lines) =
     (if fence \<noteq> [] then
        (if fenceCloses line fence then surfacesFrom [] lines else line # surfacesFrom fence lines)
      else if fst (fenceOpen line) \<noteq> [] then surfacesFrom (fst (fenceOpen line)) lines
      else codeSpans line @ surfacesFrom [] lines)"

definition codeSurfaces :: "string \<Rightarrow> string list" where
  "codeSurfaces t = surfacesFrom [] (splitAt nlChar t)"

text \<open>The pattern \<open>(?i)acceptance criteria|definition of done\<close>.\<close>

definition toLowerAscii :: "string \<Rightarrow> string" where
  "toLowerAscii s = map (\<lambda>c. if upperCh c then char_of ((of_char c :: nat) + 32) else c) s"

definition acceptanceHeading :: "string \<Rightarrow> bool" where
  "acceptanceHeading title \<longleftrightarrow> containsStr (toLowerAscii title) ''acceptance criteria'' \<or>
     containsStr (toLowerAscii title) ''definition of done''"

definition sectionText :: "document \<Rightarrow> string \<Rightarrow> string" where
  "sectionText d a = (case anchoredSections d a of None \<Rightarrow> [] | Some i \<Rightarrow> contentAt d i)"

definition sectionTitle :: "document \<Rightarrow> document \<Rightarrow> string \<Rightarrow> string" where
  "sectionTitle old nw a =
     (case anchoredSections nw a of
        Some i \<Rightarrow> sc_title (do_sections nw ! i)
      | None \<Rightarrow> (case anchoredSections old a of Some i \<Rightarrow> sc_title (do_sections old ! i) | None \<Rightarrow> []))"

text \<open>A finding: the rule and the anchor.\<close>

definition MechanicalFindings :: "document \<Rightarrow> document \<Rightarrow> (string \<times> string) list" where
  "MechanicalFindings old nw = concat (map (\<lambda>a.
     (if nsTermSet (sectionText old a) \<noteq> nsTermSet (sectionText nw a) then [(''ns-term'', a)] else []) @
     (if codeSurfaces (sectionText old a) \<noteq> codeSurfaces (sectionText nw a) then [(''surface-token'', a)] else []) @
     (if acceptanceHeading (sectionTitle old nw a) then [(''acceptance-criteria'', a)] else []))
     (ChangedAnchors old nw))"

end
