(* ===== verification/DocNumbers.thy ===== *)
theory DocNumbers
  imports DocDiff "HOL-Library.Sublist"
begin

text \<open>
  Section numbers and the gate: derived numbers are distinct and stay as they
  are, so do renumbered ones, what is derived below an unnumbered entry is not
  safe from its siblings, and a candidate the gate passes keeps every accepted
  anchor with its number.
\<close>

section \<open>Derived numbers\<close>

text \<open>Deriving over paths: a numbered entry is the path of its number, an
  unnumbered one is None.\<close>

definition pathNumber :: "int list \<Rightarrow> string" where
  "pathNumber ps = joinWith ''.'' (map intStr ps)"

fun pathsFrom :: "int \<Rightarrow> (int \<times> int list \<times> int) list \<Rightarrow> entry list \<Rightarrow> int list list" where
  "pathsFrom roots stack [] = []"
| "pathsFrom roots stack (e # es) =
     (let st = dropWhile (\<lambda>(dp, _, _). en_depth e \<le> dp) stack in
      if en_slug e \<noteq> [] then [] # pathsFrom roots ((en_depth e, [], 0) # st) es
      else case st of
        [] \<Rightarrow> [roots + 1] # pathsFrom (roots + 1) [(en_depth e, [roots + 1], 0)] es
      | (dp, p, k) # rest \<Rightarrow>
          (if p \<noteq> [] then (p @ [k + 1]) # pathsFrom roots ((en_depth e, p @ [k + 1], 0) # (dp, p, k + 1) # rest) es
           else [] # pathsFrom roots ((en_depth e, [], 0) # (dp, p, k + 1) # rest) es))"

lemma pathNumber_Nil [simp]: "pathNumber [] = []"
  by (simp add: pathNumber_def)

lemma joinWith_snoc: "xs \<noteq> [] \<Longrightarrow> joinWith sep (xs @ [x]) = joinWith sep xs @ sep @ x"
  by (induction sep xs rule: joinWith.induct) auto

lemma intStr_ne [simp]: "intStr n \<noteq> []"
  by (simp add: intStr_def)

lemma joinWith_ne: "xs \<noteq> [] \<Longrightarrow> [] \<notin> set xs \<Longrightarrow> joinWith sep xs \<noteq> []"
  by (induction sep xs rule: joinWith.induct) auto

lemma pathNumber_empty [simp]: "pathNumber ps = [] \<longleftrightarrow> ps = []"
proof (cases "ps = []")
  case False
  have "[] \<notin> set (map intStr ps)" by (auto dest: sym)
  then show ?thesis using False joinWith_ne[of "map intStr ps"] by (simp add: pathNumber_def)
qed (simp add: pathNumber_def)

lemma pathNumber_snoc: "ps \<noteq> [] \<Longrightarrow> pathNumber (ps @ [k]) = pathNumber ps @ ''.'' @ intStr k"
  by (simp add: pathNumber_def joinWith_snoc)

lemma deriveFrom_paths:
  assumes "map (\<lambda>(dp, d, k). (dp, dv_number d, k)) stack = map (\<lambda>(dp, p, k). (dp, pathNumber p, k)) pstack"
  shows "map dv_number (deriveFrom roots stack es) = map pathNumber (pathsFrom roots pstack es)"
  using assms
proof (induction es arbitrary: roots stack pstack)
  case (Cons e es)
  let ?f = "\<lambda>(dp, d, k). (dp, dv_number d, k)" and ?g = "\<lambda>(dp, p, k). (dp, pathNumber p, k)"
  let ?st = "dropWhile (\<lambda>(dp, _, _). en_depth e \<le> dp) stack"
  let ?pt = "dropWhile (\<lambda>(dp, _, _). en_depth e \<le> dp) pstack"
  have "map ?f ?st = dropWhile (\<lambda>(dp, _, _). en_depth e \<le> dp) (map ?f stack)"
    "map ?g ?pt = dropWhile (\<lambda>(dp, _, _). en_depth e \<le> dp) (map ?g pstack)"
    by (simp_all add: dropWhile_map comp_def split_def)
  then have st: "map ?f ?st = map ?g ?pt" using Cons.prems by metis
  show ?case
  proof (cases "en_slug e = []")
    case False
    then show ?thesis using st Cons.IH[of "(en_depth e, \<lparr>dv_number = [], dv_anchor = en_slug e\<rparr>, 0) # ?st"
        "(en_depth e, [], 0) # ?pt"] by (simp add: Let_def)
  next
    case True
    show ?thesis
    proof (cases ?pt)
      case Nil
      then have s: "?st = []" using st by (simp del: dropWhile_eq_Nil_conv)
      have "pathNumber [roots + 1] = intStr (roots + 1)" by (simp add: pathNumber_def)
      then show ?thesis using True Nil s
          Cons.IH[of "[(en_depth e, \<lparr>dv_number = intStr (roots + 1), dv_anchor = ''sec-'' @ intStr (roots + 1)\<rparr>, 0)]"
            "[(en_depth e, [roots + 1], 0)]"]
        by (simp add: Let_def del: dropWhile_eq_Nil_conv)
    next
      case (Cons x rest)
      then obtain dp q k r where p: "?pt = (dp, q, k) # r" by (cases x) auto
      then obtain d rs where s: "?st = (dp, d, k) # rs" "dv_number d = pathNumber q" "map ?f rs = map ?g r"
        using st by (cases ?st) auto
      show ?thesis using True p s
        by (auto simp: Let_def pathNumber_snoc intro!: Cons.IH)
    qed
  qed
qed simp

text \<open>What the paths handed out so far (A) exclude: nothing in them lies beyond the
  counters of the frames on the stack.\<close>

definition pathsOk :: "int \<Rightarrow> (int \<times> int list \<times> int) list \<Rightarrow> int list set \<Rightarrow> bool" where
  "pathsOk roots stack A \<longleftrightarrow>
     (\<forall>x\<in>A. x \<noteq> [] \<and> hd x \<le> roots) \<and>
     (\<forall>(dp, p, k)\<in>set stack. p \<noteq> [] \<longrightarrow> p \<in> A \<and> (\<forall>x\<in>A. \<forall>j>k. \<not> prefix (p @ [j]) x)) \<and>
     distinct (filter (\<lambda>p. p \<noteq> []) (map (\<lambda>(dp, p, k). p) stack))"

lemma pathsOk_pop:
  assumes "pathsOk roots stack A"
  shows "pathsOk roots (dropWhile P stack) A"
proof -
  obtain pre where s: "stack = pre @ dropWhile P stack" by (metis takeWhile_dropWhile_id)
  have "distinct (filter (\<lambda>p. p \<noteq> []) (map (\<lambda>(dp, p, k). p) (dropWhile P stack)))"
    using assms s unfolding pathsOk_def by (metis (no_types, lifting) distinct_append filter_append map_append)
  then show ?thesis using assms set_dropWhileD[of _ P stack] unfolding pathsOk_def by blast
qed

lemma pathsOk_slug: "pathsOk roots stack A \<Longrightarrow> pathsOk roots ((l, [], 0) # stack) A"
  by (simp add: pathsOk_def)

lemma pathsOk_root:
  assumes "pathsOk roots stack A"
  shows "[roots + 1] \<notin> A \<and> pathsOk (roots + 1) [(l, [roots + 1], 0)] (insert [roots + 1] A)"
proof -
  have a: "x \<noteq> [] \<and> hd x \<le> roots" if "x \<in> A" for x using assms that by (simp add: pathsOk_def)
  have "\<not> prefix ([roots + 1] @ [j]) x" if "x \<in> A" for x j
    using a[OF that] by (cases x) auto
  then show ?thesis using a by (force simp: pathsOk_def)
qed

lemma pathsOk_child:
  assumes "pathsOk roots ((dp, p, k) # rest) A" "p \<noteq> []"
  shows "p @ [k + 1] \<notin> A \<and>
    pathsOk roots ((l, p @ [k + 1], 0) # (dp, p, k + 1) # rest) (insert (p @ [k + 1]) A)"
proof -
  let ?x = "p @ [k + 1]"
  have A: "y \<noteq> []" "hd y \<le> roots" if "y \<in> A" for y using assms that by (auto simp: pathsOk_def)
  have p: "p \<in> A" "\<And>y j. y \<in> A \<Longrightarrow> k < j \<Longrightarrow> \<not> prefix (p @ [j]) y"
    using assms by (auto simp: pathsOk_def)
  have rest: "q \<in> A" "\<And>y j. y \<in> A \<Longrightarrow> m < j \<Longrightarrow> \<not> prefix (q @ [j]) y" "q \<noteq> p"
    if "(dq, q, m) \<in> set rest" "q \<noteq> []" for dq q m
    using assms that by (auto simp: pathsOk_def image_iff)
  have new: "?x \<notin> A" using p(2)[of ?x "k + 1"] by auto
  have f1: "\<not> prefix (?x @ [j]) y" if "y \<in> insert ?x A" for y j
  proof
    assume pr: "prefix (?x @ [j]) y"
    then have "y \<noteq> ?x" using prefix_length_le by fastforce
    then have "y \<in> A" using that by simp
    moreover have "prefix ?x y" using pr by (metis append_prefixD)
    ultimately show False using p(2)[of y "k + 1"] by simp
  qed
  have f2: "\<not> prefix (p @ [j]) y" if "y \<in> insert ?x A" "k + 1 < j" for y j
    using that p(2)[of y j] by auto
  have f3: "\<not> prefix (q @ [j]) y" if "(dq, q, m) \<in> set rest" "q \<noteq> []" "y \<in> insert ?x A" "m < j" for dq q m y j
    using rest[OF that(1,2)] that(3,4) p(1) by (auto simp: prefix_snoc)
  have "distinct (filter (\<lambda>p. p \<noteq> []) (map (\<lambda>(dp, p, k). p) ((l, ?x, 0) # (dp, p, k + 1) # rest)))"
    using assms new rest(1,3) by (auto simp: pathsOk_def)
  moreover have "hd ?x \<le> roots" using A[OF p(1)] assms(2) by simp
  ultimately show ?thesis using new A p(1) rest(1) f1 f2 f3 assms(2) unfolding pathsOk_def by (auto dest: rest(3))
qed

lemma pathsOk_under_slug:
  "pathsOk roots ((dp, [], k) # rest) A \<Longrightarrow> pathsOk roots ((l, [], 0) # (dp, [], k + 1) # rest) A"
  by (simp add: pathsOk_def)

lemma pathsFrom_fresh:
  "pathsOk roots stack A \<Longrightarrow>
   distinct (filter (\<lambda>p. p \<noteq> []) (pathsFrom roots stack es)) \<and>
   set (filter (\<lambda>p. p \<noteq> []) (pathsFrom roots stack es)) \<inter> A = {}"
proof (induction es arbitrary: roots stack A)
  case (Cons e es)
  let ?st = "dropWhile (\<lambda>(dp, _, _). en_depth e \<le> dp) stack"
  have st: "pathsOk roots ?st A" by (rule pathsOk_pop[OF Cons.prems])
  show ?case
  proof (cases "en_slug e = []")
    case False
    then show ?thesis using Cons.IH[OF pathsOk_slug[OF st]] by (simp add: Let_def)
  next
    case True
    show ?thesis
    proof (cases ?st)
      case Nil
      then show ?thesis using True pathsOk_root[OF st, of "en_depth e"]
          Cons.IH[of "roots + 1" "[(en_depth e, [roots + 1], 0)]" "insert [roots + 1] A"]
        by (auto simp: Let_def simp del: dropWhile_eq_Nil_conv)
    next
      case (Cons x rest)
      then obtain dp p k where x: "?st = (dp, p, k) # rest" by (cases x) auto
      show ?thesis
      proof (cases "p = []")
        case e: True
        then show ?thesis using True x Cons.IH[OF pathsOk_under_slug[OF st[unfolded x e]], of "en_depth e"]
          by (simp add: Let_def)
      next
        case ne: False
        note c = pathsOk_child[OF st[unfolded x] ne, of "en_depth e"]
        show ?thesis using True x ne c Cons.IH[OF conjunct2[OF c]] by (auto simp: Let_def)
      qed
    qed
  qed
qed simp

lemma splitAt_no_sep: "sep \<notin> set x \<Longrightarrow> splitAt sep x = [x]"
  by (induction x) auto

lemma splitAt_append: "sep \<notin> set x \<Longrightarrow> splitAt sep (x @ sep # s) = x # splitAt sep s"
  by (induction x) auto

lemma splitAt_joinWith:
  "xs \<noteq> [] \<Longrightarrow> \<forall>x\<in>set xs. sep \<notin> set x \<Longrightarrow> splitAt sep (joinWith [sep] xs) = xs"
  by (induction "[sep]" xs rule: joinWith.induct) (auto simp: splitAt_no_sep splitAt_append)

lemma natStr_chars: "c \<in> set (natStr n) \<Longrightarrow> digitCh c"
  using natStr_digits by (simp add: digitCh_def)

lemma intStr_no_dot: "CHR ''.'' \<notin> set (intStr n)"
  using natStr_digits[of "CHR ''.''"] by (auto simp: intStr_def)

lemma pathNumber_inj: "pathNumber ps = pathNumber qs \<Longrightarrow> ps = qs"
proof -
  assume e: "pathNumber ps = pathNumber qs"
  show ?thesis
  proof (cases "ps = []")
    case True
    then show ?thesis using e pathNumber_empty[of qs] by simp
  next
    case False
    then have ne: "qs \<noteq> []" using e pathNumber_empty[of ps] by auto
    have nd: "\<forall>x\<in>set (map intStr ns). CHR ''.'' \<notin> set x" for ns using intStr_no_dot by auto
    have "splitAt (CHR ''.'') (pathNumber ns) = map intStr ns" if "ns \<noteq> []" for ns
      unfolding pathNumber_def using that by (intro splitAt_joinWith nd) simp
    then have "map intStr ps = map intStr qs" using e False ne by metis
    then show ?thesis by (rule list.inj_map_strong[rotated]) (rule intStr_inj)
  qed
qed

lemma DeriveNumbers_paths: "map dv_number (DeriveNumbers es) = map pathNumber (pathsFrom 0 [] es)"
  unfolding DeriveNumbers_def by (rule deriveFrom_paths) simp

lemma DeriveNumbers_distinct: "distinct (filter (\<lambda>n. n \<noteq> []) (map dv_number (DeriveNumbers es)))"
proof -
  have "pathsOk 0 [] {}" by (simp add: pathsOk_def)
  from pathsFrom_fresh[OF this, of es]
  have "distinct (filter (\<lambda>p. p \<noteq> []) (pathsFrom 0 [] es))" by blast
  moreover have "filter (\<lambda>n. n \<noteq> []) (map dv_number (DeriveNumbers es)) =
      map pathNumber (filter (\<lambda>p. p \<noteq> []) (pathsFrom 0 [] es))"
    by (simp add: DeriveNumbers_paths filter_map comp_def)
  ultimately show ?thesis using pathNumber_inj by (auto simp: distinct_map inj_on_def)
qed

text \<open>A number's anchor is no slug, and what is derived under a slug is one.\<close>

definition goodNumber :: "string \<Rightarrow> bool" where
  "goodNumber n \<longleftrightarrow> n \<noteq> [] \<and> \<not> lowerCh (last n) \<and> list_all allDigits (splitAt (CHR ''.'') n)"

lemma splitAt_two: "splitAt sep (x @ sep # y) = splitAt sep x @ splitAt sep y"
proof (induction x)
  case (Cons c x)
  have "splitAt sep x \<noteq> []" by (cases x) (auto split: list.split)
  then show ?case using Cons by (auto split: list.splits)
qed simp

lemma splitAt_snoc:
  "c \<noteq> sep \<Longrightarrow> splitAt sep (x @ [c]) = butlast (splitAt sep x) @ [last (splitAt sep x) @ [c]]"
proof (induction x)
  case (Cons a x)
  have "splitAt sep x \<noteq> []" by (cases x) (auto split: list.split)
  then show ?case using Cons by (cases "splitAt sep x") auto
qed simp

lemma digit_not_lower: "digitCh c \<Longrightarrow> \<not> lowerCh c"
  by (simp add: digitCh_def lowerCh_def)

lemma natStr_allDigits: "allDigits (natStr n)"
  using natStr_chars by (auto simp: allDigits_def)

lemma last_natStr: "digitCh (last (natStr n))"
  using natStr_chars[of "last (natStr n)" n] by simp

lemma digits_last:
  assumes "list_all allDigits (splitAt (CHR ''.'') r)"
  shows "r \<noteq> [] \<and> \<not> lowerCh (last r)"
proof (cases r rule: rev_cases)
  case Nil
  then show ?thesis using assms by (simp add: allDigits_def)
next
  case (snoc x c)
  have "c \<noteq> CHR ''.''" using assms splitAt_two[of c x "[]"] snoc by (auto simp: allDigits_def)
  then have "digitCh c" using assms splitAt_snoc[of c "CHR ''.''" x] snoc by (simp add: allDigits_def)
  then show ?thesis using snoc digit_not_lower by simp
qed

lemma goodNumber_iff: "goodNumber n \<longleftrightarrow> list_all allDigits (splitAt (CHR ''.'') n)"
  using digits_last by (auto simp: goodNumber_def)

lemma goodNumber_natStr: "goodNumber (natStr n)"
proof -
  have "CHR ''.'' \<notin> set (natStr n)" using natStr_digits[of "CHR ''.''" n] by auto
  then show ?thesis by (simp add: goodNumber_iff splitAt_no_sep natStr_allDigits)
qed

lemma goodNumber_snoc: "goodNumber n \<Longrightarrow> goodNumber (n @ ''.'' @ natStr m)"
  using goodNumber_natStr[of m] by (simp add: goodNumber_iff splitAt_two)

lemma goodNumber_anchor: "goodNumber n \<Longrightarrow> \<not> IsSlug (''sec-'' @ n)"
  by (simp add: IsSlug_def numberedAnchor_def Let_def goodNumber_def)

lemma numberedAnchor_parent:
  assumes "numberedAnchor (a @ ''.'' @ natStr m)"
  shows "numberedAnchor a"
proof -
  obtain r where r: "dropPrefix ''sec-'' (a @ ''.'' @ natStr m) = Some r"
    using assms by (auto simp: numberedAnchor_def split: option.splits)
  have "a @ ''.'' @ natStr m = ''sec-'' @ r" using dropPrefix_Some[OF r] .
  then obtain b where b: "a = ''sec-'' @ b" "r = b @ ''.'' @ natStr m"
    by (auto simp: append_eq_append_conv2 append_eq_Cons_conv Cons_eq_append_conv)
  have "last r = last (natStr m)" using b(2) by simp
  then have "\<not> lowerCh (last r)" using last_natStr digit_not_lower by simp
  then have "list_all allDigits (splitAt (CHR ''.'') (b @ ''.'' @ natStr m))"
    using assms r b(2) by (simp add: numberedAnchor_def Let_def)
  then have "list_all allDigits (splitAt (CHR ''.'') b)" by (simp add: splitAt_two)
  then show ?thesis using digits_last[of b] by (simp add: numberedAnchor_def b(1) Let_def)
qed

lemma IsSlug_child: "IsSlug a \<Longrightarrow> IsSlug (a @ ''.'' @ natStr m)"
  using numberedAnchor_parent[of a m] by (auto simp: IsSlug_def)

section \<open>Deriving twice\<close>

text \<open>What a frame's derived value looks like.\<close>

definition derivedOk :: "derived \<Rightarrow> bool" where
  "derivedOk d \<longleftrightarrow>
     (if dv_number d = [] then IsSlug (dv_anchor d)
      else goodNumber (dv_number d) \<and> dv_anchor d = ''sec-'' @ dv_number d)"

definition reEntry :: "entry \<Rightarrow> derived \<Rightarrow> entry" where
  "reEntry e d = e\<lparr>en_slug := (if IsSlug (dv_anchor d) then dv_anchor d else [])\<rparr>"

text \<open>Two stacks that differ in the counters of unnumbered frames only.\<close>

definition sameFrames :: "(int \<times> derived \<times> int) list \<Rightarrow> (int \<times> derived \<times> int) list \<Rightarrow> bool" where
  "sameFrames st st' \<longleftrightarrow> list_all2 (\<lambda>(dp, d, k) (dp', d', k').
     dp = dp' \<and> d = d' \<and> derivedOk d \<and> 0 \<le> k \<and> (dv_number d \<noteq> [] \<longrightarrow> k = k')) st st'"

lemma sameFrames_pop:
  "sameFrames st st' \<Longrightarrow> sameFrames (dropWhile (\<lambda>(dp, _, _). c \<le> dp) st) (dropWhile (\<lambda>(dp, _, _). c \<le> dp) st')"
  unfolding sameFrames_def by (induction st st' rule: list_all2_induct) auto

lemma intStr_nat: "0 \<le> k \<Longrightarrow> intStr k = natStr (nat k)"
  by (simp add: intStr_def)

lemma derivedOk_slug: "IsSlug a \<Longrightarrow> derivedOk \<lparr>dv_number = [], dv_anchor = a\<rparr>"
  by (simp add: derivedOk_def)

lemma derivedOk_number: "goodNumber n \<Longrightarrow> derivedOk \<lparr>dv_number = n, dv_anchor = ''sec-'' @ n\<rparr>"
  by (simp add: derivedOk_def goodNumber_def)

lemma sec_number_anchor: "goodNumber n \<Longrightarrow> \<not> IsSlug (CHR ''s'' # CHR ''e'' # CHR ''c'' # CHR ''-'' # n)"
  using goodNumber_anchor by simp

lemma IsSlug_ne: "IsSlug a \<Longrightarrow> a \<noteq> []"
  by (simp add: IsSlug_def)

lemma deriveFrom_again:
  assumes "sameFrames st st'" "0 \<le> roots" "list_all (\<lambda>e. en_slug e = [] \<or> IsSlug (en_slug e)) es"
  shows "list_all derivedOk (deriveFrom roots st es) \<and>
    deriveFrom roots st' (map2 reEntry es (deriveFrom roots st es)) = deriveFrom roots st es"
  using assms
proof (induction es arbitrary: roots st st')
  case (Cons e es)
  let ?s = "dropWhile (\<lambda>(dp, _, _). en_depth e \<le> dp) st"
  let ?s' = "dropWhile (\<lambda>(dp, _, _). en_depth e \<le> dp) st'"
  have same: "sameFrames ?s ?s'" by (rule sameFrames_pop[OF Cons.prems(1)])
  have es: "list_all (\<lambda>e. en_slug e = [] \<or> IsSlug (en_slug e)) es" using Cons.prems(3) by simp
  have push: "sameFrames ((l, d, 0) # a) ((l, d, 0) # b)" if "sameFrames a b" "derivedOk d" for l d a b
    using that by (simp add: sameFrames_def)
  show ?case
  proof (cases "en_slug e = []")
    case False
    let ?d = "\<lparr>dv_number = [], dv_anchor = en_slug e\<rparr>"
    have sl: "IsSlug (en_slug e)" using Cons.prems(3) False by simp
    note ih = Cons.IH[OF push[OF same derivedOk_slug[OF sl]] Cons.prems(2) es, of "en_depth e"]
    show ?thesis using ih False sl by (simp add: Let_def reEntry_def derivedOk_slug)
  next
    case True
    show ?thesis
    proof (cases ?s)
      case Nil
      then have n': "?s' = []" using same by (simp add: sameFrames_def del: dropWhile_eq_Nil_conv)
      let ?n = "intStr (roots + 1)"
      have g: "goodNumber ?n" using Cons.prems(2) by (simp add: intStr_nat goodNumber_natStr)
      have nil: "sameFrames [] []" by (simp add: sameFrames_def)
      have r: "0 \<le> roots + 1" using Cons.prems(2) by simp
      note ih = Cons.IH[OF push[OF nil derivedOk_number[OF g]] r es, of "en_depth e"]
      show ?thesis using ih True Nil n' g sec_number_anchor[OF g] derivedOk_number[OF g]
        by (simp add: Let_def reEntry_def del: dropWhile_eq_Nil_conv)
    next
      case (Cons x rest)
      then obtain dp d k where x: "?s = (dp, d, k) # rest" by (cases x) auto
      then obtain k' rest' where x': "?s' = (dp, d, k') # rest'" "sameFrames rest rest'" "derivedOk d" "0 \<le> k"
        "dv_number d \<noteq> [] \<longrightarrow> k = k'"
        using same by (cases ?s') (auto simp: sameFrames_def)
      let ?n = "intStr (k + 1)"
      have n: "?n = natStr (nat (k + 1))" using x'(4) by (simp add: intStr_nat)
      show ?thesis
      proof (cases "dv_number d = []")
        case e: True
        let ?d = "\<lparr>dv_number = [], dv_anchor = dv_anchor d @ ''.'' @ ?n\<rparr>"
        have sl: "IsSlug (dv_anchor d @ ''.'' @ ?n)"
          using x'(3) e IsSlug_child n by (simp add: derivedOk_def)
        have "sameFrames ((dp, d, k + 1) # rest) ((dp, d, k') # rest')"
          using x' e by (simp add: sameFrames_def)
        note ih = Cons.IH[OF push[OF this derivedOk_slug[OF sl]] Cons.prems(2) es, of "en_depth e"]
        show ?thesis using ih True x x'(1) e sl derivedOk_slug[OF sl] IsSlug_ne[OF sl]
          by (simp add: Let_def reEntry_def)
      next
        case ne: False
        have g: "goodNumber (dv_number d @ ''.'' @ ?n)"
          using x'(3) ne goodNumber_snoc n by (simp add: derivedOk_def)
        have "sameFrames ((dp, d, k + 1) # rest) ((dp, d, k' + 1) # rest')"
          using x' ne by (simp add: sameFrames_def)
        note ih = Cons.IH[OF push[OF this derivedOk_number[OF g]] Cons.prems(2) es, of "en_depth e"]
        show ?thesis using ih True x x' ne g sec_number_anchor[OF g] derivedOk_number[OF g]
          by (simp add: Let_def reEntry_def)
      qed
    qed
  qed
qed simp

lemma length_deriveFrom: "length (deriveFrom roots st es) = length es"
  by (induction es arbitrary: roots st) (auto simp: Let_def split: list.split)

lemma assignDerived_again:
  "list_all (\<lambda>d. dv_anchor d \<noteq> []) ds \<Longrightarrow> length ds = length (filter (\<lambda>s. sc_anchor s \<noteq> []) ss) \<Longrightarrow>
   Entries (assignDerived ss ds) = map2 reEntry (Entries ss) ds \<and>
   assignDerived (assignDerived ss ds) ds = assignDerived ss ds \<and>
   map (\<lambda>s. \<lparr>dv_number = sc_number s, dv_anchor = sc_anchor s\<rparr>) (filter (\<lambda>s. sc_anchor s \<noteq> []) (assignDerived ss ds)) = ds"
proof (induction ss arbitrary: ds)
  case (Cons s ss)
  show ?case
  proof (cases "sc_anchor s = []")
    case True
    then show ?thesis using Cons by (simp add: Entries_def)
  next
    case False
    then obtain d ds' where ds: "ds = d # ds'" using Cons.prems by (cases ds) auto
    have ih: "Entries (assignDerived ss ds') = map2 reEntry (Entries ss) ds' \<and>
       assignDerived (assignDerived ss ds') ds' = assignDerived ss ds' \<and>
       map (\<lambda>s. \<lparr>dv_number = sc_number s, dv_anchor = sc_anchor s\<rparr>) (filter (\<lambda>s. sc_anchor s \<noteq> []) (assignDerived ss ds')) = ds'"
      using Cons ds False by simp
    then show ?thesis using False ds Cons.prems(1) by (simp add: Entries_def reEntry_def)
  qed
qed (simp add: Entries_def)

text \<open>Deriving numbers and anchors twice gives what deriving them once gives, no
  two anchored sections get the same number, and a numbered one has the anchor of
  its number.\<close>

theorem derived_numbers_stable:
  "DeriveAnchors (DeriveAnchors d) = DeriveAnchors d \<and>
   distinct (filter (\<lambda>n. n \<noteq> []) (map sc_number (filter (\<lambda>s. sc_anchor s \<noteq> []) (do_sections (DeriveAnchors d))))) \<and>
   list_all (\<lambda>s. sc_anchor s = [] \<or> sc_number s = [] \<or> sc_anchor s = ''sec-'' @ sc_number s)
     (do_sections (DeriveAnchors d))"
proof -
  let ?ss = "do_sections d"
  define ds where "ds = DeriveNumbers (Entries ?ss)"
  define ss where "ss = assignDerived ?ss ds"
  have e: "list_all (\<lambda>e. en_slug e = [] \<or> IsSlug (en_slug e)) (Entries ?ss)"
    by (auto simp: Entries_def list_all_iff)
  have again: "list_all derivedOk ds" "DeriveNumbers (map2 reEntry (Entries ?ss) ds) = ds"
    using deriveFrom_again[OF _ _ e, of "[]" "[]" 0] by (simp_all add: ds_def DeriveNumbers_def sameFrames_def)
  have "dv_anchor x \<noteq> []" if "derivedOk x" for x
    using that by (auto simp: derivedOk_def IsSlug_def split: if_splits)
  then have ne: "list_all (\<lambda>d. dv_anchor d \<noteq> []) ds" using again(1) by (auto simp: list_all_iff)
  have len: "length ds = length (filter (\<lambda>s. sc_anchor s \<noteq> []) ?ss)"
    by (simp add: ds_def DeriveNumbers_def length_deriveFrom Entries_def)
  note a = assignDerived_again[OF ne len, folded ss_def]
  have d1: "DeriveAnchors d = d\<lparr>do_sections := ss\<rparr>" by (simp add: DeriveAnchors_def ss_def ds_def)
  have "DeriveAnchors (DeriveAnchors d) = DeriveAnchors d"
    unfolding d1 using a again(2) by (simp add: DeriveAnchors_def)
  moreover have "map sc_number (filter (\<lambda>s. sc_anchor s \<noteq> []) ss) = map dv_number ds"
    using arg_cong[OF conjunct2[OF conjunct2[OF a]], of "map dv_number"] by (simp add: comp_def)
  moreover have "sc_number s = [] \<or> sc_anchor s = ''sec-'' @ sc_number s" if "s \<in> set ss" "sc_anchor s \<noteq> []" for s
  proof -
    have "\<lparr>dv_number = sc_number s, dv_anchor = sc_anchor s\<rparr> \<in> set ds"
      using that unfolding conjunct2[OF conjunct2[OF a], symmetric] by auto
    then show ?thesis using again(1) by (fastforce simp: list_all_iff derivedOk_def split: if_splits)
  qed
  ultimately show ?thesis unfolding d1 using DeriveNumbers_distinct[of "Entries ?ss"]
    by (auto simp: ds_def list_all_iff)
qed

text \<open>Below an unnumbered entry the anchor derived for a child reads as a slug the
  next time. A new sibling after it is then given the same anchor.\<close>

theorem derived_anchor_clash:
  assumes "IsSlug a"
  shows "map dv_anchor (DeriveNumbers [\<lparr>en_depth = 2, en_slug = a\<rparr>, \<lparr>en_depth = 3, en_slug = []\<rparr>]) = [a, a @ ''.1''] \<and>
    IsSlug (a @ ''.1'') \<and>
    map dv_anchor (DeriveNumbers [\<lparr>en_depth = 2, en_slug = a\<rparr>, \<lparr>en_depth = 3, en_slug = a @ ''.1''\<rparr>,
      \<lparr>en_depth = 3, en_slug = []\<rparr>]) = [a, a @ ''.1'', a @ ''.1'']"
proof -
  have one: "intStr 1 = ''1''" by code_simp
  then have "natStr 1 = ''1''" by (simp add: intStr_def)
  then have "IsSlug (a @ ''.1'')" using IsSlug_child[OF assms, of 1] by simp
  then show ?thesis using assms one by (simp add: DeriveNumbers_def Let_def IsSlug_def)
qed

theorem derived_anchor_clash_witness:
  "map dv_anchor (DeriveNumbers [\<lparr>en_depth = 2, en_slug = ''purpose''\<rparr>, \<lparr>en_depth = 3, en_slug = ''purpose.1''\<rparr>,
      \<lparr>en_depth = 3, en_slug = []\<rparr>]) = [''purpose'', ''purpose.1'', ''purpose.1'']"
proof -
  have "IsSlug ''purpose''" by code_simp
  from derived_anchor_clash[OF this] show ?thesis by simp
qed

section \<open>Renumbering twice\<close>

lemma joinCounters_good:
  assumes "cs \<noteq> []"
  shows "joinCounters cs \<noteq> [] \<and> \<not> isInsert (joinCounters cs)"
proof -
  obtain xs x where c: "cs = xs @ [x]" using assms by (cases cs rule: rev_cases) auto
  have "digitCh (last (intStr x))" using last_natStr by (simp add: intStr_def)
  moreover have "last (joinCounters cs) = last (intStr x)"
    by (cases "xs = []") (simp_all add: joinCounters_def c joinWith_snoc)
  moreover have "joinCounters cs \<noteq> []" using assms pathNumber_empty[of cs] by (simp add: joinCounters_def pathNumber_def)
  ultimately show ?thesis using digit_not_lower by (simp add: isInsert_def)
qed

lemma resetBelow_facts:
  "length (resetBelow l cs) = length cs" "1 \<le> l \<Longrightarrow> cs \<noteq> [] \<Longrightarrow> resetBelow l cs ! 0 = cs ! 0"
  by (auto simp: resetBelow_def nth_append)

lemma renumberFrom_again:
  assumes "renumberFrom n cs ss = (ss', [])" "length cs = n" "1 \<le> n" "list_all (\<lambda>s. 2 \<le> sc_level s) ss"
  shows "renumberFrom n cs ss' = (ss', []) \<and> map sc_level ss' = map sc_level ss \<and>
    list_all (\<lambda>s. n < nat (sc_level s - 1) \<or> sc_number s = [] \<or> sc_anchor s = ''sec-'' @ sc_number s) ss'"
  using assms
proof (induction ss arbitrary: cs ss')
  case (Cons s ss)
  let ?l = "nat (sc_level s - 1)"
  have "2 \<le> sc_level s" using Cons.prems(4) by simp
  then have l: "1 \<le> ?l" by linarith
  have ih: "renumberFrom n c r = (r, []) \<and> map sc_level r = map sc_level ss \<and>
      list_all (\<lambda>s. n < nat (sc_level s - 1) \<or> sc_number s = [] \<or> sc_anchor s = ''sec-'' @ sc_number s) r"
    if "renumberFrom n c ss = (r, [])" "length c = n" for c r
    using Cons.IH[OF that] Cons.prems(3,4) by simp
  consider (deep) "?l > n" | (un) "\<not> ?l > n" "sc_number s = []"
    | (num) "\<not> ?l > n" "sc_number s \<noteq> []" "list_all snd (take (?l - 1) cs)"
    using Cons.prems(1) by (cases "list_all snd (take (?l - 1) cs)") (auto simp: Let_def split: prod.splits if_splits)
  then show ?case
  proof cases
    case deep
    then show ?thesis using Cons.prems(1,2) ih[of cs] by (auto simp: Let_def split: prod.splits)
  next
    case un
    then show ?thesis using Cons.prems(1,2) ih[of "resetBelow ?l cs"]
      by (auto simp: Let_def resetBelow_facts split: prod.splits)
  next
    case num
    let ?c1 = "cs[?l - 1 := (fst (cs ! (?l - 1)), True)]"
    let ?c2 = "resetBelow ?l (cs[?l - 1 := (fst (cs ! (?l - 1)) + 1, True)])"
    let ?n = "joinCounters (map fst (take ?l ?c2))"
    have "length ?c2 = n" using Cons.prems(2) by (simp add: resetBelow_facts)
    then have "take ?l ?c2 \<noteq> []" using l Cons.prems(3) by auto
    then have g: "?n \<noteq> []" "\<not> isInsert ?n" using joinCounters_good[of "map fst (take ?l ?c2)"] by auto
    show ?thesis
    proof (cases "isInsert (sc_number s)")
      case True
      then show ?thesis using num Cons.prems(1,2) ih[of ?c1]
        by (auto simp: Let_def split: prod.splits if_splits)
    next
      case False
      then show ?thesis using num g Cons.prems(1,2) ih[of ?c2] \<open>length ?c2 = n\<close>
        by (auto simp: Let_def split: prod.splits if_splits)
    qed
  qed
qed simp

lemma renumberFrom_top:
  assumes "renumberFrom n cs ss = (ss', [])" "length cs = n" "1 \<le> n" "list_all (\<lambda>s. 2 \<le> sc_level s) ss"
  shows "case filter (\<lambda>s. sc_level s = 2 \<and> sc_number s \<noteq> []) ss of
      [] \<Rightarrow> filter (\<lambda>s. sc_level s = 2 \<and> sc_number s \<noteq> []) ss' = []
    | s # _ \<Rightarrow> \<exists>s' r. filter (\<lambda>s. sc_level s = 2 \<and> sc_number s \<noteq> []) ss' = s' # r \<and>
        (if isInsert (sc_number s) then sc_number s' = sc_number s
         else sc_number s' = intStr (fst (cs ! 0) + 1))"
  using assms
proof (induction ss arbitrary: cs ss')
  case (Cons s ss)
  let ?l = "nat (sc_level s - 1)"
  let ?top = "\<lambda>s. sc_level s = 2 \<and> sc_number s \<noteq> []"
  have "2 \<le> sc_level s" using Cons.prems(4) by simp
  then have l: "1 \<le> ?l" by linarith
  have cs: "cs \<noteq> []" using Cons.prems(2,3) by auto
  have ih: "case filter ?top ss of [] \<Rightarrow> filter ?top r = []
    | s # _ \<Rightarrow> \<exists>s' q. filter ?top r = s' # q \<and> (if isInsert (sc_number s) then sc_number s' = sc_number s
         else sc_number s' = intStr (fst (c ! 0) + 1))"
    if "renumberFrom n c ss = (r, [])" "length c = n" for c r
    using Cons.IH[OF that] Cons.prems(3,4) by simp
  obtain c s' r where rest: "renumberFrom n c ss = (r, [])" "ss' = s' # r" "length c = n"
    and keep: "\<not> ?top s \<Longrightarrow> c ! 0 = cs ! 0" "\<not> ?top s \<Longrightarrow> \<not> ?top s'"
    and top: "?top s \<Longrightarrow> ?top s' \<and> (if isInsert (sc_number s) then sc_number s' = sc_number s
         else sc_number s' = intStr (fst (cs ! 0) + 1))"
  proof -
    consider (deep) "?l > n" | (un) "\<not> ?l > n" "sc_number s = []"
      | (num) "\<not> ?l > n" "sc_number s \<noteq> []" "list_all snd (take (?l - 1) cs)"
      using Cons.prems(1) by (cases "list_all snd (take (?l - 1) cs)") (auto simp: Let_def split: prod.splits if_splits)
    then show thesis
    proof cases
      case deep
      then have "sc_level s \<noteq> 2" using Cons.prems(3) by auto
      then show ?thesis using Cons.prems(1,2) deep by (intro that[of cs "tl ss'" s]) (auto simp: Let_def split: prod.splits)
    next
      case un
      then show ?thesis using Cons.prems(1,2) l cs
        by (intro that[of "resetBelow ?l cs" "tl ss'" s]) (auto simp: Let_def resetBelow_facts split: prod.splits)
    next
      case num
      let ?c1 = "cs[?l - 1 := (fst (cs ! (?l - 1)), True)]"
      let ?c2 = "resetBelow ?l (cs[?l - 1 := (fst (cs ! (?l - 1)) + 1, True)])"
      let ?n = "joinCounters (map fst (take ?l ?c2))"
      have two: "?l = 1" if "sc_level s = 2" using that by simp
      have far: "?l - 1 \<noteq> 0" if "sc_level s \<noteq> 2" using that \<open>2 \<le> sc_level s\<close> by linarith
      show ?thesis
      proof (cases "isInsert (sc_number s)")
        case True
        then have "renumberFrom n ?c1 ss = (tl ss', [])" "ss' = hd ss' # tl ss'" "sc_level (hd ss') = sc_level s"
          "sc_number (hd ss') = sc_number s"
          using num Cons.prems(1) by (auto simp: Let_def split: prod.splits if_splits)
        then show ?thesis using True far num(2) Cons.prems(2) by (intro that[of ?c1 "tl ss'" "hd ss'"]) auto
      next
        case False
        then have r: "renumberFrom n ?c2 ss = (tl ss', [])" "ss' = hd ss' # tl ss'" "sc_level (hd ss') = sc_level s"
          "sc_number (hd ss') = ?n"
          using num Cons.prems(1) by (auto simp: Let_def split: prod.splits if_splits)
        have "?n = intStr (fst (cs ! 0) + 1)" if "sc_level s = 2"
          using cs two[OF that] by (cases cs) (auto simp: resetBelow_def joinCounters_def)
        moreover have "?c2 ! 0 = cs ! 0" if "sc_level s \<noteq> 2"
          using far[OF that] l cs by (simp add: resetBelow_facts)
        moreover have "intStr k \<noteq> []" for k by simp
        ultimately show ?thesis using r num(2) False Cons.prems(2)
          by (intro that[of ?c2 "tl ss'" "hd ss'"]) (auto simp: resetBelow_facts)
      qed
    qed
  qed
  show ?case
  proof (cases "?top s")
    case True
    then show ?thesis using top rest(2) by simp
  next
    case False
    have f1: "filter ?top (s # ss) = filter ?top ss" using False by (simp only: filter.simps if_False)
    have f2: "filter ?top ss' = filter ?top r"
      using keep(2)[OF False] rest(2) by (simp only: filter.simps if_False)
    show ?thesis unfolding f1 f2 keep(1)[OF False, symmetric] by (rule ih[OF rest(1,3)])
  qed
qed simp

lemma Renumber_again:
  assumes "Renumber d depth = Inr d'" "list_all (\<lambda>s. 2 \<le> sc_level s) (do_sections d)"
  shows "Renumber d' depth = Inr d' \<and> map sc_level (do_sections d') = map sc_level (do_sections d) \<and>
    list_all (\<lambda>s. nat (max 1 depth) < nat (sc_level s - 1) \<or> sc_number s = [] \<or>
      sc_anchor s = ''sec-'' @ sc_number s) (do_sections d')"
proof -
  let ?n = "nat (max 1 depth)" and ?ss = "do_sections d"
  define cs where "cs = (\<lambda>f :: int. (f - 1, False) # replicate (?n - 1) (0, False))"
  obtain ss' where r: "renumberFrom ?n (cs (firstTopNumber ?ss)) ?ss = (ss', [])" "d' = d\<lparr>do_sections := ss'\<rparr>"
    using assms(1) by (auto simp: Renumber_def Let_def cs_def split: prod.splits list.splits)
  have len: "length (cs f) = ?n" "1 \<le> ?n" for f by (simp_all add: cs_def)
  note a = renumberFrom_again[OF r(1) len assms(2)]
  have "firstTopNumber ss' = firstTopNumber ?ss"
  proof (cases "filter (\<lambda>s. sc_level s = 2 \<and> sc_number s \<noteq> []) ?ss")
    case Nil
    then show ?thesis using renumberFrom_top[OF r(1) len assms(2)] by (simp add: firstTopNumber_def)
  next
    case (Cons s q)
    then obtain s' q' where t: "filter (\<lambda>s. sc_level s = 2 \<and> sc_number s \<noteq> []) ss' = s' # q'"
      "if isInsert (sc_number s) then sc_number s' = sc_number s
         else sc_number s' = intStr (firstTopNumber ?ss)"
      using renumberFrom_top[OF r(1) len assms(2)] by (auto simp: cs_def)
    have "intStr 0 = ''0''" "intStr 1 = ''1''" by code_simp+
    then show ?thesis using t Cons by (auto simp: firstTopNumber_def split: if_splits)
  qed
  then show ?thesis using a r by (simp add: Renumber_def Let_def cs_def)
qed

lemma renumberFrom_frame:
  "renumberFrom n cs ss = (ss', df) \<Longrightarrow>
     map (\<lambda>s. s\<lparr>sc_number := [], sc_anchor := []\<rparr>) ss' = map (\<lambda>s. s\<lparr>sc_number := [], sc_anchor := []\<rparr>) ss"
proof (induction ss arbitrary: cs ss' df)
  case (Cons s ss)
  then show ?case by (auto simp: Let_def split: prod.splits if_splits dest!: Cons.IH)
qed simp

text \<open>Renumbering what has been renumbered changes nothing. It only writes the
  numbers and anchors of sections within the depth, and gives each of these that
  carries a number the anchor of that number.\<close>

theorem renumber_stable:
  assumes "Renumber d depth = Inr d'" "list_all (\<lambda>s. 2 \<le> sc_level s) (do_sections d)"
  shows "Renumber d' depth = Inr d' \<and>
    list_all (\<lambda>s. nat (max 1 depth) < nat (sc_level s - 1) \<or> sc_number s = [] \<or>
      sc_anchor s = ''sec-'' @ sc_number s) (do_sections d') \<and>
    do_preamble d' = do_preamble d \<and> do_front d' = do_front d \<and>
    map (\<lambda>s. s\<lparr>sc_number := [], sc_anchor := []\<rparr>) (do_sections d') =
      map (\<lambda>s. s\<lparr>sc_number := [], sc_anchor := []\<rparr>) (do_sections d)"
proof -
  have "do_preamble d' = do_preamble d \<and> do_front d' = do_front d"
    using assms(1) by (auto simp: Renumber_def Let_def split: prod.splits list.splits)
  moreover have "map (\<lambda>s. s\<lparr>sc_number := [], sc_anchor := []\<rparr>) (do_sections d') =
      map (\<lambda>s. s\<lparr>sc_number := [], sc_anchor := []\<rparr>) (do_sections d)"
    using assms(1) by (auto simp: Renumber_def Let_def split: prod.splits list.splits dest!: renumberFrom_frame)
  ultimately show ?thesis using Renumber_again[OF assms] by blast
qed

section \<open>The gate\<close>

lemma in_sortedAnchors: "a \<in> set (sortedAnchors d) \<longleftrightarrow> anchoredSections d a \<noteq> None"
proof -
  have "filter (\<lambda>i. sc_anchor (do_sections d ! i) = a) [0..<length (do_sections d)] = [] \<longleftrightarrow>
      a \<notin> set (map sc_anchor (do_sections d))"
    unfolding in_set_conv_nth filter_empty_conv by auto
  then show ?thesis
    by (auto simp: sortedAnchors_def anchoredSections_def SectionByAnchor_def split: list.splits)
qed

lemma some_pair_iff:
  "((\<forall>a i. f a = Some i \<longrightarrow> g a \<noteq> None) \<and> (\<forall>a i j. f a = Some i \<longrightarrow> g a = Some j \<longrightarrow> P i j)) \<longleftrightarrow>
   (\<forall>a i. f a = Some i \<longrightarrow> (\<exists>j. g a = Some j \<and> P i j))"
  by fastforce

text \<open>A candidate passes the gate exactly when every anchor of the accepted version
  is still there with its number and no anchored section is below the depth
  limit.\<close>

theorem gate_keeps_anchors:
  "Violations (CompareSections acc cand limit) = [] \<longleftrightarrow>
     (\<forall>a i. anchoredSections acc a = Some i \<longrightarrow>
        (\<exists>j. anchoredSections cand a = Some j \<and>
             sc_number (do_sections cand ! j) = sc_number (do_sections acc ! i))) \<and>
     (\<forall>a j. anchoredSections cand a = Some j \<longrightarrow> sc_level (do_sections cand ! j) \<le> limit)"
proof -
  have removed: "df_removed (CompareSections acc cand limit) = [] \<longleftrightarrow>
      (\<forall>a i. anchoredSections acc a = Some i \<longrightarrow> anchoredSections cand a \<noteq> None)"
    by (auto simp: CompareSections_def filter_empty_conv in_sortedAnchors)
  have renum: "df_renumbered (CompareSections acc cand limit) = [] \<longleftrightarrow>
      (\<forall>a i j. anchoredSections acc a = Some i \<longrightarrow> anchoredSections cand a = Some j \<longrightarrow>
        sc_number (do_sections cand ! j) = sc_number (do_sections acc ! i))"
  proof -
    have el: "(case (anchoredSections acc a, anchoredSections cand a) of
          (Some i, Some j) \<Rightarrow>
            (let x = sc_number (do_sections acc ! i); y = sc_number (do_sections cand ! j)
             in if x \<noteq> y then [(a, x, y)] else [])
        | _ \<Rightarrow> []) = [] \<longleftrightarrow>
        (\<forall>i j. anchoredSections acc a = Some i \<longrightarrow> anchoredSections cand a = Some j \<longrightarrow>
          sc_number (do_sections cand ! j) = sc_number (do_sections acc ! i))" for a
      by (auto simp: Let_def split: option.splits)
    show ?thesis
      by (simp only: CompareSections_def section_diff.simps concat_eq_Nil_conv set_map ball_simps el)
        (use in_sortedAnchors in blast)
  qed
  have deep: "df_too_deep (CompareSections acc cand limit) = [] \<longleftrightarrow>
      (\<forall>a j. anchoredSections cand a = Some j \<longrightarrow> sc_level (do_sections cand ! j) \<le> limit)"
  proof -
    have "df_too_deep (CompareSections acc cand limit) = [] \<longleftrightarrow> (\<forall>a\<in>set (sortedAnchors cand).
        \<forall>j. anchoredSections cand a = Some j \<longrightarrow> sc_level (do_sections cand ! j) \<le> limit)"
      by (auto simp: CompareSections_def tooDeepAnchors_def filter_empty_conv not_less split: option.splits)
    then show ?thesis using in_sortedAnchors by blast
  qed
  have "Violations (CompareSections acc cand limit) = [] \<longleftrightarrow>
      df_removed (CompareSections acc cand limit) = [] \<and> df_renumbered (CompareSections acc cand limit) = [] \<and>
      df_too_deep (CompareSections acc cand limit) = []"
    by (auto simp: Violations_def)
  also have "\<dots> \<longleftrightarrow> (\<forall>a i. anchoredSections acc a = Some i \<longrightarrow>
        (\<exists>j. anchoredSections cand a = Some j \<and>
             sc_number (do_sections cand ! j) = sc_number (do_sections acc ! i))) \<and>
     (\<forall>a j. anchoredSections cand a = Some j \<longrightarrow> sc_level (do_sections cand ! j) \<le> limit)"
    unfolding removed renum deep conj_assoc[symmetric] some_pair_iff ..
  finally show ?thesis .
qed

text \<open>Two chapters, the first with a section, as parsed.\<close>

definition plainSection :: "int \<Rightarrow> string \<Rightarrow> nat option \<Rightarrow> docSection" where
  "plainSection l num parent =
     \<lparr>sc_level = l, sc_number = num, sc_title = ''T'', sc_anchor = ''sec-'' @ num, sc_ref = [], sc_rule = [],
      sc_body = ''text'', sc_parent = parent, sc_raw = ''#'', sc_term = [], sc_orig_level = l,
      sc_orig_number = num, sc_orig_title = ''T'', sc_orig_anchor = ''sec-'' @ num, sc_orig_rule = [],
      sc_orig_ref = []\<rparr>"

definition sampleDoc :: document where
  "sampleDoc = \<lparr>do_preamble = [], do_sections =
     [plainSection 2 ''3'' None, plainSection 3 ''3.4'' (Some 0), plainSection 2 ''4'' None], do_front = None\<rparr>"

theorem renumber_stable_witness:
  "\<exists>d'. Renumber sampleDoc 3 = Inr d' \<and> map sc_number (do_sections d') = [''1'', ''1.1'', ''2''] \<and>
     Renumber d' 3 = Inr d'"
proof -
  let ?r = "renumberFrom 3 [(0, False), (0, False), (0, False)] (do_sections sampleDoc)"
  have "map sc_number (fst ?r) = [''1'', ''1.1'', ''2'']" "snd ?r = []" by code_simp+
  then obtain ss where r: "?r = (ss, [])" "map sc_number ss = [''1'', ''1.1'', ''2'']" by (metis prod.collapse)
  have "firstTopNumber (do_sections sampleDoc) = 1" by code_simp
  moreover have "replicate (nat (max 1 3) - 1) (0 :: int, False) = [(0, False), (0, False)]"
    by (simp add: numeral_2_eq_2)
  moreover have "nat (max 1 3) = 3" by simp
  ultimately have n: "Renumber sampleDoc 3 = Inr (sampleDoc\<lparr>do_sections := ss\<rparr>)"
    unfolding Renumber_def Let_def using r by simp
  have "list_all (\<lambda>s. 2 \<le> sc_level s) (do_sections sampleDoc)" by code_simp
  from renumber_stable[OF n this] n r(2) show ?thesis by auto
qed

theorem gate_keeps_anchors_witness:
  "Violations (CompareSections sampleDoc (sampleDoc\<lparr>do_sections := tl (do_sections sampleDoc)\<rparr>) 3) \<noteq> [] \<and>
   anchoredSections sampleDoc ''sec-3'' = Some 0 \<and>
   anchoredSections (sampleDoc\<lparr>do_sections := tl (do_sections sampleDoc)\<rparr>) ''sec-3'' = None"
proof -
  let ?c = "sampleDoc\<lparr>do_sections := tl (do_sections sampleDoc)\<rparr>"
  have a: "anchoredSections sampleDoc ''sec-3'' = Some 0" "anchoredSections ?c ''sec-3'' = None" by code_simp+
  then show ?thesis using gate_keeps_anchors[of sampleDoc ?c 3] by fastforce
qed

end
