(* ===== verification/DocSpec.thy ===== *)
theory DocSpec
  imports DocDiff
begin

text \<open>
  What the document text model promises: parsing loses no byte, a subtree is a
  piece of the source, and the line runs cover every line once.
\<close>

section \<open>Lines tile the text\<close>

fun tiled :: "nat \<Rightarrow> lspan list \<Rightarrow> nat \<Rightarrow> bool" where
  "tiled i [] n \<longleftrightarrow> i = n"
| "tiled i (l # ls) n \<longleftrightarrow> sp_from l = i \<and> i < sp_to l \<and> sp_to l \<le> n \<and> tiled (sp_to l) ls n"

lemma tiled_spansFrom: "tiled i (spansFrom i s) (i + length s)"
proof (induction i s rule: spansFrom.induct)
  case (1 i s)
  let ?t = "takeWhile (\<lambda>c. c \<noteq> nlChar) s"
  have le: "length ?t \<le> length s" by (rule length_takeWhile_le)
  show ?case
  proof (cases "s = [] \<or> length ?t = length s")
    case True
    then show ?thesis by (subst spansFrom.simps) (auto simp: Let_def)
  next
    case False
    then have lt: "length ?t < length s" using le by simp
    have "i + length ?t + 1 + length (drop (length ?t + 1) s) = i + length s" using lt by simp
    then have "tiled (i + length ?t + 1) (spansFrom (i + length ?t + 1) (drop (length ?t + 1) s)) (i + length s)"
      using 1[OF _ refl] False by metis
    then show ?thesis using False lt by (subst spansFrom.simps) (simp add: Let_def)
  qed
qed

lemma tiled_lines: "tiled 0 (lineSpans s) (length s)"
  using tiled_spansFrom[of 0 s] by (simp add: lineSpans_def)

lemma tiled_le: "tiled i ls n \<Longrightarrow> i \<le> n"
  by (induction i ls n rule: tiled.induct) auto

lemma tiled_mem: "tiled i ls n \<Longrightarrow> l \<in> set ls \<Longrightarrow> i \<le> sp_from l \<and> sp_from l < sp_to l \<and> sp_to l \<le> n"
  by (induction i ls n rule: tiled.induct) (auto dest: tiled_le)

fun hitsIn :: "nat \<Rightarrow> hit list \<Rightarrow> nat \<Rightarrow> bool" where
  "hitsIn i [] n \<longleftrightarrow> i \<le> n"
| "hitsIn i (h # hs) n \<longleftrightarrow> i \<le> h_start h \<and> h_start h < h_end h \<and> hitsIn (h_end h) hs n"

lemma hitsIn_le: "hitsIn i hs n \<Longrightarrow> i \<le> n"
  by (induction i hs n rule: hitsIn.induct) auto

lemma hitsIn_mono: "hitsIn j hs n \<Longrightarrow> i \<le> j \<Longrightarrow> hitsIn i hs n"
  by (cases hs) auto

lemma hitsIn_scan: "tiled i lns n \<Longrightarrow> hitsIn i (scanLines body fence lns) n"
proof (induction lns arbitrary: i fence)
  case (Cons ln lns)
  then have ln: "sp_from ln = i" "i < sp_to ln" and tl: "tiled (sp_to ln) lns n" by auto
  have rest: "hitsIn (sp_to ln) (scanLines body f lns) n" for f by (rule Cons.IH[OF tl])
  have "hitsIn i (scanLines body f lns) n" for f
    using hitsIn_mono[OF rest] ln(2) by simp
  then show ?case using rest ln by (simp add: Let_def split: option.split)
qed simp

section \<open>Parsing loses nothing\<close>

lemma cut_append: "a \<le> b \<Longrightarrow> b \<le> c \<Longrightarrow> cut s a b @ cut s b c = cut s a c"
proof -
  assume "a \<le> b" "b \<le> c"
  then have "c - a = (b - a) + (c - b)" "drop b s = drop (b - a) (drop a s)" by simp_all
  then show ?thesis unfolding cut_def by (metis take_add)
qed

lemma cut_all: "cut s a (length s) = drop a s"
  by (simp add: cut_def)

lemma headingSource_parsed: "headingSource (sectionOf body h e p) = cut body (h_start h) (h_end h)"
  by (simp add: headingSource_def sectionOf_def Let_def)

lemma HeadingAndBody_parsed:
  "h_start h \<le> h_end h \<Longrightarrow> h_end h \<le> e \<Longrightarrow> HeadingAndBody (sectionOf body h e p) = cut body (h_start h) e"
  by (simp add: HeadingAndBody_def headingSource_parsed cut_append) (simp add: sectionOf_def Let_def cut_append)

lemma sections_concat:
  "hitsIn i (h # hs) (length body) \<Longrightarrow>
     concat (map HeadingAndBody (sectionsOf body (h # hs) ps)) = drop (h_start h) body"
proof (induction hs arbitrary: i h ps)
  case Nil
  then show ?case by (simp add: HeadingAndBody_parsed cut_all)
next
  case (Cons g hs)
  have le: "h_start h \<le> h_end h" "h_end h \<le> h_start g" "h_start g \<le> length body"
    and rest: "hitsIn (h_end h) (g # hs) (length body)"
    using Cons.prems by (auto dest: hitsIn_le)
  have "concat (map HeadingAndBody (sectionsOf body (g # hs) (tl ps))) = drop (h_start g) body"
    by (rule Cons.IH[OF rest])
  moreover have "cut body (h_start h) (h_start g) @ drop (h_start g) body = drop (h_start h) body"
    unfolding cut_all[symmetric] using le by (intro cut_append) auto
  ultimately show ?case using le by (simp add: HeadingAndBody_parsed)
qed

lemma parseBody_bytes:
  "do_preamble (parseBody body fm) @ concat (map HeadingAndBody (do_sections (parseBody body fm))) = body"
proof (cases "scanHeadings body")
  case Nil
  then show ?thesis by (simp add: parseBody_def)
next
  case (Cons h hs)
  have "hitsIn 0 (h # hs) (length body)"
    using hitsIn_scan[OF tiled_lines[of body], of body "[]"] Cons by (simp add: scanHeadings_def)
  from sections_concat[OF this] show ?thesis by (simp add: parseBody_def Cons Let_def)
qed

lemma splitFrontmatter_bytes:
  assumes "splitFrontmatter src = (front, inner, body)"
  shows "src = front @ body"
  using assms by (auto simp: splitFrontmatter_def Let_def cut_def split: if_splits list.splits)

lemma round_trip:
  assumes "Parse ym src = Some d"
  shows "Bytes ym d = src"
proof -
  obtain front inner body where s: "splitFrontmatter src = (front, inner, body)" by (metis prod_cases3)
  have src: "src = front @ body" by (rule splitFrontmatter_bytes[OF s])
  show ?thesis
  proof (cases "front = []")
    case True
    then have "d = parseBody body None" using assms s by (simp add: Parse_def)
    moreover have "do_front (parseBody body None) = None" by (simp add: parseBody_def Let_def)
    ultimately show ?thesis using True src parseBody_bytes[of body None]
      by (simp add: Bytes_def fm_source_def)
  next
    case False
    then obtain fm where fm: "parseFrontmatter ym front inner = Some fm" "d = parseBody body (Some fm)"
      using assms s by (auto simp: Parse_def split: option.splits)
    have "fm_source ym (Some fm) = front" using fm(1) by (auto simp: fm_source_def parseFrontmatter_def)
    moreover have "do_front d = Some fm" by (simp add: fm(2) parseBody_def Let_def)
    ultimately show ?thesis using src parseBody_bytes[of body "Some fm"] fm(2) by (simp add: Bytes_def)
  qed
qed

text \<open>C35: Parsing keeps the source exactly: a document nobody has edited renders
  byte for byte what was parsed, its header's comments and line endings
  included.\<close>

theorem parse_round_trip:
  assumes "Parse ym src = Some d"
  shows "Bytes ym d = src"
  by (rule round_trip[OF assms])

text \<open>A header with a comment, then a section, with both line endings.\<close>

definition headerYaml :: yaml_lib where
  "headerYaml = \<lparr>ym_decode = (\<lambda>s. Some (JObj [(''status'', JStr ''draft'')])), ym_encode = (\<lambda>j. ''status: draft'' @ [nlChar])\<rparr>"

definition headerText :: string where
  "headerText = ''---'' @ [nlChar] @ ''status:   draft # new'' @ [crChar, nlChar] @ ''---'' @ [nlChar] @
     ''##   1.  Aim  {#sec-1}'' @ [crChar, nlChar] @ ''text''"

theorem parse_round_trip_witness:
  "\<exists>d. Parse headerYaml headerText = Some d \<and> do_front d \<noteq> None \<and> Bytes headerYaml d = headerText"
proof -
  have "fst (splitFrontmatter headerText) \<noteq> []" by code_simp
  then obtain fm body where p: "Parse headerYaml headerText = Some (parseBody body (Some fm))"
    by (cases "splitFrontmatter headerText") (simp add: Parse_def parseFrontmatter_def headerYaml_def)
  moreover have "do_front (parseBody body (Some fm)) = Some fm" by (simp add: parseBody_def Let_def)
  ultimately show ?thesis using parse_round_trip[OF p] by blast
qed

section \<open>The tree of sections\<close>

text \<open>p encloses j: the nearest earlier section of a smaller level.\<close>

definition encloses :: "int list \<Rightarrow> nat \<Rightarrow> nat \<Rightarrow> bool" where
  "encloses lv p j \<longleftrightarrow> p < j \<and> lv ! p < lv ! j \<and> (\<forall>m. p < m \<longrightarrow> m < j \<longrightarrow> lv ! j \<le> lv ! m)"

text \<open>What is on the stack before section i: the sections no later one closes.\<close>

definition openAt :: "int list \<Rightarrow> nat \<Rightarrow> nat list" where
  "openAt lv i = rev (filter (\<lambda>k. \<forall>m. k < m \<longrightarrow> m < i \<longrightarrow> lv ! k < lv ! m) [0..<i])"

lemma dropWhile_sorted:
  fixes key :: "'a \<Rightarrow> int"
  shows "sorted_wrt (\<lambda>a b. key b \<le> key a) xs \<Longrightarrow> dropWhile (\<lambda>x. c \<le> key x) xs = filter (\<lambda>x. key x < c) xs"
proof (induction xs)
  case (Cons x xs)
  show ?case
  proof (cases "c \<le> key x")
    case True
    then show ?thesis using Cons by simp
  next
    case False
    then have "\<forall>y\<in>set xs. key y < c" using Cons.prems by fastforce
    then show ?thesis using False by simp
  qed
qed simp

lemma openAt_sorted: "sorted_wrt (\<lambda>a b. b < a \<and> lv ! b < lv ! a) (openAt lv i)"
proof -
  have "sorted_wrt (\<lambda>a b. a < b) (filter (\<lambda>k. \<forall>m. k < m \<longrightarrow> m < i \<longrightarrow> lv ! k < lv ! m) [0..<i])"
    by (rule sorted_wrt_filter) simp
  then have "sorted_wrt (\<lambda>a b. a < b \<and> lv ! a < lv ! b) (filter (\<lambda>k. \<forall>m. k < m \<longrightarrow> m < i \<longrightarrow> lv ! k < lv ! m) [0..<i])"
    by (rule sorted_wrt_mono_rel[rotated]) auto
  then show ?thesis by (simp add: openAt_def sorted_wrt_rev)
qed

lemma openAt_Suc: "openAt lv (Suc i) = i # filter (\<lambda>k. lv ! k < lv ! i) (openAt lv i)"
proof -
  have "filter (\<lambda>k. \<forall>m. k < m \<longrightarrow> m < Suc i \<longrightarrow> lv ! k < lv ! m) [0..<i] =
      filter (\<lambda>k. lv ! k < lv ! i) (filter (\<lambda>k. \<forall>m. k < m \<longrightarrow> m < i \<longrightarrow> lv ! k < lv ! m) [0..<i])"
    by (auto simp: less_Suc_eq intro!: filter_cong)
  then show ?thesis by (simp add: openAt_def rev_filter)
qed

lemma openAt_head:
  "(case filter (\<lambda>k. lv ! k < lv ! i) (openAt lv i) of [] \<Rightarrow> None | p # _ \<Rightarrow> Some p) = Some p \<longleftrightarrow> encloses lv p i"
proof -
  let ?F = "filter (\<lambda>k. lv ! k < lv ! i) (openAt lv i)"
  have mem: "k \<in> set ?F \<longleftrightarrow> k < i \<and> lv ! k < lv ! i \<and> (\<forall>m. k < m \<longrightarrow> m < i \<longrightarrow> lv ! k < lv ! m)" for k
    by (auto simp: openAt_def)
  have srt: "sorted_wrt (\<lambda>a b. b < a) ?F"
    using sorted_wrt_filter[OF openAt_sorted[of lv i]] by (rule sorted_wrt_mono_rel[rotated]) simp
  have first: "encloses lv q i \<longleftrightarrow> q \<in> set ?F \<and> (\<forall>k\<in>set ?F. k \<le> q)" for q
  proof
    assume e: "encloses lv q i"
    then have "q \<in> set ?F" unfolding mem by (auto simp: encloses_def)
    moreover have "k \<le> q" if "k \<in> set ?F" for k
      using that e unfolding mem encloses_def by (metis not_le)
    ultimately show "q \<in> set ?F \<and> (\<forall>k\<in>set ?F. k \<le> q)" by blast
  next
    assume q: "q \<in> set ?F \<and> (\<forall>k\<in>set ?F. k \<le> q)"
    show "encloses lv q i"
    proof (rule ccontr)
      assume "\<not> encloses lv q i"
      then obtain m where m: "q < m" "m < i" "lv ! m < lv ! i" using q unfolding mem encloses_def by (metis not_le)
      define g where "g = Max {m. m < i \<and> lv ! m < lv ! i}"
      have fin: "finite {m. m < i \<and> lv ! m < lv ! i}" by simp
      have "g \<in> {m. m < i \<and> lv ! m < lv ! i}" unfolding g_def using m by (intro Max_in[OF fin]) auto
      moreover have "m \<le> g" unfolding g_def using m by (intro Max_ge[OF fin]) simp
      ultimately have g: "g < i" "lv ! g < lv ! i" "m \<le> g" by auto
      have "lv ! g < lv ! k" if "g < k" "k < i" for k
        using Max_ge[OF fin, of k] that g(2) unfolding g_def[symmetric] by (metis mem_Collect_eq not_le order_less_le_trans)
      then have "g \<in> set ?F" unfolding mem using g by blast
      then show False using q m(1) g(3) by auto
    qed
  qed
  show ?thesis
  proof (cases ?F)
    case Nil
    then show ?thesis using first[of p] by simp
  next
    case (Cons x xs)
    then have "\<forall>k\<in>set ?F. k \<le> x" "x \<in> set ?F" using srt by (auto simp: less_imp_le)
    then show ?thesis using first[of p] Cons by (auto intro: antisym)
  qed
qed

lemma linkFrom_nth:
  "i \<le> length lv \<Longrightarrow> k < length lv - i \<Longrightarrow>
   linkFrom (map (\<lambda>j. (j, lv ! j)) (openAt lv i)) i (drop i lv) ! k = Some p \<longleftrightarrow> encloses lv p (i + k)"
proof (induction "length lv - i" arbitrary: i k)
  case (Suc n)
  then have lt: "i < length lv" by simp
  let ?st = "map (\<lambda>j. (j, lv ! j)) (openAt lv i)"
  have "sorted_wrt (\<lambda>a b. lv ! b \<le> lv ! a) (openAt lv i)"
    using openAt_sorted[of lv i] by (rule sorted_wrt_mono_rel[rotated]) simp
  from dropWhile_sorted[OF this, of "lv ! i"]
  have dw: "dropWhile (\<lambda>(j, lj). lv ! i \<le> lj) ?st = map (\<lambda>j. (j, lv ! j)) (filter (\<lambda>k. lv ! k < lv ! i) (openAt lv i))"
    by (simp add: dropWhile_map comp_def)
  have step: "linkFrom ?st i (drop i lv) =
      (case filter (\<lambda>k. lv ! k < lv ! i) (openAt lv i) of [] \<Rightarrow> None | p # _ \<Rightarrow> Some p) #
      linkFrom (map (\<lambda>j. (j, lv ! j)) (openAt lv (Suc i))) (Suc i) (drop (Suc i) lv)"
    unfolding Cons_nth_drop_Suc[OF lt, symmetric]
    by (simp add: dw openAt_Suc Let_def split: list.split)
  show ?case
  proof (cases k)
    case 0
    then show ?thesis unfolding step using openAt_head[of lv i p] by simp
  next
    case (Suc k')
    then show ?thesis unfolding step using Suc.hyps(1)[of "Suc i" k'] Suc.hyps(2) Suc.prems by simp
  qed
qed simp

lemma link_parent: "j < length lv \<Longrightarrow> linkFrom [] 0 lv ! j = Some p \<longleftrightarrow> encloses lv p j"
  using linkFrom_nth[of 0 lv j p] by (simp add: openAt_def)

section \<open>A subtree is a piece of the source\<close>

text \<open>Where a subtree ends: the next section of the same or a smaller level.\<close>

definition subtreeEnd :: "int list \<Rightarrow> nat \<Rightarrow> nat" where
  "subtreeEnd lv i = Suc i + length (takeWhile (\<lambda>l. lv ! i < l) (drop (Suc i) lv))"

lemma subtreeEnd_bounds: "i < length lv \<Longrightarrow> i < subtreeEnd lv i \<and> subtreeEnd lv i \<le> length lv"
  using length_takeWhile_le[of "\<lambda>l. lv ! i < l" "drop (Suc i) lv"] by (simp add: subtreeEnd_def)

lemma subtreeEnd_in: "i < m \<Longrightarrow> m < subtreeEnd lv i \<Longrightarrow> i < length lv \<Longrightarrow> lv ! i < lv ! m"
proof -
  assume a: "i < m" "m < subtreeEnd lv i" "i < length lv"
  let ?t = "takeWhile (\<lambda>l. lv ! i < l) (drop (Suc i) lv)"
  have k: "m - Suc i < length ?t" using a by (simp add: subtreeEnd_def)
  then have "?t ! (m - Suc i) \<in> set ?t" by simp
  then have "lv ! i < ?t ! (m - Suc i)" using set_takeWhileD by fast
  moreover have "?t ! (m - Suc i) = lv ! m"
    using takeWhile_nth[OF k] a subtreeEnd_bounds[OF a(3)] by simp
  ultimately show ?thesis by simp
qed

lemma subtreeEnd_out:
  assumes "i < length lv" "subtreeEnd lv i < length lv"
  shows "lv ! subtreeEnd lv i \<le> lv ! i"
proof -
  have "length (takeWhile (\<lambda>l. lv ! i < l) (drop (Suc i) lv)) < length (drop (Suc i) lv)"
    using assms by (simp add: subtreeEnd_def)
  from nth_length_takeWhile[OF this] show ?thesis using assms by (simp add: subtreeEnd_def)
qed

text \<open>The levels and parents of a parsed list of sections.\<close>

definition levelsOf :: "docSection list \<Rightarrow> int list" where
  "levelsOf ss = map sc_level ss"

definition linked :: "docSection list \<Rightarrow> bool" where
  "linked ss \<longleftrightarrow> (\<forall>j<length ss. \<forall>p. sc_parent (ss ! j) = Some p \<longleftrightarrow> encloses (levelsOf ss) p j)"

lemma piece_split: "a \<le> b \<Longrightarrow> b \<le> c \<Longrightarrow> [a..<c] = [a..<b] @ [b..<c]"
  by (metis le_add_diff_inverse upt_add_eq_append)

lemma children_piece:
  assumes ok: "linked ss" and i: "i < length ss"
    and src: "\<And>k. i < k \<Longrightarrow> k < length ss \<Longrightarrow>
      Source ss k = concat (map (\<lambda>m. HeadingAndBody (ss ! m)) [k..<subtreeEnd (levelsOf ss) k])"
  shows "i < k \<Longrightarrow> k \<le> subtreeEnd (levelsOf ss) i \<Longrightarrow>
    k = subtreeEnd (levelsOf ss) i \<or> (\<forall>p. i < p \<longrightarrow> p < k \<longrightarrow> levelsOf ss ! k \<le> levelsOf ss ! p) \<Longrightarrow>
    concat (map (Source ss) (filter (\<lambda>j. sc_parent (ss ! j) = Some i) [k..<length ss])) =
    concat (map (\<lambda>m. HeadingAndBody (ss ! m)) [k..<subtreeEnd (levelsOf ss) i])"
proof (induction "length ss - k" arbitrary: k rule: less_induct)
  case less
  let ?lv = "levelsOf ss"
  let ?e = "subtreeEnd ?lv i"
  have len: "length ?lv = length ss" by (simp add: levelsOf_def)
  have par: "sc_parent (ss ! j) = Some i \<longleftrightarrow> encloses ?lv i j" if "j < length ss" for j
    using ok that by (simp add: linked_def)
  show ?case
  proof (cases "k = ?e")
    case True
    have "\<not> encloses ?lv i j" if "k \<le> j" "j < length ss" for j
    proof
      assume e: "encloses ?lv i j"
      have "?lv ! ?e \<le> ?lv ! i" using subtreeEnd_out[of i ?lv] i len True that by simp
      then show False using e that True less.prems(1) unfolding encloses_def
        by (metis le_neq_implies_less not_le order_less_le_trans)
    qed
    then have "filter (\<lambda>j. sc_parent (ss ! j) = Some i) [k..<length ss] = []"
      using par by (auto simp: filter_empty_conv)
    then show ?thesis using True by simp
  next
    case False
    have klt: "k < ?e" "?e \<le> length ss" using False less.prems(2) subtreeEnd_bounds[of i ?lv] i len by auto
    then have kl: "k < length ss" by simp
    let ?f = "subtreeEnd ?lv k"
    have f: "k < ?f" "?f \<le> length ss" using subtreeEnd_bounds[of k ?lv] kl len by auto
    have lvk: "?lv ! i < ?lv ! k" using subtreeEnd_in[of i k ?lv] less.prems(1) klt(1) i len by simp
    have inside: "?lv ! k < ?lv ! m" if "k < m" "m < ?f" for m using subtreeEnd_in[of k m ?lv] that kl len by simp
    have fe: "?f \<le> ?e"
    proof (rule ccontr)
      assume "\<not> ?f \<le> ?e"
      then have "?lv ! k < ?lv ! ?e" "?e < length ss" using inside[of ?e] klt f by auto
      then show False using subtreeEnd_out[of i ?lv] i len lvk by simp
    qed
    have enc: "encloses ?lv i k" using less.prems(1,3) False lvk by (simp add: encloses_def)
    have "\<not> encloses ?lv i m" if "k < m" "m < ?f" for m
      using inside[OF that] that less.prems(1) unfolding encloses_def by (metis not_le)
    then have none: "filter (\<lambda>j. sc_parent (ss ! j) = Some i) [Suc k..<?f] = []"
      using par f by (auto simp: filter_empty_conv)
    have "[k..<length ss] = k # [Suc k..<?f] @ [?f..<length ss]"
      using piece_split[of "Suc k" ?f "length ss"] f kl by (simp add: upt_conv_Cons)
    then have "filter (\<lambda>j. sc_parent (ss ! j) = Some i) [k..<length ss] =
        k # filter (\<lambda>j. sc_parent (ss ! j) = Some i) [?f..<length ss]"
      using none par[OF kl] enc by simp
    moreover have "?f = ?e \<or> (\<forall>p. i < p \<longrightarrow> p < ?f \<longrightarrow> ?lv ! ?f \<le> ?lv ! p)"
    proof (cases "?f = ?e")
      case ne: False
      then have "?lv ! ?f \<le> ?lv ! k" using subtreeEnd_out[of k ?lv] kl len fe klt by simp
      moreover have "?lv ! k \<le> ?lv ! p" if "i < p" "p < ?f" for p
        using that less.prems(3) False inside[of p] by (cases p k rule: linorder_cases) auto
      ultimately show ?thesis by (meson order_trans)
    qed simp
    ultimately have "concat (map (Source ss) (filter (\<lambda>j. sc_parent (ss ! j) = Some i) [k..<length ss])) =
        Source ss k @ concat (map (\<lambda>m. HeadingAndBody (ss ! m)) [?f..<?e])"
      using less.hyps[of ?f] f kl fe less.prems(1) by simp
    also have "\<dots> = concat (map (\<lambda>m. HeadingAndBody (ss ! m)) ([k..<?f] @ [?f..<?e]))"
      using src[OF less.prems(1) kl] by simp
    also have "[k..<?f] @ [?f..<?e] = [k..<?e]" using piece_split[of k ?f ?e] f fe by simp
    finally show ?thesis .
  qed
qed

lemma Source_piece:
  assumes "linked ss"
  shows "i < length ss \<Longrightarrow>
    Source ss i = concat (map (\<lambda>m. HeadingAndBody (ss ! m)) [i..<subtreeEnd (levelsOf ss) i])"
proof (induction "length ss - i" arbitrary: i rule: less_induct)
  case less
  let ?e = "subtreeEnd (levelsOf ss) i"
  have e: "i < ?e" using subtreeEnd_bounds[of i "levelsOf ss"] less.prems by (simp add: levelsOf_def)
  have "concat (map (Source ss) (childrenOf ss i)) = concat (map (\<lambda>m. HeadingAndBody (ss ! m)) [Suc i..<?e])"
    unfolding childrenOf_def using children_piece[OF assms less.prems, of "Suc i"] less.hyps e by simp
  then show ?case by (subst Source.simps) (simp add: upt_conv_Cons[OF e])
qed

lemma sectionsOf_maps:
  "length ps = length hs \<Longrightarrow> map sc_level (sectionsOf body hs ps) = map (\<lambda>h. int (length (h_hashes h))) hs \<and>
     map sc_parent (sectionsOf body hs ps) = ps"
proof (induction body hs ps rule: sectionsOf.induct)
  case (2 body h ps)
  then show ?case by (cases ps) (auto simp: sectionOf_def Let_def)
next
  case (3 body h g hs ps)
  then show ?case by (cases ps) (auto simp: sectionOf_def Let_def)
qed simp

lemma length_linkFrom [simp]: "length (linkFrom st i ls) = length ls"
  by (induction ls arbitrary: st i) (auto simp: Let_def)

lemma sectionsOf_anchors: "map sc_anchor (sectionsOf body hs ps) = map h_anchor hs"
  by (induction body hs ps rule: sectionsOf.induct) (auto simp: sectionOf_def Let_def)

lemma parseBody_linked: "linked (do_sections (parseBody body fm))"
proof -
  let ?hs = "scanHeadings body"
  let ?lv = "map (\<lambda>h. int (length (h_hashes h))) ?hs"
  let ?ss = "sectionsOf body ?hs (linkFrom [] 0 ?lv)"
  have ss: "do_sections (parseBody body fm) = ?ss" by (simp add: parseBody_def Let_def)
  have m: "levelsOf ?ss = ?lv" "map sc_parent ?ss = linkFrom [] 0 ?lv"
    using sectionsOf_maps[of "linkFrom [] 0 ?lv" ?hs body] by (simp_all add: levelsOf_def)
  then have "length ?ss = length ?lv" by (metis length_map levelsOf_def)
  then show ?thesis unfolding ss linked_def m(1) using link_parent[of _ ?lv] m(2) by (metis nth_map)
qed

lemma Parse_linked: "Parse ym src = Some d \<Longrightarrow> linked (do_sections d)"
  using parseBody_linked by (auto simp: Parse_def split: prod.splits if_splits option.splits)

lemma first_in_filter:
  assumes "filter P [0..<n] = i # rest"
  shows "i < n \<and> P i \<and> (\<forall>k<i. \<not> P k)"
proof -
  have m: "k \<in> set (i # rest) \<longleftrightarrow> k < n \<and> P k" for k unfolding assms[symmetric] by auto
  have "sorted (filter P [0..<n])" by (rule sorted_wrt_filter) simp
  then have "k \<in> set (i # rest) \<Longrightarrow> i \<le> k" for k unfolding assms by auto
  then show ?thesis using m by (metis list.set_intros(1) not_le order_less_trans)
qed

text \<open>What Subtree cuts out for an anchor is one piece of the source: the first
  section that carries the anchor and the deeper ones that follow it, up to the
  next section of its level or above.\<close>

theorem subtree_is_a_piece:
  assumes "Parse ym src = Some d" "Subtree d anchor = Some t"
  shows "\<exists>i e. i < e \<and> e \<le> length (do_sections d) \<and> sc_anchor (do_sections d ! i) = anchor \<and>
    (\<forall>k<i. sc_anchor (do_sections d ! k) \<noteq> anchor) \<and>
    (\<forall>m. i < m \<longrightarrow> m < e \<longrightarrow> sc_level (do_sections d ! i) < sc_level (do_sections d ! m)) \<and>
    (e < length (do_sections d) \<longrightarrow> sc_level (do_sections d ! e) \<le> sc_level (do_sections d ! i)) \<and>
    src = fm_source ym (do_front d) @ do_preamble d @ concat (map HeadingAndBody (take i (do_sections d))) @
          t @ concat (map HeadingAndBody (drop e (do_sections d)))"
proof -
  let ?ss = "do_sections d"
  obtain i rest where f: "filter (\<lambda>i. sc_anchor (?ss ! i) = anchor) [0..<length ?ss] = i # rest" "t = Source ?ss i"
    using assms(2) by (auto simp: Subtree_def split: list.splits)
  note i = first_in_filter[OF f(1)]
  let ?e = "subtreeEnd (levelsOf ?ss) i"
  have len: "length (levelsOf ?ss) = length ?ss" by (simp add: levelsOf_def)
  have e: "i < ?e" "?e \<le> length ?ss" using subtreeEnd_bounds[of i "levelsOf ?ss"] i len by auto
  have lv: "levelsOf ?ss ! m = sc_level (?ss ! m)" if "m < length ?ss" for m using that by (simp add: levelsOf_def)
  have t: "t = concat (map (\<lambda>m. HeadingAndBody (?ss ! m)) [i..<?e])"
    using Source_piece[OF Parse_linked[OF assms(1)], of i] i f(2) by simp
  have "map (\<lambda>m. HeadingAndBody (?ss ! m)) [i..<?e] = map HeadingAndBody (take (?e - i) (drop i ?ss))"
    using e by (intro nth_equalityI) auto
  then have t2: "t = concat (map HeadingAndBody (take (?e - i) (drop i ?ss)))" using t by simp
  have "?ss = take i ?ss @ take (?e - i) (drop i ?ss) @ drop ?e ?ss"
    using e by (metis append_take_drop_id drop_drop le_add_diff_inverse2 less_imp_le)
  then have "concat (map HeadingAndBody ?ss) = concat (map HeadingAndBody (take i ?ss)) @ t @
      concat (map HeadingAndBody (drop ?e ?ss))"
    unfolding t2 by (metis concat_append map_append)
  then have "src = fm_source ym (do_front d) @ do_preamble d @ concat (map HeadingAndBody (take i ?ss)) @
          t @ concat (map HeadingAndBody (drop ?e ?ss))"
    using round_trip[OF assms(1)] by (simp add: Bytes_def)
  moreover have "\<forall>m. i < m \<longrightarrow> m < ?e \<longrightarrow> sc_level (?ss ! i) < sc_level (?ss ! m)"
    using subtreeEnd_in[of i _ "levelsOf ?ss"] i len lv e by (metis less_le_trans)
  moreover have "?e < length ?ss \<longrightarrow> sc_level (?ss ! ?e) \<le> sc_level (?ss ! i)"
    using subtreeEnd_out[of i "levelsOf ?ss"] i len lv by metis
  ultimately show ?thesis using i e by blast
qed

text \<open>A section inside another.\<close>

definition nestedText :: string where
  "nestedText = ''## A {#a}'' @ [nlChar] @ ''### B'' @ [nlChar] @ ''## C''"

theorem subtree_is_a_piece_witness:
  "\<exists>d t pre post. Parse headerYaml nestedText = Some d \<and> Subtree d ''a'' = Some t \<and>
     nestedText = pre @ t @ post \<and> map sc_anchor (do_sections d) = [''a'', [], []]"
proof -
  obtain d where d: "d = parseBody nestedText None" by blast
  have "splitFrontmatter nestedText = ([], [], nestedText)" by code_simp
  then have p: "Parse headerYaml nestedText = Some d" by (simp add: Parse_def d)
  have "map h_anchor (scanHeadings nestedText) = [''a'', [], []]" by code_simp
  then have a: "map sc_anchor (do_sections d) = [''a'', [], []]"
    unfolding d by (simp add: parseBody_def Let_def sectionsOf_anchors)
  have len: "length (do_sections d) = 3" using arg_cong[OF a, of length] by simp
  then have "sc_anchor (do_sections d ! 0) = ''a''" using nth_map[of 0 "do_sections d" sc_anchor] a by simp
  then have "filter (\<lambda>i. sc_anchor (do_sections d ! i) = ''a'') [0..<length (do_sections d)] \<noteq> []"
    using len by (auto simp: filter_empty_conv intro!: bexI[of _ 0])
  then have "Subtree d ''a'' \<noteq> None" unfolding Subtree_def by (simp split: list.split)
  then obtain t where t: "Subtree d ''a'' = Some t" by blast
  from subtree_is_a_piece[OF p t] show ?thesis using p t a by (metis append_assoc)
qed

section \<open>Line runs\<close>

text \<open>The lines a list of runs covers.\<close>

definition runLines :: "anchorRun list \<Rightarrow> int list" where
  "runLines rs = concat (map (\<lambda>r. [ar_from r..ar_to r]) rs)"

lemma runLines_simps [simp]:
  "runLines [] = []" "runLines (r # rs) = [ar_from r..ar_to r] @ runLines rs"
  "runLines (rs @ rs') = runLines rs @ runLines rs'"
  by (simp_all add: runLines_def)

text \<open>A run names the offset of its first line; a heading is one line long and its
  line starts the section, no line of another run does.\<close>

definition runOk :: "(nat \<Rightarrow> string option) \<Rightarrow> lspan list \<Rightarrow> anchorRun \<Rightarrow> bool" where
  "runOk starts lns r \<longleftrightarrow> 1 \<le> ar_from r \<and> ar_from r \<le> ar_to r \<and> ar_to r \<le> int (length lns) \<and>
     ar_offset r = int (sp_from (lns ! nat (ar_from r - 1))) \<and> 
     (if ar_heading r then ar_to r = ar_from r \<and> starts (sp_from (lns ! nat (ar_from r - 1))) = Some (ar_anchor r)
      else \<forall>m. ar_from r \<le> m \<longrightarrow> m \<le> ar_to r \<longrightarrow> starts (sp_from (lns ! nat (m - 1))) = None)"

text \<open>The anchor of a run that is no heading is that of the heading before.\<close>

fun anchorsFollow :: "string \<Rightarrow> anchorRun list \<Rightarrow> bool" where
  "anchorsFollow a [] = True"
| "anchorsFollow a (r # rs) = ((ar_heading r \<or> ar_anchor r = a) \<and> anchorsFollow (ar_anchor r) rs)"

lemma runsFrom_anchors:
  "ar_anchor cur = a \<Longrightarrow> anchorsFollow a (runsFrom starts n opened cur lns)"
  by (induction starts n opened cur lns arbitrary: a rule: runsFrom.induct) (auto split: option.split)


lemma upto_snoc: "a \<le> n \<Longrightarrow> [a..n] @ [n + 1..m] = [a..m]" if "n \<le> m" for a n m :: int
  using that by (metis upto_split2 upto_split1 add.commute upto_rec2 append_assoc le_less_linear upto_empty append_Nil2 less_add_one) 

lemma runsFrom_lines:
  assumes "k = length pre" "n = int k + 1"
    and "opened \<Longrightarrow> runOk starts (pre @ lns) cur \<and> ar_to cur = int k \<and> \<not> ar_heading cur"
    and "\<not> opened \<Longrightarrow> \<not> ar_heading cur"
  shows "runLines (runsFrom starts n opened cur lns) =
      [(if opened then ar_from cur else n)..int (length (pre @ lns))] \<and>
    (\<forall>r\<in>set (runsFrom starts n opened cur lns). runOk starts (pre @ lns) r)"
  using assms
proof (induction starts n opened cur lns arbitrary: pre k rule: runsFrom.induct)
  case (1 starts n opened cur)
  then show ?case by auto
next
  case (2 starts n opened cur ln lns)
  let ?all = "pre @ ln # lns" and ?N = "int (length (pre @ ln # lns))"
  have all: "?all = (pre @ [ln]) @ lns" by simp
  have k: "Suc k = length (pre @ [ln])" "n + 1 = int (Suc k) + 1" "n \<le> ?N" using 2(3,4) by auto
  have at: "?all ! nat (n - 1) = ln" using 2(3,4) by simp
  show ?case
  proof (cases "starts (sp_from ln)")
    case (Some a)
    let ?c = "\<lparr>ar_from = n + 1, ar_to = 0, ar_offset = int (sp_to ln), ar_anchor = a, ar_heading = False\<rparr>"
    let ?h = "\<lparr>ar_from = n, ar_to = n, ar_offset = int (sp_from ln), ar_anchor = a, ar_heading = True\<rparr>"
    have ih: "runLines (runsFrom starts (n + 1) False ?c lns) = [n + 1..?N]"
      "\<forall>r\<in>set (runsFrom starts (n + 1) False ?c lns). runOk starts ?all r"
      using 2(2)[OF Some k(1,2)] unfolding all by simp_all
    have h: "runOk starts ?all ?h" using at 2(3,4) Some by (simp add: runOk_def)
    have "[n..n] @ [n + 1..?N] = [n..?N]" by (rule upto_snoc) (use k in auto)
    moreover have "[ar_from cur..n - 1] @ [n..?N] = [ar_from cur..?N]" if opened
      using upto_snoc[of "n - 1" ?N "ar_from cur"] 2(3-5) that by (auto simp: runOk_def)
    ultimately show ?thesis using Some ih h 2(3-5) by auto
  next
    case None
    let ?c = "if opened then cur\<lparr>ar_to := n\<rparr> else cur\<lparr>ar_from := n, ar_to := n, ar_offset := int (sp_from ln)\<rparr>"
    have "runOk starts ?all ?c \<and> ar_to ?c = int (Suc k) \<and> \<not> ar_heading ?c"
    proof (cases opened)
      case True
      have "starts (sp_from (?all ! nat (m - 1))) = None" if "ar_from cur \<le> m" "m \<le> n" for m
      proof (cases "m = n")
        case eq: True
        then show ?thesis using None at by simp
      next
        case ne: False
        then show ?thesis using that 2(3-5) True by (auto simp: runOk_def)
      qed
      then show ?thesis using True 2(3-5) by (auto simp: runOk_def)
    next
      case False
      have "m = n" if "n \<le> m" "m \<le> n" for m using that by simp
      then show ?thesis using False 2(3,4,6) at None by (auto simp: runOk_def)
    qed
    then have ih: "runLines (runsFrom starts (n + 1) True ?c lns) = [ar_from ?c..?N]"
      "\<forall>r\<in>set (runsFrom starts (n + 1) True ?c lns). runOk starts ?all r"
      using 2(1)[OF None k(1,2)] unfolding all by simp_all
    then show ?thesis using None by simp
  qed
qed

text \<open>The runs cover every line of the body exactly once and in order; a line
  that opens one of the sections is a run of its own under that section's anchor,
  and the lines up to the next one carry the same anchor.\<close>

theorem anchor_runs_cover:
  "runLines (AnchorRuns body known) = [1..int (length (lineSpans body))] \<and>
   list_all (runOk (sectionStarts body known) (lineSpans body)) (AnchorRuns body known) \<and>
   anchorsFollow [] (AnchorRuns body known)"
  using runsFrom_lines[of 0 "[]" 1 False "sectionStarts body known" "lineSpans body"
      "\<lparr>ar_from = 1, ar_to = 0, ar_offset = 0, ar_anchor = [], ar_heading = False\<rparr>"]
  by (simp add: AnchorRuns_def list_all_iff runsFrom_anchors)

end
